(* ===== verification/Prelude.thy ===== *)
theory Prelude
  imports Main "HOL-Library.Word" "HOL-Library.Char_ord" "HOL-Library.List_Lexorder"
    "HOL-Library.Product_Lexorder"
begin

text \<open>
  Shared ground of the development: the machine integers of the Rust sources, results
  (Rust's \<^verbatim>\<open>Result\<close>, an error on the left and a value on the right), the sequencing
  done by the question mark operator and by loops over a slice that return early, and the
  lemma collections the components add to.  A Rust \<^verbatim>\<open>str\<close> is its UTF-8 bytes, a
  \<^typ>\<open>string\<close> of 8-bit characters; the imported orders on characters and lists make the
  order of strings the bytewise lexicographic one of Rust.
\<close>

section \<open>Types\<close>

type_synonym u8 = "8 word"
type_synonym u16 = "16 word"
type_synonym u32 = "32 word"
type_synonym u64 = "64 word"

type_synonym ('e, 'a) result = "'e + 'a"

named_theorems result_simps "when a sequence of fallible steps succeeds"
named_theorems text_simps "evaluation and inversion of the text primitives"

section \<open>Results\<close>

fun and_then :: "('e, 'a) result \<Rightarrow> ('a \<Rightarrow> ('e, 'b) result) \<Rightarrow> ('e, 'b) result" where
  "and_then (Inl e) k = Inl e"
| "and_then (Inr x) k = k x"

fun is_ok :: "('e, 'a) result \<Rightarrow> bool" where
  "is_ok (Inl e) = False"
| "is_ok (Inr x) = True"

fun map_err :: "('e \<Rightarrow> 'f) \<Rightarrow> ('e, 'a) result \<Rightarrow> ('f, 'a) result" where
  "map_err f (Inl e) = Inl (f e)"
| "map_err f (Inr x) = Inr x"

definition ok_or :: "'e \<Rightarrow> 'a option \<Rightarrow> ('e, 'a) result" where
  "ok_or e m = (case m of None \<Rightarrow> Inl e | Some x \<Rightarrow> Inr x)"

definition ensure :: "bool \<Rightarrow> 'e \<Rightarrow> ('e, unit) result" where
  "ensure c e = (if c then Inr () else Inl e)"

text \<open>A \<^verbatim>\<open>for\<close> loop whose body ends in the question mark operator.\<close>

fun for_each :: "('a \<Rightarrow> ('e, unit) result) \<Rightarrow> 'a list \<Rightarrow> ('e, unit) result" where
  "for_each f [] = Inr ()"
| "for_each f (x # xs) = and_then (f x) (\<lambda>_. for_each f xs)"

text \<open>
  A \<^verbatim>\<open>for\<close> loop that validates each item and refuses the first one whose key has been
  inserted into a set before.
\<close>

fun distinct_each ::
    "('a \<Rightarrow> ('e, unit) result) \<Rightarrow> ('a \<Rightarrow> 'k) \<Rightarrow> 'e \<Rightarrow> 'k set \<Rightarrow> 'a list \<Rightarrow> ('e, unit) result" where
  "distinct_each f key e seen [] = Inr ()"
| "distinct_each f key e seen (x # xs) =
     and_then (f x) (\<lambda>_.
       if key x \<in> seen then Inl e else distinct_each f key e (insert (key x) seen) xs)"

lemma and_then_Inr [result_simps]:
  "(and_then m k = Inr y) = (\<exists>x. m = Inr x \<and> k x = Inr y)"
  by (cases m) auto

lemma and_then_Inl [result_simps]:
  "(and_then m k = Inl e) = (m = Inl e \<or> (\<exists>x. m = Inr x \<and> k x = Inl e))"
  by (cases m) auto

lemma map_err_Inr [simp]: "(map_err f m = Inr x) = (m = Inr x)"
  by (cases m) auto

lemma ok_or_Inr [result_simps]: "(ok_or e m = Inr x) = (m = Some x)"
  by (auto simp: ok_or_def split: option.splits)

lemma ok_or_Inl [result_simps]: "(ok_or e m = Inl e') = (m = None \<and> e' = e)"
  by (auto simp: ok_or_def split: option.splits)

lemma ensure_Inr [result_simps]: "(ensure c e = Inr u) = c"
  by (simp add: ensure_def)

lemma ensure_Inl [result_simps]: "(ensure c e = Inl e') = (\<not> c \<and> e' = e)"
  by (auto simp: ensure_def)

lemma is_ok_iff: "is_ok m = (\<exists>x. m = Inr x)"
  by (cases m) auto

lemma for_each_Inr [result_simps]: "(for_each f xs = Inr u) = (\<forall>x \<in> set xs. f x = Inr ())"
  by (induction xs) (auto simp: and_then_Inr)

lemma for_each_Inl:
  assumes "for_each f xs = Inl e"
  shows "\<exists>x \<in> set xs. f x = Inl e"
  using assms by (induction xs) (auto simp: and_then_Inl)

lemma distinct_each_Inr [result_simps]:
  "(distinct_each f key e seen xs = Inr u) =
     ((\<forall>x \<in> set xs. f x = Inr ()) \<and> distinct (map key xs) \<and> key ` set xs \<inter> seen = {})"
  by (induction xs arbitrary: seen) (auto simp: and_then_Inr)

section \<open>Machine integers\<close>

definition checked_add :: "'a::len word \<Rightarrow> 'a word \<Rightarrow> 'a word option" where
  "checked_add a b = (if unat a + unat b < 2 ^ LENGTH('a) then Some (a + b) else None)"

definition saturating_add :: "'a::len word \<Rightarrow> 'a word \<Rightarrow> 'a word" where
  "saturating_add a b = (if unat a + unat b < 2 ^ LENGTH('a) then a + b else - 1)"

section \<open>Options\<close>

definition is_some_and :: "'a option \<Rightarrow> ('a \<Rightarrow> bool) \<Rightarrow> bool" where
  "is_some_and m p = (case m of None \<Rightarrow> False | Some x \<Rightarrow> p x)"

definition is_none_or :: "'a option \<Rightarrow> ('a \<Rightarrow> bool) \<Rightarrow> bool" where
  "is_none_or m p = (case m of None \<Rightarrow> True | Some x \<Rightarrow> p x)"

lemma is_some_and_simps [simp]:
  "is_some_and None p = False" "is_some_and (Some x) p = p x"
  by (simp_all add: is_some_and_def)

lemma is_none_or_simps [simp]:
  "is_none_or None p = True" "is_none_or (Some x) p = p x"
  by (simp_all add: is_none_or_def)

lemma is_some_and_iff: "is_some_and m p = (\<exists>x. m = Some x \<and> p x)"
  by (cases m) auto

lemma not_is_none_or_iff: "(\<not> is_none_or m p) = (\<exists>x. m = Some x \<and> \<not> p x)"
  by (cases m) auto

section \<open>Lists\<close>

lemma distinct_map_filter_inj:
  assumes "distinct (map key xs)" "x \<in> set xs" "y \<in> set xs" "key x = key y"
  shows "x = y"
  using assms by (auto simp: distinct_map inj_on_def)

lemma length_le_1_if_all_eq:
  assumes "distinct xs" "\<And>x y. x \<in> set xs \<Longrightarrow> y \<in> set xs \<Longrightarrow> x = y"
  shows "length xs \<le> Suc 0"
proof -
  have "card (set xs) \<le> Suc 0"
    using assms(2) by (subst card_le_Suc0_iff_eq) blast+
  then show ?thesis
    using distinct_card [OF assms(1)] by simp
qed

lemma filter_distinct_key_length:
  assumes "distinct (map key xs)"
    and "\<And>x y. x \<in> set xs \<Longrightarrow> y \<in> set xs \<Longrightarrow> P x \<Longrightarrow> P y \<Longrightarrow> key x = key y"
  shows "length (filter P xs) \<le> Suc 0"
proof (rule length_le_1_if_all_eq)
  show "distinct (filter P xs)"
    using assms(1) by (simp add: distinct_map)
next
  fix x y assume "x \<in> set (filter P xs)" "y \<in> set (filter P xs)"
  then show "x = y"
    using assms(2) distinct_map_filter_inj [OF assms(1), of x y] by auto
qed

text \<open>
  Splitting at a separator that one side does not contain: the identity strings of the
  release manifest are read from both ends by these two lemmas.
\<close>

lemma append_sep_left_inj:
  assumes "xs @ c # ys = xs' @ c # ys'" "c \<notin> set xs" "c \<notin> set xs'"
  shows "xs = xs' \<and> ys = ys'"
  using assms
proof (induction xs arbitrary: xs')
  case Nil
  then show ?case by (cases xs') auto
next
  case (Cons x xs)
  then show ?case by (cases xs') auto
qed

lemma append_sep_right_inj:
  assumes "xs @ c # ys = xs' @ c # ys'" "c \<notin> set ys" "c \<notin> set ys'"
  shows "xs = xs' \<and> ys = ys'"
proof -
  have "rev ys @ c # rev xs = rev ys' @ c # rev xs'"
    using arg_cong [OF assms(1), of rev] by simp
  then show ?thesis
    using append_sep_left_inj [of "rev ys" c "rev xs" "rev ys'" "rev xs'"] assms(2,3) by simp
qed

end
