(* ===== verification/Codec.thy ===== *)
theory Codec
  imports Prelude
begin

text \<open>
  The contract of a printer and a parser.  The update modules store versions and digests as
  text and read them back; the broker frames its messages.  What their clients need is stated
  here once: printing is injective on valid values, and, where the text form is canonical,
  a parsed text determines and is determined by its value.
\<close>

locale codec =
  fixes enc :: "'a \<Rightarrow> 'b list"
    and dec :: "'b list \<Rightarrow> ('e, 'a) result"
    and valid :: "'a \<Rightarrow> bool"
  assumes dec_enc: "valid x \<Longrightarrow> dec (enc x) = Inr x"
begin

lemma enc_inj:
  assumes "valid x" "valid y" "enc x = enc y"
  shows "x = y"
  using dec_enc [OF assms(1)] dec_enc [OF assms(2)] unfolding assms(3) by simp

lemma enc_inj_on: "inj_on enc {x. valid x}"
proof (rule inj_onI)
  fix x y
  assume "x \<in> {x. valid x}" "y \<in> {x. valid x}" "enc x = enc y"
  then show "x = y" using enc_inj [of x y] by simp
qed

lemma enc_never_refused: "valid x \<Longrightarrow> dec (enc x) \<noteq> Inl e"
  by (simp add: dec_enc)

end

locale canonical_codec = codec +
  assumes dec_sound: "dec s = Inr x \<Longrightarrow> valid x \<and> enc x = s"
begin

lemma dec_Inr_iff: "(dec s = Inr x) = (valid x \<and> s = enc x)"
  by (metis dec_sound dec_enc)

lemma dec_inj: "dec s = Inr x \<Longrightarrow> dec t = Inr x \<Longrightarrow> s = t"
  using dec_sound by blast



end

end
