(* ===== verification/Rust_Text.thy ===== *)
theory Rust_Text
  imports Prelude
begin

unbundle bit_operations_syntax

text \<open>
  The operations of Rust's standard library on strings and integers that the sources call:
  character classes, \<^verbatim>\<open>split\<close>, \<^verbatim>\<open>lines\<close>, \<^verbatim>\<open>split_whitespace\<close>,
  \<^verbatim>\<open>trim\<close>, \<^verbatim>\<open>strip_prefix\<close>, \<^verbatim>\<open>contains\<close>, the parsing and printing of
  unsigned decimals, and lower-case hexadecimal.  Strings are UTF-8 bytes, so the tests on
  characters beyond ASCII (controls, white space) look at the bytes that encode them.
\<close>

section \<open>Character classes\<close>

definition byte :: "char \<Rightarrow> nat" where
  "byte c = of_char c"

definition is_ascii_digit :: "char \<Rightarrow> bool" where
  "is_ascii_digit c = (48 \<le> byte c \<and> byte c \<le> 57)"

definition is_ascii_uppercase :: "char \<Rightarrow> bool" where
  "is_ascii_uppercase c = (65 \<le> byte c \<and> byte c \<le> 90)"

definition is_ascii_lowercase :: "char \<Rightarrow> bool" where
  "is_ascii_lowercase c = (97 \<le> byte c \<and> byte c \<le> 122)"

definition is_ascii_alphanumeric :: "char \<Rightarrow> bool" where
  "is_ascii_alphanumeric c = (is_ascii_digit c \<or> is_ascii_uppercase c \<or> is_ascii_lowercase c)"

definition is_ascii_hexdigit :: "char \<Rightarrow> bool" where
  "is_ascii_hexdigit c =
     (is_ascii_digit c \<or> (65 \<le> byte c \<and> byte c \<le> 70) \<or> (97 \<le> byte c \<and> byte c \<le> 102))"

definition is_lower_hex :: "char \<Rightarrow> bool" where
  "is_lower_hex c = (is_ascii_digit c \<or> (97 \<le> byte c \<and> byte c \<le> 102))"

definition to_ascii_lowercase :: "char \<Rightarrow> char" where
  "to_ascii_lowercase c = (if is_ascii_uppercase c then char_of (byte c + 32) else c)"

definition eq_ignore_ascii_case :: "string \<Rightarrow> string \<Rightarrow> bool" where
  "eq_ignore_ascii_case s t = (map to_ascii_lowercase s = map to_ascii_lowercase t)"

text \<open>A control character is \<^verbatim>\<open>U+0000..U+001F\<close> or \<^verbatim>\<open>U+007F..U+009F\<close>; the
  upper block is encoded as the byte 194 before a byte of 128 to 159.\<close>

fun has_control :: "string \<Rightarrow> bool" where
  "has_control [] = False"
| "has_control (a # s) =
     (byte a < 32 \<or> byte a = 127 \<or>
      (byte a = 194 \<and> (case s of [] \<Rightarrow> False | b # t \<Rightarrow> 128 \<le> byte b \<and> byte b \<le> 159)) \<or>
      has_control s)"

text \<open>The number of bytes of the Unicode white space character at the front, 0 if none.\<close>

fun ws_len :: "string \<Rightarrow> nat" where
  "ws_len [] = 0"
| "ws_len (a # s) =
     (if (9 \<le> byte a \<and> byte a \<le> 13) \<or> byte a = 32 then 1
      else case s of [] \<Rightarrow> 0 | b # t \<Rightarrow>
        (if byte a = 194 \<and> (byte b = 133 \<or> byte b = 160) then 2
         else case t of [] \<Rightarrow> 0 | c # u \<Rightarrow>
           (if (byte a = 225 \<and> byte b = 154 \<and> byte c = 128) \<or>
               (byte a = 226 \<and> byte b = 128 \<and>
                 ((128 \<le> byte c \<and> byte c \<le> 138) \<or> byte c \<in> {168, 169, 175})) \<or>
               (byte a = 226 \<and> byte b = 129 \<and> byte c = 159) \<or>
               (byte a = 227 \<and> byte b = 128 \<and> byte c = 128)
            then 3 else 0)))"

fun has_whitespace :: "string \<Rightarrow> bool" where
  "has_whitespace [] = False"
| "has_whitespace (a # s) = (0 < ws_len (a # s) \<or> has_whitespace s)"

lemma byte_eq_iff: "(byte c = byte d) = (c = d)"
  by (simp add: byte_def)

lemma byte_less_256: "byte c < 256"
  by (simp add: byte_def)

lemma byte_char_of [simp]: "n < 256 \<Longrightarrow> byte (char_of n) = n"
  by (simp add: byte_def)

lemma ws_len_le: "ws_len s \<le> length s"
  by (cases s rule: ws_len.cases) (auto split: list.splits)

lemma is_lower_hex_iff: "is_lower_hex c = (is_ascii_hexdigit c \<and> \<not> is_ascii_uppercase c)"
  by (auto simp: is_lower_hex_def is_ascii_hexdigit_def is_ascii_uppercase_def is_ascii_digit_def)

lemma ws_len_plain: "32 < byte a \<Longrightarrow> byte a < 127 \<Longrightarrow> ws_len (a # s) = 0"
  by (auto split: list.splits)

declare ws_len.simps [simp del]

lemma ws_len_Nil [simp]: "ws_len [] = 0"
  by (simp add: ws_len.simps)

section \<open>Prefixes, substrings, positions\<close>

definition starts_with :: "string \<Rightarrow> string \<Rightarrow> bool" where
  "starts_with p s = (take (length p) s = p)"

definition strip_prefix :: "string \<Rightarrow> string \<Rightarrow> string option" where
  "strip_prefix p s = (if starts_with p s then Some (drop (length p) s) else None)"

fun contains_sub :: "string \<Rightarrow> string \<Rightarrow> bool" where
  "contains_sub p [] = (p = [])"
| "contains_sub p (c # s) = (starts_with p (c # s) \<or> contains_sub p s)"

fun find_char :: "char \<Rightarrow> string \<Rightarrow> nat option" where
  "find_char c [] = None"
| "find_char c (x # s) = (if x = c then Some 0 else map_option Suc (find_char c s))"

fun rfind_char :: "char \<Rightarrow> string \<Rightarrow> nat option" where
  "rfind_char c [] = None"
| "rfind_char c (x # s) =
     (case rfind_char c s of Some i \<Rightarrow> Some (Suc i) | None \<Rightarrow> if x = c then Some 0 else None)"

definition split_once :: "char \<Rightarrow> string \<Rightarrow> (string \<times> string) option" where
  "split_once c s = map_option (\<lambda>i. (take i s, drop (Suc i) s)) (find_char c s)"

definition replace_char :: "char \<Rightarrow> string \<Rightarrow> string \<Rightarrow> string" where
  "replace_char c r s = concat (map (\<lambda>x. if x = c then r else [x]) s)"

lemma starts_with_append [simp]: "starts_with p (p @ s)"
  by (simp add: starts_with_def)

lemma starts_with_Nil [simp]: "starts_with [] s"
  by (simp add: starts_with_def)

lemma starts_with_Cons [text_simps]:
  "starts_with (a # p) s = (case s of [] \<Rightarrow> False | b # t \<Rightarrow> a = b \<and> starts_with p t)"
  by (cases s) (auto simp: starts_with_def)

lemma starts_with_iff: "starts_with p s = (\<exists>t. s = p @ t)"
  by (metis append_eq_conv_conj starts_with_def)

lemma strip_prefix_Some [text_simps]: "(strip_prefix p s = Some t) = (s = p @ t)"
  by (auto simp: strip_prefix_def starts_with_iff)

lemma strip_prefix_append [simp]: "strip_prefix p (p @ s) = Some s"
  by (simp add: strip_prefix_Some)

lemma strip_prefix_None: "(strip_prefix p s = None) = (\<not> starts_with p s)"
  by (simp add: strip_prefix_def)

lemma contains_sub_append: "contains_sub p (s @ p @ t)"
proof (induction s)
  case Nil
  show ?case
  proof (cases "p @ t")
    case (Cons a u)
    then show ?thesis by (metis append_Nil contains_sub.simps(2) starts_with_append)
  qed simp
qed simp

lemma find_char_None: "(find_char c s = None) = (c \<notin> set s)"
  by (induction s) auto

lemma find_char_append: "c \<notin> set s \<Longrightarrow> find_char c (s @ c # t) = Some (length s)"
  by (induction s) auto

lemma find_char_Some:
  "find_char c s = Some i \<Longrightarrow> i < length s \<and> s ! i = c \<and> c \<notin> set (take i s)"
  by (induction s arbitrary: i) (auto split: if_splits)

lemma rfind_char_append: "c \<notin> set t \<Longrightarrow> rfind_char c (s @ c # t) = Some (length s)"
proof (induction s)
  case Nil
  then have "rfind_char c t = None" by (induction t) (auto split: option.splits)
  then show ?case by simp
qed simp

lemma split_once_append [simp]: "c \<notin> set s \<Longrightarrow> split_once c (s @ c # t) = Some (s, t)"
  by (simp add: split_once_def find_char_append)

lemma split_once_Some: "split_once c s = Some (a, b) \<Longrightarrow> s = a @ c # b \<and> c \<notin> set a"
  by (auto simp: split_once_def dest!: find_char_Some intro: id_take_nth_drop)

section \<open>Splitting and joining\<close>

fun split_on :: "char \<Rightarrow> string \<Rightarrow> string list" where
  "split_on c [] = [[]]"
| "split_on c (x # s) =
     (if x = c then [] # split_on c s
      else case split_on c s of [] \<Rightarrow> [[x]] | p # ps \<Rightarrow> (x # p) # ps)"

fun join_on :: "char \<Rightarrow> string list \<Rightarrow> string" where
  "join_on c [] = []"
| "join_on c [p] = p"
| "join_on c (p # q # ps) = p @ c # join_on c (q # ps)"

lemma split_on_not_Nil [simp]: "split_on c s \<noteq> []"
  by (induction s) (auto split: list.splits)

lemma join_split [simp]: "join_on c (split_on c s) = s"
proof (induction s)
  case (Cons x s)
  then show ?case
    by (cases "split_on c s" rule: remdups_adj.cases) (auto split: list.splits)
qed simp

lemma split_on_parts: "p \<in> set (split_on c s) \<Longrightarrow> c \<notin> set p"
  by (induction s arbitrary: p) (auto split: if_splits list.splits)

lemma split_on_fresh: "c \<notin> set s \<Longrightarrow> split_on c s = [s]"
  by (induction s) auto

lemma split_on_append: "c \<notin> set p \<Longrightarrow> split_on c (p @ c # s) = p # split_on c s"
  by (induction p) auto

lemma split_join:
  assumes "ps \<noteq> []" "\<forall>p \<in> set ps. c \<notin> set p"
  shows "split_on c (join_on c ps) = ps"
  using assms by (induction c ps rule: join_on.induct) (auto simp: split_on_fresh split_on_append)

lemma split_on_eq_iff:
  assumes "ps \<noteq> []" "\<forall>p \<in> set ps. c \<notin> set p"
  shows "(split_on c s = ps) = (s = join_on c ps)"
  using assms split_join join_split by metis

text \<open>\<^verbatim>\<open>str::lines\<close>: a line ends at a line feed, a carriage return before it is dropped,
  and the part after the last line feed is a line only when it is not empty.\<close>

definition strip_cr :: "string \<Rightarrow> string" where
  "strip_cr s = (if s \<noteq> [] \<and> last s = CHR 0x0D then butlast s else s)"

definition text_lines :: "string \<Rightarrow> string list" where
  "text_lines s =
     (let ps = split_on (CHR 0x0A) s
      in map strip_cr (butlast ps) @ (if last ps = [] then [] else [last ps]))"

definition unlines :: "string list \<Rightarrow> string" where
  "unlines ls = concat (map (\<lambda>l. l @ [CHR 0x0A]) ls)"

definition plain_line :: "string \<Rightarrow> bool" where
  "plain_line l = (CHR 0x0A \<notin> set l \<and> (l = [] \<or> last l \<noteq> CHR 0x0D))"

lemma split_on_unlines:
  "\<forall>l \<in> set ls. CHR 0x0A \<notin> set l \<Longrightarrow> split_on (CHR 0x0A) (unlines ls) = ls @ [[]]"
  by (induction ls) (auto simp: unlines_def split_on_append)

lemma text_lines_unlines:
  assumes "\<forall>l \<in> set ls. plain_line l"
  shows "text_lines (unlines ls) = ls"
proof -
  have "map strip_cr ls = ls"
    using assms by (induction ls) (auto simp: plain_line_def strip_cr_def)
  then show ?thesis
    using assms by (simp add: text_lines_def split_on_unlines plain_line_def butlast_append)
qed

section \<open>White space\<close>

function trim_start :: "string \<Rightarrow> string" where
  "trim_start s = (if ws_len s = 0 then s else trim_start (drop (ws_len s) s))"
  by pat_completeness auto
termination
  by (relation "measure length") (auto simp: neq_Nil_conv not_le intro: diff_less ws_len_le)

declare trim_start.simps [simp del]

fun trim_end :: "string \<Rightarrow> string" where
  "trim_end [] = []"
| "trim_end (c # s) = (if trim_start (c # s) = [] then [] else c # trim_end s)"

definition trim :: "string \<Rightarrow> string" where
  "trim s = trim_end (trim_start s)"

fun take_word :: "string \<Rightarrow> string" where
  "take_word [] = []"
| "take_word (c # s) = (if 0 < ws_len (c # s) then [] else c # take_word s)"

lemma trim_start_length: "length (trim_start s) \<le> length s"
proof (induction s rule: trim_start.induct)
  case (1 s)
  then show ?case by (subst trim_start.simps) auto
qed

lemma trim_start_ws_len: "trim_start s \<noteq> [] \<Longrightarrow> ws_len (trim_start s) = 0"
proof (induction s rule: trim_start.induct)
  case (1 s)
  then show ?case by (subst trim_start.simps, subst (asm) trim_start.simps) auto
qed

function split_whitespace :: "string \<Rightarrow> string list" where
  "split_whitespace s =
     (let t = trim_start s
      in if t = [] then []
         else take_word t # split_whitespace (drop (length (take_word t)) t))"
  by pat_completeness auto
termination
proof (relation "measure length", simp_all)
  fix s :: string
  assume ne: "trim_start s \<noteq> []"
  then have "take_word (trim_start s) \<noteq> []"
    using trim_start_ws_len [OF ne] by (cases "trim_start s") auto
  then have "length (trim_start s) - length (take_word (trim_start s)) < length (trim_start s)"
    using ne by simp
  then show "length (trim_start s) - length (take_word (trim_start s)) < length s"
    using trim_start_length [of s] by linarith
qed

declare split_whitespace.simps [simp del]

text \<open>Tokens of visible ASCII characters are read back word by word.\<close>

definition visible :: "char \<Rightarrow> bool" where
  "visible c = (32 < byte c \<and> byte c < 127)"

definition plain_token :: "string \<Rightarrow> bool" where
  "plain_token t = (t \<noteq> [] \<and> list_all visible t)"

lemma trim_start_visible [simp]: "visible a \<Longrightarrow> trim_start (a # s) = a # s"
  by (subst trim_start.simps) (simp add: ws_len_plain visible_def)

lemma trim_start_Nil [simp]: "trim_start [] = []"
  by (subst trim_start.simps) simp

lemma trim_start_space [simp]: "trim_start (CHR '' '' # s) = trim_start s"
  by (subst trim_start.simps) (simp add: byte_def ws_len.simps)

lemma take_word_token:
  assumes "list_all visible t" "s = [] \<or> 0 < ws_len s"
  shows "take_word (t @ s) = t"
  using assms
proof (induction t)
  case Nil
  then show ?case by (cases s) auto
next
  case (Cons a t)
  then show ?case by (simp add: visible_def ws_len_plain)
qed

lemma split_whitespace_Nil [simp]: "split_whitespace [] = []"
  by (subst split_whitespace.simps) simp

lemma split_whitespace_token:
  assumes "plain_token t" "s = [] \<or> 0 < ws_len s"
  shows "split_whitespace (t @ s) = t # split_whitespace s"
proof -
  obtain a u where t: "t = a # u" and a: "visible a"
    using assms(1) by (cases t) (auto simp: plain_token_def)
  have "take_word (t @ s) = t"
    using assms by (intro take_word_token) (auto simp: plain_token_def)
  then show ?thesis
    using t a by (subst split_whitespace.simps) (simp add: Let_def del: take_word.simps)
qed

lemma split_whitespace_space [simp]: "split_whitespace (CHR '' '' # s) = split_whitespace s"
  by (subst (1 2) split_whitespace.simps) simp

lemma ws_len_space [simp]: "ws_len (CHR '' '' # s) = 1"
  by (simp add: byte_def ws_len.simps)

lemma split_whitespace_join:
  "\<forall>t \<in> set ts. plain_token t \<Longrightarrow> split_whitespace (join_on (CHR '' '') ts) = ts"
proof (induction "CHR '' ''" ts rule: join_on.induct)
  case (2 p)
  then show ?case using split_whitespace_token [of p "[]"] by simp
next
  case (3 p q ps)
  then show ?case by (simp add: split_whitespace_token)
qed simp

section \<open>Unsigned decimals\<close>

definition digit_char :: "nat \<Rightarrow> char" where
  "digit_char n = char_of (48 + n)"

definition digit_val :: "char \<Rightarrow> nat" where
  "digit_val c = byte c - 48"

definition dec_val :: "string \<Rightarrow> nat" where
  "dec_val s = foldl (\<lambda>v c. v * 10 + digit_val c) 0 s"

text \<open>\<^verbatim>\<open>str::parse\<close> at an unsigned type with values below \<^term>\<open>bound\<close>: one leading plus
  sign is accepted before at least one digit.\<close>

definition parse_uint :: "nat \<Rightarrow> string \<Rightarrow> nat option" where
  "parse_uint bound s =
     (let ds = (case s of [] \<Rightarrow> [] | c # t \<Rightarrow> if c = CHR ''+'' \<and> t \<noteq> [] then t else s)
      in if ds \<noteq> [] \<and> list_all is_ascii_digit ds \<and> dec_val ds < bound
         then Some (dec_val ds) else None)"

definition parse_word :: "string \<Rightarrow> 'a::len word option" where
  "parse_word s = map_option word_of_nat (parse_uint (2 ^ LENGTH('a)) s)"

fun show_nat :: "nat \<Rightarrow> string" where
  "show_nat n = (if n < 10 then [digit_char n] else show_nat (n div 10) @ [digit_char (n mod 10)])"

declare show_nat.simps [simp del]

definition canonical_decimal :: "string \<Rightarrow> bool" where
  "canonical_decimal s =
     (s \<noteq> [] \<and> list_all is_ascii_digit s \<and> \<not> (1 < length s \<and> starts_with ''0'' s))"

lemma digit_char_digit [simp]: "n < 10 \<Longrightarrow> is_ascii_digit (digit_char n)"
  by (simp add: is_ascii_digit_def digit_char_def)

lemma digit_val_char [simp]: "n < 10 \<Longrightarrow> digit_val (digit_char n) = n"
  by (simp add: digit_val_def digit_char_def)

lemma digit_char_val [simp]: "is_ascii_digit c \<Longrightarrow> digit_char (digit_val c) = c"
  by (auto simp: is_ascii_digit_def digit_val_def digit_char_def byte_def)

lemma digit_val_less [simp]: "is_ascii_digit c \<Longrightarrow> digit_val c < 10"
  by (auto simp: is_ascii_digit_def digit_val_def)

lemma dec_val_snoc [simp]: "dec_val (s @ [c]) = dec_val s * 10 + digit_val c"
  by (simp add: dec_val_def)

lemma dec_val_Nil [simp]: "dec_val [] = 0"
  by (simp add: dec_val_def)

lemma show_nat_not_Nil [simp]: "show_nat n \<noteq> []"
  by (subst show_nat.simps) simp

lemma show_nat_digits [simp]: "list_all is_ascii_digit (show_nat n)"
proof (induction n rule: show_nat.induct)
  case (1 n)
  then show ?case by (subst show_nat.simps) simp
qed

lemma dec_val_show_nat [simp]: "dec_val (show_nat n) = n"
proof (induction n rule: show_nat.induct)
  case (1 n)
  show ?case
  proof (cases "n < 10")
    case True
    then show ?thesis using dec_val_snoc [of "[]"] by (subst show_nat.simps) simp
  next
    case False
    with 1 show ?thesis by (subst show_nat.simps) simp
  qed
qed

lemma show_nat_hd: "0 < n \<Longrightarrow> hd (show_nat n) \<noteq> CHR ''0''"
proof (induction n rule: show_nat.induct)
  case (1 n)
  show ?case
  proof (cases "n < 10")
    case True
    have "digit_char n \<noteq> CHR ''0''"
    proof
      assume "digit_char n = CHR ''0''"
      then have "n = digit_val (CHR ''0'')"
        using True by (metis digit_val_char)
      with 1 show False by (simp add: digit_val_def byte_def)
    qed
    with True show ?thesis by (subst show_nat.simps) simp
  next
    case False
    with 1 show ?thesis by (subst show_nat.simps) simp
  qed
qed

lemma show_nat_canonical: "canonical_decimal (show_nat n)"
proof (cases "n = 0")
  case True
  then show ?thesis
    by (subst show_nat.simps) (simp add: canonical_decimal_def)
next
  case False
  then have "hd (show_nat n) \<noteq> CHR ''0''" by (simp add: show_nat_hd)
  then have "\<not> starts_with ''0'' (show_nat n)"
    by (cases "show_nat n") (simp_all add: starts_with_Cons)
  then show ?thesis by (simp add: canonical_decimal_def)
qed


lemma dec_val_ge: "n * 10 ^ length s \<le> foldl (\<lambda>v c. v * 10 + digit_val c) n s"
proof (induction s arbitrary: n)
  case (Cons c s)
  have "n * 10 ^ length (c # s) \<le> (n * 10 + digit_val c) * 10 ^ length s"
    by (simp add: algebra_simps)
  also have "\<dots> \<le> foldl (\<lambda>v c. v * 10 + digit_val c) (n * 10 + digit_val c) s"
    by (rule Cons)
  finally show ?case by simp
qed simp

lemma dec_val_pos:
  assumes "is_ascii_digit c" "c \<noteq> CHR ''0''"
  shows "0 < dec_val (c # s)"
proof -
  have "digit_val c \<noteq> 0"
    using assms byte_eq_iff [of c "CHR ''0''"]
    by (auto simp: digit_val_def is_ascii_digit_def byte_def)
  then have "0 < digit_val c * 10 ^ length s" by simp
  also have "\<dots> \<le> dec_val (c # s)"
    using dec_val_ge [of "digit_val c" s] by (simp add: dec_val_def)
  finally show ?thesis .
qed

text \<open>Canonical decimals are exactly the printed ones.\<close>

lemma show_nat_dec_val: "canonical_decimal s \<Longrightarrow> show_nat (dec_val s) = s"
proof (induction s rule: rev_induct)
  case Nil
  then show ?case by (simp add: canonical_decimal_def)
next
  case (snoc c s)
  then have c: "is_ascii_digit c" by (simp add: canonical_decimal_def)
  show ?case
  proof (cases s)
    case Nil
    then show ?thesis using c dec_val_snoc [of "[]" c] by (subst show_nat.simps) simp
  next
    case (Cons a t)
    with snoc.prems have a: "is_ascii_digit a" "a \<noteq> CHR ''0''"
      by (auto simp: canonical_decimal_def starts_with_Cons)
    have "canonical_decimal s"
      using snoc.prems Cons by (auto simp: canonical_decimal_def starts_with_Cons)
    then have "show_nat (dec_val s) = s" by (rule snoc.IH)
    moreover have "0 < dec_val s" using a Cons by (simp add: dec_val_pos)
    moreover have "(dec_val s * 10 + digit_val c) div 10 = dec_val s"
      "(dec_val s * 10 + digit_val c) mod 10 = digit_val c"
      using c by simp_all
    ultimately show ?thesis using c by (subst show_nat.simps) simp
  qed
qed

lemma canonical_decimal_inj:
  "canonical_decimal s \<Longrightarrow> canonical_decimal t \<Longrightarrow> dec_val s = dec_val t \<Longrightarrow> s = t"
  by (metis show_nat_dec_val)

lemma show_nat_inj [simp]: "(show_nat m = show_nat n) = (m = n)"
  by (metis dec_val_show_nat)

lemma digit_not: "is_ascii_digit c \<Longrightarrow> byte d < 48 \<or> 57 < byte d \<Longrightarrow> c \<noteq> d"
  by (auto simp: is_ascii_digit_def)

lemma show_nat_no_char: "byte d < 48 \<or> 57 < byte d \<Longrightarrow> d \<notin> set (show_nat n)"
  using show_nat_digits [of n] digit_not by (force simp: list_all_iff)

lemma parse_uint_digits:
  assumes "s \<noteq> []" "list_all is_ascii_digit s"
  shows "parse_uint bound s = (if dec_val s < bound then Some (dec_val s) else None)"
proof -
  obtain c t where s: "s = c # t" using assms(1) by (cases s) auto
  then have "is_ascii_digit c" using assms(2) by simp
  then have "c \<noteq> CHR ''+''" by (rule digit_not) (simp add: byte_def)
  with s assms show ?thesis by (simp add: parse_uint_def)
qed

lemma parse_uint_show_nat [simp]: "n < bound \<Longrightarrow> parse_uint bound (show_nat n) = Some n"
  by (simp add: parse_uint_digits)

lemma parse_uint_Some:
  assumes "parse_uint bound s = Some n"
  obtains ds where "s = ds \<or> s = CHR ''+'' # ds" "ds \<noteq> []" "list_all is_ascii_digit ds"
    "dec_val ds = n" "n < bound"
  using assms that
  by (auto simp: parse_uint_def Let_def split: list.splits if_splits)

lemma parse_uint_canonical:
  assumes "canonical_decimal s" "parse_uint bound s = Some n"
  shows "n = dec_val s \<and> n < bound"
  using assms by (auto simp: canonical_decimal_def parse_uint_digits split: if_splits)

lemma parse_word_show:
  "parse_word (show_nat (unat w)) = Some (w :: 'a::len word)"
proof -
  have "parse_uint (2 ^ LENGTH('a)) (show_nat (unat w)) = Some (unat w)"
    by (rule parse_uint_show_nat) (rule unsigned_less)
  then show ?thesis by (simp add: parse_word_def)
qed

lemma unat_word_of_nat: "n < 2 ^ LENGTH('a) \<Longrightarrow> unat (word_of_nat n :: 'a::len word) = n"
  by (simp add: unsigned_of_nat take_bit_nat_eq_self)

lemma parse_word_Some:
  fixes w :: "'a::len word"
  assumes "parse_word s = Some w"
  shows "parse_uint (2 ^ LENGTH('a)) s = Some (unat w)"
proof -
  obtain n where n: "parse_uint (2 ^ LENGTH('a)) s = Some n" "w = word_of_nat n"
    using assms by (auto simp: parse_word_def)
  then have "n < 2 ^ LENGTH('a)" by (auto elim: parse_uint_Some)
  with n show ?thesis by (simp add: unat_word_of_nat)
qed

section \<open>Hexadecimal\<close>

definition hex_digit :: "nat \<Rightarrow> char" where
  "hex_digit n = (if n < 10 then char_of (48 + n) else char_of (87 + n))"

definition hex_value :: "char \<Rightarrow> nat" where
  "hex_value c = (if is_ascii_digit c then byte c - 48 else byte c - 87)"

definition hex_byte :: "u8 \<Rightarrow> string" where
  "hex_byte b = [hex_digit (unat (drop_bit 4 b)), hex_digit (unat (b AND 15))]"

definition to_hex :: "u8 list \<Rightarrow> string" where
  "to_hex bs = concat (map hex_byte bs)"

lemma hex_digit_lower_hex [simp]: "n < 16 \<Longrightarrow> is_lower_hex (hex_digit n)"
  by (auto simp: hex_digit_def is_lower_hex_def is_ascii_digit_def)

lemma hex_value_digit [simp]: "n < 16 \<Longrightarrow> hex_value (hex_digit n) = n"
  by (auto simp: hex_digit_def hex_value_def is_ascii_digit_def)

lemma hex_digit_value [simp]: "is_lower_hex c \<Longrightarrow> hex_digit (hex_value c) = c"
  by (auto simp: hex_digit_def hex_value_def is_lower_hex_def is_ascii_digit_def byte_def)

lemma hex_value_less [simp]: "is_lower_hex c \<Longrightarrow> hex_value c < 16"
  by (auto simp: hex_value_def is_lower_hex_def is_ascii_digit_def)

lemma unat_high_nibble: "unat (drop_bit 4 (b :: u8)) = unat b div 16"
  by (simp only: unat_drop_bit_eq) (simp add: drop_bit_eq_div)

lemma unat_low_nibble: "unat ((b :: u8) AND 15) = unat b mod 16"
proof -
  have "b AND 15 = take_bit 4 b" by (simp add: take_bit_eq_mask mask_eq_exp_minus_1)
  then have "unat (b AND 15) = take_bit 4 (unat b)" by (simp only: unsigned_take_bit_eq)
  then show ?thesis by (simp add: take_bit_eq_mod)
qed

lemma unat_u8_less: "unat (b :: u8) < 256"
  using unsigned_less [of b] by simp

lemma hex_byte_lower_hex: "list_all is_lower_hex (hex_byte b)"
  using unat_u8_less [of b] by (simp add: hex_byte_def unat_high_nibble unat_low_nibble)

lemma length_to_hex [simp]: "length (to_hex bs) = 2 * length bs"
  by (induction bs) (simp_all add: to_hex_def hex_byte_def)

lemma to_hex_lower_hex: "list_all is_lower_hex (to_hex bs)"
  by (induction bs) (simp_all add: to_hex_def hex_byte_lower_hex)

lemma to_hex_Cons: "to_hex (b # bs) = hex_byte b @ to_hex bs"
  by (simp add: to_hex_def)

lemma to_hex_Nil [simp]: "to_hex [] = []"
  by (simp add: to_hex_def)

lemma lower_hex_visible: "is_lower_hex c \<Longrightarrow> visible c"
  by (auto simp: is_lower_hex_def visible_def is_ascii_digit_def)

text \<open>Facts by which the simplifier evaluates the primitives on literals.\<close>

lemmas text_eval = byte_def is_ascii_digit_def is_ascii_uppercase_def is_ascii_lowercase_def
  is_ascii_alphanumeric_def is_ascii_hexdigit_def is_lower_hex_def ws_len.simps starts_with_Cons
  strip_prefix_def split_once_def parse_word_def parse_uint_def dec_val_def digit_val_def Let_def

section \<open>UTF-8\<close>

text \<open>The byte sequences \<^verbatim>\<open>String::from_utf8\<close> accepts.\<close>

definition continuation :: "char \<Rightarrow> bool" where
  "continuation c = (128 \<le> byte c \<and> byte c \<le> 191)"

definition utf8_second :: "char \<Rightarrow> char \<Rightarrow> bool" where
  "utf8_second a b =
     (if byte a = 224 then 160 \<le> byte b \<and> byte b \<le> 191
      else if byte a = 237 then 128 \<le> byte b \<and> byte b \<le> 159
      else if byte a = 240 then 144 \<le> byte b \<and> byte b \<le> 191
      else if byte a = 244 then 128 \<le> byte b \<and> byte b \<le> 143
      else continuation b)"

fun utf8_valid :: "string \<Rightarrow> bool" where
  "utf8_valid [] = True"
| "utf8_valid (a # s) =
     (if byte a < 128 then utf8_valid s
      else if 194 \<le> byte a \<and> byte a \<le> 223 then
        (case s of b # t \<Rightarrow> continuation b \<and> utf8_valid t | _ \<Rightarrow> False)
      else if 224 \<le> byte a \<and> byte a \<le> 239 then
        (case s of b # c # t \<Rightarrow> utf8_second a b \<and> continuation c \<and> utf8_valid t | _ \<Rightarrow> False)
      else if 240 \<le> byte a \<and> byte a \<le> 244 then
        (case s of b # c # d # t \<Rightarrow>
           utf8_second a b \<and> continuation c \<and> continuation d \<and> utf8_valid t | _ \<Rightarrow> False)
      else False)"

definition ascii_text :: "string \<Rightarrow> bool" where
  "ascii_text s = list_all (\<lambda>c. byte c < 128) s"

lemma ascii_utf8: "ascii_text s \<Longrightarrow> utf8_valid s"
  by (induction s) (auto simp: ascii_text_def)

lemma ascii_text_append [simp]: "ascii_text (s @ t) = (ascii_text s \<and> ascii_text t)"
  by (simp add: ascii_text_def)

end
