(* ===== verification/Versions.thy ===== *)
theory Versions
  imports Codec Rust_Text
begin

text \<open>
  The two scalar types of the release metadata, \<^verbatim>\<open>StableVersion\<close> and
  \<^verbatim>\<open>Sha256Digest\<close> of \<^verbatim>\<open>src/update/manifest.rs\<close>, with their parsers, their
  printers and the derived order of versions, and the error type of the manifest module.
  The text of an error message is modelled by a constructor that names the message.
\<close>

section \<open>Errors\<close>

datatype invalid_kind =
    VersionShape
  | VersionComponent
  | DigestShape
  | DigestUnreachable
  | BadString string
  | BadUrl string
  | BadTargetName
  | AssetCount
  | CompatibilityCount
  | DuplicateTargetName string
  | DuplicateAssetIdentity
  | DuplicateCompatibility
  | MalformedRuntimeMinimum string
  | AssetLength string
  | ContradictoryAsset string
  | ContradictoryRuntime
  | WrongRepository
  | BadRevision
  | UnsupportedHookSchema

datatype manifest_error =
    ManifestTooLarge nat nat
  | ManifestJson
  | UnsupportedManifestSchemaVersion u32
  | ManifestInvalid invalid_kind

section \<open>Stable versions\<close>

datatype stable_version =
  StableVersion (version_major: u64) (version_minor: u64) (version_patch: u64)

definition version_key :: "stable_version \<Rightarrow> u64 \<times> u64 \<times> u64" where
  "version_key v = (version_major v, version_minor v, version_patch v)"

instantiation stable_version :: linorder
begin

definition less_eq_stable_version :: "stable_version \<Rightarrow> stable_version \<Rightarrow> bool" where
  "less_eq_stable_version v w = (version_key v \<le> version_key w)"

definition less_stable_version :: "stable_version \<Rightarrow> stable_version \<Rightarrow> bool" where
  "less_stable_version v w = (version_key v < version_key w)"

instance
proof
  fix u v w :: stable_version
  show "(v < w) = (v \<le> w \<and> \<not> w \<le> v)"
    by (simp add: less_stable_version_def less_eq_stable_version_def less_le_not_le)
  show "v \<le> v" by (simp add: less_eq_stable_version_def)
  show "u \<le> v \<Longrightarrow> v \<le> w \<Longrightarrow> u \<le> w"
    unfolding less_eq_stable_version_def by (rule order_trans)
  show "v \<le> w \<Longrightarrow> w \<le> v \<Longrightarrow> v = w"
    unfolding less_eq_stable_version_def
    by (cases v; cases w) (auto dest!: order_antisym simp: version_key_def)
  show "v \<le> w \<or> w \<le> v"
    unfolding less_eq_stable_version_def by (rule linear)
qed

end

definition parse_component :: "string \<Rightarrow> (manifest_error, u64) result" where
  "parse_component part =
     (if part = [] \<or> (1 < length part \<and> starts_with ''0'' part)
      then Inl (ManifestInvalid VersionComponent)
      else ok_or (ManifestInvalid VersionComponent) (parse_word part))"

definition stable_version_parse :: "string \<Rightarrow> (manifest_error, stable_version) result" where
  "stable_version_parse value =
     (case split_on (CHR ''.'') value of
        [a, b, c] \<Rightarrow>
          and_then (parse_component a) (\<lambda>major.
          and_then (parse_component b) (\<lambda>minor.
          and_then (parse_component c) (\<lambda>patch.
            Inr (StableVersion major minor patch))))
      | _ \<Rightarrow> Inl (ManifestInvalid VersionShape))"

definition stable_version_display :: "stable_version \<Rightarrow> string" where
  "stable_version_display v =
     show_nat (unat (version_major v)) @ ''.'' @ show_nat (unat (version_minor v)) @ ''.'' @
     show_nat (unat (version_patch v))"

lemma parse_component_show [simp]: "parse_component (show_nat (unat w)) = Inr w"
  using show_nat_canonical [of "unat w"] parse_word_show [of w]
  by (simp add: parse_component_def canonical_decimal_def ok_or_def)

lemma parse_component_Inr:
  assumes "parse_component s = Inr w"
  shows "(CHR ''+'' \<notin> set s \<longrightarrow> s = show_nat (unat w)) \<and>
    (CHR ''+'' \<in> set s \<longrightarrow> starts_with ''+'' s \<and> dec_val (tl s) = unat w)"
proof -
  have s: "s \<noteq> []" "\<not> (1 < length s \<and> starts_with ''0'' s)"
    and w: "parse_word s = Some w"
    using assms by (auto simp: parse_component_def result_simps split: if_splits)
  from parse_word_Some [OF w] obtain ds where ds:
    "s = ds \<or> s = CHR ''+'' # ds" "ds \<noteq> []" "list_all is_ascii_digit ds" "dec_val ds = unat w"
    by (rule parse_uint_Some)
  have plus: "CHR ''+'' \<notin> set ds"
    using ds(3) digit_not [of _ "CHR ''+''"] by (force simp: list_all_iff byte_def)
  show ?thesis
  proof (cases "s = ds")
    case True
    then have "show_nat (dec_val s) = s"
      using s ds by (intro show_nat_dec_val) (simp add: canonical_decimal_def)
    with True ds plus show ?thesis by simp
  next
    case False
    with ds have "s = CHR ''+'' # ds" by simp
    with ds show ?thesis by (simp add: starts_with_Cons)
  qed
qed

lemma stable_version_parse_Inr:
  assumes "stable_version_parse s = Inr v"
  obtains a b c where "s = a @ ''.'' @ b @ ''.'' @ c"
    "CHR ''.'' \<notin> set a" "CHR ''.'' \<notin> set b" "CHR ''.'' \<notin> set c"
    "parse_component a = Inr (version_major v)" "parse_component b = Inr (version_minor v)"
    "parse_component c = Inr (version_patch v)"
proof -
  obtain a b c where abc: "split_on (CHR ''.'') s = [a, b, c]"
    and v: "parse_component a = Inr (version_major v)" "parse_component b = Inr (version_minor v)"
    "parse_component c = Inr (version_patch v)"
    using assms by (auto simp: stable_version_parse_def result_simps split: list.splits)
  have "s = a @ ''.'' @ b @ ''.'' @ c"
    using join_split [of "CHR ''.''" s] abc by simp
  moreover have "CHR ''.'' \<notin> set p" if "p \<in> {a, b, c}" for p
    using split_on_parts [of p "CHR ''.''" s] abc that by simp
  ultimately show ?thesis using v that by simp
qed

lemma split_stable_version_display:
  "split_on (CHR ''.'') (stable_version_display v) =
     [show_nat (unat (version_major v)), show_nat (unat (version_minor v)),
      show_nat (unat (version_patch v))]"
proof -
  have "CHR ''.'' \<notin> set (show_nat n)" for n
    by (rule show_nat_no_char) (simp add: byte_def)
  then show ?thesis
    by (simp add: stable_version_display_def split_on_append split_on_fresh)
qed

interpretation version_text: codec stable_version_display stable_version_parse "\<lambda>_. True"
  by unfold_locales
    (simp add: stable_version_parse_def split_stable_version_display)

section \<open>SHA-256 digests\<close>

datatype sha256_digest = Sha256Digest (digest_bytes: "u8 list")

definition valid_digest :: "sha256_digest \<Rightarrow> bool" where
  "valid_digest d = (length (digest_bytes d) = 32)"

text \<open>The last arm of \<^verbatim>\<open>hex_nibble\<close> is a panic, here \<^const>\<open>None\<close>.\<close>

definition hex_nibble :: "char \<Rightarrow> u8 option" where
  "hex_nibble value =
     (if is_ascii_digit value then Some (word_of_nat (byte value - 48))
      else if 97 \<le> byte value \<and> byte value \<le> 102 then Some (word_of_nat (byte value - 97 + 10))
      else None)"

fun hex_pairs :: "string \<Rightarrow> u8 list option" where
  "hex_pairs [] = Some []"
| "hex_pairs [c] = Some []"
| "hex_pairs (a # b # s) =
     (case (hex_nibble a, hex_nibble b, hex_pairs s) of
        (Some x, Some y, Some bs) \<Rightarrow> Some ((push_bit 4 x OR y) # bs)
      | _ \<Rightarrow> None)"

definition sha256_parse :: "string \<Rightarrow> (manifest_error, sha256_digest) result" where
  "sha256_parse value =
     (if length value \<noteq> 64 \<or> \<not> list_all is_ascii_hexdigit value \<or> list_ex is_ascii_uppercase value
      then Inl (ManifestInvalid DigestShape)
      else map_err (\<lambda>_. ManifestInvalid DigestUnreachable)
        (ok_or () (map_option Sha256Digest (hex_pairs value))))"

definition sha256_display :: "sha256_digest \<Rightarrow> string" where
  "sha256_display d = to_hex (digest_bytes d)"

text \<open>\<^verbatim>\<open>Sha256Digest::from_bytes\<close>; the hash function of the \<^verbatim>\<open>sha2\<close> package is
  a parameter.\<close>

definition sha256_from_bytes :: "(string \<Rightarrow> u8 list) \<Rightarrow> string \<Rightarrow> sha256_digest" where
  "sha256_from_bytes sha bytes = Sha256Digest (sha bytes)"

lemma hex_nibble_lower_hex:
  "is_lower_hex c \<Longrightarrow> hex_nibble c = Some (word_of_nat (hex_value c))"
  by (auto simp: hex_nibble_def is_lower_hex_def hex_value_def)

lemma lower_hex_test:
  "list_all is_lower_hex s = (list_all is_ascii_hexdigit s \<and> \<not> list_ex is_ascii_uppercase s)"
  by (auto simp: list_all_iff list_ex_iff is_lower_hex_iff)

lemma push_bit_or_nibble:
  assumes "m < 16" "n < 16"
  shows "unat (push_bit 4 (word_of_nat m) OR word_of_nat n :: u8) = 16 * m + n"
proof -
  have "push_bit 4 (word_of_nat m) OR word_of_nat n = (word_of_nat (push_bit 4 m OR n) :: u8)"
    by (simp add: of_nat_or_eq of_nat_push_bit)
  moreover have "push_bit 4 m OR n = 16 * m + n"
  proof -
    have "\<not> bit n k" if "4 \<le> k" for k
    proof -
      have "n < 2 ^ k"
        using assms(2) power_increasing [OF that, of "2 :: nat"] by simp
      then show ?thesis by (simp add: bit_iff_odd)
    qed
    then have "push_bit 4 m AND n = 0"
      by (intro bit_eqI) (auto simp: bit_and_iff bit_push_bit_iff)
    then have "push_bit 4 m OR n = push_bit 4 m + n"
      by (simp add: disjunctive_add_eq_or)
    then show ?thesis by (simp add: push_bit_eq_mult)
  qed
  ultimately have "push_bit 4 (word_of_nat m) OR word_of_nat n = (word_of_nat (16 * m + n) :: u8)"
    by (simp only:)
  moreover have "16 * m + n < 2 ^ LENGTH(8)" using assms by simp
  ultimately show ?thesis by (simp only: unat_word_of_nat)
qed

lemma hex_pair_byte:
  assumes "is_lower_hex a" "is_lower_hex b"
  shows "hex_byte (push_bit 4 (word_of_nat (hex_value a)) OR word_of_nat (hex_value b)) = [a, b]"
proof -
  define w :: u8 where "w = push_bit 4 (word_of_nat (hex_value a)) OR word_of_nat (hex_value b)"
  have "unat w = 16 * hex_value a + hex_value b"
    using assms by (simp add: w_def push_bit_or_nibble)
  then have "hex_byte w = [a, b]"
    using assms by (simp add: hex_byte_def unat_high_nibble unat_low_nibble)
  then show ?thesis by (simp add: w_def)
qed

lemma hex_byte_pair:
  assumes "hex_byte w = [a, b]"
  shows "push_bit 4 (word_of_nat (hex_value a)) OR word_of_nat (hex_value b) = w"
proof -
  have ab: "a = hex_digit (unat w div 16)" "b = hex_digit (unat w mod 16)"
    using assms by (simp_all add: hex_byte_def unat_high_nibble unat_low_nibble)
  have "unat w div 16 < 16" "unat w mod 16 < 16"
    using unat_u8_less [of w] by auto
  then have "unat (push_bit 4 (word_of_nat (hex_value a)) OR word_of_nat (hex_value b) :: u8) = unat w"
    unfolding ab by (subst push_bit_or_nibble) auto
  then show ?thesis by (rule word_unat_eq_iff [THEN iffD2])
qed

lemma hex_pairs_Some:
  assumes "list_all is_lower_hex s" "even (length s)"
  shows "\<exists>bs. hex_pairs s = Some bs \<and> to_hex bs = s \<and> 2 * length bs = length s"
  using assms
proof (induction s rule: hex_pairs.induct)
  case (3 a b s)
  then obtain bs where "hex_pairs s = Some bs" "to_hex bs = s" "2 * length bs = length s"
    by auto
  with 3 show ?case
    by (simp add: hex_nibble_lower_hex to_hex_Cons hex_pair_byte)
qed auto

lemma hex_pairs_to_hex: "hex_pairs (to_hex bs) = Some bs"
proof (induction bs)
  case (Cons w bs)
  obtain a b where ab: "hex_byte w = [a, b]" by (simp add: hex_byte_def)
  then have "is_lower_hex a" "is_lower_hex b" using hex_byte_lower_hex [of w] by simp_all
  with Cons ab show ?case
    by (simp add: to_hex_Cons hex_nibble_lower_hex hex_byte_pair)
qed simp

lemma sha256_parse_display:
  assumes "valid_digest d"
  shows "sha256_parse (sha256_display d) = Inr d"
  using assms to_hex_lower_hex [of "digest_bytes d"]
  by (simp add: sha256_parse_def sha256_display_def valid_digest_def hex_pairs_to_hex lower_hex_test
    ok_or_def)

lemma sha256_parse_Inr:
  assumes "sha256_parse s = Inr d"
  shows "valid_digest d \<and> sha256_display d = s"
proof -
  have s: "length s = 64" "list_all is_lower_hex s"
    using assms by (auto simp: sha256_parse_def lower_hex_test split: if_splits)
  then obtain bs where "hex_pairs s = Some bs" "to_hex bs = s" "2 * length bs = 64"
    using hex_pairs_Some [of s] by auto
  with assms s show ?thesis
    by (auto simp: sha256_parse_def sha256_display_def valid_digest_def result_simps split: if_splits)
qed

interpretation digest_text: canonical_codec sha256_display sha256_parse valid_digest
  by unfold_locales (simp_all add: sha256_parse_display sha256_parse_Inr)

section \<open>Properties\<close>

text \<open>The printed form of a version is read back as that version, so versions that print
  alike are equal.\<close>

theorem stable_version_roundtrip:
  "stable_version_parse (stable_version_display v) = Inr v \<and>
   (stable_version_display v = stable_version_display w) = (v = w)"
  using version_text.dec_enc [of v] version_text.enc_inj [of v w] by auto

text \<open>A version text that the parser accepts is the canonical one exactly when it has no plus
  sign: each component may carry one, which the check against leading zeros does not see.\<close>

theorem stable_version_noncanonical:
  assumes "stable_version_parse s = Inr v"
  shows "(stable_version_display v = s) = (CHR ''+'' \<notin> set s)"
proof -
  obtain a b c where s: "s = a @ ''.'' @ b @ ''.'' @ c"
    and abc: "parse_component a = Inr (version_major v)" "parse_component b = Inr (version_minor v)"
      "parse_component c = Inr (version_patch v)"
    using assms by (rule stable_version_parse_Inr)
  have no_plus: "CHR ''+'' \<notin> set (show_nat n)" for n
    by (rule show_nat_no_char) (simp add: byte_def)
  show ?thesis
  proof
    assume "stable_version_display v = s"
    then have "set s = set (stable_version_display v)" by simp
    then show "CHR ''+'' \<notin> set s"
      by (simp add: stable_version_display_def no_plus)
  next
    assume "CHR ''+'' \<notin> set s"
    then show "stable_version_display v = s"
      using parse_component_Inr [OF abc(1)] parse_component_Inr [OF abc(2)]
        parse_component_Inr [OF abc(3)]
      by (simp add: s stable_version_display_def)
  qed
qed

theorem stable_version_noncanonical_witness:
  "stable_version_parse ''+1.+0.2'' = Inr (StableVersion 1 0 2) \<and>
   stable_version_display (StableVersion 1 0 2) \<noteq> ''+1.+0.2''"
proof -
  have "stable_version_parse ''+1.+0.2'' = Inr (StableVersion 1 0 2)"
    by (simp add: stable_version_parse_def parse_component_def ok_or_def text_eval)
  with stable_version_noncanonical [OF this] show ?thesis by simp
qed

text \<open>The digest parser accepts exactly the printed digests, 64 lower case hexadecimal
  digits, and yields the 32 bytes they print.\<close>

theorem digest_text_canonical:
  "(sha256_parse s = Inr d) = (valid_digest d \<and> s = sha256_display d)"
  using digest_text.dec_Inr_iff by blast

end
