(* ===== verification/Manifest_Data.thy ===== *)
theory Manifest_Data
  imports Versions
begin

text \<open>
  The data of a release manifest: the enums and structs of \<^verbatim>\<open>src/update/manifest.rs\<close>
  with the source's fields.  The \<^verbatim>\<open>debug_\<close> functions are the derived
  \<^verbatim>\<open>Debug\<close> texts of the enums, which the manifest and the selection put into identity
  strings.
\<close>

section \<open>Enums\<close>

datatype target_operating_system = TargetLinux | TargetWindows

datatype target_architecture = TargetX86_64

datatype archive_format = Zip | TarGz

datatype libc = Glibc

datatype compatibility_operating_system = CompatLinux | CompatMacOs | CompatWindows | CompatOther

datatype compatibility_architecture = CompatX86_64 | CompatAarch64 | CompatArchOther

datatype compatibility_surface =
    LocalCliLauncher | VsCodeIde | DesktopApp | RemoteEnvironment | Container | Wsl
  | SshHostedIde | CodexCloud | UnknownSurface

datatype experimental_basis =
    StableAtOrAboveAdapterBaseline | CapabilityProbeOnly | RequestedTarget

fun debug_target_os :: "target_operating_system \<Rightarrow> string" where
  "debug_target_os TargetLinux = ''Linux''"
| "debug_target_os TargetWindows = ''Windows''"

fun debug_target_arch :: "target_architecture \<Rightarrow> string" where
  "debug_target_arch TargetX86_64 = ''X86_64''"

fun debug_archive_format :: "archive_format \<Rightarrow> string" where
  "debug_archive_format Zip = ''Zip''"
| "debug_archive_format TarGz = ''TarGz''"

fun debug_libc :: "libc option \<Rightarrow> string" where
  "debug_libc None = ''None''"
| "debug_libc (Some Glibc) = ''Some(Glibc)''"

fun debug_compat_os :: "compatibility_operating_system \<Rightarrow> string" where
  "debug_compat_os CompatLinux = ''Linux''"
| "debug_compat_os CompatMacOs = ''MacOs''"
| "debug_compat_os CompatWindows = ''Windows''"
| "debug_compat_os CompatOther = ''Other''"

fun debug_compat_arch :: "compatibility_architecture \<Rightarrow> string" where
  "debug_compat_arch CompatX86_64 = ''X86_64''"
| "debug_compat_arch CompatAarch64 = ''Aarch64''"
| "debug_compat_arch CompatArchOther = ''Other''"

fun debug_surface :: "compatibility_surface \<Rightarrow> string" where
  "debug_surface LocalCliLauncher = ''LocalCliLauncher''"
| "debug_surface VsCodeIde = ''VsCodeIde''"
| "debug_surface DesktopApp = ''DesktopApp''"
| "debug_surface RemoteEnvironment = ''RemoteEnvironment''"
| "debug_surface Container = ''Container''"
| "debug_surface Wsl = ''Wsl''"
| "debug_surface SshHostedIde = ''SshHostedIde''"
| "debug_surface CodexCloud = ''CodexCloud''"
| "debug_surface UnknownSurface = ''Unknown''"

section \<open>Structs\<close>

record runtime_requirements =
  runtime_minimum :: string
  runtime_libc :: "libc option"

record release_notes =
  notes_title :: string
  notes_url :: string

record asset_provenance =
  source_repository :: string
  source_revision :: string
  build_workflow :: string
  build_id :: string

record release_asset =
  target_name :: string
  asset_operating_system :: target_operating_system
  asset_architecture :: target_architecture
  asset_runtime :: runtime_requirements
  asset_archive_format :: archive_format
  asset_length :: u64
  asset_sha256 :: sha256_digest
  download_origin :: string
  provenance :: asset_provenance

record compatibility_tuple =
  tuple_codex_version :: stable_version
  tuple_operating_system :: compatibility_operating_system
  tuple_architecture :: compatibility_architecture
  tuple_surface :: compatibility_surface
  hook_event :: string
  hook_protocol :: string
  required_tool :: string
  tool_input_schema :: string
  response_behavior :: string

datatype compatibility_eligibility =
    Reviewed string
  | Experimental experimental_basis
  | Excluded string

record compatibility_record =
  record_tuple :: compatibility_tuple
  record_eligibility :: compatibility_eligibility

record release_manifest =
  manifest_schema_version :: u32
  manifest_target :: string
  release_version :: stable_version
  manifest_notes :: release_notes
  manifest_assets :: "release_asset list"
  manifest_compatibility :: "compatibility_record list"

record parsed_manifest =
  parsed_release :: release_manifest
  parsed_byte_length :: nat
  parsed_sha256 :: sha256_digest

section \<open>The debug texts tell the values apart\<close>

lemma debug_target_os_inj [simp]: "(debug_target_os a = debug_target_os b) = (a = b)"
  by (cases a; cases b) auto

lemma debug_target_arch_inj [simp]: "(debug_target_arch a = debug_target_arch b) = (a = b)"
  by (cases a; cases b) auto

lemma debug_archive_format_inj [simp]:
  "(debug_archive_format a = debug_archive_format b) = (a = b)"
  by (cases a; cases b) auto

lemma debug_libc_inj [simp]: "(debug_libc a = debug_libc b) = (a = b)"
  by (cases a rule: debug_libc.cases; cases b rule: debug_libc.cases) auto

lemma debug_compat_os_inj [simp]: "(debug_compat_os a = debug_compat_os b) = (a = b)"
  by (cases a; cases b) auto

lemma debug_compat_arch_inj [simp]: "(debug_compat_arch a = debug_compat_arch b) = (a = b)"
  by (cases a; cases b) auto

lemma debug_surface_inj [simp]: "(debug_surface a = debug_surface b) = (a = b)"
  by (cases a; cases b) auto

text \<open>None of them contains the separator of the identity strings.\<close>

lemma debug_no_bar [simp]:
  "CHR ''|'' \<notin> set (debug_target_os a)" "CHR ''|'' \<notin> set (debug_target_arch b)"
  "CHR ''|'' \<notin> set (debug_archive_format c)" "CHR ''|'' \<notin> set (debug_libc d)"
  "CHR ''|'' \<notin> set (debug_compat_os e)" "CHR ''|'' \<notin> set (debug_compat_arch f)"
  "CHR ''|'' \<notin> set (debug_surface g)"
  subgoal by (cases a) simp_all
  subgoal by (cases b) simp_all
  subgoal by (cases c) simp_all
  subgoal by (cases d rule: debug_libc.cases) simp_all
  subgoal by (cases e) simp_all
  subgoal by (cases f) simp_all
  subgoal by (cases g) simp_all
  done

end
