(* ===== verification/Runtime.thy ===== *)
theory Runtime
  imports Manifest_Data
begin

text \<open>
  Runtime floors of release assets: \<^verbatim>\<open>RuntimeEnvironment\<close>, \<^verbatim>\<open>RuntimeMinimum\<close>,
  \<^verbatim>\<open>parse_runtime_minimum\<close> and \<^verbatim>\<open>runtime_meets\<close> of
  \<^verbatim>\<open>src/update/selection.rs\<close>.  The manifest validation calls the parser too, so this part
  of the selection stands before both.
\<close>

datatype selection_rejection_reason =
    EmptyCatalog
  | DuplicateReleaseVersion
  | ConflictingAssetIdentity
  | AmbiguousAsset
  | AmbiguousCompatibility
  | NotNewerThanInstalled
  | UnsupportedPlatform
  | UnsupportedArchitecture
  | UnknownRuntime
  | UnsupportedRuntime
  | MalformedRuntimeRequirement
  | RuntimeBelowMinimum
  | CompatibilityExcluded
  | CompatibilityUnavailable
  | StrictRequiresReviewed

datatype runtime_environment =
    RuntimeWindows u16 u16 u8
  | RuntimeLinuxGlibc u16 u16
  | RuntimeUnknown

datatype runtime_minimum_floor =
    MinWindows u16 u16 u8
  | MinLinuxGlibc u16 u16

fun floor_key :: "runtime_minimum_floor \<Rightarrow> nat \<times> u16 \<times> u16 \<times> u8" where
  "floor_key (MinWindows major year half) = (0, major, year, half)"
| "floor_key (MinLinuxGlibc major minor) = (1, major, minor, 0)"

lemma floor_key_inj: "floor_key a = floor_key b \<Longrightarrow> a = b"
  by (cases a; cases b) auto

instantiation runtime_minimum_floor :: linorder
begin

definition less_eq_runtime_minimum_floor :: "runtime_minimum_floor \<Rightarrow> runtime_minimum_floor \<Rightarrow> bool" where
  "less_eq_runtime_minimum_floor a b = (floor_key a \<le> floor_key b)"

definition less_runtime_minimum_floor :: "runtime_minimum_floor \<Rightarrow> runtime_minimum_floor \<Rightarrow> bool" where
  "less_runtime_minimum_floor a b = (floor_key a < floor_key b)"

instance
proof
  fix a b c :: runtime_minimum_floor
  show "(a < b) = (a \<le> b \<and> \<not> b \<le> a)"
    by (simp add: less_runtime_minimum_floor_def less_eq_runtime_minimum_floor_def less_le_not_le)
  show "a \<le> a" by (simp add: less_eq_runtime_minimum_floor_def)
  show "a \<le> b \<Longrightarrow> b \<le> c \<Longrightarrow> a \<le> c"
    unfolding less_eq_runtime_minimum_floor_def by (rule order_trans)
  show "a \<le> b \<Longrightarrow> b \<le> a \<Longrightarrow> a = b"
    unfolding less_eq_runtime_minimum_floor_def by (blast intro: floor_key_inj order_antisym)
  show "a \<le> b \<or> b \<le> a"
    unfolding less_eq_runtime_minimum_floor_def by (rule linear)
qed

end

definition parse_decimal :: "string option \<Rightarrow> 'a::len word option" where
  "parse_decimal value =
     (case value of None \<Rightarrow> None
      | Some v \<Rightarrow>
          (if v = [] \<or> \<not> list_all is_ascii_digit v \<or> (1 < length v \<and> starts_with ''0'' v)
           then None else parse_word v))"

definition parse_decimal_u16 :: "string option \<Rightarrow> u16 option" where
  "parse_decimal_u16 value = parse_decimal value"

definition parse_decimal_u8 :: "string option \<Rightarrow> u8 option" where
  "parse_decimal_u8 value = parse_decimal value"

text \<open>
  The parts of \<^verbatim>\<open>value.split('-')\<close> are taken one by one; the half after the year is two
  bytes, an \<^verbatim>\<open>h\<close> and a decimal.
\<close>

definition parse_windows_release :: "u16 \<Rightarrow> string \<Rightarrow> runtime_minimum_floor option" where
  "parse_windows_release major release =
     (if length release \<noteq> 4 then None
      else case parse_decimal_u16 (Some (take 2 release)) of None \<Rightarrow> None
        | Some year \<Rightarrow>
          (case parse_decimal_u8 (strip_prefix ''h'' (drop 2 release)) of None \<Rightarrow> None
           | Some half \<Rightarrow> if half = 1 \<or> half = 2 then Some (MinWindows major year half) else None))"

definition parse_runtime_minimum ::
    "release_asset \<Rightarrow> (selection_rejection_reason, runtime_minimum_floor) result" where
  "parse_runtime_minimum asset =
     ok_or MalformedRuntimeRequirement
       (case asset_operating_system asset of
          TargetWindows \<Rightarrow>
            (if runtime_libc (asset_runtime asset) \<noteq> None then None
             else case strip_prefix ''windows-'' (runtime_minimum (asset_runtime asset)) of
               None \<Rightarrow> None
             | Some value \<Rightarrow>
                 (case split_on (CHR ''-'') value of
                    [a, release] \<Rightarrow>
                      (case parse_decimal_u16 (Some a) of None \<Rightarrow> None
                       | Some major \<Rightarrow> parse_windows_release major release)
                  | _ \<Rightarrow> None))
        | TargetLinux \<Rightarrow>
            (if runtime_libc (asset_runtime asset) \<noteq> Some Glibc then None
             else case strip_prefix ''glibc-'' (runtime_minimum (asset_runtime asset)) of
               None \<Rightarrow> None
             | Some value \<Rightarrow>
                 (case split_on (CHR ''.'') value of
                    [a, b] \<Rightarrow>
                      (case (parse_decimal_u16 (Some a), parse_decimal_u16 (Some b)) of
                         (Some major, Some minor) \<Rightarrow> Some (MinLinuxGlibc major minor)
                       | _ \<Rightarrow> None)
                  | _ \<Rightarrow> None)))"

fun runtime_meets ::
    "runtime_environment \<Rightarrow> target_operating_system \<Rightarrow> runtime_minimum_floor
      \<Rightarrow> (selection_rejection_reason, bool) result" where
  "runtime_meets RuntimeUnknown os minimum = Inl UnknownRuntime"
| "runtime_meets (RuntimeWindows major year half) TargetWindows (MinWindows mmajor myear mhalf) =
     (if \<not> (half = 1 \<or> half = 2) then Inl UnknownRuntime
      else Inr ((mmajor, myear, mhalf) \<le> (major, year, half)))"
| "runtime_meets (RuntimeLinuxGlibc major minor) TargetLinux (MinLinuxGlibc mmajor mminor) =
     Inr ((mmajor, mminor) \<le> (major, minor))"
| "runtime_meets runtime os minimum = Inl UnsupportedRuntime"

section \<open>A floor determines its text\<close>

fun show_floor :: "runtime_minimum_floor \<Rightarrow> string" where
  "show_floor (MinWindows major year half) =
     ''windows-'' @ show_nat (unat major) @ ''-'' @ show_nat (unat year) @ ''h'' @
     show_nat (unat half)"
| "show_floor (MinLinuxGlibc major minor) =
     ''glibc-'' @ show_nat (unat major) @ ''.'' @ show_nat (unat minor)"

lemma parse_decimal_Some:
  fixes w :: "'a::len word"
  assumes "parse_decimal v = Some w"
  shows "v = Some (show_nat (unat w))"
proof -
  obtain s where v: "v = Some s" and s: "canonical_decimal s" and w: "parse_word s = Some w"
    using assms by (auto simp: parse_decimal_def canonical_decimal_def split: option.splits if_splits)
  from parse_uint_canonical [OF s parse_word_Some [OF w]] show ?thesis
    using v s by (simp add: show_nat_dec_val)
qed

lemma parse_decimal_show: "parse_decimal (Some (show_nat (unat w))) = Some (w :: 'a::len word)"
  using show_nat_canonical [of "unat w"] parse_word_show [of w]
  by (simp add: parse_decimal_def canonical_decimal_def)

lemma parse_windows_release_Some:
  assumes "parse_windows_release major release = Some m"
  obtains year half where "m = MinWindows major year half"
    "release = show_nat (unat year) @ ''h'' @ show_nat (unat half)"
proof -
  obtain year half rest where y: "take 2 release = show_nat (unat (year :: u16))"
    and h: "drop 2 release = ''h'' @ rest" "rest = show_nat (unat (half :: u8))"
    and m: "m = MinWindows major year half"
    using assms
    by (auto simp: parse_windows_release_def parse_decimal_u16_def parse_decimal_u8_def
        text_simps dest!: parse_decimal_Some split: if_splits option.splits)
  have "release = take 2 release @ drop 2 release" by simp
  with y h m that show ?thesis by simp
qed

lemma parse_runtime_minimum_text:
  assumes "parse_runtime_minimum asset = Inr m"
  shows "runtime_minimum (asset_runtime asset) = show_floor m"
proof (cases "asset_operating_system asset")
  case TargetWindows
  then obtain body a release major where
    v: "runtime_minimum (asset_runtime asset) = ''windows-'' @ body"
    and sp: "split_on (CHR ''-'') body = [a, release]"
    and a: "parse_decimal_u16 (Some a) = Some major"
    and r: "parse_windows_release major release = Some m"
    using assms
    by (auto simp: parse_runtime_minimum_def result_simps text_simps
        split: if_splits option.splits list.splits)
  have "body = a @ ''-'' @ release"
    using join_split [of "CHR ''-''" body] sp by simp
  moreover have "a = show_nat (unat major)"
    using a by (auto simp: parse_decimal_u16_def dest: parse_decimal_Some)
  ultimately show ?thesis
    using v r by (auto elim!: parse_windows_release_Some)
next
  case TargetLinux
  then obtain body a b major minor where
    v: "runtime_minimum (asset_runtime asset) = ''glibc-'' @ body"
    and sp: "split_on (CHR ''.'') body = [a, b]"
    and a: "parse_decimal_u16 (Some a) = Some major"
    and b: "parse_decimal_u16 (Some b) = Some minor"
    and m: "m = MinLinuxGlibc major minor"
    using assms
    by (auto simp: parse_runtime_minimum_def result_simps text_simps
        split: if_splits option.splits list.splits)
  have "body = a @ ''.'' @ b"
    using join_split [of "CHR ''.''" body] sp by simp
  moreover have "a = show_nat (unat major)" "b = show_nat (unat minor)"
    using a b by (auto simp: parse_decimal_u16_def dest: parse_decimal_Some)
  ultimately show ?thesis using v m by simp
qed

text \<open>The text of a floor has no bar, so it can stand in an identity string.\<close>

lemma show_floor_no_bar: "CHR ''|'' \<notin> set (show_floor m)"
proof -
  have "CHR ''|'' \<notin> set (show_nat n)" for n
    by (rule show_nat_no_char) (simp add: byte_def)
  then show ?thesis by (cases m) simp_all
qed

lemma parse_runtime_minimum_Inl:
  "parse_runtime_minimum asset = Inl e \<Longrightarrow> e = MalformedRuntimeRequirement"
  by (auto simp: parse_runtime_minimum_def result_simps)

lemmas runtime_eval = parse_runtime_minimum_def parse_decimal_def parse_decimal_u16_def
  parse_decimal_u8_def parse_windows_release_def ok_or_def


end
