(* ===== verification/Json.thy ===== *)
theory Json
  imports Rust_Text
begin

text \<open>
  JSON as the sources see it.  The tokenizer is the \<^verbatim>\<open>serde_json\<close> package: a parameter
  that reads one value from the front of the input and returns it with the rest of the input.
  The value it hands to a visitor is a \<^verbatim>\<open>raw_json\<close> tree, whose objects still have
  their keys in order and with repetitions.  The visitors are code of the repository:
  \<^verbatim>\<open>DuplicateKeyVisitor\<close> of \<^verbatim>\<open>src/update/manifest.rs\<close> and
  \<^verbatim>\<open>UniqueObjectVisitor\<close>, \<^verbatim>\<open>StrictValueVisitor\<close> of
  \<^verbatim>\<open>src/protocol.rs\<close>.  A decoded \<^verbatim>\<open>Value\<close> keeps the entries of an object
  sorted by key, as the map type of \<^verbatim>\<open>serde_json\<close> does.
\<close>

section \<open>Values\<close>

datatype json_number = PosInt u64 | NegInt u64 | Float u64

datatype raw_json =
    RawNull
  | RawBool bool
  | RawI64 u64
  | RawU64 u64
  | RawF64 u64
  | RawString string
  | RawArray "raw_json list"
  | RawObject "(string \<times> raw_json) list"

datatype json =
    JNull
  | JBool bool
  | JNumber json_number
  | JString string
  | JArray "json list"
  | JObject "(string \<times> json) list"

type_synonym tokenizer = "string \<Rightarrow> (raw_json \<times> string) option"

fun as_object :: "json \<Rightarrow> (string \<times> json) list option" where
  "as_object (JObject kvs) = Some kvs"
| "as_object _ = None"

fun as_str :: "json \<Rightarrow> string option" where
  "as_str (JString s) = Some s"
| "as_str _ = None"

definition is_string :: "json \<Rightarrow> bool" where
  "is_string v = (as_str v \<noteq> None)"

definition is_null :: "json \<Rightarrow> bool" where
  "is_null v = (v = JNull)"

text \<open>\<^verbatim>\<open>Map::insert\<close> on the sorted entries.\<close>

fun map_insert :: "string \<Rightarrow> json \<Rightarrow> (string \<times> json) list \<Rightarrow> (string \<times> json) list" where
  "map_insert k v [] = [(k, v)]"
| "map_insert k v ((k', v') # kvs) =
     (if k < k' then (k, v) # (k', v') # kvs
      else if k = k' then (k, v) # kvs
      else (k', v') # map_insert k v kvs)"

text \<open>Numbers: \<^verbatim>\<open>From<i64>\<close> and \<^verbatim>\<open>from_f64\<close>, which has no number for an
  infinity or a NaN (an exponent field of ones).\<close>

definition number_of_i64 :: "u64 \<Rightarrow> json_number" where
  "number_of_i64 w = (if sint w < 0 then NegInt w else PosInt w)"

definition number_of_f64 :: "u64 \<Rightarrow> json_number option" where
  "number_of_f64 w = (if drop_bit 52 w AND 0x7FF = 0x7FF then None else Some (Float w))"

section \<open>The visitors\<close>

abbreviation raw_size :: "raw_json list \<Rightarrow> nat" where
  "raw_size \<equiv> size_list size"

abbreviation entries_size :: "(string \<times> raw_json) list \<Rightarrow> nat" where
  "entries_size \<equiv> size_list (size_prod (\<lambda>_. 0) size)"

function strict_value :: "raw_json \<Rightarrow> json option"
  and strict_seq :: "json list \<Rightarrow> raw_json list \<Rightarrow> json list option"
  and strict_map :: "string set \<Rightarrow> (string \<times> json) list \<Rightarrow> (string \<times> raw_json) list
    \<Rightarrow> (string \<times> json) list option"
where
  "strict_value RawNull = Some JNull"
| "strict_value (RawBool b) = Some (JBool b)"
| "strict_value (RawI64 w) = Some (JNumber (number_of_i64 w))"
| "strict_value (RawU64 w) = Some (JNumber (PosInt w))"
| "strict_value (RawF64 w) =
     Some (case number_of_f64 w of Some n \<Rightarrow> JNumber n | None \<Rightarrow> JNull)"
| "strict_value (RawString s) = Some (JString s)"
| "strict_value (RawArray rs) = map_option JArray (strict_seq [] rs)"
| "strict_value (RawObject kvs) = map_option JObject (strict_map {} [] kvs)"
| "strict_seq values [] = Some values"
| "strict_seq values (r # rs) =
     (case strict_value r of None \<Rightarrow> None | Some v \<Rightarrow> strict_seq (values @ [v]) rs)"
| "strict_map fields obj [] = Some obj"
| "strict_map fields obj ((k, r) # kvs) =
     (if k \<in> fields then None
      else case strict_value r of None \<Rightarrow> None
        | Some v \<Rightarrow> strict_map (insert k fields) (map_insert k v obj) kvs)"
  by pat_completeness auto
termination
  by (relation "measure (case_sum size (case_sum (\<lambda>(values, rs). raw_size rs)
        (\<lambda>(fields, obj, kvs). entries_size kvs)))") auto

function dup_value :: "raw_json \<Rightarrow> bool"
  and dup_seq :: "raw_json list \<Rightarrow> bool"
  and dup_map :: "string set \<Rightarrow> (string \<times> raw_json) list \<Rightarrow> bool"
where
  "dup_value (RawArray rs) = dup_seq rs"
| "dup_value (RawObject kvs) = dup_map {} kvs"
| "dup_value RawNull = True"
| "dup_value (RawBool b) = True"
| "dup_value (RawI64 w) = True"
| "dup_value (RawU64 w) = True"
| "dup_value (RawF64 w) = True"
| "dup_value (RawString s) = True"
| "dup_seq [] = True"
| "dup_seq (r # rs) = (dup_value r \<and> dup_seq rs)"
| "dup_map keys [] = True"
| "dup_map keys ((k, r) # kvs) = (k \<notin> keys \<and> dup_value r \<and> dup_map (insert k keys) kvs)"
  by pat_completeness auto
termination
  by (relation "measure (case_sum size (case_sum raw_size (\<lambda>(keys, kvs). entries_size kvs)))") auto

section \<open>What the visitors accept\<close>

text \<open>The specification: no object, at any depth, repeats a key; and the value a tree stands
  for when that is so.\<close>

function unique_keys :: "raw_json \<Rightarrow> bool" where
  "unique_keys (RawArray rs) = (\<forall>r \<in> set rs. unique_keys r)"
| "unique_keys (RawObject kvs) =
     (distinct (map fst kvs) \<and> (\<forall>kv \<in> set kvs. unique_keys (snd kv)))"
| "unique_keys RawNull = True"
| "unique_keys (RawBool b) = True"
| "unique_keys (RawI64 w) = True"
| "unique_keys (RawU64 w) = True"
| "unique_keys (RawF64 w) = True"
| "unique_keys (RawString s) = True"
  by pat_completeness auto
termination
proof (relation "measure size", goal_cases)
  case (2 rs r)
  then have "size r < Suc (raw_size rs)"
    by (induction rs) auto
  then show ?case by simp
next
  case (3 kvs kv)
  then have "size (snd kv) < Suc (entries_size kvs)"
    by (induction kvs) auto
  then show ?case by simp
qed auto

lemma dup_unique:
  "dup_value r = unique_keys r"
  "dup_seq rs = (\<forall>r \<in> set rs. unique_keys r)"
  "dup_map keys kvs = (distinct (map fst kvs) \<and> fst ` set kvs \<inter> keys = {} \<and>
     (\<forall>kv \<in> set kvs. unique_keys (snd kv)))"
  by (induction r and rs and keys kvs rule: dup_value_dup_seq_dup_map.induct) auto

lemma strict_dup:
  "(strict_value r \<noteq> None) = dup_value r"
  "(strict_seq vs rs \<noteq> None) = dup_seq rs"
  "(strict_map keys obj kvs \<noteq> None) = dup_map keys kvs"
  by (induction r and vs rs and keys obj kvs rule: strict_value_strict_seq_strict_map.induct)
    (auto split: option.splits)

lemma strict_value_unique: "(\<exists>v. strict_value r = Some v) = unique_keys r"
  using strict_dup(1) [of r] dup_unique(1) [of r] by auto

section \<open>The decoded object\<close>

lemma map_of_map_insert [simp]: "map_of (map_insert k v obj) = (map_of obj)(k \<mapsto> v)"
  by (induction k v obj rule: map_insert.induct) (auto simp: fun_eq_iff)

lemma set_map_insert_keys: "fst ` set (map_insert k v obj) = insert k (fst ` set obj)"
  by (induction k v obj rule: map_insert.induct) auto

text \<open>The keys of a decoded object are in increasing order, so no key occurs twice and two
  objects with the same entries are equal.\<close>

definition sorted_object :: "(string \<times> 'a) list \<Rightarrow> bool" where
  "sorted_object obj = sorted_wrt (<) (map fst obj)"

lemma sorted_object_simps [simp]:
  "sorted_object []"
  "sorted_object ((k, v) # obj) = ((\<forall>k' \<in> fst ` set obj. k < k') \<and> sorted_object obj)"
  by (auto simp: sorted_object_def)

lemma sorted_map_insert: "sorted_object obj \<Longrightarrow> sorted_object (map_insert k v obj)"
  by (induction k v obj rule: map_insert.induct) (auto simp: set_map_insert_keys)

lemma sorted_object_distinct: "sorted_object obj \<Longrightarrow> distinct (map fst obj)"
  by (auto simp: sorted_object_def strict_sorted_iff)

lemma strict_map_entries:
  assumes "strict_map keys obj kvs = Some out" "sorted_object obj"
  shows "sorted_object out \<and>
    (\<forall>k. map_of out k = (case map_of kvs k of None \<Rightarrow> map_of obj k | Some r \<Rightarrow> strict_value r))"
  using assms
proof (induction kvs arbitrary: keys obj)
  case (Cons kv kvs)
  obtain k r where kv: "kv = (k, r)" by (cases kv)
  then obtain v where k: "k \<notin> keys" and v: "strict_value r = Some v"
    and rest: "strict_map (insert k keys) (map_insert k v obj) kvs = Some out"
    using Cons.prems(1) by (auto split: if_splits option.splits)
  have "dup_map (insert k keys) kvs"
    using rest strict_dup(3) [of "insert k keys" "map_insert k v obj" kvs] by simp
  then have fresh: "k \<notin> fst ` set kvs" unfolding dup_unique(3) by auto
  then have "map_of kvs k = None" by (simp add: map_of_eq_None_iff)
  moreover note Cons.IH [OF rest sorted_map_insert [OF Cons.prems(2)]]
  ultimately show ?case using v kv by (auto split: option.splits)
qed simp

section \<open>Derived decoders\<close>

text \<open>
  A struct decoder derived by \<^verbatim>\<open>serde\<close> that denies unknown fields reads an object by the
  names of its entries or an array by position.  The result looks a field up.
\<close>

fun struct_fields :: "string list \<Rightarrow> json \<Rightarrow> (string \<Rightarrow> json option) option" where
  "struct_fields names (JObject kvs) =
     (if list_all (\<lambda>kv. fst kv \<in> set names) kvs then Some (map_of kvs) else None)"
| "struct_fields names (JArray vs) =
     (if length vs \<le> length names then Some (map_of (zip names vs)) else None)"
| "struct_fields names _ = None"

definition bind_field :: "(string \<Rightarrow> json option) \<Rightarrow> string \<Rightarrow> (json \<Rightarrow> 'a option)
    \<Rightarrow> ('a \<Rightarrow> 'b option) \<Rightarrow> 'b option" where
  "bind_field fields name dec k =
     (case fields name of None \<Rightarrow> None
      | Some v \<Rightarrow> (case dec v of None \<Rightarrow> None | Some x \<Rightarrow> k x))"

lemma bind_field_Some:
  "(bind_field fields name dec k = Some y) =
     (\<exists>v x. fields name = Some v \<and> dec v = Some x \<and> k x = Some y)"
  by (auto simp: bind_field_def split: option.splits)

text \<open>A unit variant is its name, or an object with the name and a null.\<close>

fun unit_variant :: "(string \<times> 'a) list \<Rightarrow> json \<Rightarrow> 'a option" where
  "unit_variant names (JString s) = map_of names s"
| "unit_variant names (JObject [(s, v)]) = (if v = JNull then map_of names s else None)"
| "unit_variant names _ = None"

lemma as_str_Some [simp]: "(as_str v = Some s) = (v = JString s)"
  by (cases v) auto

lemma as_object_Some [simp]: "(as_object v = Some kvs) = (v = JObject kvs)"
  by (cases v) auto

end
