(* ===== verification/Manifest.thy ===== *)
theory Manifest
  imports Runtime Json "HOL-Library.Multiset"
begin

text \<open>
  Validation and canonical form of a release manifest, \<^verbatim>\<open>src/update/manifest.rs\<close>:
  \<^verbatim>\<open>parse_manifest\<close> with the duplicate key scan, the decoder (a parameter, derived by
  \<^verbatim>\<open>serde\<close>) and \<^verbatim>\<open>validate_manifest\<close> with every check it makes, in its order.
\<close>

section \<open>Limits\<close>

definition SUPPORTED_MANIFEST_SCHEMA_VERSION :: u32 where
  "SUPPORTED_MANIFEST_SCHEMA_VERSION = 1"

definition MAX_MANIFEST_BYTES :: nat where
  "MAX_MANIFEST_BYTES = 256 * 1024"

definition MAX_ASSET_COUNT :: nat where
  "MAX_ASSET_COUNT = 16"

definition MAX_COMPATIBILITY_RECORD_COUNT :: nat where
  "MAX_COMPATIBILITY_RECORD_COUNT = 128"

definition MAX_ASSET_BYTES :: u64 where
  "MAX_ASSET_BYTES = 512 * 1024 * 1024"

definition MAX_STRING_BYTES :: nat where
  "MAX_STRING_BYTES = 4096"

definition MAX_TARGET_NAME_BYTES :: nat where
  "MAX_TARGET_NAME_BYTES = 512"

definition MAX_EVIDENCE_REF_BYTES :: nat where
  "MAX_EVIDENCE_REF_BYTES = 512"

definition RELEASE_REPOSITORY :: string where
  "RELEASE_REPOSITORY = ''slee7286/codex-autoapprover''"

definition HTTPS_PREFIX :: string where
  "HTTPS_PREFIX = ''https://''"

section \<open>Fields\<close>

definition validate_string :: "string \<Rightarrow> string \<Rightarrow> nat \<Rightarrow> (manifest_error, unit) result" where
  "validate_string value field maximum =
     ensure (\<not> (value = [] \<or> maximum < length value \<or> has_control value))
       (ManifestInvalid (BadString field))"

definition validate_url :: "string \<Rightarrow> string \<Rightarrow> (manifest_error, unit) result" where
  "validate_url value field =
     and_then (validate_string value field MAX_STRING_BYTES) (\<lambda>_.
       ensure (\<not> (\<not> starts_with HTTPS_PREFIX value \<or> has_whitespace value \<or>
           CHR ''#'' \<in> set value \<or> CHR ''?'' \<in> set value))
         (ManifestInvalid (BadUrl field)))"

definition validate_target_name :: "string \<Rightarrow> (manifest_error, unit) result" where
  "validate_target_name value =
     and_then (validate_string value ''target name'' MAX_TARGET_NAME_BYTES) (\<lambda>_.
       ensure (\<not> (starts_with ''/'' value \<or> CHR 0x5C \<in> set value \<or>
           list_ex (\<lambda>part. part = [] \<or> part = ''.'' \<or> part = ''..'') (split_on (CHR ''/'') value)))
         (ManifestInvalid BadTargetName))"

definition validate_runtime :: "runtime_requirements \<Rightarrow> (manifest_error, unit) result" where
  "validate_runtime runtime =
     and_then (validate_string (runtime_minimum runtime) ''runtime.minimum'' MAX_STRING_BYTES) (\<lambda>_.
       if runtime_libc runtime = Some Glibc \<and> starts_with ''glibc-'' (runtime_minimum runtime)
       then Inr ()
       else if starts_with ''windows-'' (runtime_minimum runtime) then Inr ()
       else Inl (ManifestInvalid ContradictoryRuntime))"

definition validate_release_notes :: "release_notes \<Rightarrow> (manifest_error, unit) result" where
  "validate_release_notes notes =
     and_then (validate_string (notes_title notes) ''release_notes.title'' MAX_STRING_BYTES) (\<lambda>_.
       validate_url (notes_url notes) ''release_notes.url'')"

definition validate_provenance :: "asset_provenance \<Rightarrow> (manifest_error, unit) result" where
  "validate_provenance p =
     and_then (validate_string (source_repository p) ''provenance.source_repository''
       MAX_STRING_BYTES) (\<lambda>_.
     and_then (ensure (source_repository p = RELEASE_REPOSITORY)
       (ManifestInvalid WrongRepository)) (\<lambda>_.
     and_then (validate_string (source_revision p) ''provenance.source_revision'' 40) (\<lambda>_.
     and_then (ensure (\<not> (length (source_revision p) \<noteq> 40 \<or>
         \<not> list_all is_ascii_hexdigit (source_revision p))) (ManifestInvalid BadRevision)) (\<lambda>_.
     and_then (validate_string (build_workflow p) ''provenance.build_workflow''
       MAX_STRING_BYTES) (\<lambda>_.
     validate_string (build_id p) ''provenance.build_id'' MAX_STRING_BYTES)))))"

definition asset_shape_ok :: "release_asset \<Rightarrow> bool" where
  "asset_shape_ok asset =
     (case (asset_operating_system asset, asset_archive_format asset,
            runtime_libc (asset_runtime asset)) of
        (TargetWindows, Zip, None) \<Rightarrow> True
      | (TargetLinux, TarGz, Some Glibc) \<Rightarrow> True
      | _ \<Rightarrow> False)"

definition validate_asset :: "release_asset \<Rightarrow> (manifest_error, unit) result" where
  "validate_asset asset =
     and_then (validate_target_name (target_name asset)) (\<lambda>_.
     and_then (validate_runtime (asset_runtime asset)) (\<lambda>_.
     and_then (map_err (\<lambda>_. ManifestInvalid (MalformedRuntimeMinimum (target_name asset)))
       (parse_runtime_minimum asset)) (\<lambda>_.
     and_then (ensure (\<not> (asset_length asset = 0 \<or> MAX_ASSET_BYTES < asset_length asset))
       (ManifestInvalid (AssetLength (target_name asset)))) (\<lambda>_.
     and_then (validate_url (download_origin asset) ''download_origin'') (\<lambda>_.
     and_then (validate_provenance (provenance asset)) (\<lambda>_.
     ensure (asset_shape_ok asset) (ManifestInvalid (ContradictoryAsset (target_name asset)))))))))"

definition validate_compatibility :: "compatibility_record \<Rightarrow> (manifest_error, unit) result" where
  "validate_compatibility rec =
     (let tuple = record_tuple rec in
      and_then (for_each (\<lambda>(value, field). validate_string value field MAX_STRING_BYTES)
        [(hook_event tuple, ''hook_event''), (hook_protocol tuple, ''hook_protocol''),
         (required_tool tuple, ''required_tool''),
         (tool_input_schema tuple, ''tool_input_schema''),
         (response_behavior tuple, ''response_behavior'')]) (\<lambda>_.
      and_then (ensure (\<not> (hook_event tuple \<noteq> ''PermissionRequest'' \<or>
          hook_protocol tuple \<noteq> ''permission-request-v1'' \<or>
          required_tool tuple \<noteq> ''Bash'' \<or>
          tool_input_schema tuple \<noteq> ''command-string-v1'' \<or>
          response_behavior tuple \<noteq> ''one-request-structured-allow''))
        (ManifestInvalid UnsupportedHookSchema)) (\<lambda>_.
      case record_eligibility rec of
        Reviewed evidence_ref \<Rightarrow> validate_string evidence_ref ''evidence_ref'' MAX_EVIDENCE_REF_BYTES
      | Experimental basis \<Rightarrow> Inr ()
      | Excluded reason \<Rightarrow> validate_string reason ''exclusion reason'' MAX_STRING_BYTES)))"

section \<open>Identities\<close>

definition manifest_asset_identity :: "release_asset \<Rightarrow> string" where
  "manifest_asset_identity asset =
     debug_target_os (asset_operating_system asset) @ ''|'' @
     debug_target_arch (asset_architecture asset) @ ''|'' @
     runtime_minimum (asset_runtime asset) @ ''|'' @
     debug_archive_format (asset_archive_format asset)"

definition compatibility_identity :: "compatibility_tuple \<Rightarrow> string" where
  "compatibility_identity tuple =
     stable_version_display (tuple_codex_version tuple) @ ''|'' @
     debug_compat_os (tuple_operating_system tuple) @ ''|'' @
     debug_compat_arch (tuple_architecture tuple) @ ''|'' @
     debug_surface (tuple_surface tuple) @ ''|'' @
     hook_event tuple @ ''|'' @ hook_protocol tuple @ ''|'' @ required_tool tuple @ ''|'' @
     tool_input_schema tuple @ ''|'' @ response_behavior tuple"

section \<open>The manifest\<close>

text \<open>The loop over the assets keeps two sets of what it has seen.\<close>

fun validate_assets ::
    "string set \<Rightarrow> string set \<Rightarrow> release_asset list \<Rightarrow> (manifest_error, unit) result" where
  "validate_assets names identities [] = Inr ()"
| "validate_assets names identities (asset # assets) =
     and_then (validate_asset asset) (\<lambda>_.
       if target_name asset \<in> names
       then Inl (ManifestInvalid (DuplicateTargetName (target_name asset)))
       else if manifest_asset_identity asset \<in> identities
       then Inl (ManifestInvalid DuplicateAssetIdentity)
       else validate_assets (insert (target_name asset) names)
              (insert (manifest_asset_identity asset) identities) assets)"

definition validate_manifest :: "release_manifest \<Rightarrow> (manifest_error, unit) result" where
  "validate_manifest manifest =
     (if manifest_schema_version manifest \<noteq> SUPPORTED_MANIFEST_SCHEMA_VERSION
      then Inl (UnsupportedManifestSchemaVersion (manifest_schema_version manifest))
      else
        and_then (validate_target_name (manifest_target manifest)) (\<lambda>_.
        and_then (validate_release_notes (manifest_notes manifest)) (\<lambda>_.
        and_then (ensure (\<not> (manifest_assets manifest = [] \<or>
            MAX_ASSET_COUNT < length (manifest_assets manifest))) (ManifestInvalid AssetCount)) (\<lambda>_.
        and_then (ensure (\<not> (manifest_compatibility manifest = [] \<or>
            MAX_COMPATIBILITY_RECORD_COUNT < length (manifest_compatibility manifest)))
          (ManifestInvalid CompatibilityCount)) (\<lambda>_.
        and_then (validate_assets {} {} (manifest_assets manifest)) (\<lambda>_.
        distinct_each validate_compatibility (\<lambda>rec. compatibility_identity (record_tuple rec))
          (ManifestInvalid DuplicateCompatibility) {} (manifest_compatibility manifest)))))))"

definition json_blank :: "char \<Rightarrow> bool" where
  "json_blank c = (c \<in> {CHR '' '', CHR 0x09, CHR 0x0A, CHR 0x0D})"

text \<open>\<^verbatim>\<open>deserializer.end()\<close> accepts JSON white space only after the value.\<close>

definition reject_duplicate_json_keys :: "tokenizer \<Rightarrow> string \<Rightarrow> (manifest_error, unit) result" where
  "reject_duplicate_json_keys tok bytes =
     (case tok bytes of
        None \<Rightarrow> Inl ManifestJson
      | Some (raw, rest) \<Rightarrow> ensure (dup_value raw \<and> list_all json_blank rest) ManifestJson)"

definition parse_manifest ::
    "tokenizer \<Rightarrow> (string \<Rightarrow> release_manifest option) \<Rightarrow> (string \<Rightarrow> u8 list) \<Rightarrow> string
      \<Rightarrow> (manifest_error, parsed_manifest) result" where
  "parse_manifest tok decode sha bytes =
     (if MAX_MANIFEST_BYTES < length bytes
      then Inl (ManifestTooLarge (length bytes) MAX_MANIFEST_BYTES)
      else
        and_then (reject_duplicate_json_keys tok bytes) (\<lambda>_.
        and_then (ok_or ManifestJson (decode bytes)) (\<lambda>manifest.
        and_then (validate_manifest manifest) (\<lambda>_.
          Inr \<lparr>parsed_release = manifest, parsed_byte_length = length bytes,
               parsed_sha256 = sha256_from_bytes sha bytes\<rparr>))))"

text \<open>The canonical form sorts assets by name and records by identity, then serializes; the
  serializer is a parameter.\<close>

definition normalize_manifest :: "release_manifest \<Rightarrow> release_manifest" where
  "normalize_manifest manifest = manifest
     \<lparr>manifest_assets := sort_key target_name (manifest_assets manifest),
      manifest_compatibility :=
        sort_key (\<lambda>rec. compatibility_identity (record_tuple rec))
          (manifest_compatibility manifest)\<rparr>"

definition canonical_json :: "(release_manifest \<Rightarrow> string) \<Rightarrow> release_manifest \<Rightarrow> string" where
  "canonical_json to_vec manifest = to_vec (normalize_manifest manifest)"

section \<open>What a validated manifest satisfies\<close>

text \<open>
  The specification, on the structured data: no identity strings.  Two assets may not share
  their platform and runtime floor, two records not their version, platform and surface.
\<close>

definition text_ok :: "nat \<Rightarrow> string \<Rightarrow> bool" where
  "text_ok maximum s = (s \<noteq> [] \<and> length s \<le> maximum \<and> \<not> has_control s)"

definition url_ok :: "string \<Rightarrow> bool" where
  "url_ok s = (text_ok MAX_STRING_BYTES s \<and> starts_with HTTPS_PREFIX s \<and> \<not> has_whitespace s \<and>
     CHR ''#'' \<notin> set s \<and> CHR ''?'' \<notin> set s)"

definition relative_path_ok :: "string \<Rightarrow> bool" where
  "relative_path_ok s = (CHR 0x5C \<notin> set s \<and>
     (\<exists>parts. parts \<noteq> [] \<and> s = join_on (CHR ''/'') parts \<and>
       (\<forall>part \<in> set parts. CHR ''/'' \<notin> set part \<and> part \<notin> {[], ''.'', ''..''})))"

definition provenance_ok :: "asset_provenance \<Rightarrow> bool" where
  "provenance_ok p =
     (source_repository p = RELEASE_REPOSITORY \<and> length (source_revision p) = 40 \<and>
      list_all is_ascii_hexdigit (source_revision p) \<and>
      text_ok MAX_STRING_BYTES (build_workflow p) \<and> text_ok MAX_STRING_BYTES (build_id p))"

definition asset_ok :: "release_asset \<Rightarrow> bool" where
  "asset_ok asset =
     (text_ok MAX_TARGET_NAME_BYTES (target_name asset) \<and> relative_path_ok (target_name asset) \<and>
      text_ok MAX_STRING_BYTES (runtime_minimum (asset_runtime asset)) \<and>
      (\<exists>floor. parse_runtime_minimum asset = Inr floor) \<and>
      0 < asset_length asset \<and> asset_length asset \<le> MAX_ASSET_BYTES \<and>
      url_ok (download_origin asset) \<and> provenance_ok (provenance asset) \<and>
      asset_archive_format asset =
        (case asset_operating_system asset of TargetWindows \<Rightarrow> Zip | TargetLinux \<Rightarrow> TarGz))"

definition record_ok :: "compatibility_record \<Rightarrow> bool" where
  "record_ok rec =
     (hook_event (record_tuple rec) = ''PermissionRequest'' \<and>
      hook_protocol (record_tuple rec) = ''permission-request-v1'' \<and>
      required_tool (record_tuple rec) = ''Bash'' \<and>
      tool_input_schema (record_tuple rec) = ''command-string-v1'' \<and>
      response_behavior (record_tuple rec) = ''one-request-structured-allow'' \<and>
      (case record_eligibility rec of
         Reviewed evidence \<Rightarrow> text_ok MAX_EVIDENCE_REF_BYTES evidence
       | Experimental basis \<Rightarrow> True
       | Excluded reason \<Rightarrow> text_ok MAX_STRING_BYTES reason))"

definition asset_platform ::
    "release_asset \<Rightarrow> target_operating_system \<times> target_architecture \<times> string" where
  "asset_platform asset =
     (asset_operating_system asset, asset_architecture asset,
      runtime_minimum (asset_runtime asset))"

definition tuple_platform ::
    "compatibility_tuple \<Rightarrow> stable_version \<times> compatibility_operating_system \<times>
      compatibility_architecture \<times> compatibility_surface" where
  "tuple_platform t =
     (tuple_codex_version t, tuple_operating_system t, tuple_architecture t, tuple_surface t)"

definition release_ok :: "release_manifest \<Rightarrow> bool" where
  "release_ok m =
     (manifest_schema_version m = 1 \<and>
      text_ok MAX_TARGET_NAME_BYTES (manifest_target m) \<and> relative_path_ok (manifest_target m) \<and>
      text_ok MAX_STRING_BYTES (notes_title (manifest_notes m)) \<and>
      url_ok (notes_url (manifest_notes m)) \<and>
      length (manifest_assets m) \<in> {1..16} \<and> length (manifest_compatibility m) \<in> {1..128} \<and>
      (\<forall>asset \<in> set (manifest_assets m). asset_ok asset) \<and>
      distinct (map target_name (manifest_assets m)) \<and>
      distinct (map asset_platform (manifest_assets m)) \<and>
      (\<forall>rec \<in> set (manifest_compatibility m). record_ok rec) \<and>
      distinct (map (\<lambda>rec. tuple_platform (record_tuple rec)) (manifest_compatibility m)))"

lemma validate_string_Inr [result_simps]:
  "(validate_string s field maximum = Inr u) = text_ok maximum s"
  by (auto simp: validate_string_def text_ok_def result_simps)

lemma validate_url_Inr [result_simps]: "(validate_url s field = Inr u) = url_ok s"
  by (auto simp: validate_url_def url_ok_def result_simps)

lemma relative_path_split:
  "relative_path_ok s = (CHR 0x5C \<notin> set s \<and>
     (\<forall>part \<in> set (split_on (CHR ''/'') s). part \<notin> {[], ''.'', ''..''}))"
proof
  assume "relative_path_ok s"
  then obtain parts where p: "CHR 0x5C \<notin> set s" "parts \<noteq> []" "s = join_on (CHR ''/'') parts"
    and parts: "\<forall>part \<in> set parts. CHR ''/'' \<notin> set part \<and> part \<notin> {[], ''.'', ''..''}"
    unfolding relative_path_ok_def by blast
  have "split_on (CHR ''/'') s = parts"
    unfolding p(3) using p(2) parts by (intro split_join) blast+
  with p(1) parts
  show "CHR 0x5C \<notin> set s \<and> (\<forall>part \<in> set (split_on (CHR ''/'') s). part \<notin> {[], ''.'', ''..''})"
    by blast
next
  assume s: "CHR 0x5C \<notin> set s \<and> (\<forall>part \<in> set (split_on (CHR ''/'') s). part \<notin> {[], ''.'', ''..''})"
  have "s = join_on (CHR ''/'') (split_on (CHR ''/'') s)" by simp
  with s split_on_parts [of _ "CHR ''/''" s] split_on_not_Nil [of "CHR ''/''" s]
  show "relative_path_ok s"
    unfolding relative_path_ok_def by blast
qed

lemma starts_with_slash_split:
  "starts_with ''/'' s \<Longrightarrow> [] \<in> set (split_on (CHR ''/'') s)"
  by (cases s) (auto simp: starts_with_Cons)

lemma validate_target_name_Inr [result_simps]:
  "(validate_target_name s = Inr u) = (text_ok MAX_TARGET_NAME_BYTES s \<and> relative_path_ok s)"
proof -
  have "(list_ex (\<lambda>part. part = [] \<or> part = ''.'' \<or> part = ''..'') (split_on (CHR ''/'') s)) =
      (\<exists>part \<in> set (split_on (CHR ''/'') s). part \<in> {[], ''.'', ''..''})"
    by (simp only: list_ex_iff insert_iff empty_iff) blast
  then show ?thesis
    using starts_with_slash_split [of s]
    unfolding validate_target_name_def relative_path_split and_then_Inr ensure_Inr
      validate_string_Inr
    by blast
qed

lemma validate_release_notes_Inr [result_simps]:
  "(validate_release_notes notes = Inr u) =
     (text_ok MAX_STRING_BYTES (notes_title notes) \<and> url_ok (notes_url notes))"
  by (simp add: validate_release_notes_def result_simps)

lemma hexdigit_no_control: "list_all is_ascii_hexdigit s \<Longrightarrow> \<not> has_control s"
  by (induction s) (auto simp: is_ascii_hexdigit_def is_ascii_digit_def)

lemma release_repository_text: "text_ok MAX_STRING_BYTES RELEASE_REPOSITORY"
  by (simp add: text_ok_def RELEASE_REPOSITORY_def MAX_STRING_BYTES_def byte_def)

lemma validate_provenance_Inr [result_simps]:
  "(validate_provenance p = Inr u) = provenance_ok p"
  using release_repository_text hexdigit_no_control [of "source_revision p"]
  by (auto simp: validate_provenance_def provenance_ok_def result_simps text_ok_def)

lemma glibc_windows_prefix:
  "starts_with ''windows-'' s \<Longrightarrow> \<not> starts_with ''glibc-'' s"
  by (cases s) (auto simp: starts_with_Cons)

lemma show_floor_prefix:
  "starts_with ''windows-'' (show_floor m) = (\<exists>major year half. m = MinWindows major year half)"
  "starts_with ''glibc-'' (show_floor m) = (\<exists>major minor. m = MinLinuxGlibc major minor)"
  by (cases m; simp add: starts_with_Cons)+

lemma validate_runtime_Inr [result_simps]:
  "(validate_runtime runtime = Inr u) =
     (text_ok MAX_STRING_BYTES (runtime_minimum runtime) \<and>
      ((runtime_libc runtime = Some Glibc \<and> starts_with ''glibc-'' (runtime_minimum runtime)) \<or>
       starts_with ''windows-'' (runtime_minimum runtime)))"
  by (auto simp: validate_runtime_def result_simps)

lemma parse_runtime_minimum_prefix:
  assumes "parse_runtime_minimum asset = Inr m"
  shows "(asset_operating_system asset = TargetLinux \<and> runtime_libc (asset_runtime asset) = Some Glibc \<and>
      starts_with ''glibc-'' (runtime_minimum (asset_runtime asset))) \<or>
    (asset_operating_system asset = TargetWindows \<and> runtime_libc (asset_runtime asset) = None \<and>
      starts_with ''windows-'' (runtime_minimum (asset_runtime asset)))"
  using assms
  by (auto simp: parse_runtime_minimum_def result_simps text_simps
      split: target_operating_system.splits if_splits option.splits list.splits)

lemma asset_shape_iff:
  "asset_shape_ok asset =
     (asset_archive_format asset =
        (case asset_operating_system asset of TargetWindows \<Rightarrow> Zip | TargetLinux \<Rightarrow> TarGz) \<and>
      runtime_libc (asset_runtime asset) =
        (case asset_operating_system asset of TargetWindows \<Rightarrow> None | TargetLinux \<Rightarrow> Some Glibc))"
  by (auto simp: asset_shape_ok_def split: target_operating_system.splits archive_format.splits
      option.splits libc.splits)

lemma validate_asset_Inr [result_simps]: "(validate_asset asset = Inr u) = asset_ok asset"
proof (cases "parse_runtime_minimum asset")
  case (Inl e)
  then show ?thesis by (simp add: validate_asset_def asset_ok_def result_simps)
next
  case (Inr m)
  have "(0 < asset_length asset) = (asset_length asset \<noteq> 0)"
    by (simp add: word_gt_0)
  with parse_runtime_minimum_prefix [OF Inr] Inr show ?thesis
    by (auto simp: validate_asset_def asset_ok_def result_simps asset_shape_iff not_less)
qed

lemma fixed_hook_texts:
  "text_ok MAX_STRING_BYTES ''PermissionRequest''"
  "text_ok MAX_STRING_BYTES ''permission-request-v1''"
  "text_ok MAX_STRING_BYTES ''Bash''"
  "text_ok MAX_STRING_BYTES ''command-string-v1''"
  "text_ok MAX_STRING_BYTES ''one-request-structured-allow''"
  by (simp_all add: text_ok_def MAX_STRING_BYTES_def byte_def)

lemma validate_compatibility_Inr [result_simps]:
  "(validate_compatibility rec = Inr u) = record_ok rec"
  using fixed_hook_texts
  by (auto simp: validate_compatibility_def record_ok_def Let_def result_simps
      split: compatibility_eligibility.splits)

subsection \<open>Identity strings\<close>

lemma manifest_asset_identity_eq:
  assumes "asset_ok a" "asset_ok b"
  shows "(manifest_asset_identity a = manifest_asset_identity b) = (asset_platform a = asset_platform b)"
proof -
  have bar: "CHR ''|'' \<notin> set (runtime_minimum (asset_runtime x))" if "asset_ok x" for x
    using that show_floor_no_bar by (auto simp: asset_ok_def parse_runtime_minimum_text)
  have fmt: "asset_archive_format x =
      (case asset_operating_system x of TargetWindows \<Rightarrow> Zip | TargetLinux \<Rightarrow> TarGz)"
    if "asset_ok x" for x
    using that by (simp add: asset_ok_def)
  show ?thesis
  proof
    assume "manifest_asset_identity a = manifest_asset_identity b"
    then show "asset_platform a = asset_platform b"
      using bar assms unfolding manifest_asset_identity_def asset_platform_def
      by (auto dest!: append_sep_left_inj)
  qed (simp add: manifest_asset_identity_def asset_platform_def fmt assms)
qed

lemma stable_version_display_no_bar: "CHR ''|'' \<notin> set (stable_version_display v)"
proof -
  have "CHR ''|'' \<notin> set (show_nat n)" for n
    by (rule show_nat_no_char) (simp add: byte_def)
  then show ?thesis by (simp add: stable_version_display_def)
qed

lemma compatibility_identity_eq:
  assumes "record_ok r" "record_ok s"
  shows "(compatibility_identity (record_tuple r) = compatibility_identity (record_tuple s)) =
    (tuple_platform (record_tuple r) = tuple_platform (record_tuple s))"
proof
  assume "compatibility_identity (record_tuple r) = compatibility_identity (record_tuple s)"
  then show "tuple_platform (record_tuple r) = tuple_platform (record_tuple s)"
    using version_text.enc_inj
    unfolding compatibility_identity_def tuple_platform_def
    by (auto dest!: append_sep_left_inj simp: stable_version_display_no_bar)
next
  assume "tuple_platform (record_tuple r) = tuple_platform (record_tuple s)"
  then show "compatibility_identity (record_tuple r) = compatibility_identity (record_tuple s)"
    using assms by (simp add: compatibility_identity_def tuple_platform_def record_ok_def)
qed

lemma distinct_map_cong_key:
  assumes "\<And>x y. x \<in> set xs \<Longrightarrow> y \<in> set xs \<Longrightarrow> (f x = f y) = (g x = g y)"
  shows "distinct (map f xs) = distinct (map g xs)"
  using assms by (auto simp: distinct_map inj_on_def)

subsection \<open>The whole manifest\<close>

lemma validate_assets_Inr [result_simps]:
  "(validate_assets names identities assets = Inr u) =
     ((\<forall>a \<in> set assets. asset_ok a) \<and> distinct (map target_name assets) \<and>
      distinct (map manifest_asset_identity assets) \<and> target_name ` set assets \<inter> names = {} \<and>
      manifest_asset_identity ` set assets \<inter> identities = {})"
  by (induction assets arbitrary: names identities) (auto simp: result_simps)

lemma validate_manifest_ok: "(validate_manifest m = Inr ()) = release_ok m"
proof -
  have a: "distinct (map manifest_asset_identity as) = distinct (map asset_platform as)"
    if "\<forall>x \<in> set as. asset_ok x" for as
    using that by (intro distinct_map_cong_key) (simp add: manifest_asset_identity_eq)
  have c: "distinct (map (\<lambda>rec. compatibility_identity (record_tuple rec)) rs) =
      distinct (map (\<lambda>rec. tuple_platform (record_tuple rec)) rs)"
    if "\<forall>x \<in> set rs. record_ok x" for rs
    using that by (intro distinct_map_cong_key) (simp add: compatibility_identity_eq)
  have l: "(xs \<noteq> [] \<and> length xs \<le> n) = (length xs \<in> {1..n})" for xs :: "'x list" and n
    by (cases xs) auto
  show ?thesis
    unfolding validate_manifest_def release_ok_def
    using a [of "manifest_assets m"] c [of "manifest_compatibility m"]
      l [of "manifest_assets m" 16] l [of "manifest_compatibility m" 128]
    by (auto simp: result_simps SUPPORTED_MANIFEST_SCHEMA_VERSION_def MAX_ASSET_COUNT_def
        MAX_COMPATIBILITY_RECORD_COUNT_def not_less)
qed

subsection \<open>Consequences\<close>

lemma reject_duplicate_json_keys_Inr:
  "(reject_duplicate_json_keys tok bytes = Inr u) =
     (\<exists>raw rest. tok bytes = Some (raw, rest) \<and> unique_keys raw \<and> list_all json_blank rest)"
  by (auto simp: reject_duplicate_json_keys_def result_simps dup_unique split: option.splits)

lemma parse_manifest_Inr:
  "(parse_manifest tok decode sha bytes = Inr p) =
     (length bytes \<le> 262144 \<and>
      (\<exists>raw rest. tok bytes = Some (raw, rest) \<and> unique_keys raw \<and> list_all json_blank rest) \<and>
      decode bytes = Some (parsed_release p) \<and> release_ok (parsed_release p) \<and>
      parsed_byte_length p = length bytes \<and> parsed_sha256 p = Sha256Digest (sha bytes))"
  by (cases p) (auto simp: parse_manifest_def result_simps reject_duplicate_json_keys_Inr
      validate_manifest_ok MAX_MANIFEST_BYTES_def sha256_from_bytes_def)

lemma distinct_key_inj_on: "distinct (map f xs) \<Longrightarrow> inj_on f (set xs)"
  by (simp add: distinct_map)

lemma sort_key_mset_eq:
  assumes "mset xs = mset ys" "distinct (map f xs)"
  shows "sort_key f xs = sort_key f ys"
proof (rule sort_key_inj_key_eq)
  show "mset xs = mset (sort_key f ys)" using assms(1) by simp
  show "inj_on f (set xs)" using assms(2) by (rule distinct_key_inj_on)
  show "sorted (map f (sort_key f ys))" by (rule sorted_sort_key)
qed

lemma identity_distinct:
  "release_ok m \<Longrightarrow> distinct (map (\<lambda>rec. compatibility_identity (record_tuple rec))
     (manifest_compatibility m))"
  using distinct_map_cong_key [of "manifest_compatibility m"
      "\<lambda>rec. compatibility_identity (record_tuple rec)" "\<lambda>rec. tuple_platform (record_tuple rec)"]
  by (simp add: release_ok_def compatibility_identity_eq)

text \<open>A manifest with the same assets and records in another order.\<close>

definition reordered :: "release_manifest \<Rightarrow> release_manifest \<Rightarrow> bool" where
  "reordered m m' =
     (mset (manifest_assets m') = mset (manifest_assets m) \<and>
      mset (manifest_compatibility m') = mset (manifest_compatibility m) \<and>
      m' = m\<lparr>manifest_assets := manifest_assets m',
             manifest_compatibility := manifest_compatibility m'\<rparr>)"

lemma normalize_reordered:
  assumes "release_ok m" "reordered m m'"
  shows "normalize_manifest m' = normalize_manifest m"
proof -
  have "sort_key target_name (manifest_assets m') = sort_key target_name (manifest_assets m)"
    using assms by (intro sort_key_mset_eq [symmetric]) (auto simp: reordered_def release_ok_def)
  moreover have "sort_key (\<lambda>rec. compatibility_identity (record_tuple rec)) (manifest_compatibility m') =
      sort_key (\<lambda>rec. compatibility_identity (record_tuple rec)) (manifest_compatibility m)"
    using assms by (intro sort_key_mset_eq [symmetric]) (auto simp: reordered_def identity_distinct)
  moreover have m': "m' = m\<lparr>manifest_assets := manifest_assets m',
      manifest_compatibility := manifest_compatibility m'\<rparr>"
    using assms(2) by (simp add: reordered_def)
  ultimately show ?thesis
    by (cases m; cases m') (simp add: normalize_manifest_def)
qed

text \<open>
  A relative path as the parts a file system walks from a directory: a part that is empty or a
  dot stays, two dots go up, anything else goes down.  \<^const>\<open>None\<close> is a walk out of the
  directory it began in.
\<close>

fun walk :: "string list \<Rightarrow> string list \<Rightarrow> string list option" where
  "walk below [] = Some below"
| "walk below (part # parts) =
     (if part = [] \<or> part = ''.'' then walk below parts
      else if part = ''..'' then (if below = [] then None else walk (butlast below) parts)
      else walk (below @ [part]) parts)"

lemma walk_plain:
  "\<forall>part \<in> set parts. part \<notin> {[], ''.'', ''..''} \<Longrightarrow> walk below parts = Some (below @ parts)"
  by (induction parts arbitrary: below) auto

lemma target_name_walk:
  assumes "validate_target_name s = Inr ()"
  shows "walk [] (split_on (CHR ''/'') s) = Some (split_on (CHR ''/'') s) \<and>
    \<not> starts_with ''/'' s \<and> CHR 0x5C \<notin> set s"
proof -
  have p: "CHR 0x5C \<notin> set s" "\<forall>part \<in> set (split_on (CHR ''/'') s). part \<notin> {[], ''.'', ''..''}"
    using assms unfolding validate_target_name_Inr relative_path_split by blast+
  moreover have "\<not> starts_with ''/'' s"
    using starts_with_slash_split [of s] p(2) by blast
  ultimately show ?thesis using walk_plain [OF p(2), of "[]"] by simp
qed

section \<open>A concrete release\<close>

definition example_asset :: release_asset where
  "example_asset =
     \<lparr>target_name = ''linux/app.tar.gz'', asset_operating_system = TargetLinux,
      asset_architecture = TargetX86_64,
      asset_runtime = \<lparr>runtime_minimum = ''glibc-2.31'', runtime_libc = Some Glibc\<rparr>,
      asset_archive_format = TarGz, asset_length = 1024, asset_sha256 = Sha256Digest (replicate 32 0),
      download_origin = ''https://host/a'',
      provenance = \<lparr>source_repository = RELEASE_REPOSITORY, source_revision = replicate 40 (CHR ''0''),
        build_workflow = ''release'', build_id = ''7''\<rparr>\<rparr>"

definition example_record :: compatibility_record where
  "example_record =
     \<lparr>record_tuple = \<lparr>tuple_codex_version = StableVersion 0 9 1, tuple_operating_system = CompatLinux,
        tuple_architecture = CompatX86_64, tuple_surface = LocalCliLauncher,
        hook_event = ''PermissionRequest'', hook_protocol = ''permission-request-v1'',
        required_tool = ''Bash'', tool_input_schema = ''command-string-v1'',
        response_behavior = ''one-request-structured-allow''\<rparr>,
      record_eligibility = Reviewed ''run-12''\<rparr>"

definition example_experimental :: compatibility_record where
  "example_experimental =
     \<lparr>record_tuple = (record_tuple example_record)\<lparr>tuple_codex_version := StableVersion 0 9 2\<rparr>,
      record_eligibility = Experimental CapabilityProbeOnly\<rparr>"

definition example_release :: "stable_version \<Rightarrow> release_manifest" where
  "example_release v =
     \<lparr>manifest_schema_version = 1, manifest_target = ''releases/m.json'', release_version = v,
      manifest_notes = \<lparr>notes_title = ''Notes'', notes_url = ''https://host/n''\<rparr>,
      manifest_assets = [example_asset], manifest_compatibility = [example_record, example_experimental]\<rparr>"

lemma example_floor: "parse_runtime_minimum example_asset = Inr (MinLinuxGlibc 2 31)"
  by (simp add: runtime_eval example_asset_def text_eval)

lemma example_provenance_ok: "provenance_ok (provenance example_asset)"
  by (simp add: provenance_ok_def example_asset_def text_ok_def text_eval MAX_STRING_BYTES_def
      list_all_iff)

lemma example_path_ok: "relative_path_ok (target_name example_asset)"
  by (simp add: relative_path_split example_asset_def)

lemma example_url_ok: "url_ok (download_origin example_asset)"
  by (simp add: url_ok_def text_ok_def example_asset_def text_eval HTTPS_PREFIX_def MAX_STRING_BYTES_def)

lemma example_asset_ok: "asset_ok example_asset"
  using example_floor example_provenance_ok example_path_ok example_url_ok
  unfolding asset_ok_def
  by (simp add: example_asset_def text_ok_def text_eval MAX_STRING_BYTES_def MAX_TARGET_NAME_BYTES_def
      MAX_ASSET_BYTES_def)

lemma example_record_ok: "record_ok example_record"
  by (simp add: record_ok_def example_record_def text_ok_def text_eval MAX_EVIDENCE_REF_BYTES_def)

lemma example_experimental_ok: "record_ok example_experimental"
  using example_record_ok by (simp add: record_ok_def example_experimental_def)

lemma example_platforms: "tuple_platform (record_tuple example_record) \<noteq>
    tuple_platform (record_tuple example_experimental)"
  by (simp add: tuple_platform_def example_experimental_def example_record_def)

lemma example_release_ok: "release_ok (example_release v)"
  using example_asset_ok example_record_ok example_experimental_ok example_platforms
  by (simp add: release_ok_def example_release_def text_ok_def url_ok_def 
    relative_path_split text_eval HTTPS_PREFIX_def MAX_STRING_BYTES_def MAX_TARGET_NAME_BYTES_def)

section \<open>Properties\<close>

text \<open>Parsing accepts a manifest exactly when it is at most 256 KiB, no object of its JSON
  text at any depth repeats a key and only white space follows the value, the decoder yields a
  release and that release satisfies every rule of the specification; the result records the
  length and the digest of exactly these bytes.\<close>

theorem parse_manifest_accepts:
  "(parse_manifest tok decode sha bytes = Inr p) =
     (length bytes \<le> 262144 \<and>
      (\<exists>raw rest. tok bytes = Some (raw, rest) \<and> unique_keys raw \<and> list_all json_blank rest) \<and>
      decode bytes = Some (parsed_release p) \<and> release_ok (parsed_release p) \<and>
      parsed_byte_length p = length bytes \<and> parsed_sha256 p = Sha256Digest (sha bytes))"
  by (rule parse_manifest_Inr)

text \<open>C39: the validation, which walks the manifest once and compares assets and records by the
  identity strings it builds, accepts exactly the manifests of the structured specification: no
  two assets with one platform and floor, no two records with one version, platform and surface.\<close>

theorem validate_manifest_spec: "(validate_manifest m = Inr ()) = release_ok m"
  by (rule validate_manifest_ok)

text \<open>A validated target name is a path that walks down from the directory it is resolved
  in through exactly its own parts, never up, never from the root, and holds no backslash.\<close>

theorem target_name_stays_below:
  assumes "validate_target_name s = Inr ()"
  shows "walk [] (split_on (CHR ''/'') s) = Some (split_on (CHR ''/'') s) \<and>
    \<not> starts_with ''/'' s \<and> CHR 0x5C \<notin> set s"
  using assms by (rule target_name_walk)

theorem target_name_stays_below_witness:
  "walk [] [''linux'', ''app.tar.gz''] = Some [''linux'', ''app.tar.gz'']"
proof -
  have "validate_target_name ''linux/app.tar.gz'' = Inr ()"
    by (simp add: validate_target_name_def validate_string_def ensure_def text_eval
        MAX_TARGET_NAME_BYTES_def)
  from target_name_stays_below [OF this] show ?thesis by simp
qed

text \<open>The canonical text of a valid release does not depend on the order in which its assets
  and its compatibility records are listed.\<close>

theorem canonical_json_order:
  assumes "release_ok m" "reordered m m'"
  shows "canonical_json to_vec m' = canonical_json to_vec m"
  using normalize_reordered [OF assms] by (simp add: canonical_json_def)

theorem canonical_json_order_witness:
  "canonical_json manifest_target ((example_release (StableVersion 0 2 0))
      \<lparr>manifest_compatibility := [example_experimental, example_record]\<rparr>) =
   canonical_json manifest_target (example_release (StableVersion 0 2 0))"
  by (rule canonical_json_order [OF example_release_ok])
    (simp add: reordered_def example_release_def add_mset_commute)

end
