(* ===== verification/Verify.thy ===== *)
theory Verify
  imports Manifest
begin

text \<open>
  The boundary between parsed and publisher-authenticated metadata, \<^verbatim>\<open>src/update/verify.rs\<close>.
  The production type has no constructor; the one that is compiled, for tests, binds a parsed
  manifest to a target name, a length and a digest.
\<close>

record verified_target =
  verified_target_name :: string
  verified_length :: u64
  verified_sha256 :: sha256_digest

record authenticated_manifest =
  auth_manifest :: release_manifest
  auth_target :: verified_target

record synthetic_target =
  synthetic_target_name :: string
  synthetic_length :: u64
  synthetic_sha256 :: sha256_digest

datatype verification_error = VerifyName | VerifyLength | VerifyHash

definition synthetic_from_untrusted_metadata ::
    "string \<Rightarrow> u64 \<Rightarrow> sha256_digest \<Rightarrow> synthetic_target" where
  "synthetic_from_untrusted_metadata name len digest =
     \<lparr>synthetic_target_name = name, synthetic_length = len, synthetic_sha256 = digest\<rparr>"

definition synthetic_for_tests ::
    "parsed_manifest \<Rightarrow> synthetic_target \<Rightarrow> (verification_error, authenticated_manifest) result" where
  "synthetic_for_tests parsed target =
     (let expected_name = manifest_target (parsed_release parsed) in
      if synthetic_target_name target \<noteq> expected_name then Inl VerifyName
      else if synthetic_length target \<noteq> word_of_nat (parsed_byte_length parsed) then Inl VerifyLength
      else if synthetic_sha256 target \<noteq> parsed_sha256 parsed then Inl VerifyHash
      else Inr \<lparr>auth_manifest = parsed_release parsed,
                auth_target = \<lparr>verified_target_name = synthetic_target_name target,
                               verified_length = synthetic_length target,
                               verified_sha256 = synthetic_sha256 target\<rparr>\<rparr>)"

lemma synthetic_for_tests_Inr:
  "(synthetic_for_tests parsed target = Inr auth) =
     (auth_manifest auth = parsed_release parsed \<and>
      synthetic_target_name target = manifest_target (parsed_release parsed) \<and>
      synthetic_length target = word_of_nat (parsed_byte_length parsed) \<and>
      synthetic_sha256 target = parsed_sha256 parsed \<and>
      auth_target auth = \<lparr>verified_target_name = synthetic_target_name target,
        verified_length = synthetic_length target, verified_sha256 = synthetic_sha256 target\<rparr>)"
  by (cases auth) (auto simp: synthetic_for_tests_def Let_def)

text \<open>
  From bytes to an authenticated manifest: what is authenticated is a valid manifest whose
  recorded length and digest are those of exactly the bytes that were parsed.
\<close>

lemma authenticated_binding:
  assumes "parse_manifest tok decode sha bytes = Inr parsed"
    and "synthetic_for_tests parsed target = Inr auth"
  shows "release_ok (auth_manifest auth) \<and> decode bytes = Some (auth_manifest auth) \<and>
    unat (verified_length (auth_target auth)) = length bytes \<and>
    verified_sha256 (auth_target auth) = Sha256Digest (sha bytes) \<and>
    verified_target_name (auth_target auth) = manifest_target (auth_manifest auth)"
proof -
  have "length bytes < 2 ^ LENGTH(64)"
    using assms(1) by (auto simp: parse_manifest_Inr)
  then have "unat (word_of_nat (length bytes) :: u64) = length bytes"
    by (rule unat_word_of_nat)
  with assms show ?thesis
    by (auto simp: parse_manifest_Inr synthetic_for_tests_Inr)
qed

end
