(* ===== verification/Cli.thy ===== *)
theory Cli
  imports Prelude
begin

text \<open>
  The launcher's arguments as the command line parser hands them on, \<^verbatim>\<open>src/cli.rs\<close>.
  Parsing the command line is the \<^verbatim>\<open>clap\<close> package.
\<close>

datatype compatibility_mode = Automatic | Strict

fun compatibility_mode_as_str :: "compatibility_mode \<Rightarrow> string" where
  "compatibility_mode_as_str Automatic = ''automatic''"
| "compatibility_mode_as_str Strict = ''strict''"

record run_args =
  arg_sandbox_implementation :: "string option"
  arg_sandbox_mode :: "string option"
  arg_compatibility :: "compatibility_mode option"
  arg_codex_args :: "string list"

definition COMPATIBILITY_ENV :: string where
  "COMPATIBILITY_ENV = ''CODEX_AUTOAPPROVER_COMPATIBILITY''"

end
