(* ===== verification/Selection.thy ===== *)
theory Selection
  imports Verify Cli
begin

text \<open>
  Selection of an applicable release, \<^verbatim>\<open>src/update/selection.rs\<close>: the ambiguity checks over
  the catalog, the choice of an asset and of a compatibility record, and the choice among the
  releases.  Floors and their parser are in theory \<^verbatim>\<open>Runtime\<close>.
\<close>

section \<open>Types\<close>

record selection_input =
  installed_autoapprover_version :: stable_version
  input_codex_version :: stable_version
  input_operating_system :: target_operating_system
  input_architecture :: target_architecture
  input_runtime :: runtime_environment
  input_surface :: compatibility_surface
  input_compatibility_mode :: compatibility_mode

datatype selection_input_error =
    MalformedInstalledAutoapproverVersion
  | MalformedCodexVersion

definition selection_input_from_versions ::
    "string \<Rightarrow> string \<Rightarrow> target_operating_system \<Rightarrow> target_architecture \<Rightarrow> runtime_environment
      \<Rightarrow> compatibility_surface \<Rightarrow> compatibility_mode
      \<Rightarrow> (selection_input_error, selection_input) result" where
  "selection_input_from_versions installed codex os arch runtime surface mode =
     and_then (map_err (\<lambda>_. MalformedInstalledAutoapproverVersion) (stable_version_parse installed))
       (\<lambda>installed_version.
     and_then (map_err (\<lambda>_. MalformedCodexVersion) (stable_version_parse codex))
       (\<lambda>codex_version.
     Inr \<lparr>installed_autoapprover_version = installed_version,
          input_codex_version = codex_version, input_operating_system = os,
          input_architecture = arch, input_runtime = runtime, input_surface = surface,
          input_compatibility_mode = mode\<rparr>))"

record candidate_rejection =
  rejected_version :: stable_version
  rejected_reason :: selection_rejection_reason

datatype selected_compatibility =
    SelectedReviewed string
  | SelectedExperimental experimental_basis

fun selected_status :: "selected_compatibility \<Rightarrow> string" where
  "selected_status (SelectedReviewed evidence_ref) = ''reviewed''"
| "selected_status (SelectedExperimental basis) = ''experimental''"

record applicability_explanation =
  current_autoapprover_version :: stable_version
  new_autoapprover_version :: stable_version
  explained_compatibility :: selected_compatibility
  explained_notes :: release_notes

record selected_release =
  selected_manifest :: authenticated_manifest
  selected_asset :: release_asset
  selected_compat :: selected_compatibility
  selected_explanation :: applicability_explanation

datatype selection_outcome =
    Selected selected_release
  | NoApplicable "candidate_rejection list"
  | Rejected selection_rejection_reason

text \<open>The derived order of rejections: the version, then the reason in declaration order.\<close>

fun reason_index :: "selection_rejection_reason \<Rightarrow> nat" where
  "reason_index EmptyCatalog = 0"
| "reason_index DuplicateReleaseVersion = 1"
| "reason_index ConflictingAssetIdentity = 2"
| "reason_index AmbiguousAsset = 3"
| "reason_index AmbiguousCompatibility = 4"
| "reason_index NotNewerThanInstalled = 5"
| "reason_index UnsupportedPlatform = 6"
| "reason_index UnsupportedArchitecture = 7"
| "reason_index UnknownRuntime = 8"
| "reason_index UnsupportedRuntime = 9"
| "reason_index MalformedRuntimeRequirement = 10"
| "reason_index RuntimeBelowMinimum = 11"
| "reason_index CompatibilityExcluded = 12"
| "reason_index CompatibilityUnavailable = 13"
| "reason_index StrictRequiresReviewed = 14"

lemma reason_index_inj: "reason_index a = reason_index b \<Longrightarrow> a = b"
  by (cases a; cases b) simp_all

definition rejection_key :: "candidate_rejection \<Rightarrow> stable_version \<times> nat" where
  "rejection_key r = (rejected_version r, reason_index (rejected_reason r))"

lemma rejection_key_inj: "rejection_key a = rejection_key b \<Longrightarrow> a = b"
  by (cases a; cases b) (auto simp: rejection_key_def dest: reason_index_inj)

section \<open>Ambiguity\<close>

definition selection_asset_identity :: "release_asset \<Rightarrow> string" where
  "selection_asset_identity asset =
     debug_target_os (asset_operating_system asset) @ ''|'' @
     debug_target_arch (asset_architecture asset) @ ''|'' @
     runtime_minimum (asset_runtime asset) @ ''|'' @
     debug_libc (runtime_libc (asset_runtime asset)) @ ''|'' @
     debug_archive_format (asset_archive_format asset)"

definition selection_compatibility_identity :: "compatibility_tuple \<Rightarrow> string" where
  "selection_compatibility_identity tuple =
     stable_version_display (tuple_codex_version tuple) @ ''|'' @
     debug_compat_os (tuple_operating_system tuple) @ ''|'' @
     debug_compat_arch (tuple_architecture tuple) @ ''|'' @
     debug_surface (tuple_surface tuple) @ ''|'' @
     hook_event tuple @ ''|'' @ hook_protocol tuple @ ''|'' @ required_tool tuple @ ''|'' @
     tool_input_schema tuple @ ''|'' @ response_behavior tuple"

fun check_assets :: "string set \<Rightarrow> string set \<Rightarrow> release_asset list
    \<Rightarrow> (selection_rejection_reason, unit) result" where
  "check_assets names identities [] = Inr ()"
| "check_assets names identities (asset # assets) =
     (if target_name asset \<in> names then Inl ConflictingAssetIdentity
      else if selection_asset_identity asset \<in> identities then Inl ConflictingAssetIdentity
      else check_assets (insert (target_name asset) names)
             (insert (selection_asset_identity asset) identities) assets)"

definition validate_manifest_ambiguity ::
    "release_manifest \<Rightarrow> (selection_rejection_reason, unit) result" where
  "validate_manifest_ambiguity manifest =
     and_then (check_assets {} {} (manifest_assets manifest)) (\<lambda>_.
       distinct_each (\<lambda>_. Inr ()) (\<lambda>rec. selection_compatibility_identity (record_tuple rec))
         AmbiguousCompatibility {} (manifest_compatibility manifest))"

fun validate_catalog_ambiguity :: "stable_version set \<Rightarrow> authenticated_manifest list
    \<Rightarrow> (selection_rejection_reason, unit) result" where
  "validate_catalog_ambiguity versions [] = Inr ()"
| "validate_catalog_ambiguity versions (candidate # candidates) =
     (if release_version (auth_manifest candidate) \<in> versions then Inl DuplicateReleaseVersion
      else and_then (validate_manifest_ambiguity (auth_manifest candidate)) (\<lambda>_.
        validate_catalog_ambiguity (insert (release_version (auth_manifest candidate)) versions)
          candidates))"

section \<open>Assets\<close>

fun collect_applicable :: "selection_input \<Rightarrow> bool \<Rightarrow> (release_asset \<times> runtime_minimum_floor) list
    \<Rightarrow> release_asset list
    \<Rightarrow> (selection_rejection_reason, bool \<times> (release_asset \<times> runtime_minimum_floor) list) result"
where
  "collect_applicable input malformed applicable [] = Inr (malformed, applicable)"
| "collect_applicable input malformed applicable (asset # assets) =
     (case parse_runtime_minimum asset of
        Inl e \<Rightarrow> collect_applicable input True applicable assets
      | Inr minimum \<Rightarrow>
          and_then (runtime_meets (input_runtime input) (input_operating_system input) minimum)
            (\<lambda>meets. collect_applicable input malformed
               (if meets then applicable @ [(asset, minimum)] else applicable) assets))"

text \<open>A stable sort by the reverse of a key.\<close>

definition sort_by_key_reverse :: "('a \<Rightarrow> 'k::linorder) \<Rightarrow> 'a list \<Rightarrow> 'a list" where
  "sort_by_key_reverse f xs = rev (sort_key f (rev xs))"

definition select_asset ::
    "release_asset list \<Rightarrow> selection_input \<Rightarrow> (selection_rejection_reason, release_asset) result" where
  "select_asset assets input =
     (let platform_assets =
        filter (\<lambda>a. asset_operating_system a = input_operating_system input) assets in
      if platform_assets = [] then Inl UnsupportedPlatform
      else let architecture_assets =
        filter (\<lambda>a. asset_architecture a = input_architecture input) platform_assets in
      if architecture_assets = [] then Inl UnsupportedArchitecture
      else and_then (collect_applicable input False [] architecture_assets)
        (\<lambda>(malformed, applicable).
          case sort_by_key_reverse snd applicable of
            [] \<Rightarrow> Inl (if malformed then MalformedRuntimeRequirement else RuntimeBelowMinimum)
          | [(asset, minimum)] \<Rightarrow> Inr asset
          | (asset, minimum) # (_, second) # _ \<Rightarrow>
              (if minimum = second then Inl AmbiguousAsset else Inr asset)))"

section \<open>Compatibility\<close>

fun compatibility_os :: "target_operating_system \<Rightarrow> compatibility_operating_system" where
  "compatibility_os TargetLinux = CompatLinux"
| "compatibility_os TargetWindows = CompatWindows"

definition tuple_matches :: "compatibility_tuple \<Rightarrow> selection_input \<Rightarrow> bool" where
  "tuple_matches tuple input =
     (tuple_codex_version tuple = input_codex_version input \<and>
      tuple_operating_system tuple = compatibility_os (input_operating_system input) \<and>
      tuple_architecture tuple = CompatX86_64 \<and>
      input_architecture input = TargetX86_64 \<and>
      tuple_surface tuple = input_surface input)"

fun is_excluded :: "compatibility_eligibility \<Rightarrow> bool" where
  "is_excluded (Excluded reason) = True"
| "is_excluded _ = False"

definition select_compatibility ::
    "compatibility_record list \<Rightarrow> selection_input
      \<Rightarrow> (selection_rejection_reason, selected_compatibility) result" where
  "select_compatibility records input =
     (let matching = filter (\<lambda>rec. tuple_matches (record_tuple rec) input) records in
      if list_ex (\<lambda>rec. is_excluded (record_eligibility rec)) matching
      then Inl CompatibilityExcluded
      else case matching of
        [rec] \<Rightarrow>
          (case record_eligibility rec of
             Reviewed evidence_ref \<Rightarrow> Inr (SelectedReviewed evidence_ref)
           | Experimental basis \<Rightarrow>
               (if input_compatibility_mode input = Automatic
                then Inr (SelectedExperimental basis) else Inl StrictRequiresReviewed)
           | Excluded reason \<Rightarrow> Inl CompatibilityExcluded)
      | [] \<Rightarrow> Inl CompatibilityUnavailable
      | _ \<Rightarrow> Inl AmbiguousCompatibility)"

section \<open>Releases\<close>

text \<open>The body of the loop over the candidates: a rejection or a selectable release.\<close>

definition consider_candidate :: "selection_input \<Rightarrow> authenticated_manifest
    \<Rightarrow> (selection_rejection_reason, selected_release) result" where
  "consider_candidate input candidate =
     (let manifest = auth_manifest candidate in
      if release_version manifest \<le> installed_autoapprover_version input
      then Inl NotNewerThanInstalled
      else
        and_then (select_asset (manifest_assets manifest) input) (\<lambda>asset.
        and_then (select_compatibility (manifest_compatibility manifest) input) (\<lambda>compatibility.
        Inr \<lparr>selected_manifest = candidate, selected_asset = asset,
             selected_compat = compatibility,
             selected_explanation =
               \<lparr>current_autoapprover_version = installed_autoapprover_version input,
                new_autoapprover_version = release_version manifest,
                explained_compatibility = compatibility,
                explained_notes = manifest_notes manifest\<rparr>\<rparr>)))"

fun select_loop :: "selection_input \<Rightarrow> selected_release list \<Rightarrow> candidate_rejection list
    \<Rightarrow> authenticated_manifest list \<Rightarrow> selected_release list \<times> candidate_rejection list" where
  "select_loop input selected rejections [] = (selected, rejections)"
| "select_loop input selected rejections (candidate # candidates) =
     (case consider_candidate input candidate of
        Inl reason \<Rightarrow>
          select_loop input selected
            (rejections @ [\<lparr>rejected_version = release_version (auth_manifest candidate),
                            rejected_reason = reason\<rparr>]) candidates
      | Inr release \<Rightarrow> select_loop input (selected @ [release]) rejections candidates)"

definition selected_version :: "selected_release \<Rightarrow> stable_version" where
  "selected_version s = release_version (auth_manifest (selected_manifest s))"

definition select_applicable ::
    "authenticated_manifest list \<Rightarrow> selection_input \<Rightarrow> selection_outcome" where
  "select_applicable candidates input =
     (if candidates = [] then Rejected EmptyCatalog
      else case validate_catalog_ambiguity {} candidates of
        Inl reason \<Rightarrow> Rejected reason
      | Inr _ \<Rightarrow>
          (let (selected, rejections) = select_loop input [] [] candidates in
           if selected = [] then NoApplicable (sort_key rejection_key rejections)
           else Selected (last (sort_key selected_version selected))))"

section \<open>Ambiguity checks\<close>

lemma check_assets_Inr [result_simps]:
  "(check_assets names identities assets = Inr u) =
     (distinct (map target_name assets) \<and> distinct (map selection_asset_identity assets) \<and>
      target_name ` set assets \<inter> names = {} \<and>
      selection_asset_identity ` set assets \<inter> identities = {})"
  by (induction assets arbitrary: names identities) auto

lemma validate_manifest_ambiguity_Inr [result_simps]:
  "(validate_manifest_ambiguity m = Inr u) =
     (distinct (map target_name (manifest_assets m)) \<and>
      distinct (map selection_asset_identity (manifest_assets m)) \<and>
      distinct (map (\<lambda>rec. selection_compatibility_identity (record_tuple rec))
        (manifest_compatibility m)))"
  by (simp add: validate_manifest_ambiguity_def result_simps)

abbreviation candidate_version :: "authenticated_manifest \<Rightarrow> stable_version" where
  "candidate_version c \<equiv> release_version (auth_manifest c)"

lemma validate_catalog_ambiguity_Inr [result_simps]:
  "(validate_catalog_ambiguity versions cs = Inr u) =
     (distinct (map candidate_version cs) \<and> candidate_version ` set cs \<inter> versions = {} \<and>
      (\<forall>c \<in> set cs. validate_manifest_ambiguity (auth_manifest c) = Inr ()))"
  by (induction cs arbitrary: versions) (auto simp: and_then_Inr)

text \<open>A manifest that passed the parser's validation is not ambiguous.\<close>

lemma selection_identity_distinct:
  assumes "release_ok m"
  shows "validate_manifest_ambiguity m = Inr ()"
proof -
  have min_bar: "CHR ''|'' \<notin> set (runtime_minimum (asset_runtime x))" if "asset_ok x" for x
    using that show_floor_no_bar by (auto simp: asset_ok_def parse_runtime_minimum_text)
  have platform: "asset_platform a = asset_platform b"
    if ok: "asset_ok a" "asset_ok b" and eq: "selection_asset_identity a = selection_asset_identity b"
    for a b
  proof -
    note eq' = eq [unfolded selection_asset_identity_def, simplified]
    note os = append_sep_left_inj [OF eq' debug_no_bar(1) debug_no_bar(1)]
    note arch = append_sep_left_inj [OF conjunct2 [OF os] debug_no_bar(2) debug_no_bar(2)]
    note minimum = append_sep_left_inj [OF conjunct2 [OF arch] min_bar [OF ok(1)] min_bar [OF ok(2)]]
    show ?thesis
      unfolding asset_platform_def
      using conjunct1 [OF os] conjunct1 [OF arch] conjunct1 [OF minimum] by simp
  qed
  have ids: "distinct (map selection_asset_identity (manifest_assets m))"
    unfolding distinct_map
  proof
    have ok: "\<forall>a \<in> set (manifest_assets m). asset_ok a" "distinct (map asset_platform (manifest_assets m))"
      using assms by (simp_all add: release_ok_def)
    then show "distinct (manifest_assets m)" by (simp add: distinct_map)
    show "inj_on selection_asset_identity (set (manifest_assets m))"
      by (rule inj_onI) (metis ok platform distinct_map_filter_inj)
  qed
  have same: "selection_compatibility_identity t = compatibility_identity t" for t
    by (simp add: selection_compatibility_identity_def compatibility_identity_def)
  show ?thesis
    using assms ids identity_distinct [OF assms]
    by (simp add: validate_manifest_ambiguity_Inr same release_ok_def)
qed

section \<open>The choice of an asset\<close>

definition on_platform :: "selection_input \<Rightarrow> release_asset \<Rightarrow> bool" where
  "on_platform input a =
     (asset_operating_system a = input_operating_system input \<and>
      asset_architecture a = input_architecture input)"

text \<open>The floor of an asset, if its text parses and the runtime meets it.\<close>

definition meeting_floor :: "selection_input \<Rightarrow> release_asset \<Rightarrow> runtime_minimum_floor option" where
  "meeting_floor input a =
     (case parse_runtime_minimum a of
        Inl e \<Rightarrow> None
      | Inr m \<Rightarrow>
          if runtime_meets (input_runtime input) (input_operating_system input) m = Inr True
          then Some m else None)"

definition floors :: "selection_input \<Rightarrow> release_asset list
    \<Rightarrow> (release_asset \<times> runtime_minimum_floor) set" where
  "floors input as = {(a, m). a \<in> set as \<and> meeting_floor input a = Some m}"

lemma floors_Nil [simp]: "floors input [] = {}"
  by (simp add: floors_def)

lemma floors_Cons:
  "floors input (a # as) =
     (case meeting_floor input a of None \<Rightarrow> {} | Some m \<Rightarrow> {(a, m)}) \<union> floors input as"
  by (auto simp: floors_def split: option.splits)

lemma collect_applicable_Inr:
  "collect_applicable input mal app as = Inr (mal', app') \<Longrightarrow>
     set app' = set app \<union> floors input as \<and>
     (mal' = (mal \<or> (\<exists>a \<in> set as. \<not> is_ok (parse_runtime_minimum a))))"
proof (induction as arbitrary: mal app)
  case (Cons a as)
  show ?case
  proof (cases "parse_runtime_minimum a")
    case (Inl e)
    then have "meeting_floor input a = None" by (simp add: meeting_floor_def)
    then show ?thesis using Cons.IH [of True app] Cons.prems Inl
      by (simp add: floors_Cons)
  next
    case (Inr m)
    then obtain b where b: "runtime_meets (input_runtime input) (input_operating_system input) m = Inr b"
      and rest: "collect_applicable input mal (if b then app @ [(a, m)] else app) as = Inr (mal', app')"
      using Cons.prems by (auto simp: and_then_Inr)
    have mf: "meeting_floor input a = (if b then Some m else None)"
      using Inr b by (simp add: meeting_floor_def)
    show ?thesis using Cons.IH [OF rest] mf Inr by (cases b) (simp_all add: floors_Cons)
  qed
qed simp

lemma sort_by_key_reverse_mset [simp]: "mset (sort_by_key_reverse f xs) = mset xs"
  by (simp add: sort_by_key_reverse_def)

lemma sort_by_key_reverse_set [simp]: "set (sort_by_key_reverse f xs) = set xs"
  by (simp add: sort_by_key_reverse_def)

lemma sort_by_key_reverse_Nil [simp]: "(sort_by_key_reverse f xs = []) = (xs = [])"
  by (metis set_empty2 sort_by_key_reverse_set)

lemma sort_by_key_reverse_Cons:
  assumes "sort_by_key_reverse f xs = y # ys" "z \<in> set ys"
  shows "f z \<le> f y"
proof -
  have "sort_key f (rev xs) = rev ys @ [y]"
    using assms(1) unfolding sort_by_key_reverse_def by (metis rev.simps(2) rev_rev_ident)
  then have "sorted (map f (rev ys @ [y]))"
    by (metis sorted_sort_key)
  then show ?thesis
    using assms(2) by (auto simp: sorted_append)
qed

lemma sort_by_key_reverse_second:
  assumes "sort_by_key_reverse f xs = y # y' # ys" "z \<in> set (y' # ys)"
  shows "f z \<le> f y'"
proof -
  have "sort_key f (rev xs) = rev ys @ [y', y]"
    using assms(1) unfolding sort_by_key_reverse_def
    by (metis append_Cons append_Nil append_assoc rev.simps(2) rev_rev_ident)
  then have "sorted (map f (rev ys @ [y', y]))"
    by (metis sorted_sort_key)
  then show ?thesis
    using assms(2) by (auto simp: sorted_append)
qed

lemma select_asset_Inr:
  assumes "select_asset assets input = Inr a"
  shows "a \<in> set assets \<and> on_platform input a \<and>
    (\<exists>m. meeting_floor input a = Some m \<and>
      (\<forall>b \<in> set assets. on_platform input b \<and> b \<noteq> a \<longrightarrow>
        (\<forall>n. meeting_floor input b = Some n \<longrightarrow> n < m)))"
proof -
  define plat where "plat = filter (\<lambda>a. asset_architecture a = input_architecture input)
    (filter (\<lambda>a. asset_operating_system a = input_operating_system input) assets)"
  have plat_set: "set plat = {x \<in> set assets. on_platform input x}"
    by (auto simp: plat_def on_platform_def)
  obtain mal app where app: "collect_applicable input False [] plat = Inr (mal, app)"
    and res: "(case sort_by_key_reverse snd app of
        [] \<Rightarrow> Inl (if mal then MalformedRuntimeRequirement else RuntimeBelowMinimum)
      | [(asset, minimum)] \<Rightarrow> Inr asset
      | (asset, minimum) # (_, second) # _ \<Rightarrow>
          (if minimum = second then Inl AmbiguousAsset else Inr asset)) = Inr a"
    using assms unfolding select_asset_def Let_def plat_def
    by (auto simp: and_then_Inr split: if_splits)
  have mem: "(x, m) \<in> set app \<longleftrightarrow> x \<in> set plat \<and> meeting_floor input x = Some m" for x m
    using collect_applicable_Inr [OF app] by (simp add: floors_def)
  obtain m tl where l: "sort_by_key_reverse snd app = (a, m) # tl"
    and tl: "tl = [] \<or> (\<exists>b n tl'. tl = (b, n) # tl' \<and> n \<noteq> m)"
    using res by (auto split: list.splits prod.splits if_splits)
  have set_app: "set app = insert (a, m) (set tl)"
    using arg_cong [OF l, of set] by simp
  have less: "snd z < m" if "z \<in> set tl" for z
  proof -
    from tl that obtain b n tl' where t: "tl = (b, n) # tl'" "n \<noteq> m" by fastforce
    have "snd z \<le> n" using sort_by_key_reverse_second [of snd app "(a, m)" "(b, n)" tl' z] l t that
      by simp
    moreover have "n \<le> m" using sort_by_key_reverse_Cons [OF l, of "(b, n)"] t by simp
    ultimately show ?thesis using t(2) by (metis order.not_eq_order_implies_strict order.strict_trans1)
  qed
  have "(a, m) \<in> set app" using set_app by simp
  then have a: "a \<in> set plat" "meeting_floor input a = Some m" using mem by blast+
  moreover have "n < m" if "b \<in> set plat" "b \<noteq> a" "meeting_floor input b = Some n" for b n
  proof -
    have "(b, n) \<in> set tl" using mem [of b n] that set_app by auto
    then show ?thesis using less [of "(b, n)"] by simp
  qed
  ultimately show ?thesis unfolding plat_set by blast
qed

text \<open>
  For a validated manifest the choice succeeds exactly when some asset of the platform has a
  floor the runtime meets: two assets of one platform never share a floor.
\<close>

lemma runtime_meets_shape:
  assumes "parse_runtime_minimum a = Inr m" "parse_runtime_minimum b = Inr n"
    "asset_operating_system a = os" "asset_operating_system b = os"
    "runtime_meets runtime os m = Inr r"
  shows "\<exists>r'. runtime_meets runtime os n = Inr r'"
  using assms
  by (cases runtime; cases os; cases m; cases n)
    (auto simp: parse_runtime_minimum_def result_simps parse_windows_release_def
      split: if_splits option.splits list.splits)

lemma floor_determines_asset:
  assumes "release_ok man" "a \<in> set (manifest_assets man)" "b \<in> set (manifest_assets man)"
    "on_platform input a" "on_platform input b"
    "meeting_floor input a = Some m" "meeting_floor input b = Some m"
  shows "a = b"
proof -
  have "parse_runtime_minimum a = Inr m" "parse_runtime_minimum b = Inr m"
    using assms(6,7) by (auto simp: meeting_floor_def split: sum.splits if_splits)
  then have "asset_platform a = asset_platform b"
    using assms(4,5) by (simp add: asset_platform_def on_platform_def parse_runtime_minimum_text)
  then show ?thesis
    using assms(1-3) distinct_map_filter_inj [of asset_platform "manifest_assets man" a b]
    by (simp add: release_ok_def)
qed

lemma collect_applicable_ok:
  assumes "\<forall>a \<in> set as. \<exists>m r. parse_runtime_minimum a = Inr m \<and>
    runtime_meets (input_runtime input) (input_operating_system input) m = Inr r"
  shows "\<exists>app'. collect_applicable input mal app as = Inr (mal, app') \<and>
    length app' \<le> length app + length as \<and>
    map fst app' = map fst app @ filter (\<lambda>a. meeting_floor input a \<noteq> None) as"
  using assms
proof (induction as arbitrary: app)
  case (Cons a as)
  then obtain m r where a: "parse_runtime_minimum a = Inr m"
    "runtime_meets (input_runtime input) (input_operating_system input) m = Inr r" by auto
  then have "meeting_floor input a = (if r then Some m else None)"
    by (simp add: meeting_floor_def)
  then show ?case
    using a Cons.IH [of "if r then app @ [(a, m)] else app"] Cons.prems by (cases r) auto
qed simp

lemma select_asset_complete:
  assumes ok: "release_ok man" and a: "a \<in> set (manifest_assets man)" "on_platform input a"
    and meets: "meeting_floor input a \<noteq> None"
  shows "\<exists>b. select_asset (manifest_assets man) input = Inr b"
proof -
  define plat where "plat = filter (\<lambda>a. asset_architecture a = input_architecture input)
    (filter (\<lambda>a. asset_operating_system a = input_operating_system input) (manifest_assets man))"
  have plat_set: "set plat = {x \<in> set (manifest_assets man). on_platform input x}"
    by (auto simp: plat_def on_platform_def)
  have "distinct (map asset_platform (manifest_assets man))" using ok by (simp add: release_ok_def)
  then have "distinct (manifest_assets man)" by (simp add: distinct_map)
  then have dist: "distinct plat" by (simp add: plat_def)
  obtain m where m: "parse_runtime_minimum a = Inr m"
    "runtime_meets (input_runtime input) (input_operating_system input) m = Inr True"
    using meets by (auto simp: meeting_floor_def split: sum.splits if_splits)
  have all: "\<forall>b \<in> set plat. \<exists>m r. parse_runtime_minimum b = Inr m \<and>
      runtime_meets (input_runtime input) (input_operating_system input) m = Inr r"
  proof
    fix b assume b: "b \<in> set plat"
    then have "asset_ok b" using ok unfolding plat_set release_ok_def by blast
    then obtain n where n: "parse_runtime_minimum b = Inr n"
      by (auto simp: asset_ok_def)
    moreover have "asset_operating_system a = input_operating_system input"
      "asset_operating_system b = input_operating_system input"
      using a(2) b by (simp_all add: plat_set on_platform_def)
    ultimately show "\<exists>m r. parse_runtime_minimum b = Inr m \<and>
        runtime_meets (input_runtime input) (input_operating_system input) m = Inr r"
      using runtime_meets_shape [OF m(1) n _ _ m(2)] by blast
  qed
  from collect_applicable_ok [OF all, of False "[]"]
  obtain app where app: "collect_applicable input False [] plat = Inr (False, app)"
    and fst_app: "map fst app = filter (\<lambda>a. meeting_floor input a \<noteq> None) plat" by auto
  have mem: "(x, n) \<in> set app \<longleftrightarrow> x \<in> set plat \<and> meeting_floor input x = Some n" for x n
    using collect_applicable_Inr [OF app] by (simp add: floors_def)
  have a_plat: "a \<in> set plat" using a by (simp add: plat_set)
  have "distinct (map fst app)" using dist fst_app by simp
  then have dapp: "distinct app" by (simp add: distinct_map)
  have "app \<noteq> []" using mem [of a "the (meeting_floor input a)"] a_plat meets by auto
  have diff: "snd x \<noteq> snd y" if "x \<in> set app" "y \<in> set app" "x \<noteq> y" for x y
  proof
    assume s: "snd x = snd y"
    have "(fst x, snd x) \<in> set app" "(fst y, snd y) \<in> set app" using that(1,2) by simp_all
    then have "meeting_floor input (fst x) = Some (snd x)" "fst x \<in> set plat"
      "meeting_floor input (fst y) = Some (snd x)" "fst y \<in> set plat"
      unfolding mem using s by simp_all
    then have "fst x = fst y"
      using floor_determines_asset [OF ok, of "fst x" "fst y" input "snd x"] by (simp add: plat_set)
    with s that(3) show False by (simp add: prod_eq_iff)
  qed
  have pl: "filter (\<lambda>a. asset_operating_system a = input_operating_system input)
      (manifest_assets man) \<noteq> []" "plat \<noteq> []"
    using a_plat by (auto simp: plat_def filter_empty_conv)
  show ?thesis
  proof (cases "sort_by_key_reverse snd app")
    case Nil
    with \<open>app \<noteq> []\<close> show ?thesis by simp
  next
    case (Cons x l)
    show ?thesis
    proof (cases l)
      case Nil
      with Cons app pl show ?thesis
        unfolding select_asset_def Let_def plat_def [symmetric] by (simp split: prod.splits)
    next
      case (Cons y l')
      note l = \<open>sort_by_key_reverse snd app = x # l\<close>
      have "distinct (x # y # l')" "set app = set (x # y # l')"
        using dapp l Cons by (metis mset_eq_imp_distinct_iff sort_by_key_reverse_mset)
          (metis l Cons sort_by_key_reverse_set)
      then have "snd x \<noteq> snd y" by (intro diff) auto
      with l Cons app pl show ?thesis
        unfolding select_asset_def Let_def plat_def [symmetric] by (cases x; cases y) simp
    qed
  qed
qed

section \<open>The choice of a record\<close>

lemma select_compatibility_Inr:
  "(select_compatibility records input = Inr c) =
     (\<exists>rec. filter (\<lambda>rec. tuple_matches (record_tuple rec) input) records = [rec] \<and>
       ((\<exists>e. record_eligibility rec = Reviewed e \<and> c = SelectedReviewed e) \<or>
        (\<exists>b. record_eligibility rec = Experimental b \<and> c = SelectedExperimental b \<and>
          input_compatibility_mode input = Automatic)))"
  by (auto simp: select_compatibility_def Let_def split: list.splits compatibility_eligibility.splits)

lemma select_compatibility_member:
  assumes "select_compatibility records input = Inr k"
  shows "\<exists>rec \<in> set records. tuple_matches (record_tuple rec) input \<and>
    ((\<exists>e. record_eligibility rec = Reviewed e \<and> k = SelectedReviewed e) \<or>
     (\<exists>b. record_eligibility rec = Experimental b \<and> k = SelectedExperimental b \<and>
       input_compatibility_mode input = Automatic))"
proof -
  from assms obtain rec where rec: "filter (\<lambda>rec. tuple_matches (record_tuple rec) input) records = [rec]"
    and k: "(\<exists>e. record_eligibility rec = Reviewed e \<and> k = SelectedReviewed e) \<or>
     (\<exists>b. record_eligibility rec = Experimental b \<and> k = SelectedExperimental b \<and>
       input_compatibility_mode input = Automatic)"
    unfolding select_compatibility_Inr by blast
  have "rec \<in> set (filter (\<lambda>rec. tuple_matches (record_tuple rec) input) records)"
    unfolding rec by simp
  with k show ?thesis by auto
qed

section \<open>The choice of a release\<close>

lemma select_loop_eq:
  "select_loop input sel rej cs =
     (sel @ List.map_filter (\<lambda>c. case consider_candidate input c of Inl e \<Rightarrow> None | Inr r \<Rightarrow> Some r) cs,
      rej @ List.map_filter (\<lambda>c. case consider_candidate input c of
        Inl e \<Rightarrow> Some \<lparr>rejected_version = candidate_version c, rejected_reason = e\<rparr>
      | Inr r \<Rightarrow> None) cs)"
  by (induction cs arbitrary: sel rej) (auto simp: map_filter_simps split: sum.splits)

text \<open>The releases the loop selects and the rejections it records.\<close>

definition selectable :: "selection_input \<Rightarrow> authenticated_manifest list \<Rightarrow> selected_release list" where
  "selectable input cs =
     List.map_filter (\<lambda>c. case consider_candidate input c of Inl e \<Rightarrow> None | Inr r \<Rightarrow> Some r) cs"

definition rejected :: "selection_input \<Rightarrow> authenticated_manifest list \<Rightarrow> candidate_rejection list" where
  "rejected input cs =
     List.map_filter (\<lambda>c. case consider_candidate input c of
        Inl e \<Rightarrow> Some \<lparr>rejected_version = candidate_version c, rejected_reason = e\<rparr>
      | Inr r \<Rightarrow> None) cs"

lemma set_map_filter_iff: "(y \<in> set (List.map_filter f xs)) = (\<exists>x \<in> set xs. f x = Some y)"
  by (induction xs) (auto simp: map_filter_simps split: option.splits)

lemma ok_value_Some: "((case m of Inl e \<Rightarrow> None | Inr r \<Rightarrow> Some r) = Some s) = (m = Inr s)"
  by (cases m) simp_all

lemma error_value_Some:
  "((case m of Inl e \<Rightarrow> Some (f e) | Inr r \<Rightarrow> None) = Some s) = (\<exists>e. m = Inl e \<and> s = f e)"
  by (cases m) auto

lemma selectable_iff: "(r \<in> set (selectable input cs)) = (\<exists>c \<in> set cs. consider_candidate input c = Inr r)"
  by (simp add: selectable_def set_map_filter_iff ok_value_Some)

lemma rejected_iff:
  "(r \<in> set (rejected input cs)) =
     (\<exists>c \<in> set cs. rejected_version r = candidate_version c \<and>
       consider_candidate input c = Inl (rejected_reason r))"
  unfolding rejected_def set_map_filter_iff error_value_Some by (cases r) auto

lemma select_applicable_eq:
  "select_applicable cs input =
     (if cs = [] then Rejected EmptyCatalog
      else case validate_catalog_ambiguity {} cs of
        Inl reason \<Rightarrow> Rejected reason
      | Inr _ \<Rightarrow>
          if selectable input cs = [] then NoApplicable (sort_key rejection_key (rejected input cs))
          else Selected (last (sort_key selected_version (selectable input cs))))"
  by (simp add: select_applicable_def select_loop_eq selectable_def rejected_def split: sum.splits)

lemma consider_candidate_Inr:
  "(consider_candidate input c = Inr r) =
     (installed_autoapprover_version input < candidate_version c \<and>
      selected_manifest r = c \<and>
      select_asset (manifest_assets (auth_manifest c)) input = Inr (selected_asset r) \<and>
      select_compatibility (manifest_compatibility (auth_manifest c)) input = Inr (selected_compat r) \<and>
      selected_explanation r =
        \<lparr>current_autoapprover_version = installed_autoapprover_version input,
         new_autoapprover_version = candidate_version c,
         explained_compatibility = selected_compat r,
         explained_notes = manifest_notes (auth_manifest c)\<rparr>)"
  by (cases r) (auto simp: consider_candidate_def Let_def result_simps not_le)

lemma selected_version_candidate:
  "consider_candidate input c = Inr r \<Longrightarrow> selected_version r = candidate_version c"
  by (simp add: consider_candidate_Inr selected_version_def)

lemma last_sort_key:
  assumes "xs \<noteq> []"
  shows "last (sort_key f xs) \<in> set xs" "\<forall>x \<in> set xs. f x \<le> f (last (sort_key f xs))"
proof -
  have ne: "sort_key f xs \<noteq> []" using assms by (metis set_empty2 set_sort)
  from last_in_set [OF this] show "last (sort_key f xs) \<in> set xs" by simp
  have "sorted (map f (butlast (sort_key f xs) @ [last (sort_key f xs)]))"
    using ne by (metis append_butlast_last_id sorted_sort_key)
  then have "\<forall>x \<in> set (butlast (sort_key f xs)). f x \<le> f (last (sort_key f xs))"
    by (simp add: sorted_append)
  moreover have "set xs = set (butlast (sort_key f xs)) \<union> {last (sort_key f xs)}"
    using ne by (metis append_butlast_last_id set_append list.simps(15) list.set(1) set_sort)
  ultimately show "\<forall>x \<in> set xs. f x \<le> f (last (sort_key f xs))" by auto
qed

lemma selectable_mset:
  assumes "mset cs = mset cs'"
  shows "mset (selectable input cs) = mset (selectable input cs')"
    "mset (rejected input cs) = mset (rejected input cs')"
proof -
  have "mset (List.map_filter f xs) = mset (List.map_filter f ys)" if "mset xs = mset ys"
    for f :: "authenticated_manifest \<Rightarrow> 'z option" and xs ys
  proof -
    have "List.map_filter f zs = map (the \<circ> f) (filter (\<lambda>x. f x \<noteq> None) zs)" for zs
      by (simp add: List.map_filter_def)
    then show ?thesis using that by (simp only: mset_map mset_filter)
  qed
  with assms show "mset (selectable input cs) = mset (selectable input cs')"
    "mset (rejected input cs) = mset (rejected input cs')"
    by (simp_all add: selectable_def rejected_def)
qed

lemma selectable_distinct:
  "distinct (map candidate_version cs) \<Longrightarrow> distinct (map selected_version (selectable input cs))"
proof (induction cs)
  case (Cons c cs)
  show ?case
  proof (cases "consider_candidate input c")
    case (Inl e)
    then show ?thesis using Cons by (simp add: selectable_def map_filter_simps)
  next
    case (Inr r)
    have "selected_version r \<notin> selected_version ` set (selectable input cs)"
    proof
      assume "selected_version r \<in> selected_version ` set (selectable input cs)"
      then obtain d s where d: "d \<in> set cs" "consider_candidate input d = Inr s"
        "selected_version s = selected_version r"
        by (auto simp: selectable_iff)
      then have "candidate_version d = candidate_version c"
        using Inr by (simp add: selected_version_candidate [symmetric])
      then have "candidate_version c \<in> candidate_version ` set cs"
        using d(1) by (metis image_eqI)
      with Cons.prems show False by simp
    qed
    then show ?thesis using Cons Inr by (simp add: selectable_def map_filter_simps)
  qed
qed (simp add: selectable_def map_filter_simps)

lemma select_applicable_Selected:
  assumes "select_applicable cs input = Selected r"
  shows "validate_catalog_ambiguity {} cs = Inr () \<and> r \<in> set (selectable input cs) \<and>
    (\<forall>s \<in> set (selectable input cs). selected_version s \<le> selected_version r)"
  using assms last_sort_key [of "selectable input cs" selected_version]
  by (auto simp: select_applicable_eq split: if_splits sum.splits)

text \<open>The verdict on a catalog of releases that are pairwise different is the same in any order.\<close>

lemma select_applicable_order:
  assumes "mset cs = mset cs'" "validate_catalog_ambiguity {} cs = Inr ()"
  shows "select_applicable cs' input = select_applicable cs input"
proof -
  have dist: "distinct (map candidate_version cs)"
    using assms(2) by (simp add: validate_catalog_ambiguity_Inr)
  have same: "set cs' = set cs" "(cs' = []) = (cs = [])"
    using assms(1) by (metis set_mset_mset) (metis assms(1) mset_zero_iff)
  have "distinct (map candidate_version cs')"
    using dist assms(1) by (metis mset_eq_imp_distinct_iff mset_map)
  then have ok: "validate_catalog_ambiguity {} cs' = Inr ()"
    using assms(2) same by (simp add: validate_catalog_ambiguity_Inr)
  have m: "mset (selectable input cs) = mset (selectable input cs')"
    "mset (rejected input cs) = mset (rejected input cs')"
    using selectable_mset [OF assms(1)] by blast+
  have sel: "sort_key selected_version (selectable input cs) =
      sort_key selected_version (selectable input cs')"
    using m(1) selectable_distinct [OF dist] by (rule sort_key_mset_eq)
  have rej: "sort_key rejection_key (rejected input cs) = sort_key rejection_key (rejected input cs')"
  proof (rule sort_key_inj_key_eq)
    show "mset (rejected input cs) = mset (sort_key rejection_key (rejected input cs'))"
      using m(2) by simp
    show "inj_on rejection_key (set (rejected input cs))"
      by (rule inj_onI) (rule rejection_key_inj)
    show "sorted (map rejection_key (sort_key rejection_key (rejected input cs')))"
      by (rule sorted_sort_key)
  qed
  have "(selectable input cs = []) = (selectable input cs' = [])"
    using m(1) by (metis mset_zero_iff)
  then show ?thesis
    using same assms(2) ok sel rej by (simp add: select_applicable_eq)
qed

section \<open>Properties\<close>

definition acceptable :: "selection_input \<Rightarrow> authenticated_manifest \<Rightarrow> bool" where
  "acceptable input c =
     (installed_autoapprover_version input < candidate_version c \<and>
      (\<exists>a \<in> set (manifest_assets (auth_manifest c)). on_platform input a \<and>
        meeting_floor input a \<noteq> None) \<and>
      (\<exists>rec \<in> set (manifest_compatibility (auth_manifest c)).
        tuple_matches (record_tuple rec) input \<and>
        (case record_eligibility rec of
           Reviewed e \<Rightarrow> True
         | Experimental b \<Rightarrow> input_compatibility_mode input = Automatic
         | Excluded e \<Rightarrow> False)))"

lemma matching_at_most_one:
  assumes "release_ok m"
  shows "length (filter (\<lambda>rec. tuple_matches (record_tuple rec) input) (manifest_compatibility m)) \<le> Suc 0"
  using assms
  by (intro filter_distinct_key_length [of "\<lambda>rec. tuple_platform (record_tuple rec)"])
    (auto simp: release_ok_def tuple_matches_def tuple_platform_def)

lemma select_compatibility_ok:
  assumes "release_ok m"
  shows "(\<exists>c. select_compatibility (manifest_compatibility m) input = Inr c) =
    (\<exists>rec \<in> set (manifest_compatibility m). tuple_matches (record_tuple rec) input \<and>
        (case record_eligibility rec of
           Reviewed e \<Rightarrow> True
         | Experimental b \<Rightarrow> input_compatibility_mode input = Automatic
         | Excluded e \<Rightarrow> False))"
proof -
  let ?f = "filter (\<lambda>rec. tuple_matches (record_tuple rec) input) (manifest_compatibility m)"
  have mem: "(\<exists>rec \<in> set (manifest_compatibility m). tuple_matches (record_tuple rec) input \<and> P rec)
      = (\<exists>rec \<in> set ?f. P rec)" for P by auto
  show ?thesis
    unfolding mem select_compatibility_Inr
    using matching_at_most_one [OF assms, of input]
    by (cases ?f) (auto split: compatibility_eligibility.splits)
qed

lemma consider_candidate_ok:
  assumes "release_ok (auth_manifest c)"
  shows "(\<exists>r. consider_candidate input c = Inr r) = acceptable input c"
proof -
  have asset: "(\<exists>a. select_asset (manifest_assets (auth_manifest c)) input = Inr a) =
      (\<exists>a \<in> set (manifest_assets (auth_manifest c)). on_platform input a \<and>
        meeting_floor input a \<noteq> None)"
    using select_asset_Inr select_asset_complete [OF assms] by blast
  have "(\<exists>r. consider_candidate input c = Inr r) =
      (installed_autoapprover_version input < candidate_version c \<and>
       (\<exists>a. select_asset (manifest_assets (auth_manifest c)) input = Inr a) \<and>
       (\<exists>k. select_compatibility (manifest_compatibility (auth_manifest c)) input = Inr k))"
    by (auto simp: consider_candidate_def Let_def result_simps not_le)
  then show ?thesis
    unfolding asset select_compatibility_ok [OF assms] acceptable_def .
qed

definition example_input :: selection_input where
  "example_input =
     \<lparr>installed_autoapprover_version = StableVersion 0 1 0,
      input_codex_version = StableVersion 0 9 1, input_operating_system = TargetLinux,
      input_architecture = TargetX86_64, input_runtime = RuntimeLinuxGlibc 2 35,
      input_surface = LocalCliLauncher, input_compatibility_mode = Strict\<rparr>"

definition example_candidate :: "stable_version \<Rightarrow> authenticated_manifest" where
  "example_candidate v =
     \<lparr>auth_manifest = example_release v,
      auth_target = \<lparr>verified_target_name = ''releases/m.json'', verified_length = 1,
                     verified_sha256 = Sha256Digest []\<rparr>\<rparr>"

lemma example_candidate_simps [simp]:
  "auth_manifest (example_candidate v) = example_release v"
  "manifest_assets (example_release v) = [example_asset]"
  "manifest_compatibility (example_release v) = [example_record, example_experimental]"
  "release_version (example_release v) = v"
  by (simp_all add: example_candidate_def example_release_def)

lemma example_meeting: "meeting_floor example_input example_asset = Some (MinLinuxGlibc 2 31)"
  by (simp add: meeting_floor_def example_floor example_input_def)

lemma example_on_platform: "on_platform example_input example_asset"
  by (simp add: on_platform_def example_input_def example_asset_def)

lemma example_acceptable:
  "acceptable example_input (example_candidate v) = (StableVersion 0 1 0 < v)"
  using example_meeting example_on_platform
  by (auto simp: acceptable_def example_input_def tuple_matches_def example_record_def)

lemma example_select_asset: "select_asset [example_asset] example_input = Inr example_asset"
  using example_meeting example_floor
  by (simp add: select_asset_def Let_def example_input_def example_asset_def meeting_floor_def
      sort_by_key_reverse_def)

text \<open>An asset is chosen only from the ones built for the machine's platform and
  architecture; the machine meets its floor, and every other asset of the platform that the
  machine could run has a strictly lower floor.\<close>

theorem select_asset_best:
  assumes "select_asset assets input = Inr a"
  shows "a \<in> set assets \<and> on_platform input a \<and>
    (\<exists>m. meeting_floor input a = Some m \<and>
      (\<forall>b \<in> set assets. on_platform input b \<and> b \<noteq> a \<longrightarrow>
        (\<forall>n. meeting_floor input b = Some n \<longrightarrow> n < m)))"
  using assms by (rule select_asset_Inr)

theorem select_asset_best_witness:
  "on_platform example_input example_asset \<and> (\<exists>m. meeting_floor example_input example_asset = Some m)"
  using select_asset_best [OF example_select_asset] by blast

text \<open>C38: a selected release is one of the candidates and newer than the installed version, its
  asset and its compatibility record come from its own manifest and fit the machine, no
  acceptable candidate is newer, and in strict mode the record is a reviewed one.\<close>

theorem selected_release_sound:
  assumes "select_applicable cs input = Selected r"
  shows "selected_manifest r \<in> set cs \<and>
    installed_autoapprover_version input < selected_version r \<and>
    selected_asset r \<in> set (manifest_assets (auth_manifest (selected_manifest r))) \<and>
    on_platform input (selected_asset r) \<and> meeting_floor input (selected_asset r) \<noteq> None \<and>
    (\<exists>rec \<in> set (manifest_compatibility (auth_manifest (selected_manifest r))).
      tuple_matches (record_tuple rec) input \<and>
      ((\<exists>e. record_eligibility rec = Reviewed e \<and> selected_compat r = SelectedReviewed e) \<or>
       (\<exists>b. record_eligibility rec = Experimental b \<and> selected_compat r = SelectedExperimental b \<and>
         input_compatibility_mode input = Automatic))) \<and>
    (\<forall>c \<in> set cs. release_ok (auth_manifest c) \<and> acceptable input c \<longrightarrow>
      candidate_version c \<le> selected_version r)"
proof -
  from select_applicable_Selected [OF assms]
  obtain c where c: "c \<in> set cs" "consider_candidate input c = Inr r"
    and best: "\<forall>s \<in> set (selectable input cs). selected_version s \<le> selected_version r"
    by (auto simp: selectable_iff)
  have "candidate_version d \<le> selected_version r"
    if "d \<in> set cs" "release_ok (auth_manifest d)" "acceptable input d" for d
    using that best consider_candidate_ok [of d input] selected_version_candidate
    by (metis selectable_iff)
  moreover have "\<exists>rec \<in> set (manifest_compatibility (auth_manifest c)).
      tuple_matches (record_tuple rec) input \<and>
      ((\<exists>e. record_eligibility rec = Reviewed e \<and> selected_compat r = SelectedReviewed e) \<or>
       (\<exists>b. record_eligibility rec = Experimental b \<and> selected_compat r = SelectedExperimental b \<and>
         input_compatibility_mode input = Automatic))"
    using c(2) unfolding consider_candidate_Inr by (blast intro: select_compatibility_member)
  moreover have "on_platform input (selected_asset r) \<and> meeting_floor input (selected_asset r) \<noteq> None \<and>
      selected_asset r \<in> set (manifest_assets (auth_manifest c))"
    using c(2) select_asset_Inr [of "manifest_assets (auth_manifest c)" input "selected_asset r"]
    unfolding consider_candidate_Inr by auto
  moreover have "selected_manifest r = c" "installed_autoapprover_version input < selected_version r"
    using c(2) by (simp_all add: consider_candidate_Inr selected_version_def)
  ultimately show ?thesis using c(1) by simp
qed

text \<open>Over valid manifests of pairwise different versions the selection finds a release
  exactly when one of the candidates is newer, has an asset the machine can run and is declared
  compatible; it never reports an ambiguity.\<close>

theorem select_applicable_complete:
  assumes "cs \<noteq> []" "distinct (map candidate_version cs)" "\<forall>c \<in> set cs. release_ok (auth_manifest c)"
  shows "(\<exists>r. select_applicable cs input = Selected r) = (\<exists>c \<in> set cs. acceptable input c)
    \<and> (\<forall>reason. select_applicable cs input \<noteq> Rejected reason)"
proof -
  have "validate_catalog_ambiguity {} cs = Inr ()"
    using assms selection_identity_distinct by (simp add: validate_catalog_ambiguity_Inr)
  then have eq: "select_applicable cs input =
      (if selectable input cs = [] then NoApplicable (sort_key rejection_key (rejected input cs))
       else Selected (last (sort_key selected_version (selectable input cs))))"
    using assms(1) by (simp add: select_applicable_eq)
  have "(selectable input cs \<noteq> []) = (\<exists>r. r \<in> set (selectable input cs))"
    by (cases "selectable input cs") auto
  also have "\<dots> = (\<exists>c \<in> set cs. acceptable input c)"
    using assms(3) by (metis selectable_iff consider_candidate_ok)
  finally have "(selectable input cs \<noteq> []) = (\<exists>c \<in> set cs. acceptable input c)" .
  then show ?thesis unfolding eq by (cases "selectable input cs = []") auto
qed

lemma example_catalog:
  "[example_candidate (StableVersion 0 2 0), example_candidate (StableVersion 0 3 0)] \<noteq> []"
  "distinct (map candidate_version
     [example_candidate (StableVersion 0 2 0), example_candidate (StableVersion 0 3 0)])"
  "\<forall>c \<in> set [example_candidate (StableVersion 0 2 0), example_candidate (StableVersion 0 3 0)].
     release_ok (auth_manifest c)"
  by (simp_all add: example_release_ok)

lemma version_less: "StableVersion 0 1 0 < StableVersion 0 2 0"
  by (simp add: less_stable_version_def less_eq_stable_version_def version_key_def)

theorem select_applicable_complete_witness:
  "\<exists>r. select_applicable
     [example_candidate (StableVersion 0 2 0), example_candidate (StableVersion 0 3 0)]
     example_input = Selected r"
  using select_applicable_complete [OF example_catalog, of example_input]
  by (auto simp: example_acceptable version_less)

lemma example_unambiguous:
  "validate_catalog_ambiguity {}
     [example_candidate (StableVersion 0 2 0), example_candidate (StableVersion 0 3 0)] = Inr ()"
  using example_catalog selection_identity_distinct by (simp add: validate_catalog_ambiguity_Inr)

lemma example_selected:
  "\<exists>r. select_applicable
     [example_candidate (StableVersion 0 2 0), example_candidate (StableVersion 0 3 0)]
     example_input = Selected r"
proof -
  have "\<exists>r. consider_candidate example_input (example_candidate (StableVersion 0 2 0)) = Inr r"
    using consider_candidate_ok [of "example_candidate (StableVersion 0 2 0)" example_input]
    by (simp add: example_release_ok example_acceptable version_less)
  then have "selectable example_input
     [example_candidate (StableVersion 0 2 0), example_candidate (StableVersion 0 3 0)] \<noteq> []"
    by (auto simp: selectable_def map_filter_simps)
  then show ?thesis
    using example_unambiguous
    by (simp add: select_applicable_eq del: validate_catalog_ambiguity.simps)
qed

theorem selected_release_sound_witness:
  "\<exists>r. StableVersion 0 1 0 < selected_version r \<and> (\<exists>e. selected_compat r = SelectedReviewed e)"
proof -
  obtain r where "select_applicable
     [example_candidate (StableVersion 0 2 0), example_candidate (StableVersion 0 3 0)]
     example_input = Selected r"
    using example_selected by blast
  from selected_release_sound [OF this] show ?thesis
    by (auto simp: example_input_def)
qed

text \<open>For a catalog without ambiguity the outcome, chosen release or sorted list of
  rejections, is the same for every order of the candidates.\<close>

theorem select_applicable_any_order:
  assumes "mset cs = mset cs'" "validate_catalog_ambiguity {} cs = Inr ()"
  shows "select_applicable cs' input = select_applicable cs input"
  using assms by (rule select_applicable_order)

theorem select_applicable_any_order_witness:
  "select_applicable
     [example_candidate (StableVersion 0 3 0), example_candidate (StableVersion 0 2 0)] example_input =
   select_applicable
     [example_candidate (StableVersion 0 2 0), example_candidate (StableVersion 0 3 0)] example_input"
  by (rule select_applicable_any_order [OF _ example_unambiguous]) simp

text \<open>When no release applies, every candidate has exactly one rejection with the reason its
  consideration gave, and the rejections are listed by version.\<close>

theorem no_applicable_explains:
  assumes "select_applicable cs input = NoApplicable rs"
  shows "mset (map rejected_version rs) = mset (map candidate_version cs) \<and>
    sorted (map rejected_version rs) \<and>
    (\<forall>r \<in> set rs. \<exists>c \<in> set cs. rejected_version r = candidate_version c \<and>
      consider_candidate input c = Inl (rejected_reason r))"
proof -
  have rs: "rs = sort_key rejection_key (rejected input cs)" and none: "selectable input cs = []"
    using assms by (auto simp: select_applicable_eq split: if_splits sum.splits)
  have all: "map rejected_version (rejected input ds) = map candidate_version ds"
    if "selectable input ds = []" for ds
    using that by (induction ds)
      (auto simp: selectable_def rejected_def map_filter_simps split: sum.splits)
  have "sorted (map rejection_key rs)" unfolding rs by (rule sorted_sort_key)
  then have "sorted (map rejected_version rs)"
    by (induction rs) (auto simp: rejection_key_def less_eq_prod_def)
  moreover have "mset (map rejected_version rs) = mset (map candidate_version cs)"
    using all [OF none] unfolding rs by (metis mset_map mset_sort)
  moreover have "set rs = set (rejected input cs)" by (simp add: rs)
  ultimately show ?thesis by (auto simp: rejected_iff)
qed

theorem no_applicable_explains_witness:
  "mset [StableVersion 0 1 0] = mset (map candidate_version [example_candidate (StableVersion 0 1 0)])"
proof -
  have none: "consider_candidate example_input (example_candidate (StableVersion 0 1 0)) =
      Inl NotNewerThanInstalled"
    by (simp add: consider_candidate_def example_input_def)
  then have "select_applicable [example_candidate (StableVersion 0 1 0)] example_input =
      NoApplicable [\<lparr>rejected_version = StableVersion 0 1 0, rejected_reason = NotNewerThanInstalled\<rparr>]"
    by (simp add: select_applicable_def selection_identity_distinct [OF example_release_ok])
  from no_applicable_explains [OF this] show ?thesis by simp
qed

end
