(* ===== verification/Protocol.thy ===== *)
theory Protocol
  imports Json
begin

text \<open>
  The hook's wire format, \<^verbatim>\<open>src/protocol.rs\<close>: the bounded parser that refuses repeated
  keys, the strict decoder of the permission request, its serialized form, and the one response
  the hook may print.
\<close>

section \<open>Types\<close>

definition PERMISSION_REQUEST_EVENT :: string where
  "PERMISSION_REQUEST_EVENT = ''PermissionRequest''"

definition MAX_INPUT_BYTES :: nat where
  "MAX_INPUT_BYTES = 1024 * 1024"

datatype protocol_error = InputTooLarge nat | NotAnObject | InvalidJson | TrailingData

record hook_input =
  hook_event_name :: "string option"
  session_id :: "string option"
  transcript_path :: "string option"
  cwd :: "string option"
  hook_model :: "string option"
  tool_name :: "string option"
  tool_input :: "json option"
  turn_id :: "string option"
  permission_mode :: "string option"

datatype nullable_string = Missing | NullString | ValueString string

datatype permission_mode_value = DefaultMode | AcceptEdits | Plan | DontAsk | BypassPermissions

record wire_hook_input =
  wire_hook_event_name :: string
  wire_session_id :: string
  wire_transcript_path :: nullable_string
  wire_cwd :: string
  wire_model :: string
  wire_tool_name :: string
  wire_tool_input :: json
  wire_turn_id :: string
  wire_permission_mode :: permission_mode_value

section \<open>Decoding\<close>

fun nullable_string_decode :: "json \<Rightarrow> nullable_string option" where
  "nullable_string_decode JNull = Some NullString"
| "nullable_string_decode (JString s) = Some (ValueString s)"
| "nullable_string_decode _ = None"

definition permission_mode_names :: "(string \<times> permission_mode_value) list" where
  "permission_mode_names =
     [(''default'', DefaultMode), (''acceptEdits'', AcceptEdits), (''plan'', Plan),
      (''dontAsk'', DontAsk), (''bypassPermissions'', BypassPermissions)]"

definition wire_field_names :: "string list" where
  "wire_field_names =
     [''hook_event_name'', ''session_id'', ''transcript_path'', ''cwd'', ''model'', ''tool_name'',
      ''tool_input'', ''turn_id'', ''permission_mode'']"

definition wire_decode :: "json \<Rightarrow> wire_hook_input option" where
  "wire_decode v =
     (case struct_fields wire_field_names v of None \<Rightarrow> None | Some f \<Rightarrow>
        bind_field f ''hook_event_name'' as_str (\<lambda>event.
        bind_field f ''session_id'' as_str (\<lambda>session.
        (case (case f ''transcript_path'' of None \<Rightarrow> Some Missing
               | Some t \<Rightarrow> nullable_string_decode t) of None \<Rightarrow> None
         | Some transcript \<Rightarrow>
        bind_field f ''cwd'' as_str (\<lambda>dir.
        bind_field f ''model'' as_str (\<lambda>model.
        bind_field f ''tool_name'' as_str (\<lambda>tool.
        bind_field f ''tool_input'' Some (\<lambda>input.
        bind_field f ''turn_id'' as_str (\<lambda>turn.
        bind_field f ''permission_mode'' (unit_variant permission_mode_names) (\<lambda>mode.
        Some \<lparr>wire_hook_event_name = event, wire_session_id = session,
              wire_transcript_path = transcript, wire_cwd = dir, wire_model = model,
              wire_tool_name = tool, wire_tool_input = input, wire_turn_id = turn,
              wire_permission_mode = mode\<rparr>))))))))))"

fun permission_mode_text :: "permission_mode_value \<Rightarrow> string" where
  "permission_mode_text DefaultMode = ''default''"
| "permission_mode_text AcceptEdits = ''acceptEdits''"
| "permission_mode_text Plan = ''plan''"
| "permission_mode_text DontAsk = ''dontAsk''"
| "permission_mode_text BypassPermissions = ''bypassPermissions''"

definition hook_input_try_from :: "wire_hook_input \<Rightarrow> hook_input option" where
  "hook_input_try_from w =
     (let finish = (\<lambda>transcript. Some
        \<lparr>hook_event_name = Some (wire_hook_event_name w), session_id = Some (wire_session_id w),
         transcript_path = transcript, cwd = Some (wire_cwd w), hook_model = Some (wire_model w),
         tool_name = Some (wire_tool_name w), tool_input = Some (wire_tool_input w),
         turn_id = Some (wire_turn_id w),
         permission_mode = Some (permission_mode_text (wire_permission_mode w))\<rparr>)
      in case wire_transcript_path w of
           Missing \<Rightarrow> None
         | NullString \<Rightarrow> finish None
         | ValueString path \<Rightarrow> finish (Some path))"

definition hook_input_decode :: "json \<Rightarrow> hook_input option" where
  "hook_input_decode v = (case wire_decode v of None \<Rightarrow> None | Some w \<Rightarrow> hook_input_try_from w)"

text \<open>The derived serializer; an object value keeps its entries sorted by key.\<close>

fun opt_str :: "string option \<Rightarrow> json" where
  "opt_str None = JNull"
| "opt_str (Some s) = JString s"

definition hook_input_serialize :: "hook_input \<Rightarrow> json" where
  "hook_input_serialize h = JObject
     [(''cwd'', opt_str (cwd h)),
      (''hook_event_name'', opt_str (hook_event_name h)),
      (''model'', opt_str (hook_model h)),
      (''permission_mode'', opt_str (permission_mode h)),
      (''session_id'', opt_str (session_id h)),
      (''tool_input'', case tool_input h of None \<Rightarrow> JNull | Some v \<Rightarrow> v),
      (''tool_name'', opt_str (tool_name h)),
      (''transcript_path'', opt_str (transcript_path h)),
      (''turn_id'', opt_str (turn_id h))]"

section \<open>Parsing\<close>

definition is_ascii_whitespace :: "char \<Rightarrow> bool" where
  "is_ascii_whitespace c = (byte c \<in> {9, 10, 12, 13, 32})"

text \<open>
  \<^verbatim>\<open>deserialize_map\<close> hands an object to the visitor and refuses anything else; after it,
  the deserializer must be at the end but for JSON white space.
\<close>

definition json_space :: "char \<Rightarrow> bool" where
  "json_space c = (c \<in> {CHR '' '', CHR 0x09, CHR 0x0A, CHR 0x0D})"

definition parse_unique_object :: "tokenizer \<Rightarrow> string \<Rightarrow> (protocol_error, json) result" where
  "parse_unique_object tok input =
     (if \<not> is_some_and (find (\<lambda>c. \<not> is_ascii_whitespace c) input) (\<lambda>c. c = CHR ''{'')
      then Inl NotAnObject
      else case tok input of
        Some (RawObject kvs, rest) \<Rightarrow>
          (case strict_map {} [] kvs of
             None \<Rightarrow> Inl InvalidJson
           | Some obj \<Rightarrow> if list_all json_space rest then Inr (JObject obj) else Inl TrailingData)
      | _ \<Rightarrow> Inl InvalidJson)"

definition parse :: "tokenizer \<Rightarrow> string \<Rightarrow> (protocol_error, hook_input) result" where
  "parse tok input =
     (if MAX_INPUT_BYTES < length input then Inl (InputTooLarge MAX_INPUT_BYTES)
      else and_then (parse_unique_object tok input) (\<lambda>value.
        ok_or InvalidJson (hook_input_decode value)))"

section \<open>The response\<close>

record allow_decision =
  decision_behavior :: string

record hook_specific_output =
  output_event_name :: string
  output_decision :: allow_decision

record allow_response_data =
  response_output :: hook_specific_output

definition allow_response :: allow_response_data where
  "allow_response =
     \<lparr>response_output =
        \<lparr>output_event_name = PERMISSION_REQUEST_EVENT,
         output_decision = \<lparr>decision_behavior = ''allow''\<rparr>\<rparr>\<rparr>"

section \<open>What decoding gives\<close>

lemma wire_decode_Some:
  assumes "wire_decode v = Some w"
  obtains f where "struct_fields wire_field_names v = Some f"
    "f ''hook_event_name'' = Some (JString (wire_hook_event_name w))"
    "f ''session_id'' = Some (JString (wire_session_id w))"
    "f ''cwd'' = Some (JString (wire_cwd w))"
    "f ''tool_name'' = Some (JString (wire_tool_name w))"
    "f ''tool_input'' = Some (wire_tool_input w)"
  using assms
  by (auto simp: wire_decode_def bind_field_Some split: option.splits)

lemma hook_input_decode_total:
  assumes "hook_input_decode v = Some h"
  shows "hook_event_name h \<noteq> None \<and> session_id h \<noteq> None \<and> cwd h \<noteq> None \<and> hook_model h \<noteq> None \<and>
    tool_name h \<noteq> None \<and> tool_input h \<noteq> None \<and> turn_id h \<noteq> None \<and>
    permission_mode h \<in> Some ` permission_mode_text ` UNIV"
  using assms
  by (auto simp: hook_input_decode_def hook_input_try_from_def Let_def
      split: option.splits nullable_string.splits)

text \<open>The names of the serialized fields are the ones the decoder knows.\<close>

lemma permission_mode_text_lookup [simp]:
  "map_of permission_mode_names (permission_mode_text m) = Some m"
  by (cases m) (simp_all add: permission_mode_names_def)

lemma hook_input_serialize_decode:
  assumes "hook_input_decode v = Some h"
  shows "hook_input_decode (hook_input_serialize h) = Some h"
proof -
  obtain e s d m t i u p where h: "hook_event_name h = Some e" "session_id h = Some s"
    "cwd h = Some d" "hook_model h = Some m" "tool_name h = Some t" "tool_input h = Some i"
    "turn_id h = Some u" "permission_mode h = Some (permission_mode_text p)"
    using hook_input_decode_total [OF assms] by auto
  show ?thesis
    using h by (cases h; cases "transcript_path h")
      (simp_all add: hook_input_decode_def hook_input_serialize_def wire_decode_def
        wire_field_names_def bind_field_def hook_input_try_from_def)
qed

lemma parse_unique_object_Inr:
  "(parse_unique_object tok input = Inr v) =
     (is_some_and (find (\<lambda>c. \<not> is_ascii_whitespace c) input) (\<lambda>c. c = CHR ''{'') \<and>
      (\<exists>kvs rest obj. tok input = Some (RawObject kvs, rest) \<and> list_all json_space rest \<and>
        strict_map {} [] kvs = Some obj \<and> v = JObject obj))"
  by (auto simp: parse_unique_object_def split: option.splits raw_json.splits)

lemma parse_Inr:
  "(parse tok input = Inr h) =
     (length input \<le> MAX_INPUT_BYTES \<and>
      (\<exists>v. parse_unique_object tok input = Inr v \<and> hook_input_decode v = Some h))"
  by (auto simp: parse_def result_simps not_less)

section \<open>Properties\<close>

text \<open>The parser yields an object exactly when no object in the text repeats a key at any
  depth; the object holds, sorted by key, the entries of the text and nothing else.\<close>

theorem parse_unique_object_faithful:
  assumes "parse_unique_object tok input = Inr v"
  shows "\<exists>kvs rest obj. tok input = Some (RawObject kvs, rest) \<and> unique_keys (RawObject kvs) \<and>
    v = JObject obj \<and> sorted_object obj \<and>
    (\<forall>k. map_of obj k = (case map_of kvs k of None \<Rightarrow> None | Some r \<Rightarrow> strict_value r))"
proof -
  obtain kvs rest obj where o: "tok input = Some (RawObject kvs, rest)" "v = JObject obj"
    "strict_map {} [] kvs = Some obj"
    using assms by (auto simp: parse_unique_object_Inr)
  then have "unique_keys (RawObject kvs)"
    using strict_dup(3) [of "{}" "[]" kvs] dup_unique(1) [of "RawObject kvs"] by simp
  with o strict_map_entries [OF o(3)] show ?thesis by (simp cong: option.case_cong)
qed

definition example_request :: "(string \<times> raw_json) list" where
  "example_request =
     [(''session_id'', RawString ''s1''), (''hook_event_name'', RawString ''PermissionRequest''),
      (''transcript_path'', RawNull), (''cwd'', RawString ''/w''), (''model'', RawString ''m''),
      (''tool_name'', RawString ''Bash''),
      (''tool_input'', RawObject [(''command'', RawString ''ls'')]),
      (''turn_id'', RawString ''t1''), (''permission_mode'', RawString ''default'')]"

lemma example_parse:
  "\<exists>v. parse_unique_object (\<lambda>_. Some (RawObject example_request, [])) ''{}'' = Inr v"
  by (simp add: parse_unique_object_def is_ascii_whitespace_def byte_def example_request_def)

theorem parse_unique_object_faithful_witness:
  "\<exists>obj. map_of obj ''cwd'' = Some (JString ''/w'')"
proof -
  obtain v where "parse_unique_object (\<lambda>_. Some (RawObject example_request, [])) ''{}'' = Inr v"
    using example_parse by blast
  from parse_unique_object_faithful [OF this]
  obtain obj where "\<forall>k. map_of obj k =
      (case map_of example_request k of None \<Rightarrow> None | Some r \<Rightarrow> strict_value r)" by auto
  then have "map_of obj ''cwd'' = Some (JString ''/w'')" by (simp add: example_request_def)
  then show ?thesis by blast
qed

text \<open>A request the hook parsed is decoded by the broker to the same request after the hook
  has serialized it; every field but the transcript path is present and the mode is one of the
  five known ones.\<close>

theorem parsed_request_roundtrip:
  assumes "parse tok input = Inr h"
  shows "hook_input_decode (hook_input_serialize h) = Some h \<and> session_id h \<noteq> None \<and> cwd h \<noteq> None \<and>
    tool_name h \<noteq> None \<and> tool_input h \<noteq> None \<and> permission_mode h \<in> Some ` permission_mode_text ` UNIV"
proof -
  from assms obtain v where "hook_input_decode v = Some h" by (auto simp: parse_Inr)
  then show ?thesis using hook_input_serialize_decode hook_input_decode_total by blast
qed

theorem parsed_request_roundtrip_witness:
  "\<exists>h. parse (\<lambda>_. Some (RawObject example_request, [])) ''{}'' = Inr h \<and>
     hook_input_decode (hook_input_serialize h) = Some h"
proof -
  have "\<exists>h. parse (\<lambda>_. Some (RawObject example_request, [])) ''{}'' = Inr h"
    by (simp add: parse_def parse_unique_object_def is_ascii_whitespace_def byte_def MAX_INPUT_BYTES_def
        example_request_def ok_or_def hook_input_decode_def wire_decode_def wire_field_names_def
        bind_field_def permission_mode_names_def hook_input_try_from_def)
  with parsed_request_roundtrip show ?thesis by blast
qed

end
