(* ===== verification/Arming.thy ===== *)
theory Arming
  imports Rust_Text
begin

text \<open>
  The child's arming variables and the shape of a session secret, \<^verbatim>\<open>src/arming.rs\<close>.  A
  command's environment is a map from names to values; the random bytes are an argument.
\<close>

definition SESSION_TOKEN_ENV :: string where
  "SESSION_TOKEN_ENV = ''CODEX_AUTOAPPROVER_SESSION_TOKEN''"

definition SESSION_SOCKET_ENV :: string where
  "SESSION_SOCKET_ENV = ''CODEX_AUTOAPPROVER_SESSION_SOCKET''"

definition PROTOCOL_ENV :: string where
  "PROTOCOL_ENV = ''CODEX_AUTOAPPROVER_HOOK_PROTOCOL''"

definition AUDIT_PATH_ENV :: string where
  "AUDIT_PATH_ENV = ''CODEX_AUTOAPPROVER_AUDIT_PATH''"

definition PROTOCOL_VERSION :: string where
  "PROTOCOL_VERSION = ''permission-request-v1''"

definition TOKEN_BYTES :: nat where
  "TOKEN_BYTES = 32"

type_synonym environment = "string \<rightharpoonup> string"

definition valid_token :: "string option \<Rightarrow> bool" where
  "valid_token token = is_some_and token (\<lambda>value.
     length value = TOKEN_BYTES * 2 \<and>
     list_all (\<lambda>c. is_ascii_digit c \<or> (byte (CHR ''a'') \<le> byte c \<and> byte c \<le> byte (CHR ''f''))) value)"

text \<open>\<^verbatim>\<open>getrandom\<close> fills the buffer or fails.\<close>

definition new_secret :: "u8 list option \<Rightarrow> (unit, string) result" where
  "new_secret random = ok_or () (map_option to_hex random)"

definition arm_child :: "environment \<Rightarrow> string \<Rightarrow> string \<Rightarrow> (unit, environment) result" where
  "arm_child env socket secret =
     (if \<not> valid_token (Some secret) then Inl ()
      else Inr (env(SESSION_TOKEN_ENV \<mapsto> secret, SESSION_SOCKET_ENV \<mapsto> socket,
                    PROTOCOL_ENV \<mapsto> PROTOCOL_VERSION)))"

definition disarm_child :: "environment \<Rightarrow> environment" where
  "disarm_child env =
     fold (\<lambda>key e. e(key := None))
       [SESSION_TOKEN_ENV, SESSION_SOCKET_ENV, PROTOCOL_ENV, AUDIT_PATH_ENV] env"

definition is_armed :: "environment \<Rightarrow> bool" where
  "is_armed env =
     (valid_token (env SESSION_TOKEN_ENV) \<and> env PROTOCOL_ENV = Some PROTOCOL_VERSION \<and>
      (case env SESSION_SOCKET_ENV of None \<Rightarrow> False | Some socket \<Rightarrow> socket \<noteq> []))"

lemma env_names_distinct [simp]:
  "SESSION_TOKEN_ENV \<noteq> SESSION_SOCKET_ENV" "SESSION_TOKEN_ENV \<noteq> PROTOCOL_ENV"
  "SESSION_SOCKET_ENV \<noteq> PROTOCOL_ENV" "SESSION_TOKEN_ENV \<noteq> AUDIT_PATH_ENV"
  "SESSION_SOCKET_ENV \<noteq> AUDIT_PATH_ENV" "PROTOCOL_ENV \<noteq> AUDIT_PATH_ENV"
  "SESSION_SOCKET_ENV \<noteq> SESSION_TOKEN_ENV" "PROTOCOL_ENV \<noteq> SESSION_TOKEN_ENV"
  "PROTOCOL_ENV \<noteq> SESSION_SOCKET_ENV"
  by (simp_all add: SESSION_TOKEN_ENV_def SESSION_SOCKET_ENV_def PROTOCOL_ENV_def AUDIT_PATH_ENV_def)

lemma token_char_lower_hex:
  "(is_ascii_digit c \<or> (byte (CHR ''a'') \<le> byte c \<and> byte c \<le> byte (CHR ''f''))) = is_lower_hex c"
  by (auto simp: is_lower_hex_def byte_def)

lemma valid_token_iff:
  "valid_token (Some s) = (length s = 64 \<and> list_all is_lower_hex s)"
  by (simp add: valid_token_def TOKEN_BYTES_def token_char_lower_hex)

lemma new_secret_valid:
  assumes "new_secret random = Inr s" "\<forall>bs. random = Some bs \<longrightarrow> length bs = TOKEN_BYTES"
  shows "valid_token (Some s)"
  using assms to_hex_lower_hex
  by (auto simp: new_secret_def result_simps valid_token_iff TOKEN_BYTES_def)

text \<open>A child armed with a fresh secret is armed, one that is disarmed is not, and
  disarming a child removes every variable arming sets and changes no other.\<close>

theorem arming_inverse:
  assumes "new_secret random = Inr secret" "\<forall>bs. random = Some bs \<longrightarrow> length bs = TOKEN_BYTES"
    and "socket \<noteq> []"
  shows "\<exists>env'. arm_child env socket secret = Inr env' \<and> is_armed env' \<and>
    \<not> is_armed (disarm_child env') \<and> disarm_child env' = disarm_child env"
proof -
  let ?e = "env(SESSION_TOKEN_ENV \<mapsto> secret, SESSION_SOCKET_ENV \<mapsto> socket,
    PROTOCOL_ENV \<mapsto> PROTOCOL_VERSION)"
  have v: "valid_token (Some secret)" by (rule new_secret_valid [OF assms(1,2)])
  then have "arm_child env socket secret = Inr ?e" by (simp add: arm_child_def)
  moreover have "is_armed ?e" using v assms(3) by (simp add: is_armed_def)
  moreover have "\<not> is_armed (disarm_child ?e)"
    by (simp add: is_armed_def disarm_child_def)
  moreover have "disarm_child ?e = disarm_child env"
    by (simp add: disarm_child_def fun_eq_iff)
  ultimately show ?thesis by blast
qed

theorem arming_inverse_witness:
  "\<exists>env'. arm_child Map.empty ''/tmp/s'' (to_hex (replicate 32 0)) = Inr env' \<and> is_armed env'"
  using arming_inverse [of "Some (replicate 32 0)" "to_hex (replicate 32 0)" "''/tmp/s''" Map.empty]
  by (force simp: new_secret_def ok_or_def TOKEN_BYTES_def)

end
