(* ===== verification/Compatibility.thy ===== *)
theory Compatibility
  imports Arming
begin

text \<open>
  The verifier's probe command and the fixed table of schemas it may exercise,
  \<^verbatim>\<open>src/compatibility.rs\<close>.  The build target, \<^verbatim>\<open>cfg!(windows)\<close> and
  \<^verbatim>\<open>cfg!(target_os)\<close>, is an argument.
\<close>

datatype operating_system = OsLinux | OsMacOs | OsWindows | OsOther

fun operating_system_as_str :: "operating_system \<Rightarrow> string" where
  "operating_system_as_str OsLinux = ''Linux''"
| "operating_system_as_str OsWindows = ''Windows''"
| "operating_system_as_str OsMacOs = ''macOS''"
| "operating_system_as_str OsOther = ''other''"

text \<open>The derived orders are those of the declarations.\<close>

fun operating_system_index :: "operating_system \<Rightarrow> nat" where
  "operating_system_index OsLinux = 0"
| "operating_system_index OsMacOs = 1"
| "operating_system_index OsWindows = 2"
| "operating_system_index OsOther = 3"

instantiation operating_system :: linorder
begin

definition less_eq_operating_system :: "operating_system \<Rightarrow> operating_system \<Rightarrow> bool" where
  "less_eq_operating_system a b = (operating_system_index a \<le> operating_system_index b)"

definition less_operating_system :: "operating_system \<Rightarrow> operating_system \<Rightarrow> bool" where
  "less_operating_system a b = (operating_system_index a < operating_system_index b)"

instance
proof
  fix a b c :: operating_system
  show "(a < b) = (a \<le> b \<and> \<not> b \<le> a)" by (auto simp: less_operating_system_def less_eq_operating_system_def)
  show "a \<le> a" by (simp add: less_eq_operating_system_def)
  show "a \<le> b \<Longrightarrow> b \<le> c \<Longrightarrow> a \<le> c" by (simp add: less_eq_operating_system_def)
  show "a \<le> b \<Longrightarrow> b \<le> a \<Longrightarrow> a = b" by (cases a; cases b) (simp_all add: less_eq_operating_system_def)
  show "a \<le> b \<or> b \<le> a" by (auto simp: less_eq_operating_system_def)
qed

end

datatype surface = LocalCli

fun surface_as_str :: "surface \<Rightarrow> string" where
  "surface_as_str LocalCli = ''local CLI launcher''"

fun surface_index :: "surface \<Rightarrow> nat" where
  "surface_index LocalCli = 0"

instantiation surface :: linorder
begin

definition less_eq_surface :: "surface \<Rightarrow> surface \<Rightarrow> bool" where
  "less_eq_surface a b = (surface_index a \<le> surface_index b)"

definition less_surface :: "surface \<Rightarrow> surface \<Rightarrow> bool" where
  "less_surface a b = (surface_index a < surface_index b)"

instance
proof
  fix a b c :: surface
  show "(a < b) = (a \<le> b \<and> \<not> b \<le> a)" by (auto simp: less_surface_def less_eq_surface_def)
  show "a \<le> a" by (simp add: less_eq_surface_def)
  show "a \<le> b \<Longrightarrow> b \<le> c \<Longrightarrow> a \<le> c" by (simp add: less_eq_surface_def)
  show "a \<le> b \<Longrightarrow> b \<le> a \<Longrightarrow> a = b" by (cases a; cases b) (simp_all add: less_eq_surface_def)
  show "a \<le> b \<or> b \<le> a" by (auto simp: less_eq_surface_def)
qed

end

definition SUPPORTED_HOOK_PROTOCOL :: string where
  "SUPPORTED_HOOK_PROTOCOL = PROTOCOL_VERSION"

fun VERIFICATION_CURL :: "operating_system \<Rightarrow> string" where
  "VERIFICATION_CURL os = (if os = OsWindows then ''curl.exe'' else ''curl'')"

definition probe_prefix :: "operating_system \<Rightarrow> string" where
  "probe_prefix os =
     VERIFICATION_CURL os @ '' -fsSI --max-time 10 --noproxy 127.0.0.1 http://127.0.0.1:''"

definition verification_probe_command :: "operating_system \<Rightarrow> u16 \<Rightarrow> string \<Rightarrow> string option" where
  "verification_probe_command os port nonce =
     (if port = 0 \<or> length nonce \<noteq> 32 \<or>
         \<not> list_all (\<lambda>c. is_ascii_hexdigit c \<and> \<not> is_ascii_uppercase c) nonce
      then None
      else Some (VERIFICATION_CURL os @
        '' -fsSI --max-time 10 --noproxy 127.0.0.1 http://127.0.0.1:'' @
        show_nat (unat port) @ ''/'' @ nonce))"

definition is_verification_probe_command :: "operating_system \<Rightarrow> string \<Rightarrow> bool" where
  "is_verification_probe_command os command =
     (case strip_prefix (probe_prefix os) command of None \<Rightarrow> False
      | Some endpoint \<Rightarrow>
          (case split_once (CHR ''/'') endpoint of None \<Rightarrow> False
           | Some (port, nonce) \<Rightarrow>
               (case (parse_word port :: u16 option) of None \<Rightarrow> False
                | Some p \<Rightarrow> verification_probe_command os p nonce = Some command)))"

record verification_target =
  target_version :: string
  target_operating_system_of :: operating_system
  target_surface_of :: surface
  target_hook_protocol :: string
  target_observed_tool_type :: string

definition verification_schema_for :: "string \<Rightarrow> string \<Rightarrow> operating_system \<Rightarrow> bool" where
  "verification_schema_for version tool os =
     (if tool \<noteq> ''Bash'' then False
      else case os of
        OsLinux \<Rightarrow> version \<in> {''0.151.0'', ''0.152.1'', ''0.156.0'', ''0.156.1''}
      | OsWindows \<Rightarrow> version \<in> {''0.152.1'', ''0.156.0'', ''0.156.1''}
      | OsMacOs \<Rightarrow> False
      | OsOther \<Rightarrow> False)"

definition verification_schema :: "operating_system \<Rightarrow> string \<Rightarrow> string \<Rightarrow> bool" where
  "verification_schema current version tool = verification_schema_for version tool current"

definition resolved_verification_target ::
    "operating_system \<Rightarrow> string \<Rightarrow> verification_target option" where
  "resolved_verification_target current version =
     (if \<not> verification_schema current version ''Bash'' then None
      else Some \<lparr>target_version = version, target_operating_system_of = current,
                 target_surface_of = LocalCli,
                 target_hook_protocol = SUPPORTED_HOOK_PROTOCOL,
                 target_observed_tool_type = ''Bash''\<rparr>)"

definition verification_version_matches :: "string \<Rightarrow> verification_target \<Rightarrow> bool" where
  "verification_version_matches actual target = (actual = target_version target)"

lemma lower_hex_chars:
  "list_all (\<lambda>c. is_ascii_hexdigit c \<and> \<not> is_ascii_uppercase c) s = list_all is_lower_hex s"
  unfolding is_lower_hex_iff by (rule refl)

lemma verification_probe_command_Some:
  "(verification_probe_command os port nonce = Some command) =
     (port \<noteq> 0 \<and> length nonce = 32 \<and> list_all is_lower_hex nonce \<and>
      command = probe_prefix os @ show_nat (unat port) @ ''/'' @ nonce)"
  by (auto simp: verification_probe_command_def lower_hex_chars probe_prefix_def)

lemma split_once_show_nat:
  "split_once (CHR ''/'') (show_nat n @ CHR ''/'' # s) = Some (show_nat n, s)"
  by (rule split_once_append) (rule show_nat_no_char, simp add: byte_def)

text \<open>The probe commands are exactly the ones with a port and a nonce.\<close>

lemma is_verification_probe_command_iff:
  "is_verification_probe_command os command =
     (\<exists>port nonce. verification_probe_command os port nonce = Some command)"
proof
  assume "is_verification_probe_command os command"
  then show "\<exists>port nonce. verification_probe_command os port nonce = Some command"
    by (auto simp: is_verification_probe_command_def split: option.splits)
next
  assume "\<exists>port nonce. verification_probe_command os port nonce = Some command"
  then obtain port nonce where c: "verification_probe_command os port nonce = Some command" by blast
  then have "command = probe_prefix os @ show_nat (unat port) @ CHR ''/'' # nonce"
    by (simp add: verification_probe_command_Some)
  then have "strip_prefix (probe_prefix os) command = Some (show_nat (unat port) @ CHR ''/'' # nonce)"
    by (simp add: strip_prefix_def)
  then show "is_verification_probe_command os command"
    using c by (simp add: is_verification_probe_command_def split_once_show_nat parse_word_show)
qed

section \<open>Properties\<close>

text \<open>A command passes for a verification probe exactly when it is the curl call on a local
  port other than zero and a nonce of 32 lower case hexadecimal digits, with nothing before,
  between or after.\<close>

theorem probe_command_exact:
  "is_verification_probe_command os command =
     (\<exists>port nonce. port \<noteq> 0 \<and> length nonce = 32 \<and> list_all is_lower_hex nonce \<and>
        command = probe_prefix os @ show_nat (unat (port :: u16)) @ ''/'' @ nonce)"
  unfolding is_verification_probe_command_iff verification_probe_command_Some by blast

end
