(* ===== verification/Codex.thy ===== *)
theory Codex
  imports Compatibility
begin

text \<open>
  The installed Codex, \<^verbatim>\<open>src/codex.rs\<close>: its version text, the two capability probes, the
  bounded run of a probe, and the hook configuration that is handed to it.  The outcome of
  running a command is an argument; a path is its text.
\<close>

section \<open>Versions\<close>

definition parse_version :: "string \<Rightarrow> string option" where
  "parse_version output =
     (case split_whitespace output of
        [name, token] \<Rightarrow>
          (if name \<noteq> ''codex-cli'' then None
           else let candidate = (case strip_prefix ''v'' token of None \<Rightarrow> token | Some t \<Rightarrow> t);
                    parts = split_on (CHR ''.'') candidate
                in if length parts = 3 \<and>
                      list_all (\<lambda>part. part \<noteq> [] \<and> (length part = 1 \<or> \<not> starts_with ''0'' part) \<and>
                        list_all is_ascii_digit part) parts
                   then Some candidate else None)
      | _ \<Rightarrow> None)"

text \<open>A version text is three canonical decimals; the parser reads it behind the name.\<close>

definition version_text :: "string \<Rightarrow> bool" where
  "version_text s = (\<exists>a b c. s = a @ ''.'' @ b @ ''.'' @ c \<and>
     canonical_decimal a \<and> canonical_decimal b \<and> canonical_decimal c)"

section \<open>Probes\<close>

record probe_output =
  probe_success :: bool
  probe_stdout :: string
  probe_stderr :: string

definition CAPABILITY_OUTPUT_LIMIT :: nat where
  "CAPABILITY_OUTPUT_LIMIT = 64 * 1024"

datatype hook_capability =
    ReviewedLiveEvidence
  | SupportedByConfigurationProbe
  | Unsupported string
  | Inconclusive string
  | NotChecked string

fun hook_capability_as_str :: "hook_capability \<Rightarrow> string" where
  "hook_capability_as_str ReviewedLiveEvidence = ''supported by reviewed live evidence''"
| "hook_capability_as_str SupportedByConfigurationProbe =
     ''supported by non-live configuration probe''"
| "hook_capability_as_str (Unsupported r) = ''unsupported by capability probe''"
| "hook_capability_as_str (Inconclusive r) = ''capability probe inconclusive''"
| "hook_capability_as_str (NotChecked r) = ''not checked''"

fun hook_capability_reason :: "hook_capability \<Rightarrow> string option" where
  "hook_capability_reason (Unsupported reason) = Some reason"
| "hook_capability_reason (Inconclusive reason) = Some reason"
| "hook_capability_reason (NotChecked reason) = Some reason"
| "hook_capability_reason _ = None"

definition output_size :: "probe_output \<Rightarrow> nat" where
  "output_size output = length (probe_stdout output) + length (probe_stderr output)"

definition output_contains :: "probe_output \<Rightarrow> string \<Rightarrow> bool" where
  "output_contains output needle =
     (contains_sub needle (probe_stdout output) \<or> contains_sub needle (probe_stderr output))"

definition hooks_feature_is_stable_and_enabled :: "probe_output \<Rightarrow> bool" where
  "hooks_feature_is_stable_and_enabled output =
     list_ex (\<lambda>line. let fields = split_whitespace line in
         3 \<le> length fields \<and> fields ! 0 = ''hooks'' \<and> fields ! 1 = ''stable'' \<and> fields ! 2 = ''true'')
       (text_lines (probe_stdout output) @ text_lines (probe_stderr output))"

text \<open>The two runs of Codex, \<^const>\<open>None\<close> when the probe could not run.\<close>

definition detect_hook_capability :: "probe_output option \<Rightarrow> probe_output option \<Rightarrow> hook_capability" where
  "detect_hook_capability config_run feature_run =
     (case config_run of
        None \<Rightarrow> Inconclusive ''the configuration probe could not run''
      | Some config_output \<Rightarrow>
      if \<not> probe_success config_output
      then Unsupported ''the installed Codex rejected the child-local hook configuration''
      else if CAPABILITY_OUTPUT_LIMIT < output_size config_output \<or>
              \<not> output_contains config_output ''-c, --config''
      then Inconclusive
        ''the configuration probe did not expose the required --config interface''
      else (case feature_run of
        None \<Rightarrow> Inconclusive ''the hooks feature probe could not run''
      | Some feature_output \<Rightarrow>
      if \<not> probe_success feature_output
      then Inconclusive ''the installed Codex does not expose a usable feature-list probe''
      else if CAPABILITY_OUTPUT_LIMIT < output_size feature_output
      then Inconclusive ''the hooks feature probe output was too large''
      else if \<not> hooks_feature_is_stable_and_enabled feature_output
      then Unsupported ''the installed Codex did not report stable, enabled hooks''
      else SupportedByConfigurationProbe))"

text \<open>\<^verbatim>\<open>version\<close>: the run of \<^verbatim>\<open>--version\<close>, bounded and successful, is parsed.\<close>

definition version_of_output :: "probe_output option \<Rightarrow> string option" where
  "version_of_output run =
     (case run of None \<Rightarrow> None
      | Some output \<Rightarrow>
          (if CAPABILITY_OUTPUT_LIMIT < output_size output then None
           else if \<not> probe_success output then None
           else parse_version (probe_stdout output)))"

section \<open>The bounded run\<close>

text \<open>
  One round of the polling loop sees the lengths of the two output files or an error, what
  \<^verbatim>\<open>try_wait\<close> returns and whether the deadline has passed.  The loop ends with a status or
  an error; \<^const>\<open>None\<close> is a loop that is still polling when the rounds given are used up.
\<close>

datatype probe_error =
    ProbeTooLarge | ProbeMetadata | ProbeTimedOut | ProbeWait | ProbeStop
  | ProbeErrorAndStop probe_error

record probe_round =
  round_sizes :: "(u64 \<times> u64) option"
  round_wait :: "bool option option"
  round_deadline :: bool

text \<open>\<^term>\<open>round_wait\<close> is \<^const>\<open>None\<close> for an error, \<^term>\<open>Some None\<close> for a child that is
  running and \<^term>\<open>Some (Some s)\<close> for one that has exited, \<^term>\<open>s\<close> telling a success.\<close>

fun probe_loop :: "probe_round list \<Rightarrow> (probe_error, bool) result option" where
  "probe_loop [] = None"
| "probe_loop (r # rs) =
     (case round_sizes r of
        None \<Rightarrow> Some (Inl ProbeMetadata)
      | Some (out, err) \<Rightarrow>
          if word_of_nat CAPABILITY_OUTPUT_LIMIT < saturating_add out err then Some (Inl ProbeTooLarge)
          else (case round_wait r of
            Some (Some status) \<Rightarrow> Some (Inr status)
          | Some None \<Rightarrow> if round_deadline r then Some (Inl ProbeTimedOut) else probe_loop rs
          | None \<Rightarrow> Some (Inl ProbeWait)))"

definition read_probe_output :: "string \<Rightarrow> string" where
  "read_probe_output stream = take (CAPABILITY_OUTPUT_LIMIT + 1) stream"

text \<open>After the loop the whole tree is stopped, whatever the loop ended with.  The contents of
  the two files after that are arguments; reading them does not fail here.\<close>

definition bounded_output_with_timeout ::
    "probe_round list \<Rightarrow> bool \<Rightarrow> string \<Rightarrow> string \<Rightarrow> (probe_error, probe_output) result option" where
  "bounded_output_with_timeout rounds stop_ok out err =
     (case probe_loop rounds of None \<Rightarrow> None
      | Some res \<Rightarrow> Some
          (case (res, stop_ok) of
             (Inr status, True) \<Rightarrow>
               (let output = \<lparr>probe_success = status, probe_stdout = read_probe_output out,
                              probe_stderr = read_probe_output err\<rparr>
                in if CAPABILITY_OUTPUT_LIMIT < output_size output then Inl ProbeTooLarge
                   else Inr output)
           | (Inl e, True) \<Rightarrow> Inl e
           | (Inr status, False) \<Rightarrow> Inl ProbeStop
           | (Inl e, False) \<Rightarrow> Inl (ProbeErrorAndStop e)))"

section \<open>The hook configuration\<close>

definition shell_quote :: "operating_system \<Rightarrow> string \<Rightarrow> string" where
  "shell_quote os value =
     (if os = OsWindows then ''\"'' @ replace_char (CHR 0x22) [CHR 0x5C, CHR 0x22] value @ ''\"''
      else [CHR 0x27] @ replace_char (CHR 0x27) [CHR 0x27, CHR 0x5C, CHR 0x27, CHR 0x27] value @
        [CHR 0x27])"

definition toml_quote :: "string \<Rightarrow> string" where
  "toml_quote value =
     (let escaped =
        replace_char (CHR 0x09) [CHR 0x5C, CHR ''t'']
        (replace_char (CHR 0x0D) [CHR 0x5C, CHR ''r'']
        (replace_char (CHR 0x0A) [CHR 0x5C, CHR ''n'']
        (replace_char (CHR 0x22) [CHR 0x5C, CHR 0x22]
        (replace_char (CHR 0x5C) [CHR 0x5C, CHR 0x5C] value))))
      in [CHR 0x22] @ escaped @ [CHR 0x22])"

text \<open>The canonicalized path of the executable is the argument.\<close>

definition hook_command_value :: "operating_system \<Rightarrow> string \<Rightarrow> string" where
  "hook_command_value os executable =
     (let hook = shell_quote os executable @ '' hook'' in
      if os = OsWindows
      then ''hooks.PermissionRequest=[{hooks=[{type='' @ [CHR 0x22] @ ''command'' @ [CHR 0x22] @
        '',command='' @ [CHR 0x22, CHR 0x22] @ '',commandWindows='' @ toml_quote hook @ ''}]}]''
      else ''hooks.PermissionRequest=[{hooks=[{type='' @ [CHR 0x22] @ ''command'' @ [CHR 0x22] @
        '',command='' @ toml_quote hook @ ''}]}]'')"

definition hook_config_snippet :: "operating_system \<Rightarrow> string \<Rightarrow> string" where
  "hook_config_snippet os executable =
     (let hook = shell_quote os executable @ '' hook'' in
      ''[[hooks.PermissionRequest]]'' @ [CHR 0x0A, CHR 0x0A] @
      ''[[hooks.PermissionRequest.hooks]]'' @ [CHR 0x0A] @ ''type = '' @ [CHR 0x22] @ ''command'' @
      [CHR 0x22, CHR 0x0A] @
      (if os = OsWindows then ''commandWindows = '' else ''command = '') @ toml_quote hook @
      [CHR 0x0A])"

datatype launcher_kind = Executable | CmdLauncher | Ps1Launcher | OtherLauncher

definition launcher_kind_of :: "string option \<Rightarrow> launcher_kind" where
  "launcher_kind_of extension =
     (case map_option (map to_ascii_lowercase) extension of
        None \<Rightarrow> OtherLauncher
      | Some e \<Rightarrow>
          if e = ''exe'' then Executable
          else if e = ''cmd'' then CmdLauncher
          else if e = ''ps1'' then Ps1Launcher else OtherLauncher)"

record installation =
  installation_path :: string
  installation_native_path :: "string option"
  installation_version :: string
  installation_version_diagnostic :: "string option"
  installation_launcher_kind :: launcher_kind

definition UNKNOWN_VERSION :: string where
  "UNKNOWN_VERSION = ''unknown''"

type_synonym command_line = "string list"

definition build_codex_command :: "installation \<Rightarrow> command_line" where
  "build_codex_command i =
     (case installation_launcher_kind i of
        Ps1Launcher \<Rightarrow> [''powershell'', ''-NoProfile'', ''-NonInteractive'', ''-ExecutionPolicy'',
          ''Bypass'', ''-File'', installation_path i]
      | _ \<Rightarrow> [installation_path i])"

definition build_probe_command :: "installation \<Rightarrow> command_line" where
  "build_probe_command i =
     (case installation_native_path i of None \<Rightarrow> build_codex_command i | Some p \<Rightarrow> [p])"

section \<open>Reading the configuration back\<close>

text \<open>
  What a POSIX shell makes of a command line that has only quotes, escapes, blanks and plain
  characters: its words.  Any other character that is special to the shell, outside quotes, has
  no meaning here.
\<close>

datatype shell_state = Between | InWord string | InQuote string | AfterBackslash string

definition shell_plain :: "char \<Rightarrow> bool" where
  "shell_plain c = (is_ascii_alphanumeric c \<or> c \<in> {CHR ''-'', CHR ''_'', CHR ''.'', CHR ''/''})"

fun shell_char :: "string \<Rightarrow> string list \<Rightarrow> char \<Rightarrow> (shell_state \<times> string list) option" where
  "shell_char w ws c =
     (if c = CHR 0x27 then Some (InQuote w, ws)
      else if c = CHR 0x5C then Some (AfterBackslash w, ws)
      else if shell_plain c then Some (InWord (w @ [c]), ws) else None)"

fun shell_step :: "shell_state \<Rightarrow> string list \<Rightarrow> char \<Rightarrow> (shell_state \<times> string list) option" where
  "shell_step Between ws c = (if c = CHR '' '' then Some (Between, ws) else shell_char [] ws c)"
| "shell_step (InWord w) ws c =
     (if c = CHR '' '' then Some (Between, ws @ [w]) else shell_char w ws c)"
| "shell_step (InQuote w) ws c =
     (if c = CHR 0x27 then Some (InWord w, ws) else Some (InQuote (w @ [c]), ws))"
| "shell_step (AfterBackslash w) ws c =
     (if c = CHR 0x0A then None else Some (InWord (w @ [c]), ws))"

fun shell_run :: "shell_state \<Rightarrow> string list \<Rightarrow> string \<Rightarrow> string list option" where
  "shell_run Between ws [] = Some ws"
| "shell_run (InWord w) ws [] = Some (ws @ [w])"
| "shell_run (InQuote w) ws [] = None"
| "shell_run (AfterBackslash w) ws [] = None"
| "shell_run st ws (c # s) =
     (case shell_step st ws c of None \<Rightarrow> None | Some (st', ws') \<Rightarrow> shell_run st' ws' s)"

abbreviation shell_words :: "string \<Rightarrow> string list option" where
  "shell_words s \<equiv> shell_run Between [] s"

lemma replace_char_Nil [simp]: "replace_char c r [] = []"
  by (simp add: replace_char_def)

lemma replace_char_Cons: "replace_char c r (x # s) = (if x = c then r else [x]) @ replace_char c r s"
  by (simp add: replace_char_def)

lemma replace_char_append: "replace_char c r (s @ t) = replace_char c r s @ replace_char c r t"
  by (simp add: replace_char_def)

lemma shell_run_quoted:
  "shell_run (InQuote w) ws (replace_char (CHR 0x27) [CHR 0x27, CHR 0x5C, CHR 0x27, CHR 0x27] p @
     CHR 0x27 # s) = shell_run (InWord (w @ p)) ws s"
  by (induction p arbitrary: w) (simp_all add: replace_char_Cons)

text \<open>TOML's basic strings: the five escapes the quoting uses; a raw character may not be a
  control character other than a tab.\<close>

definition toml_raw :: "char \<Rightarrow> bool" where
  "toml_raw c = ((32 \<le> byte c \<and> byte c \<noteq> 127) \<or> byte c = 9)"

fun toml_chars :: "string \<Rightarrow> string option" where
  "toml_chars [] = None"
| "toml_chars (c # s) =
     (if c = CHR 0x22 then (if s = [] then Some [] else None)
      else if c = CHR 0x5C then
        (case s of [] \<Rightarrow> None
         | e # t \<Rightarrow>
             (if e = CHR 0x5C then map_option ((#) (CHR 0x5C)) (toml_chars t)
              else if e = CHR 0x22 then map_option ((#) (CHR 0x22)) (toml_chars t)
              else if e = CHR ''n'' then map_option ((#) (CHR 0x0A)) (toml_chars t)
              else if e = CHR ''r'' then map_option ((#) (CHR 0x0D)) (toml_chars t)
              else if e = CHR ''t'' then map_option ((#) (CHR 0x09)) (toml_chars t)
              else None))
      else if toml_raw c then map_option ((#) c) (toml_chars s) else None)"

fun toml_basic_string :: "string \<Rightarrow> string option" where
  "toml_basic_string [] = None"
| "toml_basic_string (c # s) = (if c = CHR 0x22 then toml_chars s else None)"

definition toml_escape :: "char \<Rightarrow> string" where
  "toml_escape c =
     (if c = CHR 0x5C then [CHR 0x5C, CHR 0x5C]
      else if c = CHR 0x22 then [CHR 0x5C, CHR 0x22]
      else if c = CHR 0x0A then [CHR 0x5C, CHR ''n'']
      else if c = CHR 0x0D then [CHR 0x5C, CHR ''r'']
      else if c = CHR 0x09 then [CHR 0x5C, CHR ''t''] else [c])"

lemma toml_quote_escape: "toml_quote s = [CHR 0x22] @ concat (map toml_escape s) @ [CHR 0x22]"
  unfolding toml_quote_def Let_def
  by (induction s) (auto simp: replace_char_Cons replace_char_append toml_escape_def)

definition toml_expressible :: "char \<Rightarrow> bool" where
  "toml_expressible c = (toml_raw c \<or> c = CHR 0x0A \<or> c = CHR 0x0D)"

lemma toml_chars_escape:
  "toml_chars (concat (map toml_escape s) @ [CHR 0x22]) =
     (if list_all toml_expressible s then Some s else None)"
  by (induction s) (auto simp: toml_escape_def toml_expressible_def toml_raw_def byte_def)

section \<open>Version texts\<close>

lemma canonical_decimal_part:
  "(part \<noteq> [] \<and> (length part = 1 \<or> \<not> starts_with ''0'' part) \<and> list_all is_ascii_digit part) =
     canonical_decimal part"
  by (cases part) (auto simp: canonical_decimal_def)

lemma version_text_split:
  "version_text s = (length (split_on (CHR ''.'') s) = 3 \<and>
     list_all canonical_decimal (split_on (CHR ''.'') s))"
proof
  have dot: "CHR ''.'' \<notin> set a" if "canonical_decimal a" for a
    using that by (auto simp: canonical_decimal_def list_all_iff is_ascii_digit_def byte_def)
  assume "version_text s"
  then obtain a b c where "s = join_on (CHR ''.'') [a, b, c]" "canonical_decimal a"
    "canonical_decimal b" "canonical_decimal c" by (auto simp: version_text_def)
  moreover from this have "split_on (CHR ''.'') s = [a, b, c]"
    using dot split_join [of "[a, b, c]" "CHR ''.''"] by auto
  ultimately show "length (split_on (CHR ''.'') s) = 3 \<and>
     list_all canonical_decimal (split_on (CHR ''.'') s)" by simp
next
  assume s: "length (split_on (CHR ''.'') s) = 3 \<and>
     list_all canonical_decimal (split_on (CHR ''.'') s)"
  then obtain a b c where abc: "split_on (CHR ''.'') s = [a, b, c]"
    by (auto simp: eval_nat_numeral length_Suc_conv)
  then have "s = a @ ''.'' @ b @ ''.'' @ c" using join_split [of "CHR ''.''" s] by simp
  then show "version_text s" using s abc unfolding version_text_def by auto
qed

lemma version_text_no_v: "version_text s \<Longrightarrow> strip_prefix ''v'' s = None"
  by (auto simp: version_text_def canonical_decimal_def strip_prefix_def is_ascii_digit_def byte_def
      starts_with_def neq_Nil_conv)

lemma parse_version_eq:
  "parse_version output =
     (case split_whitespace output of
        [name, token] \<Rightarrow>
          (if name = ''codex-cli'' then
             (case strip_prefix ''v'' token of
                None \<Rightarrow> if version_text token then Some token else None
              | Some t \<Rightarrow> if version_text t then Some t else None)
           else None)
      | _ \<Rightarrow> None)"
  unfolding parse_version_def canonical_decimal_part version_text_split [symmetric] Let_def
  by (simp split: list.splits option.splits)

lemma parse_version_Some:
  "(parse_version output = Some v) =
     (version_text v \<and> (split_whitespace output = [''codex-cli'', v] \<or>
        split_whitespace output = [''codex-cli'', ''v'' @ v]))"
  using version_text_no_v [of v]
  by (auto simp: parse_version_eq strip_prefix_def starts_with_Cons
      split: list.splits option.splits if_splits)

lemma version_text_plain: "version_text s \<Longrightarrow> plain_token s"
proof -
  have digit: "is_ascii_digit c \<Longrightarrow> visible c" for c
    by (simp add: is_ascii_digit_def visible_def)
  have dec: "a \<noteq> [] \<and> list_all visible a" if "canonical_decimal a" for a
    using that digit by (auto simp: canonical_decimal_def list_all_iff)
  assume "version_text s"
  then obtain a b c where "s = a @ ''.'' @ b @ ''.'' @ c" "canonical_decimal a"
    "canonical_decimal b" "canonical_decimal c" unfolding version_text_def by blast
  then show ?thesis
    using dec [of a] dec [of b] dec [of c] by (simp add: plain_token_def visible_def byte_def)
qed

lemma parse_version_complete:
  assumes "version_text v"
  shows "parse_version (''codex-cli '' @ v) = Some v"
proof -
  have "plain_token ''codex-cli''"
    by (simp add: plain_token_def visible_def byte_def)
  with assms have "\<forall>t \<in> set [''codex-cli'', v]. plain_token t"
    by (simp add: version_text_plain)
  from split_whitespace_join [OF this]
  have "split_whitespace (''codex-cli '' @ v) = [''codex-cli'', v]" by simp
  then show ?thesis using assms by (simp add: parse_version_Some)
qed

section \<open>The bounded run\<close>

lemma probe_loop_ends:
  assumes "r \<in> set rs" "round_deadline r"
  shows "\<exists>res. probe_loop rs = Some res"
  using assms
  by (induction rs) (auto split: option.splits prod.splits)

lemma bounded_output_Inr:
  assumes "bounded_output_with_timeout rounds stop_ok out err = Some (Inr o')"
  shows "stop_ok \<and> probe_loop rounds = Some (Inr (probe_success o')) \<and> probe_stdout o' = out \<and>
    probe_stderr o' = err \<and> output_size o' \<le> CAPABILITY_OUTPUT_LIMIT"
proof -
  have "output_size o' \<le> CAPABILITY_OUTPUT_LIMIT" and stop: stop_ok
    and loop: "probe_loop rounds = Some (Inr (probe_success o'))"
    and o': "probe_stdout o' = read_probe_output out" "probe_stderr o' = read_probe_output err"
    using assms
    by (auto simp: bounded_output_with_timeout_def Let_def split: option.splits sum.splits bool.splits
        if_splits)
  then have "length (read_probe_output out) \<le> CAPABILITY_OUTPUT_LIMIT"
    "length (read_probe_output err) \<le> CAPABILITY_OUTPUT_LIMIT"
    by (simp_all add: output_size_def)
  then have "read_probe_output out = out" "read_probe_output err = err"
    by (auto simp: read_probe_output_def)
  with o' show ?thesis
    using \<open>output_size o' \<le> CAPABILITY_OUTPUT_LIMIT\<close> stop loop by simp
qed

section \<open>Properties\<close>

text \<open>Whatever the path of the executable is, a POSIX shell reads the hook command in the
  configuration as two words, that path and the word hook: no character of the path can end the
  quotation, split the word or start another command.\<close>

theorem hook_command_two_words:
  "shell_words (shell_quote OsLinux path @ '' hook'') = Some [path, ''hook'']"
  by (simp add: shell_quote_def shell_run_quoted shell_plain_def is_ascii_alphanumeric_def
      is_ascii_digit_def is_ascii_uppercase_def is_ascii_lowercase_def byte_def)

text \<open>The TOML string made of a value reads back as that value exactly when each of its
  characters is a line feed, a carriage return, a tab or no control character: the other control
  characters are left raw, which TOML does not allow.\<close>

theorem toml_quote_roundtrip:
  "toml_basic_string (toml_quote value) =
     (if list_all toml_expressible value then Some value else None)"
  by (simp add: toml_quote_escape toml_chars_escape)

text \<open>The version parser accepts exactly the two words codex-cli and a version of three
  decimals without leading zeros, which may follow a letter v, and returns the version.\<close>

theorem parse_version_exact:
  "(parse_version output = Some v) =
     (version_text v \<and> (split_whitespace output = [''codex-cli'', v] \<or>
        split_whitespace output = [''codex-cli'', ''v'' @ v]))"
  by (rule parse_version_Some)

text \<open>A probe whose output is used was stopped with its whole tree and exited by itself with
  at most 64 KiB of output in all, none of it cut off.\<close>

theorem bounded_output_sound:
  assumes "bounded_output_with_timeout rounds stop_ok out err = Some (Inr o')"
  shows "stop_ok \<and> probe_loop rounds = Some (Inr (probe_success o')) \<and> probe_stdout o' = out \<and>
    probe_stderr o' = err \<and> output_size o' \<le> CAPABILITY_OUTPUT_LIMIT"
  using assms by (rule bounded_output_Inr)

theorem bounded_output_sound_witness:
  "output_size \<lparr>probe_success = True, probe_stdout = ''codex-cli 0.1.2'', probe_stderr = []\<rparr>
     \<le> CAPABILITY_OUTPUT_LIMIT"
proof -
  have "bounded_output_with_timeout
      [\<lparr>round_sizes = Some (0, 0), round_wait = Some None, round_deadline = False\<rparr>,
       \<lparr>round_sizes = Some (15, 0), round_wait = Some (Some True), round_deadline = False\<rparr>]
      True ''codex-cli 0.1.2'' [] =
    Some (Inr \<lparr>probe_success = True, probe_stdout = ''codex-cli 0.1.2'', probe_stderr = []\<rparr>)"
    by (simp add: bounded_output_with_timeout_def saturating_add_def CAPABILITY_OUTPUT_LIMIT_def
        output_size_def read_probe_output_def)
  from bounded_output_sound [OF this] show ?thesis by simp
qed

end
