(* ===== verification/Certification.thy ===== *)
theory Certification
  imports Protocol Codex
begin

text \<open>
  The embedded compatibility manifest, the only source of production approval authority,
  \<^verbatim>\<open>src/certification.rs\<close>.
\<close>

section \<open>Types\<close>

record target =
  target_codex_version :: string
  target_os :: string
  target_arch :: string
  target_os_release :: string
  target_os_build :: string
  target_sandbox :: string
  target_surface :: string
  target_protocol :: string
  target_tool :: string
  codex_binary_sha256 :: string
  codex_bundle_sha256 :: string
  launch_kind :: string
  launch_artifact_sha256 :: string
  launch_package_sha256 :: string

record certificate =
  evidence_id :: string
  certificate_target :: target

record cert_manifest =
  schema_version :: u32
  autoapprover_version :: string
  entries :: "certificate list"
  revoked_artifact_sha256 :: "string list"

datatype certification_error =
    ManifestFields
  | ManifestDecode
  | UnsupportedManifest
  | UnsupportedTarget
  | SandboxMismatch
  | BadCertificate
  | RevokedArtifact
  | BadRevocation
  | InstallerManifest
  | InstallerRead

definition CARGO_PKG_VERSION :: string where
  "CARGO_PKG_VERSION = ''0.1.0''"

section \<open>Validation\<close>

definition is_sha256 :: "string \<Rightarrow> bool" where
  "is_sha256 value =
     (length value = 64 \<and>
      list_all (\<lambda>c. is_ascii_digit c \<or> (byte (CHR ''a'') \<le> byte c \<and> byte c \<le> byte (CHR ''f''))) value)"

definition artifact_digests :: "target \<Rightarrow> string list" where
  "artifact_digests t =
     [codex_binary_sha256 t, codex_bundle_sha256 t, launch_artifact_sha256 t,
      launch_package_sha256 t]"

definition target_validate :: "target \<Rightarrow> (certification_error, unit) result" where
  "target_validate t =
     (if parse_version (''codex-cli '' @ target_codex_version t) = None \<or>
         target_arch t \<notin> {''x86_64'', ''aarch64''} \<or>
         target_os_release t = [] \<or>
         target_os_build t = [] \<or>
         target_surface t \<noteq> ''native-cli'' \<or>
         target_protocol t \<noteq> PROTOCOL_VERSION \<or>
         target_tool t \<noteq> ''Bash'' \<or>
         \<not> is_sha256 (codex_binary_sha256 t) \<or>
         \<not> is_sha256 (codex_bundle_sha256 t) \<or>
         \<not> is_sha256 (launch_artifact_sha256 t) \<or>
         \<not> is_sha256 (launch_package_sha256 t) \<or>
         launch_kind t \<notin> {''native'', ''npm-bin'', ''npm-cmd'', ''npm-ps1''} \<or>
         (target_os t, launch_kind t) \<notin>
           {(''linux'', ''native''), (''linux'', ''npm-bin''), (''windows'', ''native''),
            (''windows'', ''npm-cmd''), (''windows'', ''npm-ps1'')}
      then Inl UnsupportedTarget
      else if (target_os t, target_sandbox t) \<notin>
           {(''linux'', ''linux-bwrap''), (''linux'', ''linux-landlock''),
            (''windows'', ''windows-elevated''), (''windows'', ''windows-unelevated'')}
      then Inl SandboxMismatch
      else Inr ())"

text \<open>The loops over the entries and over the revocations; the sets are what has been inserted
  so far, and a bail leaves the loop at once.\<close>

fun validate_entries :: "string list \<Rightarrow> string set \<Rightarrow> target set \<Rightarrow> certificate list
    \<Rightarrow> (certification_error, unit) result" where
  "validate_entries revoked ids targets [] = Inr ()"
| "validate_entries revoked ids targets (entry # es) =
     and_then (target_validate (certificate_target entry)) (\<lambda>_.
       if evidence_id entry = [] \<or>
          \<not> list_all (\<lambda>b. is_ascii_alphanumeric b \<or> b = CHR ''-'') (evidence_id entry) \<or>
          evidence_id entry \<in> ids \<or>
          certificate_target entry \<in> targets
       then Inl BadCertificate
       else if list_ex (\<lambda>digest. list_ex (\<lambda>item. item = digest) revoked)
                 (artifact_digests (certificate_target entry))
       then Inl RevokedArtifact
       else validate_entries revoked (insert (evidence_id entry) ids)
              (insert (certificate_target entry) targets) es)"

fun validate_revocations :: "string set \<Rightarrow> string list \<Rightarrow> (certification_error, unit) result" where
  "validate_revocations seen [] = Inr ()"
| "validate_revocations seen (digest # ds) =
     (if \<not> is_sha256 digest \<or> digest \<in> seen then Inl BadRevocation
      else validate_revocations (insert digest seen) ds)"

definition cert_manifest_validate :: "cert_manifest \<Rightarrow> (certification_error, unit) result" where
  "cert_manifest_validate m =
     (if schema_version m \<noteq> 2 \<or> autoapprover_version m \<noteq> CARGO_PKG_VERSION
      then Inl UnsupportedManifest
      else and_then (validate_entries (revoked_artifact_sha256 m) {} {} (entries m)) (\<lambda>_.
        validate_revocations {} (revoked_artifact_sha256 m)))"

definition admits :: "cert_manifest \<Rightarrow> target \<Rightarrow> bool" where
  "admits m observed =
     (is_ok (cert_manifest_validate m) \<and>
      is_ok (target_validate observed) \<and>
      \<not> list_ex (\<lambda>digest. list_ex (\<lambda>item. item = digest) (revoked_artifact_sha256 m))
          (artifact_digests observed) \<and>
      list_ex (\<lambda>entry. certificate_target entry = observed) (entries m))"

section \<open>The embedded manifest\<close>

fun u32_decode :: "json \<Rightarrow> u32 option" where
  "u32_decode (JNumber (PosInt n)) = (if unat n < 2 ^ 32 then Some (ucast n) else None)"
| "u32_decode _ = None"

fun vec_decode :: "(json \<Rightarrow> 'a option) \<Rightarrow> json \<Rightarrow> 'a list option" where
  "vec_decode dec (JArray vs) =
     (if list_all (\<lambda>v. dec v \<noteq> None) vs then Some (map (\<lambda>v. the (dec v)) vs) else None)"
| "vec_decode dec _ = None"

definition target_field_names :: "string list" where
  "target_field_names =
     [''codex_version'', ''os'', ''arch'', ''os_release'', ''os_build'', ''sandbox'', ''surface'',
      ''protocol'', ''tool'', ''codex_binary_sha256'', ''codex_bundle_sha256'', ''launch_kind'',
      ''launch_artifact_sha256'', ''launch_package_sha256'']"

definition target_decode :: "json \<Rightarrow> target option" where
  "target_decode v =
     (case struct_fields target_field_names v of None \<Rightarrow> None | Some f \<Rightarrow>
        bind_field f ''codex_version'' as_str (\<lambda>version.
        bind_field f ''os'' as_str (\<lambda>os.
        bind_field f ''arch'' as_str (\<lambda>arch.
        bind_field f ''os_release'' as_str (\<lambda>release.
        bind_field f ''os_build'' as_str (\<lambda>build.
        bind_field f ''sandbox'' as_str (\<lambda>sandbox.
        bind_field f ''surface'' as_str (\<lambda>surface.
        bind_field f ''protocol'' as_str (\<lambda>protocol.
        bind_field f ''tool'' as_str (\<lambda>tool.
        bind_field f ''codex_binary_sha256'' as_str (\<lambda>binary.
        bind_field f ''codex_bundle_sha256'' as_str (\<lambda>bundle.
        bind_field f ''launch_kind'' as_str (\<lambda>kind.
        bind_field f ''launch_artifact_sha256'' as_str (\<lambda>artifact.
        bind_field f ''launch_package_sha256'' as_str (\<lambda>package.
        Some \<lparr>target_codex_version = version, target_os = os, target_arch = arch,
              target_os_release = release, target_os_build = build, target_sandbox = sandbox,
              target_surface = surface, target_protocol = protocol, target_tool = tool,
              codex_binary_sha256 = binary, codex_bundle_sha256 = bundle, launch_kind = kind,
              launch_artifact_sha256 = artifact,
              launch_package_sha256 = package\<rparr>)))))))))))))))"

definition certificate_decode :: "json \<Rightarrow> certificate option" where
  "certificate_decode v =
     (case struct_fields [''evidence_id'', ''target''] v of None \<Rightarrow> None | Some f \<Rightarrow>
        bind_field f ''evidence_id'' as_str (\<lambda>id.
        bind_field f ''target'' target_decode (\<lambda>t.
        Some \<lparr>evidence_id = id, certificate_target = t\<rparr>)))"

definition cert_manifest_decode :: "json \<Rightarrow> cert_manifest option" where
  "cert_manifest_decode v =
     (case struct_fields
         [''schema_version'', ''autoapprover_version'', ''entries'', ''revoked_artifact_sha256''] v
      of None \<Rightarrow> None | Some f \<Rightarrow>
        bind_field f ''schema_version'' u32_decode (\<lambda>schema.
        bind_field f ''autoapprover_version'' as_str (\<lambda>version.
        bind_field f ''entries'' (vec_decode certificate_decode) (\<lambda>es.
        bind_field f ''revoked_artifact_sha256'' (vec_decode as_str) (\<lambda>revoked.
        Some \<lparr>schema_version = schema, autoapprover_version = version, entries = es,
              revoked_artifact_sha256 = revoked\<rparr>)))))"

definition cert_manifest_parse ::
    "tokenizer \<Rightarrow> string \<Rightarrow> (certification_error, cert_manifest) result" where
  "cert_manifest_parse tok bytes =
     and_then (map_err (\<lambda>_. ManifestFields) (parse_unique_object tok bytes)) (\<lambda>value.
     and_then (ok_or ManifestDecode (cert_manifest_decode value)) (\<lambda>manifest.
     and_then (cert_manifest_validate manifest) (\<lambda>_. Inr manifest)))"

text \<open>The text of \<^verbatim>\<open>compatibility/manifest.json\<close>, which the build embeds, line by line.\<close>

definition MANIFEST_BYTES :: string where
  "MANIFEST_BYTES = unlines
     [''{'',
      ''  \"schema_version\": 2,'',
      ''  \"autoapprover_version\": \"0.1.0\",'',
      ''  \"entries\": [],'',
      ''  \"revoked_artifact_sha256\": []'',
      ''}'']"

definition embedded :: "tokenizer \<Rightarrow> (certification_error, cert_manifest) result" where
  "embedded tok = cert_manifest_parse tok MANIFEST_BYTES"

text \<open>\<^verbatim>\<open>verify_manifest_file\<close>: the file is read up to one byte past a mebibyte.\<close>

definition verify_manifest_file ::
    "tokenizer \<Rightarrow> string option \<Rightarrow> (certification_error, int) result" where
  "verify_manifest_file tok contents =
     (case contents of None \<Rightarrow> Inl InstallerRead
      | Some file \<Rightarrow>
          (let bytes = take (1024 * 1024 + 1) file in
           if 1024 * 1024 < length bytes then Inl InstallerManifest
           else and_then (cert_manifest_parse tok bytes) (\<lambda>m.
             and_then (embedded tok) (\<lambda>e.
               if m \<noteq> e then Inl InstallerManifest else Inr 0))))"

section \<open>What a valid manifest satisfies\<close>

definition target_ok :: "target \<Rightarrow> bool" where
  "target_ok t = (target_validate t = Inr ())"

lemma target_validate_Inr [result_simps]: "(target_validate t = Inr u) = target_ok t"
  by (simp add: target_ok_def)

lemma validate_entries_Inr [result_simps]:
  "(validate_entries revoked ids targets es = Inr ()) =
     ((\<forall>e \<in> set es. target_ok (certificate_target e) \<and> evidence_id e \<noteq> [] \<and>
        list_all (\<lambda>b. is_ascii_alphanumeric b \<or> b = CHR ''-'') (evidence_id e) \<and>
        set (artifact_digests (certificate_target e)) \<inter> set revoked = {}) \<and>
      distinct (map evidence_id es) \<and> evidence_id ` set es \<inter> ids = {} \<and>
      distinct (map certificate_target es) \<and> certificate_target ` set es \<inter> targets = {})"
proof (induction es arbitrary: ids targets)
  case (Cons e es)
  have digests: "list_ex (\<lambda>digest. list_ex (\<lambda>item. item = digest) revoked)
      (artifact_digests (certificate_target e)) =
    (set (artifact_digests (certificate_target e)) \<inter> set revoked \<noteq> {})"
    by (auto simp: list_ex_iff)
  show ?case
    by (simp add: and_then_Inr target_validate_Inr Cons.IH digests) auto
qed simp

lemma validate_revocations_Inr [result_simps]:
  "(validate_revocations seen ds = Inr u) =
     (list_all is_sha256 ds \<and> distinct ds \<and> set ds \<inter> seen = {})"
  by (induction ds arbitrary: seen) auto

text \<open>For a valid manifest, admission is membership: validity already excludes a revoked or an
  ill-formed target.\<close>

lemma admits_iff:
  "admits m t = (cert_manifest_validate m = Inr () \<and> t \<in> certificate_target ` set (entries m))"
proof
  assume "admits m t"
  then show "cert_manifest_validate m = Inr () \<and> t \<in> certificate_target ` set (entries m)"
    by (auto simp: admits_def is_ok_iff list_ex_iff)
next
  assume m: "cert_manifest_validate m = Inr () \<and> t \<in> certificate_target ` set (entries m)"
  then have "validate_entries (revoked_artifact_sha256 m) {} {} (entries m) = Inr ()"
    by (auto simp: cert_manifest_validate_def result_simps split: if_splits)
  then have "target_ok t" "set (artifact_digests t) \<inter> set (revoked_artifact_sha256 m) = {}"
    using m by (auto simp: validate_entries_Inr)
  then show "admits m t"
    using m by (auto simp: admits_def is_ok_iff list_ex_iff target_ok_def)
qed

section \<open>Properties\<close>

text \<open>A manifest admits a target exactly when the manifest is valid and lists it: in a valid
  manifest every listed target is complete and none of its four digests is revoked.\<close>

theorem admits_is_membership:
  "admits m t = (cert_manifest_validate m = Inr () \<and> t \<in> certificate_target ` set (entries m))"
  by (rule admits_iff)

text \<open>In a valid manifest no certificate or target is listed twice, every target is complete
  for its platform, and no artifact digest of a target is among the revoked ones, which are
  themselves well formed and listed once.\<close>

theorem valid_manifest_no_revoked:
  assumes "cert_manifest_validate m = Inr ()"
  shows "distinct (map evidence_id (entries m)) \<and> distinct (map certificate_target (entries m)) \<and>
    (\<forall>e \<in> set (entries m). target_validate (certificate_target e) = Inr () \<and>
      set (artifact_digests (certificate_target e)) \<inter> set (revoked_artifact_sha256 m) = {}) \<and>
    distinct (revoked_artifact_sha256 m) \<and> list_all is_sha256 (revoked_artifact_sha256 m)"
  using assms by (auto simp: cert_manifest_validate_def result_simps split: if_splits)

definition example_target :: target where
  "example_target =
     \<lparr>target_codex_version = ''0.156.1'', target_os = ''linux'', target_arch = ''x86_64'',
      target_os_release = ''6.8'', target_os_build = ''1'', target_sandbox = ''linux-bwrap'',
      target_surface = ''native-cli'', target_protocol = ''permission-request-v1'',
      target_tool = ''Bash'', codex_binary_sha256 = replicate 64 (CHR ''a''),
      codex_bundle_sha256 = replicate 64 (CHR ''b''), launch_kind = ''native'',
      launch_artifact_sha256 = replicate 64 (CHR ''c''),
      launch_package_sha256 = replicate 64 (CHR ''d'')\<rparr>"

definition example_cert_manifest :: cert_manifest where
  "example_cert_manifest =
     \<lparr>schema_version = 2, autoapprover_version = ''0.1.0'',
      entries = [\<lparr>evidence_id = ''run-1'', certificate_target = example_target\<rparr>],
      revoked_artifact_sha256 = [replicate 64 (CHR ''e'')]\<rparr>"

lemma replicate_sha256 [simp]:
  "is_sha256 (replicate 64 c) = (is_ascii_digit c \<or> (97 \<le> byte c \<and> byte c \<le> 102))"
  by (simp add: is_sha256_def byte_def list_all_iff)

lemma example_target_ok: "target_ok example_target"
proof -
  have "version_text ''0.156.1''"
    by (simp add: version_text_split canonical_decimal_def text_eval)
  then have "parse_version (''codex-cli '' @ ''0.156.1'') = Some ''0.156.1''"
    by (rule parse_version_complete)
  then show ?thesis
    by (simp add: target_ok_def target_validate_def example_target_def PROTOCOL_VERSION_def text_eval)
qed

lemma example_cert_manifest_valid: "cert_manifest_validate example_cert_manifest = Inr ()"
proof -
  have "artifact_digests example_target = map (replicate 64) [CHR ''a'', CHR ''b'', CHR ''c'', CHR ''d'']"
    by (simp add: artifact_digests_def example_target_def)
  then have "set (artifact_digests example_target) \<inter> {replicate 64 (CHR ''e'')} = {}"
    by simp
  then show ?thesis
    using example_target_ok
    by (simp add: cert_manifest_validate_def example_cert_manifest_def CARGO_PKG_VERSION_def
        result_simps text_eval list_ex_iff)
qed

theorem valid_manifest_no_revoked_witness:
  "target_validate example_target = Inr () \<and> list_all is_sha256 [replicate 64 (CHR ''e'')]"
  using valid_manifest_no_revoked [OF example_cert_manifest_valid]
  by (simp add: example_cert_manifest_def)

section \<open>What is shipped\<close>

text \<open>The JSON reader on the embedded text: its four fields, and a line feed after them.\<close>

definition reads_embedded :: "tokenizer \<Rightarrow> bool" where
  "reads_embedded tok =
     (tok MANIFEST_BYTES =
        Some (RawObject [(''schema_version'', RawU64 2), (''autoapprover_version'', RawString ''0.1.0''),
                (''entries'', RawArray []), (''revoked_artifact_sha256'', RawArray [])],
              [CHR 0x0A]))"

definition shipped_manifest :: cert_manifest where
  "shipped_manifest =
     \<lparr>schema_version = 2, autoapprover_version = ''0.1.0'', entries = [],
      revoked_artifact_sha256 = []\<rparr>"

lemma embedded_shipped:
  assumes "reads_embedded tok"
  shows "embedded tok = Inr shipped_manifest"
proof -
  have start: "is_some_and (find (\<lambda>c. \<not> is_ascii_whitespace c) MANIFEST_BYTES) (\<lambda>c. c = CHR ''{'')"
    by (simp add: MANIFEST_BYTES_def unlines_def is_ascii_whitespace_def byte_def)
  then have "parse_unique_object tok MANIFEST_BYTES = Inr (JObject
      [(''autoapprover_version'', JString ''0.1.0''), (''entries'', JArray []),
       (''revoked_artifact_sha256'', JArray []), (''schema_version'', JNumber (PosInt 2))])"
    using assms unfolding reads_embedded_def
    by (simp add: parse_unique_object_def json_space_def)
  then show ?thesis
    by (simp add: embedded_def cert_manifest_parse_def cert_manifest_decode_def bind_field_def ok_or_def
        cert_manifest_validate_def CARGO_PKG_VERSION_def shipped_manifest_def)
qed

end
