(* ===== verification/Decision.thy ===== *)
theory Decision
  imports Certification
begin

text \<open>
  The decision on one permission request, \<^verbatim>\<open>src/decision.rs\<close>: the order of the checks is
  the code's.  The build target and the JSON reader of the embedded manifest are arguments.
\<close>

datatype decline_reason =
    WrongEvent
  | MissingRequiredField
  | UnsupportedPermissionMode
  | WorkingDirectoryMismatch
  | UnsupportedCodexCompatibility
  | UnsupportedToolType
  | UnexpectedVerificationAction

datatype decision = Allow | Decline decline_reason

record decision_context =
  certified_target :: "target option"
  codex_version :: string
  expected_cwd :: string
  expected_command :: "string option"
  expected_tool_name :: "string option"

definition verification_context :: "operating_system \<Rightarrow> decision_context \<Rightarrow> bool" where
  "verification_context os context =
     (certified_target context = None \<and>
      is_some_and (expected_command context) (is_verification_probe_command os) \<and>
      expected_tool_name context = Some ''Bash'')"

definition certified_admission :: "tokenizer \<Rightarrow> decision_context \<Rightarrow> string \<Rightarrow> bool" where
  "certified_admission tok context tool =
     is_some_and (certified_target context) (\<lambda>target.
       target_codex_version target = codex_version context \<and>
       target_tool target = tool \<and>
       (case embedded tok of Inl e \<Rightarrow> False | Inr manifest \<Rightarrow> admits manifest target))"

definition decide :: "operating_system \<Rightarrow> tokenizer \<Rightarrow> hook_input \<Rightarrow> decision_context \<Rightarrow> decision" where
  "decide os tok input context =
     (if hook_event_name input \<noteq> Some PERMISSION_REQUEST_EVENT then Decline WrongEvent
      else if is_none_or (session_id input) (\<lambda>s. s = []) \<or>
              is_none_or (cwd input) (\<lambda>s. s = []) \<or>
              is_none_or (tool_name input) (\<lambda>s. s = []) \<or>
              tool_input input = None
      then Decline MissingRequiredField
      else if permission_mode input \<noteq> Some ''default'' then Decline UnsupportedPermissionMode
      else if is_some_and (expected_tool_name context) (\<lambda>expected. tool_name input \<noteq> Some expected)
      then Decline UnsupportedToolType
      else
        (let tool = (case tool_name input of None \<Rightarrow> [] | Some t \<Rightarrow> t) in
         if tool \<noteq> ''Bash'' then Decline UnsupportedToolType
         else if \<not> (if verification_context os context
                    then verification_schema os (codex_version context) tool
                    else certified_admission tok context tool)
         then Decline UnsupportedCodexCompatibility
         else
           (case Option.bind (tool_input input) as_object of
              None \<Rightarrow> Decline UnsupportedToolType
            | Some obj \<Rightarrow>
                (let command_is_string = (Option.bind (map_of obj ''command'') as_str \<noteq> None);
                     nested_fields_are_supported =
                       list_all (\<lambda>(key, value).
                         (key = ''command'' \<and> is_string value) \<or>
                         (key = ''description'' \<and> (is_string value \<or> is_null value))) obj
                 in
                 if \<not> command_is_string \<or> \<not> nested_fields_are_supported
                 then Decline UnsupportedToolType
                 else if cwd input \<noteq> Some (expected_cwd context)
                 then Decline WorkingDirectoryMismatch
                 else case expected_command context of
                     None \<Rightarrow> Allow
                   | Some command \<Rightarrow>
                       (if tool_input input \<noteq> Some (JObject [(''command'', JString command)])
                        then Decline UnexpectedVerificationAction else Allow)))))"

section \<open>When a request is allowed\<close>

definition bash_input :: "(string \<times> json) list \<Rightarrow> bool" where
  "bash_input obj =
     ((\<exists>command. map_of obj ''command'' = Some (JString command)) \<and>
      list_all (\<lambda>(key, value).
         (key = ''command'' \<and> is_string value) \<or>
         (key = ''description'' \<and> (is_string value \<or> is_null value))) obj)"

lemma bash_input_iff:
  "bash_input obj = ((Option.bind (map_of obj ''command'') as_str \<noteq> None) \<and>
      list_all (\<lambda>(key, value).
         (key = ''command'' \<and> is_string value) \<or>
         (key = ''description'' \<and> (is_string value \<or> is_null value))) obj)"
  by (auto simp: bash_input_def split: Option.bind_splits)

lemma decide_Allow:
  "(decide os tok input context = Allow) =
     (hook_event_name input = Some PERMISSION_REQUEST_EVENT \<and>
      session_id input \<notin> {None, Some []} \<and> cwd input \<notin> {None, Some []} \<and>
      permission_mode input = Some ''default'' \<and> tool_name input = Some ''Bash'' \<and>
      expected_tool_name context \<in> {None, Some ''Bash''} \<and>
      (if verification_context os context
       then verification_schema os (codex_version context) ''Bash''
       else certified_admission tok context ''Bash'') \<and>
      (\<exists>obj. tool_input input = Some (JObject obj) \<and> bash_input obj) \<and>
      cwd input = Some (expected_cwd context) \<and>
      (\<forall>command. expected_command context = Some command \<longrightarrow>
         tool_input input = Some (JObject [(''command'', JString command)])))"
proof (cases "\<exists>s d i. session_id input = Some s \<and> s \<noteq> [] \<and> cwd input = Some d \<and> d \<noteq> [] \<and>
    tool_name input = Some ''Bash'' \<and> tool_input input = Some i")
  case True
  then obtain s d i where f: "session_id input = Some s" "s \<noteq> []" "cwd input = Some d" "d \<noteq> []"
    "tool_name input = Some ''Bash''" "tool_input input = Some i" by blast
  show ?thesis
    by (cases i; cases "expected_command context"; cases "expected_tool_name context")
      (auto simp: decide_def f bash_input_iff Let_def)
next
  case False
  then show ?thesis
    by (auto simp: decide_def not_is_none_or_iff Let_def split: if_splits option.splits)
qed

text \<open>The checks in the order they are made, each with the reason its failure gives.\<close>

definition checks :: "operating_system \<Rightarrow> tokenizer \<Rightarrow> hook_input \<Rightarrow> decision_context
    \<Rightarrow> (bool \<times> decline_reason) list" where
  "checks os tok input context =
     [(hook_event_name input = Some PERMISSION_REQUEST_EVENT, WrongEvent),
      (session_id input \<notin> {None, Some []} \<and> cwd input \<notin> {None, Some []} \<and>
       tool_name input \<notin> {None, Some []} \<and> tool_input input \<noteq> None, MissingRequiredField),
      (permission_mode input = Some ''default'', UnsupportedPermissionMode),
      (expected_tool_name context \<in> {None, tool_name input}, UnsupportedToolType),
      (tool_name input = Some ''Bash'', UnsupportedToolType),
      (if verification_context os context
       then verification_schema os (codex_version context) ''Bash''
       else certified_admission tok context ''Bash'', UnsupportedCodexCompatibility),
      (\<exists>obj. tool_input input = Some (JObject obj) \<and> bash_input obj, UnsupportedToolType),
      (cwd input = Some (expected_cwd context), WorkingDirectoryMismatch),
      (expected_command context = None \<or>
       tool_input input = Some (JObject [(''command'', JString (the (expected_command context)))]),
       UnexpectedVerificationAction)]"

fun first_failure :: "(bool \<times> decline_reason) list \<Rightarrow> decision" where
  "first_failure [] = Allow"
| "first_failure ((ok, reason) # cs) = (if ok then first_failure cs else Decline reason)"

lemma first_failure_Allow: "(first_failure cs = Allow) = list_all fst cs"
  by (induction cs rule: first_failure.induct) auto

lemma decide_first_failure: "decide os tok input context = first_failure (checks os tok input context)"
proof (cases "\<exists>s d i. session_id input = Some s \<and> s \<noteq> [] \<and> cwd input = Some d \<and> d \<noteq> [] \<and>
    tool_name input = Some ''Bash'' \<and> tool_input input = Some i")
  case True
  then obtain s d i where f: "session_id input = Some s" "s \<noteq> []" "cwd input = Some d" "d \<noteq> []"
    "tool_name input = Some ''Bash''" "tool_input input = Some i" by blast
  show ?thesis
    by (cases i; cases "expected_command context"; cases "expected_tool_name context")
      (simp_all add: decide_def checks_def f bash_input_iff Let_def)
next
  case False
  then show ?thesis
    by (cases "session_id input"; cases "cwd input"; cases "tool_name input"; cases "tool_input input";
        cases "expected_tool_name context")
      (auto simp: decide_def checks_def Let_def)
qed

section \<open>The shipped program\<close>

lemma shipped_admits_nothing:
  assumes "reads_embedded tok"
  shows "\<not> certified_admission tok context tool"
  using embedded_shipped [OF assms]
  by (auto simp: certified_admission_def is_some_and_iff admits_iff shipped_manifest_def)

section \<open>Properties\<close>

text \<open>C34: the decision makes nine checks in a fixed order and declines with the reason of the
  first that fails; it allows exactly when all of them hold.\<close>

theorem decide_reports_first_failure:
  "decide os tok input context = first_failure (checks os tok input context) \<and>
   (decide os tok input context = Allow) = list_all fst (checks os tok input context)"
  by (simp add: decide_first_failure first_failure_Allow)

text \<open>C35: with the manifest that is shipped, which certifies nothing, the only requests ever
  allowed are those of the live verification: a Bash call of exactly the probe command the
  verifier expects, on a reviewed Codex version, in the expected directory.\<close>

theorem shipped_allows_only_probes:
  assumes "reads_embedded tok" "decide os tok input context = Allow"
  shows "\<exists>port nonce command. verification_probe_command os port nonce = Some command \<and>
    expected_command context = Some command \<and>
    tool_input input = Some (JObject [(''command'', JString command)]) \<and>
    tool_name input = Some ''Bash'' \<and> cwd input = Some (expected_cwd context) \<and>
    verification_schema os (codex_version context) ''Bash''"
proof -
  have all: "list_all fst (checks os tok input context)"
    using assms(2) by (simp add: decide_first_failure first_failure_Allow)
  then have v: "verification_context os context" "verification_schema os (codex_version context) ''Bash''"
    using shipped_admits_nothing [OF assms(1)] by (auto simp: checks_def split: if_splits)
  then obtain command where c: "expected_command context = Some command"
    "is_verification_probe_command os command"
    by (auto simp: verification_context_def is_some_and_iff)
  then obtain port nonce where "verification_probe_command os port nonce = Some command"
    using is_verification_probe_command_iff by blast
  with all v c show ?thesis by (auto simp: checks_def)
qed

definition example_probe :: string where
  "example_probe = probe_prefix OsLinux @ ''80/'' @ replicate 32 (CHR ''0'')"

definition example_context :: decision_context where
  "example_context =
     \<lparr>certified_target = None, codex_version = ''0.156.1'', expected_cwd = ''/w'',
      expected_command = Some example_probe, expected_tool_name = Some ''Bash''\<rparr>"

definition example_hook_input :: hook_input where
  "example_hook_input =
     \<lparr>hook_event_name = Some ''PermissionRequest'', session_id = Some ''s1'', transcript_path = None,
      cwd = Some ''/w'', hook_model = Some ''m'', tool_name = Some ''Bash'',
      tool_input = Some (JObject [(''command'', JString example_probe)]), turn_id = Some ''t1'',
      permission_mode = Some ''default''\<rparr>"

definition example_tokenizer :: tokenizer where
  "example_tokenizer s =
     (if s = MANIFEST_BYTES then
        Some (RawObject [(''schema_version'', RawU64 2), (''autoapprover_version'', RawString ''0.1.0''),
                (''entries'', RawArray []), (''revoked_artifact_sha256'', RawArray [])],
              [CHR 0x0A])
      else None)"

lemma example_reads_embedded: "reads_embedded example_tokenizer"
  by (simp add: reads_embedded_def example_tokenizer_def)

lemma example_probe_command:
  "verification_probe_command OsLinux 80 (replicate 32 (CHR ''0'')) = Some example_probe"
proof -
  have "show_nat 80 = ''80''" by code_simp
  then show ?thesis
    by (simp add: verification_probe_command_Some example_probe_def is_lower_hex_def text_eval list_all_iff)
qed

lemma example_allowed: "decide OsLinux tok example_hook_input example_context = Allow"
proof -
  have "is_verification_probe_command OsLinux example_probe"
    using example_probe_command is_verification_probe_command_iff by blast
  then have "verification_context OsLinux example_context"
    by (simp add: verification_context_def example_context_def)
  then show ?thesis
    unfolding decide_first_failure first_failure_Allow
    by (simp add: checks_def example_hook_input_def example_context_def bash_input_def is_string_def
        verification_schema_def verification_schema_for_def PERMISSION_REQUEST_EVENT_def)
qed

theorem shipped_allows_only_probes_witness:
  "\<exists>port nonce command. verification_probe_command OsLinux port nonce = Some command \<and>
    tool_input example_hook_input = Some (JObject [(''command'', JString command)])"
  using shipped_allows_only_probes [OF example_reads_embedded example_allowed] by blast

end
