(* ===== verification/Outcome.thy ===== *)
theory Outcome
  imports Rust_Text "HOL-Library.Multiset"
begin

text \<open>
  What one session's audit log says about the hook, \<^verbatim>\<open>src/update/outcome.rs\<close>: the bounded
  counters, their aggregation and the reader of the log.
\<close>

section \<open>Types\<close>

definition MAX_AUDIT_BYTES :: nat where
  "MAX_AUDIT_BYTES = 64 * 1024"

definition MAX_OUTCOME_COUNT :: u32 where
  "MAX_OUTCOME_COUNT = 64"

datatype hook_outcome =
    NoHookInvocation
  | BrokerAllowUnconfirmed
  | SuccessfulExchange
  | CompatibilityRejection
  | TransportFailure
  | ProtocolFailure

fun hook_outcome_as_str :: "hook_outcome \<Rightarrow> string" where
  "hook_outcome_as_str NoHookInvocation = ''no_hook_invocation''"
| "hook_outcome_as_str BrokerAllowUnconfirmed = ''broker_allow_unconfirmed''"
| "hook_outcome_as_str SuccessfulExchange = ''successful_exchange''"
| "hook_outcome_as_str CompatibilityRejection = ''compatibility_rejection''"
| "hook_outcome_as_str TransportFailure = ''transport_failure''"
| "hook_outcome_as_str ProtocolFailure = ''protocol_failure''"

fun audit_name :: "hook_outcome \<Rightarrow> string option" where
  "audit_name NoHookInvocation = None"
| "audit_name BrokerAllowUnconfirmed = None"
| "audit_name SuccessfulExchange = Some ''successful_exchange''"
| "audit_name CompatibilityRejection = Some ''compatibility_rejection''"
| "audit_name TransportFailure = Some ''transport_failure''"
| "audit_name ProtocolFailure = Some ''protocol_failure''"

datatype command_outcome = Succeeded | Failed | UnknownOutcome

fun command_outcome_as_str :: "command_outcome \<Rightarrow> string" where
  "command_outcome_as_str Succeeded = ''succeeded''"
| "command_outcome_as_str Failed = ''failed''"
| "command_outcome_as_str UnknownOutcome = ''unknown''"

record outcome_counts =
  entry_count :: u32
  validated_request_count :: u32
  allow_count :: u32
  no_decision_count :: u32
  structured_emission_count :: u32
  stdout_error_count :: u32
  successful_exchange_count :: u32
  broker_allow_unconfirmed_count :: u32
  compatibility_rejection_count :: u32
  transport_failure_count :: u32
  protocol_failure_count :: u32

datatype outcome_error = TooManyRecords | Unavailable | Malformed

definition zero_counts :: outcome_counts where
  "zero_counts =
     \<lparr>entry_count = 0, validated_request_count = 0, allow_count = 0, no_decision_count = 0,
      structured_emission_count = 0, stdout_error_count = 0, successful_exchange_count = 0,
      broker_allow_unconfirmed_count = 0, compatibility_rejection_count = 0,
      transport_failure_count = 0, protocol_failure_count = 0\<rparr>"

section \<open>Counters\<close>

definition count_values :: "outcome_counts \<Rightarrow> u32 list" where
  "count_values c =
     [entry_count c, validated_request_count c, allow_count c, no_decision_count c,
      structured_emission_count c, stdout_error_count c, successful_exchange_count c,
      broker_allow_unconfirmed_count c, compatibility_rejection_count c,
      transport_failure_count c, protocol_failure_count c]"

definition counts_validate :: "outcome_counts \<Rightarrow> (outcome_error, unit) result" where
  "counts_validate c =
     (if list_ex (\<lambda>count. MAX_OUTCOME_COUNT < count) (count_values c) then Inl TooManyRecords
      else Inr ())"

text \<open>A counter whose increment failed is dropped by the caller, with the value it was left at.\<close>

definition increment :: "u32 \<Rightarrow> (outcome_error, u32) result" where
  "increment v =
     and_then (ok_or TooManyRecords (checked_add v 1)) (\<lambda>w.
       if MAX_OUTCOME_COUNT < w then Inl TooManyRecords else Inr w)"

definition counts_merge :: "outcome_counts \<Rightarrow> outcome_counts \<Rightarrow> (outcome_error, outcome_counts) result"
where
  "counts_merge a b =
     (let add = (\<lambda>f. ok_or TooManyRecords (checked_add (f a) (f b))) in
      and_then (add entry_count) (\<lambda>c1.
      and_then (add validated_request_count) (\<lambda>c2.
      and_then (add allow_count) (\<lambda>c3.
      and_then (add no_decision_count) (\<lambda>c4.
      and_then (add structured_emission_count) (\<lambda>c5.
      and_then (add stdout_error_count) (\<lambda>c6.
      and_then (add successful_exchange_count) (\<lambda>c7.
      and_then (add broker_allow_unconfirmed_count) (\<lambda>c8.
      and_then (add compatibility_rejection_count) (\<lambda>c9.
      and_then (add transport_failure_count) (\<lambda>c10.
      and_then (add protocol_failure_count) (\<lambda>c11.
        let c = \<lparr>entry_count = c1, validated_request_count = c2, allow_count = c3,
                 no_decision_count = c4, structured_emission_count = c5, stdout_error_count = c6,
                 successful_exchange_count = c7, broker_allow_unconfirmed_count = c8,
                 compatibility_rejection_count = c9, transport_failure_count = c10,
                 protocol_failure_count = c11\<rparr>
        in and_then (counts_validate c) (\<lambda>_. Inr c)))))))))))))"

definition aggregate_hook_outcome :: "outcome_counts \<Rightarrow> hook_outcome" where
  "aggregate_hook_outcome c =
     (if 0 < protocol_failure_count c then ProtocolFailure
      else if 0 < transport_failure_count c then TransportFailure
      else if 0 < compatibility_rejection_count c then CompatibilityRejection
      else if 0 < broker_allow_unconfirmed_count c then BrokerAllowUnconfirmed
      else if 0 < successful_exchange_count c then SuccessfulExchange
      else if entry_count c = 0 then NoHookInvocation
      else ProtocolFailure)"

section \<open>The accumulator\<close>

record session_outcome =
  session_hook_outcome :: hook_outcome
  session_command_outcome :: command_outcome
  session_counts :: outcome_counts

record accumulator =
  acc_counts :: outcome_counts
  acc_command_outcome :: "command_outcome option"

definition new_accumulator :: accumulator where
  "new_accumulator = \<lparr>acc_counts = zero_counts, acc_command_outcome = None\<rparr>"

definition bump :: "(outcome_counts \<Rightarrow> u32) \<Rightarrow> ((u32 \<Rightarrow> u32) \<Rightarrow> outcome_counts \<Rightarrow> outcome_counts)
    \<Rightarrow> accumulator \<Rightarrow> (outcome_error, accumulator) result" where
  "bump field update acc =
     and_then (increment (field (acc_counts acc))) (\<lambda>v.
       Inr (acc\<lparr>acc_counts := update (\<lambda>_. v) (acc_counts acc)\<rparr>))"

fun record_hook_outcome ::
    "hook_outcome \<Rightarrow> accumulator \<Rightarrow> (outcome_error, accumulator) result" where
  "record_hook_outcome NoHookInvocation acc = Inr acc"
| "record_hook_outcome BrokerAllowUnconfirmed acc =
     bump broker_allow_unconfirmed_count broker_allow_unconfirmed_count_update acc"
| "record_hook_outcome SuccessfulExchange acc =
     bump successful_exchange_count successful_exchange_count_update acc"
| "record_hook_outcome CompatibilityRejection acc =
     bump compatibility_rejection_count compatibility_rejection_count_update acc"
| "record_hook_outcome TransportFailure acc =
     bump transport_failure_count transport_failure_count_update acc"
| "record_hook_outcome ProtocolFailure acc =
     bump protocol_failure_count protocol_failure_count_update acc"

definition record_command_outcome :: "command_outcome \<Rightarrow> accumulator \<Rightarrow> accumulator" where
  "record_command_outcome outcome acc = acc\<lparr>acc_command_outcome := Some
     (if acc_command_outcome acc = Some Failed \<or> outcome = Failed then Failed
      else if acc_command_outcome acc = Some UnknownOutcome \<or> outcome = UnknownOutcome
      then UnknownOutcome else Succeeded)\<rparr>"

definition finish :: "accumulator \<Rightarrow> session_outcome" where
  "finish acc =
     \<lparr>session_hook_outcome = aggregate_hook_outcome (acc_counts acc),
      session_command_outcome =
        (case acc_command_outcome acc of None \<Rightarrow> UnknownOutcome | Some c \<Rightarrow> c),
      session_counts = acc_counts acc\<rparr>"

section \<open>Reading the log\<close>

text \<open>
  An opened file: whether it is regular, the length its metadata gave, and the bytes a read to
  the end returns after that (\<^const>\<open>None\<close> for a failed read), which may be more.
\<close>

record audit_file =
  audit_is_file :: bool
  audit_len :: u64
  audit_bytes :: "string option"

fun read_line :: "u32 \<times> accumulator \<Rightarrow> string \<Rightarrow> (outcome_error, u32 \<times> accumulator) result" where
  "read_line (attempts, acc) line =
     (if line = ''broker connection''
      then and_then (increment attempts) (\<lambda>a. Inr (a, acc))
      else if starts_with ''invoked event='' line \<and> contains_sub '' tool_hash='' line
      then and_then (bump entry_count entry_count_update acc) (\<lambda>acc. Inr (attempts, acc))
      else if starts_with ''request event=PermissionRequest '' line
      then and_then (bump validated_request_count validated_request_count_update acc)
        (\<lambda>acc. Inr (attempts, acc))
      else if starts_with ''allowed one PermissionRequest tool_hash='' line
      then and_then (bump allow_count allow_count_update acc) (\<lambda>acc. Inr (attempts, acc))
      else if starts_with ''emitted one PermissionRequest tool_hash='' line
      then and_then (record_hook_outcome BrokerAllowUnconfirmed acc) (\<lambda>acc. Inr (attempts, acc))
      else Inl Malformed)"

fun read_lines :: "u32 \<times> accumulator \<Rightarrow> string list \<Rightarrow> (outcome_error, u32 \<times> accumulator) result" where
  "read_lines st [] = Inr st"
| "read_lines st (line # ls) = and_then (read_line st line) (\<lambda>st. read_lines st ls)"

fun bump_times :: "nat \<Rightarrow> accumulator \<Rightarrow> (outcome_error, accumulator) result" where
  "bump_times 0 acc = Inr acc"
| "bump_times (Suc n) acc =
     and_then (bump no_decision_count no_decision_count_update acc) (bump_times n)"

definition read_audit_contents :: "string \<Rightarrow> (outcome_error, accumulator) result" where
  "read_audit_contents contents =
     (if contents = [] then Inl Unavailable
      else and_then (read_lines (0, new_accumulator) (text_lines contents)) (\<lambda>(attempts, acc).
        let counts = acc_counts acc in
        if attempts < entry_count counts \<or>
           entry_count counts < validated_request_count counts \<or>
           validated_request_count counts < allow_count counts \<or>
           allow_count counts < broker_allow_unconfirmed_count counts
        then Inl Malformed
        else if broker_allow_unconfirmed_count counts < attempts
        then and_then (bump_times (unat attempts - unat (broker_allow_unconfirmed_count counts)) acc)
               (record_hook_outcome ProtocolFailure)
        else Inr acc))"

definition read_audit :: "audit_file option \<Rightarrow> (outcome_error, accumulator) result" where
  "read_audit file =
     (case file of None \<Rightarrow> Inl Unavailable
      | Some f \<Rightarrow>
          (if \<not> audit_is_file f then Inl Unavailable
           else if MAX_AUDIT_BYTES < unat (audit_len f) then Inl TooManyRecords
           else case audit_bytes f of None \<Rightarrow> Inl Unavailable
             | Some stream \<Rightarrow>
                 (let bytes = take (MAX_AUDIT_BYTES + 1) stream in
                  if MAX_AUDIT_BYTES < length bytes then Inl TooManyRecords
                  else if \<not> utf8_valid bytes then Inl Malformed
                  else read_audit_contents bytes)))"

section \<open>Counting\<close>

lemma increment_Inr: "(increment v = Inr w) = (unat v < 64 \<and> w = v + 1)"
proof -
  have "unat (v + 1) = unat v + 1" if "unat v + 1 < 2 ^ 32"
    using that unat_add_lem [of v 1] by simp
  then show ?thesis
    by (auto simp: increment_def checked_add_def MAX_OUTCOME_COUNT_def result_simps word_less_nat_alt)
qed

lemma unat_increment: "unat (v :: u32) < 64 \<Longrightarrow> unat (v + 1) = unat v + 1"
  using unat_add_lem [of v 1] by simp

datatype audit_line = Attempt | Invoked | Requested | Allowed | Emitted

text \<open>The class of a line, by its text.\<close>

definition classify :: "string \<Rightarrow> audit_line option" where
  "classify line =
     (if line = ''broker connection'' then Some Attempt
      else if starts_with ''invoked event='' line \<and> contains_sub '' tool_hash='' line
      then Some Invoked
      else if starts_with ''request event=PermissionRequest '' line then Some Requested
      else if starts_with ''allowed one PermissionRequest tool_hash='' line then Some Allowed
      else if starts_with ''emitted one PermissionRequest tool_hash='' line then Some Emitted
      else None)"

fun tally :: "audit_line \<Rightarrow> u32 \<times> accumulator \<Rightarrow> nat" where
  "tally Attempt (a, acc) = unat a"
| "tally Invoked (a, acc) = unat (entry_count (acc_counts acc))"
| "tally Requested (a, acc) = unat (validated_request_count (acc_counts acc))"
| "tally Allowed (a, acc) = unat (allow_count (acc_counts acc))"
| "tally Emitted (a, acc) = unat (broker_allow_unconfirmed_count (acc_counts acc))"

fun incr :: "audit_line \<Rightarrow> u32 \<times> accumulator \<Rightarrow> u32 \<times> accumulator" where
  "incr Attempt (a, acc) = (a + 1, acc)"
| "incr Invoked (a, acc) = (a, acc\<lparr>acc_counts := (acc_counts acc)
     \<lparr>entry_count := entry_count (acc_counts acc) + 1\<rparr>\<rparr>)"
| "incr Requested (a, acc) = (a, acc\<lparr>acc_counts := (acc_counts acc)
     \<lparr>validated_request_count := validated_request_count (acc_counts acc) + 1\<rparr>\<rparr>)"
| "incr Allowed (a, acc) = (a, acc\<lparr>acc_counts := (acc_counts acc)
     \<lparr>allow_count := allow_count (acc_counts acc) + 1\<rparr>\<rparr>)"
| "incr Emitted (a, acc) = (a, acc\<lparr>acc_counts := (acc_counts acc)
     \<lparr>broker_allow_unconfirmed_count := broker_allow_unconfirmed_count (acc_counts acc) + 1\<rparr>\<rparr>)"

text \<open>What no line changes.\<close>

fun others :: "u32 \<times> accumulator \<Rightarrow> u32 list \<times> command_outcome option" where
  "others (a, acc) =
     ([no_decision_count (acc_counts acc), structured_emission_count (acc_counts acc),
       stdout_error_count (acc_counts acc), successful_exchange_count (acc_counts acc),
       compatibility_rejection_count (acc_counts acc), transport_failure_count (acc_counts acc),
       protocol_failure_count (acc_counts acc)], acc_command_outcome acc)"

lemma read_line_Inr:
  "(read_line st line = Inr st') =
     (\<exists>k. classify line = Some k \<and> tally k st < 64 \<and> st' = incr k st)"
  by (cases st) (auto simp: classify_def bump_def and_then_Inr increment_Inr)

lemma tally_incr:
  "tally k st < 64 \<Longrightarrow> tally j (incr k st) = tally j st + (if j = k then 1 else 0)"
  by (cases st; cases k; cases j) (simp_all add: unat_increment)

lemma others_incr [simp]: "others (incr k st) = others st"
  by (cases st; cases k) simp_all

definition count_kind :: "audit_line \<Rightarrow> string list \<Rightarrow> nat" where
  "count_kind k ls = length (filter (\<lambda>l. classify l = Some k) ls)"

lemma count_kind_simps [simp]:
  "count_kind k [] = 0"
  "count_kind k (l # ls) = (if classify l = Some k then 1 else 0) + count_kind k ls"
  "count_kind k (ls @ ls') = count_kind k ls + count_kind k ls'"
  by (simp_all add: count_kind_def)

lemma read_lines_tally:
  assumes "read_lines st ls = Inr st'"
  shows "tally k st' = tally k st + count_kind k ls \<and> others st' = others st \<and>
    list_all (\<lambda>l. classify l \<noteq> None) ls"
  using assms
proof (induction ls arbitrary: st)
  case (Cons l ls)
  then obtain j where j: "classify l = Some j" "tally j st < 64"
    "read_lines (incr j st) ls = Inr st'"
    by (auto simp: and_then_Inr read_line_Inr)
  show ?case
    using Cons.IH [OF j(3)] j(1) tally_incr [OF j(2), of k] by simp
qed simp

lemma read_lines_bound:
  assumes "read_lines st ls = Inr st'" "\<forall>k. tally k st \<le> 64"
  shows "\<forall>k. tally k st' \<le> 64"
  using assms
proof (induction ls arbitrary: st)
  case (Cons l ls)
  then obtain j where j: "tally j st < 64" "read_lines (incr j st) ls = Inr st'"
    by (auto simp: and_then_Inr read_line_Inr)
  have "\<forall>k. tally k (incr j st) \<le> 64"
    using Cons.prems(2) j(1) tally_incr [OF j(1)] by simp
  then show ?case using Cons.IH [OF j(2)] by blast
qed simp

lemma read_lines_complete:
  assumes "list_all (\<lambda>l. classify l \<noteq> None) ls" "\<forall>k. tally k st + count_kind k ls \<le> 64"
  shows "\<exists>st'. read_lines st ls = Inr st'"
  using assms
proof (induction ls arbitrary: st)
  case (Cons l ls)
  then obtain j where j: "classify l = Some j" by auto
  have less: "tally j st < 64" using Cons.prems(2) j by (auto dest: spec [of _ j])
  then have "read_line st l = Inr (incr j st)" using j by (simp add: read_line_Inr)
  moreover have "tally k (incr j st) + count_kind k ls \<le> 64" for k
    using spec [OF Cons.prems(2), of k] j tally_incr [OF less, of k]
    by (cases "k = j") simp_all
  ultimately show ?case using Cons.IH [of "incr j st"] Cons.prems(1) by simp
qed simp

text \<open>The counters of a log, from its lines.\<close>

definition summary :: "string list \<Rightarrow> outcome_counts" where
  "summary ls =
     \<lparr>entry_count = word_of_nat (count_kind Invoked ls),
      validated_request_count = word_of_nat (count_kind Requested ls),
      allow_count = word_of_nat (count_kind Allowed ls),
      no_decision_count = word_of_nat (count_kind Attempt ls - count_kind Emitted ls),
      structured_emission_count = 0, stdout_error_count = 0, successful_exchange_count = 0,
      broker_allow_unconfirmed_count = word_of_nat (count_kind Emitted ls),
      compatibility_rejection_count = 0, transport_failure_count = 0,
      protocol_failure_count = (if count_kind Emitted ls < count_kind Attempt ls then 1 else 0)\<rparr>"

text \<open>A log the reader accepts: each line of a known class, at most 64 of each, and no class more
  frequent than the one that comes before it in a connection.\<close>

definition log_ok :: "string list \<Rightarrow> bool" where
  "log_ok ls =
     (list_all (\<lambda>l. classify l \<noteq> None) ls \<and>
      count_kind Attempt ls \<le> 64 \<and>
      count_kind Invoked ls \<le> count_kind Attempt ls \<and>
      count_kind Requested ls \<le> count_kind Invoked ls \<and>
      count_kind Allowed ls \<le> count_kind Requested ls \<and>
      count_kind Emitted ls \<le> count_kind Allowed ls)"

lemma word_of_unat: "unat w = n \<Longrightarrow> w = word_of_nat n"
  by auto

lemma bump_times_ok:
  assumes "unat (no_decision_count (acc_counts acc)) + n \<le> 64"
  shows "bump_times n acc = Inr (acc\<lparr>acc_counts := (acc_counts acc)
    \<lparr>no_decision_count := no_decision_count (acc_counts acc) + word_of_nat n\<rparr>\<rparr>)"
  using assms
proof (induction n arbitrary: acc)
  case (Suc n)
  let ?v = "no_decision_count (acc_counts acc)"
  have "unat ?v < 64" using Suc.prems by simp
  then have "increment ?v = Inr (?v + 1)" "unat (?v + 1) = unat ?v + 1"
    by (simp_all add: increment_Inr unat_increment)
  then show ?case
    using Suc.prems Suc.IH [of "acc\<lparr>acc_counts := (acc_counts acc)\<lparr>no_decision_count := ?v + 1\<rparr>\<rparr>"]
    by (simp add: bump_def add.assoc)
qed simp

lemma new_tally [simp]: "tally k (0, new_accumulator) = 0"
  by (cases k) (simp_all add: new_accumulator_def zero_counts_def)

lemma new_others: "others (0, new_accumulator) = ([0, 0, 0, 0, 0, 0, 0], None)"
  by (simp add: new_accumulator_def zero_counts_def)

lemma read_lines_new:
  assumes "read_lines (0, new_accumulator) ls = Inr (att, acc)"
  shows "list_all (\<lambda>l. classify l \<noteq> None) ls \<and> (\<forall>k. count_kind k ls \<le> 64) \<and>
    att = word_of_nat (count_kind Attempt ls) \<and>
    acc = \<lparr>acc_counts = zero_counts
      \<lparr>entry_count := word_of_nat (count_kind Invoked ls),
       validated_request_count := word_of_nat (count_kind Requested ls),
       allow_count := word_of_nat (count_kind Allowed ls),
       broker_allow_unconfirmed_count := word_of_nat (count_kind Emitted ls)\<rparr>,
      acc_command_outcome = None\<rparr>"
proof -
  note t = read_lines_tally [OF assms]
  have "\<forall>k. tally k (att, acc) \<le> 64" using read_lines_bound [OF assms] by simp
  then have "\<forall>k. count_kind k ls \<le> 64" using t by simp
  moreover have "att = word_of_nat (count_kind Attempt ls)"
    using t [of Attempt] by (intro word_of_unat) simp
  moreover have "entry_count (acc_counts acc) = word_of_nat (count_kind Invoked ls)"
    "validated_request_count (acc_counts acc) = word_of_nat (count_kind Requested ls)"
    "allow_count (acc_counts acc) = word_of_nat (count_kind Allowed ls)"
    "broker_allow_unconfirmed_count (acc_counts acc) = word_of_nat (count_kind Emitted ls)"
    using t [of Invoked] t [of Requested] t [of Allowed] t [of Emitted]
    by (auto intro!: word_of_unat)
  moreover have "others (att, acc) = ([0, 0, 0, 0, 0, 0, 0], None)"
    using t unfolding new_others by blast
  moreover have "list_all (\<lambda>l. classify l \<noteq> None) ls" using t by blast
  ultimately show ?thesis
    by (cases acc) (simp add: zero_counts_def)
qed

lemma unat_small: "n \<le> 64 \<Longrightarrow> unat (word_of_nat n :: u32) = n"
  by (rule unat_word_of_nat) simp

lemma small_word_less:
  "a \<le> 64 \<Longrightarrow> b \<le> 64 \<Longrightarrow> ((word_of_nat a :: u32) < word_of_nat b) = (a < b)"
  by (simp add: word_less_nat_alt unat_small)

lemma read_audit_contents_Inr:
  "(read_audit_contents c = Inr acc) =
     (c \<noteq> [] \<and> log_ok (text_lines c) \<and>
      acc = \<lparr>acc_counts = summary (text_lines c), acc_command_outcome = None\<rparr>)"
proof (cases "read_lines (0, new_accumulator) (text_lines c)")
  case (Inl e)
  have "\<not> log_ok (text_lines c)"
  proof
    assume ok: "log_ok (text_lines c)"
    have "count_kind k (text_lines c) \<le> 64" for k using ok by (cases k) (simp_all add: log_ok_def)
    then show False
      using read_lines_complete [of "text_lines c" "(0, new_accumulator)"] ok Inl
      by (simp add: log_ok_def)
  qed
  then show ?thesis using Inl by (simp add: read_audit_contents_def)
next
  case (Inr st)
  obtain att acc' where st: "st = (att, acc')" by (cases st)
  note r = read_lines_new [OF Inr [unfolded st]]
  let ?n = "\<lambda>k. count_kind k (text_lines c)"
  have le: "?n k \<le> 64" for k using r by blast
  note small = small_word_less [OF le le]
  have "bump_times (?n Attempt - ?n Emitted) acc' =
      Inr (acc'\<lparr>acc_counts := (acc_counts acc')
        \<lparr>no_decision_count := word_of_nat (?n Attempt - ?n Emitted)\<rparr>\<rparr>)"
    using r le_trans [OF diff_le_self le, of Attempt "?n Emitted"]
    by (subst bump_times_ok) (simp_all add: zero_counts_def)
  moreover have "increment (0 :: u32) = Inr 1" by (simp add: increment_Inr)
  ultimately show ?thesis
    using r le Inr st
    by (auto simp: read_audit_contents_def Let_def log_ok_def small unat_small not_less summary_def
        zero_counts_def bump_def intro!: arg_cong [of _ _ word_of_nat])
qed

lemma read_audit_Inr:
  "(read_audit (Some f) = Inr acc) =
     (audit_is_file f \<and> unat (audit_len f) \<le> MAX_AUDIT_BYTES \<and>
      (\<exists>c. audit_bytes f = Some c \<and> length c \<le> MAX_AUDIT_BYTES \<and> utf8_valid c \<and>
         read_audit_contents c = Inr acc))"
  by (auto simp: read_audit_def Let_def not_less min_def split: option.splits if_splits)

lemma count_kind_mset: "mset ls = mset ls' \<Longrightarrow> count_kind k ls = count_kind k ls'"
  unfolding count_kind_def by (metis mset_filter size_mset)

lemma log_ok_mset: "mset ls = mset ls' \<Longrightarrow> log_ok ls = log_ok ls' \<and> summary ls = summary ls'"
  using mset_eq_setD [of ls ls']
  by (simp add: log_ok_def summary_def count_kind_mset [of ls ls'] list_all_iff)

lemma aggregate_summary:
  assumes "log_ok ls" "ls \<noteq> []"
  shows "aggregate_hook_outcome (summary ls) =
    (if count_kind Emitted ls = count_kind Attempt ls then BrokerAllowUnconfirmed else ProtocolFailure)"
proof -
  obtain l ls' where ls: "ls = l # ls'" using assms(2) by (cases ls) auto
  then obtain k where "classify l = Some k" using assms(1) by (auto simp: log_ok_def)
  then have "0 < count_kind k ls" using ls by simp
  then have "0 < count_kind Attempt ls"
    using assms(1) by (cases k) (auto simp: log_ok_def)
  moreover have "0 < (word_of_nat n :: u32)" if "0 < n" "n \<le> 64" for n
    using that by (simp add: word_less_nat_alt unat_small)
  ultimately show ?thesis
    using assms(1) by (auto simp: aggregate_hook_outcome_def summary_def log_ok_def)
qed

lemma text_lines_not_Nil: "c \<noteq> [] \<Longrightarrow> text_lines c \<noteq> []"
  using split_on_not_Nil [of "CHR 0x0A" c] join_split [of "CHR 0x0A" c]
  by (cases "split_on (CHR 0x0A) c" rule: rev_cases) (auto simp: text_lines_def Let_def)

lemma checked_add_Some: "(checked_add x y = Some (z :: u32)) = (unat z = unat x + unat y)"
proof
  assume "checked_add x y = Some z"
  then show "unat z = unat x + unat y"
    using unat_add_lem [of x y] by (auto simp: checked_add_def split: if_splits)
next
  assume z: "unat z = unat x + unat y"
  moreover have "unat z < 2 ^ 32" using unsigned_less [of z] by simp
  moreover have "z = x + y"
    using word_of_unat [OF z] by simp
  ultimately show "checked_add x y = Some z" by (simp add: checked_add_def)
qed

lemma counts_validate_Inr:
  "(counts_validate c = Inr u) = list_all (\<lambda>n. n \<le> 64) (map unat (count_values c))"
proof -
  have "(MAX_OUTCOME_COUNT < x) = (\<not> unat x \<le> 64)" for x
    by (simp add: MAX_OUTCOME_COUNT_def word_less_nat_alt not_le)
  then show ?thesis
    by (auto simp: counts_validate_def list_ex_iff list_all_iff)
qed

section \<open>Properties\<close>

text \<open>The reader accepts exactly a regular file of at most 64 KiB, not empty and UTF-8, whose
  lines are all of the five classes the broker writes, at most 64 of each and none more frequent
  than the class that precedes it; the counters it returns are the numbers of lines.\<close>

theorem read_audit_accepts:
  "(read_audit (Some f) = Inr acc) =
     (audit_is_file f \<and> unat (audit_len f) \<le> 65536 \<and>
      (\<exists>c. audit_bytes f = Some c \<and> c \<noteq> [] \<and> length c \<le> 65536 \<and> utf8_valid c \<and>
         log_ok (text_lines c) \<and>
         acc = \<lparr>acc_counts = summary (text_lines c), acc_command_outcome = None\<rparr>))"
  unfolding read_audit_Inr read_audit_contents_Inr by (auto simp: MAX_AUDIT_BYTES_def)

text \<open>C37: a session whose log could be read is reported as a failure unless every connection to
  the broker ended in an emitted allow, and even then only as unconfirmed: the log can never
  attest to a successful exchange.\<close>

theorem session_outcome_conservative:
  assumes "read_audit (Some f) = Inr acc" "audit_bytes f = Some c"
  shows "session_hook_outcome (finish acc) =
    (if count_kind Emitted (text_lines c) = count_kind Attempt (text_lines c)
     then BrokerAllowUnconfirmed else ProtocolFailure)"
  using assms aggregate_summary [of "text_lines c"] text_lines_not_Nil [of c]
  by (auto simp: read_audit_Inr read_audit_contents_Inr finish_def)

definition example_log :: string where
  "example_log = unlines [''broker connection'', ''invoked event=other tool_hash=00'']"

lemma example_log_lines:
  "text_lines example_log = [''broker connection'', ''invoked event=other tool_hash=00'']"
  by (simp add: example_log_def unlines_def text_lines_def Let_def strip_cr_def)

lemma example_classify:
  "classify ''broker connection'' = Some Attempt"
  "classify ''invoked event=other tool_hash=00'' = Some Invoked"
  by (simp_all add: classify_def starts_with_Cons)

definition example_audit :: audit_file where
  "example_audit = \<lparr>audit_is_file = True, audit_len = 53, audit_bytes = Some example_log\<rparr>"

lemma example_read: "read_audit (Some example_audit) =
    Inr \<lparr>acc_counts = summary (text_lines example_log), acc_command_outcome = None\<rparr>"
proof -
  have "ascii_text example_log"
    by (simp add: example_log_def unlines_def ascii_text_def byte_def)
  moreover have "log_ok (text_lines example_log)"
    by (simp add: example_log_lines log_ok_def example_classify)
  moreover have "length example_log \<le> 65536" "example_log \<noteq> []"
    by (simp_all add: example_log_def unlines_def)
  ultimately show ?thesis
    by (simp add: read_audit_Inr read_audit_contents_Inr example_audit_def MAX_AUDIT_BYTES_def ascii_utf8)
qed

theorem session_outcome_conservative_witness:
  "session_hook_outcome (finish
     \<lparr>acc_counts = summary (text_lines example_log), acc_command_outcome = None\<rparr>) = ProtocolFailure"
  using session_outcome_conservative [OF example_read, of example_log]
  by (simp add: example_audit_def example_log_lines example_classify)

text \<open>The order of the lines, and so the interleaving of the connections that wrote them, does
  not matter to the reader.\<close>

theorem read_audit_any_interleaving:
  assumes "mset (text_lines c) = mset (text_lines c')" "c \<noteq> []" "c' \<noteq> []"
  shows "(read_audit_contents c = Inr acc) = (read_audit_contents c' = Inr acc)"
  using log_ok_mset [OF assms(1)] assms(2,3) by (simp add: read_audit_contents_Inr)

theorem read_audit_any_interleaving_witness:
  "(read_audit_contents (unlines [''broker connection'', ''broker connection'', ''invoked event=a tool_hash=b'']) = Inr acc) =
   (read_audit_contents (unlines [''broker connection'', ''invoked event=a tool_hash=b'', ''broker connection'']) = Inr acc)"
  by (rule read_audit_any_interleaving)
    (simp_all add: unlines_def text_lines_def Let_def strip_cr_def add_mset_commute)

text \<open>Merging two sets of counters succeeds exactly when every sum is at most 64, and then no
  counter has wrapped around.\<close>

theorem counts_merge_exact:
  "(counts_merge a b = Inr c) =
     (map unat (count_values c) = map2 (\<lambda>x y. unat x + unat y) (count_values a) (count_values b) \<and>
      list_all (\<lambda>n. n \<le> 64) (map unat (count_values c)))"
proof -
  have merge: "(counts_merge a b = Inr c) =
      (list_all2 (\<lambda>z (x, y). checked_add x y = Some z) (count_values c)
         (zip (count_values a) (count_values b)) \<and> counts_validate c = Inr ())"
    by (cases c) (auto simp: counts_merge_def Let_def result_simps count_values_def)
  show ?thesis
    unfolding merge
    by (auto simp: count_values_def checked_add_Some counts_validate_Inr)
qed

end
