(* ===== verification/Audit_Log.thy ===== *)
theory Audit_Log
  imports Protocol Outcome
begin

text \<open>
  The launcher's private audit log, \<^verbatim>\<open>src/audit.rs\<close>: the lines the broker and the hook
  append and the counts taken from it.  SHA-256 and the JSON serializer are parameters; a request
  or a command never appears in a line but as the first eight bytes of a digest.
\<close>

section \<open>Parameters\<close>

text \<open>The digest of some bytes, and \<^verbatim>\<open>serde_json::to_vec\<close> at the two types it is used
  with, which may fail.\<close>

record crypto =
  sha256_of :: "string \<Rightarrow> u8 list"
  to_vec :: "json \<Rightarrow> string option"
  request_to_vec :: "hook_input \<Rightarrow> string option"

definition digest_prefix :: "crypto \<Rightarrow> string \<Rightarrow> string" where
  "digest_prefix cr bytes = to_hex (take 8 (sha256_of cr bytes))"

definition json_hash :: "crypto \<Rightarrow> json \<Rightarrow> string" where
  "json_hash cr value =
     digest_prefix cr (case to_vec cr value of None \<Rightarrow> [] | Some bytes \<Rightarrow> bytes)"

definition short_hash :: "crypto \<Rightarrow> string \<Rightarrow> string" where
  "short_hash cr value = digest_prefix cr value"

definition event_label :: "string option \<Rightarrow> string" where
  "event_label value =
     (case value of None \<Rightarrow> ''unknown''
      | Some e \<Rightarrow> if e = ''PermissionRequest'' then ''PermissionRequest'' else ''other'')"

section \<open>Lines\<close>

definition input_hash :: "crypto \<Rightarrow> json option \<Rightarrow> string" where
  "input_hash cr input =
     (case input of None \<Rightarrow> ''none'' | Some v \<Rightarrow> json_hash cr v)"

definition tool_or_unknown :: "string option \<Rightarrow> string" where
  "tool_or_unknown t = (case t of None \<Rightarrow> ''unknown'' | Some s \<Rightarrow> s)"

definition attempt_line :: string where
  "attempt_line = ''broker connection''"

definition invoked_line :: "crypto \<Rightarrow> string option \<Rightarrow> string option \<Rightarrow> string" where
  "invoked_line cr tool event =
     ''invoked event='' @ event_label event @ '' tool_hash='' @
     short_hash cr (tool_or_unknown tool)"

definition request_line :: "crypto \<Rightarrow> string option \<Rightarrow> string option \<Rightarrow> json option \<Rightarrow> string" where
  "request_line cr tool event input =
     ''request event='' @ event_label event @ '' tool_hash='' @
     short_hash cr (tool_or_unknown tool) @ '' input_hash='' @ input_hash cr input"

definition allow_line :: "crypto \<Rightarrow> string \<Rightarrow> json option \<Rightarrow> string" where
  "allow_line cr tool input =
     ''allowed one PermissionRequest tool_hash='' @ short_hash cr tool @ '' input_hash='' @
     input_hash cr input"

definition emitted_line :: "crypto \<Rightarrow> string \<Rightarrow> json option \<Rightarrow> string" where
  "emitted_line cr tool input =
     ''emitted one PermissionRequest tool_hash='' @ short_hash cr tool @ '' input_hash='' @
     input_hash cr input"

definition stage_categories :: "string list" where
  "stage_categories =
     [''entry'', ''stdin_read'', ''stdin_parse_error'', ''broker_connected'',
      ''broker_request_sent'', ''broker_response_received'', ''broker_response_parsed'',
      ''broker_allow'', ''broker_no_decision'', ''broker_error'', ''stdout_written'',
      ''stdout_error'']"

definition stage_line :: "string \<Rightarrow> string option" where
  "stage_line category =
     (if category \<notin> set stage_categories then None else Some (''hook stage='' @ category))"

definition outcome_line :: "hook_outcome \<Rightarrow> string option" where
  "outcome_line outcome = map_option (\<lambda>category. ''hook outcome='' @ category) (audit_name outcome)"

section \<open>Appending\<close>

text \<open>
  An append either writes all its bytes or fails after some of them: none when the file could not
  be opened or protected.
\<close>

datatype append_outcome = AppendOk | AppendFails nat

type_synonym audit_log = string

definition append_private :: "append_outcome \<Rightarrow> string \<Rightarrow> audit_log \<Rightarrow> bool \<times> audit_log" where
  "append_private out bytes log =
     (case out of AppendOk \<Rightarrow> (True, log @ bytes)
      | AppendFails n \<Rightarrow> (False, log @ take n bytes))"

definition append_line :: "append_outcome \<Rightarrow> string \<Rightarrow> audit_log \<Rightarrow> bool \<times> audit_log" where
  "append_line out line log = append_private out (line @ [CHR 0x0A]) log"

definition broker_attempt_at :: "append_outcome \<Rightarrow> audit_log \<Rightarrow> bool \<times> audit_log" where
  "broker_attempt_at out log = append_line out attempt_line log"

definition hook_invoked_at ::
    "crypto \<Rightarrow> append_outcome \<Rightarrow> string option \<Rightarrow> string option \<Rightarrow> audit_log \<Rightarrow> bool \<times> audit_log" where
  "hook_invoked_at cr out tool event log = append_line out (invoked_line cr tool event) log"

definition hook_request_at :: "crypto \<Rightarrow> append_outcome \<Rightarrow> string option \<Rightarrow> string option \<Rightarrow> json option
    \<Rightarrow> audit_log \<Rightarrow> bool \<times> audit_log" where
  "hook_request_at cr out tool event input log = append_line out (request_line cr tool event input) log"

definition hook_allow_at ::
    "crypto \<Rightarrow> append_outcome \<Rightarrow> string \<Rightarrow> json option \<Rightarrow> audit_log \<Rightarrow> bool \<times> audit_log" where
  "hook_allow_at cr out tool input log = append_line out (allow_line cr tool input) log"

definition hook_allow_emitted_at ::
    "crypto \<Rightarrow> append_outcome \<Rightarrow> string \<Rightarrow> json option \<Rightarrow> audit_log \<Rightarrow> bool \<times> audit_log" where
  "hook_allow_emitted_at cr out tool input log = append_line out (emitted_line cr tool input) log"

definition hook_stage_at :: "append_outcome \<Rightarrow> string \<Rightarrow> audit_log \<Rightarrow> bool \<times> audit_log" where
  "hook_stage_at out category log =
     (case stage_line category of None \<Rightarrow> (False, log) | Some line \<Rightarrow> append_line out line log)"

definition hook_outcome_at :: "append_outcome \<Rightarrow> hook_outcome \<Rightarrow> audit_log \<Rightarrow> bool \<times> audit_log" where
  "hook_outcome_at out outcome log =
     (case outcome_line outcome of None \<Rightarrow> (False, log) | Some line \<Rightarrow> append_line out line log)"

text \<open>The hook's own reports go to the file the environment names, if it names one.\<close>

definition audit_hook_stage :: "bool \<Rightarrow> append_outcome \<Rightarrow> string \<Rightarrow> audit_log \<Rightarrow> bool \<times> audit_log" where
  "audit_hook_stage path_set out category log =
     (if path_set then hook_stage_at out category log else (True, log))"

definition audit_hook_outcome ::
    "bool \<Rightarrow> append_outcome \<Rightarrow> hook_outcome \<Rightarrow> audit_log \<Rightarrow> bool \<times> audit_log" where
  "audit_hook_outcome path_set out outcome log =
     (if path_set then hook_outcome_at out outcome log else (True, log))"

section \<open>Counting\<close>

datatype io_error = NotFound | OtherIo

text \<open>The file behind a path, or why it could not be opened.\<close>

definition read_bounded :: "(io_error, audit_file) result \<Rightarrow> (io_error, string) result" where
  "read_bounded file =
     and_then file (\<lambda>f.
       if \<not> audit_is_file f \<or> 64 * 1024 < unat (audit_len f) then Inl OtherIo
       else and_then (ok_or OtherIo (audit_bytes f)) (\<lambda>stream.
         let bytes = take (64 * 1024 + 1) stream in
         if 64 * 1024 < length bytes then Inl OtherIo else Inr bytes))"

definition read_bounded_string :: "(io_error, audit_file) result \<Rightarrow> (io_error, string) result" where
  "read_bounded_string file =
     and_then (read_bounded file) (\<lambda>bytes. if utf8_valid bytes then Inr bytes else Inl OtherIo)"

definition count_matching_lines ::
    "(io_error, audit_file) result \<Rightarrow> (string \<Rightarrow> bool) \<Rightarrow> (io_error, nat) result" where
  "count_matching_lines file predicate =
     (case read_bounded_string file of
        Inr contents \<Rightarrow> Inr (length (filter predicate (text_lines contents)))
      | Inl error \<Rightarrow> if error = NotFound then Inr 0 else Inl error)"

definition allow_record_count :: "(io_error, audit_file) result \<Rightarrow> (io_error, nat) result" where
  "allow_record_count file = count_matching_lines file (\<lambda>line.
     starts_with ''allowed one PermissionRequest '' line \<and> contains_sub ''tool_hash='' line \<and>
     contains_sub ''input_hash='' line)"

definition invocation_count :: "(io_error, audit_file) result \<Rightarrow> (io_error, nat) result" where
  "invocation_count file = count_matching_lines file (starts_with ''invoked event='')"

definition broker_attempt_count :: "(io_error, audit_file) result \<Rightarrow> (io_error, nat) result" where
  "broker_attempt_count file = count_matching_lines file (\<lambda>line. line = ''broker connection'')"

definition exact_request_count ::
    "crypto \<Rightarrow> (io_error, audit_file) result \<Rightarrow> string \<Rightarrow> json \<Rightarrow> (io_error, nat) result" where
  "exact_request_count cr file tool input = count_matching_lines file (\<lambda>line.
     starts_with ''request event=PermissionRequest '' line \<and>
     contains_sub (''tool_hash='' @ short_hash cr tool @ '' '') line \<and>
     contains_sub (''input_hash='' @ json_hash cr input) line)"

definition emitted_allow_count ::
    "crypto \<Rightarrow> (io_error, audit_file) result \<Rightarrow> string \<Rightarrow> json \<Rightarrow> (io_error, nat) result" where
  "emitted_allow_count cr file tool input = count_matching_lines file (\<lambda>line.
     starts_with ''emitted one PermissionRequest '' line \<and>
     contains_sub (''tool_hash='' @ short_hash cr tool @ '' '') line \<and>
     contains_sub (''input_hash='' @ json_hash cr input) line)"

section \<open>The lines and the reader of the log\<close>

lemma lower_hex_plain: "list_all is_lower_hex s \<Longrightarrow> ascii_text s \<and> CHR 0x0A \<notin> set s \<and> CHR 0x0D \<notin> set s"
  by (auto simp: ascii_text_def list_all_iff is_lower_hex_def is_ascii_digit_def byte_def)

lemma hash_lower_hex: "list_all is_lower_hex (short_hash cr s)" "list_all is_lower_hex (json_hash cr v)"
  by (simp_all add: short_hash_def json_hash_def digest_prefix_def to_hex_lower_hex)

text \<open>A line of printable ASCII characters stands for itself in the file.\<close>

definition log_line :: "string \<Rightarrow> bool" where
  "log_line s = list_all (\<lambda>c. 32 \<le> byte c \<and> byte c < 127) s"

lemma log_line_append [simp]: "log_line (s @ t) = (log_line s \<and> log_line t)"
  by (simp add: log_line_def)

lemma log_line_hash [simp]: "log_line (short_hash cr s)" "log_line (json_hash cr v)"
  "log_line (input_hash cr i)"
proof -
  have h: "log_line s" if "list_all is_lower_hex s" for s
    using that by (auto simp: log_line_def list_all_iff is_lower_hex_def is_ascii_digit_def)
  show "log_line (short_hash cr s)" "log_line (json_hash cr v)"
    using h hash_lower_hex by blast+
  then show "log_line (input_hash cr i)"
    using h hash_lower_hex(2) by (auto simp: input_hash_def log_line_def byte_def split: option.splits)
qed

lemma log_line_label [simp]: "log_line (event_label e)"
  by (simp add: event_label_def log_line_def byte_def split: option.splits)

lemma broker_lines_log_line [simp]:
  "log_line attempt_line" "log_line (invoked_line cr tool event)"
  "log_line (request_line cr tool event input)" "log_line (allow_line cr t input)"
  "log_line (emitted_line cr t input)"
proof -
  have lit: "log_line ''broker connection''" "log_line ''invoked event=''" "log_line '' tool_hash=''"
    "log_line ''request event=''" "log_line '' input_hash=''"
    "log_line ''allowed one PermissionRequest tool_hash=''"
    "log_line ''emitted one PermissionRequest tool_hash=''"
    by (simp_all add: log_line_def byte_def)
  show "log_line attempt_line" "log_line (invoked_line cr tool event)"
    "log_line (request_line cr tool event input)" "log_line (allow_line cr t input)"
    "log_line (emitted_line cr t input)"
    using lit unfolding attempt_line_def invoked_line_def request_line_def allow_line_def
      emitted_line_def log_line_append by simp_all
qed

lemma log_line_plain: "log_line s \<Longrightarrow> plain_line s \<and> ascii_text s"
proof -
  assume s: "log_line s"
  then have "CHR 0x0A \<notin> set s" "CHR 0x0D \<notin> set s"
    by (auto simp: log_line_def list_all_iff byte_def)
  moreover have "ascii_text s" using s by (auto simp: log_line_def ascii_text_def list_all_iff)
  ultimately show ?thesis by (metis last_in_set plain_line_def)
qed

lemma classify_broker_lines [simp]:
  "classify attempt_line = Some Attempt"
  "classify (invoked_line cr tool event) = Some Invoked"
  "classify (request_line cr tool (Some ''PermissionRequest'') input) = Some Requested"
  "classify (allow_line cr t input) = Some Allowed"
  "classify (emitted_line cr t input) = Some Emitted"
proof -
  have "contains_sub '' tool_hash='' (invoked_line cr tool event)"
    using contains_sub_append [of "'' tool_hash=''" "''invoked event='' @ event_label event"
        "short_hash cr (tool_or_unknown tool)"]
    by (simp add: invoked_line_def)
  moreover have "starts_with ''invoked event='' (invoked_line cr tool event)"
    by (simp add: invoked_line_def starts_with_Cons)
  moreover have "invoked_line cr tool event \<noteq> ''broker connection''"
    by (simp add: invoked_line_def)
  ultimately show "classify (invoked_line cr tool event) = Some Invoked"
    by (simp add: classify_def)
qed (simp_all add: classify_def attempt_line_def request_line_def allow_line_def emitted_line_def
    event_label_def starts_with_Cons)

text \<open>The hook's reports are of no class: a log that holds one is refused.\<close>

lemma classify_hook_lines:
  "stage_line category = Some line \<Longrightarrow> classify line = None"
  "outcome_line outcome = Some line \<Longrightarrow> classify line = None"
  by (auto simp: stage_line_def outcome_line_def classify_def starts_with_Cons split: if_splits)

end
