(* ===== verification/Ledger.thy ===== *)
theory Ledger
  imports Audit_Log
begin

text \<open>
  The broker's request ledger, \<^verbatim>\<open>RequestLedger\<close> of \<^verbatim>\<open>src/broker/mod.rs\<close>: an allowed
  request consumes its process invocation and its digest for good.
\<close>

section \<open>One shot gates\<close>

text \<open>
  What a client of the ledger relies on: a request whose key has been spent is never granted, a
  grant spends the key of the request, a refusal spends nothing.
\<close>

locale one_shot =
  fixes consume :: "'r \<Rightarrow> 's \<Rightarrow> bool \<times> 's"
    and key :: "'r \<Rightarrow> 'k"
    and spent :: "'s \<Rightarrow> 'k set"
  assumes grant: "consume r s = (True, s') \<Longrightarrow> key r \<notin> spent s \<and> spent s' = insert (key r) (spent s)"
    and refuse: "consume r s = (False, s') \<Longrightarrow> s' = s"
begin

text \<open>The requests that a sequence of attempts grants, and the state it leaves.\<close>

fun run :: "'r list \<Rightarrow> 's \<Rightarrow> 'r list \<times> 's" where
  "run [] s = ([], s)"
| "run (r # rs) s =
     (case consume r s of (granted, s') \<Rightarrow>
        (case run rs s' of (gs, t) \<Rightarrow> (if granted then r # gs else gs, t)))"

lemma run_spent:
  assumes "run rs s = (gs, t)"
  shows "distinct (map key gs) \<and> key ` set gs \<inter> spent s = {} \<and> spent t = spent s \<union> key ` set gs \<and>
    set gs \<subseteq> set rs"
  using assms
proof (induction rs arbitrary: s gs t)
  case (Cons r rs)
  obtain granted s' where c: "consume r s = (granted, s')" by fastforce
  obtain gs' t' where rest: "run rs s' = (gs', t')" by fastforce
  note ih = Cons.IH [OF rest]
  show ?case
  proof (cases granted)
    case True
    then have gs: "gs = r # gs'" "t = t'" and g: "key r \<notin> spent s" "spent s' = insert (key r) (spent s)"
      using Cons.prems c rest grant [of r s s'] by auto
    from ih g(2) have "key ` set gs' \<inter> spent s = {}" "key r \<notin> key ` set gs'" by blast+
    with ih gs g show ?thesis by auto
  next
    case False
    then show ?thesis using Cons.prems c rest ih refuse [of r s s'] by auto
  qed
qed simp

lemma run_invariant:
  assumes "run rs s = (gs, t)" "P s"
    and "\<And>r s s'. consume r s = (True, s') \<Longrightarrow> P s \<Longrightarrow> P s'"
  shows "P t"
  using assms(1,2)
proof (induction rs arbitrary: s gs t)
  case (Cons r rs)
  obtain granted s' where c: "consume r s = (granted, s')" by fastforce
  obtain gs' t' where rest: "run rs s' = (gs', t')" by fastforce
  have "P s'"
    using assms(3) [of r s s'] refuse [of r s s'] c Cons.prems(2) by (cases granted) auto
  from Cons.IH [OF rest this] show ?case using Cons.prems(1) c rest by simp
qed simp

end

section \<open>The ledger\<close>

record ledger =
  ledger_session :: "string option"
  invocations :: "(u32 \<times> u64) set"
  requests :: "string set"

definition empty_ledger :: ledger where
  "empty_ledger = \<lparr>ledger_session = None, invocations = {}, requests = {}\<rparr>"

definition MAX_INVOCATIONS :: nat where
  "MAX_INVOCATIONS = 4096"

definition consume :: "crypto \<Rightarrow> hook_input \<Rightarrow> u32 \<Rightarrow> u64 \<Rightarrow> bool \<Rightarrow> ledger \<Rightarrow> bool \<times> ledger" where
  "consume cr input pid started verification l =
     (case session_id input of
        None \<Rightarrow> (False, l)
      | Some session \<Rightarrow>
          if session = [] then (False, l)
          else if is_some_and (ledger_session l) (\<lambda>expected. expected \<noteq> session) \<or>
                  MAX_INVOCATIONS \<le> card (invocations l) \<or>
                  (verification \<and> invocations l \<noteq> {}) \<or>
                  (pid, started) \<in> invocations l
          then (False, l)
          else case request_to_vec cr input of
            None \<Rightarrow> (False, l)
          | Some bytes \<Rightarrow>
              (let digest = to_hex (sha256_of cr bytes) in
               if digest \<in> requests l then (False, l)
               else (True, l\<lparr>requests := insert digest (requests l),
                            ledger_session := Some session,
                            invocations := insert (pid, started) (invocations l)\<rparr>)))"

text \<open>An attempt as the broker makes it.\<close>

record attempt =
  attempt_input :: hook_input
  attempt_pid :: u32
  attempt_started :: u64
  attempt_verification :: bool

definition try_consume :: "crypto \<Rightarrow> attempt \<Rightarrow> ledger \<Rightarrow> bool \<times> ledger" where
  "try_consume cr a l =
     consume cr (attempt_input a) (attempt_pid a) (attempt_started a) (attempt_verification a) l"

definition invocation_key :: "attempt \<Rightarrow> u32 \<times> u64" where
  "invocation_key a = (attempt_pid a, attempt_started a)"

definition digest_key :: "crypto \<Rightarrow> attempt \<Rightarrow> string" where
  "digest_key cr a = to_hex (sha256_of cr (the (request_to_vec cr (attempt_input a))))"

lemma consume_True:
  "(consume cr input pid started verification l = (True, l')) =
     (\<exists>session bytes. session_id input = Some session \<and> session \<noteq> [] \<and>
        ledger_session l \<in> {None, Some session} \<and> card (invocations l) < MAX_INVOCATIONS \<and>
        (\<not> verification \<or> invocations l = {}) \<and> (pid, started) \<notin> invocations l \<and>
        request_to_vec cr input = Some bytes \<and> to_hex (sha256_of cr bytes) \<notin> requests l \<and>
        l' = l\<lparr>requests := insert (to_hex (sha256_of cr bytes)) (requests l),
               ledger_session := Some session,
               invocations := insert (pid, started) (invocations l)\<rparr>)"
  by (cases "ledger_session l")
    (auto simp: consume_def Let_def not_le split: option.splits if_splits)

lemma consume_False: "consume cr input pid started verification l = (False, l') \<Longrightarrow> l' = l"
  by (auto simp: consume_def Let_def split: option.splits if_splits)

interpretation by_invocation: one_shot "try_consume cr" invocation_key invocations for cr
  by unfold_locales
    (auto simp: try_consume_def consume_True invocation_key_def dest: consume_False)

interpretation by_digest: one_shot "try_consume cr" "digest_key cr" requests for cr
  by unfold_locales
    (auto simp: try_consume_def consume_True digest_key_def dest: consume_False)

text \<open>The shape of a reachable ledger.\<close>

definition ledger_inv :: "ledger \<Rightarrow> bool" where
  "ledger_inv l =
     (finite (invocations l) \<and> finite (requests l) \<and> card (invocations l) \<le> MAX_INVOCATIONS \<and>
      card (requests l) = card (invocations l) \<and>
      (ledger_session l = None \<longleftrightarrow> invocations l = {}) \<and> ledger_session l \<noteq> Some [])"

lemma ledger_inv_empty: "ledger_inv empty_ledger"
  by (simp add: ledger_inv_def empty_ledger_def)

lemma ledger_inv_consume:
  assumes "consume cr input pid started verification l = (True, l')" "ledger_inv l"
  shows "ledger_inv l' \<and> ledger_session l' = session_id input"
  using assms by (auto simp: consume_True ledger_inv_def)

lemma run_sessions:
  assumes "by_invocation.run cr rs l = (gs, l')"
  shows "(\<forall>g \<in> set gs. session_id (attempt_input g) = ledger_session l') \<and>
    (ledger_session l \<noteq> None \<longrightarrow> ledger_session l' = ledger_session l)"
  using assms
proof (induction rs arbitrary: l gs l')
  case (Cons r rs)
  obtain granted m where c: "try_consume cr r l = (granted, m)" by fastforce
  obtain gs' t' where rest: "by_invocation.run cr rs m = (gs', t')" by fastforce
  note ih = Cons.IH [OF rest]
  show ?case
  proof (cases granted)
    case True
    then have "session_id (attempt_input r) = ledger_session m" "ledger_session m \<noteq> None"
      "ledger_session l \<noteq> None \<longrightarrow> ledger_session m = ledger_session l"
      using c by (auto simp: try_consume_def consume_True)
    then show ?thesis using True Cons.prems c rest ih by auto
  next
    case False
    then have "m = l" using c consume_False by (auto simp: try_consume_def)
    then show ?thesis using False Cons.prems c rest ih by auto
  qed
qed simp

lemma run_verification:
  assumes "by_invocation.run cr rs l = (gs, l')" "\<forall>r \<in> set rs. attempt_verification r"
    "invocations l \<noteq> {}"
  shows "gs = []"
  using assms
proof (induction rs arbitrary: gs)
  case (Cons r rs)
  then have "try_consume cr r l \<noteq> (True, m)" for m
    by (simp add: try_consume_def consume_True)
  then obtain m where m: "try_consume cr r l = (False, m)"
    by (cases "try_consume cr r l"; cases "fst (try_consume cr r l)") auto
  then have "m = l" using consume_False by (auto simp: try_consume_def)
  with m Cons.prems Cons.IH show ?case
    by (cases "by_invocation.run cr rs l") auto
qed simp

lemma run_verification_once:
  assumes "by_invocation.run cr rs l = (gs, l')" "\<forall>r \<in> set rs. attempt_verification r"
  shows "length gs \<le> 1"
  using assms
proof (induction rs arbitrary: l gs l')
  case (Cons r rs)
  obtain granted m where c: "try_consume cr r l = (granted, m)" by fastforce
  obtain gs' t' where rest: "by_invocation.run cr rs m = (gs', t')" by fastforce
  show ?case
  proof (cases granted)
    case True
    then have "invocations m \<noteq> {}" using c by (auto simp: try_consume_def consume_True)
    then have "gs' = []" using run_verification [OF rest] Cons.prems(2) by simp
    then show ?thesis using True Cons.prems c rest by auto
  next
    case False
    then show ?thesis using Cons.IH [OF rest] Cons.prems c rest by auto
  qed
qed simp

section \<open>Properties\<close>

text \<open>Over any sequence of attempts no process invocation and no request digest is granted
  twice, at most 4096 requests are granted, and all granted ones belong to one session.\<close>

theorem ledger_no_replay:
  assumes "by_invocation.run cr rs empty_ledger = (gs, l')"
  shows "distinct (map invocation_key gs) \<and> distinct (map (digest_key cr) gs) \<and>
    length gs \<le> 4096 \<and> (\<exists>session. \<forall>g \<in> set gs. session_id (attempt_input g) = session)"
proof -
  have inv: "distinct (map invocation_key gs)" "invocations l' = invocation_key ` set gs"
    using by_invocation.run_spent [OF assms] by (auto simp: empty_ledger_def)
  have dig: "distinct (map (digest_key cr) gs)"
    using by_digest.run_spent [OF assms] by blast
  have "ledger_inv l'"
    by (rule by_invocation.run_invariant [where P = ledger_inv, OF assms ledger_inv_empty])
      (auto simp: try_consume_def dest: ledger_inv_consume)
  moreover have "card (invocations l') = length gs"
    using inv by (metis distinct_card length_map list.set_map)
  ultimately have "length gs \<le> 4096" by (simp add: ledger_inv_def MAX_INVOCATIONS_def)
  then show ?thesis using inv dig run_sessions [OF assms] by blast
qed

definition example_crypto :: crypto where
  "example_crypto =
     \<lparr>sha256_of = map (\<lambda>c. word_of_nat (byte c)), to_vec = (\<lambda>_. None),
      request_to_vec = (\<lambda>h. turn_id h)\<rparr>"

definition example_attempt :: "string \<Rightarrow> u32 \<Rightarrow> bool \<Rightarrow> attempt" where
  "example_attempt turn pid verification =
     \<lparr>attempt_input = \<lparr>hook_event_name = Some ''PermissionRequest'', session_id = Some ''s1'',
        transcript_path = None, cwd = Some ''/w'', hook_model = Some ''m'', tool_name = Some ''Bash'',
        tool_input = Some JNull, turn_id = Some turn, permission_mode = Some ''default''\<rparr>,
      attempt_pid = pid, attempt_started = 5, attempt_verification = verification\<rparr>"

lemma example_run:
  "\<exists>gs l'. by_invocation.run example_crypto
     [example_attempt ''a'' 1 False, example_attempt ''b'' 1 False, example_attempt ''a'' 2 False,
      example_attempt ''c'' 3 False] empty_ledger = (gs, l') \<and>
     gs = [example_attempt ''a'' 1 False, example_attempt ''c'' 3 False]"
  by (simp add: try_consume_def consume_def example_attempt_def example_crypto_def empty_ledger_def
      MAX_INVOCATIONS_def Let_def to_hex_def hex_byte_def hex_digit_def byte_def)

theorem ledger_no_replay_witness:
  "distinct (map invocation_key [example_attempt ''a'' 1 False, example_attempt ''c'' 3 False])"
  using example_run ledger_no_replay by blast

text \<open>A broker that runs for a live verification grants one request in its whole life.\<close>

theorem verification_grants_once:
  assumes "by_invocation.run cr rs l = (gs, l')" "\<forall>r \<in> set rs. attempt_verification r"
  shows "length gs \<le> 1"
  using assms by (rule run_verification_once)

theorem verification_grants_once_witness:
  "length (fst (by_invocation.run example_crypto
     [example_attempt ''a'' 1 True, example_attempt ''b'' 2 True] empty_ledger)) \<le> 1"
  by (rule verification_grants_once [OF prod.collapse [symmetric]])
    (simp add: example_attempt_def)

end
