(* ===== verification/Frames.thy ===== *)
theory Frames
  imports Rust_Text
begin

text \<open>
  The framing of broker messages, \<^verbatim>\<open>read_frame_until\<close>, \<^verbatim>\<open>write_frame_until\<close> and their
  loops in \<^verbatim>\<open>src/broker/linux.rs\<close>, and the comparison of secrets.  A stream is what its next
  calls return; a call is made only before the deadline.
\<close>

section \<open>Streams\<close>

text \<open>
  What one call returns: some bytes (none at the end of the stream), an interruption, a time out
  or another error.  A call after the deadline is not made.  A read is offered the buffer that is
  left, so of what has arrived it returns no more than that.
\<close>

datatype io_event = Bytes string | Interrupted | WouldBlock | IoFailure | DeadlinePassed

datatype frame_error = UnexpectedEof | TimedOut | InvalidLength | StreamFailure | TrailingBytes | WriteZero

definition deadline_passed :: "io_event list \<Rightarrow> bool" where
  "deadline_passed es = (case es of DeadlinePassed # _ \<Rightarrow> True | _ \<Rightarrow> False)"

text \<open>The rest of the bytes of an event stay in the stream; after the last event comes its end.\<close>

fun read_exact_until :: "io_event list \<Rightarrow> nat \<Rightarrow> string \<Rightarrow> io_event list \<times> (frame_error, string) result"
where
  "read_exact_until es 0 acc = (es, if deadline_passed es then Inl TimedOut else Inr acc)"
| "read_exact_until [] (Suc n) acc = ([], Inl UnexpectedEof)"
| "read_exact_until (DeadlinePassed # es) (Suc n) acc = (DeadlinePassed # es, Inl TimedOut)"
| "read_exact_until (Interrupted # es) (Suc n) acc = read_exact_until es (Suc n) acc"
| "read_exact_until (WouldBlock # es) (Suc n) acc = (es, Inl TimedOut)"
| "read_exact_until (IoFailure # es) (Suc n) acc = (es, Inl StreamFailure)"
| "read_exact_until (Bytes s # es) (Suc n) acc =
     (if s = [] then (es, Inl UnexpectedEof)
      else if length s \<le> Suc n then read_exact_until es (Suc n - length s) (acc @ s)
      else (Bytes (drop (Suc n) s) # es, Inr (acc @ take (Suc n) s)))"

lemma read_exact_Bytes:
  assumes "0 < n"
  shows "read_exact_until (Bytes s # es) n acc =
    (if s = [] then (es, Inl UnexpectedEof)
     else if length s \<le> n then read_exact_until es (n - length s) (acc @ s)
     else (Bytes (drop n s) # es, Inr (acc @ take n s)))"
  using assms by (cases n) simp_all

definition to_be_bytes :: "u32 \<Rightarrow> string" where
  "to_be_bytes w =
     map char_of [unat w div 2 ^ 24, unat w div 2 ^ 16 mod 256, unat w div 2 ^ 8 mod 256,
       unat w mod 256]"

definition from_be_bytes :: "string \<Rightarrow> u32" where
  "from_be_bytes s = word_of_nat (foldl (\<lambda>n c. n * 256 + byte c) 0 s)"

definition read_frame_until ::
    "io_event list \<Rightarrow> nat \<Rightarrow> io_event list \<times> (frame_error, string) result" where
  "read_frame_until es maximum =
     (case read_exact_until es 4 [] of
        (es, Inl e) \<Rightarrow> (es, Inl e)
      | (es, Inr header) \<Rightarrow>
          (let len = unat (from_be_bytes header) in
           if len = 0 \<or> maximum < len then (es, Inl InvalidLength)
           else read_exact_until es len []))"

definition ensure_no_trailing_data :: "io_event list \<Rightarrow> (frame_error, unit) result" where
  "ensure_no_trailing_data es =
     (case es of
        [] \<Rightarrow> Inr ()
      | DeadlinePassed # _ \<Rightarrow> Inl TimedOut
      | Bytes s # _ \<Rightarrow> (if s = [] then Inr () else Inl TrailingBytes)
      | _ # _ \<Rightarrow> Inl StreamFailure)"

text \<open>What one write returns: how many of the offered bytes were taken, or an error.\<close>

datatype write_event = Accepts nat | WriteInterrupted | WriteWouldBlock | WriteFailure | WriteDeadline

text \<open>The bytes the peer has been sent are returned with the outcome.\<close>

fun write_all_until ::
    "write_event list \<Rightarrow> string \<Rightarrow> string \<Rightarrow> write_event list \<times> string \<times> (frame_error, unit) result"
where
  "write_all_until es [] sent = (es, sent, Inr ())"
| "write_all_until [] (c # bytes) sent = ([], sent, Inl StreamFailure)"
| "write_all_until (e # es) (c # bytes) sent =
     (case e of
        WriteDeadline \<Rightarrow> (e # es, sent, Inl TimedOut)
      | WriteInterrupted \<Rightarrow> write_all_until es (c # bytes) sent
      | WriteWouldBlock \<Rightarrow> (es, sent, Inl TimedOut)
      | WriteFailure \<Rightarrow> (es, sent, Inl StreamFailure)
      | Accepts n \<Rightarrow>
          (if n = 0 then (es, sent, Inl WriteZero)
           else write_all_until es (drop n (c # bytes)) (sent @ take n (c # bytes))))"

definition write_frame_until ::
    "write_event list \<Rightarrow> string \<Rightarrow> nat \<Rightarrow> write_event list \<times> string \<times> (frame_error, unit) result" where
  "write_frame_until es bytes maximum =
     (if bytes = [] \<or> maximum < length bytes then (es, [], Inl InvalidLength)
      else if 2 ^ 32 \<le> length bytes then (es, [], Inl InvalidLength)
      else case write_all_until es (to_be_bytes (word_of_nat (length bytes))) [] of
        (es, sent, Inl e) \<Rightarrow> (es, sent, Inl e)
      | (es, sent, Inr _) \<Rightarrow> write_all_until es bytes sent)"

section \<open>Secrets\<close>

definition char_u8 :: "char \<Rightarrow> u8" where
  "char_u8 c = word_of_nat (byte c)"

definition constant_time_equal :: "string \<Rightarrow> string \<Rightarrow> bool" where
  "constant_time_equal left right =
     (if length left \<noteq> length right then False
      else foldl (\<lambda>difference (a, b). difference OR (char_u8 a XOR char_u8 b)) 0 (zip left right) = 0)"

lemma char_u8_inj: "char_u8 a = char_u8 b \<longleftrightarrow> a = b"
  using byte_less_256 [of a] byte_less_256 [of b]
  by (auto simp: char_u8_def word_unat_eq_iff unat_word_of_nat byte_eq_iff)

lemma foldl_difference:
  "foldl (\<lambda>d (a, b). d OR (char_u8 a XOR char_u8 b)) d ps = 0 \<longleftrightarrow>
     d = 0 \<and> list_all (\<lambda>(a, b). a = b) ps"
proof (induction ps arbitrary: d)
  case (Cons p ps)
  have "(x OR y = 0) = (x = 0 \<and> y = 0)" for x y :: u8
    by (simp add: bit_eq_iff bit_or_iff) blast
  moreover have "(x XOR y = 0) = (x = y)" for x y :: u8
    by (simp add: bit_eq_iff bit_xor_iff)
  ultimately show ?case using Cons by (cases p) (simp add: char_u8_inj)
qed simp

lemma constant_time_equal_iff: "constant_time_equal left right = (left = right)"
proof -
  have "length left = length right \<Longrightarrow> list_all (\<lambda>(a, b). a = b) (zip left right) = (left = right)"
    by (induction left right rule: list_induct2) auto
  then show ?thesis by (auto simp: constant_time_equal_def foldl_difference)
qed

section \<open>Frames survive any segmentation\<close>

text \<open>A stream that delivers bytes without an error: what it delivers.\<close>

fun clean_event :: "io_event \<Rightarrow> bool" where
  "clean_event (Bytes s) = (s \<noteq> [])"
| "clean_event Interrupted = True"
| "clean_event _ = False"

fun event_bytes :: "io_event \<Rightarrow> string" where
  "event_bytes (Bytes s) = s"
| "event_bytes _ = []"

definition delivered :: "io_event list \<Rightarrow> string" where
  "delivered es = concat (map event_bytes es)"

lemma delivered_simps [simp]:
  "delivered [] = []" "delivered (e # es) = event_bytes e @ delivered es"
  by (simp_all add: delivered_def)

lemma clean_not_deadline: "list_all clean_event es \<Longrightarrow> \<not> deadline_passed es"
  by (auto simp: deadline_passed_def split: list.splits io_event.splits)

lemma read_exact_clean:
  assumes "list_all clean_event es" "n \<le> length (delivered es)"
  shows "\<exists>es'. read_exact_until es n acc = (es', Inr (acc @ take n (delivered es))) \<and>
    list_all clean_event es' \<and> delivered es' = drop n (delivered es)"
  using assms
proof (induction es n acc rule: read_exact_until.induct)
  case (1 es acc)
  then show ?case by (simp add: clean_not_deadline)
qed (auto simp: not_le)

lemma to_be_bytes_length [simp]: "length (to_be_bytes w) = 4"
  by (simp add: to_be_bytes_def)

lemma byte_of_char [simp]: "byte (char_of n) = n mod 256"
  by (simp add: byte_def)

lemma base_256: "(n :: nat) = ((n div 2 ^ 24 * 256 + n div 2 ^ 16 mod 256) * 256 + n div 2 ^ 8 mod 256) * 256 +
    n mod 256"
proof -
  have "n div 2 ^ 16 = n div 2 ^ 8 div 256" "n div 2 ^ 24 = n div 2 ^ 16 div 256"
    by (simp_all flip: div_mult2_eq)
  then have "n div 2 ^ 8 = n div 2 ^ 16 * 256 + n div 2 ^ 8 mod 256"
    "n div 2 ^ 16 = n div 2 ^ 24 * 256 + n div 2 ^ 16 mod 256"
    by simp_all
  moreover have "n = n div 2 ^ 8 * 256 + n mod 256" by simp
  ultimately show ?thesis by (metis)
qed

lemma from_to_be_bytes: "from_be_bytes (to_be_bytes w) = w"
proof -
  have "unat w < 2 ^ 32" using unsigned_less [of w] by simp
  then have "unat w div 2 ^ 24 mod 256 = unat w div 2 ^ 24" by simp
  then have "foldl (\<lambda>n c. n * 256 + byte c) 0 (to_be_bytes w) =
      ((unat w div 2 ^ 24 * 256 + unat w div 2 ^ 16 mod 256) * 256 + unat w div 2 ^ 8 mod 256) * 256 +
        unat w mod 256"
    unfolding to_be_bytes_def list.map foldl.simps byte_of_char
    by (simp only: mod_mod_trivial mult_0 add_0_left)
  also have "\<dots> = unat w" by (rule base_256 [symmetric])
  finally show ?thesis by (simp add: from_be_bytes_def)
qed

text \<open>What a complete write has sent.\<close>

lemma write_all_sent:
  assumes "write_all_until es bytes sent = (es', out, Inr ())"
  shows "out = sent @ bytes"
  using assms
proof (induction es bytes sent rule: write_all_until.induct)
  case (3 e es c bytes sent)
  then show ?case by (cases e) (auto split: if_splits simp: append_take_drop_id)
qed auto

lemma write_frame_sent:
  assumes "write_frame_until es bytes maximum = (es', out, Inr ())"
  shows "bytes \<noteq> [] \<and> length bytes \<le> maximum \<and> length bytes < 2 ^ 32 \<and>
    out = to_be_bytes (word_of_nat (length bytes)) @ bytes"
proof -
  have b: "bytes \<noteq> []" "length bytes \<le> maximum" "length bytes < 2 ^ 32"
    using assms by (auto simp: write_frame_until_def not_le split: if_splits)
  obtain es1 sent u where h: "write_all_until es (to_be_bytes (word_of_nat (length bytes))) [] =
      (es1, sent, Inr u)" and p: "write_all_until es1 bytes sent = (es', out, Inr ())"
    using assms b by (auto simp: write_frame_until_def split: prod.splits sum.splits)
  then have "write_all_until es (to_be_bytes (word_of_nat (length bytes))) [] = (es1, sent, Inr ())"
    by simp
  from write_all_sent [OF this] write_all_sent [OF p] b show ?thesis by simp
qed

lemma read_frame_clean:
  assumes "write_frame_until out_events message maximum = (rest_events, sent, Inr ())"
    and "list_all clean_event es" "delivered es = sent @ later"
  shows "\<exists>es'. read_frame_until es maximum = (es', Inr message) \<and> list_all clean_event es' \<and>
    delivered es' = later"
proof -
  note w = write_frame_sent [OF assms(1)]
  have len: "unat (word_of_nat (length message) :: u32) = length message"
    using w by (intro unat_word_of_nat) simp
  have d: "delivered es = to_be_bytes (word_of_nat (length message)) @ message @ later"
    using w assms(3) by simp
  obtain es1 where es1: "read_exact_until es 4 [] = (es1, Inr (to_be_bytes (word_of_nat (length message))))"
    "list_all clean_event es1" "delivered es1 = message @ later"
    using read_exact_clean [OF assms(2), of 4 "[]"] unfolding d by auto
  obtain es2 where "read_exact_until es1 (length message) [] = (es2, Inr message)"
    "list_all clean_event es2" "delivered es2 = later"
    using read_exact_clean [OF es1(2), of "length message" "[]"] unfolding es1(3) by auto
  then show ?thesis
    using es1(1) w len by (auto simp: read_frame_until_def Let_def from_to_be_bytes)
qed

text \<open>A write that fails has sent a proper prefix of the frame, which no reader takes for a message.\<close>

lemma write_all_prefix:
  assumes "write_all_until es bytes sent = (es', out, Inl e)"
  shows "\<exists>k < length bytes. out = sent @ take k bytes"
  using assms
proof (induction es bytes sent rule: write_all_until.induct)
  case (3 v es c bytes sent)
  show ?case
  proof (cases v)
    case (Accepts n)
    show ?thesis
    proof (cases "n = 0")
      case True
      then show ?thesis using 3(3) Accepts by auto
    next
      case False
      with 3(3) Accepts have "write_all_until es (drop n (c # bytes)) (sent @ take n (c # bytes)) =
          (es', out, Inl e)" by simp
      from 3(1) [OF Accepts False this] obtain k where
        "k < length (drop n (c # bytes))" "out = (sent @ take n (c # bytes)) @ take k (drop n (c # bytes))"
        by blast
      then show ?thesis
        by (intro exI [of _ "n + k"]) (simp add: take_add)
    qed
  qed (use 3(2,3) in \<open>auto intro!: exI [of _ 0]\<close>)
qed auto

lemma write_frame_prefix:
  assumes "write_frame_until es bytes maximum = (es', out, Inl e)"
  shows "out = [] \<or> (length bytes < 2 ^ 32 \<and>
    (\<exists>k < 4 + length bytes. out = take k (to_be_bytes (word_of_nat (length bytes)) @ bytes)))"
proof -
  let ?h = "to_be_bytes (word_of_nat (length bytes))"
  show ?thesis
  proof (cases "bytes = [] \<or> maximum < length bytes \<or> 2 ^ 32 \<le> length bytes")
    case True
    then show ?thesis using assms by (auto simp: write_frame_until_def split: if_splits)
  next
    case False
    obtain es1 sent res where h: "write_all_until es ?h [] = (es1, sent, res)" by (metis prod_cases3)
    show ?thesis
    proof (cases res)
      case (Inl e')
      with False assms h have "out = sent" by (simp add: write_frame_until_def)
      moreover obtain k where "k < 4" "sent = take k ?h"
        using write_all_prefix [OF h [unfolded Inl]] by auto
      ultimately show ?thesis using False by (intro disjI2 conjI exI [of _ k]) simp_all
    next
      case (Inr u)
      then have "write_all_until es1 bytes ?h = (es', out, Inl e)"
        using False assms h write_all_sent [of es ?h "[]" es1 sent]
        by (simp add: write_frame_until_def)
      then obtain k where "k < length bytes" "out = ?h @ take k bytes"
        using write_all_prefix by blast
      then show ?thesis using False by (intro disjI2 conjI exI [of _ "4 + k"]) simp_all
    qed
  qed
qed

lemma read_exact_short:
  assumes "list_all clean_event es" "length (delivered es) < n"
  shows "\<exists>es' e. read_exact_until es n acc = (es', Inl e)"
  using assms by (induction es n acc rule: read_exact_until.induct) auto

lemma read_frame_truncated:
  assumes "write_frame_until out_events message maximum = (rest_events, sent, Inl e)"
    and "list_all clean_event es" "delivered es = sent"
  shows "\<exists>es' e. read_frame_until es maximum = (es', Inl e)"
proof (cases "length sent < 4")
  case True
  then show ?thesis
    using read_exact_short [OF assms(2), of 4 "[]"] assms(3) by (auto simp: read_frame_until_def)
next
  case False
  let ?h = "to_be_bytes (word_of_nat (length message))"
  obtain k where k: "length message < 2 ^ 32" "k < 4 + length message" "sent = take k (?h @ message)"
    using write_frame_prefix [OF assms(1)] False by auto
  then have d: "delivered es = ?h @ take (k - 4) message" "4 \<le> k" using False assms(3) by auto
  obtain es1 where es1: "read_exact_until es 4 [] = (es1, Inr ?h)"
    "list_all clean_event es1" "delivered es1 = take (k - 4) message"
    using read_exact_clean [OF assms(2), of 4 "[]"] unfolding d by auto
  obtain es2 e2 where "read_exact_until es1 (length message) [] = (es2, Inl e2)"
    using read_exact_short [OF es1(2), of "length message" "[]"] es1(3) k(2) d(2) by fastforce
  then show ?thesis
    using es1(1) k(1) by (simp add: read_frame_until_def Let_def from_to_be_bytes unat_word_of_nat)
qed

section \<open>Properties\<close>

text \<open>C27: a frame that one side has written completely is read by the other side as the same
  message, in whatever pieces and with whatever interruptions the bytes arrive, and what follows
  the frame stays in the stream.\<close>

theorem frame_roundtrip:
  assumes "write_frame_until out_events message maximum = (rest_events, sent, Inr ())"
    and "list_all clean_event es" "delivered es = sent @ later"
  shows "\<exists>es'. read_frame_until es maximum = (es', Inr message) \<and> list_all clean_event es' \<and>
    delivered es' = later"
  using assms by (rule read_frame_clean)

theorem frame_roundtrip_witness:
  "\<exists>es'. read_frame_until [Bytes (take 2 (to_be_bytes 2)), Interrupted, Bytes (drop 2 (to_be_bytes 2)),
     Bytes ''ab''] 10 = (es', Inr ''ab'')"
proof -
  have "write_frame_until [Accepts 3, WriteInterrupted, Accepts 1, Accepts 9] ''ab'' 10 =
      ([], to_be_bytes 2 @ ''ab'', Inr ())"
    by (simp add: write_frame_until_def to_be_bytes_def)
  from frame_roundtrip [OF this, of "[Bytes (take 2 (to_be_bytes 2)), Interrupted,
      Bytes (drop 2 (to_be_bytes 2)), Bytes ''ab'']" "[]"]
  show ?thesis by (auto simp: to_be_bytes_def)
qed

text \<open>The comparison that looks at every byte whatever it has found tells exactly whether the
  two secrets are equal.\<close>

theorem constant_time_equal_correct: "constant_time_equal left right = (left = right)"
  by (rule constant_time_equal_iff)

end
