(* ===== verification/Process_Tree.thy ===== *)
theory Process_Tree
  imports Rust_Text
begin

text \<open>
  Process identities and the ancestry of a peer, \<^verbatim>\<open>src/process/linux.rs\<close>.  Processes come and
  go while they are inspected, so a reader is a function of the moment of a read: the functions
  take the number of reads made so far and return it with their result.
\<close>

section \<open>Types\<close>

definition MAX_ANCESTRY_DEPTH :: nat where
  "MAX_ANCESTRY_DEPTH = 32"

text \<open>The user is an effective user number on Linux and a security identifier on Windows; the rest of an identity,
  and the walk to the ancestors, are the same.\<close>

record 'u identity =
  identity_pid :: u32
  start_time :: u64
  identity_user :: 'u

record 'u tree_record =
  process_identity_of :: "'u identity"
  parent_pid :: u32

type_synonym process_identity = "u32 identity"

type_synonym process_record = "u32 tree_record"

abbreviation effective_uid :: "process_identity \<Rightarrow> u32" where
  "effective_uid \<equiv> identity_user"

datatype process_error =
    ProcUnavailable | ProcMalformed | DepthExceeded | AncestryLoop | NotDescendant | ProcChanged

type_synonym 'u tree_reader = "nat \<Rightarrow> u32 \<Rightarrow> (process_error, 'u tree_record) result"

type_synonym process_reader = "u32 tree_reader"

abbreviation record_pid :: "'u tree_record \<Rightarrow> u32" where
  "record_pid r \<equiv> identity_pid (process_identity_of r)"

section \<open>Parsing the proc files\<close>

definition parse_stat :: "string \<Rightarrow> u32 \<Rightarrow> (process_error, process_record) result" where
  "parse_stat content expected_pid =
     (case (find_char (CHR ''('') content, rfind_char (CHR '')'') content) of
        (Some op, Some cl) \<Rightarrow>
          (if cl \<le> op then Inl ProcMalformed
           else case parse_word (trim (take op content)) of
             None \<Rightarrow> Inl ProcMalformed
           | Some pid \<Rightarrow>
               (if pid \<noteq> expected_pid then Inl ProcMalformed
                else let fields = split_whitespace (drop (cl + 1) content) in
                  if length fields \<le> 19 \<or> length (fields ! 0) \<noteq> 1 then Inl ProcMalformed
                  else case parse_word (fields ! 1) of
                    None \<Rightarrow> Inl ProcMalformed
                  | Some parent \<Rightarrow>
                      (case parse_word (fields ! 19) of
                         None \<Rightarrow> Inl ProcMalformed
                       | Some start \<Rightarrow>
                           Inr \<lparr>process_identity_of =
                                 \<lparr>identity_pid = pid, start_time = start, identity_user = 0\<rparr>,
                                parent_pid = parent\<rparr>)))
      | _ \<Rightarrow> Inl ProcMalformed)"

definition parse_effective_uid :: "string \<Rightarrow> (process_error, u32) result" where
  "parse_effective_uid status =
     and_then (ok_or ProcMalformed
       (find (\<lambda>line. strip_prefix ''Uid:'' line \<noteq> None) (text_lines status))) (\<lambda>line.
     and_then (ok_or ProcMalformed
       (if 2 < length (split_whitespace line) then Some (split_whitespace line ! 2) else None)) (\<lambda>uid.
     ok_or ProcMalformed (parse_word uid)))"

text \<open>\<^verbatim>\<open>ProcFs\<close>: the texts of the two files, \<^const>\<open>None\<close> when one cannot be read.\<close>

type_synonym proc_files = "nat \<Rightarrow> u32 \<Rightarrow> string option \<times> string option"

definition proc_fs :: "proc_files \<Rightarrow> process_reader" where
  "proc_fs files t pid =
     (let (stat, status) = files t pid in
      and_then (ok_or ProcUnavailable stat) (\<lambda>stat.
      and_then (and_then (ok_or ProcUnavailable status) parse_effective_uid) (\<lambda>uid.
      and_then (parse_stat stat pid) (\<lambda>rec.
        Inr (rec\<lparr>process_identity_of := (process_identity_of rec)\<lparr>identity_user := uid\<rparr>\<rparr>)))))"

section \<open>Ancestry\<close>

definition current_process_identity ::
    "'u tree_reader \<Rightarrow> nat \<Rightarrow> u32 \<Rightarrow> (process_error, 'u identity) result" where
  "current_process_identity reader t pid =
     and_then (reader t pid) (\<lambda>first.
     and_then (reader (t + 1) pid) (\<lambda>second.
       if first \<noteq> second then Inl ProcChanged else Inr (process_identity_of first)))"

text \<open>The loop runs while fewer than 32 records have been collected; the number still allowed is
  its measure.\<close>

fun collect_loop :: "'u tree_reader \<Rightarrow> u32 \<Rightarrow> nat \<Rightarrow> nat \<Rightarrow> 'u tree_record list \<Rightarrow> u32
    \<Rightarrow> nat \<times> (process_error, 'u tree_record list) result" where
  "collect_loop reader expected 0 t records current = (t, Inl DepthExceeded)"
| "collect_loop reader expected (Suc n) t records current =
     (if current = 0 \<or> list_ex (\<lambda>r. record_pid r = current) records
      then (t, Inl (if current = 0 then NotDescendant else AncestryLoop))
      else case reader t current of
        Inl e \<Rightarrow> (t + 1, Inl e)
      | Inr rec \<Rightarrow>
          (if record_pid rec \<noteq> current then (t + 1, Inl ProcMalformed)
           else if record_pid rec = expected then (t + 1, Inr (records @ [rec]))
           else if parent_pid rec = 0 then (t + 1, Inl NotDescendant)
           else collect_loop reader expected n (t + 1) (records @ [rec]) (parent_pid rec)))"

definition collect_ancestry :: "'u tree_reader \<Rightarrow> nat \<Rightarrow> u32 \<Rightarrow> u32
    \<Rightarrow> nat \<times> (process_error, 'u tree_record list) result" where
  "collect_ancestry reader t peer expected =
     collect_loop reader expected MAX_ANCESTRY_DEPTH t [] peer"

definition validate_ancestry_by :: "('u identity \<Rightarrow> 'u identity \<Rightarrow> bool) \<Rightarrow> 'u tree_reader \<Rightarrow> nat \<Rightarrow> u32 \<Rightarrow>
    'u identity \<Rightarrow> nat \<times> (process_error, unit) result" where
  "validate_ancestry_by matches reader t peer expected =
     (case collect_ancestry reader t peer (identity_pid expected) of
        (t1, Inl e) \<Rightarrow> (t1, Inl e)
      | (t1, Inr first) \<Rightarrow>
          (case collect_ancestry reader t1 peer (identity_pid expected) of
             (t2, Inl e) \<Rightarrow> (t2, Inl e)
           | (t2, Inr second) \<Rightarrow>
               (t2, if first \<noteq> second then Inl ProcChanged
                    else if list_ex (\<lambda>r. matches (process_identity_of r) expected) first then Inr ()
                    else Inl NotDescendant)))"

text \<open>An identity is matched by itself only.\<close>

definition validate_ancestry :: "process_reader \<Rightarrow> nat \<Rightarrow> u32 \<Rightarrow> process_identity
    \<Rightarrow> nat \<times> (process_error, unit) result" where
  "validate_ancestry = validate_ancestry_by (=)"

section \<open>What an accepted ancestry is\<close>

text \<open>A chain of records from a peer up to a process, read from the moment given on.\<close>

fun chain :: "'u tree_reader \<Rightarrow> nat \<Rightarrow> u32 \<Rightarrow> u32 \<Rightarrow> 'u tree_record list \<Rightarrow> bool" where
  "chain reader t peer expected [] = False"
| "chain reader t peer expected (r # rs) =
     (reader t peer = Inr r \<and> record_pid r = peer \<and> peer \<noteq> 0 \<and>
      (if rs = [] then peer = expected
       else peer \<noteq> expected \<and> chain reader (t + 1) (parent_pid r) expected rs))"

lemma collect_loop_Inr:
  assumes "collect_loop reader expected n t records current = (t', Inr out)"
    and "distinct (map record_pid records)"
  shows "\<exists>rs. out = records @ rs \<and> chain reader t current expected rs \<and> length rs \<le> n \<and>
    t' = t + length rs \<and> distinct (map record_pid out)"
  using assms
proof (induction n arbitrary: t records current)
  case (Suc n)
  then obtain rec where cur: "current \<noteq> 0" "\<not> list_ex (\<lambda>r. record_pid r = current) records"
    and rec: "reader t current = Inr rec" "record_pid rec = current"
    by (auto split: if_splits sum.splits)
  have fresh: "current \<notin> set (map record_pid records)"
    using cur(2) by (auto simp: list_ex_iff)
  show ?case
  proof (cases "current = expected")
    case True
    then show ?thesis
      using Suc.prems cur rec fresh by (intro exI [of _ "[rec]"]) auto
  next
    case False
    then have rest: "collect_loop reader expected n (t + 1) (records @ [rec]) (parent_pid rec) =
        (t', Inr out)"
      using Suc.prems(1) cur rec by (auto split: if_splits)
    have "distinct (map record_pid (records @ [rec]))"
      using Suc.prems(2) rec(2) fresh by simp
    from Suc.IH [OF rest this] obtain rs where "out = (records @ [rec]) @ rs"
      "chain reader (t + 1) (parent_pid rec) expected rs" "length rs \<le> n"
      "t' = t + 1 + length rs" "distinct (map record_pid out)" by blast
    moreover from this(2) have "rs \<noteq> []" by auto
    ultimately show ?thesis
      using cur(1) rec False by (intro exI [of _ "rec # rs"]) auto
  qed
qed simp

lemma chain_member:
  assumes "chain reader t peer expected rs" "r \<in> set rs" "record_pid r = expected"
    "distinct (map record_pid rs)"
  shows "r = last rs"
  using assms
proof (induction rs arbitrary: t peer)
  case (Cons x xs)
  show ?case
  proof (cases "xs = []")
    case False
    then have "r \<noteq> x" using Cons.prems by auto
    then show ?thesis
      using Cons False by auto
  qed (use Cons in auto)
qed simp

lemma collect_loop_chain:
  assumes "chain reader t current expected rs" "length rs \<le> n" "distinct (map record_pid (records @ rs))"
  shows "collect_loop reader expected n t records current = (t + length rs, Inr (records @ rs))"
  using assms
proof (induction rs arbitrary: n t records current)
  case (Cons r rs)
  then obtain m where n: "n = Suc m" by (cases n) auto
  have "record_pid r \<notin> record_pid ` set records" using Cons.prems(3) by auto
  then have fresh: "\<not> list_ex (\<lambda>r. record_pid r = current) records"
    using Cons.prems(1) by (force simp: list_ex_iff)
  show ?case
  proof (cases rs)
    case Nil
    then show ?thesis using Cons.prems n fresh by auto
  next
    case (Cons r' rs')
    then have "parent_pid r \<noteq> 0" using Cons.prems(1) by auto
    then show ?thesis
      using Cons Cons.prems n fresh Cons.IH [of "t + 1" "parent_pid r" m "records @ [r]"] by auto
  qed
qed simp

text \<open>What the two walks have seen.\<close>

definition ancestry_seen :: "('u identity \<Rightarrow> 'u identity \<Rightarrow> bool) \<Rightarrow> 'u tree_reader \<Rightarrow> nat \<Rightarrow> u32 \<Rightarrow> 'u identity \<Rightarrow>
    'u tree_record list \<Rightarrow> bool" where
  "ancestry_seen matches reader t peer expected rs =
     (chain reader t peer (identity_pid expected) rs \<and>
      chain reader (t + length rs) peer (identity_pid expected) rs \<and> length rs \<le> 32 \<and>
      distinct (map record_pid rs) \<and> matches (process_identity_of (last rs)) expected)"

lemma validate_ancestry_by_Inr:
  assumes "validate_ancestry_by matches reader t peer expected = (t', Inr ())"
    and pid: "\<And>i. matches i expected \<Longrightarrow> identity_pid i = identity_pid expected"
  shows "\<exists>rs. ancestry_seen matches reader t peer expected rs \<and> t' = t + 2 * length rs"
proof -
  obtain t1 first where first: "collect_ancestry reader t peer (identity_pid expected) = (t1, Inr first)"
    and second: "collect_ancestry reader t1 peer (identity_pid expected) = (t', Inr first)"
    and ex: "list_ex (\<lambda>r. matches (process_identity_of r) expected) first"
    using assms(1) by (auto simp: validate_ancestry_by_def split: prod.splits sum.splits if_splits)
  have 1: "chain reader t peer (identity_pid expected) first" "length first \<le> 32"
    "t1 = t + length first" "distinct (map record_pid first)"
    using collect_loop_Inr [OF first [unfolded collect_ancestry_def]] by (auto simp: MAX_ANCESTRY_DEPTH_def)
  have 2: "chain reader t1 peer (identity_pid expected) first" "t' = t1 + length first"
    using collect_loop_Inr [OF second [unfolded collect_ancestry_def]] by auto
  obtain r where r: "r \<in> set first" "matches (process_identity_of r) expected"
    using ex by (auto simp: list_ex_iff)
  then have "r = last first" using chain_member [OF 1(1) r(1) _ 1(4)] pid by simp
  with 1 2 r show ?thesis unfolding ancestry_seen_def by auto
qed

lemma ancestry_seen_validates:
  assumes "ancestry_seen matches reader t peer expected rs"
  shows "validate_ancestry_by matches reader t peer expected = (t + 2 * length rs, Inr ())"
proof -
  note rs = assms [unfolded ancestry_seen_def]
  then have "rs \<noteq> []" by auto
  then have "list_ex (\<lambda>r. matches (process_identity_of r) expected) rs"
    using rs last_in_set [of rs] by (auto simp: list_ex_iff)
  then show ?thesis
    using rs collect_loop_chain [of reader t peer "identity_pid expected" rs 32 "[]"]
      collect_loop_chain [of reader "t + length rs" peer "identity_pid expected" rs 32 "[]"]
    by (simp add: validate_ancestry_by_def collect_ancestry_def MAX_ANCESTRY_DEPTH_def)
qed

lemma validate_ancestry_by_iff:
  assumes "\<And>i. matches i expected \<Longrightarrow> identity_pid i = identity_pid expected"
  shows "(validate_ancestry_by matches reader t peer expected = (t', Inr ())) =
    (\<exists>rs. ancestry_seen matches reader t peer expected rs \<and> t' = t + 2 * length rs)"
  using validate_ancestry_by_Inr [OF _ assms] ancestry_seen_validates by fastforce

lemma validate_ancestry_Inr:
  assumes "validate_ancestry reader t peer expected = (t', Inr ())"
  shows "\<exists>rs. chain reader t peer (identity_pid expected) rs \<and>
    chain reader (t + length rs) peer (identity_pid expected) rs \<and> length rs \<le> 32 \<and>
    distinct (map record_pid rs) \<and> process_identity_of (last rs) = expected \<and>
    t' = t + 2 * length rs"
  using validate_ancestry_by_Inr [OF assms [unfolded validate_ancestry_def]] by (auto simp: ancestry_seen_def)

text \<open>What a provider of process records promises: the record is about the process asked for.\<close>

locale process_source =
  fixes read :: "'u tree_reader"
  assumes read_pid: "read t pid = Inr r \<Longrightarrow> record_pid r = pid"
begin

lemma current_identity_pid:
  "current_process_identity read t pid = Inr i \<Longrightarrow>
     identity_pid i = pid \<and> (\<exists>r. read t pid = Inr r \<and> read (t + 1) pid = Inr r \<and>
       process_identity_of r = i)"
  using read_pid by (auto simp: current_process_identity_def result_simps split: if_splits)

lemma collect_not_mismatched:
  "collect_loop read expected (Suc n) t records current = (t', Inl ProcMalformed) \<Longrightarrow>
     current \<noteq> 0 \<and> (read t current = Inl ProcMalformed \<or>
       (\<exists>r. read t current = Inr r \<and>
          collect_loop read expected n (t + 1) (records @ [r]) (parent_pid r) = (t', Inl ProcMalformed)))"
  using read_pid [of t current] by (auto split: if_splits sum.splits)

end

lemma parse_stat_Inr:
  assumes "parse_stat content pid = Inr r"
  shows "record_pid r = pid \<and> effective_uid (process_identity_of r) = 0"
  using assms
  by (auto simp: parse_stat_def Let_def split: option.splits if_splits)

interpretation proc: process_source "proc_fs files" for files
  by unfold_locales (auto simp: proc_fs_def Let_def result_simps dest: parse_stat_Inr split: prod.splits)

section \<open>The text of the stat file\<close>

lemma trim_start_ws: "0 < ws_len s \<Longrightarrow> trim_start s = trim_start (drop (ws_len s) s)"
  by (subst trim_start.simps) simp

lemma newline_blank [simp]: "ws_len [CHR 0x0A] = 1" "split_whitespace [CHR 0x0A] = []"
proof -
  show n: "ws_len [CHR 0x0A] = 1" by (simp add: ws_len.simps byte_def)
  then have "trim_start [CHR 0x0A] = []" using trim_start_ws [of "[CHR 0x0A]"] by simp
  then show "split_whitespace [CHR 0x0A] = []" by (subst split_whitespace.simps) simp
qed

lemma split_whitespace_join_newline:
  "\<forall>t \<in> set ts. plain_token t \<Longrightarrow>
     split_whitespace (join_on (CHR '' '') ts @ [CHR 0x0A]) = ts"
proof (induction "CHR '' ''" ts rule: join_on.induct)
  case (2 p)
  then show ?case using split_whitespace_token [of p "[CHR 0x0A]"] by simp
next
  case (3 p q ps)
  then show ?case by (simp add: split_whitespace_token)
qed simp

lemma trim_token_space:
  assumes "plain_token s"
  shows "trim (s @ [CHR '' '']) = s"
proof -
  obtain a u where s: "s = a # u" and vis: "list_all visible s"
    using assms by (cases s) (auto simp: plain_token_def)
  have end': "trim_end (w @ [CHR '' '']) = w" if "list_all visible w" for w
    using that
  proof (induction w)
    case Nil
    then show ?case using trim_start_space [of "[]"] by simp
  qed simp
  have "trim_start (s @ [CHR '' '']) = s @ [CHR '' '']" using s vis by simp
  then show ?thesis using end' [OF vis] by (simp add: trim_def)
qed

definition stat_text :: "u32 \<Rightarrow> string \<Rightarrow> string list \<Rightarrow> string" where
  "stat_text pid comm fs =
     show_nat (unat pid) @ '' ('' @ comm @ '') '' @ join_on (CHR '' '') fs @ [CHR 0x0A]"

lemma show_nat_token: "plain_token (show_nat n)"
proof -
  have "is_ascii_digit c \<Longrightarrow> visible c" for c by (simp add: is_ascii_digit_def visible_def)
  then show ?thesis
    using show_nat_digits [of n] by (auto simp: plain_token_def list_all_iff)
qed

lemma drop_after: "drop (length xs + 1) (xs @ x # ys) = ys"
  by simp

lemma parse_stat_text:
  assumes fs: "\<forall>f \<in> set fs. plain_token f \<and> CHR '')'' \<notin> set f"
    and len: "20 \<le> length fs" "length (fs ! 0) = 1"
    and nums: "fs ! 1 = show_nat (unat parent)" "fs ! 19 = show_nat (unat start)"
  shows "parse_stat (stat_text pid comm fs) pid = Inr
    \<lparr>process_identity_of = \<lparr>identity_pid = pid, start_time = start, identity_user = 0\<rparr>,
     parent_pid = parent\<rparr>"
proof -
  let ?pre = "show_nat (unat pid) @ '' ''"
  let ?post = "CHR '' '' # join_on (CHR '' '') fs @ [CHR 0x0A]"
  have content: "stat_text pid comm fs = ?pre @ CHR ''('' # comm @ CHR '')'' # ?post"
    by (simp add: stat_text_def)
  have paren: "CHR ''('' \<notin> set ?pre"
    using show_nat_no_char [of "CHR ''(''" "unat pid"] by (simp add: byte_def)
  have set_join: "set (join_on c ps) \<subseteq> insert c (\<Union> (set ` set ps))" for c and ps :: "string list"
    by (induction c ps rule: join_on.induct) auto
  have no_paren: "CHR '')'' \<notin> set ?post"
    using set_join [of "CHR '' ''" fs] fs by auto
  have left: "find_char (CHR ''('') (stat_text pid comm fs) = Some (length ?pre)"
    unfolding content by (rule find_char_append [OF paren])
  have right: "rfind_char (CHR '')'') (stat_text pid comm fs) =
      Some (length (?pre @ CHR ''('' # comm))"
    unfolding content using rfind_char_append [OF no_paren, of "?pre @ CHR ''('' # comm"] by simp
  have "trim (take (length ?pre) (stat_text pid comm fs)) = show_nat (unat pid)"
    unfolding content using trim_token_space [OF show_nat_token] by simp
  moreover have "drop (length (?pre @ CHR ''('' # comm) + 1) (stat_text pid comm fs) = ?post"
    using drop_after [of "?pre @ CHR ''('' # comm" "CHR '')''" ?post] unfolding content by simp
  moreover have "split_whitespace ?post = fs"
    using split_whitespace_join_newline fs by simp
  ultimately show ?thesis
    using left right len nums by (simp add: parse_stat_def parse_word_show)
qed

section \<open>Properties\<close>

text \<open>C36: the check of a peer succeeds exactly when, twice in a row, the same chain of at most 32
  distinct processes was read from the peer, each the parent of the one before, up to a process
  with the expected number, start time and user.\<close>

theorem validate_ancestry_exact:
  "(validate_ancestry reader t peer expected = (t', Inr ())) =
     (\<exists>rs. chain reader t peer (identity_pid expected) rs \<and>
        chain reader (t + length rs) peer (identity_pid expected) rs \<and> length rs \<le> 32 \<and>
        distinct (map record_pid rs) \<and> process_identity_of (last rs) = expected \<and>
        t' = t + 2 * length rs)"
  unfolding validate_ancestry_def by (subst validate_ancestry_by_iff) (auto simp: ancestry_seen_def)

text \<open>No name a process gives itself, with parentheses, blanks or line feeds in it, changes
  what is read from its stat file: the parent and the start time come from the fields after the
  last closing parenthesis.\<close>

theorem parse_stat_any_name:
  assumes "\<forall>f \<in> set fs. plain_token f \<and> CHR '')'' \<notin> set f"
    and "20 \<le> length fs" "length (fs ! 0) = 1"
    and "fs ! 1 = show_nat (unat parent)" "fs ! 19 = show_nat (unat start)"
  shows "parse_stat (stat_text pid comm fs) pid = Inr
    \<lparr>process_identity_of = \<lparr>identity_pid = pid, start_time = start, identity_user = 0\<rparr>,
     parent_pid = parent\<rparr>"
  using assms by (rule parse_stat_text)

theorem parse_stat_any_name_witness:
  "\<exists>r. parse_stat (stat_text 7 ''x) S 1 (y'' (''S'' # replicate 19 ''0'')) 7 = Inr r \<and> parent_pid r = 0"
proof -
  have "show_nat 0 = ''0''" by code_simp
  then show ?thesis
    using parse_stat_any_name [of "''S'' # replicate 19 ''0''" 0 0 7 "''x) S 1 (y''"]
    by (simp add: plain_token_def visible_def byte_def)
qed

text \<open>The identity taken of a process is the one of that process, read twice without change.\<close>

theorem current_process_identity_sound:
  assumes "current_process_identity (proc_fs files) t pid = Inr i"
  shows "identity_pid i = pid \<and> (\<exists>r. proc_fs files t pid = Inr r \<and> proc_fs files (t + 1) pid = Inr r \<and>
    process_identity_of r = i)"
  using assms by (rule proc.current_identity_pid)

definition example_files :: proc_files where
  "example_files t pid = (Some (stat_text 7 ''sh'' (''S'' # replicate 19 ''0'')), Some ''Uid: 0 5 0 0'')"

lemma example_proc: "\<exists>r. proc_fs example_files t 7 = Inr r"
proof -
  have z: "show_nat 0 = ''0''" by code_simp
  have "parse_stat (stat_text 7 ''sh'' (''S'' # replicate 19 ''0'')) 7 = Inr
      \<lparr>process_identity_of = \<lparr>identity_pid = 7, start_time = 0, identity_user = 0\<rparr>, parent_pid = 0\<rparr>"
    by (rule parse_stat_text) (simp_all add: plain_token_def visible_def byte_def z)
  moreover have "split_whitespace ''Uid: 0 5 0 0'' = [''Uid:'', ''0'', ''5'', ''0'', ''0'']"
    using split_whitespace_join [of "[''Uid:'', ''0'', ''5'', ''0'', ''0'']"]
    by (simp add: plain_token_def visible_def byte_def)
  ultimately show ?thesis
    by (simp add: proc_fs_def example_files_def parse_effective_uid_def text_lines_def Let_def strip_prefix_def
        starts_with_Cons ok_or_def parse_word_def parse_uint_def is_ascii_digit_def dec_val_def
        digit_val_def byte_def)
qed

theorem current_process_identity_sound_witness:
  "\<exists>i. current_process_identity (proc_fs example_files) 0 7 = Inr i \<and> identity_pid i = 7"
proof -
  obtain r where r: "proc_fs example_files t 7 = Inr r" for t
    using example_proc [of 0] by (auto simp: proc_fs_def example_files_def)
  then have "current_process_identity (proc_fs example_files) 0 7 = Inr (process_identity_of r)"
    by (simp add: current_process_identity_def)
  with current_process_identity_sound [OF this] show ?thesis by blast
qed

end
