(* ===== verification/Broker.thy ===== *)
theory Broker
  imports Decision Ledger Frames Process_Tree
begin

text \<open>
  The decision broker, \<^verbatim>\<open>src/broker/linux.rs\<close>: the wire messages, the authorization of a
  request, a connection as a sequence of atomic steps on the shared state, and the client side
  that the hook uses.  Interleavings of connections are in theory \<^verbatim>\<open>Broker_System\<close>.
\<close>

section \<open>Messages\<close>

definition BROKER_PROTOCOL_VERSION :: string where
  "BROKER_PROTOCOL_VERSION = ''permission-binding-v1''"

definition MAX_BROKER_MESSAGE_BYTES :: nat where
  "MAX_BROKER_MESSAGE_BYTES = MAX_INPUT_BYTES + 4096"

definition MAX_BROKER_RESPONSE_BYTES :: nat where
  "MAX_BROKER_RESPONSE_BYTES = 256"

definition MAX_ACTIVE_CONNECTIONS :: nat where
  "MAX_ACTIVE_CONNECTIONS = 16"

record broker_request =
  request_protocol_version :: string
  request_message_type :: string
  request_session_secret :: string
  request_hook_input :: hook_input

record broker_response =
  response_protocol_version :: string
  response_message_type :: string
  response_decision :: string

datatype broker_decision = AllowDecision | NoDecision

definition request_fields :: "string list" where
  "request_fields = [''protocol_version'', ''message_type'', ''session_secret'', ''hook_input'']"

definition response_fields :: "string list" where
  "response_fields = [''protocol_version'', ''message_type'', ''decision'']"

definition exact_fields :: "string list \<Rightarrow> (string \<times> json) list \<Rightarrow> bool" where
  "exact_fields names obj =
     (length obj = length names \<and> list_all (\<lambda>kv. fst kv \<in> set names) obj)"

definition broker_request_decode :: "(string \<times> json) list \<Rightarrow> broker_request option" where
  "broker_request_decode obj =
     (let f = map_of obj in
        bind_field f ''protocol_version'' as_str (\<lambda>version.
        bind_field f ''message_type'' as_str (\<lambda>kind.
        bind_field f ''session_secret'' as_str (\<lambda>secret.
        bind_field f ''hook_input'' hook_input_decode (\<lambda>input.
        Some \<lparr>request_protocol_version = version, request_message_type = kind,
              request_session_secret = secret, request_hook_input = input\<rparr>)))))"

definition parse_request :: "tokenizer \<Rightarrow> string \<Rightarrow> broker_request option" where
  "parse_request tok bytes =
     (if MAX_BROKER_MESSAGE_BYTES < length bytes then None
      else case parse_unique_object tok bytes of
        Inr (JObject obj) \<Rightarrow>
          (if \<not> exact_fields request_fields obj then None
           else case broker_request_decode obj of
             None \<Rightarrow> None
           | Some request \<Rightarrow>
               (if request_protocol_version request \<noteq> BROKER_PROTOCOL_VERSION \<or>
                   request_message_type request \<noteq> ''permission_request''
                then None else Some request))
      | _ \<Rightarrow> None)"

definition broker_response_decode :: "(string \<times> json) list \<Rightarrow> broker_response option" where
  "broker_response_decode obj =
     (let f = map_of obj in
        bind_field f ''protocol_version'' as_str (\<lambda>version.
        bind_field f ''message_type'' as_str (\<lambda>kind.
        bind_field f ''decision'' as_str (\<lambda>decision.
        Some \<lparr>response_protocol_version = version, response_message_type = kind,
              response_decision = decision\<rparr>))))"

definition parse_response :: "tokenizer \<Rightarrow> string \<Rightarrow> bool option" where
  "parse_response tok bytes =
     (case parse_unique_object tok bytes of
        Inr (JObject obj) \<Rightarrow>
          (if \<not> exact_fields response_fields obj then None
           else case broker_response_decode obj of
             None \<Rightarrow> None
           | Some response \<Rightarrow>
               (if response_protocol_version response \<noteq> BROKER_PROTOCOL_VERSION \<or>
                   response_message_type response \<noteq> ''decision''
                then None
                else if response_decision response = ''allow'' then Some True
                else if response_decision response = ''no_decision'' then Some False
                else None))
      | _ \<Rightarrow> None)"

definition response_for :: "broker_decision \<Rightarrow> broker_response" where
  "response_for decision =
     \<lparr>response_protocol_version = BROKER_PROTOCOL_VERSION, response_message_type = ''decision'',
      response_decision =
        (case decision of AllowDecision \<Rightarrow> ''allow'' | NoDecision \<Rightarrow> ''no_decision'')\<rparr>"

text \<open>The request the client sends, an object sorted by key.\<close>

definition request_object :: "string \<Rightarrow> hook_input \<Rightarrow> json" where
  "request_object secret input = JObject
     [(''hook_input'', hook_input_serialize input),
      (''message_type'', JString ''permission_request''),
      (''protocol_version'', JString BROKER_PROTOCOL_VERSION),
      (''session_secret'', JString secret)]"

section \<open>State\<close>

record broker_config =
  cfg_admission :: "target option"
  cfg_codex_version :: string
  cfg_expected_cwd :: string
  cfg_expected_command :: "string option"
  cfg_expected_tool_name :: "string option"
  cfg_audit :: bool

text \<open>
  What does not change while the broker runs: the build target, the JSON reader and serializer,
  the digest, the configuration, the session secret and the user it runs as.
\<close>

record broker_static =
  st_os :: operating_system
  st_tok :: tokenizer
  st_crypto :: crypto
  st_response_to_vec :: "broker_response \<Rightarrow> string option"
  st_config :: broker_config
  st_secret :: string
  st_euid :: u32

record shared_state =
  sh_ledger :: ledger
  sh_expected :: "process_identity option"
  sh_shutdown :: bool
  sh_active :: nat
  sh_log :: audit_log

definition initial_shared :: shared_state where
  "initial_shared =
     \<lparr>sh_ledger = empty_ledger, sh_expected = None, sh_shutdown = False, sh_active = 0,
      sh_log = []\<rparr>"

record peer_credentials =
  peer_pid :: u32
  peer_uid :: u32

text \<open>
  What the environment does to one connection: the credentials of the peer, the bytes that
  arrive, the outcome of each append and write, the process table as it is read, and the two
  checks that the admitted artifacts are unchanged.
\<close>

record conn_events =
  ev_credentials :: "peer_credentials option"
  ev_read :: "io_event list"
  ev_reader :: process_reader
  ev_verify_first :: bool
  ev_verify_second :: bool
  ev_attempt :: append_outcome
  ev_invoked :: append_outcome
  ev_request :: append_outcome
  ev_allow :: append_outcome
  ev_emitted :: append_outcome
  ev_write :: "write_event list"

section \<open>Authorization\<close>

definition validate_peer ::
    "process_reader \<Rightarrow> nat \<Rightarrow> u32 \<Rightarrow> process_identity \<Rightarrow> u32 \<Rightarrow> nat \<times> bool" where
  "validate_peer reader t pid expected euid =
     (if pid = 0 \<or> effective_uid expected \<noteq> euid then (t, False)
      else case validate_ancestry reader t pid expected of (t', res) \<Rightarrow> (t', is_ok res))"

definition peer_uid_matches :: "peer_credentials option \<Rightarrow> u32 \<Rightarrow> bool" where
  "peer_uid_matches credentials euid = is_some_and credentials (\<lambda>c. peer_uid c = euid)"

definition decision_context_of :: "broker_config \<Rightarrow> decision_context" where
  "decision_context_of config =
     \<lparr>certified_target = cfg_admission config, codex_version = cfg_codex_version config,
      expected_cwd = cfg_expected_cwd config, expected_command = cfg_expected_command config,
      expected_tool_name = cfg_expected_tool_name config\<rparr>"

text \<open>The checks before the decision is confirmed; the number of process reads is returned.\<close>

definition first_checks :: "broker_static \<Rightarrow> conn_events \<Rightarrow> bool \<Rightarrow> peer_credentials \<Rightarrow> broker_request
    \<Rightarrow> process_identity \<Rightarrow> nat \<times> bool" where
  "first_checks st ev shutdown credentials request expected =
     (if shutdown \<or> \<not> peer_uid_matches (Some credentials) (st_euid st) \<or>
         \<not> valid_token (Some (request_session_secret request)) \<or>
         \<not> constant_time_equal (request_session_secret request) (st_secret st)
      then (0, False)
      else case validate_peer (ev_reader ev) 0 (peer_pid credentials) expected (st_euid st) of
        (t, valid) \<Rightarrow>
          (t, valid \<and>
             (case cfg_admission (st_config st) of
                Some target \<Rightarrow> ev_verify_first ev
              | None \<Rightarrow>
                  is_some_and (cfg_expected_command (st_config st))
                    (is_verification_probe_command (st_os st)) \<and>
                  cfg_expected_tool_name (st_config st) = Some ''Bash'') \<and>
             decide (st_os st) (st_tok st) (request_hook_input request)
               (decision_context_of (st_config st)) = Allow))"

text \<open>After the decision: the admitted artifacts and the second look at the shutdown flag, and then the
  peer once more, up to its record.\<close>

definition second_look :: "broker_static \<Rightarrow> conn_events \<Rightarrow> bool \<Rightarrow> bool" where
  "second_look st ev shutdown =
     ((cfg_admission (st_config st) \<noteq> None \<longrightarrow> ev_verify_second ev) \<and> \<not> shutdown)"

definition second_checks :: "broker_static \<Rightarrow> conn_events \<Rightarrow> nat \<Rightarrow> peer_credentials
    \<Rightarrow> process_identity \<Rightarrow> process_record option" where
  "second_checks st ev t credentials expected =
     (case validate_peer (ev_reader ev) t (peer_pid credentials) expected (st_euid st) of
        (t', valid) \<Rightarrow>
          if \<not> valid then None
          else case ev_reader ev t' (peer_pid credentials) of Inl e \<Rightarrow> None | Inr peer \<Rightarrow> Some peer)"

definition consume_for :: "broker_static \<Rightarrow> broker_request \<Rightarrow> process_record \<Rightarrow> ledger \<Rightarrow> bool \<times> ledger"
where
  "consume_for st request peer l =
     consume (st_crypto st) (request_hook_input request) (record_pid peer)
       (start_time (process_identity_of peer)) (cfg_admission (st_config st) = None) l"

text \<open>
  \<^verbatim>\<open>verify_request\<close>, given what it reads of the shared state at its four accesses: the expected
  identity, the shutdown flag twice, and the ledger under its lock.
\<close>

definition verify_request :: "broker_static \<Rightarrow> conn_events \<Rightarrow> process_identity option \<Rightarrow> bool \<Rightarrow> bool
    \<Rightarrow> peer_credentials \<Rightarrow> broker_request \<Rightarrow> ledger \<Rightarrow> bool \<times> ledger" where
  "verify_request st ev expected shutdown1 shutdown2 credentials request l =
     (case expected of None \<Rightarrow> (False, l)
      | Some e \<Rightarrow>
          (case first_checks st ev shutdown1 credentials request e of (t, passed) \<Rightarrow>
             if \<not> passed \<or> \<not> second_look st ev shutdown2 then (False, l)
             else case second_checks st ev t credentials e of
               None \<Rightarrow> (False, l)
             | Some peer \<Rightarrow> consume_for st request peer l))"

section \<open>A connection\<close>

text \<open>An allow that has been granted: to whom, for what, and on whose behalf.\<close>

record grant =
  grant_credentials :: peer_credentials
  grant_request :: broker_request
  grant_expected :: process_identity
  grant_peer :: process_record

text \<open>
  The points of \<^verbatim>\<open>handle_connection\<close> between accesses to the shared state.  A finished
  connection has sent some bytes, of an allow when it has a grant.
\<close>

datatype conn_pc =
    Accepted
  | Attempted peer_credentials
  | Framed peer_credentials broker_request
  | Recorded peer_credentials broker_request
  | Identified peer_credentials broker_request process_identity
  | Prechecked peer_credentials broker_request process_identity nat
  | Cleared peer_credentials broker_request process_identity nat
  | Confirmed grant
  | Granted grant
  | RequestLogged grant
  | AllowLogged grant
  | Emitting grant string
  | Denying
  | Finished "grant option" string

definition write_response ::
    "broker_static \<Rightarrow> conn_events \<Rightarrow> broker_decision \<Rightarrow> string \<times> bool" where
  "write_response st ev decision =
     (case st_response_to_vec st (response_for decision) of
        None \<Rightarrow> ([], False)
      | Some bytes \<Rightarrow>
          (case write_frame_until (ev_write ev) bytes MAX_BROKER_RESPONSE_BYTES of
             (es, sent, res) \<Rightarrow> (sent, is_ok res)))"

definition log_step :: "broker_static \<Rightarrow> (audit_log \<Rightarrow> bool \<times> audit_log) \<Rightarrow> shared_state
    \<Rightarrow> bool \<times> shared_state" where
  "log_step st write sh =
     (if cfg_audit (st_config st)
      then case write (sh_log sh) of (ok, log) \<Rightarrow> (ok, sh\<lparr>sh_log := log\<rparr>)
      else (True, sh))"

definition grant_tool :: "grant \<Rightarrow> string" where
  "grant_tool g = tool_or_unknown (tool_name (request_hook_input (grant_request g)))"

definition grant_input :: "grant \<Rightarrow> json option" where
  "grant_input g = tool_input (request_hook_input (grant_request g))"

fun conn_step :: "broker_static \<Rightarrow> conn_events \<Rightarrow> shared_state \<times> conn_pc \<Rightarrow> shared_state \<times> conn_pc" where
  "conn_step st ev (sh, Accepted) =
     (case ev_credentials ev of
        None \<Rightarrow> (sh, Finished None [])
      | Some credentials \<Rightarrow>
          (case log_step st (broker_attempt_at (ev_attempt ev)) sh of
             (ok, sh) \<Rightarrow> (sh, if ok then Attempted credentials else Finished None [])))"
| "conn_step st ev (sh, Attempted credentials) =
     (case read_frame_until (ev_read ev) MAX_BROKER_MESSAGE_BYTES of
        (es, Inl e) \<Rightarrow> (sh, Finished None [])
      | (es, Inr frame) \<Rightarrow>
          (sh, if ensure_no_trailing_data es \<noteq> Inr () then Denying
               else case parse_request (st_tok st) frame of
                 None \<Rightarrow> Denying
               | Some request \<Rightarrow> Framed credentials request))"
| "conn_step st ev (sh, Framed credentials request) =
     (case log_step st (hook_invoked_at (st_crypto st) (ev_invoked ev)
          (tool_name (request_hook_input request))
          (hook_event_name (request_hook_input request))) sh of
        (ok, sh) \<Rightarrow> (sh, if ok then Recorded credentials request else Denying))"
| "conn_step st ev (sh, Recorded credentials request) =
     (sh, case sh_expected sh of None \<Rightarrow> Denying
          | Some expected \<Rightarrow> Identified credentials request expected)"
| "conn_step st ev (sh, Identified credentials request expected) =
     (sh, case first_checks st ev (sh_shutdown sh) credentials request expected of
            (t, passed) \<Rightarrow> if passed then Prechecked credentials request expected t else Denying)"
| "conn_step st ev (sh, Prechecked credentials request expected t) =
     (sh, if second_look st ev (sh_shutdown sh) then Cleared credentials request expected t else Denying)"
| "conn_step st ev (sh, Cleared credentials request expected t) =
     (sh, case second_checks st ev t credentials expected of
            None \<Rightarrow> Denying
          | Some peer \<Rightarrow> Confirmed
              \<lparr>grant_credentials = credentials, grant_request = request,
               grant_expected = expected, grant_peer = peer\<rparr>)"
| "conn_step st ev (sh, Confirmed g) =
     (case consume_for st (grant_request g) (grant_peer g) (sh_ledger sh) of
        (granted, l) \<Rightarrow> (sh\<lparr>sh_ledger := l\<rparr>, if granted then Granted g else Denying))"
| "conn_step st ev (sh, Granted g) =
     (case log_step st (hook_request_at (st_crypto st) (ev_request ev)
          (tool_name (request_hook_input (grant_request g)))
          (hook_event_name (request_hook_input (grant_request g))) (grant_input g)) sh of
        (ok, sh) \<Rightarrow> (sh, if ok then RequestLogged g else Denying))"
| "conn_step st ev (sh, RequestLogged g) =
     (case log_step st (hook_allow_at (st_crypto st) (ev_allow ev) (grant_tool g) (grant_input g)) sh of
        (ok, sh) \<Rightarrow> (sh, if ok then AllowLogged g else Denying))"
| "conn_step st ev (sh, AllowLogged g) =
     (case write_response st ev AllowDecision of
        (sent, ok) \<Rightarrow> (sh, if ok then Emitting g sent else Finished (Some g) sent))"
| "conn_step st ev (sh, Emitting g sent) =
     (case log_step st (hook_allow_emitted_at (st_crypto st) (ev_emitted ev) (grant_tool g)
          (grant_input g)) sh of
        (ok, sh) \<Rightarrow> (sh, Finished (Some g) sent))"
| "conn_step st ev (sh, Denying) =
     (case write_response st ev NoDecision of (sent, ok) \<Rightarrow> (sh, Finished None sent))"
| "conn_step st ev (sh, Finished g sent) = (sh, Finished g sent)"

text \<open>The connection run without interference, with as many steps as it has points.\<close>

definition handle_connection ::
    "broker_static \<Rightarrow> conn_events \<Rightarrow> shared_state \<Rightarrow> shared_state \<times> conn_pc" where
  "handle_connection st ev sh = (conn_step st ev ^^ 13) (sh, Accepted)"

section \<open>The client\<close>

datatype request_failure_kind = TransportKind | ProtocolKind

text \<open>What the client's environment does: the variables, whether the socket connects and the
  calls on it succeed, and the bytes that come back.\<close>

record client_events =
  cl_env :: environment
  cl_connect :: bool
  cl_configure :: bool
  cl_write :: "write_event list"
  cl_shutdown :: bool
  cl_read :: "io_event list"

text \<open>The variables a client needs, and the request it sends with them.\<close>

definition client_environment :: "client_events \<Rightarrow> (request_failure_kind, string) result" where
  "client_environment cl =
     and_then (ok_or ProtocolKind (cl_env cl SESSION_SOCKET_ENV)) (\<lambda>socket.
     and_then (ok_or ProtocolKind (cl_env cl SESSION_TOKEN_ENV)) (\<lambda>secret.
     and_then (ensure (valid_token (Some secret) \<and> cl_env cl PROTOCOL_ENV = Some PROTOCOL_VERSION)
       ProtocolKind) (\<lambda>_. Inr secret)))"

definition client_send :: "(json \<Rightarrow> string option) \<Rightarrow> client_events \<Rightarrow> string \<Rightarrow> hook_input
    \<Rightarrow> (request_failure_kind, unit) result" where
  "client_send ser cl secret input =
     and_then (ensure (cl_configure cl) TransportKind) (\<lambda>_.
     and_then (ok_or ProtocolKind (ser (request_object secret input))) (\<lambda>bytes.
     map_err (\<lambda>_. TransportKind)
       (snd (snd (write_frame_until (cl_write cl) bytes MAX_BROKER_MESSAGE_BYTES)))))"

text \<open>The answer is read from the stream, which must end with it.  The stages that are reported on
  the way come with the result.\<close>

definition client_answer ::
    "tokenizer \<Rightarrow> io_event list \<Rightarrow> string list \<times> (request_failure_kind, bool) result" where
  "client_answer tok es =
     (case read_frame_until es MAX_BROKER_RESPONSE_BYTES of
        (es, Inl e) \<Rightarrow> ([], Inl TransportKind)
      | (es, Inr response) \<Rightarrow>
          (case and_then (map_err (\<lambda>_. ProtocolKind) (ensure_no_trailing_data es)) (\<lambda>_.
              ok_or ProtocolKind (parse_response tok response)) of
             Inl e \<Rightarrow> ([''broker_response_received''], Inl e)
           | Inr decision \<Rightarrow> ([''broker_response_received'', ''broker_response_parsed''], Inr decision)))"

definition broker_client_request :: "tokenizer \<Rightarrow> (json \<Rightarrow> string option) \<Rightarrow> client_events \<Rightarrow> hook_input
    \<Rightarrow> string list \<times> (request_failure_kind, bool) result" where
  "broker_client_request tok ser cl input =
     (case client_environment cl of
        Inl e \<Rightarrow> ([], Inl e)
      | Inr secret \<Rightarrow>
          if \<not> cl_connect cl then ([], Inl TransportKind)
          else case client_send ser cl secret input of
            Inl e \<Rightarrow> ([''broker_connected''], Inl e)
          | Inr _ \<Rightarrow>
              if \<not> cl_shutdown cl then ([''broker_connected'', ''broker_request_sent''], Inl TransportKind)
              else case client_answer tok (cl_read cl) of (stages, answer) \<Rightarrow>
                ([''broker_connected'', ''broker_request_sent''] @ stages, answer))"

lemma client_request_Inr:
  assumes "snd (broker_client_request tok ser cl input) = Inr answer"
  shows "\<exists>secret bytes rest es' response.
    cl_env cl SESSION_TOKEN_ENV = Some secret \<and> valid_token (Some secret) \<and>
    ser (request_object secret input) = Some bytes \<and>
    write_frame_until (cl_write cl) bytes MAX_BROKER_MESSAGE_BYTES = rest \<and>
    snd (snd rest) = Inr () \<and>
    read_frame_until (cl_read cl) MAX_BROKER_RESPONSE_BYTES = (es', Inr response) \<and>
    ensure_no_trailing_data es' = Inr () \<and> parse_response tok response = Some answer"
  using assms
  by (auto simp: broker_client_request_def client_environment_def client_send_def client_answer_def
      result_simps split: prod.splits sum.splits if_splits)

section \<open>Messages are read as they were sent\<close>

definition response_object :: "broker_response \<Rightarrow> json" where
  "response_object r = JObject
     [(''decision'', JString (response_decision r)),
      (''message_type'', JString (response_message_type r)),
      (''protocol_version'', JString (response_protocol_version r))]"

lemma parse_response_object:
  assumes "parse_unique_object tok bytes = Inr (response_object (response_for decision))"
  shows "parse_response tok bytes = Some (decision = AllowDecision)"
  using assms
  by (cases decision)
    (simp_all add: parse_response_def response_object_def exact_fields_def response_fields_def
      broker_response_decode_def bind_field_def response_for_def)

lemma parse_request_object:
  assumes "parse_unique_object tok bytes = Inr (request_object secret input)"
    and "hook_input_decode v = Some input" "length bytes \<le> MAX_BROKER_MESSAGE_BYTES"
  shows "parse_request tok bytes = Some
    \<lparr>request_protocol_version = BROKER_PROTOCOL_VERSION,
     request_message_type = ''permission_request'', request_session_secret = secret,
     request_hook_input = input\<rparr>"
  using assms(1,3) hook_input_serialize_decode [OF assms(2)]
  by (simp add: parse_request_def request_object_def exact_fields_def request_fields_def
      broker_request_decode_def bind_field_def)

lemma parse_request_Some:
  assumes "parse_request tok bytes = Some request"
  shows "length bytes \<le> MAX_BROKER_MESSAGE_BYTES \<and>
    request_protocol_version request = BROKER_PROTOCOL_VERSION \<and>
    request_message_type request = ''permission_request'' \<and>
    (\<exists>obj. parse_unique_object tok bytes = Inr (JObject obj) \<and> exact_fields request_fields obj \<and>
      map_of obj ''session_secret'' = Some (JString (request_session_secret request)) \<and>
      (\<exists>v. map_of obj ''hook_input'' = Some v \<and>
         hook_input_decode v = Some (request_hook_input request)))"
  using assms
  by (auto simp: parse_request_def broker_request_decode_def bind_field_Some Let_def
      split: if_splits sum.splits json.splits option.splits)

section \<open>What a granted request has passed\<close>

text \<open>The checks as facts, with the user, the secret, the ancestry read twice one after the other, the
  authority and the decision.  A check of the peer reads the process table from one moment to another.\<close>

definition peer_checked :: "broker_static \<Rightarrow> conn_events \<Rightarrow> nat \<Rightarrow> nat \<Rightarrow> u32 \<Rightarrow> process_identity \<Rightarrow> bool" where
  "peer_checked st ev t t' pid expected =
     (pid \<noteq> 0 \<and> effective_uid expected = st_euid st \<and>
      (\<exists>rs. chain (ev_reader ev) t pid (identity_pid expected) rs \<and>
         chain (ev_reader ev) (t + length rs) pid (identity_pid expected) rs \<and>
         process_identity_of (last rs) = expected \<and> t' = t + 2 * length rs))"

definition authority_ok :: "broker_static \<Rightarrow> bool" where
  "authority_ok st =
     (case cfg_admission (st_config st) of
        Some target \<Rightarrow> True
      | None \<Rightarrow>
          is_some_and (cfg_expected_command (st_config st)) (is_verification_probe_command (st_os st)) \<and>
          cfg_expected_tool_name (st_config st) = Some ''Bash'')"

definition request_ok :: "broker_static \<Rightarrow> conn_events \<Rightarrow> peer_credentials \<Rightarrow> broker_request
    \<Rightarrow> process_identity \<Rightarrow> nat \<Rightarrow> bool" where
  "request_ok st ev credentials request expected t =
     (peer_uid credentials = st_euid st \<and>
      request_session_secret request = st_secret st \<and> valid_token (Some (st_secret st)) \<and>
      peer_checked st ev 0 t (peer_pid credentials) expected \<and>
      (cfg_admission (st_config st) \<noteq> None \<longrightarrow> ev_verify_first ev) \<and> authority_ok st \<and>
      decide (st_os st) (st_tok st) (request_hook_input request)
        (decision_context_of (st_config st)) = Allow)"

lemma validate_peer_True:
  assumes "validate_peer (ev_reader ev) t pid expected (st_euid st) = (t', True)"
  shows "peer_checked st ev t t' pid expected"
proof -
  have v: "validate_ancestry (ev_reader ev) t pid expected = (t', Inr ())"
    and p: "pid \<noteq> 0" "effective_uid expected = st_euid st"
    using assms by (auto simp: validate_peer_def is_ok_iff split: if_splits prod.splits)
  then show ?thesis
    using validate_ancestry_Inr [OF v] unfolding peer_checked_def by blast
qed

lemma first_checks_True:
  assumes "first_checks st ev shutdown credentials request expected = (t, True)"
  shows "\<not> shutdown \<and> request_ok st ev credentials request expected t"
proof -
  obtain valid where v: "validate_peer (ev_reader ev) 0 (peer_pid credentials) expected (st_euid st)
      = (t, valid)" and valid
    and base: "\<not> shutdown" "peer_uid credentials = st_euid st"
      "request_session_secret request = st_secret st" "valid_token (Some (st_secret st))"
    and rest: "cfg_admission (st_config st) \<noteq> None \<longrightarrow> ev_verify_first ev" "authority_ok st"
      "decide (st_os st) (st_tok st) (request_hook_input request)
        (decision_context_of (st_config st)) = Allow"
    using assms
    by (auto simp: first_checks_def peer_uid_matches_def constant_time_equal_iff authority_ok_def
        split: if_splits prod.splits option.splits)
  from v \<open>valid\<close> have "peer_checked st ev 0 t (peer_pid credentials) expected"
    by (intro validate_peer_True) simp
  with base rest show ?thesis by (simp add: request_ok_def)
qed

lemma second_checks_Some:
  assumes "second_checks st ev t credentials expected = Some peer"
  shows "\<exists>t'. peer_checked st ev t t' (peer_pid credentials) expected \<and>
    ev_reader ev t' (peer_pid credentials) = Inr peer"
proof -
  obtain t' where v: "validate_peer (ev_reader ev) t (peer_pid credentials) expected (st_euid st)
      = (t', True)" and "ev_reader ev t' (peer_pid credentials) = Inr peer"
    using assms by (auto simp: second_checks_def split: if_splits prod.splits sum.splits)
  with validate_peer_True [OF v] show ?thesis by blast
qed

text \<open>Without interference the steps of a connection are \<^verbatim>\<open>verify_request\<close>.\<close>

lemma verify_request_steps:
  assumes "verify_request st ev (sh_expected sh) (sh_shutdown sh) (sh_shutdown sh) credentials request
    (sh_ledger sh) = (granted, l)"
  shows "\<exists>n pc. n \<le> 5 \<and> (conn_step st ev ^^ n) (sh, Recorded credentials request) =
      (sh\<lparr>sh_ledger := l\<rparr>, pc) \<and>
    (if granted then \<exists>g. pc = Granted g \<and> grant_request g = request \<and> grant_credentials g = credentials
     else pc = Denying)"
proof (cases "sh_expected sh")
  case None
  then have "\<not> granted" "l = sh_ledger sh"
    using assms by (auto simp: verify_request_def)
  then show ?thesis using None by (intro exI [of _ 1] exI [of _ Denying]) simp
next
  case (Some expected)
  obtain t passed where f: "first_checks st ev (sh_shutdown sh) credentials request expected = (t, passed)"
    by fastforce
  show ?thesis
  proof (cases passed)
    case False
    then have "\<not> granted" "l = sh_ledger sh"
      using assms Some f by (auto simp: verify_request_def)
    then show ?thesis
      using Some f False by (intro exI [of _ 2] exI [of _ Denying]) (simp add: eval_nat_numeral)
  next
    case True
    show ?thesis
    proof (cases "second_look st ev (sh_shutdown sh)")
      case False
      then have "\<not> granted" "l = sh_ledger sh"
        using assms Some f by (auto simp: verify_request_def)
      then show ?thesis
        using Some f True False by (intro exI [of _ 3] exI [of _ Denying]) (simp add: eval_nat_numeral)
    next
      case look: True
      show ?thesis
      proof (cases "second_checks st ev t credentials expected")
        case None
        then have "\<not> granted" "l = sh_ledger sh"
          using assms Some f True look None by (auto simp: verify_request_def)
        then show ?thesis
          using Some f True look None by (intro exI [of _ 4] exI [of _ Denying]) (simp add: eval_nat_numeral)
      next
        case peer: (Some peer)
        then have "consume_for st request peer (sh_ledger sh) = (granted, l)"
          using assms Some f True look by (simp add: verify_request_def)
        then show ?thesis
          using Some f True look peer by (intro exI [of _ 5]) (auto simp: eval_nat_numeral)
      qed
    qed
  qed
qed

section \<open>A connection ends\<close>

text \<open>Each point has a rank that its step decreases, so a connection is finished after at most
  thirteen of its own steps, whatever happens in between.\<close>

fun rank :: "conn_pc \<Rightarrow> nat" where
  "rank Accepted = 13"
| "rank (Attempted c) = 12"
| "rank (Framed c r) = 11"
| "rank (Recorded c r) = 10"
| "rank (Identified c r e) = 9"
| "rank (Prechecked c r e t) = 8"
| "rank (Cleared c r e t) = 7"
| "rank (Confirmed g) = 6"
| "rank (Granted g) = 5"
| "rank (RequestLogged g) = 4"
| "rank (AllowLogged g) = 3"
| "rank (Emitting g s) = 1"
| "rank Denying = 1"
| "rank (Finished g s) = 0"

lemma conn_step_rank: "rank pc \<noteq> 0 \<Longrightarrow> rank (snd (conn_step st ev (sh, pc))) < rank pc"
  by (cases pc) (auto split: option.splits prod.splits sum.splits)

lemma rank_0: "(rank pc = 0) = (\<exists>g s. pc = Finished g s)"
  by (cases pc) auto

lemma conn_steps_finish: "rank (snd ((conn_step st ev ^^ n) (sh, pc))) \<le> rank pc - n"
proof (induction n)
  case (Suc n)
  obtain sh' pc' where s: "(conn_step st ev ^^ n) (sh, pc) = (sh', pc')" by fastforce
  have "rank (snd (conn_step st ev (sh', pc'))) \<le> rank pc' - 1"
    using conn_step_rank [of pc' st ev sh'] rank_0 [of pc'] by (cases "rank pc' = 0") auto
  with Suc s show ?case by simp
qed simp

section \<open>Properties\<close>

text \<open>C21: a request is granted only if the broker was not shutting down at either look, the peer
  runs as the broker's user and sent the session's secret, it was twice seen to descend from the
  expected Codex process before the decision, the decision was to allow, the admitted artifacts were
  unchanged, it was twice seen to descend once more, in reads that begin where the first ones end, and
  the ledger spent the invocation of the record that was read after them.\<close>

theorem verify_request_sound:
  assumes "verify_request st ev expected shutdown1 shutdown2 credentials request l = (True, l')"
  shows "\<exists>e t t' peer. expected = Some e \<and> \<not> shutdown1 \<and> \<not> shutdown2 \<and>
    request_ok st ev credentials request e t \<and>
    (cfg_admission (st_config st) \<noteq> None \<longrightarrow> ev_verify_second ev) \<and>
    peer_checked st ev t t' (peer_pid credentials) e \<and> ev_reader ev t' (peer_pid credentials) = Inr peer \<and>
    consume_for st request peer l = (True, l')"
proof -
  obtain e t peer where "expected = Some e"
    and f: "first_checks st ev shutdown1 credentials request e = (t, True)"
    and look: "second_look st ev shutdown2" and s: "second_checks st ev t credentials e = Some peer"
    and "consume_for st request peer l = (True, l')"
    using assms by (auto simp: verify_request_def split: option.splits prod.splits if_splits)
  with first_checks_True [OF f] second_checks_Some [OF s] show ?thesis by (auto simp: second_look_def)
qed

definition example_config :: broker_config where
  "example_config =
     \<lparr>cfg_admission = None, cfg_codex_version = ''0.156.1'', cfg_expected_cwd = ''/w'',
      cfg_expected_command = Some example_probe, cfg_expected_tool_name = Some ''Bash'',
      cfg_audit = True\<rparr>"

definition example_wire_request :: "(string \<times> raw_json) list" where
  "example_wire_request =
     [(''session_secret'', RawString (replicate 64 (CHR ''a''))),
      (''protocol_version'', RawString BROKER_PROTOCOL_VERSION),
      (''message_type'', RawString ''permission_request''),
      (''hook_input'', RawObject
        [(''session_id'', RawString ''s1''), (''hook_event_name'', RawString ''PermissionRequest''),
         (''transcript_path'', RawNull), (''cwd'', RawString ''/w''), (''model'', RawString ''m''),
         (''tool_name'', RawString ''Bash''),
         (''tool_input'', RawObject [(''command'', RawString example_probe)]),
         (''turn_id'', RawString ''t1''), (''permission_mode'', RawString ''default'')])]"

definition example_broker_tok :: tokenizer where
  "example_broker_tok s =
     (if s = ''{q'' then Some (RawObject example_wire_request, []) else example_tokenizer s)"

definition example_static :: broker_static where
  "example_static =
     \<lparr>st_os = OsLinux, st_tok = example_broker_tok, st_crypto = example_crypto,
      st_response_to_vec = (\<lambda>r. Some (CHR ''{'' # response_decision r)), st_config = example_config,
      st_secret = replicate 64 (CHR ''a''), st_euid = 5\<rparr>"

definition example_codex :: process_identity where
  "example_codex = \<lparr>identity_pid = 7, start_time = 3, identity_user = 5\<rparr>"

definition example_process :: process_record where
  "example_process = \<lparr>process_identity_of = example_codex, parent_pid = 1\<rparr>"

definition example_events :: conn_events where
  "example_events =
     \<lparr>ev_credentials = Some \<lparr>peer_pid = 7, peer_uid = 5\<rparr>,
      ev_read = [Bytes (to_be_bytes 2), Bytes ''{q''],
      ev_reader = (\<lambda>t pid. Inr example_process), ev_verify_first = True, ev_verify_second = True,
      ev_attempt = AppendOk, ev_invoked = AppendOk, ev_request = AppendOk, ev_allow = AppendOk,
      ev_emitted = AppendOk, ev_write = [Accepts 4, Accepts 99]\<rparr>"

definition example_broker_request :: broker_request where
  "example_broker_request =
     \<lparr>request_protocol_version = BROKER_PROTOCOL_VERSION,
      request_message_type = ''permission_request'',
      request_session_secret = replicate 64 (CHR ''a''), request_hook_input = example_hook_input\<rparr>"

lemma example_context_of: "decision_context_of example_config = example_context"
  by (simp add: decision_context_of_def example_config_def example_context_def)

lemma example_token: "valid_token (Some (replicate 64 (CHR ''a'')))"
  by (simp add: valid_token_iff list_all_iff is_lower_hex_def is_ascii_digit_def byte_def)

lemma example_peer: "validate_peer (\<lambda>t pid. Inr example_process) t 7 example_codex 5 = (t + 2, True)"
proof -
  have "chain (\<lambda>t pid. Inr example_process) u 7 7 [example_process]" for u
    by (simp add: example_process_def example_codex_def)
  then have "collect_loop (\<lambda>t pid. Inr example_process) 7 32 u [] 7 = (u + 1, Inr [example_process])" for u
    using collect_loop_chain [of "\<lambda>t pid. Inr example_process" u 7 7 "[example_process]" 32 "[]"] by simp
  then show ?thesis
    by (simp add: validate_peer_def validate_ancestry_def validate_ancestry_by_def collect_ancestry_def MAX_ANCESTRY_DEPTH_def
        example_codex_def example_process_def)
qed

lemma example_checks:
  "first_checks example_static example_events False \<lparr>peer_pid = 7, peer_uid = 5\<rparr>
     example_broker_request example_codex = (2, True)"
  "second_look example_static example_events False"
  "second_checks example_static example_events 2 \<lparr>peer_pid = 7, peer_uid = 5\<rparr>
     example_codex = Some example_process"
  "\<exists>l'. consume_for example_static example_broker_request example_process empty_ledger = (True, l')"
proof -
  have probe: "is_verification_probe_command OsLinux example_probe"
    using example_probe_command is_verification_probe_command_iff by blast
  show "first_checks example_static example_events False \<lparr>peer_pid = 7, peer_uid = 5\<rparr>
      example_broker_request example_codex = (2, True)"
    using example_peer [of 0] probe
    by (simp add: first_checks_def peer_uid_matches_def example_static_def example_events_def
        example_broker_request_def example_token constant_time_equal_iff example_context_of
        example_allowed) (simp add: example_config_def)
  show "second_look example_static example_events False"
    by (simp add: second_look_def example_static_def example_config_def)
  show "second_checks example_static example_events 2 \<lparr>peer_pid = 7, peer_uid = 5\<rparr>
      example_codex = Some example_process"
    using example_peer [of 2]
    by (simp add: second_checks_def example_static_def example_events_def example_config_def)
  show "\<exists>l'. consume_for example_static example_broker_request example_process empty_ledger
      = (True, l')"
    by (simp add: consume_for_def consume_True example_static_def example_broker_request_def
        example_hook_input_def example_crypto_def empty_ledger_def MAX_INVOCATIONS_def)
qed

lemma example_verified:
  "\<exists>l'. verify_request example_static example_events (Some example_codex) False False
     \<lparr>peer_pid = 7, peer_uid = 5\<rparr> example_broker_request empty_ledger = (True, l')"
  using example_checks by (simp add: verify_request_def)

theorem verify_request_sound_witness:
  "\<exists>t t'. request_ok example_static example_events \<lparr>peer_pid = 7, peer_uid = 5\<rparr> example_broker_request
     example_codex t \<and> peer_checked example_static example_events t t' 7 example_codex"
proof -
  obtain l' where "verify_request example_static example_events (Some example_codex) False False
     \<lparr>peer_pid = 7, peer_uid = 5\<rparr> example_broker_request empty_ledger = (True, l')"
    using example_verified by blast
  from verify_request_sound [OF this] show ?thesis by auto
qed

text \<open>A connection is finished after at most thirteen of its own steps, whatever its peer, the
  process table and the log do.\<close>

theorem handle_connection_finishes:
  "\<exists>g sent. snd (handle_connection st ev sh) = Finished g sent"
  using conn_steps_finish [of 13 st ev sh Accepted] rank_0 by (simp add: handle_connection_def)

text \<open>The JSON reader reads back what the serializer of responses wrote.\<close>

definition reads_responses :: "tokenizer \<Rightarrow> (broker_response \<Rightarrow> string option) \<Rightarrow> bool" where
  "reads_responses tok ser =
     (\<forall>decision bytes. ser (response_for decision) = Some bytes \<longrightarrow>
        parse_unique_object tok bytes = Inr (response_object (response_for decision)))"

lemma response_delivered:
  assumes "write_response st ev decision = (sent, True)"
    and "reads_responses tok (st_response_to_vec st)"
    and "list_all clean_event (cl_read cl)" "delivered (cl_read cl) = sent"
    and "snd (broker_client_request tok ser cl input) = Inr answer"
  shows "answer = (decision = AllowDecision)"
proof -
  obtain bytes es where b: "st_response_to_vec st (response_for decision) = Some bytes"
    and w: "write_frame_until (ev_write ev) bytes MAX_BROKER_RESPONSE_BYTES = (es, sent, Inr ())"
    using assms(1) by (auto simp: write_response_def is_ok_iff split: option.splits prod.splits)
  obtain es' response where r: "read_frame_until (cl_read cl) MAX_BROKER_RESPONSE_BYTES = (es', Inr response)"
    and answer: "parse_response tok response = Some answer"
    using client_request_Inr [OF assms(5)] by blast
  have "delivered (cl_read cl) = (to_be_bytes (word_of_nat (length bytes)) @ bytes) @ []"
    using write_frame_sent [OF w] assms(4) by simp
  from read_frame_clean [OF w assms(3), of "[]"] assms(4) r have "response = bytes" by simp
  moreover have "parse_unique_object tok bytes = Inr (response_object (response_for decision))"
    using assms(2) b by (simp add: reads_responses_def)
  ultimately show ?thesis using answer parse_response_object by simp
qed

definition example_response_tok :: tokenizer where
  "example_response_tok s = Some (RawObject
     [(''protocol_version'', RawString BROKER_PROTOCOL_VERSION),
      (''message_type'', RawString ''decision''), (''decision'', RawString (drop 1 s))], [])"

lemma example_reads_responses:
  "reads_responses example_response_tok (\<lambda>r. Some (CHR ''{'' # response_decision r))"
  by (simp add: reads_responses_def parse_unique_object_def is_ascii_whitespace_def byte_def
      example_response_tok_def response_object_def response_for_def)

lemma example_client_frame:
  "read_frame_until [Bytes (to_be_bytes 6), Bytes ''{all'', Bytes ''ow''] MAX_BROKER_RESPONSE_BYTES =
     ([], Inr ''{allow'')"
proof -
  have "to_be_bytes 6 \<noteq> []" by (simp add: to_be_bytes_def)
  then show ?thesis
    by (simp add: read_frame_until_def read_exact_Bytes deadline_passed_def from_to_be_bytes Let_def
        MAX_BROKER_RESPONSE_BYTES_def)
qed

lemma example_answer:
  "client_answer example_response_tok [Bytes (to_be_bytes 6), Bytes ''{all'', Bytes ''ow''] =
     ([''broker_response_received'', ''broker_response_parsed''], Inr True)"
proof -
  have "parse_unique_object example_response_tok ''{allow'' =
      Inr (response_object (response_for AllowDecision))"
    using example_reads_responses [unfolded reads_responses_def, rule_format, of AllowDecision]
    by (simp add: response_for_def)
  then show ?thesis
    using parse_response_object [of example_response_tok "''{allow''" AllowDecision]
    by (simp add: client_answer_def example_client_frame ensure_no_trailing_data_def ok_or_def)
qed

definition example_client :: client_events where
  "example_client =
     \<lparr>cl_env = [SESSION_SOCKET_ENV \<mapsto> ''/s'', SESSION_TOKEN_ENV \<mapsto> replicate 64 (CHR ''a''),
        PROTOCOL_ENV \<mapsto> PROTOCOL_VERSION],
      cl_connect = True, cl_configure = True, cl_write = [Accepts 4, Accepts 9], cl_shutdown = True,
      cl_read = [Bytes (to_be_bytes 6), Bytes ''{all'', Bytes ''ow'']\<rparr>"

lemma example_client_request:
  "snd (broker_client_request example_response_tok (\<lambda>_. Some ''x'') example_client
     example_hook_input) = Inr True"
  using example_answer
  by (simp add: broker_client_request_def client_environment_def client_send_def ok_or_def ensure_def
      example_token example_client_def
      write_frame_until_def MAX_BROKER_MESSAGE_BYTES_def MAX_INPUT_BYTES_def
      to_be_bytes_def)

text \<open>What the broker has written as its decision is what the client reads, however the bytes
  are cut up on the way, provided the JSON reader reads back what the serializer wrote: the
  client takes an answer for an allow exactly when an allow was written.\<close>

theorem client_reads_decision:
  assumes "write_response st ev decision = (sent, True)"
    and "reads_responses tok (st_response_to_vec st)"
    and "list_all clean_event (cl_read cl)" "delivered (cl_read cl) = sent"
    and "snd (broker_client_request tok ser cl input) = Inr answer"
  shows "answer = (decision = AllowDecision)"
  using assms by (rule response_delivered)

theorem client_reads_decision_witness:
  "\<exists>answer. snd (broker_client_request example_response_tok (\<lambda>_. Some ''x'') example_client
     example_hook_input) = Inr answer \<and> answer"
proof -
  have sent: "write_response example_static example_events AllowDecision = (to_be_bytes 6 @ ''{allow'', True)"
    by (simp add: write_response_def response_for_def write_frame_until_def example_events_def
        example_static_def MAX_BROKER_RESPONSE_BYTES_def to_be_bytes_def)
  obtain answer where a: "snd (broker_client_request example_response_tok (\<lambda>_. Some ''x'')
      example_client example_hook_input) = Inr answer"
    using example_client_request by blast
  from client_reads_decision [OF sent _ _ _ a] example_reads_responses
  have answer by (auto simp: example_client_def example_static_def to_be_bytes_def)
  with a show ?thesis by blast
qed

end
