(* ===== verification/Broker_System.thy ===== *)
theory Broker_System
  imports Broker
begin

text \<open>
  The broker as a whole, \<^verbatim>\<open>serve\<close> and the threads it starts: the accept loop, the connections
  and the launcher take their atomic steps in any order.  Invariants of every reachable state.
\<close>

section \<open>Steps\<close>

text \<open>The accept loop is at its head, between its checks and \<^verbatim>\<open>accept\<close>, or over.\<close>

datatype serve_pc = AtLoop | MayAccept | Stopped

record worker =
  w_events :: conn_events
  w_pc :: conn_pc
  w_live :: bool

record system =
  sys_shared :: shared_state
  sys_serve :: serve_pc
  sys_workers :: "worker list"

definition initial_system :: system where
  "initial_system = \<lparr>sys_shared = initial_shared, sys_serve = AtLoop, sys_workers = []\<rparr>"

definition accept_connection :: "conn_events \<Rightarrow> system \<Rightarrow> system" where
  "accept_connection ev s =
     (if MAX_ACTIVE_CONNECTIONS \<le> sh_active (sys_shared s) then s\<lparr>sys_serve := AtLoop\<rparr>
      else s\<lparr>sys_serve := AtLoop,
             sys_shared := (sys_shared s)\<lparr>sh_active := sh_active (sys_shared s) + 1\<rparr>,
             sys_workers := sys_workers s @ [\<lparr>w_events = ev, w_pc = Accepted, w_live = True\<rparr>]\<rparr>)"

definition work :: "broker_static \<Rightarrow> nat \<Rightarrow> system \<Rightarrow> system" where
  "work st i s =
     (let w = sys_workers s ! i in
      case conn_step st (w_events w) (sys_shared s, w_pc w) of
        (sh, pc) \<Rightarrow> s\<lparr>sys_shared := sh, sys_workers := (sys_workers s)[i := w\<lparr>w_pc := pc\<rparr>]\<rparr>)"

lemma work_select [simp]:
  "sys_shared (work st i s) =
     fst (conn_step st (w_events (sys_workers s ! i)) (sys_shared s, w_pc (sys_workers s ! i)))"
  "sys_workers (work st i s) = (sys_workers s)[i := (sys_workers s ! i)\<lparr>w_pc :=
     snd (conn_step st (w_events (sys_workers s ! i)) (sys_shared s, w_pc (sys_workers s ! i)))\<rparr>]"
  by (simp_all add: work_def Let_def split: prod.splits)

definition leave :: "nat \<Rightarrow> system \<Rightarrow> system" where
  "leave i s =
     s\<lparr>sys_shared := (sys_shared s)\<lparr>sh_active := sh_active (sys_shared s) - 1\<rparr>,
       sys_workers := (sys_workers s)[i := (sys_workers s ! i)\<lparr>w_live := False\<rparr>]\<rparr>"

definition finished :: "conn_pc \<Rightarrow> bool" where
  "finished pc = (rank pc = 0)"

inductive sys_step :: "broker_static \<Rightarrow> system \<Rightarrow> system \<Rightarrow> bool" for st where
  shut: "\<lbrakk>sys_serve s = AtLoop; sh_shutdown (sys_shared s)\<rbrakk> \<Longrightarrow> sys_step st s (s\<lparr>sys_serve := Stopped\<rparr>)"
| busy: "\<lbrakk>sys_serve s = AtLoop; \<not> sh_shutdown (sys_shared s);
    MAX_ACTIVE_CONNECTIONS \<le> sh_active (sys_shared s)\<rbrakk> \<Longrightarrow> sys_step st s s"
| ready: "\<lbrakk>sys_serve s = AtLoop; \<not> sh_shutdown (sys_shared s);
    sh_active (sys_shared s) < MAX_ACTIVE_CONNECTIONS\<rbrakk> \<Longrightarrow> sys_step st s (s\<lparr>sys_serve := MayAccept\<rparr>)"
| would_block: "sys_serve s = MayAccept \<Longrightarrow> sys_step st s (s\<lparr>sys_serve := AtLoop\<rparr>)"
| accept_error: "sys_serve s = MayAccept \<Longrightarrow> sys_step st s (s\<lparr>sys_serve := Stopped\<rparr>)"
| accept: "sys_serve s = MayAccept \<Longrightarrow> sys_step st s (accept_connection ev s)"
| work: "\<lbrakk>i < length (sys_workers s); w_live (sys_workers s ! i);
    \<not> finished (w_pc (sys_workers s ! i))\<rbrakk> \<Longrightarrow> sys_step st s (work st i s)"
| leave: "\<lbrakk>i < length (sys_workers s); w_live (sys_workers s ! i);
    finished (w_pc (sys_workers s ! i))\<rbrakk> \<Longrightarrow> sys_step st s (leave i s)"
| set_codex_identity: "sys_step st s
    (s\<lparr>sys_shared := (sys_shared s)\<lparr>sh_expected := Some identity\<rparr>\<rparr>)"
| stop_accepting: "sys_step st s (s\<lparr>sys_shared := (sys_shared s)\<lparr>sh_shutdown := True\<rparr>\<rparr>)"

inductive_cases sys_stepE: "sys_step st s s'"

inductive reachable :: "broker_static \<Rightarrow> system \<Rightarrow> bool" for st where
  init: "reachable st initial_system"
| step: "\<lbrakk>reachable st s; sys_step st s s'\<rbrakk> \<Longrightarrow> reachable st s'"

section \<open>What a connection's step does\<close>

fun grant_of :: "conn_pc \<Rightarrow> grant option" where
  "grant_of (Granted g) = Some g"
| "grant_of (RequestLogged g) = Some g"
| "grant_of (AllowLogged g) = Some g"
| "grant_of (Emitting g sent) = Some g"
| "grant_of (Finished (Some g) sent) = Some g"
| "grant_of _ = None"

definition grant_key :: "grant \<Rightarrow> u32 \<times> u64" where
  "grant_key g = (record_pid (grant_peer g), start_time (process_identity_of (grant_peer g)))"

definition grant_digest :: "crypto \<Rightarrow> grant \<Rightarrow> string" where
  "grant_digest cr g =
     to_hex (sha256_of cr (the (request_to_vec cr (request_hook_input (grant_request g)))))"

definition grant_session :: "grant \<Rightarrow> string option" where
  "grant_session g = session_id (request_hook_input (grant_request g))"

definition is_confirmed :: "conn_pc \<Rightarrow> bool" where
  "is_confirmed pc = (\<exists>g. pc = Confirmed g)"

lemma log_step_frame:
  assumes "log_step st write sh = (ok, sh')"
  shows "sh_ledger sh' = sh_ledger sh \<and> sh_expected sh' = sh_expected sh \<and>
    sh_shutdown sh' = sh_shutdown sh \<and> sh_active sh' = sh_active sh"
  using assms by (auto simp: log_step_def split: if_splits prod.splits)

text \<open>Only the step from a confirmed request spends the ledger or makes a grant.\<close>

lemma conn_step_cases:
  assumes "conn_step st ev (sh, pc) = (sh', pc')"
  shows "sh_expected sh' = sh_expected sh \<and> sh_shutdown sh' = sh_shutdown sh \<and>
    sh_active sh' = sh_active sh \<and>
    ((sh_ledger sh' = sh_ledger sh \<and> (grant_of pc' = None \<or> grant_of pc' = grant_of pc)) \<or>
     (\<exists>g. pc = Confirmed g \<and> pc' = Granted g \<and>
        consume_for st (grant_request g) (grant_peer g) (sh_ledger sh) = (True, sh_ledger sh')))"
proof (cases pc)
  case (Confirmed g)
  then show ?thesis
    using assms consume_False [of "st_crypto st" "request_hook_input (grant_request g)"]
    by (auto simp: consume_for_def split: prod.splits if_splits)
next
  case (Finished g s)
  then show ?thesis using assms by (cases g) auto
qed (use assms in \<open>auto split: prod.splits option.splits sum.splits if_splits dest!: log_step_frame\<close>)

text \<open>What the checks have established at a point.\<close>

definition grant_ok :: "broker_static \<Rightarrow> conn_events \<Rightarrow> grant \<Rightarrow> bool" where
  "grant_ok st ev g =
     (\<exists>t t'. request_ok st ev (grant_credentials g) (grant_request g) (grant_expected g) t \<and>
      (cfg_admission (st_config st) \<noteq> None \<longrightarrow> ev_verify_second ev) \<and>
      peer_checked st ev t t' (peer_pid (grant_credentials g)) (grant_expected g) \<and>
      ev_reader ev t' (peer_pid (grant_credentials g)) = Inr (grant_peer g))"

fun pc_ok :: "broker_static \<Rightarrow> conn_events \<Rightarrow> conn_pc \<Rightarrow> bool" where
  "pc_ok st ev (Prechecked c r e t) = request_ok st ev c r e t"
| "pc_ok st ev (Cleared c r e t) =
     (request_ok st ev c r e t \<and> (cfg_admission (st_config st) \<noteq> None \<longrightarrow> ev_verify_second ev))"
| "pc_ok st ev (Confirmed g) = grant_ok st ev g"
| "pc_ok st ev pc = (case grant_of pc of None \<Rightarrow> True | Some g \<Rightarrow> grant_ok st ev g)"

lemma conn_step_pc_ok:
  assumes "conn_step st ev (sh, pc) = (sh', pc')" "pc_ok st ev pc"
  shows "pc_ok st ev pc'"
proof (cases pc)
  case (Prechecked c r e t)
  then show ?thesis using assms by (auto simp: second_look_def split: if_splits)
next
  case (Cleared c r e t)
  show ?thesis
  proof (cases "second_checks st ev t c e")
    case (Some peer)
    then have pc': "pc' = Confirmed \<lparr>grant_credentials = c, grant_request = r, grant_expected = e, grant_peer = peer\<rparr>"
      using Cleared assms(1) by simp
    obtain t' where "peer_checked st ev t t' (peer_pid c) e" "ev_reader ev t' (peer_pid c) = Inr peer"
      using second_checks_Some [OF Some] by blast
    then show ?thesis
      using Cleared assms(2) unfolding pc' pc_ok.simps grant_ok_def by (intro exI [of _ t] exI [of _ t']) simp
  qed (use Cleared assms in auto)
next
  case (Finished g s)
  then show ?thesis using assms by simp
qed (use assms in \<open>auto split: prod.splits option.splits sum.splits if_splits
      dest: first_checks_True\<close>)

section \<open>The invariant\<close>

text \<open>Every grant among the workers is in the ledger, with the ledger's session; two workers never
  share a process invocation or a digest.\<close>

definition grants_distinct :: "broker_static \<Rightarrow> worker list \<Rightarrow> bool" where
  "grants_distinct st ws =
     (\<forall>i j g h. i < length ws \<and> j < length ws \<and> i \<noteq> j \<and> grant_of (w_pc (ws ! i)) = Some g \<and>
        grant_of (w_pc (ws ! j)) = Some h \<longrightarrow>
        grant_key g \<noteq> grant_key h \<and> grant_digest (st_crypto st) g \<noteq> grant_digest (st_crypto st) h)"

definition grants_spent :: "broker_static \<Rightarrow> ledger \<Rightarrow> worker list \<Rightarrow> bool" where
  "grants_spent st l ws =
     (\<forall>w \<in> set ws. \<forall>g. grant_of (w_pc w) = Some g \<longrightarrow>
        grant_key g \<in> invocations l \<and> grant_digest (st_crypto st) g \<in> requests l \<and>
        grant_session g = ledger_session l)"

definition live_count :: "worker list \<Rightarrow> nat" where
  "live_count ws = length (filter w_live ws)"

definition system_inv :: "broker_static \<Rightarrow> system \<Rightarrow> bool" where
  "system_inv st s =
     (sh_active (sys_shared s) = live_count (sys_workers s) \<and>
      live_count (sys_workers s) \<le> MAX_ACTIVE_CONNECTIONS \<and>
      ledger_inv (sh_ledger (sys_shared s)) \<and>
      grants_spent st (sh_ledger (sys_shared s)) (sys_workers s) \<and>
      grants_distinct st (sys_workers s) \<and>
      (\<forall>w \<in> set (sys_workers s). pc_ok st (w_events w) (w_pc w)))"

lemma length_filter_update:
  assumes "i < length xs"
  shows "length (filter P (xs[i := y])) + (if P (xs ! i) then 1 else 0) =
    length (filter P xs) + (if P y then 1 else 0)"
  using assms
proof (induction xs arbitrary: i)
  case (Cons x xs)
  then show ?case by (cases i) auto
qed simp

lemma system_inv_frame:
  assumes "system_inv st s" "sys_workers s' = sys_workers s"
    "sh_ledger (sys_shared s') = sh_ledger (sys_shared s)"
    "sh_active (sys_shared s') = sh_active (sys_shared s)"
  shows "system_inv st s'"
  using assms by (simp add: system_inv_def)

lemma grants_update_same:
  assumes "grants_spent st l ws" "grants_distinct st ws" "i < length ws"
    "grant_of pc' = None \<or> grant_of pc' = grant_of (w_pc (ws ! i))"
  shows "grants_spent st l (ws[i := (ws ! i)\<lparr>w_pc := pc'\<rparr>]) \<and>
    grants_distinct st (ws[i := (ws ! i)\<lparr>w_pc := pc'\<rparr>])"
proof
  have "grant_of (w_pc w) = Some g \<longrightarrow> (\<exists>w' \<in> set ws. grant_of (w_pc w') = Some g)"
    if "w \<in> set (ws[i := (ws ! i)\<lparr>w_pc := pc'\<rparr>])" for w g
  proof
    assume g: "grant_of (w_pc w) = Some g"
    have "w = (ws ! i)\<lparr>w_pc := pc'\<rparr> \<or> w \<in> set ws"
      using that set_update_subset_insert [of ws i "(ws ! i)\<lparr>w_pc := pc'\<rparr>"] by blast
    then show "\<exists>w' \<in> set ws. grant_of (w_pc w') = Some g"
      using g assms(3,4) nth_mem [of i ws] by auto
  qed
  then show "grants_spent st l (ws[i := (ws ! i)\<lparr>w_pc := pc'\<rparr>])"
    using assms(1) unfolding grants_spent_def by blast
  have "grant_of (w_pc (ws[i := (ws ! i)\<lparr>w_pc := pc'\<rparr>] ! j)) = Some g \<longrightarrow>
      grant_of (w_pc (ws ! j)) = Some g" if "j < length ws" for j g
    using that assms(3,4) by (cases "j = i") auto
  then show "grants_distinct st (ws[i := (ws ! i)\<lparr>w_pc := pc'\<rparr>])"
    using assms(2) unfolding grants_distinct_def length_list_update by blast
qed

lemma grants_update_new:
  assumes "grants_spent st l ws" "grants_distinct st ws" "i < length ws"
    and "w_pc (ws ! i) = Confirmed g"
    and "consume_for st (grant_request g) (grant_peer g) l = (True, l')" "ledger_inv l"
  shows "grants_spent st l' (ws[i := (ws ! i)\<lparr>w_pc := Granted g\<rparr>]) \<and>
    grants_distinct st (ws[i := (ws ! i)\<lparr>w_pc := Granted g\<rparr>])"
proof -
  let ?cr = "st_crypto st" and ?ws = "ws[i := (ws ! i)\<lparr>w_pc := Granted g\<rparr>]"
  have l': "invocations l' = insert (grant_key g) (invocations l)" "grant_key g \<notin> invocations l"
    "requests l' = insert (grant_digest ?cr g) (requests l)" "grant_digest ?cr g \<notin> requests l"
    "ledger_session l' = grant_session g" "ledger_session l \<in> {None, grant_session g}"
    using assms(5)
    by (auto simp: consume_for_def consume_True grant_key_def grant_digest_def grant_session_def)
  have old: "grant_key h \<in> invocations l \<and> grant_digest ?cr h \<in> requests l \<and>
      grant_session h = ledger_session l"
    if "j < length ws" "grant_of (w_pc (ws ! j)) = Some h" for j h
    using assms(1) that unfolding grants_spent_def by (meson nth_mem)
  have at: "w_pc (?ws ! j) = (if j = i then Granted g else w_pc (ws ! j))" if "j < length ws" for j
    using that assms(3) by simp
  have "grant_key h \<in> invocations l' \<and> grant_digest ?cr h \<in> requests l' \<and>
      grant_session h = ledger_session l'"
    if "j < length ws" "grant_of (w_pc (?ws ! j)) = Some h" for j h
  proof (cases "j = i")
    case True
    then show ?thesis using that at l' by simp
  next
    case False
    then have "grant_of (w_pc (ws ! j)) = Some h" using that at by simp
    then have h: "grant_key h \<in> invocations l" "grant_digest ?cr h \<in> requests l"
      "grant_session h = ledger_session l"
      using old [OF that(1)] by blast+
    then have "ledger_session l \<noteq> None" using assms(6) by (auto simp: ledger_inv_def)
    with h l' show ?thesis by auto
  qed
  then have "grants_spent st l' ?ws"
    unfolding grants_spent_def by (metis in_set_conv_nth length_list_update)
  moreover have "grants_distinct st ?ws"
    unfolding grants_distinct_def length_list_update
    using assms(2) [unfolded grants_distinct_def] at old l'(2,4)
    by (metis (no_types, lifting) grant_of.simps(1) option.inject)
  ultimately show ?thesis by blast
qed

lemma system_inv_initial: "system_inv st initial_system"
  by (simp add: system_inv_def initial_system_def initial_shared_def live_count_def
      ledger_inv_empty grants_spent_def grants_distinct_def)

lemma system_inv_accept:
  assumes "system_inv st s"
  shows "system_inv st (accept_connection ev s)"
proof (cases "MAX_ACTIVE_CONNECTIONS \<le> sh_active (sys_shared s)")
  case True
  then show ?thesis using assms by (simp add: accept_connection_def system_inv_def)
next
  case False
  let ?w = "\<lparr>w_events = ev, w_pc = Accepted, w_live = True\<rparr>"
  have nth: "(sys_workers s @ [?w]) ! i =
      (if i < length (sys_workers s) then sys_workers s ! i else ?w)"
    if "i < Suc (length (sys_workers s))" for i
    using that by (simp add: nth_append)
  have "grants_distinct st (sys_workers s @ [?w])"
    using assms nth unfolding system_inv_def grants_distinct_def
    by (simp split: if_splits) (metis grant_of.simps(6) option.distinct(1) worker.select_convs(2))
  with assms False show ?thesis
    by (auto simp: accept_connection_def system_inv_def live_count_def grants_spent_def not_le)
qed

lemma system_inv_work:
  assumes inv: "system_inv st s" and i: "i < length (sys_workers s)"
  shows "system_inv st (work st i s)"
proof -
  let ?ws = "sys_workers s"
  obtain sh pc where c: "conn_step st (w_events (?ws ! i)) (sys_shared s, w_pc (?ws ! i)) = (sh, pc)"
    by fastforce
  let ?ws' = "?ws[i := (?ws ! i)\<lparr>w_pc := pc\<rparr>]"
  have work: "work st i s = s\<lparr>sys_shared := sh, sys_workers := ?ws'\<rparr>"
    using c by (simp add: work_def)
  have ok: "\<forall>w \<in> set ?ws'. pc_ok st (w_events w) (w_pc w)"
    using inv i conn_step_pc_ok [OF c] set_update_subset_insert [of ?ws i "(?ws ! i)\<lparr>w_pc := pc\<rparr>"]
    unfolding system_inv_def by (auto dest!: subsetD)
  have live: "live_count ?ws' = live_count ?ws"
    using length_filter_update [OF i, of w_live "(?ws ! i)\<lparr>w_pc := pc\<rparr>"] by (simp add: live_count_def)
  note step = conn_step_cases [OF c]
  have led: "ledger_inv (sh_ledger sh)"
    using step inv ledger_inv_consume by (auto simp: system_inv_def consume_for_def)
  have "grants_spent st (sh_ledger sh) ?ws' \<and> grants_distinct st ?ws'"
    using step
  proof (elim conjE disjE exE, goal_cases)
    case (3 g)
    then show ?thesis
      using inv i grants_update_new [of st "sh_ledger (sys_shared s)" ?ws i g "sh_ledger sh"]
      by (simp add: system_inv_def)
  qed (use inv i grants_update_same [of st "sh_ledger (sys_shared s)" ?ws i pc] in
      \<open>simp_all add: system_inv_def\<close>)
  with step live ok led inv show ?thesis
    unfolding work by (simp add: system_inv_def)
qed

lemma system_inv_leave:
  assumes inv: "system_inv st s" and i: "i < length (sys_workers s)" "w_live (sys_workers s ! i)"
  shows "system_inv st (leave i s)"
proof -
  let ?ws = "sys_workers s"
  let ?ws' = "?ws[i := (?ws ! i)\<lparr>w_live := False\<rparr>]"
  have live: "live_count ?ws' + 1 = live_count ?ws"
    using length_filter_update [OF i(1), of w_live "(?ws ! i)\<lparr>w_live := False\<rparr>"] i(2)
    by (simp add: live_count_def)
  have same: "w_pc (?ws' ! j) = w_pc (?ws ! j)" "w_events (?ws' ! j) = w_events (?ws ! j)"
    if "j < length ?ws" for j
    using that i(1) by (cases "j = i"; simp)+
  have "grants_distinct st ?ws'"
    using inv same(1) unfolding system_inv_def grants_distinct_def length_list_update by metis
  moreover have "grants_spent st (sh_ledger (sys_shared s)) ?ws'"
    "\<forall>w \<in> set ?ws'. pc_ok st (w_events w) (w_pc w)"
    using inv same unfolding system_inv_def grants_spent_def all_set_conv_all_nth by simp_all
  ultimately show ?thesis
    using inv live by (simp add: system_inv_def leave_def)
qed

lemma system_inv_step: "\<lbrakk>sys_step st s s'; system_inv st s\<rbrakk> \<Longrightarrow> system_inv st s'"
proof (induction rule: sys_step.induct)
  case (accept s ev)
  then show ?case by (rule_tac system_inv_accept)
next
  case (work i s)
  then show ?case by (intro system_inv_work)
next
  case (leave i s)
  then show ?case by (intro system_inv_leave)
qed (auto elim: system_inv_frame)

lemma system_inv_reachable: "reachable st s \<Longrightarrow> system_inv st s"
  by (induction rule: reachable.induct) (auto intro: system_inv_initial system_inv_step)

end
