(* ===== verification/Broker_Runs.thy ===== *)
theory Broker_Runs
  imports Broker_System
begin

text \<open>
  What every run of the broker guarantees: the properties that follow from the invariant of
  theory \<^verbatim>\<open>Broker_System\<close>, and what shutting down means for the connections in flight.
\<close>

section \<open>What a finished connection has sent\<close>

fun sent_ok :: "broker_static \<Rightarrow> conn_events \<Rightarrow> conn_pc \<Rightarrow> bool" where
  "sent_ok st ev (Emitting g sent) = (sent = fst (write_response st ev AllowDecision))"
| "sent_ok st ev (Finished (Some g) sent) = (sent = fst (write_response st ev AllowDecision))"
| "sent_ok st ev (Finished None sent) = (sent = [] \<or> sent = fst (write_response st ev NoDecision))"
| "sent_ok st ev pc = True"

lemma conn_step_sent_ok:
  assumes "conn_step st ev (sh, pc) = (sh', pc')" "sent_ok st ev pc"
  shows "sent_ok st ev pc'"
proof (cases pc)
  case (Finished g s)
  then show ?thesis using assms by simp
qed (use assms in \<open>auto split: prod.splits option.splits sum.splits if_splits\<close>)

text \<open>What holds of the point of every worker, as each point it reaches has it.\<close>

lemma reachable_workers:
  assumes "reachable st s" "w \<in> set (sys_workers s)"
    and "\<And>ev. P ev Accepted"
    and "\<And>ev sh pc sh' pc'. \<lbrakk>conn_step st ev (sh, pc) = (sh', pc'); P ev pc\<rbrakk> \<Longrightarrow> P ev pc'"
  shows "P (w_events w) (w_pc w)"
  using assms(1,2)
proof (induction arbitrary: w rule: reachable.induct)
  case (step s s')
  from step(2) show ?case
  proof (cases rule: sys_step.cases)
    case (accept ev)
    then show ?thesis
      using step(3,4) assms(3) by (auto simp: accept_connection_def split: if_splits)
  next
    case (work i)
    obtain sh pc where c: "conn_step st (w_events (sys_workers s ! i))
        (sys_shared s, w_pc (sys_workers s ! i)) = (sh, pc)" by fastforce
    have "w = (sys_workers s ! i)\<lparr>w_pc := pc\<rparr> \<or> w \<in> set (sys_workers s)"
      using step(4) c set_update_subset_insert [of "sys_workers s" i] unfolding work(1)
      by (auto simp: work_def)
    then show ?thesis
      using step(3) assms(4) [OF c step(3)] work(2) by auto
  next
    case (leave i)
    have "w = (sys_workers s ! i)\<lparr>w_live := False\<rparr> \<or> w \<in> set (sys_workers s)"
      using step(4) set_update_subset_insert [of "sys_workers s" i] unfolding leave(1)
      by (auto simp: leave_def)
    then show ?thesis using step(3) leave(2) by auto
  qed (use step(3,4) in auto)
qed (simp add: initial_system_def)

lemma reachable_sent_ok:
  "\<lbrakk>reachable st s; w \<in> set (sys_workers s)\<rbrakk> \<Longrightarrow> sent_ok st (w_events w) (w_pc w)"
  by (rule reachable_workers [where P = "sent_ok st"]) (auto intro: conn_step_sent_ok)

text \<open>A reader that sees an allow has been sent the whole of it.\<close>

lemma answer_needs_frame:
  assumes "list_all clean_event (cl_read cl)" "delivered (cl_read cl) = fst (write_response st ev decision)"
    and "snd (broker_client_request tok ser cl input) = Inr answer"
  shows "snd (write_response st ev decision)"
proof (rule ccontr)
  assume bad: "\<not> snd (write_response st ev decision)"
  obtain es response where r: "read_frame_until (cl_read cl) MAX_BROKER_RESPONSE_BYTES = (es, Inr response)"
    using client_request_Inr [OF assms(3)] by blast
  show False
  proof (cases "st_response_to_vec st (response_for decision)")
    case None
    then have "delivered (cl_read cl) = []" using assms(2) by (simp add: write_response_def)
    then show False
      using read_exact_short [OF assms(1), of 4 "[]"] r by (auto simp: read_frame_until_def)
  next
    case (Some bytes)
    obtain es' sent res where w: "write_frame_until (ev_write ev) bytes MAX_BROKER_RESPONSE_BYTES =
        (es', sent, res)" by (metis prod_cases3)
    with bad Some obtain e where "res = Inl e" by (cases res) (auto simp: write_response_def)
    moreover have "delivered (cl_read cl) = sent" using assms(2) Some w by (simp add: write_response_def)
    ultimately show False using read_frame_truncated [of "ev_write ev"] w r assms(1) by fastforce
  qed
qed

section \<open>An example run\<close>

definition example_grant :: grant where
  "example_grant =
     \<lparr>grant_credentials = \<lparr>peer_pid = 7, peer_uid = 5\<rparr>, grant_request = example_broker_request,
      grant_expected = example_codex, grant_peer = example_process\<rparr>"

lemma example_frame:
  "read_frame_until [Bytes (to_be_bytes 2), Bytes ''{q''] MAX_BROKER_MESSAGE_BYTES = ([], Inr ''{q'')"
proof -
  have "to_be_bytes 2 \<noteq> []" by (simp add: to_be_bytes_def)
  then show ?thesis
    by (simp add: read_frame_until_def read_exact_Bytes deadline_passed_def from_to_be_bytes Let_def
        MAX_BROKER_MESSAGE_BYTES_def)
qed

lemma example_parsed: "parse_request example_broker_tok ''{q'' = Some example_broker_request"
  by (simp add: parse_request_def parse_unique_object_def is_ascii_whitespace_def byte_def
      example_broker_tok_def example_wire_request_def MAX_BROKER_MESSAGE_BYTES_def exact_fields_def
      request_fields_def broker_request_decode_def bind_field_def example_broker_request_def
      hook_input_decode_def wire_decode_def wire_field_names_def permission_mode_names_def
      hook_input_try_from_def example_hook_input_def)

definition example_start :: shared_state where
  "example_start = initial_shared\<lparr>sh_expected := Some example_codex, sh_active := 1\<rparr>"

lemma example_steps:
  "\<exists>sh. (conn_step example_static example_events ^^ 12) (example_start, Accepted) =
     (sh, Finished (Some example_grant) (to_be_bytes 6 @ ''{allow''))"
proof -
  let ?step = "conn_step example_static example_events"
  have ev: "ev_credentials example_events = Some \<lparr>peer_pid = 7, peer_uid = 5\<rparr>"
    "ev_read example_events = [Bytes (to_be_bytes 2), Bytes ''{q'']"
    "ev_attempt example_events = AppendOk" "ev_invoked example_events = AppendOk"
    "ev_request example_events = AppendOk" "ev_allow example_events = AppendOk"
    by (simp_all add: example_events_def)
  have st: "st_tok example_static = example_broker_tok" by (simp add: example_static_def)
  have log: "log_step example_static app sh =
      (fst (app (sh_log sh)), sh\<lparr>sh_log := snd (app (sh_log sh))\<rparr>)" for app sh
    by (simp add: log_step_def example_static_def example_config_def split: prod.splits)
  have append: "fst (broker_attempt_at AppendOk l)" "fst (hook_invoked_at cr AppendOk t e l)"
    "fst (hook_request_at cr AppendOk t e i l)" "fst (hook_allow_at cr AppendOk t' i l)" for l cr t e i t'
    by (simp_all add: broker_attempt_at_def hook_invoked_at_def hook_request_at_def hook_allow_at_def
        append_line_def append_private_def)
  have sent: "write_response example_static example_events AllowDecision =
      (to_be_bytes 6 @ ''{allow'', True)"
    by (simp add: write_response_def response_for_def write_frame_until_def example_events_def
        example_static_def MAX_BROKER_RESPONSE_BYTES_def to_be_bytes_def)
  obtain sh1 where 1: "?step (example_start, Accepted) = (sh1, Attempted \<lparr>peer_pid = 7, peer_uid = 5\<rparr>)"
    "sh_ledger sh1 = empty_ledger" "sh_expected sh1 = Some example_codex" "\<not> sh_shutdown sh1"
    by (auto simp: log ev append example_start_def initial_shared_def)
  have 2: "?step (sh1, Attempted \<lparr>peer_pid = 7, peer_uid = 5\<rparr>) =
      (sh1, Framed \<lparr>peer_pid = 7, peer_uid = 5\<rparr> example_broker_request)"
    by (simp add: ev st example_frame example_parsed ensure_no_trailing_data_def)
  have "\<exists>sh. ?step (sh1, Framed \<lparr>peer_pid = 7, peer_uid = 5\<rparr> example_broker_request) =
      (sh, Recorded \<lparr>peer_pid = 7, peer_uid = 5\<rparr> example_broker_request) \<and>
      sh_ledger sh = empty_ledger \<and> sh_expected sh = Some example_codex \<and> \<not> sh_shutdown sh"
    using 1 by (simp add: log ev append)
  then obtain sh3 where
    3: "?step (sh1, Framed \<lparr>peer_pid = 7, peer_uid = 5\<rparr> example_broker_request) =
      (sh3, Recorded \<lparr>peer_pid = 7, peer_uid = 5\<rparr> example_broker_request)"
    "sh_ledger sh3 = empty_ledger" "sh_expected sh3 = Some example_codex" "\<not> sh_shutdown sh3"
    by blast
  obtain l where l: "consume_for example_static example_broker_request example_process empty_ledger = (True, l)"
    using example_checks by blast
  have 4: "(?step ^^ 5) (sh3, Recorded \<lparr>peer_pid = 7, peer_uid = 5\<rparr> example_broker_request) =
      (sh3\<lparr>sh_ledger := l\<rparr>, Granted example_grant)"
    using 3 l example_checks by (simp add: eval_nat_numeral example_grant_def)
  have "\<exists>sh. ?step (sh3\<lparr>sh_ledger := l\<rparr>, Granted example_grant) = (sh, RequestLogged example_grant)"
    by (simp add: log ev append)
  then obtain sh5 where 5: "?step (sh3\<lparr>sh_ledger := l\<rparr>, Granted example_grant) =
      (sh5, RequestLogged example_grant)" by blast
  have "\<exists>sh. ?step (sh5, RequestLogged example_grant) = (sh, AllowLogged example_grant)"
    by (simp add: log ev append)
  then obtain sh6 where 6: "?step (sh5, RequestLogged example_grant) = (sh6, AllowLogged example_grant)"
    by blast
  have 7: "\<exists>sh. (?step ^^ 2) (sh6, AllowLogged example_grant) =
      (sh, Finished (Some example_grant) (to_be_bytes 6 @ ''{allow''))"
    using sent by (simp add: eval_nat_numeral split: prod.splits)
  have "(?step ^^ 12) x = (?step ^^ 2) (?step (?step ((?step ^^ 5) (?step (?step (?step x))))))" for x
    by (simp add: eval_nat_numeral)
  then show ?thesis using 1 2 3 4 5 6 7 by simp
qed

lemma reachable_work1:
  assumes "reachable st s" "i < length (sys_workers s)" "w_live (sys_workers s ! i)"
  shows "reachable st (if finished (w_pc (sys_workers s ! i)) then s else work st i s)"
  using reachable.step [OF assms(1) sys_step.work [OF assms(2,3)]] assms(1) by simp

lemma finished_step: "finished pc \<Longrightarrow> conn_step st ev (sh, pc) = (sh, pc)"
  by (auto simp: finished_def rank_0)

lemma reachable_work:
  assumes "reachable st s" "i < length (sys_workers s)" "w_live (sys_workers s ! i)"
    and "(conn_step st (w_events (sys_workers s ! i)) ^^ n) (sys_shared s, w_pc (sys_workers s ! i)) =
      (sh, pc)"
  shows "\<exists>s'. reachable st s' \<and> length (sys_workers s') = length (sys_workers s) \<and>
    sys_shared s' = sh \<and> sys_workers s' ! i = (sys_workers s ! i)\<lparr>w_pc := pc\<rparr>"
  using assms(4)
proof (induction n arbitrary: sh pc)
  case 0
  then show ?case by (intro exI [of _ s]) (use assms(1) in simp)
next
  case (Suc n)
  let ?ev = "w_events (sys_workers s ! i)"
  obtain sh1 pc1 where n: "(conn_step st ?ev ^^ n) (sys_shared s, w_pc (sys_workers s ! i)) = (sh1, pc1)"
    by fastforce
  with Suc.prems have c: "conn_step st ?ev (sh1, pc1) = (sh, pc)" by simp
  obtain t where t: "reachable st t" "length (sys_workers t) = length (sys_workers s)"
    "sys_shared t = sh1" "sys_workers t ! i = (sys_workers s ! i)\<lparr>w_pc := pc1\<rparr>"
    using Suc.IH [OF n] by blast
  have r: "reachable st (if finished pc1 then t else work st i t)"
    using reachable_work1 [OF t(1), of i] t(2,4) assms(2,3) by simp
  show ?case
  proof (cases "finished pc1")
    case True
    then show ?thesis using t c finished_step [OF True] by (intro exI [of _ t]) simp
  next
    case False
    then show ?thesis using t(2-4) c r assms(2) by (intro exI [of _ "work st i t"]) simp
  qed
qed

lemma example_reachable:
  "\<exists>s. reachable example_static s \<and> length (sys_workers s) = 1 \<and>
     w_events (sys_workers s ! 0) = example_events \<and>
     w_pc (sys_workers s ! 0) = Finished (Some example_grant) (to_be_bytes 6 @ ''{allow'')"
proof -
  let ?a = "initial_system\<lparr>sys_shared := initial_shared\<lparr>sh_expected := Some example_codex\<rparr>\<rparr>"
  let ?b = "?a\<lparr>sys_serve := MayAccept\<rparr>"
  let ?c = "accept_connection example_events ?b"
  have "sys_step st initial_system ?a" for st
    using sys_step.set_codex_identity [of st initial_system example_codex]
    by (simp add: initial_system_def)
  then have "reachable st ?a" for st by (metis reachable.simps)
  moreover have "sys_step st ?a ?b" for st
    by (rule sys_step.ready)
      (simp_all add: initial_system_def initial_shared_def MAX_ACTIVE_CONNECTIONS_def)
  ultimately have "reachable st ?b" for st by (metis reachable.step)
  moreover have "sys_step st ?b ?c" for st by (rule sys_step.accept) simp
  ultimately have "reachable example_static ?c" by (metis reachable.step)
  moreover have s: "sys_workers ?c = [\<lparr>w_events = example_events, w_pc = Accepted, w_live = True\<rparr>]"
    "sys_shared ?c = example_start"
    by (simp_all add: accept_connection_def initial_system_def initial_shared_def
        MAX_ACTIVE_CONNECTIONS_def example_start_def)
  ultimately show ?thesis
    using reachable_work [of example_static ?c 0 12] example_steps by fastforce
qed

section \<open>Shutting down\<close>

text \<open>A connection that will be granted, or has been, without another look at the flag: what is granted, up to the
  record of the peer that it reads once more, is settled.\<close>

definition past_second_look :: "conn_pc \<Rightarrow> grant \<Rightarrow> bool" where
  "past_second_look pc g =
     ((\<exists>t. pc = Cleared (grant_credentials g) (grant_request g) (grant_expected g) t) \<or>
      pc = Confirmed g \<or> grant_of pc = Some g)"

lemma past_Accepted [simp]: "\<not> past_second_look Accepted g"
  by (simp add: past_second_look_def)

lemma conn_step_past:
  assumes "conn_step st ev (sh, pc) = (sh', pc')" "sh_shutdown sh" "past_second_look pc' g"
  shows "past_second_look pc g"
proof (cases pc)
  case (Finished g s)
  then show ?thesis using assms by simp
qed (use assms in \<open>auto simp: past_second_look_def second_look_def
      split: prod.splits option.splits sum.splits if_splits\<close>)

lemma shutdown_step:
  assumes "sys_step st s s'" "sh_shutdown (sys_shared s)"
  shows "sh_shutdown (sys_shared s') \<and>
    (\<forall>i < length (sys_workers s'). \<forall>g. past_second_look (w_pc (sys_workers s' ! i)) g \<longrightarrow>
       i < length (sys_workers s) \<and> past_second_look (w_pc (sys_workers s ! i)) g)"
  using assms(1)
proof (cases rule: sys_step.cases)
  case (accept ev)
  then show ?thesis
    using assms(2) by (auto simp: accept_connection_def nth_append split: if_splits)
next
  case (work i)
  obtain sh pc where c: "conn_step st (w_events (sys_workers s ! i))
      (sys_shared s, w_pc (sys_workers s ! i)) = (sh, pc)" by fastforce
  show ?thesis
    using conn_step_past [OF c assms(2)] conn_step_cases [OF c] assms(2) c work
    by (auto simp: work_def nth_list_update)
next
  case (leave i)
  then show ?thesis using assms(2) by (auto simp: leave_def nth_list_update)
qed (use assms(2) in auto)

section \<open>The granted requests\<close>

definition granted :: "system \<Rightarrow> grant list" where
  "granted s = List.map_filter (\<lambda>w. grant_of (w_pc w)) (sys_workers s)"

lemma set_granted: "(g \<in> set (List.map_filter h ws)) = (\<exists>w \<in> set ws. h w = Some g)"
  by (induction ws) (auto simp: List.map_filter_simps split: option.splits)

lemma grants_distinct_granted:
  assumes "grants_distinct st ws"
  shows "distinct (map grant_key (List.map_filter (\<lambda>w. grant_of (w_pc w)) ws)) \<and>
    distinct (map (grant_digest (st_crypto st)) (List.map_filter (\<lambda>w. grant_of (w_pc w)) ws))"
  using assms
proof (induction ws)
  case (Cons w ws)
  have "grants_distinct st ws"
    unfolding grants_distinct_def
  proof (intro allI impI)
    fix i j g h
    assume "i < length ws \<and> j < length ws \<and> i \<noteq> j \<and> grant_of (w_pc (ws ! i)) = Some g \<and>
      grant_of (w_pc (ws ! j)) = Some h"
    then show "grant_key g \<noteq> grant_key h \<and> grant_digest (st_crypto st) g \<noteq> grant_digest (st_crypto st) h"
      using Cons.prems [unfolded grants_distinct_def, rule_format, of "Suc i" "Suc j" g h] by simp
  qed
  moreover have "grant_key g \<noteq> grant_key h \<and> grant_digest (st_crypto st) g \<noteq> grant_digest (st_crypto st) h"
    if g: "grant_of (w_pc w) = Some g" and v: "v \<in> set ws" and h: "grant_of (w_pc v) = Some h"
    for g h v
  proof -
    obtain j where "j < length ws" "ws ! j = v" using v by (auto simp: in_set_conv_nth)
    then show ?thesis
      using Cons.prems [unfolded grants_distinct_def, rule_format, of 0 "Suc j" g h] g h by simp
  qed
  ultimately show ?case
    using Cons.IH by (force simp: List.map_filter_simps set_granted split: option.splits)
qed (simp add: List.map_filter_simps)

lemma allow_was_granted:
  assumes "reachable st s" "w \<in> set (sys_workers s)" "w_pc w = Finished outcome sent"
    and "reads_responses tok (st_response_to_vec st)"
    and "list_all clean_event (cl_read cl)" "delivered (cl_read cl) = sent"
    and "snd (broker_client_request tok ser cl input) = Inr True"
  shows "\<exists>g. outcome = Some g \<and> grant_ok st (w_events w) g"
proof (cases outcome)
  case (Some g)
  then show ?thesis
    using system_inv_reachable [OF assms(1)] assms(2,3) by (auto simp: system_inv_def)
next
  case None
  show ?thesis
  proof (cases "sent = []")
    case True
    then show ?thesis
      using read_exact_short [OF assms(5), of 4 "[]"] assms(6) client_request_Inr [OF assms(7)]
      by (auto simp: read_frame_until_def)
  next
    case False
    then have sent: "sent = fst (write_response st (w_events w) NoDecision)"
      using reachable_sent_ok [OF assms(1,2)] assms(3) None by simp
    then have "write_response st (w_events w) NoDecision = (sent, True)"
      using answer_needs_frame [OF assms(5) _ assms(7), of st "w_events w" NoDecision] assms(6)
      by (cases "write_response st (w_events w) NoDecision") simp
    from response_delivered [OF this assms(4-7)] show ?thesis by simp
  qed
qed

section \<open>Properties\<close>

text \<open>C24: however connections interleave, the count of active connections is the number of workers
  that have not left, and never more than sixteen.\<close>

theorem active_connections_bounded:
  assumes "reachable st s"
  shows "sh_active (sys_shared s) = length (filter w_live (sys_workers s)) \<and>
    sh_active (sys_shared s) \<le> 16"
  using system_inv_reachable [OF assms]
  by (simp add: system_inv_def live_count_def MAX_ACTIVE_CONNECTIONS_def)

theorem active_connections_bounded_witness:
  "\<exists>s. reachable example_static s \<and> length (sys_workers s) = 1 \<and> sh_active (sys_shared s) \<le> 16"
  using example_reachable active_connections_bounded by blast

text \<open>C22: however connections interleave, a client that reads an allow from a connection is served
  by a worker whose request was granted after all the checks: the broker's user, the session's
  secret, the ancestry before the decision, the decision, the admitted artifacts before and after it, and
  the ancestry once more, in reads of the process table that begin where those before the decision end.\<close>

theorem allow_only_after_checks:
  assumes "reachable st s" "w \<in> set (sys_workers s)" "w_pc w = Finished outcome sent"
    and "reads_responses tok (st_response_to_vec st)"
    and "list_all clean_event (cl_read cl)" "delivered (cl_read cl) = sent"
    and "snd (broker_client_request tok ser cl input) = Inr True"
  shows "\<exists>g. outcome = Some g \<and> grant_ok st (w_events w) g"
  using assms by (rule allow_was_granted)

theorem allow_only_after_checks_witness:
  "\<exists>s. reachable example_static s \<and> w_pc (sys_workers s ! 0) = Finished (Some example_grant)
     (to_be_bytes 6 @ ''{allow'') \<and> grant_ok example_static example_events example_grant"
proof -
  obtain s where s: "reachable example_static s" "length (sys_workers s) = 1"
    "w_events (sys_workers s ! 0) = example_events"
    "w_pc (sys_workers s ! 0) = Finished (Some example_grant) (to_be_bytes 6 @ ''{allow'')"
    using example_reachable by blast
  have "reads_responses example_response_tok (st_response_to_vec example_static)"
    using example_reads_responses by (simp add: example_static_def)
  moreover have "list_all clean_event (cl_read example_client)"
    "delivered (cl_read example_client) = to_be_bytes 6 @ ''{allow''"
    by (simp_all add: example_client_def to_be_bytes_def)
  ultimately have "grant_ok example_static example_events example_grant"
    using allow_only_after_checks [OF s(1) _ s(4) _ _ _
        example_client_request] s(2,3)
    by (auto simp: length_Suc_conv)
  with s show ?thesis by blast
qed

text \<open>C2: however connections interleave, no two granted requests share a process invocation or a
  digest, and all belong to the session of the ledger.\<close>

theorem grants_never_replayed:
  assumes "reachable st s"
  shows "distinct (map grant_key (granted s)) \<and>
    distinct (map (grant_digest (st_crypto st)) (granted s)) \<and>
    set (map grant_session (granted s)) \<subseteq> {ledger_session (sh_ledger (sys_shared s))}"
proof -
  have "grants_distinct st (sys_workers s)"
    "grants_spent st (sh_ledger (sys_shared s)) (sys_workers s)"
    using system_inv_reachable [OF assms] by (simp_all add: system_inv_def)
  then show ?thesis
    using grants_distinct_granted [of st "sys_workers s"]
    by (auto simp: granted_def grants_spent_def set_granted)
qed

theorem grants_never_replayed_witness:
  "\<exists>s. granted s = [example_grant] \<and> distinct (map grant_key (granted s)) \<and>
     set (map grant_session (granted s)) \<subseteq> {ledger_session (sh_ledger (sys_shared s))}"
proof -
  obtain s where s: "reachable example_static s" "length (sys_workers s) = 1"
    "w_pc (sys_workers s ! 0) = Finished (Some example_grant) (to_be_bytes 6 @ ''{allow'')"
    using example_reachable by blast
  then have "granted s = [example_grant]"
    by (auto simp: granted_def length_Suc_conv List.map_filter_simps)
  with grants_never_replayed [OF s(1)] show ?thesis by blast
qed

text \<open>C3: once the launcher has told the broker to stop, no connection is granted but one that had
  passed its second look at the shutdown flag before.\<close>

theorem no_grant_after_shutdown:
  assumes "(sys_step st)\<^sup>*\<^sup>* s s'" "sh_shutdown (sys_shared s)" "i < length (sys_workers s')"
    and "grant_of (w_pc (sys_workers s' ! i)) = Some g"
  shows "i < length (sys_workers s) \<and>
    past_second_look (w_pc (sys_workers s ! i)) g"
proof -
  have "sh_shutdown (sys_shared s') \<and>
    (\<forall>i < length (sys_workers s'). \<forall>g. past_second_look (w_pc (sys_workers s' ! i)) g \<longrightarrow>
       i < length (sys_workers s) \<and> past_second_look (w_pc (sys_workers s ! i)) g)"
    using assms(1)
  proof (induction rule: rtranclp_induct)
    case (step t u)
    then show ?case using shutdown_step [OF step(2)] by metis
  qed (use assms(2) in simp)
  then show ?thesis using assms(3,4) by (auto simp: past_second_look_def)
qed


definition example_stopping :: system where
  "example_stopping =
     \<lparr>sys_shared = initial_shared\<lparr>sh_shutdown := True\<rparr>, sys_serve = Stopped,
      sys_workers = [\<lparr>w_events = example_events, w_pc = Confirmed example_grant, w_live = True\<rparr>]\<rparr>"

theorem no_grant_after_shutdown_witness:
  "grant_of (w_pc (sys_workers (work example_static 0 example_stopping) ! 0)) = Some example_grant \<and>
   past_second_look (w_pc (sys_workers example_stopping ! 0)) example_grant"
proof -
  have "(sys_step example_static)\<^sup>*\<^sup>* example_stopping (work example_static 0 example_stopping)"
    by (rule r_into_rtranclp, rule sys_step.work) (simp_all add: example_stopping_def finished_def)
  moreover have g: "grant_of (w_pc (sys_workers (work example_static 0 example_stopping) ! 0)) =
      Some example_grant"
    using example_checks(4) by (auto simp: example_stopping_def example_grant_def initial_shared_def)
  ultimately show ?thesis
    using no_grant_after_shutdown [of example_static example_stopping
        "work example_static 0 example_stopping" 0 example_grant]
    by (simp add: example_stopping_def)
qed

end
