(* ===== verification/Broker_Audit.thy ===== *)
theory Broker_Audit
  imports Broker_Runs
begin

text \<open>
  The log of a running broker and its reader: \<^verbatim>\<open>src/broker/linux.rs\<close> writes through
  \<^verbatim>\<open>src/audit.rs\<close> what \<^verbatim>\<open>src/update/outcome.rs\<close> reads when the session is over.  In
  every reachable state the log is one the reader accepts, and its counters are truthful.
\<close>

section \<open>Lines a connection still owes\<close>

text \<open>The class of line that comes before another in a connection.\<close>

fun before :: "audit_line \<Rightarrow> audit_line option" where
  "before Attempt = None"
| "before Invoked = Some Attempt"
| "before Requested = Some Invoked"
| "before Allowed = Some Requested"
| "before Emitted = Some Allowed"

text \<open>Whether a connection has written the line before and may still write one of a class.\<close>

fun owes :: "audit_line \<Rightarrow> conn_pc \<Rightarrow> nat" where
  "owes Attempt Accepted = 1"
| "owes Invoked (Attempted c) = 1"
| "owes Invoked (Framed c r) = 1"
| "owes Requested (Recorded c r) = 1"
| "owes Requested (Identified c r e) = 1"
| "owes Requested (Prechecked c r e t) = 1"
| "owes Requested (Cleared c r e t) = 1"
| "owes Requested (Confirmed g) = 1"
| "owes Requested (Granted g) = 1"
| "owes Allowed (RequestLogged g) = 1"
| "owes Emitted (AllowLogged g) = 1"
| "owes Emitted (Emitting g sent) = 1"
| "owes k pc = 0"

text \<open>A granted request that has not written its allow line.\<close>

fun unwritten :: "conn_pc \<Rightarrow> nat" where
  "unwritten (Granted g) = 1"
| "unwritten (RequestLogged g) = 1"
| "unwritten pc = 0"

definition has_grant :: "conn_pc \<Rightarrow> nat" where
  "has_grant pc = (if grant_of pc = None then 0 else 1)"

text \<open>An append that fails without having written anything.\<close>

definition clean_append :: "append_outcome \<Rightarrow> bool" where
  "clean_append out = (case out of AppendOk \<Rightarrow> True | AppendFails n \<Rightarrow> n = 0)"

definition clean_appends :: "conn_events \<Rightarrow> bool" where
  "clean_appends ev =
     list_all clean_append [ev_attempt ev, ev_invoked ev, ev_request ev, ev_allow ev, ev_emitted ev]"

definition log_ok_line :: "string \<Rightarrow> bool" where
  "log_ok_line l = (log_line l \<and> classify l \<noteq> None)"

lemma unlines_append [simp]: "unlines (ls @ ls') = unlines ls @ unlines ls'"
  by (simp add: unlines_def)

lemma unlines_Nil [simp]: "unlines [] = []"
  by (simp add: unlines_def)

lemma log_step_append:
  assumes "cfg_audit (st_config st)" "clean_append out"
    and "log_step st (append_line out line) sh = (ok, sh')"
  shows "sh_log sh' = sh_log sh @ unlines (if ok then [line] else [])"
  using assms
  by (auto simp: log_step_def append_line_def append_private_def clean_append_def unlines_def
      split: append_outcome.splits)

lemma decide_Allow_event:
  "decide os tok input context = Allow \<Longrightarrow> hook_event_name input = Some ''PermissionRequest''"
  by (simp add: decide_first_failure checks_def PERMISSION_REQUEST_EVENT_def split: if_splits)

lemma granted_event:
  assumes "grant_ok st ev g"
  shows "hook_event_name (request_hook_input (grant_request g)) = Some ''PermissionRequest''"
  using assms decide_Allow_event unfolding grant_ok_def request_ok_def by blast

text \<open>What a step adds to the log, and how it changes what is owed.\<close>

definition log_effect :: "conn_pc \<Rightarrow> string list \<Rightarrow> conn_pc \<Rightarrow> bool" where
  "log_effect pc ls pc' =
     (list_all log_ok_line ls \<and>
      (\<forall>k. count_kind k ls + owes k pc' \<le>
         owes k pc + (case before k of None \<Rightarrow> 0 | Some j \<Rightarrow> count_kind j ls)) \<and>
      count_kind Allowed ls + unwritten pc' + has_grant pc \<le> unwritten pc + has_grant pc')"

lemma all_audit_line: "(\<forall>k. P k) = (P Attempt \<and> P Invoked \<and> P Requested \<and> P Allowed \<and> P Emitted)"
  by (metis audit_line.exhaust)

lemmas log_effect_eval =
  log_effect_def all_audit_line has_grant_def log_ok_line_def

lemma logged:
  assumes "cfg_audit (st_config st)" "clean_append out"
    and "log_step st (append_line out line) sh = (ok, sh')"
    and "log_effect pc [line] a" "log_effect pc [] b" "pc' = (if ok then a else b)"
  shows "\<exists>ls. sh_log sh' = sh_log sh @ unlines ls \<and> log_effect pc ls pc'"
  using log_step_append [OF assms(1-3)] assms(4-6)
  by (intro exI [of _ "if ok then [line] else []"]) simp

lemma conn_step_log:
  assumes "conn_step st ev (sh, pc) = (sh', pc')" "pc_ok st ev pc"
    and "cfg_audit (st_config st)" "clean_appends ev"
  shows "\<exists>ls. sh_log sh' = sh_log sh @ unlines ls \<and> log_effect pc ls pc'"
proof -
  have silent: ?thesis if "sh_log sh' = sh_log sh" "log_effect pc [] pc'"
    using that by (intro exI [of _ "[]"]) simp
  note clean = assms(4) [unfolded clean_appends_def list.pred_inject]
  show ?thesis
  proof (cases pc)
    case Accepted
    show ?thesis
    proof (cases "ev_credentials ev")
      case None
      then show ?thesis using assms(1) Accepted by (intro silent) (auto simp: log_effect_eval)
    next
      case (Some c)
      then obtain ok where l: "log_step st (broker_attempt_at (ev_attempt ev)) sh = (ok, sh')"
        "pc' = (if ok then Attempted c else Finished None [])"
        using assms(1) Accepted by (auto split: prod.splits)
      show ?thesis
        by (rule logged [OF assms(3) _ l(1) [unfolded broker_attempt_at_def] _ _ l(2)])
          (use clean Accepted in \<open>simp_all add: log_effect_eval\<close>)
    qed
  next
    case (Framed c r)
    then obtain ok where l: "log_step st (hook_invoked_at (st_crypto st) (ev_invoked ev)
          (tool_name (request_hook_input r)) (hook_event_name (request_hook_input r))) sh = (ok, sh')"
      "pc' = (if ok then Recorded c r else Denying)"
      using assms(1) by (auto split: prod.splits)
    show ?thesis
      by (rule logged [OF assms(3) _ l(1) [unfolded hook_invoked_at_def] _ _ l(2)])
        (use clean Framed in \<open>simp_all add: log_effect_eval\<close>)
  next
    case (Granted g)
    then obtain ok where l: "log_step st (hook_request_at (st_crypto st) (ev_request ev)
          (tool_name (request_hook_input (grant_request g)))
          (hook_event_name (request_hook_input (grant_request g))) (grant_input g)) sh = (ok, sh')"
      "pc' = (if ok then RequestLogged g else Denying)"
      using assms(1) by (auto split: prod.splits)
    show ?thesis
      by (rule logged [OF assms(3) _ l(1) [unfolded hook_request_at_def] _ _ l(2)])
        (use clean Granted granted_event [of st ev g] assms(2) in \<open>simp_all add: log_effect_eval\<close>)
  next
    case (RequestLogged g)
    then obtain ok where l: "log_step st (hook_allow_at (st_crypto st) (ev_allow ev) (grant_tool g)
          (grant_input g)) sh = (ok, sh')"
      "pc' = (if ok then AllowLogged g else Denying)"
      using assms(1) by (auto split: prod.splits)
    show ?thesis
      by (rule logged [OF assms(3) _ l(1) [unfolded hook_allow_at_def] _ _ l(2)])
        (use clean RequestLogged in \<open>simp_all add: log_effect_eval\<close>)
  next
    case (Emitting g sent)
    then obtain ok where l: "log_step st (hook_allow_emitted_at (st_crypto st) (ev_emitted ev)
          (grant_tool g) (grant_input g)) sh = (ok, sh')"
      "pc' = (if ok then Finished (Some g) sent else Finished (Some g) sent)"
      using assms(1) by (auto split: prod.splits)
    show ?thesis
      by (rule logged [OF assms(3) _ l(1) [unfolded hook_allow_emitted_at_def] _ _ l(2)])
        (use clean Emitting in \<open>simp_all add: log_effect_eval\<close>)
  next
    case (Finished o sent)
    then show ?thesis using assms(1) by (intro silent) (auto simp: log_effect_eval)
  qed (use assms(1) silent in \<open>auto simp: log_effect_eval
      split: prod.splits option.splits sum.splits if_splits\<close>)
qed

section \<open>The invariant of the log\<close>

definition total :: "(conn_pc \<Rightarrow> nat) \<Rightarrow> worker list \<Rightarrow> nat" where
  "total f ws = sum_list (map (\<lambda>w. f (w_pc w)) ws)"

lemma total_simps [simp]:
  "total f [] = 0" "total f (w # ws) = f (w_pc w) + total f ws"
  "total f (ws @ ws') = total f ws + total f ws'"
  by (simp_all add: total_def)

lemma total_update:
  assumes "i < length ws"
  shows "total f (ws[i := w]) + f (w_pc (ws ! i)) = total f ws + f (w_pc w)"
  using assms
proof (induction ws arbitrary: i)
  case (Cons v ws)
  then show ?case by (cases i) (auto simp: add_ac)
qed simp

definition lines_inv :: "string list \<Rightarrow> worker list \<Rightarrow> bool" where
  "lines_inv ls ws =
     (list_all log_ok_line ls \<and>
      (\<forall>k. count_kind k ls + total (owes k) ws \<le>
         (case before k of None \<Rightarrow> length ws | Some j \<Rightarrow> count_kind j ls)) \<and>
      count_kind Allowed ls + total unwritten ws \<le> total has_grant ws)"

definition log_inv :: "system \<Rightarrow> bool" where
  "log_inv s = (\<exists>ls. sh_log (sys_shared s) = unlines ls \<and> lines_inv ls (sys_workers s))"

lemma lines_inv_work:
  assumes "lines_inv ls ws" "i < length ws" "log_effect (w_pc (ws ! i)) new (w_pc w)"
  shows "lines_inv (ls @ new) (ws[i := w])"
proof -
  have t: "total f (ws[i := w]) + f (w_pc (ws ! i)) = total f ws + f (w_pc w)" for f
    by (rule total_update [OF assms(2)])
  have "count_kind k (ls @ new) + total (owes k) (ws[i := w]) \<le>
      (case before k of None \<Rightarrow> length (ws[i := w]) | Some j \<Rightarrow> count_kind j (ls @ new))" for k
  proof -
    have "count_kind k ls + total (owes k) ws \<le>
        (case before k of None \<Rightarrow> length ws | Some j \<Rightarrow> count_kind j ls)"
      "count_kind k new + owes k (w_pc w) \<le>
        owes k (w_pc (ws ! i)) + (case before k of None \<Rightarrow> 0 | Some j \<Rightarrow> count_kind j new)"
      using assms(1,3) by (simp_all add: lines_inv_def log_effect_def)
    with t [of "owes k"] show ?thesis by (cases "before k") simp_all
  qed
  moreover have "count_kind Allowed (ls @ new) + total unwritten (ws[i := w]) \<le>
      total has_grant (ws[i := w])"
    using assms(1,3) t [of unwritten] t [of has_grant] by (simp add: lines_inv_def log_effect_def)
  ultimately show ?thesis
    using assms(1,3) by (simp add: lines_inv_def log_effect_def)
qed

lemma log_inv_initial: "log_inv initial_system"
  by (auto simp: log_inv_def initial_system_def initial_shared_def lines_inv_def all_audit_line
      intro!: exI [of _ "[]"])

lemma lines_inv_accept:
  assumes "lines_inv ls ws" "w_pc w = Accepted"
  shows "lines_inv ls (ws @ [w])"
proof -
  have "owes k Accepted = (if k = Attempt then 1 else 0)" for k by (cases k) simp_all
  moreover have "has_grant Accepted = 0" by (simp add: has_grant_def)
  ultimately show ?thesis
    using assms by (auto simp: lines_inv_def all_audit_line)
qed

lemma log_inv_step:
  assumes "sys_step st s s'" "system_inv st s" "log_inv s" "cfg_audit (st_config st)"
    and "\<forall>w \<in> set (sys_workers s'). clean_appends (w_events w)"
  shows "log_inv s'"
  using assms(1)
proof (cases rule: sys_step.cases)
  case (accept ev)
  then show ?thesis
    using assms(3) lines_inv_accept by (auto simp: log_inv_def accept_connection_def)
next
  case (work i)
  let ?w = "sys_workers s ! i"
  obtain sh pc where c: "conn_step st (w_events ?w) (sys_shared s, w_pc ?w) = (sh, pc)" by fastforce
  obtain ls where ls: "sh_log (sys_shared s) = unlines ls" "lines_inv ls (sys_workers s)"
    using assms(3) by (auto simp: log_inv_def)
  have "pc_ok st (w_events ?w) (w_pc ?w)"
    using assms(2) work(2) by (simp add: system_inv_def)
  moreover have "?w\<lparr>w_pc := pc\<rparr> \<in> set (sys_workers s')"
    using work(1,2) c by (simp add: set_update_memI)
  then have "clean_appends (w_events ?w)"
    using assms(5) by fastforce
  ultimately obtain new where new: "sh_log sh = sh_log (sys_shared s) @ unlines new"
    "log_effect (w_pc ?w) new pc"
    using conn_step_log [OF c _ assms(4)] by blast
  have "lines_inv (ls @ new) ((sys_workers s)[i := ?w\<lparr>w_pc := pc\<rparr>])"
    using lines_inv_work [OF ls(2) work(2), of new "?w\<lparr>w_pc := pc\<rparr>"] new(2) by simp
  then show ?thesis
    unfolding log_inv_def work(1) using new(1) ls(1) c by (intro exI [of _ "ls @ new"]) simp
next
  case (leave i)
  obtain ls where ls: "sh_log (sys_shared s) = unlines ls" "lines_inv ls (sys_workers s)"
    using assms(3) by (auto simp: log_inv_def)
  have "total f ((sys_workers s)[i := (sys_workers s ! i)\<lparr>w_live := False\<rparr>]) = total f (sys_workers s)" for f
    using total_update [OF leave(2), of f "(sys_workers s ! i)\<lparr>w_live := False\<rparr>"] by simp
  then have "lines_inv ls (sys_workers s')"
    using ls(2) leave(1) unfolding lines_inv_def by (simp add: leave_def cong: option.case_cong)
  then show ?thesis
    using ls(1) leave(1) unfolding log_inv_def by (intro exI [of _ ls]) (simp add: leave_def)
qed (use assms(3) in \<open>auto simp: log_inv_def\<close>)

text \<open>A step does not change what the environment does to a connection.\<close>

lemma events_step:
  assumes "sys_step st s s'"
  shows "w_events ` set (sys_workers s) \<subseteq> w_events ` set (sys_workers s')"
proof -
  have "map w_events (sys_workers s) = take (length (sys_workers s)) (map w_events (sys_workers s'))"
    using assms
    by (cases rule: sys_step.cases)
      (auto simp: accept_connection_def leave_def map_update list_update_id map_update [symmetric]
        intro!: nth_equalityI simp: nth_list_update)
  then show ?thesis by (metis image_set set_take_subset)
qed

lemma log_inv_reachable:
  assumes "reachable st s" "cfg_audit (st_config st)"
    and "\<forall>w \<in> set (sys_workers s). clean_appends (w_events w)"
  shows "log_inv s"
  using assms(1,3)
proof (induction rule: reachable.induct)
  case (step s s')
  have "\<forall>w \<in> set (sys_workers s). clean_appends (w_events w)"
    using events_step [OF step(2)] step(4) by (auto simp: image_subset_iff)
  then show ?case
    using log_inv_step [OF step(2) system_inv_reachable [OF step(1)] _ assms(2) step(4)] step(3) by blast
qed (rule log_inv_initial)

section \<open>Properties\<close>

text \<open>C23: however connections interleave, as long as every append either succeeds or writes
  nothing and at most 64 connections were accepted, the log is empty or one that the reader of
  session outcomes accepts, with the numbers of its lines as counters, and no more allow or
  emission lines than there are granted requests.\<close>

theorem broker_log_truthful:
  assumes "reachable st s" "cfg_audit (st_config st)"
    and "\<forall>w \<in> set (sys_workers s). clean_appends (w_events w)" "length (sys_workers s) \<le> 64"
  shows "sh_log (sys_shared s) = [] \<or>
    (\<exists>ls. sh_log (sys_shared s) = unlines ls \<and>
       read_audit_contents (sh_log (sys_shared s)) =
         Inr \<lparr>acc_counts = summary ls, acc_command_outcome = None\<rparr> \<and>
       count_kind Attempt ls \<le> length (sys_workers s) \<and>
       count_kind Emitted ls \<le> count_kind Allowed ls \<and>
       count_kind Allowed ls \<le> total has_grant (sys_workers s))"
proof -
  obtain ls where ls: "sh_log (sys_shared s) = unlines ls" "lines_inv ls (sys_workers s)"
    using log_inv_reachable [OF assms(1-3)] by (auto simp: log_inv_def)
  have ok: "list_all log_ok_line ls" using ls(2) by (simp add: lines_inv_def)
  then have "\<forall>l \<in> set ls. plain_line l"
    using log_line_plain by (auto simp: list_all_iff log_ok_line_def)
  then have t: "text_lines (unlines ls) = ls" by (rule text_lines_unlines)
  have c: "count_kind Attempt ls \<le> length (sys_workers s)"
    "count_kind Invoked ls \<le> count_kind Attempt ls"
    "count_kind Requested ls \<le> count_kind Invoked ls"
    "count_kind Allowed ls \<le> count_kind Requested ls"
    "count_kind Emitted ls \<le> count_kind Allowed ls"
    "count_kind Allowed ls \<le> total has_grant (sys_workers s)"
    using ls(2) unfolding lines_inv_def all_audit_line by auto
  have "list_all (\<lambda>l. classify l \<noteq> None) ls"
    using ok by (auto simp: list_all_iff log_ok_line_def)
  then have "log_ok ls"
    using c le_trans [OF c(1) assms(4)] by (simp add: log_ok_def)
  then show ?thesis
    using ls(1) t c unfolding read_audit_contents_Inr by auto
qed

lemma example_events_clean: "clean_appends example_events"
  by (simp add: clean_appends_def clean_append_def example_events_def)

theorem broker_log_truthful_witness:
  "\<exists>s. reachable example_static s \<and> length (sys_workers s) = 1 \<and>
     (sh_log (sys_shared s) = [] \<or> (\<exists>ls. sh_log (sys_shared s) = unlines ls \<and>
        count_kind Emitted ls \<le> 1))"
proof -
  obtain s where s: "reachable example_static s" "length (sys_workers s) = 1"
    "w_events (sys_workers s ! 0) = example_events"
    using example_reachable by blast
  moreover have "total has_grant (sys_workers s) \<le> 1"
    using s(2) by (auto simp: length_Suc_conv has_grant_def)
  moreover have "cfg_audit (st_config example_static)"
    by (simp add: example_static_def example_config_def)
  moreover have "\<forall>w \<in> set (sys_workers s). clean_appends (w_events w)"
    using s(2,3) example_events_clean by (auto simp: length_Suc_conv)
  ultimately show ?thesis
    using broker_log_truthful [of example_static s] by fastforce
qed

end
