(* ===== verification/Hook.thy ===== *)
theory Hook
  imports Broker_Audit
begin

text \<open>
  The hook, \<^verbatim>\<open>src/hook.rs\<close>: one request read from standard input, one exchange with the
  broker, at most one response on standard output.  With the broker of the other theories: what
  the hook prints was granted, to the very request it read.
\<close>

section \<open>The run of a hook\<close>

text \<open>
  What the environment does: the bytes of standard input (\<^const>\<open>None\<close> when a read fails), the
  exchange with the broker, and how far the response, its newline and the flush get.
\<close>

record hook_events =
  hk_stdin :: "string option"
  hk_client :: client_events
  hk_response :: append_outcome
  hk_newline :: append_outcome
  hk_flush :: bool

text \<open>The JSON functions of the process.\<close>

record hook_static =
  hs_tok :: tokenizer
  hs_request_to_vec :: "json \<Rightarrow> string option"
  hs_response_to_vec :: "allow_response_data \<Rightarrow> string option"

datatype hook_report = Stage string | Outcome hook_outcome

text \<open>The reports in order, what has been printed, and the exit code unless the run failed.\<close>

record hook_result =
  hook_reports :: "hook_report list"
  hook_stdout :: string
  hook_exit :: "(unit, nat) result"

definition read_bounded_stdin :: "string option \<Rightarrow> string option" where
  "read_bounded_stdin stream = map_option (take (MAX_INPUT_BYTES + 1)) stream"

definition no_decision_outcome :: hook_outcome where
  "no_decision_outcome = ProtocolFailure"

definition write_stdout :: "hook_events \<Rightarrow> string \<Rightarrow> string \<times> bool" where
  "write_stdout ev response =
     (case append_private (hk_response ev) response [] of
        (False, out) \<Rightarrow> (out, False)
      | (True, out) \<Rightarrow>
          (case append_private (hk_newline ev) [CHR 0x0A] out of
             (ok, out) \<Rightarrow> (out, ok \<and> hk_flush ev)))"

fun failure_outcome :: "request_failure_kind \<Rightarrow> hook_outcome" where
  "failure_outcome TransportKind = TransportFailure"
| "failure_outcome ProtocolKind = ProtocolFailure"

definition run_exchange :: "hook_static \<Rightarrow> hook_events \<Rightarrow> hook_input \<Rightarrow> hook_result" where
  "run_exchange hs ev input =
     (case broker_client_request (hs_tok hs) (hs_request_to_vec hs) (hk_client ev) input of
        (stages, answer) \<Rightarrow>
          let before = [Stage ''entry'', Stage ''stdin_read''] @ List.map Stage stages in
          case answer of
            Inr True \<Rightarrow>
              (case hs_response_to_vec hs allow_response of
                 None \<Rightarrow> \<lparr>hook_reports = before, hook_stdout = [], hook_exit = Inl ()\<rparr>
               | Some response \<Rightarrow>
                   (case write_stdout ev response of
                      (out, False) \<Rightarrow>
                        \<lparr>hook_reports = before @ [Stage ''stdout_error'', Outcome ProtocolFailure],
                         hook_stdout = out, hook_exit = Inl ()\<rparr>
                    | (out, True) \<Rightarrow>
                        \<lparr>hook_reports = before @ [Stage ''stdout_written'', Stage ''broker_allow'',
                           Outcome SuccessfulExchange],
                         hook_stdout = out, hook_exit = Inr 0\<rparr>))
          | Inr False \<Rightarrow>
              \<lparr>hook_reports = before @ [Stage ''broker_no_decision'', Outcome no_decision_outcome],
               hook_stdout = [], hook_exit = Inr 0\<rparr>
          | Inl kind \<Rightarrow>
              \<lparr>hook_reports = before @ [Stage ''broker_error'', Outcome (failure_outcome kind)],
               hook_stdout = [], hook_exit = Inr 0\<rparr>)"

definition hook_run :: "hook_static \<Rightarrow> hook_events \<Rightarrow> hook_result" where
  "hook_run hs ev =
     (case read_bounded_stdin (hk_stdin ev) of
        None \<Rightarrow> \<lparr>hook_reports = [Stage ''entry'', Outcome ProtocolFailure], hook_stdout = [],
                 hook_exit = Inl ()\<rparr>
      | Some bytes \<Rightarrow>
          (case parse (hs_tok hs) bytes of
             Inl e \<Rightarrow>
               \<lparr>hook_reports = [Stage ''entry'', Stage ''stdin_read'', Stage ''stdin_parse_error'',
                  Outcome ProtocolFailure],
                hook_stdout = [], hook_exit = Inr 0\<rparr>
           | Inr input \<Rightarrow> run_exchange hs ev input))"

text \<open>The reports in the audit file, if the environment names one; a failed report is ignored.\<close>

fun report :: "bool \<Rightarrow> append_outcome \<Rightarrow> hook_report \<Rightarrow> audit_log \<Rightarrow> audit_log" where
  "report path_set out (Stage category) log = snd (audit_hook_stage path_set out category log)"
| "report path_set out (Outcome outcome) log = snd (audit_hook_outcome path_set out outcome log)"

fun report_all :: "bool \<Rightarrow> append_outcome list \<Rightarrow> hook_report list \<Rightarrow> audit_log \<Rightarrow> audit_log" where
  "report_all path_set (out # outs) (r # rs) log =
     report_all path_set outs rs (report path_set out r log)"
| "report_all path_set outs rs log = log"

section \<open>What the hook prints and reports\<close>

definition is_outcome :: "hook_report \<Rightarrow> bool" where
  "is_outcome r = (case r of Stage s \<Rightarrow> False | Outcome k \<Rightarrow> True)"

lemma write_stdout_prefix:
  assumes "write_stdout ev response = (out, ok)"
  shows "\<exists>rest. response @ [CHR 0x0A] = out @ rest" and "ok \<Longrightarrow> out = response @ [CHR 0x0A]"
proof -
  show "\<exists>rest. response @ [CHR 0x0A] = out @ rest"
  proof (cases "hk_response ev")
    case (AppendFails n)
    then show ?thesis using assms
      by (auto simp: write_stdout_def append_private_def intro!: exI [of _ "drop n response @ [CHR 0x0A]"])
  next
    case AppendOk
    then show ?thesis using assms
      by (cases "hk_newline ev")
        (auto simp: write_stdout_def append_private_def take_Cons' split: if_splits)
  qed
  show "ok \<Longrightarrow> out = response @ [CHR 0x0A]"
    using assms by (auto simp: write_stdout_def append_private_def split: append_outcome.splits)
qed

lemma hook_run_prints:
  assumes "hook_stdout (hook_run hs ev) \<noteq> []"
  shows "\<exists>bytes input response rest. read_bounded_stdin (hk_stdin ev) = Some bytes \<and>
    parse (hs_tok hs) bytes = Inr input \<and>
    snd (broker_client_request (hs_tok hs) (hs_request_to_vec hs) (hk_client ev) input) = Inr True \<and>
    hs_response_to_vec hs allow_response = Some response \<and>
    response @ [CHR 0x0A] = hook_stdout (hook_run hs ev) @ rest"
proof -
  obtain bytes input where b: "read_bounded_stdin (hk_stdin ev) = Some bytes"
    "parse (hs_tok hs) bytes = Inr input" "hook_run hs ev = run_exchange hs ev input"
    using assms by (auto simp: hook_run_def split: option.splits sum.splits)
  obtain stages response out ok where
    r: "broker_client_request (hs_tok hs) (hs_request_to_vec hs) (hk_client ev) input = (stages, Inr True)"
    "hs_response_to_vec hs allow_response = Some response" "write_stdout ev response = (out, ok)"
    "hook_stdout (run_exchange hs ev input) = out"
    using assms unfolding b(3)
    by (auto simp: run_exchange_def Let_def split: prod.splits sum.splits bool.splits option.splits)
  then show ?thesis using b write_stdout_prefix(1) [OF r(3)] by auto
qed

text \<open>
  The reports are stages and then one outcome, which is of a successful exchange exactly when
  the run ended well with something printed, and then all of the response was.
\<close>

definition truthful :: "hook_static \<Rightarrow> hook_result \<Rightarrow> bool" where
  "truthful hs r =
     (\<exists>stages k. hook_reports r = List.map Stage stages @ [Outcome k] \<and>
        set stages \<subseteq> set stage_categories \<and>
        (k = SuccessfulExchange \<longleftrightarrow> hook_exit r = Inr 0 \<and> hook_stdout r \<noteq> []) \<and>
        (k = SuccessfulExchange \<longrightarrow> (\<exists>response. hs_response_to_vec hs allow_response = Some response \<and>
           hook_stdout r = response @ [CHR 0x0A])))"

lemma truthful_silent:
  assumes "hook_reports r = List.map Stage stages @ [Outcome k]" "set stages \<subseteq> set stage_categories"
    and "k \<noteq> SuccessfulExchange" "hook_exit r = Inl () \<or> hook_stdout r = []"
  shows "truthful hs r"
  unfolding truthful_def using assms by (intro exI [of _ stages] exI [of _ k]) auto

lemma truthful_printed:
  assumes "hook_reports r = List.map Stage stages @ [Outcome SuccessfulExchange]"
    and "set stages \<subseteq> set stage_categories" "hook_exit r = Inr 0"
    and "hs_response_to_vec hs allow_response = Some response" "hook_stdout r = response @ [CHR 0x0A]"
  shows "truthful hs r"
  unfolding truthful_def using assms
  by (intro exI [of _ stages] exI [of _ SuccessfulExchange]) auto

lemma stage_names:
  "list_all (\<lambda>m. m \<in> set stage_categories)
     [''entry'', ''stdin_read'', ''stdin_parse_error'', ''broker_connected'', ''broker_request_sent'',
      ''broker_response_received'', ''broker_response_parsed'', ''broker_allow'',
      ''broker_no_decision'', ''broker_error'', ''stdout_written'', ''stdout_error'']"
  unfolding stage_categories_def list_all_iff by simp

lemmas stage_name = stage_names [unfolded list.pred_inject]

lemma client_stages:
  assumes "broker_client_request tok ser cl input = (stages, answer)"
  shows "set stages \<subseteq> set stage_categories"
  using assms
  by (auto simp: broker_client_request_def client_answer_def stage_name
      split: sum.splits if_splits prod.splits)

lemma failure_not_success: "failure_outcome kind \<noteq> SuccessfulExchange"
  by (cases kind) simp_all

lemma run_exchange_truthful:
  assumes "hs_response_to_vec hs allow_response = Some response"
  shows "truthful hs (run_exchange hs ev input)"
proof -
  obtain stages answer where c:
    "broker_client_request (hs_tok hs) (hs_request_to_vec hs) (hk_client ev) input = (stages, answer)"
    by fastforce
  have ok: "set ([''entry'', ''stdin_read''] @ stages @ more) \<subseteq> set stage_categories"
    if "list_all (\<lambda>m. m \<in> set stage_categories) more" for more
    using client_stages [OF c] that by (simp add: stage_name list_all_iff subset_iff)
  obtain out wok where w: "write_stdout ev response = (out, wok)" by fastforce
  consider kind where "answer = Inl kind" | "answer = Inr False" | "answer = Inr True" "wok"
    | "answer = Inr True" "\<not> wok"
    by (cases answer) auto
  then show ?thesis
  proof cases
    case 1
    show ?thesis
      by (rule truthful_silent [OF _ ok [of "[''broker_error'']"], of _ "failure_outcome kind"])
        (use c 1 in \<open>simp_all add: run_exchange_def Let_def stage_name failure_not_success\<close>)
  next
    case 2
    show ?thesis
      by (rule truthful_silent [OF _ ok [of "[''broker_no_decision'']"], of _ ProtocolFailure])
        (use c 2 in \<open>simp_all add: run_exchange_def Let_def stage_name no_decision_outcome_def\<close>)
  next
    case 3
    show ?thesis
      by (rule truthful_printed [OF _ ok [of "[''stdout_written'', ''broker_allow'']"] _ assms])
        (use c 3 assms w write_stdout_prefix(2) [OF w] in
          \<open>simp_all add: run_exchange_def Let_def stage_name\<close>)
  next
    case 4
    show ?thesis
      by (rule truthful_silent [OF _ ok [of "[''stdout_error'']"], of _ ProtocolFailure])
        (use c 4 assms w in \<open>simp_all add: run_exchange_def Let_def stage_name\<close>)
  qed
qed

lemma hook_run_truthful:
  assumes "hs_response_to_vec hs allow_response = Some response"
  shows "truthful hs (hook_run hs ev)"
proof -
  have r: "truthful hs \<lparr>hook_reports = [Stage ''entry'', Outcome ProtocolFailure], hook_stdout = [],
      hook_exit = Inl ()\<rparr>"
    by (rule truthful_silent [of _ "[''entry'']" ProtocolFailure]) (simp_all add: stage_name)
  have p: "truthful hs \<lparr>hook_reports = [Stage ''entry'', Stage ''stdin_read'',
      Stage ''stdin_parse_error'', Outcome ProtocolFailure], hook_stdout = [], hook_exit = Inr 0\<rparr>"
    by (rule truthful_silent [of _ "[''entry'', ''stdin_read'', ''stdin_parse_error'']" ProtocolFailure])
      (simp_all add: stage_name)
  show ?thesis
    using r p run_exchange_truthful [OF assms] by (simp add: hook_run_def split: option.splits sum.splits)
qed

section \<open>The hook and its broker\<close>

text \<open>The bytes the hook has written to the broker's socket.\<close>

definition client_wrote :: "(json \<Rightarrow> string option) \<Rightarrow> client_events \<Rightarrow> hook_input \<Rightarrow> string" where
  "client_wrote ser cl input =
     (case client_environment cl of Inl e \<Rightarrow> []
      | Inr secret \<Rightarrow>
          (if \<not> cl_connect cl \<or> \<not> cl_configure cl then []
           else case ser (request_object secret input) of None \<Rightarrow> []
             | Some bytes \<Rightarrow>
                 fst (snd (write_frame_until (cl_write cl) bytes MAX_BROKER_MESSAGE_BYTES))))"

definition hook_wrote :: "hook_static \<Rightarrow> hook_events \<Rightarrow> string" where
  "hook_wrote hs ev =
     (case read_bounded_stdin (hk_stdin ev) of None \<Rightarrow> []
      | Some bytes \<Rightarrow>
          (case parse (hs_tok hs) bytes of Inl e \<Rightarrow> []
           | Inr input \<Rightarrow> client_wrote (hs_request_to_vec hs) (hk_client ev) input))"

text \<open>The JSON reader of the broker reads back what the serializer of the hook wrote.\<close>

definition reads_requests :: "tokenizer \<Rightarrow> (json \<Rightarrow> string option) \<Rightarrow> bool" where
  "reads_requests tok ser =
     (\<forall>secret input bytes. ser (request_object secret input) = Some bytes \<longrightarrow>
        parse_unique_object tok bytes = Inr (request_object secret input))"

fun request_of :: "conn_pc \<Rightarrow> broker_request option" where
  "request_of (Framed c r) = Some r"
| "request_of (Recorded c r) = Some r"
| "request_of (Identified c r e) = Some r"
| "request_of (Prechecked c r e t) = Some r"
| "request_of (Cleared c r e t) = Some r"
| "request_of (Confirmed g) = Some (grant_request g)"
| "request_of pc = map_option grant_request (grant_of pc)"

definition request_read :: "broker_static \<Rightarrow> conn_events \<Rightarrow> conn_pc \<Rightarrow> bool" where
  "request_read st ev pc =
     (\<forall>r. request_of pc = Some r \<longrightarrow> (\<exists>es frame.
        read_frame_until (ev_read ev) MAX_BROKER_MESSAGE_BYTES = (es, Inr frame) \<and>
        parse_request (st_tok st) frame = Some r))"

lemma conn_step_request_read:
  assumes "conn_step st ev (sh, pc) = (sh', pc')" "request_read st ev pc"
  shows "request_read st ev pc'"
proof (cases pc)
  case (Finished g s)
  then show ?thesis using assms by simp
qed (use assms in \<open>auto simp: request_read_def split: prod.splits option.splits sum.splits if_splits\<close>)

lemma reachable_request_read:
  "\<lbrakk>reachable st s; w \<in> set (sys_workers s)\<rbrakk> \<Longrightarrow> request_read st (w_events w) (w_pc w)"
  by (rule reachable_workers [where P = "request_read st"])
    (assumption+, simp add: request_read_def, rule conn_step_request_read)

text \<open>The bytes of a request that arrive whole are the request.\<close>

lemma request_delivered:
  assumes "parse tok stdin = Inr input" "ser (request_object secret input) = Some bytes"
    and "write_frame_until out bytes MAX_BROKER_MESSAGE_BYTES = (rest, sent, Inr ())"
    and "list_all clean_event es" "delivered es = sent" "reads_requests tok' ser"
    and "read_frame_until es MAX_BROKER_MESSAGE_BYTES = (es', Inr frame)"
    and "parse_request tok' frame = Some r"
  shows "request_hook_input r = input \<and> request_session_secret r = secret"
proof -
  have "frame = bytes"
    using read_frame_clean [OF assms(3,4), of "[]"] assms(5,7) by simp
  moreover obtain v where "hook_input_decode v = Some input"
    using assms(1) by (auto simp: parse_Inr)
  moreover have "parse_unique_object tok' bytes = Inr (request_object secret input)"
    using assms(2,6) by (simp add: reads_requests_def)
  moreover have "length bytes \<le> MAX_BROKER_MESSAGE_BYTES"
    using write_frame_sent [OF assms(3)] by simp
  ultimately have "parse_request tok' frame = Some
    \<lparr>request_protocol_version = BROKER_PROTOCOL_VERSION,
     request_message_type = ''permission_request'', request_session_secret = secret,
     request_hook_input = input\<rparr>"
    using parse_request_object by blast
  with assms(8) show ?thesis by auto
qed

lemma hook_prints_granted:
  assumes "hook_stdout (hook_run hs ev) \<noteq> []"
    and "reachable st s" "w \<in> set (sys_workers s)" "w_pc w = Finished outcome sent"
    and "reads_responses (hs_tok hs) (st_response_to_vec st)"
    and "reads_requests (st_tok st) (hs_request_to_vec hs)"
    and "list_all clean_event (cl_read (hk_client ev))" "delivered (cl_read (hk_client ev)) = sent"
    and "list_all clean_event (ev_read (w_events w))" "delivered (ev_read (w_events w)) = hook_wrote hs ev"
  shows "\<exists>g bytes. outcome = Some g \<and> grant_ok st (w_events w) g \<and>
    read_bounded_stdin (hk_stdin ev) = Some bytes \<and>
    parse (hs_tok hs) bytes = Inr (request_hook_input (grant_request g))"
proof -
  obtain stdin input where i: "read_bounded_stdin (hk_stdin ev) = Some stdin"
    "parse (hs_tok hs) stdin = Inr input"
    "snd (broker_client_request (hs_tok hs) (hs_request_to_vec hs) (hk_client ev) input) = Inr True"
    using hook_run_prints [OF assms(1)] by blast
  obtain g where g: "outcome = Some g" "grant_ok st (w_events w) g"
    using allow_was_granted [OF assms(2,3,4,5,7,8) i(3)] by blast
  obtain es frame where f: "read_frame_until (ev_read (w_events w)) MAX_BROKER_MESSAGE_BYTES = (es, Inr frame)"
    "parse_request (st_tok st) frame = Some (grant_request g)"
    using reachable_request_read [OF assms(2,3)] assms(4) g(1) by (auto simp: request_read_def)
  obtain secret where secret: "client_environment (hk_client ev) = Inr secret"
    "cl_connect (hk_client ev)" "client_send (hs_request_to_vec hs) (hk_client ev) secret input = Inr ()"
    using i(3) by (auto simp: broker_client_request_def split: sum.splits if_splits prod.splits)
  then obtain bytes es' written where b: "hs_request_to_vec hs (request_object secret input) = Some bytes"
    "write_frame_until (cl_write (hk_client ev)) bytes MAX_BROKER_MESSAGE_BYTES = (es', written, Inr ())"
    "cl_configure (hk_client ev)"
    by (cases "write_frame_until (cl_write (hk_client ev))
        (the (hs_request_to_vec hs (request_object secret input))) MAX_BROKER_MESSAGE_BYTES")
      (auto simp: client_send_def result_simps)
  have "hook_wrote hs ev = written"
    using i(1,2) secret b by (simp add: hook_wrote_def client_wrote_def)
  then have "request_hook_input (grant_request g) = input"
    using request_delivered [OF i(2) b(1,2) assms(9) _ assms(6) f] assms(10) by simp
  with g i show ?thesis by auto
qed

section \<open>Properties\<close>

text \<open>C1: a hook prints an allow only if the broker it spoke to granted exactly the request the hook
  read, after all its checks; this whatever other connections do, and however the bytes are cut
  up on the socket, as long as the JSON readers read back what the serializers write.\<close>

theorem hook_prints_only_granted:
  assumes "hook_stdout (hook_run hs ev) \<noteq> []"
    and "reachable st s" "w \<in> set (sys_workers s)" "w_pc w = Finished outcome sent"
    and "reads_responses (hs_tok hs) (st_response_to_vec st)"
    and "reads_requests (st_tok st) (hs_request_to_vec hs)"
    and "list_all clean_event (cl_read (hk_client ev))" "delivered (cl_read (hk_client ev)) = sent"
    and "list_all clean_event (ev_read (w_events w))" "delivered (ev_read (w_events w)) = hook_wrote hs ev"
  shows "\<exists>g bytes. outcome = Some g \<and> grant_ok st (w_events w) g \<and>
    read_bounded_stdin (hk_stdin ev) = Some bytes \<and>
    parse (hs_tok hs) bytes = Inr (request_hook_input (grant_request g))"
  using assms by (rule hook_prints_granted)

definition example_hook_tok :: tokenizer where
  "example_hook_tok s =
     (if s = ''{}'' then Some (the (map_of example_wire_request ''hook_input''), [])
      else example_response_tok s)"

definition example_request_to_vec :: "json \<Rightarrow> string option" where
  "example_request_to_vec v =
     (if v = request_object (replicate 64 (CHR ''a'')) example_hook_input then Some ''{q'' else None)"

definition example_hook_static :: hook_static where
  "example_hook_static =
     \<lparr>hs_tok = example_hook_tok, hs_request_to_vec = example_request_to_vec,
      hs_response_to_vec = (\<lambda>r. Some ''{allow}'')\<rparr>"

definition example_hook_events :: hook_events where
  "example_hook_events =
     \<lparr>hk_stdin = Some ''{}'', hk_client = example_client, hk_response = AppendOk,
      hk_newline = AppendOk, hk_flush = True\<rparr>"

lemma example_hook_parse: "parse example_hook_tok ''{}'' = Inr example_hook_input"
  by (simp add: parse_def parse_unique_object_def is_ascii_whitespace_def byte_def
      example_hook_tok_def example_wire_request_def MAX_INPUT_BYTES_def bind_field_def
      hook_input_decode_def wire_decode_def wire_field_names_def permission_mode_names_def
      hook_input_try_from_def example_hook_input_def ok_or_def)

lemma example_hook_sent:
  "write_frame_until [Accepts 4, Accepts 9] ''{q'' MAX_BROKER_MESSAGE_BYTES =
     ([], to_be_bytes 2 @ ''{q'', Inr ())"
  by (simp add: write_frame_until_def to_be_bytes_def MAX_BROKER_MESSAGE_BYTES_def MAX_INPUT_BYTES_def)

lemma example_hook_parts [simp]:
  "hs_tok example_hook_static = example_hook_tok"
  "hs_request_to_vec example_hook_static = example_request_to_vec"
  "hs_response_to_vec example_hook_static = (\<lambda>r. Some ''{allow}'')"
  "hk_client example_hook_events = example_client"
  "read_bounded_stdin (hk_stdin example_hook_events) = Some ''{}''"
  by (simp_all add: example_hook_static_def example_hook_events_def read_bounded_stdin_def
      MAX_INPUT_BYTES_def)

lemma example_client_parts:
  "client_environment example_client = Inr (replicate 64 (CHR ''a''))"
  "cl_connect example_client" "cl_configure example_client" "cl_shutdown example_client"
  "cl_write example_client = [Accepts 4, Accepts 9]"
  by (simp_all add: client_environment_def example_client_def ok_or_def ensure_def example_token)

lemma example_hook_wrote: "hook_wrote example_hook_static example_hook_events = to_be_bytes 2 @ ''{q''"
  by (simp add: hook_wrote_def example_hook_parse client_wrote_def example_client_parts
      example_request_to_vec_def example_hook_sent)

lemma example_hook_reads_responses:
  "reads_responses example_hook_tok (st_response_to_vec example_static)"
proof -
  have tok: "parse_unique_object example_hook_tok s = parse_unique_object example_response_tok s"
    if "s \<noteq> ''{}''" for s
    using that by (simp add: parse_unique_object_def example_hook_tok_def)
  have "CHR ''{'' # response_decision (response_for decision) \<noteq> ''{}''" for decision
    by (simp add: response_for_def split: broker_decision.splits)
  then show ?thesis
    using example_reads_responses by (auto simp: reads_responses_def example_static_def tok)
qed

lemma example_reads_requests: "reads_requests (st_tok example_static) example_request_to_vec"
proof -
  have "parse_unique_object example_broker_tok ''{q'' =
      Inr (request_object (replicate 64 (CHR ''a'')) example_hook_input)"
    by (simp add: parse_unique_object_def is_ascii_whitespace_def byte_def example_broker_tok_def
        example_wire_request_def request_object_def hook_input_serialize_def example_hook_input_def)
  then show ?thesis
    by (auto simp: reads_requests_def example_request_to_vec_def example_static_def split: if_splits)
qed

lemma example_hook_answer:
  "snd (broker_client_request example_hook_tok example_request_to_vec example_client
     example_hook_input) = Inr True"
proof -
  have "read_frame_until (cl_read example_client) MAX_BROKER_RESPONSE_BYTES = ([], Inr ''{allow'')"
    using example_client_frame by (simp add: example_client_def)
  moreover have "parse_response example_hook_tok ''{allow'' = Some True"
    using parse_response_object [of example_hook_tok "''{allow''" AllowDecision]
      example_hook_reads_responses [unfolded reads_responses_def, rule_format, of AllowDecision]
    by (simp add: example_static_def response_for_def)
  ultimately show ?thesis
    by (simp add: broker_client_request_def example_client_parts client_send_def
        example_request_to_vec_def example_hook_sent ok_or_def ensure_def client_answer_def
        ensure_no_trailing_data_def)
qed

lemma example_hook_stdout: "hook_stdout (hook_run example_hook_static example_hook_events) =
    ''{allow}'' @ [CHR 0x0A]"
proof -
  obtain stages where "broker_client_request example_hook_tok example_request_to_vec example_client
      example_hook_input = (stages, Inr True)"
    using example_hook_answer by (metis prod.collapse)
  moreover have "write_stdout example_hook_events response = (response @ [CHR 0x0A], True)" for response
    by (simp add: write_stdout_def example_hook_events_def append_private_def)
  ultimately show ?thesis
    by (simp add: hook_run_def example_hook_parse run_exchange_def)
qed

theorem hook_prints_only_granted_witness:
  "\<exists>g. grant_ok example_static example_events g \<and>
     parse example_hook_tok ''{}'' = Inr (request_hook_input (grant_request g))"
proof -
  obtain s where s: "reachable example_static s" "length (sys_workers s) = 1"
    "w_events (sys_workers s ! 0) = example_events"
    "w_pc (sys_workers s ! 0) = Finished (Some example_grant) (to_be_bytes 6 @ ''{allow'')"
    using example_reachable by blast
  then have w: "sys_workers s ! 0 \<in> set (sys_workers s)" by simp
  have "list_all clean_event (cl_read example_client)"
    "delivered (cl_read example_client) = to_be_bytes 6 @ ''{allow''"
    "list_all clean_event (ev_read example_events)"
    "delivered (ev_read example_events) = to_be_bytes 2 @ ''{q''"
    by (simp_all add: example_client_def example_events_def to_be_bytes_def)
  then show ?thesis
    using hook_prints_only_granted [OF _ s(1) w s(4), of example_hook_static example_hook_events]
      example_hook_stdout example_hook_reads_responses example_reads_requests example_hook_wrote
      s(3) by auto
qed

text \<open>A hook reports its stages and last one outcome, if its response can be serialized; it
  reports a successful exchange exactly when it ended well having printed something, and then it
  has printed the whole response.\<close>

theorem hook_reports_truthful:
  assumes "hs_response_to_vec hs allow_response = Some response"
  shows "truthful hs (hook_run hs ev)"
  using assms by (rule hook_run_truthful)

theorem hook_reports_truthful_witness: "truthful example_hook_static (hook_run example_hook_static example_hook_events)"
  by (rule hook_reports_truthful) simp

end
