(* ===== verification/Update_State.thy ===== *)
theory Update_State
  imports Outcome Versions Compatibility
begin

text \<open>
  The update state, \<^verbatim>\<open>UpdateState\<close> of \<^verbatim>\<open>src/update/state.rs\<close>: the bounded
  record of checks and compatibility observations that one user keeps, its validation, and the
  operations on it.  Storage is in theory \<^verbatim>\<open>State_Store\<close>.
\<close>

section \<open>Types\<close>

definition STATE_SCHEMA_VERSION :: u32 where
  "STATE_SCHEMA_VERSION = 1"

definition MAX_STATE_BYTES :: nat where
  "MAX_STATE_BYTES = 64 * 1024"

definition MAX_VALIDATOR_BYTES :: nat where
  "MAX_VALIDATOR_BYTES = 512"

definition MAX_COMPATIBILITY_OBSERVATIONS :: nat where
  "MAX_COMPATIBILITY_OBSERVATIONS = 8"

datatype io_kind = KindNotFound | KindWouldBlock | KindOther

datatype state_operation =
    Inspect | ReadState | CreateDirectory | WriteTemporary | Sync | ReplaceState | OpenLock | AcquireLock

datatype state_error =
    StateTooLarge
  | StateCorrupt
  | UnsupportedSchema u32 u32
  | StateInvalid
  | UnsafePath
  | UnsafePersistence
  | StorageUnavailable state_operation io_kind
  | LockContended

record successful_check =
  check_observed_at :: u64
  check_codex_version :: stable_version
  check_metadata_version :: "u64 option"

record metadata_validators =
  etag :: "string option"
  last_modified :: "string option"

record skip_scope =
  skip_codex_version :: stable_version
  skip_release_version :: stable_version

datatype backoff_reason = ServerDirected | BackoffTransport | BackoffMetadata

record backoff_state =
  until_unix_seconds :: u64
  reason :: backoff_reason

datatype failure_category =
    FailStorageUnavailable
  | FailStateCorrupt
  | FailUnsupportedStateVersion
  | FailLockContended
  | FailCheckUnavailable
  | FailMetadataInvalid
  | FailNoApplicableRelease
  | FailInstallationFailed
  | FailCompatibilityUnresolved

record compatibility_observation =
  observed_at :: u64
  obs_autoapprover_version :: stable_version
  obs_codex_version :: stable_version
  obs_operating_system :: operating_system
  obs_surface :: surface
  obs_hook_outcome :: hook_outcome
  obs_command_outcome :: command_outcome
  obs_counts :: outcome_counts

record update_state =
  state_schema_version :: u32
  installed_autoapprover_version :: "stable_version option"
  last_codex_version :: "stable_version option"
  last_successful_check :: "successful_check option"
  state_validators :: "metadata_validators option"
  state_skip_scope :: "skip_scope option"
  state_backoff :: "backoff_state option"
  last_failure :: "failure_category option"
  observations :: "compatibility_observation list"

definition default_state :: update_state where
  "default_state =
     \<lparr>state_schema_version = STATE_SCHEMA_VERSION, installed_autoapprover_version = None,
      last_codex_version = None, last_successful_check = None, state_validators = None,
      state_skip_scope = None, state_backoff = None, last_failure = None, observations = []\<rparr>"

section \<open>Validation\<close>

definition validate_bounded_text :: "string option \<Rightarrow> (state_error, unit) result" where
  "validate_bounded_text value =
     (if is_some_and value (\<lambda>v. v = [] \<or> MAX_VALIDATOR_BYTES < length v \<or> has_control v)
      then Inl StateInvalid else Inr ())"

definition validators_validate :: "metadata_validators \<Rightarrow> (state_error, unit) result" where
  "validators_validate v =
     and_then (validate_bounded_text (etag v)) (\<lambda>_.
     and_then (validate_bounded_text (last_modified v)) (\<lambda>_. Inr ()))"

definition check_validate :: "successful_check \<Rightarrow> (state_error, unit) result" where
  "check_validate c = (if check_observed_at c = 0 then Inl StateInvalid else Inr ())"

definition backoff_validate :: "backoff_state \<Rightarrow> (state_error, unit) result" where
  "backoff_validate b = (if until_unix_seconds b = 0 then Inl StateInvalid else Inr ())"

definition observation_validate :: "compatibility_observation \<Rightarrow> (state_error, unit) result" where
  "observation_validate ob =
     (if observed_at ob = 0 then Inl StateInvalid
      else and_then (map_err (\<lambda>_. StateInvalid) (counts_validate (obs_counts ob))) (\<lambda>_.
        if obs_hook_outcome ob \<noteq> aggregate_hook_outcome (obs_counts ob) then Inl StateInvalid
        else Inr ()))"

definition validate_opt :: "('a \<Rightarrow> (state_error, unit) result) \<Rightarrow> 'a option \<Rightarrow> (state_error, unit) result"
where
  "validate_opt f m = (case m of None \<Rightarrow> Inr () | Some x \<Rightarrow> f x)"

definition state_validate :: "update_state \<Rightarrow> (state_error, unit) result" where
  "state_validate s =
     (if state_schema_version s \<noteq> STATE_SCHEMA_VERSION
      then Inl (UnsupportedSchema (state_schema_version s) STATE_SCHEMA_VERSION)
      else and_then (validate_opt check_validate (last_successful_check s)) (\<lambda>_.
        and_then (validate_opt validators_validate (state_validators s)) (\<lambda>_.
        and_then (validate_opt backoff_validate (state_backoff s)) (\<lambda>_.
        if MAX_COMPATIBILITY_OBSERVATIONS < length (observations s) then Inl StateInvalid
        else for_each observation_validate (observations s)))))"

section \<open>Observations\<close>

definition same_identity :: "compatibility_observation \<Rightarrow> compatibility_observation \<Rightarrow> bool" where
  "same_identity a b =
     (obs_autoapprover_version a = obs_autoapprover_version b \<and>
      obs_codex_version a = obs_codex_version b \<and>
      obs_operating_system a = obs_operating_system b \<and> obs_surface a = obs_surface b)"

type_synonym observation_key = "stable_version \<times> stable_version \<times> operating_system \<times> surface"

definition observation_order :: "compatibility_observation \<Rightarrow> observation_key" where
  "observation_order ob =
     (obs_codex_version ob, obs_autoapprover_version ob, obs_operating_system ob, obs_surface ob)"

fun merge_command_outcomes :: "command_outcome \<Rightarrow> command_outcome \<Rightarrow> command_outcome" where
  "merge_command_outcomes left right =
     (if left = Failed \<or> right = Failed then Failed
      else if left = UnknownOutcome \<or> right = UnknownOutcome then UnknownOutcome
      else Succeeded)"

definition from_session :: "stable_version \<Rightarrow> stable_version \<Rightarrow> operating_system \<Rightarrow> surface
    \<Rightarrow> session_outcome \<Rightarrow> compatibility_observation" where
  "from_session autoapprover codex os sf session =
     \<lparr>observed_at = 0, obs_autoapprover_version = autoapprover, obs_codex_version = codex,
      obs_operating_system = os, obs_surface = sf,
      obs_hook_outcome = session_hook_outcome session,
      obs_command_outcome = session_command_outcome session, obs_counts = session_counts session\<rparr>"

definition capped_add :: "u32 \<Rightarrow> u32 \<Rightarrow> u32" where
  "capped_add left right = min (saturating_add left right) MAX_OUTCOME_COUNT"

definition counts_saturating_merge :: "outcome_counts \<Rightarrow> outcome_counts \<Rightarrow> outcome_counts" where
  "counts_saturating_merge a b =
     \<lparr>entry_count = capped_add (entry_count a) (entry_count b),
      validated_request_count = capped_add (validated_request_count a) (validated_request_count b),
      allow_count = capped_add (allow_count a) (allow_count b),
      no_decision_count = capped_add (no_decision_count a) (no_decision_count b),
      structured_emission_count =
        capped_add (structured_emission_count a) (structured_emission_count b),
      stdout_error_count = capped_add (stdout_error_count a) (stdout_error_count b),
      successful_exchange_count =
        capped_add (successful_exchange_count a) (successful_exchange_count b),
      broker_allow_unconfirmed_count =
        capped_add (broker_allow_unconfirmed_count a) (broker_allow_unconfirmed_count b),
      compatibility_rejection_count =
        capped_add (compatibility_rejection_count a) (compatibility_rejection_count b),
      transport_failure_count = capped_add (transport_failure_count a) (transport_failure_count b),
      protocol_failure_count = capped_add (protocol_failure_count a) (protocol_failure_count b)\<rparr>"

definition merge_observation ::
    "u64 \<Rightarrow> compatibility_observation \<Rightarrow> compatibility_observation \<Rightarrow> compatibility_observation" where
  "merge_observation now ob existing =
     (let counts = counts_saturating_merge (obs_counts existing) (obs_counts ob) in
      existing\<lparr>obs_counts := counts, obs_hook_outcome := aggregate_hook_outcome counts,
        obs_command_outcome :=
          merge_command_outcomes (obs_command_outcome existing) (obs_command_outcome ob),
        observed_at := now\<rparr>)"

fun update_first :: "('a \<Rightarrow> bool) \<Rightarrow> ('a \<Rightarrow> 'a) \<Rightarrow> 'a list \<Rightarrow> 'a list" where
  "update_first p f [] = []"
| "update_first p f (x # xs) = (if p x then f x # xs else x # update_first p f xs)"

text \<open>The first of the least elements, and its removal.\<close>

fun min_index :: "('a \<Rightarrow> 'k::linorder) \<Rightarrow> 'a list \<Rightarrow> nat option" where
  "min_index key [] = None"
| "min_index key (x # xs) =
     (case min_index key xs of None \<Rightarrow> Some 0
      | Some i \<Rightarrow> if key x \<le> key (xs ! i) then Some 0 else Some (Suc i))"

definition remove_index :: "nat \<Rightarrow> 'a list \<Rightarrow> 'a list" where
  "remove_index i xs = take i xs @ drop (Suc i) xs"

text \<open>The insertion of an observation of a new identity, if it is newer than the oldest one or
  there is room: \<^const>\<open>None\<close> when it is dropped.\<close>

definition insert_observation :: "compatibility_observation \<Rightarrow> compatibility_observation list
    \<Rightarrow> (state_error, compatibility_observation list option) result" where
  "insert_observation ob obs =
     (if MAX_COMPATIBILITY_OBSERVATIONS \<le> length obs
      then case min_index observation_order obs of
          None \<Rightarrow> Inl StateInvalid
        | Some oldest \<Rightarrow>
            (if observation_order ob \<le> observation_order (obs ! oldest) then Inr None
             else Inr (Some (sort_key observation_order (remove_index oldest obs @ [ob]))))
      else Inr (Some (sort_key observation_order (obs @ [ob]))))"

text \<open>The \<^verbatim>\<open>Clock\<close> is what its successive readings give.  The state is returned with the
  outcome, as an error may come after a change.\<close>

definition record_observation :: "(nat \<Rightarrow> u64) \<Rightarrow> compatibility_observation \<Rightarrow> update_state
    \<Rightarrow> update_state \<times> (state_error, unit) result" where
  "record_observation clock observation s =
     (let (t, ob) = (if observed_at observation = 0
                     then (1, observation\<lparr>observed_at := clock 0\<rparr>) else (0, observation)) in
      case observation_validate ob of
        Inl e \<Rightarrow> (s, Inl e)
      | Inr _ \<Rightarrow>
          if list_ex (\<lambda>existing. same_identity existing ob) (observations s)
          then let s' = s\<lparr>observations := update_first (\<lambda>existing. same_identity existing ob)
                  (merge_observation (clock t) ob) (observations s)\<rparr>
               in (s', state_validate s')
          else case insert_observation (ob\<lparr>observed_at := clock t\<rparr>) (observations s) of
            Inl e \<Rightarrow> (s, Inl e)
          | Inr None \<Rightarrow> (s, state_validate s)
          | Inr (Some obs) \<Rightarrow> let s' = s\<lparr>observations := obs\<rparr> in (s', state_validate s'))"

section \<open>Checks\<close>

definition record_successful_check :: "(nat \<Rightarrow> u64) \<Rightarrow> stable_version \<Rightarrow> u64 option
    \<Rightarrow> metadata_validators \<Rightarrow> update_state \<Rightarrow> update_state \<times> (state_error, unit) result" where
  "record_successful_check clock codex metadata validators s =
     (case validators_validate validators of
        Inl e \<Rightarrow> (s, Inl e)
      | Inr _ \<Rightarrow>
          let s' = s\<lparr>last_codex_version := Some codex,
                     last_successful_check := Some
                       \<lparr>check_observed_at = clock 0, check_codex_version = codex,
                        check_metadata_version = metadata\<rparr>,
                     state_validators := Some validators, last_failure := None\<rparr>
          in (s', state_validate s'))"

definition is_backoff_active :: "u64 \<Rightarrow> update_state \<Rightarrow> bool" where
  "is_backoff_active now s =
     is_some_and (state_backoff s) (\<lambda>b. now < until_unix_seconds b)"

definition is_skipped_for :: "stable_version \<Rightarrow> stable_version \<Rightarrow> update_state \<Rightarrow> bool" where
  "is_skipped_for codex release s =
     is_some_and (state_skip_scope s) (\<lambda>skip.
       skip_codex_version skip = codex \<and> skip_release_version skip = release)"

section \<open>Counters that are merged\<close>

lemma unat_max_count: "unat MAX_OUTCOME_COUNT = 64"
  by (simp add: MAX_OUTCOME_COUNT_def)

lemma unat_capped_add: "unat (capped_add a b) = min (unat a + unat b) 64"
proof (cases "unat a + unat b < 2 ^ 32")
  case True
  then have "unat (saturating_add a b) = unat a + unat b"
    using unat_add_lem [of a b] by (simp add: saturating_add_def)
  then show ?thesis
    by (simp add: capped_add_def min_def word_le_nat_alt unat_max_count)
next
  case False
  then have "saturating_add a b = - 1" by (simp add: saturating_add_def)
  moreover have "MAX_OUTCOME_COUNT \<le> (- 1 :: u32)" by (rule word_order.extremum)
  moreover have "64 \<le> unat a + unat b" using False by simp
  ultimately have "capped_add a b = MAX_OUTCOME_COUNT"
    by (simp add: capped_add_def min_absorb2)
  then show ?thesis using False by (simp add: unat_max_count)
qed

lemma capped_add_positive: "(0 < capped_add a b) = (0 < a \<or> 0 < b)"
  by (simp add: word_less_nat_alt unat_capped_add)

lemma counts_saturating_merge_valid: "counts_validate (counts_saturating_merge a b) = Inr ()"
  unfolding counts_validate_Inr by (simp add: counts_saturating_merge_def count_values_def unat_capped_add)

text \<open>How bad an outcome is, in the order in which the aggregate looks for one.\<close>

fun severity :: "hook_outcome \<Rightarrow> nat" where
  "severity NoHookInvocation = 0"
| "severity SuccessfulExchange = 1"
| "severity BrokerAllowUnconfirmed = 2"
| "severity CompatibilityRejection = 3"
| "severity TransportFailure = 4"
| "severity ProtocolFailure = 5"

text \<open>A failure that a counter shows, not one concluded from an entry without an outcome.\<close>

definition counted_outcome :: "outcome_counts \<Rightarrow> bool" where
  "counted_outcome c = (aggregate_hook_outcome c = ProtocolFailure \<longrightarrow> 0 < protocol_failure_count c)"

lemma capped_add_zero: "(capped_add a b = 0) = (a = 0 \<and> b = 0)"
  using capped_add_positive [of a b] by (auto simp: word_gt_0)

lemma merge_severity:
  assumes "counted_outcome a" "counted_outcome b"
  shows "severity (aggregate_hook_outcome (counts_saturating_merge a b)) =
    max (severity (aggregate_hook_outcome a)) (severity (aggregate_hook_outcome b))"
  using assms
  by (simp add: counted_outcome_def aggregate_hook_outcome_def counts_saturating_merge_def
      capped_add_positive capped_add_zero split: if_splits)

section \<open>Keys\<close>

lemma same_identity_order: "same_identity a b = (observation_order a = observation_order b)"
  by (auto simp: same_identity_def observation_order_def)

lemma merge_order [simp]: "observation_order (merge_observation now ob e) = observation_order e"
  by (simp add: merge_observation_def observation_order_def Let_def)

lemma observed_order [simp]: "observation_order (ob\<lparr>observed_at := t\<rparr>) = observation_order ob"
  by (simp add: observation_order_def)

lemma merge_observed [simp]: "merge_observation now (ob\<lparr>observed_at := t\<rparr>) e = merge_observation now ob e"
  by (simp add: merge_observation_def)

lemma min_index_length: "min_index key xs = Some i \<Longrightarrow> i < length xs"
  by (induction xs arbitrary: i) (auto split: option.splits if_splits)

lemma min_index_sorted: "sorted (map key (x # xs)) \<Longrightarrow> min_index key (x # xs) = Some 0"
  by (auto split: option.splits dest!: min_index_length)

lemma min_index_sorted': "sorted (map key xs) \<Longrightarrow> xs \<noteq> [] \<Longrightarrow> min_index key xs = Some 0"
  by (cases xs) (simp_all add: min_index_sorted del: min_index.simps)

lemma map_sort_key: "map key (sort_key key xs) = sort (map key xs)"
  by (rule properties_for_sort [symmetric]) simp_all

lemma map_update_first:
  "(\<And>x. key (f x) = key x) \<Longrightarrow> map key (update_first p f xs) = map key xs"
  by (induction xs) auto

section \<open>The newest keys\<close>

definition newest :: "nat \<Rightarrow> 'k::linorder set \<Rightarrow> 'k list" where
  "newest n K = (let ks = sorted_list_of_set K in drop (length ks - n) ks)"

definition strict_keys :: "'k::linorder list \<Rightarrow> bool" where
  "strict_keys ks = (sorted ks \<and> distinct ks)"

lemma strict_keys_set: "strict_keys ks \<Longrightarrow> sorted_list_of_set (set ks) = ks"
  by (simp add: strict_keys_def sorted_list_of_set.idem_if_sorted_distinct)

lemma newest_few: "strict_keys ks \<Longrightarrow> length ks \<le> n \<Longrightarrow> newest n (set ks) = ks"
  by (simp add: newest_def strict_keys_set)

lemma sort_insert_set:
  assumes "strict_keys ks" "k \<notin> set ks"
  shows "sort (ks @ [k]) = sorted_list_of_set (insert k (set ks))"
  using assms sorted_list_of_set_sort_remdups [of "ks @ [k]"]
  by (simp add: strict_keys_def distinct_remdups_id)

lemma newest_insert_few:
  assumes "strict_keys ks" "k \<notin> set ks" "length ks < n"
  shows "newest n (insert k (set ks)) = sort (ks @ [k])"
  unfolding newest_def Let_def sort_insert_set [OF assms(1,2), symmetric] using assms(3) by simp

lemma newest_insert_old:
  assumes "strict_keys (l # ks)" "k \<notin> set (l # ks)" "k \<le> l" "length (l # ks) = n"
  shows "newest n (insert k (set (l # ks))) = l # ks"
proof -
  have "strict_keys (k # l # ks)" using assms by (auto simp: strict_keys_def)
  then show ?thesis
    using assms(4) strict_keys_set [of "k # l # ks"] by (simp add: newest_def)
qed

lemma newest_insert_new:
  assumes "strict_keys (l # ks)" "k \<notin> set (l # ks)" "l < k" "length (l # ks) = n"
  shows "newest n (insert k (set (l # ks))) = sort (ks @ [k])"
proof -
  have "l # sort (ks @ [k]) = sort (l # ks @ [k])"
    using assms by (intro properties_for_sort [symmetric])
      (auto simp: strict_keys_def sorted_append order.strict_iff_order intro: less_imp_le)
  also have "\<dots> = sorted_list_of_set (insert k (set (l # ks)))"
    using sort_insert_set [OF assms(1,2)] by simp
  finally have "sorted_list_of_set (insert k (set (l # ks))) = l # sort (ks @ [k])" by (rule sym)
  then show ?thesis using assms(4) unfolding newest_def Let_def by simp
qed

section \<open>The state invariant\<close>

definition state_ok :: "update_state \<Rightarrow> bool" where
  "state_ok s = (state_validate s = Inr () \<and> strict_keys (map observation_order (observations s)))"

lemma state_validate_Inr:
  "(state_validate s = Inr u) =
     (state_schema_version s = 1 \<and>
      validate_opt check_validate (last_successful_check s) = Inr () \<and>
      validate_opt validators_validate (state_validators s) = Inr () \<and>
      validate_opt backoff_validate (state_backoff s) = Inr () \<and>
      length (observations s) \<le> 8 \<and>
      (\<forall>ob \<in> set (observations s). observation_validate ob = Inr ()))"
  by (auto simp: state_validate_def result_simps STATE_SCHEMA_VERSION_def not_less
      MAX_COMPATIBILITY_OBSERVATIONS_def)

lemma default_state_ok: "state_ok default_state"
  by (simp add: state_ok_def state_validate_Inr default_state_def STATE_SCHEMA_VERSION_def
      validate_opt_def strict_keys_def)

lemma insert_observation_total: "insert_observation ob obs \<noteq> Inl e"
  by (cases obs) (auto simp: insert_observation_def MAX_COMPATIBILITY_OBSERVATIONS_def
      split: option.splits)

lemma insert_observation_keys:
  assumes "strict_keys (map observation_order obs)" "observation_order ob \<notin> observation_order ` set obs"
    and "length obs \<le> 8"
  shows "newest 8 (insert (observation_order ob) (observation_order ` set obs)) =
    map observation_order (case insert_observation ob obs of Inr (Some obs') \<Rightarrow> obs' | _ \<Rightarrow> obs)"
proof (cases "length obs < 8")
  case True
  then show ?thesis
    using assms newest_insert_few [of "map observation_order obs" "observation_order ob" 8]
    by (simp add: insert_observation_def MAX_COMPATIBILITY_OBSERVATIONS_def map_sort_key)
next
  case False
  then obtain o1 os where obs: "obs = o1 # os" by (cases obs) auto
  have min: "min_index observation_order obs = Some 0"
    using assms(1) obs by (intro min_index_sorted') (auto simp: strict_keys_def)
  let ?k = "observation_order ob"
  have len: "length (observation_order o1 # map observation_order os) = 8"
    using assms(3) False obs by simp
  have k: "strict_keys (observation_order o1 # map observation_order os)"
    "?k \<notin> set (observation_order o1 # map observation_order os)"
    using assms(1,2) obs by auto
  show ?thesis
  proof (cases "?k \<le> observation_order o1")
    case True
    then show ?thesis
      using newest_insert_old [OF k True len] False min obs
      by (simp add: insert_observation_def MAX_COMPATIBILITY_OBSERVATIONS_def)
  next
    case False
    then show ?thesis
      using newest_insert_new [OF k _ len] \<open>\<not> length obs < 8\<close> min obs
      by (simp add: insert_observation_def MAX_COMPATIBILITY_OBSERVATIONS_def map_sort_key remove_index_def)
  qed
qed

lemma newest_strict: "finite K \<Longrightarrow> strict_keys (newest n K)"
  by (simp add: newest_def Let_def strict_keys_def)

section \<open>An abstract state\<close>

text \<open>The observations as a map from their key; recording updates it and keeps the newest keys.\<close>

definition obs_map :: "compatibility_observation list \<Rightarrow> observation_key \<rightharpoonup> compatibility_observation" where
  "obs_map obs = map_of (map (\<lambda>ob. (observation_order ob, ob)) obs)"

definition abstract_record :: "u64 \<Rightarrow> compatibility_observation
    \<Rightarrow> (observation_key \<rightharpoonup> compatibility_observation) \<Rightarrow> observation_key \<rightharpoonup> compatibility_observation"
where
  "abstract_record now ob m =
     (let k = observation_order ob;
          m' = m(k \<mapsto> (case m k of None \<Rightarrow> ob\<lparr>observed_at := now\<rparr>
                                | Some e \<Rightarrow> merge_observation now ob e))
      in m' |` set (newest MAX_COMPATIBILITY_OBSERVATIONS (dom m')))"

lemma dom_obs_map: "dom (obs_map obs) = observation_order ` set obs"
  by (force simp: obs_map_def dom_map_of_conv_image_fst)

lemma obs_map_Some:
  assumes "distinct (map observation_order obs)"
  shows "(obs_map obs k = Some ob) = (ob \<in> set obs \<and> observation_order ob = k)"
proof -
  have "distinct (map fst (map (\<lambda>ob. (observation_order ob, ob)) obs))"
    using assms by (simp add: comp_def)
  then show ?thesis unfolding obs_map_def by (subst map_of_eq_Some_iff) auto
qed

lemma obs_map_set:
  assumes "distinct (map observation_order obs)" "distinct (map observation_order obs')" "set obs = set obs'"
  shows "obs_map obs = obs_map obs'"
  using obs_map_Some [OF assms(1)] obs_map_Some [OF assms(2)] assms(3)
  by (intro ext) (metis not_None_eq)

lemma obs_map_simps [simp]:
  "obs_map [] = Map.empty" "obs_map (ob # obs) = (obs_map obs)(observation_order ob \<mapsto> ob)"
  by (simp_all add: obs_map_def)

lemma obs_map_update_first:
  assumes "distinct (map observation_order obs)" "obs_map obs k = Some e" "observation_order (f e) = k"
  shows "obs_map (update_first (\<lambda>ob. observation_order ob = k) f obs) = (obs_map obs)(k \<mapsto> f e)"
  using assms by (induction obs) (auto split: if_splits)

lemma obs_map_append:
  assumes "observation_order ob \<notin> observation_order ` set obs"
  shows "obs_map (obs @ [ob]) = (obs_map obs)(observation_order ob \<mapsto> ob)"
  using assms by (induction obs) (auto intro: fun_upd_twist)

lemma obs_map_sort: "distinct (map observation_order obs) \<Longrightarrow> obs_map (sort_key observation_order obs) = obs_map obs"
  by (rule obs_map_set) (simp_all add: map_sort_key)

text \<open>Dropping an element drops its key.\<close>

lemma obs_map_restrict:
  assumes "distinct (map observation_order obs)" "set obs' \<subseteq> set obs"
    and "distinct (map observation_order obs')" "K = observation_order ` set obs'"
  shows "obs_map obs |` K = obs_map obs'"
proof
  fix k
  show "(obs_map obs |` K) k = obs_map obs' k"
  proof (cases "k \<in> K")
    case True
    then obtain ob where "ob \<in> set obs'" "observation_order ob = k" using assms(4) by blast
    then have "obs_map obs' k = Some ob" "obs_map obs k = Some ob"
      using assms(1-3) by (auto simp: obs_map_Some)
    then show ?thesis using True by simp
  next
    case False
    then have "k \<notin> dom (obs_map obs')" using assms(4) by (simp add: dom_obs_map)
    then show ?thesis using False by (auto simp: domIff)
  qed
qed

lemma insert_observation_subset:
  "insert_observation ob obs = Inr (Some obs') \<Longrightarrow> set obs' \<subseteq> insert ob (set obs)"
  by (auto simp: insert_observation_def remove_index_def split: if_splits option.splits
      dest: in_set_takeD in_set_dropD)

lemma restrict_dom: "m |` dom m = m"
  by (intro ext) (auto simp: restrict_map_def domIff)

text \<open>Recording an observation of a new identity refines the abstract operation.\<close>

lemma insert_observation_refines:
  assumes "strict_keys (map observation_order obs)" "observation_order ob \<notin> observation_order ` set obs"
    and "length obs \<le> 8" "ob' = ob\<lparr>observed_at := now\<rparr>"
    and "obs' = (case insert_observation ob' obs of Inr (Some x) \<Rightarrow> x | _ \<Rightarrow> obs)"
  shows "obs_map obs' = abstract_record now ob (obs_map obs) \<and>
    strict_keys (map observation_order obs') \<and> length obs' \<le> 8"
proof -
  have k: "observation_order ob' = observation_order ob" using assms(4) by simp
  have keys: "newest 8 (insert (observation_order ob) (observation_order ` set obs)) =
      map observation_order obs'"
    using insert_observation_keys [of obs ob'] assms(1-3,5) k by simp
  have strict: "strict_keys (map observation_order obs')"
    using newest_strict [of "insert (observation_order ob) (observation_order ` set obs)" 8]
    unfolding keys by simp
  have all: "distinct (map observation_order (obs @ [ob']))"
    using assms(1,2) k by (auto simp: strict_keys_def)
  have sub: "set obs' \<subseteq> set (obs @ [ob'])"
    using assms(5) insert_observation_subset [of ob' obs]
    by (auto split: sum.splits option.splits)
  have "obs_map obs (observation_order ob) = None"
    using assms(2) dom_obs_map [of obs] by (auto simp: domIff)
  then have "abstract_record now ob (obs_map obs) =
      obs_map (obs @ [ob']) |` set (map observation_order obs')"
    using obs_map_append [of ob' obs] assms(2,4) k keys
    by (simp add: abstract_record_def Let_def dom_obs_map MAX_COMPATIBILITY_OBSERVATIONS_def)
  also have "\<dots> = obs_map obs'"
    using obs_map_restrict [OF all sub] strict by (simp add: strict_keys_def)
  finally have "obs_map obs' = abstract_record now ob (obs_map obs)" by (rule sym)
  moreover have "length obs' \<le> 8"
    using arg_cong [OF keys, of length] by (simp add: newest_def Let_def)
  ultimately show ?thesis using strict by blast
qed

lemma merge_refines:
  assumes "strict_keys (map observation_order obs)" "observation_order ob \<in> observation_order ` set obs"
    and "length obs \<le> 8"
    and "obs' = update_first (\<lambda>e. observation_order e = observation_order ob) (merge_observation now ob) obs"
  shows "obs_map obs' = abstract_record now ob (obs_map obs) \<and>
    map observation_order obs' = map observation_order obs"
proof -
  obtain e where e: "obs_map obs (observation_order ob) = Some e"
    using assms(2) unfolding dom_obs_map [symmetric] by blast
  then have "observation_order e = observation_order ob"
    using obs_map_Some assms(1) by (auto simp: strict_keys_def)
  then have m: "obs_map obs' = (obs_map obs)(observation_order ob \<mapsto> merge_observation now ob e)"
    using obs_map_update_first [OF _ e, of "merge_observation now ob"] assms(1,4)
    by (simp add: strict_keys_def)
  have keys: "newest 8 (dom (obs_map obs')) = map observation_order obs"
    using newest_few [OF assms(1)] assms(2,3) m
    by (simp add: dom_obs_map insert_absorb)
  have "abstract_record now ob (obs_map obs) = obs_map obs' |` dom (obs_map obs')"
    using keys m e assms(2)
    by (simp add: abstract_record_def Let_def MAX_COMPATIBILITY_OBSERVATIONS_def dom_obs_map insert_absorb)
  then show ?thesis
    using assms(4) map_update_first [of observation_order "merge_observation now ob"]
    by (simp add: restrict_dom)
qed

lemma abstract_record_observed [simp]:
  "abstract_record now (ob\<lparr>observed_at := t\<rparr>) m = abstract_record now ob m"
  by (simp add: abstract_record_def Let_def cong: option.case_cong)

definition recording_time :: "(nat \<Rightarrow> u64) \<Rightarrow> compatibility_observation \<Rightarrow> u64" where
  "recording_time clock ob = clock (if observed_at ob = 0 then 1 else 0)"

lemma list_ex_same_identity:
  "list_ex (\<lambda>e. same_identity e ob) obs = (observation_order ob \<in> observation_order ` set obs)"
  by (auto simp: list_ex_iff same_identity_order intro: sym)

lemma record_refines:
  assumes "record_observation clock ob s = (s', res)" "observation_validate
      (if observed_at ob = 0 then ob\<lparr>observed_at := clock 0\<rparr> else ob) = Inr ()" "state_ok s"
  shows "obs_map (observations s') = abstract_record (recording_time clock ob) ob (obs_map (observations s)) \<and>
    strict_keys (map observation_order (observations s')) \<and> s' = s\<lparr>observations := observations s'\<rparr> \<and>
    length (observations s') \<le> 8 \<and> res = state_validate s'"
proof -
  let ?ob = "if observed_at ob = 0 then ob\<lparr>observed_at := clock 0\<rparr> else ob"
  let ?now = "recording_time clock ob"
  have strict: "strict_keys (map observation_order (observations s))" "length (observations s) \<le> 8"
    using assms(3) by (simp_all add: state_ok_def state_validate_Inr)
  have order: "observation_order ?ob = observation_order ob" by simp
  have merge: "merge_observation ?now ?ob = merge_observation ?now ob"
    by (intro ext) simp
  show ?thesis
  proof (cases "observation_order ob \<in> observation_order ` set (observations s)")
    case True
    then have ex: "list_ex (\<lambda>e. same_identity e ?ob) (observations s)"
      by (simp add: list_ex_same_identity)
    have s': "s' = s\<lparr>observations := update_first (\<lambda>e. observation_order e = observation_order ob)
        (merge_observation ?now ob) (observations s)\<rparr>" "res = state_validate s'"
      using assms(1,2) ex merge
      by (auto simp: record_observation_def Let_def recording_time_def same_identity_order split: if_splits)
    then show ?thesis
      using merge_refines [OF strict(1) True strict(2) refl, of ?now] strict
        map_eq_imp_length_eq by fastforce
  next
    case False
    then have ex: "\<not> list_ex (\<lambda>e. same_identity e ?ob) (observations s)"
      by (simp add: list_ex_same_identity)
    let ?obs' = "case insert_observation (ob\<lparr>observed_at := ?now\<rparr>) (observations s) of
        Inr (Some x) \<Rightarrow> x | _ \<Rightarrow> observations s"
    have "s' = s\<lparr>observations := ?obs'\<rparr>" "res = state_validate s'"
      using assms(1,2) ex insert_observation_total
      by (auto simp: record_observation_def Let_def recording_time_def
          split: if_splits option.splits sum.splits)
    then show ?thesis
      using insert_observation_refines [OF strict(1) False strict(2) refl refl, of ?now] by simp
  qed
qed

section \<open>When recording succeeds\<close>

lemma merge_valid:
  "now \<noteq> 0 \<Longrightarrow> observation_validate (merge_observation now ob e) = Inr ()"
  by (simp add: observation_validate_def merge_observation_def Let_def counts_saturating_merge_valid)

lemma observed_valid:
  "\<lbrakk>observation_validate (ob\<lparr>observed_at := t\<rparr>) = Inr (); now \<noteq> 0\<rbrakk> \<Longrightarrow>
     observation_validate (ob\<lparr>observed_at := now\<rparr>) = Inr ()"
  by (auto simp: observation_validate_def split: if_splits)

lemma abstract_record_values:
  assumes "abstract_record now ob m k = Some v"
  shows "m k = Some v \<or> v = ob\<lparr>observed_at := now\<rparr> \<or> (\<exists>e. v = merge_observation now ob e)"
  using assms by (auto simp: abstract_record_def Let_def restrict_map_def split: if_splits option.splits)

lemma record_total:
  assumes "state_ok s" "observation_validate
      (if observed_at ob = 0 then ob\<lparr>observed_at := clock 0\<rparr> else ob) = Inr ()"
    and "recording_time clock ob \<noteq> 0"
  shows "\<exists>s'. record_observation clock ob s = (s', Inr ()) \<and> state_ok s'"
proof -
  obtain s' res where r: "record_observation clock ob s = (s', res)" by fastforce
  note ref = record_refines [OF r assms(2,1)]
  have "observation_validate v = Inr ()" if "v \<in> set (observations s')" for v
  proof -
    have "distinct (map observation_order (observations s'))"
      using ref by (simp add: strict_keys_def)
    then have "obs_map (observations s') (observation_order v) = Some v"
      using that by (simp add: obs_map_Some)
    then have "abstract_record (recording_time clock ob) ob (obs_map (observations s))
        (observation_order v) = Some v" unfolding ref [THEN conjunct1] .
    then consider "obs_map (observations s) (observation_order v) = Some v"
      | "v = ob\<lparr>observed_at := recording_time clock ob\<rparr>"
      | e where "v = merge_observation (recording_time clock ob) ob e"
      using abstract_record_values by blast
    then show ?thesis
    proof cases
      case 1
      then have "v \<in> set (observations s)"
        using assms(1) obs_map_Some by (auto simp: state_ok_def strict_keys_def)
      then show ?thesis using assms(1) by (simp add: state_ok_def state_validate_Inr)
    next
      case 2
      have "observation_validate (ob\<lparr>observed_at := if observed_at ob = 0 then clock 0
          else observed_at ob\<rparr>) = Inr ()"
        using assms(2) by (simp split: if_splits)
      then show ?thesis
        unfolding 2 by (rule observed_valid [OF _ assms(3)])
    next
      case 3
      then show ?thesis using merge_valid [OF assms(3)] by simp
    qed
  qed
  moreover have "state_validate s = Inr ()" using assms(1) by (simp add: state_ok_def)
  moreover obtain obs where "s' = s\<lparr>observations := obs\<rparr>" using ref by blast
  ultimately have "state_validate s' = Inr ()"
    using ref by (auto simp: state_validate_Inr)
  then show ?thesis using r ref by (auto simp: state_ok_def)
qed

section \<open>Properties\<close>

text \<open>C30: recording an observation refines an update of a map from version and platform to merged
  counters that keeps the eight newest keys; with a clock that runs it always succeeds, and it
  keeps the state valid, sorted and free of repeated keys.\<close>

theorem record_observation_refines:
  assumes "state_ok s" "recording_time clock ob \<noteq> 0"
    and "observation_validate (if observed_at ob = 0 then ob\<lparr>observed_at := clock 0\<rparr> else ob) = Inr ()"
  shows "\<exists>s'. record_observation clock ob s = (s', Inr ()) \<and> state_ok s' \<and>
    obs_map (observations s') =
      abstract_record (recording_time clock ob) ob (obs_map (observations s)) \<and>
    s' = s\<lparr>observations := observations s'\<rparr>"
proof -
  obtain s' where s': "record_observation clock ob s = (s', Inr ())" "state_ok s'"
    using record_total [OF assms(1,3,2)] by blast
  with record_refines [OF s'(1) assms(3,1)] show ?thesis by blast
qed

definition example_observation :: "u64 \<Rightarrow> compatibility_observation" where
  "example_observation patch =
     \<lparr>observed_at = 0, obs_autoapprover_version = StableVersion 0 1 0,
      obs_codex_version = StableVersion 0 156 patch, obs_operating_system = OsLinux,
      obs_surface = LocalCli, obs_hook_outcome = ProtocolFailure,
      obs_command_outcome = Succeeded, obs_counts = zero_counts\<lparr>protocol_failure_count := 1\<rparr>\<rparr>"

lemma example_observation_valid:
  "t \<noteq> 0 \<Longrightarrow> observation_validate ((example_observation patch)\<lparr>observed_at := t\<rparr>) = Inr ()"
  by (simp add: observation_validate_def example_observation_def counts_validate_def count_values_def
      zero_counts_def MAX_OUTCOME_COUNT_def aggregate_hook_outcome_def)

theorem record_observation_refines_witness:
  "\<exists>s'. record_observation (\<lambda>_. 7) (example_observation 1) default_state = (s', Inr ()) \<and> state_ok s' \<and>
     obs_map (observations s') = abstract_record 7 (example_observation 1) Map.empty"
proof -
  have "recording_time (\<lambda>_. 7) (example_observation 1) = 7" by (simp add: recording_time_def)
  moreover have "observed_at (example_observation 1) = 0" by (simp add: example_observation_def)
  moreover have "observations default_state = []" by (simp add: default_state_def)
  ultimately show ?thesis
    using record_observation_refines [OF default_state_ok, of "\<lambda>_. 7" "example_observation 1"]
      example_observation_valid [of 7 1] by auto
qed

text \<open>Merging the counters of two sessions never lets a counted failure disappear: the outcome
  of the merged counters is the worse of the two outcomes, even when a counter is capped.\<close>

theorem merge_severity_is_max:
  assumes "counted_outcome a" "counted_outcome b"
  shows "severity (aggregate_hook_outcome (counts_saturating_merge a b)) =
    max (severity (aggregate_hook_outcome a)) (severity (aggregate_hook_outcome b))"
  using assms by (rule merge_severity)

theorem merge_severity_is_max_witness:
  "severity (aggregate_hook_outcome (counts_saturating_merge
     (zero_counts\<lparr>transport_failure_count := 64\<rparr>) (zero_counts\<lparr>successful_exchange_count := 1\<rparr>))) = 4"
proof -
  have "counted_outcome (zero_counts\<lparr>transport_failure_count := 64\<rparr>)"
    "counted_outcome (zero_counts\<lparr>successful_exchange_count := 1\<rparr>)"
    "aggregate_hook_outcome (zero_counts\<lparr>transport_failure_count := 64\<rparr>) = TransportFailure"
    "aggregate_hook_outcome (zero_counts\<lparr>successful_exchange_count := 1\<rparr>) = SuccessfulExchange"
    by (simp_all add: counted_outcome_def aggregate_hook_outcome_def zero_counts_def)
  with merge_severity_is_max show ?thesis by simp
qed

text \<open>A failure that is only concluded, from an entry without an outcome, is lost when a session
  with a successful exchange is merged into the observation.\<close>

theorem merge_loses_concluded_failure:
  "aggregate_hook_outcome (zero_counts\<lparr>entry_count := 1\<rparr>) = ProtocolFailure \<and>
   aggregate_hook_outcome (counts_saturating_merge (zero_counts\<lparr>entry_count := 1\<rparr>)
     (zero_counts\<lparr>successful_exchange_count := 1\<rparr>)) = SuccessfulExchange"
  by (simp add: aggregate_hook_outcome_def zero_counts_def counts_saturating_merge_def
      capped_add_positive capped_add_zero)

text \<open>A successful check is recorded only with validators that are short, not empty and free of
  control characters; then the state stays valid, remembers the check, forgets the last failure
  and changes nothing else.\<close>

theorem record_check_sound:
  assumes "state_ok s" "clock 0 \<noteq> 0"
  shows "record_successful_check clock codex metadata validators s =
    (if validators_validate validators = Inr ()
     then (s\<lparr>last_codex_version := Some codex,
             last_successful_check := Some \<lparr>check_observed_at = clock 0,
               check_codex_version = codex, check_metadata_version = metadata\<rparr>,
             state_validators := Some validators, last_failure := None\<rparr>, Inr ())
     else (s, Inl StateInvalid))"
proof (cases "validators_validate validators")
  case (Inl e)
  then have "e = StateInvalid"
    by (auto simp: validators_validate_def validate_bounded_text_def result_simps split: if_splits)
  with Inl show ?thesis by (simp add: record_successful_check_def)
next
  case (Inr u)
  then show ?thesis
    using assms
    by (simp add: record_successful_check_def Let_def state_ok_def state_validate_Inr
        validate_opt_def check_validate_def)
qed

theorem record_check_sound_witness:
  "\<exists>s'. record_successful_check (\<lambda>_. 7) (StableVersion 0 156 1) None
     \<lparr>etag = Some ''x'', last_modified = None\<rparr> default_state = (s', Inr ())"
proof -
  have "validators_validate \<lparr>etag = Some ''x'', last_modified = None\<rparr> = Inr ()"
    by (simp add: validators_validate_def validate_bounded_text_def MAX_VALIDATOR_BYTES_def byte_def)
  then show ?thesis
    using record_check_sound [OF default_state_ok, of "\<lambda>_. 7"] by simp
qed

end
