(* ===== verification/Paths.thy ===== *)
theory Paths
  imports Rust_Text
begin

text \<open>
  Paths as \<^verbatim>\<open>std::path\<close> reads them on Unix: lists of components.
\<close>

section \<open>Paths\<close>

text \<open>The components of a path, as \<^verbatim>\<open>Path::components\<close> gives them.\<close>

datatype path_component = RootDir | CurDir | ParentDir | Normal string | PrefixDir string

type_synonym path = "path_component list"

definition file_name :: "path \<Rightarrow> string option" where
  "file_name path =
     (if path = [] then None else case last path of Normal n \<Rightarrow> Some n | _ \<Rightarrow> None)"

definition with_file_name :: "path \<Rightarrow> string \<Rightarrow> path" where
  "with_file_name path name =
     (if file_name path = None then path @ [Normal name] else butlast path @ [Normal name])"

text \<open>\<^verbatim>\<open>Path::parent\<close> drops a last component that is a name.\<close>

definition path_parent :: "path \<Rightarrow> path option" where
  "path_parent path =
     (if path = [] then None
      else case last path of RootDir \<Rightarrow> None | PrefixDir p \<Rightarrow> None | _ \<Rightarrow> Some (butlast path))"

definition is_absolute :: "path \<Rightarrow> bool" where
  "is_absolute path = (path \<noteq> [] \<and> hd path = RootDir)"

definition path_join :: "path \<Rightarrow> path \<Rightarrow> path" where
  "path_join base path = (if is_absolute path then path else base @ path)"

fun path_starts_with :: "path \<Rightarrow> path \<Rightarrow> bool" where
  "path_starts_with path [] = True"
| "path_starts_with [] (b # base) = False"
| "path_starts_with (p # path) (b # base) = (p = b \<and> path_starts_with path base)"

definition path_ends_with :: "path \<Rightarrow> path \<Rightarrow> bool" where
  "path_ends_with path suffix =
     (length suffix \<le> length path \<and> drop (length path - length suffix) path = suffix)"

text \<open>The text between two separators; a leading \<^verbatim>\<open>.\<close> is kept, the others are dropped.\<close>

fun component_of :: "string \<Rightarrow> path" where
  "component_of part =
     (if part = [] \<or> part = ''.'' then [] else if part = ''..'' then [ParentDir] else [Normal part])"

definition path_of_string :: "string \<Rightarrow> path" where
  "path_of_string s =
     (let parts = split_on (CHR ''/'') s in
      (if starts_with ''/'' s then [RootDir] else if hd parts = ''.'' then [CurDir] else []) @
      concat (List.map component_of parts))"

lemma path_starts_with_iff: "path_starts_with path base = (\<exists>rest. path = base @ rest)"
  by (induction path base rule: path_starts_with.induct) auto

end
