(* ===== verification/Private_Files.thy ===== *)
theory Private_Files
  imports Update_State Paths
begin

text \<open>
  The files of the update state, as \<^verbatim>\<open>src/update/state.rs\<close> looks at them: paths, the walk
  down to the directory, one directory of entries and inodes, and the checks that a file is a
  private regular one.  Each system call may fail, which is a parameter.
\<close>

section \<open>The names of the files\<close>

definition lock_path :: "path \<Rightarrow> path" where
  "lock_path path =
     with_file_name path ((case file_name path of None \<Rightarrow> ''state'' | Some n \<Rightarrow> n) @ ''.lock'')"

definition temporary_path :: "u32 \<Rightarrow> u64 \<Rightarrow> path \<Rightarrow> path" where
  "temporary_path pid counter path =
     (let name = (case file_name path of None \<Rightarrow> ''state''
                  | Some n \<Rightarrow> if utf8_valid n then n else ''state'')
      in with_file_name path (''.'' @ name @ ''.tmp.'' @ show_nat (unat pid) @ ''.'' @
           show_nat (unat counter)))"

definition state_name :: "path \<Rightarrow> (state_error, string) result" where
  "state_name path =
     and_then (ok_or UnsafePath (file_name path)) (\<lambda>name.
       if ParentDir \<in> set path then Inl UnsafePath else Inr name)"

section \<open>The directory\<close>

text \<open>What the walk to the parent meets at each component: how the creation and the opening of the
  component end, and at its end the owner and the mode of the directory.\<close>

datatype errno = ErrExist | ErrLoop | ErrNotDir | ErrNoEnt | ErrOther io_kind

fun errno_kind :: "errno \<Rightarrow> io_kind" where
  "errno_kind ErrNoEnt = KindNotFound"
| "errno_kind (ErrOther k) = k"
| "errno_kind _ = KindOther"

record walk_event =
  we_mkdir :: "errno option"
  we_open :: "errno option"

record dir_metadata =
  dir_uid :: u32
  dir_mode :: u32

definition private_mode :: "u32 \<Rightarrow> bool" where
  "private_mode mode = (mode AND 0x3F = 0)"

fun walk_parent :: "bool \<Rightarrow> walk_event list \<Rightarrow> path \<Rightarrow> (state_error, unit) result" where
  "walk_parent create evs [] = Inr ()"
| "walk_parent create evs (RootDir # parts) = walk_parent create evs parts"
| "walk_parent create evs (CurDir # parts) = walk_parent create evs parts"
| "walk_parent create evs (Normal component # parts) =
     (case evs of
        [] \<Rightarrow> Inl (StorageUnavailable Inspect KindOther)
      | ev # evs \<Rightarrow>
          and_then
            (if create
             then case we_mkdir ev of
                 None \<Rightarrow> Inr ()
               | Some e \<Rightarrow> if e = ErrExist then Inr ()
                   else Inl (StorageUnavailable CreateDirectory (errno_kind e))
             else Inr ()) (\<lambda>_.
          and_then
            (case we_open ev of
               None \<Rightarrow> Inr ()
             | Some e \<Rightarrow> if e = ErrLoop \<or> e = ErrNotDir then Inl UnsafePath
                 else Inl (StorageUnavailable Inspect (errno_kind e))) (\<lambda>_.
          walk_parent create evs parts)))"
| "walk_parent create evs (part # parts) = Inl UnsafePath"

definition open_parent :: "u32 \<Rightarrow> io_kind option \<Rightarrow> walk_event list \<Rightarrow> (io_kind, dir_metadata) result
    \<Rightarrow> path \<Rightarrow> bool \<Rightarrow> (state_error, unit) result" where
  "open_parent euid root evs meta path create =
     and_then (state_name path) (\<lambda>_.
     and_then (case root of None \<Rightarrow> Inr () | Some k \<Rightarrow> Inl (StorageUnavailable Inspect k)) (\<lambda>_.
     and_then (walk_parent create evs (butlast path)) (\<lambda>_.
     and_then (map_err (StorageUnavailable Inspect) meta) (\<lambda>m.
       if dir_uid m \<noteq> euid \<or> \<not> private_mode (dir_mode m) then Inl UnsafePath else Inr ()))))"

section \<open>Entries and inodes\<close>

datatype file_kind = RegularFile | SymbolicLink | OtherKind

record node =
  node_kind :: file_kind
  node_nlink :: nat
  node_uid :: u32
  node_mode :: u32
  node_bytes :: string

record directory =
  entries :: "string \<rightharpoonup> nat"
  inodes :: "nat \<rightharpoonup> node"

definition entry_node :: "directory \<Rightarrow> string \<rightharpoonup> nat \<times> node" where
  "entry_node d name =
     (case entries d name of None \<Rightarrow> None
      | Some i \<Rightarrow> (case inodes d i of None \<Rightarrow> None | Some n \<Rightarrow> Some (i, n)))"

definition contents :: "directory \<Rightarrow> string \<Rightarrow> string option" where
  "contents d name = map_option (\<lambda>(i, n). node_bytes n) (entry_node d name)"

text \<open>An open file is its inode.  Its metadata may be unavailable.\<close>

definition safe_regular_file :: "u32 \<Rightarrow> io_kind option \<Rightarrow> node \<Rightarrow> (state_error, unit) result" where
  "safe_regular_file euid failure n =
     (case failure of
        Some k \<Rightarrow> Inl (StorageUnavailable Inspect k)
      | None \<Rightarrow>
          if node_kind n \<noteq> RegularFile \<or> node_nlink n \<noteq> 1 \<or> node_uid n \<noteq> euid \<or>
             \<not> private_mode (node_mode n)
          then Inl UnsafePath else Inr ())"

text \<open>The failures a check may meet: of the \<^verbatim>\<open>statat\<close>, of the \<^verbatim>\<open>openat\<close> and of
  the metadata of the opened file.\<close>

record check_events =
  ce_stat :: "io_kind option"
  ce_open :: bool
  ce_meta :: "io_kind option"

definition check_existing_entry ::
    "u32 \<Rightarrow> check_events \<Rightarrow> directory \<Rightarrow> string \<Rightarrow> (state_error, unit) result" where
  "check_existing_entry euid ce d name =
     (case ce_stat ce of
        Some k \<Rightarrow> Inl (StorageUnavailable Inspect k)
      | None \<Rightarrow>
          (case entry_node d name of
             None \<Rightarrow> Inr ()
           | Some (i, n) \<Rightarrow>
               if node_kind n \<noteq> RegularFile \<or> node_nlink n \<noteq> 1 then Inl UnsafePath
               else if \<not> ce_open ce then Inl UnsafePath
               else safe_regular_file euid (ce_meta ce) n))"

definition verify_lock_entry ::
    "u32 \<Rightarrow> check_events \<Rightarrow> directory \<Rightarrow> path \<Rightarrow> nat \<Rightarrow> (state_error, unit) result" where
  "verify_lock_entry euid ce d path held =
     and_then (state_name path) (\<lambda>name.
     case (if ce_stat ce = None then entry_node d name else None) of
       None \<Rightarrow> Inl UnsafePath
     | Some (i, n) \<Rightarrow>
         (case inodes d held of
            None \<Rightarrow> Inl (StorageUnavailable Inspect KindOther)
          | Some h \<Rightarrow>
              and_then (safe_regular_file euid (ce_meta ce) h) (\<lambda>_.
                if i \<noteq> held \<or> node_nlink n \<noteq> 1 then Inl UnsafePath else Inr ())))"

end
