(* ===== verification/State_Store.thy ===== *)
theory State_Store
  imports Private_Files Manifest
begin

text \<open>
  The storage of the update state, \<^verbatim>\<open>StateStore\<close> and \<^verbatim>\<open>CheckCoordinator\<close> of
  \<^verbatim>\<open>src/update/state.rs\<close>: loading, the atomic replacement of the file step by step, and
  the advisory lock that serializes the processes of a user.
\<close>

section \<open>The store\<close>

text \<open>What is fixed: the user, the path, the JSON reader, and serde's decoder and encoder of the
  state.\<close>

record store =
  store_euid :: u32
  store_path :: path
  store_tok :: tokenizer
  store_decode :: "string \<Rightarrow> update_state option"
  store_encode :: "update_state \<Rightarrow> string option"

datatype load_state = MissingState | PresentState update_state

section \<open>Loading\<close>

record load_events =
  le_open :: "errno option"
  le_meta :: "io_kind option"
  le_read :: "io_kind option"

definition load_bytes :: "store \<Rightarrow> string \<Rightarrow> (state_error, load_state) result" where
  "load_bytes st stream =
     (let bytes = take (MAX_STATE_BYTES + 1) stream in
      if MAX_STATE_BYTES < length bytes then Inl StateTooLarge
      else and_then (map_err (\<lambda>_. StateCorrupt) (reject_duplicate_json_keys (store_tok st) bytes)) (\<lambda>_.
        and_then (ok_or StateCorrupt (store_decode st bytes)) (\<lambda>state.
        and_then (state_validate state) (\<lambda>_. Inr (PresentState state)))))"

definition load_at :: "store \<Rightarrow> load_events \<Rightarrow> directory \<Rightarrow> (state_error, load_state) result" where
  "load_at st le d =
     and_then (state_name (store_path st)) (\<lambda>name.
     case le_open le of
       Some e \<Rightarrow>
         (if e = ErrNoEnt then Inr MissingState
          else if e = ErrLoop then Inl UnsafePath
          else Inl (StorageUnavailable ReadState (errno_kind e)))
     | None \<Rightarrow>
         (case entry_node d name of
            None \<Rightarrow> Inr MissingState
          | Some (i, n) \<Rightarrow>
              if node_kind n = SymbolicLink then Inl UnsafePath
              else and_then (safe_regular_file (store_euid st) (le_meta le) n) (\<lambda>_.
                if MAX_STATE_BYTES < length (node_bytes n) then Inl StateTooLarge
                else case le_read le of
                  Some k \<Rightarrow> Inl (StorageUnavailable ReadState k)
                | None \<Rightarrow> load_bytes st (node_bytes n))))"

definition load :: "store \<Rightarrow> (state_error, unit) result \<Rightarrow> load_events \<Rightarrow> directory
    \<Rightarrow> (state_error, load_state) result" where
  "load st parent le d =
     (case parent of
        Inl e \<Rightarrow> (case e of StorageUnavailable op KindNotFound \<Rightarrow> Inr MissingState | _ \<Rightarrow> Inl e)
      | Inr _ \<Rightarrow> load_at st le d)"

definition loaded :: "load_state \<Rightarrow> update_state" where
  "loaded l = (case l of MissingState \<Rightarrow> default_state | PresentState s \<Rightarrow> s)"

section \<open>Saving\<close>

text \<open>
  The lease names the lock and holds its inode.  What a save meets: the two checks of the target,
  the two of the lock, the temporary file (its name, its inode, the failures of its creation,
  write and synchronization), the failure of the renaming and of the synchronization of the
  directory, and whether the temporary entry can be removed.
\<close>

record lease =
  lease_lock_path :: path
  lease_inode :: nat

record save_events =
  sv_lease :: check_events
  sv_check :: check_events
  sv_temp_pid :: u32
  sv_temp_counter :: u64
  sv_open :: "errno option"
  sv_inode :: nat
  sv_write :: "nat option"
  sv_sync :: "io_kind option"
  sv_verify :: check_events
  sv_check_again :: check_events
  sv_rename :: "io_kind option"
  sv_sync_dir :: "io_kind option"
  sv_unlink :: bool

datatype save_pc =
    SaveStart
  | SaveEncoded string
  | TempCreated string
  | TempWritten
  | TempSynced
  | LockVerified
  | TargetChecked
  | Renamed
  | CleanUp state_error
  | SaveDone "(state_error, unit) result"

definition temp_name :: "store \<Rightarrow> save_events \<Rightarrow> (state_error, string) result" where
  "temp_name st ev =
     state_name (temporary_path (sv_temp_pid ev) (sv_temp_counter ev) (store_path st))"

definition store_name :: "store \<Rightarrow> string" where
  "store_name st = (case file_name (store_path st) of None \<Rightarrow> [] | Some n \<Rightarrow> n)"

definition temp_file :: "store \<Rightarrow> save_events \<Rightarrow> string" where
  "temp_file st ev = (case temp_name st ev of Inl e \<Rightarrow> [] | Inr n \<Rightarrow> n)"

definition set_bytes :: "directory \<Rightarrow> string \<Rightarrow> string \<Rightarrow> directory" where
  "set_bytes d name bytes =
     (case entry_node d name of None \<Rightarrow> d
      | Some (i, n) \<Rightarrow> d\<lparr>inodes := (inodes d)(i \<mapsto> n\<lparr>node_bytes := bytes\<rparr>)\<rparr>)"

definition new_private_node :: "u32 \<Rightarrow> node" where
  "new_private_node euid =
     \<lparr>node_kind = RegularFile, node_nlink = 1, node_uid = euid, node_mode = 0x180, node_bytes = []\<rparr>"

text \<open>A renaming gives the new name the inode of the old one; the inode that loses its entry is
  left to those who have it open.\<close>

definition unlink_inode :: "nat option \<Rightarrow> directory \<Rightarrow> directory" where
  "unlink_inode i d =
     (case i of None \<Rightarrow> d
      | Some i \<Rightarrow> d\<lparr>inodes := (inodes d)(i := map_option
          (\<lambda>n. n\<lparr>node_nlink := node_nlink n - 1\<rparr>) (inodes d i))\<rparr>)"

definition rename_entry :: "string \<Rightarrow> string \<Rightarrow> directory \<Rightarrow> directory" where
  "rename_entry from to d =
     (let d' = unlink_inode (if from = to then None else entries d to) d
      in d'\<lparr>entries := ((entries d)(from := None))(to := entries d from)\<rparr>)"

definition remove_entry :: "string \<Rightarrow> directory \<Rightarrow> directory" where
  "remove_entry name d =
     (let d' = unlink_inode (entries d name) d in d'\<lparr>entries := (entries d)(name := None)\<rparr>)"

fun save_step :: "store \<Rightarrow> lease \<Rightarrow> save_events \<Rightarrow> update_state \<Rightarrow> directory \<times> save_pc \<Rightarrow> directory \<times> save_pc"
where
  "save_step st l ev state (d, SaveStart) =
     (d, if lease_lock_path l \<noteq> lock_path (store_path st) then SaveDone (Inl StateInvalid)
         else case verify_lock_entry (store_euid st) (sv_lease ev) d (lease_lock_path l) (lease_inode l) of
           Inl e \<Rightarrow> SaveDone (Inl e)
         | Inr _ \<Rightarrow>
             (case state_validate state of
                Inl e \<Rightarrow> SaveDone (Inl e)
              | Inr _ \<Rightarrow>
                  (case store_encode st state of
                     None \<Rightarrow> SaveDone (Inl StateInvalid)
                   | Some bytes \<Rightarrow>
                       if MAX_STATE_BYTES < length bytes then SaveDone (Inl StateTooLarge)
                       else case state_name (store_path st) of
                         Inl e \<Rightarrow> SaveDone (Inl e)
                       | Inr name \<Rightarrow>
                           (case check_existing_entry (store_euid st) (sv_check ev) d name of
                              Inl e \<Rightarrow> SaveDone (Inl e)
                            | Inr _ \<Rightarrow>
                                (case temp_name st ev of
                                   Inl e \<Rightarrow> SaveDone (Inl e) | Inr _ \<Rightarrow> SaveEncoded bytes)))))"
| "save_step st l ev state (d, SaveEncoded bytes) =
     (case sv_open ev of
        Some e \<Rightarrow> (d, CleanUp (StorageUnavailable WriteTemporary (errno_kind e)))
      | None \<Rightarrow>
          if entries d (temp_file st ev) \<noteq> None
          then (d, CleanUp (StorageUnavailable WriteTemporary KindOther))
          else (d\<lparr>entries := (entries d)(temp_file st ev \<mapsto> sv_inode ev),
                  inodes := (inodes d)(sv_inode ev \<mapsto> new_private_node (store_euid st))\<rparr>,
                TempCreated bytes))"
| "save_step st l ev state (d, TempCreated bytes) =
     (case sv_write ev of
        Some n \<Rightarrow> (set_bytes d (temp_file st ev) (take n bytes),
                   CleanUp (StorageUnavailable WriteTemporary KindOther))
      | None \<Rightarrow> (set_bytes d (temp_file st ev) bytes, TempWritten))"
| "save_step st l ev state (d, TempWritten) =
     (d, case sv_sync ev of
           Some k \<Rightarrow> CleanUp (StorageUnavailable Sync k) | None \<Rightarrow> TempSynced)"
| "save_step st l ev state (d, TempSynced) =
     (d, case verify_lock_entry (store_euid st) (sv_verify ev) d (lease_lock_path l) (lease_inode l) of
           Inl e \<Rightarrow> CleanUp e | Inr _ \<Rightarrow> LockVerified)"
| "save_step st l ev state (d, LockVerified) =
     (d, case check_existing_entry (store_euid st) (sv_check_again ev) d (store_name st) of
           Inl e \<Rightarrow> CleanUp e | Inr _ \<Rightarrow> TargetChecked)"
| "save_step st l ev state (d, TargetChecked) =
     (case sv_rename ev of
        Some k \<Rightarrow> (d, CleanUp (StorageUnavailable ReplaceState k))
      | None \<Rightarrow> (rename_entry (temp_file st ev) (store_name st) d, Renamed))"
| "save_step st l ev state (d, Renamed) =
     (d, case sv_sync_dir ev of
           Some k \<Rightarrow> CleanUp (StorageUnavailable Sync k) | None \<Rightarrow> SaveDone (Inr ()))"
| "save_step st l ev state (d, CleanUp e) =
     (if sv_unlink ev then remove_entry (temp_file st ev) d else d, SaveDone (Inl e))"
| "save_step st l ev state (d, SaveDone r) = (d, SaveDone r)"

text \<open>All of it, without interference: nine steps at most.\<close>

definition save_with_lease ::
    "store \<Rightarrow> lease \<Rightarrow> save_events \<Rightarrow> update_state \<Rightarrow> directory \<Rightarrow> directory \<times> save_pc" where
  "save_with_lease st l ev state d = (save_step st l ev state ^^ 9) (d, SaveStart)"

section \<open>Names\<close>

lemma state_name_Inr: "(state_name path = Inr name) = (file_name path = Some name \<and> ParentDir \<notin> set path)"
  by (auto simp: state_name_def result_simps)

lemma file_name_Some: "file_name path = Some name \<Longrightarrow> path = butlast path @ [Normal name]"
  by (auto simp: file_name_def split: if_splits path_component.splits) (metis append_butlast_last_id)

lemma file_name_with [simp]: "file_name (with_file_name path name) = Some name"
  by (simp add: with_file_name_def file_name_def)

lemma show_nat_ascii: "ascii_text (show_nat n)"
  using show_nat_digits [of n] by (auto simp: ascii_text_def list_all_iff is_ascii_digit_def byte_def)

text \<open>The temporary name is not the name of the state file.\<close>

lemma temp_text_other:
  "(''.'' @ (if utf8_valid n then n else ''state'') @ ''.tmp.'' @ show_nat a @ ''.'' @ show_nat b) \<noteq> n"
proof (cases "utf8_valid n")
  case True
  have "length (''.'' @ n @ ''.tmp.'' @ show_nat a @ ''.'' @ show_nat b) \<noteq> length n" by simp
  then have "''.'' @ n @ ''.tmp.'' @ show_nat a @ ''.'' @ show_nat b \<noteq> n"
    by (rule contrapos_nn) (rule arg_cong)
  then show ?thesis using True by simp
next
  case False
  have "ascii_text ''.''" "ascii_text ''state''" "ascii_text ''.tmp.''"
    by (simp_all add: ascii_text_def byte_def)
  then have "ascii_text (''.'' @ ''state'' @ ''.tmp.'' @ show_nat a @ ''.'' @ show_nat b)"
    unfolding ascii_text_append using show_nat_ascii by blast
  then have "utf8_valid (''.'' @ ''state'' @ ''.tmp.'' @ show_nat a @ ''.'' @ show_nat b)"
    by (rule ascii_utf8)
  then have "''.'' @ ''state'' @ ''.tmp.'' @ show_nat a @ ''.'' @ show_nat b \<noteq> n"
    using False by metis
  then show ?thesis using False by simp
qed

lemma temp_name_other:
  assumes "state_name (store_path st) = Inr name"
  shows "store_name st = name \<and> temp_name st ev = Inr (temp_file st ev) \<and> temp_file st ev \<noteq> name"
proof -
  have f: "file_name (store_path st) = Some name" "ParentDir \<notin> set (store_path st)"
    using assms by (simp_all add: state_name_Inr)
  have "ParentDir \<notin> set (temporary_path (sv_temp_pid ev) (sv_temp_counter ev) (store_path st))"
    using f in_set_butlastD by (fastforce simp: temporary_path_def Let_def with_file_name_def)
  then have "temp_name st ev = Inr (''.'' @ (if utf8_valid name then name else ''state'') @ ''.tmp.'' @
      show_nat (unat (sv_temp_pid ev)) @ ''.'' @ show_nat (unat (sv_temp_counter ev)))"
    using f(1) by (simp add: temp_name_def state_name_Inr) (simp add: temporary_path_def Let_def)
  then show ?thesis
    using f(1) temp_text_other [of name] by (simp add: store_name_def temp_file_def)
qed

section \<open>A save replaces the file at once\<close>

definition temp_created :: "store \<Rightarrow> save_events \<Rightarrow> string \<Rightarrow> directory \<Rightarrow> directory" where
  "temp_created st ev bytes d =
     d\<lparr>entries := (entries d)(temp_file st ev \<mapsto> sv_inode ev),
       inodes := (inodes d)(sv_inode ev \<mapsto> (new_private_node (store_euid st))\<lparr>node_bytes := bytes\<rparr>)\<rparr>"

definition state_replaced :: "store \<Rightarrow> save_events \<Rightarrow> string \<Rightarrow> directory \<Rightarrow> directory" where
  "state_replaced st ev bytes d = rename_entry (temp_file st ev) (store_name st) (temp_created st ev bytes d)"

definition old_or_new :: "store \<Rightarrow> string \<Rightarrow> directory \<Rightarrow> directory \<Rightarrow> bool" where
  "old_or_new st bytes d d' =
     (contents d' (store_name st) = contents d (store_name st) \<or>
      contents d' (store_name st) = Some bytes)"

definition save_allowed :: "store \<Rightarrow> update_state \<Rightarrow> string \<Rightarrow> bool" where
  "save_allowed st state bytes =
     (state_validate state = Inr () \<and> store_encode st state = Some bytes \<and>
      length bytes \<le> MAX_STATE_BYTES \<and> state_name (store_path st) = Inr (store_name st))"

fun save_inv :: "store \<Rightarrow> save_events \<Rightarrow> update_state \<Rightarrow> directory \<Rightarrow> directory \<times> save_pc \<Rightarrow> bool" where
  "save_inv st ev state d0 (d, SaveStart) = (d = d0)"
| "save_inv st ev state d0 (d, SaveEncoded bytes) = (d = d0 \<and> save_allowed st state bytes)"
| "save_inv st ev state d0 (d, TempCreated bytes) =
     (d = temp_created st ev [] d0 \<and> save_allowed st state bytes)"
| "save_inv st ev state d0 (d, Renamed) =
     (\<exists>bytes. d = state_replaced st ev bytes d0 \<and> save_allowed st state bytes)"
| "save_inv st ev state d0 (d, SaveDone (Inr u)) =
     (\<exists>bytes. d = state_replaced st ev bytes d0 \<and> save_allowed st state bytes)"
| "save_inv st ev state d0 (d, SaveDone (Inl e)) =
     (d = d0 \<or> (\<exists>bytes. old_or_new st bytes d0 d \<and> save_allowed st state bytes))"
| "save_inv st ev state d0 (d, CleanUp e) =
     (\<exists>bytes. old_or_new st bytes d0 d \<and> save_allowed st state bytes)"
| "save_inv st ev state d0 (d, pc) =
     (\<exists>bytes. d = temp_created st ev bytes d0 \<and> save_allowed st state bytes)"

text \<open>The kernel gives a new file an inode that is not in use, and each entry has an inode.\<close>

definition fresh_inode :: "save_events \<Rightarrow> directory \<Rightarrow> bool" where
  "fresh_inode ev d = (inodes d (sv_inode ev) = None \<and> ran (entries d) \<subseteq> dom (inodes d))"

lemma fresh_not_entry: "fresh_inode ev d \<Longrightarrow> entries d name \<noteq> Some (sv_inode ev)"
  by (auto simp: fresh_inode_def ran_def)

lemma contents_temp:
  assumes "fresh_inode ev d" "store_name st \<noteq> temp_file st ev"
  shows "contents (temp_created st ev bytes d) (store_name st) = contents d (store_name st)"
  using assms fresh_not_entry [OF assms(1), of "store_name st"]
  by (auto simp: contents_def entry_node_def temp_created_def split: option.splits)

lemma contents_replaced:
  assumes "fresh_inode ev d" "store_name st \<noteq> temp_file st ev"
  shows "entry_node (state_replaced st ev bytes d) (store_name st) =
    Some (sv_inode ev, (new_private_node (store_euid st))\<lparr>node_bytes := bytes\<rparr>)"
  using assms fresh_not_entry [OF assms(1), of "store_name st"]
  by (cases "entries d (store_name st)")
    (auto simp: entry_node_def state_replaced_def rename_entry_def unlink_inode_def temp_created_def
      Let_def split: option.splits)

lemma contents_remove:
  "name \<noteq> other \<Longrightarrow> contents (remove_entry other d) name = contents d name"
  by (cases "entries d other")
    (auto simp: contents_def entry_node_def remove_entry_def unlink_inode_def Let_def
      split: option.splits)

lemma set_bytes_temp:
  "set_bytes (temp_created st ev b d) (temp_file st ev) bytes = temp_created st ev bytes d"
  by (simp add: set_bytes_def entry_node_def temp_created_def)

lemma old_or_new_remove:
  assumes "store_name st \<noteq> temp_file st ev" "old_or_new st bytes d0 d"
  shows "old_or_new st bytes d0 (remove_entry (temp_file st ev) d)"
  using assms contents_remove [of "store_name st" "temp_file st ev" d] by (simp add: old_or_new_def)

lemma old_or_new_temp:
  assumes "fresh_inode ev d0" "store_name st \<noteq> temp_file st ev"
  shows "old_or_new st bytes d0 (temp_created st ev b d0)"
  using contents_temp [OF assms] by (simp add: old_or_new_def)

lemma old_or_new_replaced:
  assumes "fresh_inode ev d0" "store_name st \<noteq> temp_file st ev"
  shows "old_or_new st bytes d0 (state_replaced st ev bytes d0)"
  using contents_replaced [OF assms, of bytes] by (simp add: old_or_new_def contents_def)

lemma save_allowed_name:
  "save_allowed st state bytes \<Longrightarrow> store_name st \<noteq> temp_file st ev"
  using temp_name_other [of st "store_name st" ev] by (auto simp: save_allowed_def)

lemma save_start_inv:
  assumes "save_step st l ev state (d, SaveStart) = (d', pc')"
  shows "save_inv st ev state d (d', pc')"
proof (cases "\<exists>bytes. pc' = SaveEncoded bytes")
  case True
  then show ?thesis
    using assms temp_name_other [of st _ ev]
    by (auto simp: save_allowed_def not_less split: if_splits sum.splits option.splits)
next
  case False
  then show ?thesis
    using assms by (auto split: if_splits sum.splits option.splits)
qed

lemma save_step_inv:
  assumes "save_step st l ev state (d, pc) = (d', pc')" "save_inv st ev state d0 (d, pc)"
    and "fresh_inode ev d0"
  shows "save_inv st ev state d0 (d', pc')"
proof (cases pc)
  case SaveStart
  then have "d = d0" using assms(2) by simp
  then show ?thesis
    using save_start_inv [OF assms(1) [unfolded SaveStart]] by (simp only:)
next
  case (SaveEncoded bytes)
  then have "save_allowed st state bytes" "d = d0" using assms(2) by auto
  then show ?thesis
    using SaveEncoded assms(1)
    by (auto simp: old_or_new_def temp_created_def new_private_node_def split: option.splits if_splits)
next
  case (TempCreated bytes)
  then have "save_allowed st state bytes" "d = temp_created st ev [] d0" using assms(2) by auto
  then show ?thesis
    using TempCreated assms(1) old_or_new_temp [OF assms(3) save_allowed_name]
    by (auto simp: set_bytes_temp split: option.splits)
next
  case (CleanUp e)
  then obtain bytes where "save_allowed st state bytes" "old_or_new st bytes d0 d" using assms(2) by auto
  moreover from this have "old_or_new st bytes d0 (remove_entry (temp_file st ev) d)"
    by (intro old_or_new_remove save_allowed_name)
  ultimately show ?thesis
    using CleanUp assms(1) by (auto split: if_splits)
next
  case Renamed
  then obtain bytes where "save_allowed st state bytes" "d = state_replaced st ev bytes d0"
    using assms(2) by auto
  moreover from this have "old_or_new st bytes d0 d"
    using old_or_new_replaced [OF assms(3) save_allowed_name] by blast
  ultimately show ?thesis
    using Renamed assms(1) by (auto split: option.splits)
next
  case (SaveDone r)
  then show ?thesis using assms(1,2) by simp
qed (use assms(1,2) old_or_new_temp [OF assms(3) save_allowed_name] in
    \<open>auto simp: state_replaced_def split: sum.splits option.splits\<close>)

lemma save_steps_inv:
  assumes "fresh_inode ev d"
  shows "save_inv st ev state d ((save_step st l ev state ^^ n) (d, SaveStart))"
proof (induction n)
  case (Suc n)
  obtain d' pc' where "(save_step st l ev state ^^ n) (d, SaveStart) = (d', pc')" by fastforce
  with Suc show ?case
    using save_step_inv [OF _ _ assms, of st l state d' pc'] by (metis comp_apply funpow.simps(2) prod.collapse)
qed simp

lemma save_inv_contents:
  assumes "save_inv st ev state d0 (d, pc)" "fresh_inode ev d0"
  shows "contents d (store_name st) = contents d0 (store_name st) \<or>
    (\<exists>bytes. contents d (store_name st) = Some bytes \<and> save_allowed st state bytes)"
proof (cases "\<exists>bytes. save_allowed st state bytes")
  case True
  then obtain bytes where "save_allowed st state bytes" by blast
  then have uniq: "save_allowed st state b \<Longrightarrow> b = bytes" for b by (simp add: save_allowed_def)
  have ne: "store_name st \<noteq> temp_file st ev"
    using \<open>save_allowed st state bytes\<close> by (rule save_allowed_name)
  note on = old_or_new_temp [OF assms(2) ne] old_or_new_replaced [OF assms(2) ne]
  have "old_or_new st bytes d0 d \<or> d = d0"
    using assms(1) on uniq by (cases "(st, ev, state, d0, d, pc)" rule: save_inv.cases) auto
  then show ?thesis using \<open>save_allowed st state bytes\<close> by (auto simp: old_or_new_def)
next
  case False
  then show ?thesis
    using assms(1) by (cases "(st, ev, state, d0, d, pc)" rule: save_inv.cases) auto
qed

section \<open>A save ends\<close>

fun save_rank :: "save_pc \<Rightarrow> nat" where
  "save_rank SaveStart = 9"
| "save_rank (SaveEncoded b) = 8"
| "save_rank (TempCreated b) = 7"
| "save_rank TempWritten = 6"
| "save_rank TempSynced = 5"
| "save_rank LockVerified = 4"
| "save_rank TargetChecked = 3"
| "save_rank Renamed = 2"
| "save_rank (CleanUp e) = 1"
| "save_rank (SaveDone r) = 0"

lemma save_step_rank: "save_rank (snd (save_step st l ev state (d, pc))) \<le> save_rank pc - 1"
  by (cases pc) (auto split: option.splits sum.splits)

lemma save_steps_rank: "save_rank (snd ((save_step st l ev state ^^ n) (d, pc))) \<le> save_rank pc - n"
proof (induction n)
  case (Suc n)
  obtain d' pc' where s: "(save_step st l ev state ^^ n) (d, pc) = (d', pc')" by fastforce
  then show ?case using Suc save_step_rank [of st l ev state d' pc'] by simp
qed simp

lemma save_rank_0: "(save_rank pc = 0) = (\<exists>r. pc = SaveDone r)"
  by (cases pc) auto

lemma save_finishes: "\<exists>d' r. save_with_lease st l ev state d = (d', SaveDone r)"
  using save_steps_rank [where n = 9 and pc = SaveStart and st = st and l = l and ev = ev and
      state = state and d = d] save_rank_0
  by (cases "save_with_lease st l ev state d") (auto simp: save_with_lease_def)

section \<open>Loading what was saved\<close>

text \<open>The decoder and the check for repeated keys accept what the encoder writes.\<close>

definition reads_states :: "store \<Rightarrow> bool" where
  "reads_states st =
     (\<forall>state bytes. store_encode st state = Some bytes \<longrightarrow>
        store_decode st bytes = Some state \<and> reject_duplicate_json_keys (store_tok st) bytes = Inr ())"

definition load_clean :: load_events where
  "load_clean = \<lparr>le_open = None, le_meta = None, le_read = None\<rparr>"

lemma load_replaced:
  assumes "save_allowed st state bytes" "fresh_inode ev d" "reads_states st"
  shows "load_at st load_clean (state_replaced st ev bytes d) = Inr (PresentState state)"
proof -
  have "private_mode 0x180" by (simp add: private_mode_def)
  moreover have "take (MAX_STATE_BYTES + 1) bytes = bytes"
    using assms(1) by (simp add: save_allowed_def)
  moreover note contents_replaced [OF assms(2) save_allowed_name [OF assms(1)], of bytes]
  ultimately show ?thesis
    using assms(1,3)
    by (auto simp: load_at_def load_clean_def save_allowed_def safe_regular_file_def new_private_node_def
        load_bytes_def Let_def reads_states_def ok_or_def)
qed

section \<open>A store to evaluate on\<close>

text \<open>The default state is written as an empty object; user 7 has the file \<^verbatim>\<open>/s\<close>, with its
  lock on inode 3.\<close>

definition example_store :: store where
  "example_store =
     \<lparr>store_euid = 7, store_path = [RootDir, Normal ''s''], store_tok = (\<lambda>_. Some (RawObject [], [])),
      store_decode = (\<lambda>bytes. if bytes = ''{}'' then Some default_state else None),
      store_encode = (\<lambda>state. if state = default_state then Some ''{}'' else None)\<rparr>"

definition example_directory :: directory where
  "example_directory = \<lparr>entries = [''s.lock'' \<mapsto> 3], inodes = [3 \<mapsto> new_private_node 7]\<rparr>"

definition example_lease :: lease where
  "example_lease = \<lparr>lease_lock_path = [RootDir, Normal ''s.lock''], lease_inode = 3\<rparr>"

definition no_failures :: check_events where
  "no_failures = \<lparr>ce_stat = None, ce_open = True, ce_meta = None\<rparr>"

definition example_save :: save_events where
  "example_save =
     \<lparr>sv_lease = no_failures, sv_check = no_failures, sv_temp_pid = 5, sv_temp_counter = 0,
      sv_open = None, sv_inode = 2, sv_write = None, sv_sync = None, sv_verify = no_failures,
      sv_check_again = no_failures, sv_rename = None, sv_sync_dir = None, sv_unlink = True\<rparr>"

lemmas example_store_defs = example_store_def example_directory_def example_lease_def no_failures_def
  example_save_def new_private_node_def

lemma example_fresh: "fresh_inode example_save example_directory"
  by (simp add: fresh_inode_def example_store_defs)

lemma example_reads: "reads_states example_store"
  by (simp add: reads_states_def example_store_def reject_duplicate_json_keys_def ensure_def)

lemma example_temp:
  "store_path st = [RootDir, Normal ''s''] \<Longrightarrow> temp_name st example_save = Inr ''.s.tmp.5.0''"
  by (simp add: temp_name_def temporary_path_def state_name_def file_name_def with_file_name_def
      example_save_def ascii_utf8 ascii_text_def byte_def show_nat.simps digit_char_def char_of_def
      bit_Suc_0_iff ok_or_def Let_def)

section \<open>Properties\<close>

text \<open>C28: at every moment of a save, so also when the process dies there or any call fails, the state
  file holds what it held before or the whole encoding of the new state, which is valid and within
  its size bound.\<close>

theorem save_is_atomic:
  assumes "fresh_inode ev d" "(save_step st l ev state ^^ n) (d, SaveStart) = (d', pc)"
  shows "contents d' (store_name st) = contents d (store_name st) \<or>
    (\<exists>bytes. contents d' (store_name st) = Some bytes \<and> store_encode st state = Some bytes \<and>
       state_validate state = Inr () \<and> length bytes \<le> 65536)"
proof -
  have "save_inv st ev state d (d', pc)"
    using save_steps_inv [OF assms(1), where st = st and l = l and state = state and n = n] assms(2)
    by simp
  from save_inv_contents [OF this assms(1)] show ?thesis
    by (auto simp: save_allowed_def MAX_STATE_BYTES_def)
qed

theorem save_is_atomic_witness:
  "\<forall>n. contents (fst ((save_step example_store example_lease example_save default_state ^^ n)
      (example_directory, SaveStart))) ''s'' \<in> {None, Some ''{}''}"
proof
  fix n
  let ?run = "(save_step example_store example_lease example_save default_state ^^ n)
      (example_directory, SaveStart)"
  have "store_name example_store = ''s''" "contents example_directory ''s'' = None"
    by (simp_all add: store_name_def file_name_def contents_def entry_node_def example_store_defs)
  moreover have "contents (fst ?run) (store_name example_store) =
      contents example_directory (store_name example_store) \<or>
    (\<exists>bytes. contents (fst ?run) (store_name example_store) = Some bytes \<and>
       store_encode example_store default_state = Some bytes \<and>
       state_validate default_state = Inr () \<and> length bytes \<le> 65536)"
    by (rule save_is_atomic [OF example_fresh, where l = example_lease and n = n and pc = "snd ?run"]) simp
  moreover have "store_encode example_store default_state = Some ''{}''"
    by (simp add: example_store_def)
  ultimately show "contents (fst ?run) ''s'' \<in> {None, Some ''{}''}" by auto
qed

text \<open>C29: a save ends, and when it reports success a load gives the very state that was saved,
  provided the decoder accepts what the encoder writes.\<close>

theorem saved_state_is_loaded:
  assumes "fresh_inode ev d" "reads_states st"
  shows "\<exists>d' r. save_with_lease st l ev state d = (d', SaveDone r) \<and>
    (r = Inr () \<longrightarrow> load_at st load_clean d' = Inr (PresentState state))"
proof -
  obtain d' r where s: "save_with_lease st l ev state d = (d', SaveDone r)"
    using save_finishes by blast
  moreover have "load_at st load_clean d' = Inr (PresentState state)" if "r = Inr ()"
    using save_steps_inv [OF assms(1), where st = st and l = l and state = state and n = 9] s that
      load_replaced [OF _ assms] by (auto simp: save_with_lease_def)
  ultimately show ?thesis by blast
qed

text \<open>The save of the default state goes through all its steps.\<close>

lemma example_lock: "verify_lock_entry 7 no_failures d [RootDir, Normal ''s.lock''] 3 = Inr ()"
  if "entries d ''s.lock'' = Some 3" "inodes d 3 = Some (new_private_node 7)"
  using that
  by (simp add: verify_lock_entry_def state_name_def file_name_def ok_or_def no_failures_def
      entry_node_def safe_regular_file_def new_private_node_def private_mode_def)

lemma example_target: "check_existing_entry 7 no_failures d ''s'' = Inr ()"
  if "entries d ''s'' = None"
  using that by (simp add: check_existing_entry_def no_failures_def entry_node_def)

lemma example_saved:
  assumes st: "store_euid st = 7" "store_path st = [RootDir, Normal ''s'']"
    "store_encode st s = Some bytes" "length bytes \<le> 65536" "state_validate s = Inr ()"
  shows "\<exists>d. save_with_lease st example_lease example_save s example_directory = (d, SaveDone (Inr ()))"
proof -
  have t: "temp_file st example_save = ''.s.tmp.5.0''" "store_name st = ''s''"
      "lock_path [RootDir, Normal ''s''] = [RootDir, Normal ''s.lock'']"
      "state_name [RootDir, Normal ''s''] = Inr ''s''" "\<not> MAX_STATE_BYTES < length bytes"
    using st unfolding temp_file_def example_temp [OF st(2)]
    by (simp_all add: store_name_def lock_path_def with_file_name_def state_name_def file_name_def
        ok_or_def MAX_STATE_BYTES_def)
  have e: "sv_lease example_save = no_failures" "sv_check example_save = no_failures"
      "sv_open example_save = None" "sv_inode example_save = 2" "sv_write example_save = None"
      "sv_sync example_save = None" "sv_verify example_save = no_failures"
      "sv_check_again example_save = no_failures" "sv_rename example_save = None"
      "sv_sync_dir example_save = None"
      "lease_lock_path example_lease = [RootDir, Normal ''s.lock'']" "lease_inode example_lease = 3"
    by (simp_all add: example_save_def example_lease_def)
  have n: "(f ^^ 9) x = f (f (f (f (f (f (f (f (f x))))))))" for f :: "'a \<Rightarrow> 'a" and x
    by (simp add: numeral_eq_Suc)
  show ?thesis
    by (simp add: save_with_lease_def n t e st(1,2,3,5) example_temp example_lock example_target
        example_directory_def set_bytes_def entry_node_def)
qed

theorem saved_state_is_loaded_witness:
  "load_at example_store load_clean
     (fst (save_with_lease example_store example_lease example_save default_state example_directory)) =
   Inr (PresentState default_state)"
  using saved_state_is_loaded [OF example_fresh example_reads, of example_lease default_state]
    example_saved [of example_store default_state "''{}''"] default_state_ok
  by (auto simp: state_ok_def example_store_def)

end
