(* ===== verification/State_Processes.thy ===== *)
theory State_Processes
  imports State_Store
begin

text \<open>
  Several processes of one user that record observations at the same time:
  \<^verbatim>\<open>StateStore::record_compatibility_observation\<close> and
  \<^verbatim>\<open>CheckCoordinator::acquire\<close> of \<^verbatim>\<open>src/update/state.rs\<close>, with the kernel's
  advisory lock, their steps in any order, and crashes.
\<close>

section \<open>The lock\<close>

record lock_events =
  lk_check :: check_events
  lk_open :: "errno option"
  lk_inode :: nat
  lk_meta :: "io_kind option"

text \<open>The lock file is opened or created.\<close>

definition open_lock :: "u32 \<Rightarrow> lock_events \<Rightarrow> path \<Rightarrow> directory \<Rightarrow> directory \<times> (state_error, nat) result" where
  "open_lock euid lk path d =
     (case state_name path of
        Inl e \<Rightarrow> (d, Inl e)
      | Inr name \<Rightarrow>
          (case check_existing_entry euid (lk_check lk) d name of
             Inl e \<Rightarrow> (d, Inl e)
           | Inr _ \<Rightarrow>
               (case lk_open lk of
                  Some e \<Rightarrow> (d, Inl (if e = ErrLoop then UnsafePath
                                      else StorageUnavailable OpenLock (errno_kind e)))
                | None \<Rightarrow>
                    (case entry_node d name of
                       None \<Rightarrow>
                         (let d' = d\<lparr>entries := (entries d)(name \<mapsto> lk_inode lk),
                                     inodes := (inodes d)(lk_inode lk \<mapsto> new_private_node euid)\<rparr>
                          in (d', and_then (safe_regular_file euid (lk_meta lk) (new_private_node euid))
                                    (\<lambda>_. Inr (lk_inode lk))))
                     | Some (i, n) \<Rightarrow>
                         (d, if node_kind n = SymbolicLink then Inl UnsafePath
                             else and_then (safe_regular_file euid (lk_meta lk) n) (\<lambda>_. Inr i))))))"

text \<open>The attempts at the lock until the deadline: another process has it, the call fails, or it is
  obtained.\<close>

datatype lock_attempt = LockTaken | LockFails io_kind | LockBusy bool

fun lock_loop :: "lock_attempt list \<Rightarrow> (state_error, unit) result" where
  "lock_loop [] = Inl LockContended"
| "lock_loop (LockTaken # as) = Inr ()"
| "lock_loop (LockFails k # as) = Inl (StorageUnavailable AcquireLock k)"
| "lock_loop (LockBusy deadline # as) = (if deadline then Inl LockContended else lock_loop as)"

section \<open>Processes\<close>

text \<open>What one process wants to record, its clock, and what its calls meet; \<open>pr_parent\<close> is how
  \<^verbatim>\<open>open_parent\<close> ends.\<close>

record process =
  pr_parent :: "(state_error, unit) result"
  pr_observation :: compatibility_observation
  pr_clock :: "nat \<Rightarrow> u64"
  pr_lock :: lock_events
  pr_verify :: check_events
  pr_load :: load_events
  pr_save :: save_events

datatype phase =
    Idle
  | Waiting nat
  | Holding lease
  | Saving lease update_state save_pc
  | Over "(state_error, unit) result"
  | Crashed

record machine =
  m_dir :: directory
  m_lock :: "nat \<rightharpoonup> nat"
  m_phase :: "nat \<Rightarrow> phase"
  m_history :: "nat list"

definition set_phase :: "nat \<Rightarrow> phase \<Rightarrow> machine \<Rightarrow> machine" where
  "set_phase p ph m = m\<lparr>m_phase := (m_phase m)(p := ph)\<rparr>"

text \<open>The kernel drops the locks of a process that closes its file or ends.\<close>

definition release :: "nat \<Rightarrow> machine \<Rightarrow> machine" where
  "release p m = m\<lparr>m_lock := (\<lambda>i. if m_lock m i = Some p then None else m_lock m i)\<rparr>"

definition end_with :: "nat \<Rightarrow> (state_error, unit) result \<Rightarrow> machine \<Rightarrow> machine" where
  "end_with p r m = set_phase p (Over r) (release p m)"

definition step_open :: "store \<Rightarrow> process \<Rightarrow> nat \<Rightarrow> machine \<Rightarrow> machine" where
  "step_open st pr p m =
     (case pr_parent pr of Inl e \<Rightarrow> end_with p (Inl e) m | Inr _ \<Rightarrow>
      case open_lock (store_euid st) (pr_lock pr) (lock_path (store_path st)) (m_dir m) of
        (d, Inl e) \<Rightarrow> end_with p (Inl e) (m\<lparr>m_dir := d\<rparr>)
      | (d, Inr i) \<Rightarrow> set_phase p (Waiting i) (m\<lparr>m_dir := d\<rparr>))"

definition step_lock :: "store \<Rightarrow> process \<Rightarrow> nat \<Rightarrow> nat \<Rightarrow> machine \<Rightarrow> machine" where
  "step_lock st pr p i m =
     (let m' = m\<lparr>m_lock := (m_lock m)(i \<mapsto> p)\<rparr> in
      case verify_lock_entry (store_euid st) (pr_verify pr) (m_dir m) (lock_path (store_path st)) i of
        Inl e \<Rightarrow> end_with p (Inl e) m'
      | Inr _ \<Rightarrow> set_phase p (Holding
          \<lparr>lease_lock_path = lock_path (store_path st), lease_inode = i\<rparr>) m')"

definition step_record :: "store \<Rightarrow> process \<Rightarrow> nat \<Rightarrow> lease \<Rightarrow> machine \<Rightarrow> machine" where
  "step_record st pr p l m =
     (case load_at st (pr_load pr) (m_dir m) of
        Inl e \<Rightarrow> end_with p (Inl e) m
      | Inr ls \<Rightarrow>
          (case record_observation (pr_clock pr) (pr_observation pr) (loaded ls) of
             (s, Inl e) \<Rightarrow> end_with p (Inl e) m
           | (s, Inr _) \<Rightarrow> set_phase p (Saving l s SaveStart) m))"

text \<open>The history names the processes whose state has replaced the file.\<close>

definition step_save :: "store \<Rightarrow> process \<Rightarrow> nat \<Rightarrow> lease \<Rightarrow> update_state \<Rightarrow> save_pc \<Rightarrow> machine \<Rightarrow> machine" where
  "step_save st pr p l s pc m =
     (case save_step st l (pr_save pr) s (m_dir m, pc) of
        (d, pc') \<Rightarrow> set_phase p (Saving l s pc')
          (m\<lparr>m_dir := d, m_history := m_history m @ (if pc' = Renamed then [p] else [])\<rparr>))"

text \<open>The steps.  The inodes of new files are not in use, and a file that exists is not reported to
  be missing.\<close>

inductive m_step :: "store \<Rightarrow> (nat \<Rightarrow> process) \<Rightarrow> machine \<Rightarrow> machine \<Rightarrow> bool" for st procs where
  open_it: "\<lbrakk>m_phase m p = Idle; inodes (m_dir m) (lk_inode (pr_lock (procs p))) = None\<rbrakk> \<Longrightarrow>
    m_step st procs m (step_open st (procs p) p m)"
| lock_it: "\<lbrakk>m_phase m p = Waiting i; m_lock m i = None\<rbrakk> \<Longrightarrow>
    m_step st procs m (step_lock st (procs p) p i m)"
| give_up: "\<lbrakk>m_phase m p = Waiting i; lock_loop attempts = Inl e\<rbrakk> \<Longrightarrow>
    m_step st procs m (end_with p (Inl e) m)"
| record_it: "\<lbrakk>m_phase m p = Holding l; le_open (pr_load (procs p)) \<noteq> Some ErrNoEnt\<rbrakk> \<Longrightarrow>
    m_step st procs m (step_record st (procs p) p l m)"
| save_it: "\<lbrakk>m_phase m p = Saving l s pc; save_rank pc \<noteq> 0;
    (\<exists>b. pc = SaveEncoded b) \<longrightarrow> inodes (m_dir m) (sv_inode (pr_save (procs p))) = None\<rbrakk> \<Longrightarrow>
    m_step st procs m (step_save st (procs p) p l s pc m)"
| return: "m_phase m p = Saving l s (SaveDone r) \<Longrightarrow>
    m_step st procs m (end_with p r m)"
| crash: "\<forall>r. m_phase m p \<noteq> Over r \<Longrightarrow> m_step st procs m (set_phase p Crashed (release p m))"

inductive m_reachable :: "store \<Rightarrow> (nat \<Rightarrow> process) \<Rightarrow> machine \<Rightarrow> machine \<Rightarrow> bool" for st procs m0 where
  start: "m_reachable st procs m0 m0"
| step: "\<lbrakk>m_reachable st procs m0 m; m_step st procs m m'\<rbrakk> \<Longrightarrow> m_reachable st procs m0 m'"

section \<open>Names\<close>

definition lock_name :: "store \<Rightarrow> string" where
  "lock_name st = store_name st @ ''.lock''"

lemma lock_path_name:
  assumes "state_name (store_path st) = Inr name"
  shows "state_name (lock_path (store_path st)) = Inr (lock_name st)"
proof -
  have f: "file_name (store_path st) = Some name" "ParentDir \<notin> set (store_path st)"
    using assms by (simp_all add: state_name_Inr)
  have "ParentDir \<notin> set (lock_path (store_path st))"
    using f in_set_butlastD by (fastforce simp: lock_path_def with_file_name_def)
  then show ?thesis
    using f by (simp add: state_name_Inr lock_name_def store_name_def) (simp add: lock_path_def)
qed

lemma lock_name_other: "lock_name st \<noteq> store_name st"
  by (simp add: lock_name_def)

lemma temp_file_last:
  assumes "state_name (store_path st) = Inr name"
  shows "is_ascii_digit (last (temp_file st ev))"
proof -
  have f: "file_name (store_path st) = Some name" using assms by (simp add: state_name_Inr)
  have "temp_name st ev = Inr (temp_file st ev)" using temp_name_other [OF assms] by blast
  then have t: "file_name (temporary_path (sv_temp_pid ev) (sv_temp_counter ev) (store_path st)) =
      Some (temp_file st ev)"
    by (simp add: temp_name_def state_name_Inr)
  have "is_ascii_digit (last (show_nat n))" for n
    using show_nat_digits [of n] by (auto simp: list_all_iff)
  moreover have "temp_file st ev = (''.'' @ (if utf8_valid name then name else ''state'') @ ''.tmp.'' @
      show_nat (unat (sv_temp_pid ev)) @ ''.'') @ show_nat (unat (sv_temp_counter ev))"
    using t f by (simp add: temporary_path_def Let_def)
  ultimately show ?thesis by (simp only: last_appendR [OF show_nat_not_Nil])
qed

lemma temp_file_not_lock:
  assumes "state_name (store_path st) = Inr name"
  shows "temp_file st ev \<noteq> lock_name st"
proof
  assume "temp_file st ev = lock_name st"
  then have "is_ascii_digit (CHR ''k'')"
    using temp_file_last [OF assms, of ev] by (simp add: lock_name_def)
  then show False by (simp add: is_ascii_digit_def byte_def)
qed

section \<open>Directories without hard links\<close>

definition wf_dir :: "directory \<Rightarrow> bool" where
  "wf_dir d =
     (ran (entries d) \<subseteq> dom (inodes d) \<and>
      (\<forall>a b i. entries d a = Some i \<and> entries d b = Some i \<longrightarrow> a = b))"

lemma wf_fresh: "\<lbrakk>wf_dir d; inodes d i = None\<rbrakk> \<Longrightarrow> entries d name \<noteq> Some i"
  by (auto simp: wf_dir_def ran_def)

lemma wf_create:
  assumes "wf_dir d" "inodes d i = None" "entries d name = None"
  shows "wf_dir (d\<lparr>entries := (entries d)(name \<mapsto> i), inodes := (inodes d)(i \<mapsto> n)\<rparr>)"
  using assms wf_fresh [OF assms(1,2)] by (auto simp: wf_dir_def ran_def)

lemma wf_set_bytes: "wf_dir d \<Longrightarrow> wf_dir (set_bytes d name bytes)"
  by (auto simp: wf_dir_def set_bytes_def entry_node_def split: option.splits)

lemma dom_unlink [simp]: "dom (inodes (unlink_inode i d)) = dom (inodes d)"
  by (cases i) (auto simp: unlink_inode_def domIff split: option.splits)

lemma wf_rename:
  assumes "wf_dir d" "from \<noteq> to"
  shows "wf_dir (rename_entry from to d)"
  using assms
  by (auto simp: wf_dir_def rename_entry_def Let_def ran_def split: if_splits)
    (blast+)?

lemma wf_remove: "wf_dir d \<Longrightarrow> wf_dir (remove_entry name d)"
  by (auto simp: wf_dir_def remove_entry_def Let_def ran_def split: if_splits)

lemma entry_node_remove:
  assumes "wf_dir d" "name \<noteq> other"
  shows "entry_node (remove_entry other d) name = entry_node d name"
proof (cases "entries d other")
  case (Some i)
  then have "entries d name \<noteq> Some i" using assms by (auto simp: wf_dir_def)
  then show ?thesis
    using Some assms(2)
    by (auto simp: entry_node_def remove_entry_def unlink_inode_def Let_def split: option.splits)
qed (use assms(2) in \<open>simp add: entry_node_def remove_entry_def unlink_inode_def cong: option.case_cong\<close>)

lemma entry_node_create:
  assumes "wf_dir d" "inodes d i = None" "name \<noteq> other"
  shows "entry_node (d\<lparr>entries := (entries d)(other \<mapsto> i), inodes := (inodes d)(i \<mapsto> n)\<rparr>) name =
    entry_node d name"
  using assms(3) wf_fresh [OF assms(1,2), of name]
  by (auto simp: entry_node_def split: option.splits)

section \<open>What is on disk\<close>

definition disk_of :: "store \<Rightarrow> directory \<Rightarrow> update_state option" where
  "disk_of st d = (case load_at st load_clean d of Inl e \<Rightarrow> None | Inr ls \<Rightarrow> Some (loaded ls))"

lemma disk_of_cong: "entry_node d (store_name st) = entry_node d' (store_name st) \<Longrightarrow> disk_of st d = disk_of st d'"
proof -
  assume e: "entry_node d (store_name st) = entry_node d' (store_name st)"
  have "load_at st load_clean d = load_at st load_clean d'"
  proof (cases "state_name (store_path st)")
    case (Inr name)
    then have "store_name st = name" using temp_name_other by blast
    with Inr e show ?thesis by (simp add: load_at_def load_clean_def)
  qed (simp add: load_at_def)
  then show ?thesis by (simp add: disk_of_def)
qed

lemma load_at_clean:
  assumes "load_at st le d = Inr ls" "le_open le \<noteq> Some ErrNoEnt"
  shows "load_at st load_clean d = Inr ls"
  using assms
  by (auto simp: load_at_def load_clean_def safe_regular_file_def and_then_Inr
      split: option.splits if_splits)

lemma disk_of_name: "disk_of st d = Some s \<Longrightarrow> state_name (store_path st) = Inr (store_name st)"
  using temp_name_other
  by (cases "state_name (store_path st)") (auto simp: disk_of_def load_at_def)

lemma disk_of_temp:
  assumes "fresh_inode ev d" "store_name st \<noteq> temp_file st ev"
  shows "disk_of st (temp_created st ev b d) = disk_of st d"
proof (rule disk_of_cong)
  show "entry_node (temp_created st ev b d) (store_name st) = entry_node d (store_name st)"
    using assms fresh_not_entry [OF assms(1), of "store_name st"]
    by (auto simp: entry_node_def temp_created_def split: option.splits)
qed

lemma disk_of_replaced:
  "\<lbrakk>save_allowed st s bytes; fresh_inode ev d; reads_states st\<rbrakk> \<Longrightarrow>
     disk_of st (state_replaced st ev bytes d) = Some s"
  by (simp add: disk_of_def load_replaced loaded_def)


section \<open>The invariant\<close>

text \<open>The state that results when the processes of the history record one after the other.\<close>

definition replay :: "(nat \<Rightarrow> process) \<Rightarrow> update_state \<Rightarrow> nat list \<Rightarrow> update_state" where
  "replay procs s0 ps =
     foldl (\<lambda>s p. fst (record_observation (pr_clock (procs p)) (pr_observation (procs p)) s)) s0 ps"

definition holds :: "store \<Rightarrow> machine \<Rightarrow> nat \<Rightarrow> lease \<Rightarrow> bool" where
  "holds st m p l =
     (entries (m_dir m) (lock_name st) = Some (lease_inode l) \<and> m_lock m (lease_inode l) = Some p)"

definition save_pending :: "store \<Rightarrow> save_events \<Rightarrow> update_state \<Rightarrow> directory \<Rightarrow> save_pc \<Rightarrow> bool" where
  "save_pending st ev s d pc =
     (\<exists>d0. save_inv st ev s d0 (d, pc) \<and> (2 < save_rank pc \<and> save_rank pc < 8 \<longrightarrow> fresh_inode ev d0))"

fun saving_ok :: "store \<Rightarrow> (nat \<Rightarrow> process) \<Rightarrow> update_state \<Rightarrow> directory \<Rightarrow> nat list \<Rightarrow> nat \<Rightarrow>
    update_state \<Rightarrow> save_pc \<Rightarrow> bool" where
  "saving_ok st procs s0 d hist p s Renamed = (p \<in> set hist)"
| "saving_ok st procs s0 d hist p s (CleanUp e) = True"
| "saving_ok st procs s0 d hist p s (SaveDone r) = (r = Inr () \<longrightarrow> p \<in> set hist)"
| "saving_ok st procs s0 d hist p s pc =
     (p \<notin> set hist \<and> s = replay procs s0 (hist @ [p]) \<and> save_pending st (pr_save (procs p)) s d pc)"

fun phase_ok :: "store \<Rightarrow> (nat \<Rightarrow> process) \<Rightarrow> update_state \<Rightarrow> machine \<Rightarrow> nat \<Rightarrow> phase \<Rightarrow> bool" where
  "phase_ok st procs s0 m p Idle = (p \<notin> set (m_history m))"
| "phase_ok st procs s0 m p (Waiting i) =
     (p \<notin> set (m_history m) \<and> entries (m_dir m) (lock_name st) = Some i)"
| "phase_ok st procs s0 m p (Holding l) = (p \<notin> set (m_history m) \<and> holds st m p l)"
| "phase_ok st procs s0 m p (Saving l s pc) =
     (holds st m p l \<and> saving_ok st procs s0 (m_dir m) (m_history m) p s pc)"
| "phase_ok st procs s0 m p (Over r) = (r = Inr () \<longrightarrow> p \<in> set (m_history m))"
| "phase_ok st procs s0 m p Crashed = True"

definition m_inv :: "store \<Rightarrow> (nat \<Rightarrow> process) \<Rightarrow> update_state \<Rightarrow> machine \<Rightarrow> bool" where
  "m_inv st procs s0 m =
     (wf_dir (m_dir m) \<and> disk_of st (m_dir m) = Some (replay procs s0 (m_history m)) \<and>
      distinct (m_history m) \<and> (\<forall>p. phase_ok st procs s0 m p (m_phase m p)))"

lemma holds_unique: "\<lbrakk>holds st m p l; holds st m q k\<rbrakk> \<Longrightarrow> p = q"
  by (auto simp: holds_def)

text \<open>What a step of one process leaves of the others.\<close>

definition keeps_lock :: "store \<Rightarrow> nat \<Rightarrow> machine \<Rightarrow> machine \<Rightarrow> bool" where
  "keeps_lock st p m m' =
     ((\<forall>i. entries (m_dir m) (lock_name st) = Some i \<longrightarrow> entries (m_dir m') (lock_name st) = Some i) \<and>
      (\<forall>q i. q \<noteq> p \<longrightarrow> m_lock m i = Some q \<longrightarrow> m_lock m' i = Some q) \<and>
      (\<forall>q. q \<noteq> p \<longrightarrow> m_phase m' q = m_phase m q) \<and>
      (\<forall>q. q \<noteq> p \<longrightarrow> (q \<in> set (m_history m') \<longleftrightarrow> q \<in> set (m_history m))))"

lemma phase_ok_frame:
  assumes "keeps_lock st p m m'" "q \<noteq> p" "phase_ok st procs s0 m q (m_phase m q)"
    and "m_dir m' = m_dir m \<and> m_history m' = m_history m \<or> (\<forall>l s pc. m_phase m q \<noteq> Saving l s pc)"
  shows "phase_ok st procs s0 m' q (m_phase m' q)"
  using assms by (cases "m_phase m q") (auto simp: keeps_lock_def holds_def)

lemma m_inv_move:
  assumes "m_inv st procs s0 m" "keeps_lock st p m m'"
    and "wf_dir (m_dir m')" "disk_of st (m_dir m') = Some (replay procs s0 (m_history m'))"
    and "distinct (m_history m')" "phase_ok st procs s0 m' p (m_phase m' p)"
    and "\<And>q. q \<noteq> p \<Longrightarrow>
      m_dir m' = m_dir m \<and> m_history m' = m_history m \<or> (\<forall>l s pc. m_phase m q \<noteq> Saving l s pc)"
  shows "m_inv st procs s0 m'"
proof -
  have "phase_ok st procs s0 m' q (m_phase m' q)" for q
  proof (cases "q = p")
    case False
    have "phase_ok st procs s0 m q (m_phase m q)" using assms(1) by (simp add: m_inv_def)
    then show ?thesis using phase_ok_frame [OF assms(2) False _ assms(7) [OF False]] by blast
  qed (use assms(6) in simp)
  then show ?thesis using assms by (simp add: m_inv_def)
qed

lemma m_inv_phase: "m_inv st procs s0 m \<Longrightarrow> m_phase m p = ph \<Longrightarrow> phase_ok st procs s0 m p ph"
  by (auto simp: m_inv_def)

text \<open>A process that only moves on, or ends.\<close>

lemma m_inv_set_phase:
  assumes "m_inv st procs s0 m" "phase_ok st procs s0 m p ph"
  shows "m_inv st procs s0 (set_phase p ph m)"
proof (rule m_inv_move [OF assms(1), of p])
  have "phase_ok st procs s0 (set_phase p ph m) p ph = phase_ok st procs s0 m p ph"
    by (cases ph) (simp_all add: set_phase_def holds_def)
  then show "phase_ok st procs s0 (set_phase p ph m) p (m_phase (set_phase p ph m) p)"
    using assms(2) by (simp add: set_phase_def)
qed (use assms(1) in \<open>simp_all add: set_phase_def keeps_lock_def m_inv_def\<close>)

lemma m_inv_leave:
  assumes "m_inv st procs s0 m" "phase_ok st procs s0 m p ph" "ph = Crashed \<or> (\<exists>r. ph = Over r)"
  shows "m_inv st procs s0 (set_phase p ph (release p m))"
proof (rule m_inv_move [OF assms(1), of p])
  have "phase_ok st procs s0 (set_phase p ph (release p m)) p ph = phase_ok st procs s0 m p ph"
    using assms(3) by (auto simp: set_phase_def release_def)
  then show "phase_ok st procs s0 (set_phase p ph (release p m)) p
      (m_phase (set_phase p ph (release p m)) p)"
    using assms(2) by (simp add: set_phase_def)
qed (use assms(1) in \<open>simp_all add: set_phase_def release_def keeps_lock_def m_inv_def\<close>)

lemma m_inv_end: "\<lbrakk>m_inv st procs s0 m; r = Inr () \<longrightarrow> p \<in> set (m_history m)\<rbrakk> \<Longrightarrow>
    m_inv st procs s0 (end_with p r m)"
  unfolding end_with_def by (rule m_inv_leave) simp_all


section \<open>Every step keeps it\<close>

lemma open_lock_cases:
  assumes "open_lock euid lk path d = (d', r)" "state_name path = Inr name"
  shows "(d' = d \<or> entry_node d name = None \<and>
            d' = d\<lparr>entries := (entries d)(name \<mapsto> lk_inode lk),
                   inodes := (inodes d)(lk_inode lk \<mapsto> new_private_node euid)\<rparr>) \<and>
         (\<forall>i. r = Inr i \<longrightarrow> entries d' name = Some i)"
  using assms
  by (auto simp: open_lock_def Let_def and_then_Inr entry_node_def
      split: sum.splits option.splits if_splits)

lemma wf_entry_node: "wf_dir d \<Longrightarrow> entry_node d name = None \<longleftrightarrow> entries d name = None"
  by (auto simp: wf_dir_def entry_node_def ran_def split: option.splits)

lemma m_inv_new_lock:
  assumes inv: "m_inv st procs s0 m" and new: "entry_node (m_dir m) (lock_name st) = None"
    and fresh: "inodes (m_dir m) i = None"
  shows "m_inv st procs s0 (m\<lparr>m_dir := (m_dir m)\<lparr>entries := (entries (m_dir m))(lock_name st \<mapsto> i),
    inodes := (inodes (m_dir m))(i \<mapsto> n)\<rparr>\<rparr>)" (is "m_inv _ _ _ ?m")
proof -
  have wf: "wf_dir (m_dir m)" using inv by (simp add: m_inv_def)
  then have none: "entries (m_dir m) (lock_name st) = None" using new by (simp add: wf_entry_node)
  have ok: "phase_ok st procs s0 m q (m_phase m q)" for q using inv by (simp add: m_inv_def)
  have "disk_of st (m_dir ?m) = disk_of st (m_dir m)"
    using entry_node_create [OF wf fresh lock_name_other [symmetric]] by (intro disk_of_cong) simp
  moreover have "phase_ok st procs s0 ?m q (m_phase ?m q)" for q
    using ok [of q] none by (cases "m_phase m q") (auto simp: holds_def)
  ultimately show ?thesis
    using inv wf_create [OF wf fresh none] by (simp add: m_inv_def)
qed

lemma m_inv_open:
  assumes inv: "m_inv st procs s0 m" and idle: "m_phase m p = Idle"
    and fresh: "inodes (m_dir m) (lk_inode (pr_lock (procs p))) = None"
    and name: "state_name (store_path st) = Inr name"
  shows "m_inv st procs s0 (step_open st (procs p) p m)"
proof -
  obtain d r where o: "open_lock (store_euid st) (pr_lock (procs p)) (lock_path (store_path st)) (m_dir m) = (d, r)"
    by fastforce
  note c = open_lock_cases [OF o lock_path_name [OF name]]
  have inv': "m_inv st procs s0 (m\<lparr>m_dir := d\<rparr>)"
    using c inv m_inv_new_lock [OF inv _ fresh] by auto
  have new: "p \<notin> set (m_history m)" using m_inv_phase [OF inv idle] by simp
  show ?thesis
  proof (cases "pr_parent (procs p)")
    case (Inl e)
    then show ?thesis using m_inv_end [OF inv] by (simp add: step_open_def)
  next
    case opened: (Inr u)
    show ?thesis
    proof (cases r)
      case (Inl e)
      then show ?thesis using o opened m_inv_end [OF inv'] by (simp add: step_open_def)
    next
      case (Inr i)
      then show ?thesis
        using o c new opened m_inv_set_phase [OF inv', of p "Waiting i"] by (simp add: step_open_def)
    qed
  qed
qed

lemma m_inv_lock:
  assumes inv: "m_inv st procs s0 m" and wait: "m_phase m p = Waiting i" and free: "m_lock m i = None"
  shows "m_inv st procs s0 (step_lock st (procs p) p i m)"
proof -
  let ?m = "m\<lparr>m_lock := (m_lock m)(i \<mapsto> p)\<rparr>"
  have w: "p \<notin> set (m_history m)" "entries (m_dir m) (lock_name st) = Some i"
    using m_inv_phase [OF inv wait] by simp_all
  have inv': "m_inv st procs s0 ?m"
  proof (rule m_inv_move [OF inv, of p])
    show "keeps_lock st p m ?m" using free by (auto simp: keeps_lock_def)
    show "phase_ok st procs s0 ?m p (m_phase ?m p)" using wait w by simp
  qed (use inv in \<open>simp_all add: m_inv_def\<close>)
  show ?thesis
  proof (cases "verify_lock_entry (store_euid st) (pr_verify (procs p)) (m_dir m)
      (lock_path (store_path st)) i")
    case (Inl e)
    then show ?thesis using m_inv_end [OF inv'] by (simp add: step_lock_def Let_def)
  next
    case (Inr u)
    then show ?thesis
      using w m_inv_set_phase [OF inv', of p] by (simp add: step_lock_def Let_def holds_def)
  qed
qed

lemma m_inv_record:
  assumes inv: "m_inv st procs s0 m" and hold: "m_phase m p = Holding l"
    and present: "le_open (pr_load (procs p)) \<noteq> Some ErrNoEnt"
  shows "m_inv st procs s0 (step_record st (procs p) p l m)"
proof (cases "load_at st (pr_load (procs p)) (m_dir m)")
  case (Inl e)
  then show ?thesis using m_inv_end [OF inv] by (simp add: step_record_def)
next
  case (Inr ls)
  have h: "p \<notin> set (m_history m)" "holds st m p l" using m_inv_phase [OF inv hold] by simp_all
  have "disk_of st (m_dir m) = Some (loaded ls)"
    using load_at_clean [OF Inr present] by (simp add: disk_of_def)
  then have old: "loaded ls = replay procs s0 (m_history m)" using inv by (simp add: m_inv_def)
  obtain s r where r: "record_observation (pr_clock (procs p)) (pr_observation (procs p)) (loaded ls) = (s, r)"
    by fastforce
  then have s: "s = replay procs s0 (m_history m @ [p])" using old by (simp add: replay_def)
  show ?thesis
  proof (cases r)
    case Inl
    then show ?thesis using Inr r m_inv_end [OF inv] by (simp add: step_record_def)
  next
    case (Inr u)
    have "save_pending st (pr_save (procs p)) s (m_dir m) SaveStart" by (auto simp: save_pending_def)
    then show ?thesis
      using \<open>load_at _ _ _ = Inr ls\<close> Inr r h s m_inv_set_phase [OF inv, of p] by (simp add: step_record_def)
  qed
qed


text \<open>One step of a save.  It leaves the lock's entry, and the state on disk until the renaming.\<close>

lemma entries_remove [simp]: "entries (remove_entry name d) = (entries d)(name := None)"
  by (simp add: remove_entry_def Let_def)

lemma entries_set_bytes [simp]: "entries (set_bytes d name bytes) = entries d"
  by (simp add: set_bytes_def split: option.splits)

lemma save_step_lock:
  assumes "save_step st l ev s (d, pc) = (d', pc')" "lock_name st \<noteq> temp_file st ev"
  shows "entries d (lock_name st) = Some i \<Longrightarrow> entries d' (lock_name st) = Some i"
  using assms lock_name_other [of st]
  by (cases pc) (auto simp: rename_entry_def Let_def split: option.splits if_splits)

lemma save_step_wf:
  assumes "save_step st l ev s (d, pc) = (d', pc')" "wf_dir d" "temp_file st ev \<noteq> store_name st"
    and "(\<exists>b. pc = SaveEncoded b) \<longrightarrow> inodes d (sv_inode ev) = None"
  shows "wf_dir d'"
  using assms
  by (cases pc) (auto simp: wf_create wf_rename wf_remove wf_set_bytes split: option.splits if_splits)

lemma wf_fresh_inode: "\<lbrakk>wf_dir d; inodes d (sv_inode ev) = None\<rbrakk> \<Longrightarrow> fresh_inode ev d"
  by (simp add: wf_dir_def fresh_inode_def)

lemma save_step_pending:
  assumes "save_step st l ev s (d, pc) = (d', pc')" "save_pending st ev s d pc" "wf_dir d"
    and "(\<exists>b. pc = SaveEncoded b) \<longrightarrow> inodes d (sv_inode ev) = None" "2 < save_rank pc"
  shows "save_pending st ev s d' pc'"
proof -
  obtain d0 where d0: "save_inv st ev s d0 (d, pc)" "save_rank pc < 8 \<longrightarrow> fresh_inode ev d0"
    using assms(2,5) by (auto simp: save_pending_def)
  show ?thesis
  proof (cases "pc = SaveStart")
    case True
    then have "save_inv st ev s d (d', pc')" "save_rank pc' \<le> 2 \<or> 8 \<le> save_rank pc'"
      using assms(1) save_start_inv [of st l ev s d d' pc']
      by (auto split: if_splits sum.splits option.splits)
    then show ?thesis by (auto simp: save_pending_def)
  next
    case False
    have "fresh_inode ev d0"
    proof (cases "\<exists>b. pc = SaveEncoded b")
      case True
      then show ?thesis using d0(1) assms(3,4) wf_fresh_inode by auto
    next
      case not_encoded: False
      then have "save_rank pc < 8" using False by (cases pc) auto
      then show ?thesis using d0(2) by simp
    qed
    then show ?thesis using save_step_inv [OF assms(1) d0(1)] by (auto simp: save_pending_def)
  qed
qed

text \<open>What the step makes of the state on disk.\<close>

lemma save_step_disk:
  assumes step: "save_step st l ev s (d, pc) = (d', pc')" and pend: "2 < save_rank pc \<longrightarrow> save_pending st ev s d pc"
    and wf: "wf_dir d" and inode: "(\<exists>b. pc = SaveEncoded b) \<longrightarrow> inodes d (sv_inode ev) = None"
    and name: "state_name (store_path st) = Inr (store_name st)" and reads: "reads_states st"
  shows "disk_of st d' = (if pc' = Renamed then Some s else disk_of st d)"
proof -
  have ne: "store_name st \<noteq> temp_file st ev" using temp_name_other [OF name, of ev] by auto
  show ?thesis
  proof (cases pc)
    case (SaveEncoded b)
    then have "fresh_inode ev d" using wf inode wf_fresh_inode by blast
    then show ?thesis
      using step SaveEncoded disk_of_temp [OF _ ne, of d "[]"]
      by (auto simp: temp_created_def new_private_node_def split: option.splits if_splits)
  next
    case (TempCreated b)
    then obtain d0 where "d = temp_created st ev [] d0" "fresh_inode ev d0"
      using pend by (auto simp: save_pending_def)
    then show ?thesis
      using step TempCreated disk_of_temp [OF _ ne, of d0] by (auto simp: set_bytes_temp split: option.splits)
  next
    case TargetChecked
    then obtain d0 b where "d = temp_created st ev b d0" "fresh_inode ev d0" "save_allowed st s b"
      using pend by (auto simp: save_pending_def)
    then show ?thesis
      using step TargetChecked disk_of_replaced [of st s b ev d0] reads
      by (auto simp: state_replaced_def split: option.splits)
  next
    case (CleanUp e)
    then show ?thesis
      using step disk_of_cong [OF entry_node_remove [OF wf ne]] by (auto split: if_splits)
  qed (use step in \<open>auto split: option.splits sum.splits if_splits\<close>)
qed

lemma m_inv_save:
  assumes inv: "m_inv st procs s0 m" and saving: "m_phase m p = Saving l s pc" and more: "save_rank pc \<noteq> 0"
    and inode: "(\<exists>b. pc = SaveEncoded b) \<longrightarrow> inodes (m_dir m) (sv_inode (pr_save (procs p))) = None"
    and name: "state_name (store_path st) = Inr (store_name st)" and reads: "reads_states st"
  shows "m_inv st procs s0 (step_save st (procs p) p l s pc m)"
proof -
  let ?ev = "pr_save (procs p)" and ?m = "step_save st (procs p) p l s pc m"
  obtain d pc' where step: "save_step st l ?ev s (m_dir m, pc) = (d, pc')" by fastforce
  then have m': "m_dir ?m = d" "m_lock ?m = m_lock m" "m_phase ?m = (m_phase m)(p := Saving l s pc')"
      "m_history ?m = m_history m @ (if pc' = Renamed then [p] else [])"
    by (simp_all add: step_save_def set_phase_def)
  have wf: "wf_dir (m_dir m)" using inv by (simp add: m_inv_def)
  have ok: "holds st m p l" "saving_ok st procs s0 (m_dir m) (m_history m) p s pc"
    using m_inv_phase [OF inv saving] by simp_all
  have pend: "2 < save_rank pc \<longrightarrow> p \<notin> set (m_history m) \<and> s = replay procs s0 (m_history m @ [p]) \<and>
      save_pending st ?ev s (m_dir m) pc"
    using ok(2) by (cases pc) auto
  have renamed: "pc' = Renamed \<Longrightarrow> pc = TargetChecked"
    using step by (cases pc) (auto split: option.splits sum.splits if_splits)
  have names: "temp_file st ?ev \<noteq> store_name st" "lock_name st \<noteq> temp_file st ?ev"
    using temp_name_other [OF name, of ?ev] temp_file_not_lock [OF name, of ?ev] by auto
  have hold': "holds st ?m p l"
    using ok(1) save_step_lock [OF step names(2)] m' by (simp add: holds_def)
  have after: "saving_ok st procs s0 d (m_history ?m) p s pc'"
  proof (cases "2 < save_rank pc'")
    case True
    then have "2 < save_rank pc" using save_step_rank [of st l ?ev s "m_dir m" pc] step by simp
    then show ?thesis
      using True pend save_step_pending [OF step _ wf inode] m' by (cases pc') auto
  next
    case False
    have "pc' = SaveDone (Inr ()) \<Longrightarrow> pc = Renamed"
      using step more by (cases pc) (auto split: option.splits sum.splits if_splits)
    then show ?thesis using False ok(2) m' by (cases pc') auto
  qed
  show ?thesis
  proof (rule m_inv_move [OF inv, of p])
    show "keeps_lock st p m ?m"
      using save_step_lock [OF step names(2)] m' by (auto simp: keeps_lock_def)
    show "wf_dir (m_dir ?m)" using save_step_wf [OF step wf names(1) inode] m' by simp
    show "disk_of st (m_dir ?m) = Some (replay procs s0 (m_history ?m))"
      using save_step_disk [OF step _ wf inode name reads] pend renamed inv m' by (auto simp: m_inv_def)
    show "distinct (m_history ?m)" using pend renamed inv m' by (auto simp: m_inv_def)
    show "phase_ok st procs s0 ?m p (m_phase ?m p)" using hold' after m' by simp
  next
    fix q assume "q \<noteq> p"
    then show "m_dir ?m = m_dir m \<and> m_history ?m = m_history m \<or> (\<forall>l s pc. m_phase m q \<noteq> Saving l s pc)"
      using m_inv_phase [OF inv, of q] holds_unique [OF ok(1)] by fastforce
  qed
qed

lemma m_inv_step:
  assumes inv: "m_inv st procs s0 m" and step: "m_step st procs m m'" and reads: "reads_states st"
  shows "m_inv st procs s0 m'"
proof -
  have name: "state_name (store_path st) = Inr (store_name st)"
    using inv by (auto simp: m_inv_def intro: disk_of_name)
  show ?thesis
    using step
  proof cases
    case (return p l s r)
    then show ?thesis using m_inv_phase [OF inv return(2)] m_inv_end [OF inv, of r p] by simp
  next
    case (crash p)
    then show ?thesis using m_inv_leave [OF inv, of p Crashed] by simp
  qed (use inv name reads m_inv_open m_inv_lock m_inv_end m_inv_record m_inv_save in \<open>simp_all\<close>)
qed

text \<open>The machine before any of the processes starts.\<close>

definition m_initial :: "directory \<Rightarrow> machine" where
  "m_initial d = \<lparr>m_dir = d, m_lock = (\<lambda>_. None), m_phase = (\<lambda>_. Idle), m_history = []\<rparr>"

lemma m_inv_initial: "\<lbrakk>wf_dir d; disk_of st d = Some s0\<rbrakk> \<Longrightarrow> m_inv st procs s0 (m_initial d)"
  by (simp add: m_inv_def m_initial_def replay_def)

lemma m_inv_reachable:
  assumes "m_reachable st procs (m_initial d) m" "wf_dir d" "disk_of st d = Some s0" "reads_states st"
  shows "m_inv st procs s0 m"
  using assms(1)
proof induction
  case start
  show ?case using assms(2,3) by (rule m_inv_initial)
next
  case (step m m')
  then show ?case using m_inv_step assms(4) by blast
qed

section \<open>A run\<close>

text \<open>The steps of a save are steps of its process.\<close>

lemma save_run:
  assumes "m_reachable st procs m0 m" "m_phase m p = Saving l s SaveStart"
    and "fresh_inode (pr_save (procs p)) (m_dir m)"
    and "pc = snd ((save_step st l (pr_save (procs p)) s ^^ n) (m_dir m, SaveStart))"
  shows "\<exists>m'. m_reachable st procs m0 m' \<and>
    (save_step st l (pr_save (procs p)) s ^^ n) (m_dir m, SaveStart) = (m_dir m', pc) \<and>
    m_phase m' p = Saving l s pc"
  using assms(4)
proof (induction n arbitrary: pc)
  case 0
  then show ?case using assms(1,2) by (intro exI [of _ m]) simp
next
  case (Suc n)
  let ?ev = "pr_save (procs p)"
  obtain m' pc' where m': "m_reachable st procs m0 m'" "m_phase m' p = Saving l s pc'"
      "(save_step st l ?ev s ^^ n) (m_dir m, SaveStart) = (m_dir m', pc')"
    using Suc.IH [OF refl] by blast
  show ?case
  proof (cases "save_rank pc' = 0")
    case True
    then obtain r where "pc' = SaveDone r" by (auto simp: save_rank_0)
    then show ?thesis using m' Suc.prems by auto
  next
    case False
    have "save_inv st ?ev s (m_dir m) (m_dir m', pc')"
      using save_steps_inv [OF assms(3), where st = st and l = l and state = s and n = n] m'(3) by simp
    then have "(\<exists>b. pc' = SaveEncoded b) \<longrightarrow> inodes (m_dir m') (sv_inode ?ev) = None"
      using assms(3) by (auto simp: fresh_inode_def)
    then have "m_reachable st procs m0 (step_save st (procs p) p l s pc' m')"
      using m_reachable.step [OF m'(1) save_it [OF m'(2) False]] by blast
    then show ?thesis
      using m'(3) Suc.prems
      by (intro exI [of _ "step_save st (procs p) p l s pc' m'"])
        (auto simp: step_save_def set_phase_def split: prod.splits)
  qed
qed

lemma run_to_the_end:
  assumes "m_reachable st procs m0 m" "m_phase m p = Saving l s SaveStart"
    and "fresh_inode (pr_save (procs p)) (m_dir m)"
    and "save_with_lease st l (pr_save (procs p)) s (m_dir m) = (d, SaveDone r)"
  shows "\<exists>m'. m_reachable st procs m0 m' \<and> m_dir m' = d \<and> m_phase m' p = Over r"
proof -
  obtain m' where m': "m_reachable st procs m0 m'" "m_dir m' = d" "m_phase m' p = Saving l s (SaveDone r)"
    using save_run [OF assms(1-3), where pc = "SaveDone r" and n = 9] assms(4) by (auto simp: save_with_lease_def)
  from m_reachable.step [OF m'(1) return [OF m'(3)]] m'(2)
  show ?thesis by (intro exI [of _ "end_with p r m'"]) (simp add: end_with_def set_phase_def release_def)
qed

text \<open>User 7 has no file yet.  The store writes the default state and the state after one
  observation.\<close>

definition example_next :: update_state where
  "example_next = fst (record_observation (\<lambda>_. 7) (example_observation 1) default_state)"

definition example_recorder :: store where
  "example_recorder = example_store
     \<lparr>store_decode := (\<lambda>bytes. if bytes = ''{}'' then Some default_state
        else if bytes = ''{1}'' then Some example_next else None),
      store_encode := (\<lambda>state. if state = default_state then Some ''{}''
        else if state = example_next then Some ''{1}'' else None)\<rparr>"

definition example_process :: process where
  "example_process =
     \<lparr>pr_parent = Inr (), pr_observation = example_observation 1, pr_clock = (\<lambda>_. 7),
      pr_lock = \<lparr>lk_check = no_failures, lk_open = None, lk_inode = 3, lk_meta = None\<rparr>,
      pr_verify = no_failures, pr_load = load_clean, pr_save = example_save\<rparr>"

definition example_empty :: directory where
  "example_empty = \<lparr>entries = Map.empty, inodes = Map.empty\<rparr>"

lemma example_recorder_reads: "reads_states example_recorder"
  by (simp add: reads_states_def example_recorder_def example_store_def reject_duplicate_json_keys_def
      ensure_def)

lemma example_recorder_names:
  "temp_file example_recorder ev = temp_file example_store ev" "store_name example_recorder = ''s''"
  "store_path example_recorder = [RootDir, Normal ''s'']"
  "lock_path [RootDir, Normal ''s''] = [RootDir, Normal ''s.lock'']"
  "state_name [RootDir, Normal ''s''] = Inr ''s''"
  "state_name [RootDir, Normal ''s.lock''] = Inr ''s.lock''"
  "store_euid example_recorder = 7"
  by (simp_all add: temp_file_def temp_name_def store_name_def lock_path_def with_file_name_def
      state_name_def file_name_def ok_or_def example_recorder_def example_store_def)

lemma example_disk: "wf_dir example_empty" "disk_of example_recorder example_empty = Some default_state"
  by (simp_all add: wf_dir_def example_empty_def disk_of_def load_at_def example_recorder_names
      load_clean_def entry_node_def loaded_def)

lemma example_opened:
  "step_open example_recorder example_process 0 (m_initial example_empty) =
     \<lparr>m_dir = example_directory, m_lock = (\<lambda>_. None), m_phase = (\<lambda>_. Idle)(0 := Waiting 3), m_history = []\<rparr>"
  by (simp add: step_open_def open_lock_def example_recorder_names example_process_def m_initial_def
      check_existing_entry_def no_failures_def entry_node_def example_empty_def safe_regular_file_def
      new_private_node_def private_mode_def set_phase_def example_directory_def Let_def)

lemma example_locked:
  "step_lock example_recorder example_process 0 3
     \<lparr>m_dir = example_directory, m_lock = (\<lambda>_. None), m_phase = (\<lambda>_. Idle)(0 := Waiting 3), m_history = []\<rparr> =
     \<lparr>m_dir = example_directory, m_lock = [3 \<mapsto> 0], m_phase = (\<lambda>_. Idle)(0 := Holding example_lease),
      m_history = []\<rparr>"
  by (simp add: step_lock_def example_recorder_names example_process_def example_lock
      example_directory_def set_phase_def example_lease_def)

lemma example_recorded:
  "record_observation (\<lambda>_. 7) (example_observation 1) default_state = (example_next, Inr ()) \<and>
     state_validate example_next = Inr ()"
proof -
  have "recording_time (\<lambda>_. 7) (example_observation 1) \<noteq> 0" "observed_at (example_observation 1) = 0"
    by (simp_all add: recording_time_def example_observation_def)
  then have "\<exists>s'. record_observation (\<lambda>_. 7) (example_observation 1) default_state = (s', Inr ()) \<and> state_ok s'"
    using record_total [OF default_state_ok, where clock = "\<lambda>_. 7" and ob = "example_observation 1"]
      example_observation_valid [of 7 1] by auto
  then show ?thesis by (auto simp: example_next_def state_ok_def)
qed

lemma example_record_step:
  "step_record example_recorder example_process 0 example_lease
     \<lparr>m_dir = example_directory, m_lock = [3 \<mapsto> 0], m_phase = (\<lambda>_. Idle)(0 := Holding example_lease),
      m_history = []\<rparr> =
     \<lparr>m_dir = example_directory, m_lock = [3 \<mapsto> 0],
      m_phase = (\<lambda>_. Idle)(0 := Saving example_lease example_next SaveStart), m_history = []\<rparr>"
  by (simp add: step_record_def load_at_def example_recorder_names example_process_def load_clean_def
      entry_node_def example_directory_def loaded_def example_recorded set_phase_def)

lemma example_saving:
  "\<exists>m l s. m_reachable example_recorder (\<lambda>_. example_process) (m_initial example_empty) m \<and>
     m_phase m 0 = Saving l s SaveStart \<and> m_dir m = example_directory \<and> l = example_lease \<and> s = example_next"
proof -
  let ?reach = "m_reachable example_recorder (\<lambda>_. example_process) (m_initial example_empty)"
  have "?reach (step_open example_recorder example_process 0 (m_initial example_empty))"
    by (rule m_reachable.step [OF m_reachable.start open_it])
      (simp_all add: m_initial_def example_empty_def)
  note 1 = this [unfolded example_opened]
  have "?reach (step_lock example_recorder example_process 0 3
     \<lparr>m_dir = example_directory, m_lock = (\<lambda>_. None), m_phase = (\<lambda>_. Idle)(0 := Waiting 3), m_history = []\<rparr>)"
    by (rule m_reachable.step [OF 1 lock_it]) simp_all
  note 2 = this [unfolded example_locked]
  have "?reach (step_record example_recorder example_process 0 example_lease
     \<lparr>m_dir = example_directory, m_lock = [3 \<mapsto> 0], m_phase = (\<lambda>_. Idle)(0 := Holding example_lease),
      m_history = []\<rparr>)"
    by (rule m_reachable.step [OF 2 record_it]) (simp_all add: example_process_def load_clean_def)
  note 3 = this [unfolded example_record_step]
  show ?thesis by (intro exI conjI) (rule 3, simp_all)
qed

lemma example_process_ends:
  "\<exists>m. m_reachable example_recorder (\<lambda>_. example_process) (m_initial example_empty) m \<and>
     m_phase m 0 = Over (Inr ())"
proof -
  obtain m where m: "m_reachable example_recorder (\<lambda>_. example_process) (m_initial example_empty) m"
      "m_phase m 0 = Saving example_lease example_next SaveStart" "m_dir m = example_directory"
    using example_saving by blast
  have "state_validate example_next = Inr ()" "store_encode example_recorder example_next \<noteq> None"
    using example_recorded
    by (auto simp: example_recorder_def)
  then obtain bytes where "store_encode example_recorder example_next = Some bytes" "length bytes \<le> 3"
    by (auto simp: example_recorder_def split: if_splits)
  then obtain d where "save_with_lease example_recorder example_lease example_save example_next
      example_directory = (d, SaveDone (Inr ()))"
    using example_saved [of example_recorder example_next bytes] \<open>state_validate example_next = Inr ()\<close>
    by (auto simp: example_recorder_names)
  then show ?thesis
    using run_to_the_end [OF m(1,2)] m(3) example_fresh by (fastforce simp: example_process_def)
qed

section \<open>Properties\<close>

text \<open>C4: whatever the order of the steps of the processes, whatever fails and whichever of them
  die, the state on disk is the initial one with the observations of the processes in the history
  recorded one after the other, each once, and every process that reports success is among them: no
  update is lost and none is half written.\<close>

theorem no_update_is_lost:
  assumes "m_reachable st procs (m_initial d) m" "wf_dir d" "disk_of st d = Some s0" "reads_states st"
  shows "\<exists>ps. distinct ps \<and> disk_of st (m_dir m) = Some (replay procs s0 ps) \<and>
    (\<forall>p. m_phase m p = Over (Inr ()) \<longrightarrow> p \<in> set ps)"
proof -
  have inv: "m_inv st procs s0 m" using m_inv_reachable assms by blast
  then have "p \<in> set (m_history m)" if "m_phase m p = Over (Inr ())" for p
    using m_inv_phase [OF inv that] by simp
  then show ?thesis using inv by (auto simp: m_inv_def)
qed

text \<open>C31: at most one process at a time reads, changes and replaces the state.\<close>

theorem state_lock_is_exclusive:
  assumes "m_reachable st procs (m_initial d) m" "wf_dir d" "disk_of st d = Some s0" "reads_states st"
    and "m_phase m p = Holding l \<or> (\<exists>s pc. m_phase m p = Saving l s pc)"
    and "m_phase m q = Holding k \<or> (\<exists>s pc. m_phase m q = Saving k s pc)"
  shows "p = q"
proof -
  have inv: "m_inv st procs s0 m" using m_inv_reachable assms by blast
  show ?thesis
    using assms(5,6) m_inv_phase [OF inv, of p] m_inv_phase [OF inv, of q] holds_unique by fastforce
qed

theorem no_update_is_lost_witness:
  "\<exists>m. m_reachable example_recorder (\<lambda>_. example_process) (m_initial example_empty) m \<and>
     m_phase m 0 = Over (Inr ()) \<and>
     (\<exists>ps. distinct ps \<and> 0 \<in> set ps \<and>
        disk_of example_recorder (m_dir m) = Some (replay (\<lambda>_. example_process) default_state ps))"
proof -
  obtain m where m: "m_reachable example_recorder (\<lambda>_. example_process) (m_initial example_empty) m"
      "m_phase m 0 = Over (Inr ())"
    using example_process_ends by blast
  show ?thesis
    using no_update_is_lost [OF m(1) example_disk example_recorder_reads] m by blast
qed

theorem state_lock_is_exclusive_witness:
  "\<exists>m l s. m_reachable example_recorder (\<lambda>_. example_process) (m_initial example_empty) m \<and>
     m_phase m 0 = Saving l s SaveStart \<and>
     (\<forall>q k. m_phase m q = Holding k \<longrightarrow> q = 0)"
proof -
  obtain m l s where m: "m_reachable example_recorder (\<lambda>_. example_process) (m_initial example_empty) m"
      "m_phase m 0 = Saving l s SaveStart"
    using example_saving by blast
  have "q = 0" if "m_phase m q = Holding k" for q k
    by (rule state_lock_is_exclusive [OF m(1) example_disk example_recorder_reads, of q k 0 l])
      (use m(2) that in auto)
  with m show ?thesis by blast
qed

end
