(* ===== verification/Host_Calls.thy ===== *)
theory Host_Calls
  imports Paths Update_State Arming
begin

text \<open>
  The operating system as the launcher's checks meet it: every call may be answered in any way,
  and differently each time.  Calls are numbered in the order they are made, and what a call
  returns is a function of its number.
\<close>

section \<open>Sequences of calls\<close>

type_synonym ('e, 'a) io = "nat \<Rightarrow> nat \<times> ('e, 'a) result"

definition io_return :: "'a \<Rightarrow> ('e, 'a) io" where
  "io_return x = (\<lambda>t. (t, Inr x))"

definition io_fail :: "'e \<Rightarrow> ('e, 'a) io" where
  "io_fail e = (\<lambda>t. (t, Inl e))"

definition io_of :: "('e, 'a) result \<Rightarrow> ('e, 'a) io" where
  "io_of r = (\<lambda>t. (t, r))"

text \<open>The question mark operator.\<close>

definition io_then :: "('e, 'a) io \<Rightarrow> ('a \<Rightarrow> ('e, 'b) io) \<Rightarrow> ('e, 'b) io" where
  "io_then m k = (\<lambda>t. case m t of (t', Inl e) \<Rightarrow> (t', Inl e) | (t', Inr x) \<Rightarrow> k x t')"

text \<open>A call, whose failure is made an error, and one whose failure is looked at.\<close>

definition call :: "(io_kind \<Rightarrow> 'e) \<Rightarrow> (nat \<Rightarrow> (io_kind, 'a) result) \<Rightarrow> ('e, 'a) io" where
  "call err f = (\<lambda>t. (Suc t, map_err err (f t)))"

definition try_call :: "(nat \<Rightarrow> 'a) \<Rightarrow> ('e, 'a) io" where
  "try_call f = (\<lambda>t. (Suc t, Inr (f t)))"

definition io_ensure :: "bool \<Rightarrow> 'e \<Rightarrow> ('e, unit) io" where
  "io_ensure c e = (\<lambda>t. (t, if c then Inr () else Inl e))"

fun io_each :: "('a \<Rightarrow> ('e, unit) io) \<Rightarrow> 'a list \<Rightarrow> ('e, unit) io" where
  "io_each f [] = io_return ()"
| "io_each f (x # xs) = io_then (f x) (\<lambda>_. io_each f xs)"

definition io_option :: "('a \<Rightarrow> ('e, 'b) io) \<Rightarrow> 'a option \<Rightarrow> ('e, 'b option) io" where
  "io_option f m = (case m of None \<Rightarrow> io_return None | Some x \<Rightarrow> io_then (f x) (\<lambda>y. io_return (Some y)))"

named_theorems io_simps "when a sequence of calls succeeds"

lemma io_return_Inr [io_simps]: "(io_return x t = (t', Inr y)) = (t' = t \<and> y = x)"
  by (auto simp: io_return_def)

lemma io_fail_Inr [io_simps]: "(io_fail e t = (t', Inr y)) = False"
  by (simp add: io_fail_def)

lemma io_of_Inr [io_simps]: "(io_of r t = (t', Inr y)) = (t' = t \<and> r = Inr y)"
  by (auto simp: io_of_def)

lemma io_then_Inr [io_simps]:
  "(io_then m k t = (t', Inr y)) = (\<exists>t1 x. m t = (t1, Inr x) \<and> k x t1 = (t', Inr y))"
  by (auto simp: io_then_def split: prod.splits sum.splits)

lemma call_Inr [io_simps]: "(call err f t = (t', Inr y)) = (t' = Suc t \<and> f t = Inr y)"
  by (auto simp: call_def)

lemma try_call_Inr [io_simps]: "(try_call f t = (t', Inr y)) = (t' = Suc t \<and> y = f t)"
  by (auto simp: try_call_def)

lemma io_ensure_Inr [io_simps]: "(io_ensure c e t = (t', Inr u)) = (t' = t \<and> c)"
  by (auto simp: io_ensure_def)

lemma io_option_Inr [io_simps]:
  "(io_option f m t = (t', Inr r)) =
     (case m of None \<Rightarrow> t' = t \<and> r = None
      | Some x \<Rightarrow> \<exists>y. f x t = (t', Inr y) \<and> r = Some y)"
  by (auto simp: io_option_def io_simps split: option.splits)

lemma if_io [io_simps]:
  "((if c then m else n) t = (t', Inr y)) = (if c then m t = (t', Inr y) else n t = (t', Inr y))"
  by simp

text \<open>Evaluation.\<close>

lemmas io_run = io_then_def call_def try_call_def io_of_def io_ensure_def io_return_def io_fail_def
  io_option_def

text \<open>Time goes forward.\<close>

definition forward :: "('e, 'a) io \<Rightarrow> bool" where
  "forward m = (\<forall>t. t \<le> fst (m t))"

lemma forwardD: "\<lbrakk>forward m; m t = (t', r)\<rbrakk> \<Longrightarrow> t \<le> t'"
  by (metis forward_def fst_conv)

named_theorems forward_intros "sequences of calls along which time goes forward"

lemma forward_basic [forward_intros]:
  "forward (io_return x)" "forward (io_fail e)" "forward (io_of r)" "forward (call err f)"
  "forward (try_call g)" "forward (io_ensure c e)"
  by (simp_all add: forward_def io_return_def io_fail_def io_of_def call_def try_call_def io_ensure_def)

lemma forward_then [forward_intros]:
  assumes "forward m" "\<And>x. forward (k x)"
  shows "forward (io_then m k)"
  unfolding forward_def
proof
  fix t
  obtain t1 r where m: "m t = (t1, r)" by fastforce
  then have "t \<le> t1" by (rule forwardD [OF assms(1)])
  moreover have "t1 \<le> fst (k x t1)" for x using assms(2) by (simp add: forward_def)
  ultimately show "t \<le> fst (io_then m k t)"
    using m by (cases r) (auto simp: io_then_def intro: le_trans)
qed

lemma forward_if [forward_intros]: "\<lbrakk>forward m; forward n\<rbrakk> \<Longrightarrow> forward (if c then m else n)"
  by simp

lemma forward_each [forward_intros]: "(\<And>x. forward (f x)) \<Longrightarrow> forward (io_each f xs)"
  by (induction xs) (auto intro: forward_intros)

lemma forward_option [forward_intros]: "(\<And>x. forward (f x)) \<Longrightarrow> forward (io_option f m)"
  by (auto simp: io_option_def intro!: forward_intros split: option.splits)

text \<open>Each element has been looked at in the course of the loop.\<close>

lemma io_each_Inr:
  assumes "io_each f xs t = (t', Inr u)" "x \<in> set xs" "\<And>x. forward (f x)"
  shows "\<exists>t1 t2. t \<le> t1 \<and> t2 \<le> t' \<and> f x t1 = (t2, Inr ())"
  using assms(1,2)
proof (induction xs arbitrary: t)
  case (Cons y xs)
  then obtain t1 where t1: "f y t = (t1, Inr ())" "io_each f xs t1 = (t', Inr u)"
    by (auto simp: io_simps)
  have "forward (io_each f xs)" using assms(3) by (rule forward_each)
  then have "t \<le> t1" "t1 \<le> t'"
    using t1 forwardD [OF assms(3)] forwardD by blast+
  then show ?case using Cons t1 by (metis le_refl le_trans set_ConsD)
qed simp

text \<open>Calls that always end with the same value, on a host that does not change.\<close>

definition yields :: "('e, 'a) io \<Rightarrow> 'a \<Rightarrow> bool" where
  "yields m x = (\<forall>t. snd (m t) = Inr x)"

lemma yieldsD: "yields m x \<Longrightarrow> \<exists>t'. m t = (t', Inr x)"
  by (metis yields_def prod.collapse)

lemma yields_basic:
  "yields (io_return x) x" "yields (io_of (Inr x)) x" "(\<And>t. f t = Inr x) \<Longrightarrow> yields (call err f) x"
  "(\<And>t. g t = x) \<Longrightarrow> yields (try_call g) x" "c \<Longrightarrow> yields (io_ensure c e) ()"
  by (simp_all add: yields_def io_return_def io_of_def call_def try_call_def io_ensure_def)

lemma yields_then: "\<lbrakk>yields m x; yields (k x) y\<rbrakk> \<Longrightarrow> yields (io_then m k) y"
  unfolding yields_def io_then_def
proof
  fix t
  assume "\<forall>t. snd (m t) = Inr x" "\<forall>t. snd (k x t) = Inr y"
  moreover from this(1) have "m t = (fst (m t), Inr x)" by (simp add: prod_eq_iff)
  ultimately show "snd (case m t of (t', Inl e) \<Rightarrow> (t', Inl e) | (t', Inr x) \<Rightarrow> k x t') = Inr y"
    by (metis (no_types, lifting) case_prod_conv sum.case(2))
qed

lemma yields_ensure: "\<lbrakk>c; yields (k ()) y\<rbrakk> \<Longrightarrow> yields (io_then (io_ensure c e) k) y"
  by (rule yields_then [OF yields_basic(5)])

lemma yields_call: "\<lbrakk>\<And>t. f t = Inr x; yields (k x) y\<rbrakk> \<Longrightarrow> yields (io_then (call err f) k) y"
  by (rule yields_then [OF yields_basic(3)])

lemma yields_try: "\<lbrakk>\<And>t. f t = x; yields (k x) y\<rbrakk> \<Longrightarrow> yields (io_then (try_call f) k) y"
  by (rule yields_then [OF yields_basic(4)])

lemma yields_pure: "\<lbrakk>r = Inr x; yields (k x) y\<rbrakk> \<Longrightarrow> yields (io_then (io_of r) k) y"
  by (simp add: yields_then [OF yields_basic(2)])

lemma yields_option: "yields (io_option f None) None" "yields (f x) y \<Longrightarrow> yields (io_option f (Some x)) (Some y)"
  by (simp_all add: io_option_def yields_basic yields_then)

lemma yields_each: "(\<And>x. x \<in> set xs \<Longrightarrow> yields (f x) ()) \<Longrightarrow> yields (io_each f xs) ()"
  by (induction xs) (auto intro: yields_basic yields_then)

section \<open>What a call may say\<close>

datatype inode_kind = PlainFile | PlainDirectory | Symlink | OtherInode

record file_stat =
  fst_kind :: inode_kind
  fst_dev :: u64
  fst_ino :: u64
  fst_nlink :: u64
  fst_mode :: u32
  fst_uid :: u32
  fst_len :: u64
  fst_mtime :: u64
  fst_mtime_nsec :: u64
  fst_ctime :: u64
  fst_ctime_nsec :: u64

text \<open>\<open>host_arch\<close> is the architecture the program was built for, \<open>host_machine\<close> the one the kernel
  reports.  An open file is a number.  \<open>host_lstat\<close> does not follow a symbolic link, \<open>host_stat\<close> does.\<close>

record host_os =
  host_euid :: u32
  host_env :: environment
  host_arch :: string
  host_machine :: "nat \<Rightarrow> string"
  host_kernel_release :: "nat \<Rightarrow> string"
  host_lstat :: "nat \<Rightarrow> path \<Rightarrow> (io_kind, file_stat) result"
  host_stat :: "nat \<Rightarrow> path \<Rightarrow> (io_kind, file_stat) result"
  host_canonicalize :: "nat \<Rightarrow> path \<Rightarrow> (io_kind, path) result"
  host_read_link :: "nat \<Rightarrow> path \<Rightarrow> (io_kind, path) result"
  host_read_dir :: "nat \<Rightarrow> path \<Rightarrow> (io_kind, (io_kind, string) result list) result"
  host_read_all :: "nat \<Rightarrow> path \<Rightarrow> (io_kind, string) result"
  host_open :: "nat \<Rightarrow> path \<Rightarrow> bool \<Rightarrow> (io_kind, nat) result"
  host_fstat :: "nat \<Rightarrow> nat \<Rightarrow> (io_kind, file_stat) result"
  host_read :: "nat \<Rightarrow> nat \<Rightarrow> nat \<Rightarrow> (io_kind, string) result"

end
