(* ===== verification/Effects.thy ===== *)
theory Effects
  imports Host_Calls
begin

text \<open>
  Programs that act on the system: besides the value they return they leave a log of what they did,
  each action with the number of its call.  An action that fails is looked at by the program, so the
  errors are values here, and cleaning up is part of the program.
\<close>

section \<open>Programs\<close>

type_synonym 'f action_log = "(nat \<times> 'f) list"

type_synonym ('f, 'a) program = "nat \<Rightarrow> 'f action_log \<times> nat \<times> 'a"

definition done_with :: "'a \<Rightarrow> ('f, 'a) program" where
  "done_with x = (\<lambda>t. ([], t, x))"

text \<open>A sequence of checks, a call that is only an observation, and an action with its answer.\<close>

definition perform :: "('e, 'a) io \<Rightarrow> ('f, ('e, 'a) result) program" where
  "perform m = (\<lambda>t. case m t of (t', r) \<Rightarrow> ([], t', r))"

definition ask :: "(nat \<Rightarrow> 'a) \<Rightarrow> ('f, 'a) program" where
  "ask f = (\<lambda>t. ([], Suc t, f t))"

definition act :: "'f \<Rightarrow> (nat \<Rightarrow> 'a) \<Rightarrow> ('f, 'a) program" where
  "act eff f = (\<lambda>t. ([(t, eff)], Suc t, f t))"

text \<open>An action that has an effect only if it succeeds.\<close>

definition act_ok :: "'f \<Rightarrow> (nat \<Rightarrow> ('e, 'a) result) \<Rightarrow> ('f, ('e, 'a) result) program" where
  "act_ok eff f = (\<lambda>t. (if is_ok (f t) then [(t, eff)] else [], Suc t, f t))"

text \<open>An action that is known by what it returned.\<close>

definition act_got :: "('a \<Rightarrow> 'f) \<Rightarrow> (nat \<Rightarrow> ('e, 'a) result) \<Rightarrow> ('f, ('e, 'a) result) program" where
  "act_got eff f = (\<lambda>t. (case f t of Inl e \<Rightarrow> [] | Inr x \<Rightarrow> [(t, eff x)], Suc t, f t))"

definition and_next :: "('f, 'a) program \<Rightarrow> ('a \<Rightarrow> ('f, 'b) program) \<Rightarrow> ('f, 'b) program" where
  "and_next m k = (\<lambda>t. case m t of (l, t1, x) \<Rightarrow> case k x t1 of (l', t2, y) \<Rightarrow> (l @ l', t2, y))"

text \<open>The question mark operator.\<close>

definition if_ok :: "('f, ('e, 'a) result) program \<Rightarrow> ('e \<Rightarrow> 'd) \<Rightarrow> ('a \<Rightarrow> ('f, ('d, 'b) result) program)
    \<Rightarrow> ('f, ('d, 'b) result) program" where
  "if_ok m err k = and_next m (\<lambda>r. case r of Inl e \<Rightarrow> done_with (Inl (err e)) | Inr x \<Rightarrow> k x)"

text \<open>A value that is owned is given up when a later step fails.\<close>

definition or_undo :: "('f, unit) program \<Rightarrow> ('f, ('e, 'a) result) program \<Rightarrow> ('a \<Rightarrow> ('f, ('e, 'b) result) program)
    \<Rightarrow> ('f, ('e, 'b) result) program" where
  "or_undo undo m k =
     and_next m (\<lambda>r. case r of Inl e \<Rightarrow> and_next undo (\<lambda>_. done_with (Inl e)) | Inr x \<Rightarrow> k x)"

text \<open>What the program did, and what it returned.\<close>

definition log_of :: "'f action_log \<times> nat \<times> 'a \<Rightarrow> 'f list" where
  "log_of out = map snd (fst out)"

definition value_of :: "'f action_log \<times> nat \<times> 'a \<Rightarrow> 'a" where
  "value_of out = snd (snd out)"

named_theorems program_simps "what a program did when it has ended"

lemma done_with_eq [program_simps]: "(done_with x t = (l, t', y)) = (l = [] \<and> t' = t \<and> y = x)"
  by (auto simp: done_with_def)

lemma perform_eq [program_simps]: "(perform m t = (l, t', r)) = (l = [] \<and> m t = (t', r))"
  by (auto simp: perform_def split: prod.splits)

lemma ask_eq [program_simps]: "(ask f t = (l, t', x)) = (l = [] \<and> t' = Suc t \<and> x = f t)"
  by (auto simp: ask_def)

lemma act_eq [program_simps]: "(act eff f t = (l, t', x)) = (l = [(t, eff)] \<and> t' = Suc t \<and> x = f t)"
  by (auto simp: act_def)

lemma act_ok_eq [program_simps]:
  "(act_ok eff f t = (l, t', x)) = (l = (if is_ok x then [(t, eff)] else []) \<and> t' = Suc t \<and> x = f t)"
  by (auto simp: act_ok_def)

lemma act_got_eq [program_simps]:
  "(act_got eff f t = (l, t', x)) = (l = (case x of Inl e \<Rightarrow> [] | Inr y \<Rightarrow> [(t, eff y)]) \<and> t' = Suc t \<and> x = f t)"
  by (auto simp: act_got_def)

lemma and_next_eq [program_simps]:
  "(and_next m k t = (l, t', y)) =
     (\<exists>l1 t1 x l2. m t = (l1, t1, x) \<and> k x t1 = (l2, t', y) \<and> l = l1 @ l2)"
  by (auto simp: and_next_def split: prod.splits)

lemma and_next_done [simp]: "and_next (done_with x) k = k x"
  by (simp add: and_next_def done_with_def fun_eq_iff)

text \<open>A program that goes on by what it has got.\<close>

lemma next_sumE:
  assumes "and_next m (\<lambda>r. case r of Inl e \<Rightarrow> f e | Inr x \<Rightarrow> g x) t = (l, t', y)"
  obtains (Failed) l1 t1 e l2 where "m t = (l1, t1, Inl e)" "f e t1 = (l2, t', y)" "l = l1 @ l2"
    | (Worked) l1 t1 x l2 where "m t = (l1, t1, Inr x)" "g x t1 = (l2, t', y)" "l = l1 @ l2"
proof -
  obtain l1 t1 r l2 where "m t = (l1, t1, r)" "(case r of Inl e \<Rightarrow> f e | Inr x \<Rightarrow> g x) t1 = (l2, t', y)" "l = l1 @ l2"
    using assms unfolding and_next_eq by blast
  then show thesis using that by (cases r) auto
qed

lemma or_undoE:
  assumes "or_undo undo m k t = (l, t', Inr y)"
  obtains l1 t1 x l2 where "m t = (l1, t1, Inr x)" "k x t1 = (l2, t', Inr y)" "l = l1 @ l2"
  using assms unfolding or_undo_def by (elim next_sumE) (auto simp: and_next_eq done_with_eq)

lemma nextE:
  assumes "and_next m k t = (l, t', y)"
  obtains l1 t1 x l2 where "m t = (l1, t1, x)" "k x t1 = (l2, t', y)" "l = l1 @ l2"
  using assms unfolding and_next_eq by blast

lemmas program_run = done_with_def perform_def ask_def act_def act_ok_def act_got_def and_next_def

section \<open>Calls go forward, and so does the log\<close>

definition progresses :: "('f, 'a) program \<Rightarrow> bool" where
  "progresses m = (\<forall>t l t' x. m t = (l, t', x) \<longrightarrow> t \<le> t' \<and> (\<forall>(u, f) \<in> set l. t \<le> u \<and> u < t'))"

lemma progressesD: "\<lbrakk>progresses m; m t = (l, t', x)\<rbrakk> \<Longrightarrow> t \<le> t' \<and> (\<forall>(u, f) \<in> set l. t \<le> u \<and> u < t')"
  unfolding progresses_def by blast

named_theorems progress_intros "programs along which time goes forward"

lemma progress_basic [progress_intros]:
  "progresses (done_with x)" "progresses (ask f)" "progresses (act eff g)" "progresses (act_ok eff h)"
  by (auto simp: progresses_def program_simps split: if_splits)

lemma progress_perform [progress_intros]: "forward m \<Longrightarrow> progresses (perform m)"
  by (auto simp: progresses_def program_simps dest: forwardD)

lemma progress_next [progress_intros]:
  assumes "progresses m" "\<And>x. progresses (k x)"
  shows "progresses (and_next m k)"
  unfolding progresses_def and_next_eq
proof (intro allI impI, elim exE conjE)
  fix t l t' y l1 t1 x l2
  assume m: "m t = (l1, t1, x)" and k: "k x t1 = (l2, t', y)" and l: "l = l1 @ l2"
  note first = progressesD [OF assms(1) m] and second = progressesD [OF assms(2) k]
  show "t \<le> t' \<and> (\<forall>(u, f) \<in> set l. t \<le> u \<and> u < t')"
    using first second unfolding l by fastforce
qed

lemma progress_got [progress_intros]: "progresses (act_got eff f)"
  by (auto simp: progresses_def act_got_def split: sum.splits)

lemma progress_or_undo [progress_intros]:
  "\<lbrakk>progresses undo; progresses m; \<And>x. progresses (k x)\<rbrakk> \<Longrightarrow> progresses (or_undo undo m k)"
  unfolding or_undo_def by (rule progress_next) (auto intro!: progress_next progress_basic split: sum.splits)

lemma progress_if [progress_intros]: "\<lbrakk>progresses m; progresses n\<rbrakk> \<Longrightarrow> progresses (if c then m else n)"
  by simp

section \<open>Cleaning up\<close>

text \<open>\<^verbatim>\<open>combine_cleanup\<close> and \<^verbatim>\<open>with_cleanup_error\<close> of \<^verbatim>\<open>src/launcher.rs\<close>, for
  errors with a constructor for each.\<close>

definition combine_cleanup ::
    "('e \<Rightarrow> 'e \<Rightarrow> 'e) \<Rightarrow> ('e, unit) result \<Rightarrow> ('e, unit) result \<Rightarrow> ('e, unit) result" where
  "combine_cleanup both first second =
     (case (first, second) of
        (Inr u, Inr v) \<Rightarrow> Inr ()
      | (Inl e, Inr v) \<Rightarrow> Inl e
      | (Inr u, Inl e) \<Rightarrow> Inl e
      | (Inl e, Inl e') \<Rightarrow> Inl (both e e'))"

definition with_cleanup_error :: "('e \<Rightarrow> 'e \<Rightarrow> 'e) \<Rightarrow> 'e \<Rightarrow> ('e, unit) result \<Rightarrow> 'e" where
  "with_cleanup_error also error cleanup =
     (case cleanup of Inr u \<Rightarrow> error | Inl e \<Rightarrow> also error e)"

lemma combine_cleanup_Inr: "(combine_cleanup both first second = Inr u) = (first = Inr () \<and> second = Inr ())"
  by (cases first; cases second) (auto simp: combine_cleanup_def)

section \<open>Programs that may still be waiting\<close>

text \<open>A result that is \<open>None\<close> stands for a program that is still waiting when the rounds that were
  given are used up.\<close>

definition fails :: "'e \<Rightarrow> ('f, ('e, 'a) result option) program" where
  "fails e = done_with (Some (Inl e))"

definition returns :: "'a \<Rightarrow> ('f, ('e, 'a) result option) program" where
  "returns x = done_with (Some (Inr x))"

text \<open>The question mark operator.\<close>

definition orfail :: "('f, ('e, 'a) result) program \<Rightarrow> ('e \<Rightarrow> 'd) \<Rightarrow> ('a \<Rightarrow> ('f, ('d, 'b) result option) program)
    \<Rightarrow> ('f, ('d, 'b) result option) program" where
  "orfail m err k = and_next m (\<lambda>r. case r of Inl e \<Rightarrow> fails (err e) | Inr x \<Rightarrow> k x)"

lemma orfailE:
  assumes "orfail m err k t = (l, t', y)"
  obtains (Failed) e where "m t = (l, t', Inl e)" "y = Some (Inl (err e))"
    | (Worked) l1 t1 x l2 where "m t = (l1, t1, Inr x)" "k x t1 = (l2, t', y)" "l = l1 @ l2"
  using assms unfolding orfail_def fails_def by (elim next_sumE) (auto simp: done_with_eq)

lemma progress_orfail [progress_intros]:
  "\<lbrakk>progresses m; \<And>x. progresses (k x)\<rbrakk> \<Longrightarrow> progresses (orfail m err k)"
  unfolding orfail_def fails_def by (auto intro!: progress_intros split: sum.splits)

text \<open>The same program as part of a larger one, with its own errors and actions.\<close>

definition relabel :: "('f \<Rightarrow> 'g) \<Rightarrow> ('a \<Rightarrow> 'b) \<Rightarrow> ('f, 'a) program \<Rightarrow> ('g, 'b) program" where
  "relabel action res m = (\<lambda>t. case m t of (l, t', x) \<Rightarrow> (map (\<lambda>(u, f). (u, action f)) l, t', res x))"

lemma relabel_eq [program_simps]:
  "(relabel action res m t = (l, t', y)) =
     (\<exists>l1 x. m t = (l1, t', x) \<and> l = map (\<lambda>(u, f). (u, action f)) l1 \<and> y = res x)"
  by (auto simp: relabel_def split: prod.splits)

lemma progress_relabel [progress_intros]: "progresses m \<Longrightarrow> progresses (relabel action res m)"
  unfolding progresses_def relabel_eq by fastforce

section \<open>Which actions a program can take\<close>

definition acts_only :: "'f set \<Rightarrow> ('f, 'a) program \<Rightarrow> bool" where
  "acts_only A m = (\<forall>t l t' x. m t = (l, t', x) \<longrightarrow> snd ` set l \<subseteq> A)"

lemma acts_onlyD: "\<lbrakk>acts_only A m; m t = (l, t', x); (u, f) \<in> set l\<rbrakk> \<Longrightarrow> f \<in> A"
  unfolding acts_only_def by fastforce

lemma acts_nothing: "\<lbrakk>acts_only {} m; m t = (l, t', x)\<rbrakk> \<Longrightarrow> l = []"
  by (cases l) (auto simp: acts_only_def)

lemma acts_only_mono: "\<lbrakk>acts_only A m; A \<subseteq> B\<rbrakk> \<Longrightarrow> acts_only B m"
  unfolding acts_only_def by blast

named_theorems acts_intros "programs that take only certain actions"

lemma acts_only_basic [acts_intros]:
  "acts_only A (done_with x)" "acts_only A (perform m)" "acts_only A (ask f)"
  "eff \<in> A \<Longrightarrow> acts_only A (act eff g)" "eff \<in> A \<Longrightarrow> acts_only A (act_ok eff h)"
  by (auto simp: acts_only_def program_simps)

lemma acts_only_next [acts_intros]:
  "\<lbrakk>acts_only A m; \<And>x. acts_only A (k x)\<rbrakk> \<Longrightarrow> acts_only A (and_next m k)"
  unfolding acts_only_def and_next_eq by (metis image_Un set_append Un_least)

lemma acts_only_if [acts_intros]: "\<lbrakk>acts_only A m; acts_only A n\<rbrakk> \<Longrightarrow> acts_only A (if c then m else n)"
  by simp

lemma acts_orfail [acts_intros]:
  "\<lbrakk>acts_only A m; \<And>x. acts_only A (k x)\<rbrakk> \<Longrightarrow> acts_only A (orfail m err k)"
  unfolding orfail_def fails_def by (auto intro!: acts_intros split: sum.splits)

lemma acts_relabel [acts_intros]: "acts_only {f. action f \<in> A} m \<Longrightarrow> acts_only A (relabel action res m)"
  unfolding acts_only_def relabel_eq by fastforce

lemma acts_only_if_ok [acts_intros]:
  "\<lbrakk>acts_only A m; \<And>x. acts_only A (k x)\<rbrakk> \<Longrightarrow> acts_only A (if_ok m err k)"
  unfolding if_ok_def by (auto intro!: acts_intros split: sum.splits)

lemma progress_if_ok [progress_intros]:
  "\<lbrakk>progresses m; \<And>x. progresses (k x)\<rbrakk> \<Longrightarrow> progresses (if_ok m err k)"
  unfolding if_ok_def by (auto intro!: progress_intros split: sum.splits)

lemma if_ok_eq [program_simps]:
  "(if_ok m err k t = (l, t', Inr y)) =
     (\<exists>l1 t1 x l2. m t = (l1, t1, Inr x) \<and> k x t1 = (l2, t', Inr y) \<and> l = l1 @ l2)"
proof
  assume "if_ok m err k t = (l, t', Inr y)"
  then obtain l1 t1 r l2 where r: "m t = (l1, t1, r)" "l = l1 @ l2"
      "(case r of Inl e \<Rightarrow> done_with (Inl (err e)) | Inr x \<Rightarrow> k x) t1 = (l2, t', Inr y)"
    by (auto simp: if_ok_def and_next_eq)
  then show "\<exists>l1 t1 x l2. m t = (l1, t1, Inr x) \<and> k x t1 = (l2, t', Inr y) \<and> l = l1 @ l2"
    by (cases r) (auto simp: done_with_eq)
next
  assume "\<exists>l1 t1 x l2. m t = (l1, t1, Inr x) \<and> k x t1 = (l2, t', Inr y) \<and> l = l1 @ l2"
  then show "if_ok m err k t = (l, t', Inr y)"
    unfolding if_ok_def and_next_eq by (metis sum.case(2))
qed

lemma if_ok_casesE:
  assumes "if_ok m err k t = (l, t', r)"
  obtains (Failed) e where "m t = (l, t', Inl e)" "r = Inl (err e)"
    | (Worked) l1 t1 x l2 where "m t = (l1, t1, Inr x)" "k x t1 = (l2, t', r)" "l = l1 @ l2"
  using assms unfolding if_ok_def by (elim next_sumE) (auto simp: done_with_eq)

section \<open>What the actions lead to\<close>

text \<open>The effect of the actions on a state that a step function describes, and the weakest condition on the
  state before a program for a condition on its value and the state after it.  A step may depend on the moment of the
  action, and so on what the call returned then.\<close>

definition replay_at :: "(nat \<Rightarrow> 'f \<Rightarrow> 's \<Rightarrow> 's) \<Rightarrow> 'f action_log \<Rightarrow> 's \<Rightarrow> 's" where
  "replay_at step l s = fold (\<lambda>(t, f). step t f) l s"

abbreviation replay :: "('f \<Rightarrow> 's \<Rightarrow> 's) \<Rightarrow> 'f action_log \<Rightarrow> 's \<Rightarrow> 's" where
  "replay step \<equiv> replay_at (\<lambda>t. step)"

lemma replay_simps [simp]:
  "replay_at step [] s = s" "replay_at step ((t, f) # l) s = replay_at step l (step t f s)"
  "replay_at step (l @ l') s = replay_at step l' (replay_at step l s)"
  by (simp_all add: replay_at_def)

definition wp_at :: "(nat \<Rightarrow> 'f \<Rightarrow> 's \<Rightarrow> 's) \<Rightarrow> ('f, 'a) program \<Rightarrow> ('a \<Rightarrow> 's \<Rightarrow> bool) \<Rightarrow> 's \<Rightarrow> bool" where
  "wp_at step m Q s = (\<forall>t l t' x. m t = (l, t', x) \<longrightarrow> Q x (replay_at step l s))"

abbreviation wp :: "('f \<Rightarrow> 's \<Rightarrow> 's) \<Rightarrow> ('f, 'a) program \<Rightarrow> ('a \<Rightarrow> 's \<Rightarrow> bool) \<Rightarrow> 's \<Rightarrow> bool" where
  "wp step \<equiv> wp_at (\<lambda>t. step)"

lemma wpD: "\<lbrakk>wp_at step m Q s; m t = (l, t', x)\<rbrakk> \<Longrightarrow> Q x (replay_at step l s)"
  unfolding wp_at_def by blast

named_theorems wp_intros "conditions before a program"

lemma wp_done [wp_intros]: "Q x s \<Longrightarrow> wp_at step (done_with x) Q s"
  by (simp add: wp_at_def done_with_eq)

lemma wp_ask [wp_intros]: "(\<And>t. Q (f t) s) \<Longrightarrow> wp_at step (ask f) Q s"
  by (simp add: wp_at_def ask_eq)

lemma wp_act [wp_intros]: "(\<And>t. Q (f t) (step t a s)) \<Longrightarrow> wp_at step (act a f) Q s"
  by (simp add: wp_at_def act_eq)

lemma wp_act_ok [wp_intros]:
  "\<lbrakk>\<And>t e. h t = Inl e \<Longrightarrow> Q (Inl e) s; \<And>t y. h t = Inr y \<Longrightarrow> Q (Inr y) (step t a s)\<rbrakk> \<Longrightarrow> wp_at step (act_ok a h) Q s"
  unfolding wp_at_def act_ok_eq by (metis is_ok.simps replay_simps(1,2) sum.exhaust)

lemma wp_perform [wp_intros]: "(\<And>r. Q r s) \<Longrightarrow> wp_at step (perform m) Q s"
  by (simp add: wp_at_def perform_eq)

lemma wp_next [wp_intros]: "wp_at step m (\<lambda>x. wp_at step (k x) Q) s \<Longrightarrow> wp_at step (and_next m k) Q s"
  unfolding wp_at_def and_next_eq by fastforce

lemma wp_mono: "\<lbrakk>wp_at step m Q s; \<And>x s. Q x s \<Longrightarrow> Q' x s\<rbrakk> \<Longrightarrow> wp_at step m Q' s"
  unfolding wp_at_def by blast

lemma wp_sum: "\<lbrakk>\<And>e. r = Inl e \<Longrightarrow> wp_at step (f e) Q s; \<And>x. r = Inr x \<Longrightarrow> wp_at step (g x) Q s\<rbrakk> \<Longrightarrow>
    wp_at step (case r of Inl e \<Rightarrow> f e | Inr x \<Rightarrow> g x) Q s"
  by (cases r) simp_all

lemma wp_if_ok [wp_intros]:
  "wp_at step m (\<lambda>r s. (\<forall>e. r = Inl e \<longrightarrow> Q (Inl (err e)) s) \<and> (\<forall>x. r = Inr x \<longrightarrow> wp_at step (k x) Q s)) s \<Longrightarrow>
   wp_at step (if_ok m err k) Q s"
  unfolding if_ok_def
  by (rule wp_next, erule wp_mono) (auto intro: wp_done split: sum.splits)

lemma wp_orfail [wp_intros]:
  "wp_at step m (\<lambda>r s. (\<forall>e. r = Inl e \<longrightarrow> Q (Some (Inl (err e))) s) \<and> (\<forall>x. r = Inr x \<longrightarrow> wp_at step (k x) Q s)) s \<Longrightarrow>
   wp_at step (orfail m err k) Q s"
  unfolding orfail_def fails_def
  by (rule wp_next, erule wp_mono) (auto intro: wp_done split: sum.splits)

lemma wp_act_got [wp_intros]:
  "\<lbrakk>\<And>t e. f t = Inl e \<Longrightarrow> Q (Inl e) s; \<And>t x. f t = Inr x \<Longrightarrow> Q (Inr x) (step t (eff x) s)\<rbrakk> \<Longrightarrow> wp_at step (act_got eff f) Q s"
  by (auto simp: wp_at_def act_got_def split: sum.splits)

lemma wp_or_undo [wp_intros]:
  "wp_at step m (\<lambda>r s. (\<forall>e. r = Inl e \<longrightarrow> wp_at step undo (\<lambda>_. Q (Inl e)) s) \<and> (\<forall>x. r = Inr x \<longrightarrow> wp_at step (k x) Q s)) s \<Longrightarrow>
   wp_at step (or_undo undo m k) Q s"
  unfolding or_undo_def
  by (rule wp_next, erule wp_mono) (auto intro!: wp_next wp_done elim!: wp_mono split: sum.splits)

lemma wp_fails [wp_intros]: "Q (Some (Inl e)) s \<Longrightarrow> wp_at step (fails e) Q s"
  by (simp add: fails_def wp_done)

lemma wp_returns [wp_intros]: "Q (Some (Inr x)) s \<Longrightarrow> wp_at step (returns x) Q s"
  by (simp add: returns_def wp_done)

lemma replay_relabel: "replay_at step (map (\<lambda>(u, f). (u, action f)) l) s = replay_at (\<lambda>t f. step t (action f)) l s"
  by (induction l arbitrary: s) auto

lemma wp_relabel [wp_intros]:
  "wp_at (\<lambda>t f. step t (action f)) m (\<lambda>x. Q (res x)) s \<Longrightarrow> wp_at step (relabel action res m) Q s"
  by (auto simp: wp_at_def relabel_eq replay_relabel)

text \<open>A program whose actions do not matter.\<close>

lemma wp_idle:
  assumes "acts_only A m" "\<And>t f s. f \<in> A \<Longrightarrow> step t f s = s" "\<And>x. Q x s"
  shows "wp_at step m Q s"
proof -
  have "replay_at step l s = s" if "\<forall>f \<in> snd ` set l. f \<in> A" for l :: "'a action_log"
    using that assms(2) by (induction l) auto
  then show ?thesis using assms(1,3) unfolding wp_at_def acts_only_def by (metis subsetD)
qed

section \<open>Programs whose actions do not depend on the time\<close>

definition completes :: "('f, 'a) program \<Rightarrow> 'f list \<Rightarrow> 'a \<Rightarrow> bool" where
  "completes m L x = (\<forall>t. log_of (m t) = L \<and> value_of (m t) = x)"

lemma completesD: "completes m L x \<Longrightarrow> \<exists>l t'. m t = (l, t', x) \<and> map snd l = L"
  unfolding completes_def log_of_def value_of_def by (metis prod.collapse)

lemma completes_basic:
  "completes (done_with x) [] x" "(\<And>t. f t = x) \<Longrightarrow> completes (ask f) [] x"
  "(\<And>t. g t = x) \<Longrightarrow> completes (act eff g) [eff] x" "(\<And>t. h t = Inr y) \<Longrightarrow> completes (act_ok eff h) [eff] (Inr y)"
  by (simp_all add: completes_def log_of_def value_of_def done_with_def ask_def act_def act_ok_def)

lemma completes_perform: "yields m x \<Longrightarrow> completes (perform m) [] (Inr x)"
  by (auto simp: completes_def log_of_def value_of_def perform_def yields_def split: prod.splits)

lemma completes_next: "\<lbrakk>completes m L x; completes (k x) L' y\<rbrakk> \<Longrightarrow> completes (and_next m k) (L @ L') y"
  unfolding completes_def log_of_def value_of_def and_next_def by (auto split: prod.splits) (metis fst_conv snd_conv)+

lemma completes_if_ok:
  "\<lbrakk>completes m L (Inr x); completes (k x) L' y\<rbrakk> \<Longrightarrow> completes (if_ok m err k) (L @ L') y"
  unfolding if_ok_def by (rule completes_next) auto

lemma completes_orfail:
  "\<lbrakk>completes m L (Inr x); completes (k x) L' y\<rbrakk> \<Longrightarrow> completes (orfail m err k) (L @ L') y"
  unfolding orfail_def by (rule completes_next) auto

lemma completes_relabel:
  assumes "completes m L x"
  shows "completes (relabel action res m) (map action L) (res x)"
  unfolding completes_def
proof
  fix t
  have "map snd (fst (m t)) = L" "snd (snd (m t)) = x"
    using assms by (simp_all add: completes_def log_of_def value_of_def)
  then show "log_of (relabel action res m t) = map action L \<and> value_of (relabel action res m t) = res x"
    by (auto simp: log_of_def value_of_def relabel_def split_beta)
qed

end
