(* ===== verification/Child_Tree.thy ===== *)
theory Child_Tree
  imports Effects Codex
begin

text \<open>
  The tree of processes below a probe or a verification child, \<^verbatim>\<open>src/child_tree.rs\<close> on Linux: the
  child leads a process group of its own, and stopping the tree kills the group and reaps the child.
\<close>

section \<open>Processes\<close>

datatype exit_status = Exited int | Signalled int | OtherStatus

definition status_code :: "exit_status \<Rightarrow> int" where
  "status_code status = (case status of Signalled s \<Rightarrow> 128 + s | Exited c \<Rightarrow> c | OtherStatus \<Rightarrow> 1)"

definition status_success :: "exit_status \<Rightarrow> bool" where
  "status_success status = (status = Exited 0)"

text \<open>What the calls on a child return.  A kill of a group that has no process left is told apart.\<close>

datatype group_kill = GroupKilled | GroupGone | GroupKillFails

record child_calls =
  cc_kill_group :: "nat \<Rightarrow> group_kill"
  cc_try_wait :: "nat \<Rightarrow> (io_kind, exit_status option) result"
  cc_kill :: "nat \<Rightarrow> (io_kind, unit) result"
  cc_wait :: "nat \<Rightarrow> (io_kind, exit_status) result"

datatype tree_error =
    InvalidGroup
  | StopGroup
  | ChildCall io_kind
  | KillChild io_kind
  | StopAndReap tree_error tree_error

datatype tree_action = KillGroup | TryWait | KillChildAction | WaitChild

type_synonym 'a tree_program = "(tree_action, 'a) program"

section \<open>Stopping\<close>

text \<open>\<^verbatim>\<open>Pid::from_raw\<close> has no process for the number zero.\<close>

definition tree_stop :: "child_calls \<Rightarrow> u32 \<Rightarrow> (tree_error, unit) result tree_program" where
  "tree_stop cc leader =
     (if leader = 0 then done_with (Inl InvalidGroup)
      else and_next (act KillGroup (cc_kill_group cc)) (\<lambda>r.
        done_with (case r of GroupKilled \<Rightarrow> Inr () | GroupGone \<Rightarrow> Inr () | GroupKillFails \<Rightarrow> Inl StopGroup)))"

definition tree_wait :: "child_calls \<Rightarrow> (tree_error, unit) result tree_program" where
  "tree_wait cc =
     and_next (act WaitChild (cc_wait cc)) (\<lambda>r.
       done_with (case r of Inl e \<Rightarrow> Inl (ChildCall e) | Inr status \<Rightarrow> Inr ()))"

definition tree_reap :: "child_calls \<Rightarrow> (tree_error, unit) result tree_program" where
  "tree_reap cc =
     and_next (act TryWait (cc_try_wait cc)) (\<lambda>first.
     case first of
       Inl e \<Rightarrow> done_with (Inl (ChildCall e))
     | Inr (Some status) \<Rightarrow> tree_wait cc
     | Inr None \<Rightarrow>
         and_next (act KillChildAction (cc_kill cc)) (\<lambda>killed.
         case killed of
           Inr u \<Rightarrow> tree_wait cc
         | Inl error \<Rightarrow>
             and_next (act TryWait (cc_try_wait cc)) (\<lambda>second.
             case second of
               Inl e \<Rightarrow> done_with (Inl (ChildCall e))
             | Inr None \<Rightarrow> done_with (Inl (KillChild error))
             | Inr (Some status) \<Rightarrow> tree_wait cc)))"

definition stop_and_reap :: "child_calls \<Rightarrow> u32 \<Rightarrow> (tree_error, unit) result tree_program" where
  "stop_and_reap cc leader =
     and_next (tree_stop cc leader) (\<lambda>stop.
     and_next (tree_reap cc) (\<lambda>reap.
     done_with (combine_cleanup StopAndReap stop reap)))"

section \<open>Properties\<close>

lemma tree_wait_log: "tree_wait cc t = (l, t', r) \<Longrightarrow> l = [(t, WaitChild)] \<and>
    (r = Inr () \<longrightarrow> (\<exists>status. cc_wait cc t = Inr status))"
  by (auto simp: tree_wait_def program_simps split: sum.splits)

text \<open>C26: if stopping a tree succeeds then the whole group was killed, or had no process left, before the child was
  waited for, and the wait has reaped the child.  The group is killed on every path, also when the
  child has already exited.\<close>

theorem stop_and_reap_sound:
  assumes "stop_and_reap cc leader t = (l, t', r)" "leader \<noteq> 0"
  shows "(t, KillGroup) \<in> set l \<and>
    (r = Inr () \<longrightarrow> cc_kill_group cc t \<noteq> GroupKillFails \<and>
       (\<exists>u status. t < u \<and> (u, WaitChild) \<in> set l \<and> cc_wait cc u = Inr status))"
  using assms
  by (auto simp: stop_and_reap_def tree_stop_def tree_reap_def combine_cleanup_Inr program_simps
      dest!: tree_wait_log split: sum.splits option.splits group_kill.splits)

definition example_child :: child_calls where
  "example_child =
     \<lparr>cc_kill_group = (\<lambda>t. GroupKilled), cc_try_wait = (\<lambda>t. Inr None), cc_kill = (\<lambda>t. Inl KindOther),
      cc_wait = (\<lambda>t. Inr (Signalled 9))\<rparr>"

theorem stop_and_reap_sound_witness:
  "\<exists>l t' r. stop_and_reap (example_child\<lparr>cc_kill := (\<lambda>t. Inr ())\<rparr>) 5 0 = (l, t', r) \<and> r = Inr () \<and>
     (0, KillGroup) \<in> set l"
proof -
  have run: "stop_and_reap (example_child\<lparr>cc_kill := (\<lambda>t. Inr ())\<rparr>) 5 0 =
      ([(0, KillGroup), (1, TryWait), (2, KillChildAction), (3, WaitChild)], 4, Inr ())"
    by (simp add: stop_and_reap_def tree_stop_def tree_reap_def tree_wait_def program_run example_child_def
        combine_cleanup_def)
  from stop_and_reap_sound [OF run] run show ?thesis by simp
qed

end
