(* ===== verification/Trusted_Files.thy ===== *)
theory Trusted_Files
  imports Host_Calls Audit_Log "HOL-Library.Sublist"
begin

text \<open>
  Files bound by their bytes, \<^verbatim>\<open>src/identity.rs\<close> on Linux: the trusted chain of
  directories, the stamp of an open file, the bounded hash of its bytes, and the checks that a path
  and a running process still lead to the same file.
\<close>

section \<open>Directories\<close>

datatype identity_error =
    IdentityIo io_kind
  | NoParentPath
  | NotPlainDirectory
  | UntrustedOwner
  | WritableByOthers
  | NotOwnerControlled
  | SymlinkFile
  | FileTooLarge
  | FileSizeOverflow
  | NotNativeImage
  | ChangedDuringInspection
  | ReplacedOrModified
  | OtherProcessImage

type_synonym 'a identity_io = "(identity_error, 'a) io"

definition MAX_IDENTITY_FILE_BYTES :: nat where
  "MAX_IDENTITY_FILE_BYTES = 2 * 1024 * 1024 * 1024"

function ancestors :: "path \<Rightarrow> path list" where
  "ancestors path = path # (case path_parent path of None \<Rightarrow> [] | Some parent \<Rightarrow> ancestors parent)"
  by pat_completeness auto
termination
  by (relation "measure length") (auto simp: path_parent_def split: if_splits path_component.splits)

declare ancestors.simps [simp del]

definition check_directory :: "host_os \<Rightarrow> u32 \<Rightarrow> path \<Rightarrow> unit identity_io" where
  "check_directory os system_owner directory =
     io_then (call IdentityIo (\<lambda>t. host_lstat os t directory)) (\<lambda>m.
     io_then (io_ensure (fst_kind m = PlainDirectory) NotPlainDirectory) (\<lambda>_.
     io_then (io_ensure (fst_uid m = host_euid os \<or> fst_uid m = system_owner) UntrustedOwner) (\<lambda>_.
     io_ensure (\<not> (fst_mode m AND 0x12 \<noteq> 0 \<and>
                     \<not> (fst_uid m = system_owner \<and> fst_mode m AND 0x200 \<noteq> 0))) WritableByOthers)))"

definition check_trusted_directory_chain :: "host_os \<Rightarrow> path \<Rightarrow> unit identity_io" where
  "check_trusted_directory_chain os path =
     io_then (call IdentityIo (\<lambda>t. host_lstat os t [RootDir])) (\<lambda>root.
     io_each (check_directory os (fst_uid root)) (ancestors path))"

section \<open>Stamps\<close>

type_synonym stamp = "u64 list"

definition stamp_of :: "file_stat \<Rightarrow> stamp" where
  "stamp_of m =
     [fst_dev m, fst_ino m, fst_len m, ucast (fst_mode m), ucast (fst_uid m), fst_mtime m,
      fst_mtime_nsec m, fst_ctime m, fst_ctime_nsec m]"

definition owner_controlled :: "host_os \<Rightarrow> file_stat \<Rightarrow> bool" where
  "owner_controlled os m =
     (fst_kind m = PlainFile \<and> fst_nlink m = 1 \<and> fst_mode m AND 0x12 = 0 \<and> fst_uid m = host_euid os)"

definition file_stamp :: "host_os \<Rightarrow> nat \<Rightarrow> stamp identity_io" where
  "file_stamp os file =
     io_then (call IdentityIo (\<lambda>t. host_fstat os t file)) (\<lambda>m.
     io_then (io_ensure (owner_controlled os m) NotOwnerControlled) (\<lambda>_. io_return (stamp_of m)))"

section \<open>Reading\<close>

definition READ_BUFFER :: nat where
  "READ_BUFFER = 64 * 1024"

text \<open>The loop that hashes a file: the bytes read so far, up to a limit.\<close>

function read_bytes :: "host_os \<Rightarrow> nat \<Rightarrow> nat \<Rightarrow> string \<Rightarrow> string identity_io" where
  "read_bytes os file limit bytes t =
     (case host_read os t file (length bytes) of
        Inl k \<Rightarrow> (Suc t, Inl (IdentityIo k))
      | Inr chunk \<Rightarrow>
          let chunk = take READ_BUFFER chunk in
          if chunk = [] then (Suc t, Inr bytes)
          else if 2 ^ 64 \<le> length bytes + length chunk then (Suc t, Inl FileSizeOverflow)
          else if limit < length bytes + length chunk then (Suc t, Inl FileTooLarge)
          else read_bytes os file limit (bytes @ chunk) (Suc t))"
  by pat_completeness auto
termination
  by (relation "measure (\<lambda>(os, file, limit, bytes, t). Suc limit - length bytes)")
    (auto simp: Let_def length_greater_0_conv [symmetric] simp del: length_greater_0_conv)

declare read_bytes.simps [simp del]

text \<open>\<^verbatim>\<open>read_exact\<close> on the first four bytes.\<close>

function read_prefix :: "host_os \<Rightarrow> nat \<Rightarrow> nat \<Rightarrow> string \<Rightarrow> string identity_io" where
  "read_prefix os file n bytes t =
     (if n \<le> length bytes then (t, Inr bytes)
      else case host_read os t file (length bytes) of
        Inl k \<Rightarrow> (Suc t, Inl (IdentityIo k))
      | Inr chunk \<Rightarrow>
          let chunk = take (n - length bytes) chunk in
          if chunk = [] then (Suc t, Inl (IdentityIo KindOther))
          else read_prefix os file n (bytes @ chunk) (Suc t))"
  by pat_completeness auto
termination
  by (relation "measure (\<lambda>(os, file, n, bytes, t). n - length bytes)")
    (auto simp: Let_def length_greater_0_conv [symmetric] simp del: length_greater_0_conv)

declare read_prefix.simps [simp del]


section \<open>Bound files\<close>

text \<open>A file that is held open, with the path, the stamp and the hash of its bytes.\<close>

record bound_file =
  bound_path :: path
  bound_stamp :: stamp
  bound_handle :: nat
  bound_sha256 :: string
  bound_size :: nat

definition open_limited :: "host_os \<Rightarrow> (string \<Rightarrow> u8 list) \<Rightarrow> path \<Rightarrow> nat \<Rightarrow> bound_file identity_io" where
  "open_limited os sha path limit =
     io_then (io_of (ok_or NoParentPath (path_parent path))) (\<lambda>parent.
     io_then (check_trusted_directory_chain os parent) (\<lambda>_.
     io_then (call IdentityIo (\<lambda>t. host_lstat os t path)) (\<lambda>m.
     io_then (io_ensure (fst_kind m \<noteq> Symlink) SymlinkFile) (\<lambda>_.
     io_then (call IdentityIo (\<lambda>t. host_open os t path True)) (\<lambda>file.
     io_then (file_stamp os file) (\<lambda>before.
     io_then (call IdentityIo (\<lambda>t. host_fstat os t file)) (\<lambda>m.
     io_then (io_ensure (unat (fst_len m) \<le> limit) FileTooLarge) (\<lambda>_.
     io_then (read_bytes os file limit []) (\<lambda>bytes.
     io_then (io_ensure (length bytes = unat (fst_len m)) ChangedDuringInspection) (\<lambda>_.
     io_then (file_stamp os file) (\<lambda>after.
     io_then (io_ensure (before = after) ChangedDuringInspection) (\<lambda>_.
     io_then (call IdentityIo (\<lambda>t. host_canonicalize os t path)) (\<lambda>canonical.
     io_then (io_ensure (canonical = path) ChangedDuringInspection) (\<lambda>_.
     io_return \<lparr>bound_path = path, bound_stamp = before, bound_handle = file,
                bound_sha256 = to_hex (sha bytes), bound_size = unat (fst_len m)\<rparr>))))))))))))))"

text \<open>The comparison both kinds of files are checked again with.\<close>

definition recheck_file :: "host_os \<Rightarrow> path \<Rightarrow> path \<Rightarrow> stamp \<Rightarrow> nat \<Rightarrow> unit identity_io" where
  "recheck_file os requested path expected file =
     io_then (io_of (ok_or NoParentPath (path_parent path))) (\<lambda>parent.
     io_then (check_trusted_directory_chain os parent) (\<lambda>_.
     io_then (call IdentityIo (\<lambda>t. host_canonicalize os t requested)) (\<lambda>canonical.
     io_then (io_ensure (canonical = path) ReplacedOrModified) (\<lambda>_.
     io_then (file_stamp os file) (\<lambda>held.
     io_then (io_ensure (held = expected) ReplacedOrModified) (\<lambda>_.
     io_then (call IdentityIo (\<lambda>t. host_open os t path False)) (\<lambda>again.
     io_then (file_stamp os again) (\<lambda>now.
     io_ensure (now = expected) ReplacedOrModified))))))))"

definition bound_recheck :: "host_os \<Rightarrow> bound_file \<Rightarrow> unit identity_io" where
  "bound_recheck os file =
     recheck_file os (bound_path file) (bound_path file) (bound_stamp file) (bound_handle file)"

section \<open>Executables\<close>

record executable =
  exe_requested :: path
  exe_path :: path
  exe_sha256 :: string
  exe_stamp :: stamp
  exe_handle :: nat

definition ELF_MAGIC :: string where
  "ELF_MAGIC = [CHR 0x7F, CHR ''E'', CHR ''L'', CHR ''F'']"

definition executable_open :: "host_os \<Rightarrow> (string \<Rightarrow> u8 list) \<Rightarrow> path \<Rightarrow> executable identity_io" where
  "executable_open os sha requested =
     io_then (call IdentityIo (\<lambda>t. host_canonicalize os t requested)) (\<lambda>path.
     io_then (io_of (ok_or NoParentPath (path_parent path))) (\<lambda>parent.
     io_then (check_trusted_directory_chain os parent) (\<lambda>_.
     io_then (call IdentityIo (\<lambda>t. host_open os t path True)) (\<lambda>file.
     io_then (file_stamp os file) (\<lambda>before.
     io_then (call IdentityIo (\<lambda>t. host_fstat os t file)) (\<lambda>m.
     io_then (io_ensure (unat (fst_len m) \<le> MAX_IDENTITY_FILE_BYTES) FileTooLarge) (\<lambda>_.
     io_then (read_prefix os file 4 []) (\<lambda>prefix.
     io_then (io_ensure (prefix = ELF_MAGIC) NotNativeImage) (\<lambda>_.
     io_then (read_bytes os file MAX_IDENTITY_FILE_BYTES prefix) (\<lambda>bytes.
     io_then (io_ensure (length bytes = unat (fst_len m)) ChangedDuringInspection) (\<lambda>_.
     io_then (file_stamp os file) (\<lambda>after.
     io_then (io_ensure (before = after) ChangedDuringInspection) (\<lambda>_.
     io_then (call IdentityIo (\<lambda>t. host_canonicalize os t requested)) (\<lambda>canonical.
     io_then (io_ensure (canonical = path) ChangedDuringInspection) (\<lambda>_.
     io_return \<lparr>exe_requested = requested, exe_path = path, exe_sha256 = to_hex (sha bytes),
                exe_stamp = before, exe_handle = file\<rparr>)))))))))))))))"

definition executable_recheck :: "host_os \<Rightarrow> executable \<Rightarrow> unit identity_io" where
  "executable_recheck os exe =
     recheck_file os (exe_requested exe) (exe_path exe) (exe_stamp exe) (exe_handle exe)"

definition proc_exe :: "u32 \<Rightarrow> path" where
  "proc_exe pid = [RootDir, Normal ''proc'', Normal (show_nat (unat pid)), Normal ''exe'']"

definition executable_verify_process :: "host_os \<Rightarrow> executable \<Rightarrow> u32 \<Rightarrow> unit identity_io" where
  "executable_verify_process os exe pid =
     io_then (executable_recheck os exe) (\<lambda>_.
     io_then (call IdentityIo (\<lambda>t. host_open os t (proc_exe pid) False)) (\<lambda>image.
     io_then (file_stamp os image) (\<lambda>running.
     io_ensure (running = exe_stamp exe) OtherProcessImage)))"

text \<open>The command runs the held inode, under the name of the path.\<close>

record spawn_command =
  cmd_program :: path
  cmd_arg0 :: "path option"
  cmd_args :: "string list"
  cmd_env :: environment

definition executable_command :: "environment \<Rightarrow> executable \<Rightarrow> spawn_command" where
  "executable_command env exe =
     \<lparr>cmd_program = [RootDir, Normal ''proc'', Normal ''self'', Normal ''fd'',
        Normal (show_nat (exe_handle exe))],
      cmd_arg0 = Some (exe_path exe), cmd_args = [], cmd_env = env\<rparr>"


section \<open>Time goes forward\<close>

lemma read_bytes_forward: "Suc t \<le> fst (read_bytes os h limit bytes t)"
proof (induction os h limit bytes t rule: read_bytes.induct)
  case (1 os h limit bytes t)
  show ?case
    unfolding read_bytes.simps [of os h limit bytes t]
    using 1 by (auto simp: Let_def intro: Suc_leD split: sum.splits)
qed

lemma read_prefix_forward: "t \<le> fst (read_prefix os h n bytes t)"
proof (induction os h n bytes t rule: read_prefix.induct)
  case (1 os h n bytes t)
  show ?case
    unfolding read_prefix.simps [of os h n bytes t]
    using 1 by (auto simp: Let_def intro: Suc_leD split: sum.splits)
qed

lemma forward_reads [forward_intros]:
  "forward (read_bytes os file limit bytes)" "forward (read_prefix os file n bytes)"
  using read_bytes_forward read_prefix_forward by (auto simp: forward_def intro: Suc_leD)

lemma forward_files [forward_intros]:
  "forward (check_directory os owner d)" "forward (check_trusted_directory_chain os path)"
  "forward (file_stamp os file)"
  by (auto simp: check_directory_def check_trusted_directory_chain_def file_stamp_def
      intro!: forward_intros)

lemma forward_bound [forward_intros]:
  "forward (open_limited os sha path limit)" "forward (recheck_file os requested path expected file)"
  "forward (bound_recheck os f)"
  by (auto simp: open_limited_def recheck_file_def bound_recheck_def intro!: forward_intros)

lemma forward_executable [forward_intros]:
  "forward (executable_open os sha requested)" "forward (executable_recheck os exe)"
  "forward (executable_verify_process os exe pid)"
  by (auto simp: executable_open_def executable_recheck_def executable_verify_process_def
      intro!: forward_intros)

section \<open>The chain of directories\<close>

definition trusted_directory :: "host_os \<Rightarrow> u32 \<Rightarrow> file_stat \<Rightarrow> bool" where
  "trusted_directory os system_owner m =
     (fst_kind m = PlainDirectory \<and> (fst_uid m = host_euid os \<or> fst_uid m = system_owner) \<and>
      (fst_mode m AND 0x12 = 0 \<or> fst_uid m = system_owner \<and> fst_mode m AND 0x200 \<noteq> 0))"

lemma check_directory_Inr:
  "(check_directory os owner d t = (t', Inr ())) =
     (t' = Suc t \<and> (\<exists>m. host_lstat os t d = Inr m \<and> trusted_directory os owner m))"
  by (auto simp: check_directory_def io_simps trusted_directory_def)

text \<open>What a successful check of a chain from a moment on has seen before another.\<close>

definition chain_trusted :: "host_os \<Rightarrow> path \<Rightarrow> nat \<Rightarrow> nat \<Rightarrow> bool" where
  "chain_trusted os path t t' =
     (\<exists>root. host_lstat os t [RootDir] = Inr root \<and>
        (\<forall>d \<in> set (ancestors path). \<exists>\<tau> m. t < \<tau> \<and> \<tau> < t' \<and> host_lstat os \<tau> d = Inr m \<and>
           trusted_directory os (fst_uid root) m))"

lemma check_chain_Inr:
  assumes "check_trusted_directory_chain os path t = (t', Inr u)"
  shows "chain_trusted os path t t'"
proof -
  obtain root where root: "host_lstat os t [RootDir] = Inr root"
      "io_each (check_directory os (fst_uid root)) (ancestors path) (Suc t) = (t', Inr ())"
    using assms by (auto simp: check_trusted_directory_chain_def io_simps)
  have "\<exists>\<tau> m. t < \<tau> \<and> \<tau> < t' \<and> host_lstat os \<tau> d = Inr m \<and> trusted_directory os (fst_uid root) m"
    if d: "d \<in> set (ancestors path)" for d
  proof -
    obtain t1 t2 where "Suc t \<le> t1" "t2 \<le> t'" "check_directory os (fst_uid root) d t1 = (t2, Inr ())"
      using io_each_Inr [OF root(2) d] forward_files by blast
    then show ?thesis by (auto simp: check_directory_Inr intro!: exI [of _ t1])
  qed
  then show ?thesis using root(1) by (auto simp: chain_trusted_def)
qed

text \<open>The ancestors of an absolute path of names are its prefixes.\<close>

lemma ancestors_snoc:
  "ancestors (RootDir # map Normal (ns @ [n])) = (RootDir # map Normal (ns @ [n])) # ancestors (RootDir # map Normal ns)"
  by (subst ancestors.simps) (simp add: path_parent_def butlast_append)

lemma ancestors_prefixes:
  "set (ancestors (RootDir # map Normal names)) = (\<lambda>ns. RootDir # map Normal ns) ` set (prefixes names)"
proof (induction names rule: rev_induct)
  case Nil
  show ?case by (subst ancestors.simps) (simp add: path_parent_def)
next
  case (snoc n ns)
  then show ?case unfolding ancestors_snoc by (simp add: prefixes_snoc)
qed

section \<open>What is read\<close>

text \<open>An open file that does not change gives a piece of its bytes at every reading, and nothing
  at their end.\<close>

definition steady :: "host_os \<Rightarrow> nat \<Rightarrow> string \<Rightarrow> nat \<Rightarrow> nat \<Rightarrow> bool" where
  "steady os h content t t' =
     (\<forall>\<tau> off. t \<le> \<tau> \<longrightarrow> \<tau> < t' \<longrightarrow>
        (\<exists>n > 0. host_read os \<tau> h off = Inr (take n (drop off content))))"

lemma steady_sub: "\<lbrakk>steady os h content t t'; t \<le> u; u' \<le> t'\<rbrakk> \<Longrightarrow> steady os h content u u'"
  unfolding steady_def by (meson le_trans less_le_trans)

lemma read_bytes_length:
  "read_bytes os h limit bytes t = (t', Inr out) \<Longrightarrow> length bytes \<le> limit \<Longrightarrow> length out \<le> limit"
proof (induction os h limit bytes t rule: read_bytes.induct)
  case (1 os h limit bytes t)
  from "1.prems" show ?case
    unfolding read_bytes.simps [of os h limit bytes t]
    using "1.IH" by (auto simp: Let_def split: sum.splits if_splits)
qed

lemma read_bytes_steady:
  "read_bytes os h limit bytes t = (t', Inr out) \<Longrightarrow> steady os h content t t' \<Longrightarrow>
   bytes = take (length bytes) content \<Longrightarrow> out = content"
proof (induction os h limit bytes t rule: read_bytes.induct)
  case (1 os h limit bytes t)
  have "Suc t \<le> t'" using read_bytes_forward [of t os h limit bytes] "1.prems"(1) by simp
  then obtain n where n: "n > 0" "host_read os t h (length bytes) = Inr (take n (drop (length bytes) content))"
    using "1.prems"(2) unfolding steady_def by (meson Suc_le_lessD le_refl)
  let ?c = "take READ_BUFFER (take n (drop (length bytes) content))"
  have pos: "READ_BUFFER > 0" by (simp add: READ_BUFFER_def)
  show ?case
  proof (cases "?c = []")
    case True
    then have "length content \<le> length bytes" using n(1) pos by (auto simp: min_def split: if_splits)
    then have "bytes = content" using "1.prems"(3) by simp
    then show ?thesis
      using "1.prems"(1) n(2) True unfolding read_bytes.simps [of os h limit bytes t] by simp
  next
    case False
    then have step: "\<not> 2 ^ 64 \<le> length bytes + length ?c" "\<not> limit < length bytes + length ?c"
        "read_bytes os h limit (bytes @ ?c) (Suc t) = (t', Inr out)"
      using "1.prems"(1) n(2) unfolding read_bytes.simps [of os h limit bytes t]
      by (auto simp: Let_def split: if_splits)
    have front: "bytes @ ?c = take (length (bytes @ ?c)) content"
      using "1.prems"(3) by (metis append_take_drop_id append_eq_conv_conj take_add take_take length_append)
    have "steady os h content (Suc t) t'" by (rule steady_sub [OF "1.prems"(2)]) simp_all
    then show ?thesis by (rule "1.IH" [OF n(2) refl False step(1,2,3) _ front])
  qed
qed

lemma read_prefix_steady:
  "read_prefix os h n bytes t = (t', Inr out) \<Longrightarrow> steady os h content t t' \<Longrightarrow>
   bytes = take (length bytes) content \<Longrightarrow> length bytes \<le> n \<Longrightarrow> out = take n content \<and> length out = n"
proof (induction os h n bytes t rule: read_prefix.induct)
  case (1 os h n bytes t)
  show ?case
  proof (cases "n \<le> length bytes")
    case True
    then show ?thesis
      using "1.prems" unfolding read_prefix.simps [of os h n bytes t] by simp
  next
    case more: False
    obtain c where c: "host_read os t h (length bytes) = Inr c"
        "read_prefix os h n (bytes @ take (n - length bytes) c) (Suc t) = (t', Inr out)"
      using "1.prems"(1) more unfolding read_prefix.simps [of os h n bytes t]
      by (auto simp: Let_def split: sum.splits if_splits)
    then have "Suc t \<le> t'" using read_prefix_forward by (metis fst_conv)
    then obtain k where k: "k > 0" "host_read os t h (length bytes) = Inr (take k (drop (length bytes) content))"
      using "1.prems"(2) unfolding steady_def by (meson Suc_le_lessD le_refl)
    let ?c = "take (n - length bytes) (take k (drop (length bytes) content))"
    have "?c \<noteq> []"
    proof
      assume "?c = []"
      then have "read_prefix os h n bytes t = (Suc t, Inl (IdentityIo KindOther))"
        using k(2) more unfolding read_prefix.simps [of os h n bytes t] by simp
      then show False using "1.prems"(1) by simp
    qed
    moreover have c_eq: "c = take k (drop (length bytes) content)" using c(1) k(2) by simp
    ultimately have step: "?c \<noteq> []" "read_prefix os h n (bytes @ ?c) (Suc t) = (t', Inr out)"
      using c(2) unfolding c_eq by blast+
    have front: "bytes @ ?c = take (length (bytes @ ?c)) content"
      using "1.prems"(3) by (metis append_take_drop_id append_eq_conv_conj take_add take_take length_append)
    have len: "length (bytes @ ?c) \<le> n" using "1.prems"(4) by simp
    have "steady os h content (Suc t) t'" by (rule steady_sub [OF "1.prems"(2)]) simp_all
    then show ?thesis by (rule "1.IH" [OF more k(2) refl step(1,2) _ front len])
  qed
qed

lemma file_stamp_Inr:
  "(file_stamp os h t = (t', Inr s)) =
     (t' = Suc t \<and> (\<exists>m. host_fstat os t h = Inr m \<and> owner_controlled os m \<and> s = stamp_of m))"
  by (auto simp: file_stamp_def io_simps)

text \<open>A stamp tells devices, inodes, lengths, owners, modes and times apart.\<close>

lemma stamp_of_inj: "stamp_of a = stamp_of b \<Longrightarrow>
    fst_dev a = fst_dev b \<and> fst_ino a = fst_ino b \<and> fst_len a = fst_len b \<and>
    fst_mtime a = fst_mtime b \<and> fst_mtime_nsec a = fst_mtime_nsec b \<and>
    fst_ctime a = fst_ctime b \<and> fst_ctime_nsec a = fst_ctime_nsec b"
  by (simp add: stamp_of_def)

text \<open>A path at some moment of a span leads to a file with a stamp.\<close>

definition leads_to :: "host_os \<Rightarrow> path \<Rightarrow> stamp \<Rightarrow> nat \<Rightarrow> nat \<Rightarrow> bool" where
  "leads_to os path s t t' =
     (\<exists>\<tau> h m. t \<le> \<tau> \<and> Suc \<tau> < t' \<and> host_open os \<tau> path False = Inr h \<and>
        host_fstat os (Suc \<tau>) h = Inr m \<and> owner_controlled os m \<and> stamp_of m = s)"

text \<open>An open file has a stamp at some moment of a span.\<close>

definition has_stamp :: "host_os \<Rightarrow> nat \<Rightarrow> stamp \<Rightarrow> nat \<Rightarrow> nat \<Rightarrow> bool" where
  "has_stamp os h s t t' =
     (\<exists>\<tau> m. t \<le> \<tau> \<and> \<tau> < t' \<and> host_fstat os \<tau> h = Inr m \<and> owner_controlled os m \<and> stamp_of m = s)"

lemma recheck_file_Inr:
  assumes "recheck_file os requested path s h t = (t', Inr u)"
  shows "leads_to os path s t t' \<and> has_stamp os h s t t' \<and>
    (\<exists>\<tau>. t \<le> \<tau> \<and> \<tau> < t' \<and> host_canonicalize os \<tau> requested = Inr path) \<and>
    (\<exists>parent \<tau>. path_parent path = Some parent \<and> \<tau> \<le> t' \<and> chain_trusted os parent t \<tau>)"
proof -
  obtain parent t1 where c: "path_parent path = Some parent"
      "check_trusted_directory_chain os parent t = (t1, Inr ())"
      "host_canonicalize os t1 requested = Inr path"
    and h: "\<exists>m. host_fstat os (Suc t1) h = Inr m \<and> owner_controlled os m \<and> s = stamp_of m"
    and a: "\<exists>again m. host_open os (Suc (Suc t1)) path False = Inr again \<and>
      host_fstat os (Suc (Suc (Suc t1))) again = Inr m \<and> owner_controlled os m \<and> s = stamp_of m"
    and t': "t' = Suc (Suc (Suc (Suc t1)))"
    using assms by (auto simp: recheck_file_def io_simps result_simps file_stamp_Inr)
  have "t \<le> t1" using c(2) forwardD forward_files by blast
  show ?thesis
  proof (intro conjI)
    show "leads_to os path s t t'"
      using a t' \<open>t \<le> t1\<close> unfolding leads_to_def
      by (rule_tac exI [of _ "Suc (Suc t1)"]) auto
    show "has_stamp os h s t t'"
      using h t' \<open>t \<le> t1\<close> unfolding has_stamp_def by (intro exI [of _ "Suc t1"]) auto
    show "\<exists>\<tau>. t \<le> \<tau> \<and> \<tau> < t' \<and> host_canonicalize os \<tau> requested = Inr path"
      using c(3) t' \<open>t \<le> t1\<close> by (intro exI [of _ t1]) simp
    show "\<exists>parent \<tau>. path_parent path = Some parent \<and> \<tau> \<le> t' \<and> chain_trusted os parent t \<tau>"
      using c(1) check_chain_Inr [OF c(2)] t' by (intro exI [of _ parent] exI [of _ t1]) simp
  qed
qed


lemma open_limited_Inr:
  assumes "open_limited os sha path limit t = (t', Inr f)"
  shows "bound_path f = path \<and> bound_size f \<le> limit \<and>
    has_stamp os (bound_handle f) (bound_stamp f) t t' \<and>
    (\<exists>parent \<tau>. path_parent path = Some parent \<and> \<tau> \<le> t' \<and> chain_trusted os parent t \<tau>) \<and>
    (\<exists>bytes t1 t2. read_bytes os (bound_handle f) limit [] t1 = (t2, Inr bytes) \<and> t \<le> t1 \<and> t2 \<le> t' \<and>
       bound_sha256 f = to_hex (sha bytes) \<and> bound_size f = length bytes)"
proof -
  obtain parent t1 where c: "path_parent path = Some parent"
      "check_trusted_directory_chain os parent t = (t1, Inr ())"
    using assms by (auto simp: open_limited_def io_simps result_simps)
  have "t \<le> t1" using c(2) forwardD forward_files by blast
  obtain m s bytes t2 where r: "host_fstat os (Suc (Suc t1)) (bound_handle f) = Inr s" "owner_controlled os s"
      "bound_stamp f = stamp_of s" "bound_path f = path"
      "read_bytes os (bound_handle f) limit [] (Suc (Suc (Suc (Suc t1)))) = (t2, Inr bytes)"
      "bound_sha256 f = to_hex (sha bytes)" "bound_size f = length bytes" "bound_size f \<le> limit"
      "t' = Suc (Suc t2)"
    using assms c by (auto simp: open_limited_def io_simps result_simps file_stamp_Inr)
  have "Suc (Suc (Suc (Suc t1))) \<le> t2" using r(5) forwardD forward_reads by blast
  then have after: "t \<le> Suc (Suc t1)" "Suc (Suc t1) < t'" "t2 \<le> t'" "t1 \<le> t'"
      "t \<le> Suc (Suc (Suc (Suc t1)))"
    using \<open>t \<le> t1\<close> r(9) by simp_all
  have "has_stamp os (bound_handle f) (bound_stamp f) t t'"
    unfolding has_stamp_def
    by (intro exI conjI, rule after(1), rule after(2), rule r(1), rule r(2), rule r(3) [symmetric])
  moreover have "\<exists>bytes t1 t2. read_bytes os (bound_handle f) limit [] t1 = (t2, Inr bytes) \<and> t \<le> t1 \<and>
      t2 \<le> t' \<and> bound_sha256 f = to_hex (sha bytes) \<and> bound_size f = length bytes"
    by (intro exI conjI, rule r(5), rule after(5), rule after(3), rule r(6), rule r(7))
  moreover have "\<exists>parent \<tau>. path_parent path = Some parent \<and> \<tau> \<le> t' \<and> chain_trusted os parent t \<tau>"
    using c(1) check_chain_Inr [OF c(2)] after(4) by blast
  ultimately show ?thesis using r(4,8) by simp
qed

lemma executable_open_Inr:
  assumes "executable_open os sha requested t = (t', Inr exe)"
  shows "exe_requested exe = requested \<and> has_stamp os (exe_handle exe) (exe_stamp exe) t t' \<and>
    (\<exists>parent \<tau>. path_parent (exe_path exe) = Some parent \<and> \<tau> \<le> t' \<and> chain_trusted os parent (Suc t) \<tau>) \<and>
    (\<exists>bytes t1 t2 t3. read_prefix os (exe_handle exe) 4 [] t1 = (t2, Inr ELF_MAGIC) \<and>
       read_bytes os (exe_handle exe) MAX_IDENTITY_FILE_BYTES ELF_MAGIC t2 = (t3, Inr bytes) \<and>
       t \<le> t1 \<and> t3 \<le> t' \<and> exe_sha256 exe = to_hex (sha bytes))"
proof -
  obtain parent t1 where c: "path_parent (exe_path exe) = Some parent"
      "check_trusted_directory_chain os parent (Suc t) = (t1, Inr ())"
    using assms by (auto simp: executable_open_def io_simps result_simps)
  have "Suc t \<le> t1" using c(2) forwardD forward_files by blast
  obtain s bytes t2 t3 where r: "host_fstat os (Suc t1) (exe_handle exe) = Inr s" "owner_controlled os s"
      "exe_stamp exe = stamp_of s" "exe_requested exe = requested"
      "read_prefix os (exe_handle exe) 4 [] (Suc (Suc (Suc t1))) = (t2, Inr ELF_MAGIC)"
      "read_bytes os (exe_handle exe) MAX_IDENTITY_FILE_BYTES ELF_MAGIC t2 = (t3, Inr bytes)"
      "exe_sha256 exe = to_hex (sha bytes)" "t' = Suc (Suc t3)"
    using assms c by (auto simp: executable_open_def io_simps result_simps file_stamp_Inr)
  have "Suc (Suc (Suc t1)) \<le> t2" "t2 \<le> t3" using r(5,6) forwardD forward_reads by blast+
  then have after: "t \<le> Suc t1" "Suc t1 < t'" "t3 \<le> t'" "t1 \<le> t'" "t \<le> Suc (Suc (Suc t1))"
    using \<open>Suc t \<le> t1\<close> r(8) by simp_all
  have "has_stamp os (exe_handle exe) (exe_stamp exe) t t'"
    unfolding has_stamp_def
    by (intro exI conjI, rule after(1), rule after(2), rule r(1), rule r(2), rule r(3) [symmetric])
  moreover have "\<exists>parent \<tau>. path_parent (exe_path exe) = Some parent \<and> \<tau> \<le> t' \<and>
      chain_trusted os parent (Suc t) \<tau>"
    using c(1) check_chain_Inr [OF c(2)] after(4) by blast
  moreover have "\<exists>bytes t1 t2 t3. read_prefix os (exe_handle exe) 4 [] t1 = (t2, Inr ELF_MAGIC) \<and>
      read_bytes os (exe_handle exe) MAX_IDENTITY_FILE_BYTES ELF_MAGIC t2 = (t3, Inr bytes) \<and>
      t \<le> t1 \<and> t3 \<le> t' \<and> exe_sha256 exe = to_hex (sha bytes)"
    by (intro exI conjI, rule r(5), rule r(6), rule after(5), rule after(3), rule r(7))
  ultimately show ?thesis using r(4) by blast
qed

section \<open>A host to evaluate on\<close>

text \<open>One directory, the root, and one file with five bytes, of user 7.\<close>

definition example_stat :: file_stat where
  "example_stat =
     \<lparr>fst_kind = PlainFile, fst_dev = 1, fst_ino = 2, fst_nlink = 1, fst_mode = 0x1C0, fst_uid = 7,
      fst_len = 5, fst_mtime = 3, fst_mtime_nsec = 0, fst_ctime = 3, fst_ctime_nsec = 0\<rparr>"

definition example_host :: host_os where
  "example_host =
     \<lparr>host_euid = 7, host_env = Map.empty, host_arch = ''x86_64'',
      host_machine = (\<lambda>t. ''x86_64''), host_kernel_release = (\<lambda>t. ''6.1''),
      host_lstat = (\<lambda>t path. Inr (if path = [RootDir]
        then example_stat\<lparr>fst_kind := PlainDirectory, fst_uid := 0\<rparr> else example_stat)),
      host_stat = (\<lambda>t path. Inr example_stat),
      host_canonicalize = (\<lambda>t path. Inr path), host_read_link = (\<lambda>t path. Inl KindOther),
      host_read_dir = (\<lambda>t path. Inl KindOther), host_read_all = (\<lambda>t path. Inl KindOther),
      host_open = (\<lambda>t path nofollow. Inr 4), host_fstat = (\<lambda>t h. Inr example_stat),
      host_read = (\<lambda>t h off. Inr (drop off (ELF_MAGIC @ ''x'')))\<rparr>"

definition example_file :: path where
  "example_file = [RootDir, Normal ''codex'']"

lemma example_host_chain: "check_trusted_directory_chain example_host [RootDir] t = (Suc (Suc t), Inr ())"
  by (simp add: check_trusted_directory_chain_def check_directory_def ancestors.simps path_parent_def
      io_then_def call_def io_ensure_def io_return_def example_host_def example_stat_def)

lemma example_host_stamp: "file_stamp example_host h t = (Suc t, Inr (stamp_of example_stat))"
  by (simp add: file_stamp_def io_then_def call_def io_ensure_def io_return_def owner_controlled_def
      example_host_def example_stat_def)

lemma example_host_prefix: "read_prefix example_host h 4 [] t = (Suc t, Inr ELF_MAGIC)"
  by (simp add: read_prefix.simps example_host_def ELF_MAGIC_def)

lemma example_host_bytes:
  "read_bytes example_host h MAX_IDENTITY_FILE_BYTES ELF_MAGIC t = (Suc (Suc t), Inr (ELF_MAGIC @ ''x''))"
  by (simp add: read_bytes.simps example_host_def ELF_MAGIC_def READ_BUFFER_def
      MAX_IDENTITY_FILE_BYTES_def)

lemma example_host_bytes':
  "read_bytes example_host h 100 [] t = (Suc (Suc t), Inr (ELF_MAGIC @ ''x''))"
  by (simp add: read_bytes.simps example_host_def ELF_MAGIC_def READ_BUFFER_def)

lemma example_host_steady: "steady example_host h (ELF_MAGIC @ ''x'') t t'"
  by (auto simp: steady_def example_host_def intro!: exI [of _ 5] simp: ELF_MAGIC_def)

definition example_executable :: executable where
  "example_executable =
     \<lparr>exe_requested = example_file, exe_path = example_file, exe_sha256 = to_hex (replicate 32 0),
      exe_stamp = stamp_of example_stat, exe_handle = 4\<rparr>"

lemma example_host_calls:
  "host_canonicalize example_host t path = Inr path" "host_open example_host t path n = Inr 4"
  "host_fstat example_host t h = Inr example_stat" "unat (fst_len example_stat) = 5"
  "host_lstat example_host t example_file = Inr example_stat" "fst_kind example_stat = PlainFile"
  by (simp_all add: example_host_def example_stat_def example_file_def)

lemma example_sizes: "5 \<le> MAX_IDENTITY_FILE_BYTES" "length (ELF_MAGIC @ ''x'') = 5"
  by (simp_all add: MAX_IDENTITY_FILE_BYTES_def ELF_MAGIC_def)

lemma example_file_parent: "path_parent example_file = Some [RootDir]"
  by (simp add: path_parent_def example_file_def)

lemmas example_host_simps = example_host_calls example_host_chain example_host_stamp example_host_prefix
  example_host_bytes example_host_bytes' example_file_parent example_sizes

lemma example_executable_open:
  "executable_open example_host (\<lambda>_. replicate 32 0) example_file 0 = (11, Inr example_executable)"
  by (simp add: executable_open_def io_run example_host_simps ok_or_def example_executable_def
      del: length_append)

lemma example_executable_recheck: "executable_recheck example_host example_executable t = (t + 6, Inr ())"
  by (simp add: executable_recheck_def recheck_file_def io_run example_host_simps ok_or_def
      example_executable_def)

lemma example_open_limited:
  "open_limited example_host (\<lambda>_. replicate 32 0) example_file 100 0 =
     (10, Inr \<lparr>bound_path = example_file, bound_stamp = stamp_of example_stat, bound_handle = 4,
        bound_sha256 = to_hex (replicate 32 0), bound_size = 5\<rparr>)"
  by (simp add: open_limited_def io_run example_host_simps ok_or_def del: length_append)

section \<open>Properties\<close>

text \<open>A file that is bound has a chain of trusted directories above it, an owner who controls it and
  at most as many bytes as allowed; if its bytes do not change while it is read, its digest is that of
  all of them.\<close>

theorem bound_file_exact:
  assumes "open_limited os sha path limit t = (t', Inr f)" "steady os (bound_handle f) content t t'"
  shows "bound_sha256 f = to_hex (sha content) \<and> bound_size f = length content \<and> length content \<le> limit \<and>
    (\<exists>\<tau> m. t \<le> \<tau> \<and> \<tau> < t' \<and> host_fstat os \<tau> (bound_handle f) = Inr m \<and> owner_controlled os m \<and>
       stamp_of m = bound_stamp f) \<and>
    (\<exists>parent \<tau>. path_parent path = Some parent \<and> chain_trusted os parent t \<tau>)"
proof -
  note o = open_limited_Inr [OF assms(1)]
  obtain bytes t1 t2 where b: "read_bytes os (bound_handle f) limit [] t1 = (t2, Inr bytes)" "t \<le> t1" "t2 \<le> t'"
      "bound_sha256 f = to_hex (sha bytes)" "bound_size f = length bytes"
    using o by blast
  have "bytes = content"
    using read_bytes_steady [OF b(1) steady_sub [OF assms(2) b(2,3)]] by simp
  then show ?thesis using o b by (auto simp: has_stamp_def)
qed

theorem bound_file_exact_witness:
  "\<exists>f t'. open_limited example_host (\<lambda>_. replicate 32 0) example_file 100 0 = (t', Inr f) \<and>
     bound_size f = length (ELF_MAGIC @ ''x'') \<and> bound_sha256 f = to_hex (replicate 32 0)"
  using bound_file_exact [OF example_open_limited example_host_steady] example_open_limited by blast

text \<open>C32: when the check of a running process succeeds, the image it runs has the device, the inode, the
  length and the times of the file whose bytes were hashed, and that file began with the ELF magic.\<close>

theorem verified_process_runs_hashed_file:
  assumes "executable_open os sha requested t0 = (t1, Inr exe)"
    and "steady os (exe_handle exe) content t0 t1"
    and "executable_verify_process os exe pid t2 = (t3, Inr u)"
  shows "exe_sha256 exe = to_hex (sha content) \<and> take 4 content = [CHR 0x7F, CHR ''E'', CHR ''L'', CHR ''F''] \<and>
    (\<exists>\<tau> m \<tau>' h m'. t0 \<le> \<tau> \<and> \<tau> < t1 \<and> host_fstat os \<tau> (exe_handle exe) = Inr m \<and>
       t2 \<le> \<tau>' \<and> Suc \<tau>' < t3 \<and> host_open os \<tau>' (proc_exe pid) False = Inr h \<and>
       host_fstat os (Suc \<tau>') h = Inr m' \<and>
       fst_dev m' = fst_dev m \<and> fst_ino m' = fst_ino m \<and> fst_len m' = fst_len m \<and>
       fst_mtime m' = fst_mtime m \<and> fst_ctime m' = fst_ctime m)"
proof -
  note o = executable_open_Inr [OF assms(1)]
  obtain bytes s1 s2 s3 where b: "read_prefix os (exe_handle exe) 4 [] s1 = (s2, Inr ELF_MAGIC)"
      "read_bytes os (exe_handle exe) MAX_IDENTITY_FILE_BYTES ELF_MAGIC s2 = (s3, Inr bytes)"
      "t0 \<le> s1" "s3 \<le> t1" "exe_sha256 exe = to_hex (sha bytes)"
    using o by blast
  have le: "s1 \<le> s2" "s2 \<le> s3" using b(1,2) forwardD forward_reads by blast+
  have magic: "ELF_MAGIC = take 4 content"
    using read_prefix_steady [OF b(1) steady_sub [OF assms(2) b(3)]] le b(4) by simp
  have "steady os (exe_handle exe) content s2 s3"
    using le b(3,4) by (intro steady_sub [OF assms(2)]) simp_all
  moreover have "ELF_MAGIC = take (length ELF_MAGIC) content"
  proof -
    have "length ELF_MAGIC = 4" by (simp add: ELF_MAGIC_def)
    then show ?thesis unfolding \<open>length ELF_MAGIC = 4\<close> by (intro magic)
  qed
  ultimately have "bytes = content" by (rule read_bytes_steady [OF b(2)])
  then have sha: "exe_sha256 exe = to_hex (sha content)" using b(5) by simp
  obtain s h m' where r: "executable_recheck os exe t2 = (s, Inr ())"
      "host_open os s (proc_exe pid) False = Inr h" "host_fstat os (Suc s) h = Inr m'"
      "stamp_of m' = exe_stamp exe" "t3 = Suc (Suc s)"
    using assms(3) by (auto simp: executable_verify_process_def io_simps file_stamp_Inr)
  have s: "t2 \<le> s" "Suc s < t3" using r(1,5) forwardD [OF forward_executable(2)] by blast+
  obtain \<tau> m where m: "t0 \<le> \<tau>" "\<tau> < t1" "host_fstat os \<tau> (exe_handle exe) = Inr m"
      "stamp_of m = exe_stamp exe"
    using o by (auto simp: has_stamp_def)
  have "stamp_of m' = stamp_of m" using r(4) m(4) by simp
  note inj = stamp_of_inj [OF this]
  show ?thesis
    using sha magic [symmetric] inj m(1-3) s r(2,3) unfolding ELF_MAGIC_def by blast
qed

theorem verified_process_runs_hashed_file_witness:
  "exe_sha256 example_executable = to_hex (replicate 32 0) \<and>
   (\<exists>\<tau> m \<tau>' h m'. host_fstat example_host \<tau> 4 = Inr m \<and>
      host_open example_host \<tau>' (proc_exe 42) False = Inr h \<and> host_fstat example_host (Suc \<tau>') h = Inr m' \<and>
      fst_ino m' = fst_ino m)"
proof -
  have "executable_verify_process example_host example_executable 42 20 = (28, Inr ())"
    by (simp add: executable_verify_process_def io_run example_executable_recheck example_host_simps)
      (simp add: example_executable_def)
  from verified_process_runs_hashed_file [OF example_executable_open example_host_steady this]
  show ?thesis by (simp add: example_executable_def) blast
qed

end
