(* ===== verification/Artifact.thy ===== *)
theory Artifact
  imports Trusted_Files Certification
begin

text \<open>
  The native package that a Codex launch path leads to, \<^verbatim>\<open>src/artifact.rs\<close> on Linux:
  its location, the list of its files, the digest that binds them all, and the check that nothing has
  changed.  The JSON tokenizer and SHA-256 are parameters.
\<close>

section \<open>Limits and errors\<close>

definition MAX_FILES :: nat where
  "MAX_FILES = 256"

definition MAX_DIRECTORIES :: nat where
  "MAX_DIRECTORIES = 512"

definition MAX_BYTES :: nat where
  "MAX_BYTES = 2 * 1024 * 1024 * 1024"

definition MAX_METADATA_BYTES :: nat where
  "MAX_METADATA_BYTES = 64 * 1024"

definition MAX_LAUNCH_BYTES :: nat where
  "MAX_LAUNCH_BYTES = 16 * 1024 * 1024"

datatype artifact_error =
    ArtifactIo io_kind
  | ArtifactIdentity identity_error
  | NoFilename
  | NoPackageRoot
  | PackageJsonMissing
  | MetadataTooLarge
  | AmbiguousMetadata
  | MetadataDecode
  | UnrecognizedEntrypoint
  | UnsupportedBundleTarget
  | MetadataMismatch
  | ForeignEntrypoint
  | MissingResources
  | ShimIsExecutable
  | TooManyDirectories
  | TooManyFiles
  | SymlinkInBundle
  | NonRegularEntry
  | NameNotUnicode
  | EmptyBundle
  | BundleTooLarge
  | BundleFileChanged
  | BundleChanged
  | NoLaunchRoot

type_synonym 'a artifact_io = "(artifact_error, 'a) io"

definition io_map_err :: "('e \<Rightarrow> 'f) \<Rightarrow> ('e, 'a) io \<Rightarrow> ('f, 'a) io" where
  "io_map_err f m = (\<lambda>t. case m t of (t', r) \<Rightarrow> (t', map_err f r))"

lemma io_map_err_Inr [io_simps]: "(io_map_err f m t = (t', Inr x)) = (m t = (t', Inr x))"
  by (auto simp: io_map_err_def split: prod.splits)

lemma forward_map_err [forward_intros]: "forward m \<Longrightarrow> forward (io_map_err f m)"
  by (auto simp: forward_def io_map_err_def split: prod.splits) (metis fst_conv)

lemma yields_map_err: "yields m x \<Longrightarrow> yields (io_map_err f m) x"
  unfolding yields_def io_map_err_def
proof
  fix t
  assume "\<forall>t. snd (m t) = Inr x"
  then show "snd (case m t of (t', r) \<Rightarrow> (t', map_err f r)) = Inr x"
    by (simp split: prod.split) (metis snd_conv)
qed

section \<open>Metadata\<close>

record package_metadata =
  layout_version :: u32
  package_version :: string
  package_target :: string
  variant :: string
  entrypoint :: string
  resources_dir :: string
  path_dir :: string

definition package_metadata_decode :: "json \<Rightarrow> package_metadata option" where
  "package_metadata_decode v =
     (case struct_fields
         [''layoutVersion'', ''version'', ''target'', ''variant'', ''entrypoint'', ''resourcesDir'', ''pathDir''] v
      of None \<Rightarrow> None | Some f \<Rightarrow>
        bind_field f ''layoutVersion'' u32_decode (\<lambda>layout.
        bind_field f ''version'' as_str (\<lambda>version.
        bind_field f ''target'' as_str (\<lambda>target.
        bind_field f ''variant'' as_str (\<lambda>variant.
        bind_field f ''entrypoint'' as_str (\<lambda>entrypoint.
        bind_field f ''resourcesDir'' as_str (\<lambda>resources.
        bind_field f ''pathDir'' as_str (\<lambda>path.
        Some \<lparr>layout_version = layout, package_version = version, package_target = target,
              variant = variant, entrypoint = entrypoint, resources_dir = resources,
              path_dir = path\<rparr>))))))))"

definition read_json :: "host_os \<Rightarrow> tokenizer \<Rightarrow> (json \<Rightarrow> 'a option) \<Rightarrow> path \<Rightarrow> 'a artifact_io" where
  "read_json os tok dec path =
     io_then (call ArtifactIo (\<lambda>t. host_read_all os t path)) (\<lambda>body.
     io_then (io_ensure (length body \<le> MAX_METADATA_BYTES) MetadataTooLarge) (\<lambda>_.
     io_then (io_of (map_err (\<lambda>_. AmbiguousMetadata) (parse_unique_object tok body))) (\<lambda>value.
     io_of (ok_or MetadataDecode (dec value)))))"

definition under :: "path \<Rightarrow> string list \<Rightarrow> path" where
  "under root names = root @ List.map Normal names"

definition read_package_metadata :: "host_os \<Rightarrow> tokenizer \<Rightarrow> path \<Rightarrow> package_metadata artifact_io" where
  "read_package_metadata os tok root =
     read_json os tok package_metadata_decode (under root [''codex-package.json''])"

text \<open>\<^verbatim>\<open>Value::get\<close>, and \<^verbatim>\<open>as_str\<close> of what it finds.\<close>

definition get_str :: "json \<Rightarrow> string \<Rightarrow> string option" where
  "get_str v key =
     Option.bind (Option.bind (as_object v) (\<lambda>kvs. map_of kvs key)) as_str"

section \<open>Location\<close>

record location =
  loc_root :: path
  loc_executable :: path
  loc_kind :: string
  loc_shim :: "path option"
  loc_npm_package_json :: "path option"

definition native_target :: "string \<Rightarrow> (artifact_error, string \<times> string) result" where
  "native_target arch =
     (if arch = ''x86_64'' then Inr (''codex-linux-x64'', ''x86_64-unknown-linux-musl'')
      else if arch = ''aarch64'' then Inr (''codex-linux-arm64'', ''aarch64-unknown-linux-musl'')
      else Inl UnsupportedBundleTarget)"

text \<open>\<^verbatim>\<open>Path::is_file\<close> and \<^verbatim>\<open>is_dir\<close> take any failure for an answer.\<close>

definition stat_is :: "host_os \<Rightarrow> inode_kind \<Rightarrow> path \<Rightarrow> bool artifact_io" where
  "stat_is os kind path =
     try_call (\<lambda>t. case host_stat os t path of Inl e \<Rightarrow> False | Inr m \<Rightarrow> fst_kind m = kind)"

text \<open>The root, the kind, the shim, the npm version and the npm package file that the canonical
  path points at.\<close>

type_synonym guess = "path \<times> string \<times> path option \<times> string option \<times> path option"

definition guess_npm :: "host_os \<Rightarrow> tokenizer \<Rightarrow> string \<Rightarrow> path \<Rightarrow> guess artifact_io" where
  "guess_npm os tok requested_name canonical =
     io_then (io_of (ok_or NoPackageRoot (Option.bind (path_parent canonical) path_parent))) (\<lambda>npm_root.
     io_then (stat_is os PlainFile (under npm_root [''package.json''])) (\<lambda>present.
     io_then (io_ensure present PackageJsonMissing) (\<lambda>_.
     io_then (io_map_err ArtifactIdentity (check_trusted_directory_chain os npm_root)) (\<lambda>_.
     io_then (read_json os tok Some (under npm_root [''package.json''])) (\<lambda>package.
     io_then (io_ensure (get_str package ''name'' = Some ''@openai/codex'' \<and>
         get_str package ''version'' \<noteq> None \<and>
         path_ends_with canonical [Normal ''bin'', Normal ''codex.js'']) UnrecognizedEntrypoint) (\<lambda>_.
     io_then (io_of (native_target (host_arch os))) (\<lambda>(package_name, triple).
     io_return
       (under npm_root [''node_modules'', ''@openai'', package_name, ''vendor'', triple],
        if requested_name = ''codex.cmd'' then ''npm-cmd''
        else if requested_name = ''codex.ps1'' then ''npm-ps1'' else ''npm-bin'',
        Some canonical, get_str package ''version'', Some (under npm_root [''package.json''])))))))))"

definition guess_native :: "path \<Rightarrow> guess artifact_io" where
  "guess_native canonical =
     io_then (io_of (ok_or NoPackageRoot (path_parent canonical))) (\<lambda>parent.
     io_then (if file_name parent = Some ''bin''
              then io_of (ok_or NoPackageRoot (path_parent parent)) else io_return parent) (\<lambda>root.
     io_return (root, ''native'', None, None, None)))"

definition allowed_entrypoints :: "string \<Rightarrow> path list" where
  "allowed_entrypoints triple =
     [[Normal ''bin'', Normal ''codex''], [Normal ''codex''], [Normal (''codex-'' @ triple)]]"

definition locate :: "host_os \<Rightarrow> tokenizer \<Rightarrow> path \<Rightarrow> string \<Rightarrow> location artifact_io" where
  "locate os tok requested version =
     io_then (call ArtifactIo (\<lambda>t. host_canonicalize os t requested)) (\<lambda>canonical.
     io_then (io_of (ok_or NoFilename (file_name canonical))) (\<lambda>name.
     io_then (io_of (ok_or NoFilename (file_name requested))) (\<lambda>requested_name.
     io_then (if name = ''codex.js'' then guess_npm os tok requested_name canonical
              else guess_native canonical) (\<lambda>(root, kind, shim, npm_version, npm_package_json).
     io_then (call ArtifactIo (\<lambda>t. host_canonicalize os t root)) (\<lambda>root.
     io_then (io_map_err ArtifactIdentity (check_trusted_directory_chain os root)) (\<lambda>_.
     io_then (read_package_metadata os tok root) (\<lambda>metadata.
     io_then (io_of (native_target (host_arch os))) (\<lambda>(package_name, triple).
     io_then (io_ensure (layout_version metadata = 1 \<and> variant metadata = ''codex'' \<and>
         resources_dir metadata = ''codex-resources'' \<and> path_dir metadata = ''codex-path'' \<and>
         package_target metadata = triple \<and> (version = [] \<or> package_version metadata = version) \<and>
         (kind = ''native'' \<or> npm_version = Some (package_version metadata))) MetadataMismatch) (\<lambda>_.
     io_then (io_ensure (path_of_string (entrypoint metadata) \<in> set (allowed_entrypoints triple))
         UnrecognizedEntrypoint) (\<lambda>_.
     io_then (call ArtifactIo (\<lambda>t. host_canonicalize os t
         (path_join root (path_of_string (entrypoint metadata))))) (\<lambda>exe.
     io_then (io_ensure (path_starts_with exe root \<and> (kind = ''native'' \<longrightarrow> exe = canonical))
         ForeignEntrypoint) (\<lambda>_.
     io_then (stat_is os PlainDirectory (under root [''codex-resources''])) (\<lambda>resources.
     io_then (io_ensure resources MissingResources) (\<lambda>_.
     io_then (stat_is os PlainDirectory (under root [''codex-path''])) (\<lambda>paths.
     io_then (io_ensure paths MissingResources) (\<lambda>_.
     io_then (io_ensure (shim \<noteq> Some exe) ShimIsExecutable) (\<lambda>_.
     io_return \<lparr>loc_root = root, loc_executable = exe, loc_kind = kind, loc_shim = shim,
                loc_npm_package_json = npm_package_json\<rparr>)))))))))))))))))"


definition native_path :: "host_os \<Rightarrow> tokenizer \<Rightarrow> path \<Rightarrow> path artifact_io" where
  "native_path os tok requested =
     io_then (locate os tok requested []) (\<lambda>location. io_return (loc_executable location))"

section \<open>The files of a bundle\<close>

text \<open>The entries of one directory: the stack grows by the directories among them and the result by
  the files.  The head of a stack is its top.\<close>

fun scan_entries :: "host_os \<Rightarrow> path \<Rightarrow> path \<Rightarrow> nat \<Rightarrow> path list \<Rightarrow> string list
    \<Rightarrow> (io_kind, string) result list \<Rightarrow> (path list \<times> string list) artifact_io" where
  "scan_entries os root directory directories stack found [] = io_return (stack, found)"
| "scan_entries os root directory directories stack found (Inl k # es) = io_fail (ArtifactIo k)"
| "scan_entries os root directory directories stack found (Inr name # es) =
     (let path = directory @ [Normal name] in
      io_then (call ArtifactIo (\<lambda>t. host_lstat os t path)) (\<lambda>m.
      case fst_kind m of
        Symlink \<Rightarrow> io_fail SymlinkInBundle
      | PlainDirectory \<Rightarrow>
          (if MAX_DIRECTORIES \<le> length stack + directories then io_fail TooManyDirectories
           else scan_entries os root directory directories (path # stack) found es)
      | PlainFile \<Rightarrow>
          (let names = List.map (\<lambda>c. case c of Normal n \<Rightarrow> n | _ \<Rightarrow> []) (drop (length root) path);
               relative = join_on (CHR ''/'') names
           in if \<not> utf8_valid relative then io_fail NameNotUnicode
              else if MAX_FILES < length (found @ [relative]) then io_fail TooManyFiles
              else scan_entries os root directory directories stack (found @ [relative]) es)
      | OtherInode \<Rightarrow> io_fail NonRegularEntry))"

function list_loop :: "host_os \<Rightarrow> path \<Rightarrow> nat \<Rightarrow> path list \<Rightarrow> string list \<Rightarrow> string list artifact_io" where
  "list_loop os root directories [] found = io_return found"
| "list_loop os root directories (directory # stack) found =
     (if MAX_DIRECTORIES < Suc directories then io_fail TooManyDirectories
      else
        io_then (io_map_err ArtifactIdentity (check_trusted_directory_chain os directory)) (\<lambda>_.
        io_then (call ArtifactIo (\<lambda>t. host_read_dir os t directory)) (\<lambda>es.
        io_then (scan_entries os root directory (Suc directories) stack found es) (\<lambda>(stack, found).
        list_loop os root (Suc directories) stack found))))"
  by pat_completeness auto
termination
  by (relation "measure (\<lambda>(os, root, directories, stack, found). Suc MAX_DIRECTORIES - directories)") auto

definition list_files :: "host_os \<Rightarrow> path \<Rightarrow> string list artifact_io" where
  "list_files os root =
     io_then (list_loop os root 0 [root] []) (\<lambda>found.
     io_then (io_ensure (found \<noteq> []) EmptyBundle) (\<lambda>_. io_return (sort found)))"

section \<open>The bundle\<close>

record codex_bundle =
  bundle_executable :: executable
  bundle_sha256 :: string
  bundle_launch_kind :: string
  bundle_launch_sha256 :: string
  bundle_launch_package_sha256 :: string
  package_root :: path
  bundle_requested :: path
  launch_file :: "bound_file option"
  launch_package_file :: "bound_file option"
  bundle_files :: "bound_file list"
  bundle_file_names :: "string list"

definition be_bytes_64 :: "nat \<Rightarrow> string" where
  "be_bytes_64 n = List.map (\<lambda>i. char_of (n div 256 ^ i mod 256)) [7, 6, 5, 4, 3, 2, 1, 0]"

text \<open>What the digest of a bundle is taken of: the name, the size and the digest of every file.\<close>

definition digest_entry :: "string \<times> nat \<times> string \<Rightarrow> string" where
  "digest_entry e = (case e of (name, len, sha256) \<Rightarrow> name @ [CHR 0x00] @ be_bytes_64 len @ sha256)"

definition digest_input :: "(string \<times> nat \<times> string) list \<Rightarrow> string" where
  "digest_input es = ''codex-autoapprover-bundle-v1'' @ [CHR 0x00] @ concat (List.map digest_entry es)"

definition relative_path :: "path \<Rightarrow> string \<Rightarrow> path" where
  "relative_path root name = path_join root (path_of_string name)"

text \<open>The loop over the files: the bytes so far, the files bound and what the digest has been given.\<close>

fun bind_files :: "host_os \<Rightarrow> (string \<Rightarrow> u8 list) \<Rightarrow> path \<Rightarrow> executable \<Rightarrow> nat \<Rightarrow> string list
    \<Rightarrow> (bound_file list \<times> (string \<times> nat \<times> string) list) artifact_io" where
  "bind_files os sha root exe bytes [] = io_return ([], [])"
| "bind_files os sha root exe bytes (name # names) =
     (let path = relative_path root name; remaining = MAX_BYTES - bytes in
      io_then (call ArtifactIo (\<lambda>t. host_stat os t path)) (\<lambda>m.
      let expected_size = unat (fst_len m) in
      io_then (io_ensure (expected_size \<le> remaining) BundleTooLarge) (\<lambda>_.
      io_then (if path = exe_path exe then io_return (exe_sha256 exe, expected_size, [])
               else io_then (io_map_err ArtifactIdentity (open_limited os sha path remaining)) (\<lambda>f.
                 io_return (bound_sha256 f, bound_size f, [f]))) (\<lambda>(sha256, len, bound).
      io_then (io_ensure (len = expected_size) BundleFileChanged) (\<lambda>_.
      io_then (bind_files os sha root exe (bytes + len) names) (\<lambda>(files, es).
      io_return (bound @ files, (name, len, sha256) # es)))))))"

definition bundle_recheck :: "host_os \<Rightarrow> tokenizer \<Rightarrow> codex_bundle \<Rightarrow> unit artifact_io" where
  "bundle_recheck os tok b =
     io_then (read_package_metadata os tok (package_root b)) (\<lambda>metadata.
     io_then (locate os tok (bundle_requested b) (package_version metadata)) (\<lambda>located.
     io_then (io_ensure (loc_root located = package_root b \<and>
         loc_executable located = exe_path (bundle_executable b) \<and>
         loc_kind located = bundle_launch_kind b \<and>
         loc_shim located = map_option bound_path (launch_file b) \<and>
         loc_npm_package_json located = map_option bound_path (launch_package_file b)) BundleChanged) (\<lambda>_.
     io_then (list_files os (package_root b)) (\<lambda>names.
     io_then (io_ensure (names = bundle_file_names b) BundleChanged) (\<lambda>_.
     io_then (io_map_err ArtifactIdentity (executable_recheck os (bundle_executable b))) (\<lambda>_.
     io_then (io_option (\<lambda>f. io_map_err ArtifactIdentity (bound_recheck os f)) (launch_file b)) (\<lambda>_.
     io_then (io_option (\<lambda>f. io_map_err ArtifactIdentity (bound_recheck os f)) (launch_package_file b)) (\<lambda>_.
     io_each (\<lambda>f. io_map_err ArtifactIdentity (bound_recheck os f)) (bundle_files b)))))))))"

definition discover :: "host_os \<Rightarrow> tokenizer \<Rightarrow> (string \<Rightarrow> u8 list) \<Rightarrow> path \<Rightarrow> string \<Rightarrow> codex_bundle artifact_io" where
  "discover os tok sha requested version =
     io_then (locate os tok requested version) (\<lambda>location.
     io_then (io_map_err ArtifactIdentity (executable_open os sha (loc_executable location))) (\<lambda>exe.
     io_then (io_option (\<lambda>path. io_map_err ArtifactIdentity (open_limited os sha path MAX_LAUNCH_BYTES))
         (loc_shim location)) (\<lambda>launch_file.
     io_then (io_option (\<lambda>path. io_map_err ArtifactIdentity (open_limited os sha path MAX_METADATA_BYTES))
         (loc_npm_package_json location)) (\<lambda>launch_package_file.
     io_then (case launch_package_file of
         Some f \<Rightarrow> io_return (bound_sha256 f)
       | None \<Rightarrow>
           io_then (io_map_err ArtifactIdentity (open_limited os sha
               (under (loc_root location) [''codex-package.json'']) MAX_METADATA_BYTES)) (\<lambda>f.
           io_return (bound_sha256 f))) (\<lambda>package_sha256.
     io_then (list_files os (loc_root location)) (\<lambda>names.
     io_then (bind_files os sha (loc_root location) exe 0 names) (\<lambda>(files, es).
     let result =
       \<lparr>bundle_executable = exe, bundle_sha256 = to_hex (sha (digest_input es)),
        bundle_launch_kind = loc_kind location,
        bundle_launch_sha256 = (case launch_file of None \<Rightarrow> exe_sha256 exe | Some f \<Rightarrow> bound_sha256 f),
        bundle_launch_package_sha256 = package_sha256, package_root = loc_root location,
        bundle_requested = requested, launch_file = launch_file,
        launch_package_file = launch_package_file, bundle_files = files, bundle_file_names = names\<rparr>
     in io_then (bundle_recheck os tok result) (\<lambda>_. io_return result))))))))"

section \<open>The environment of the child\<close>

definition LAUNCH_MARKERS :: "string list" where
  "LAUNCH_MARKERS =
     [''CODEX_MANAGED_BY_NPM'', ''CODEX_MANAGED_BY_BUN'', ''CODEX_MANAGED_BY_PNPM'',
      ''CODEX_MANAGED_BY_VITE_PLUS'', ''CODEX_MANAGED_PACKAGE_ROOT'']"

text \<open>A path as the text of an environment variable.\<close>

definition component_text :: "path_component \<Rightarrow> string" where
  "component_text c =
     (case c of RootDir \<Rightarrow> [] | CurDir \<Rightarrow> ''.'' | ParentDir \<Rightarrow> ''..'' | Normal n \<Rightarrow> n | PrefixDir p \<Rightarrow> p)"

definition path_text :: "path \<Rightarrow> string" where
  "path_text path =
     (if path = [RootDir] then ''/'' else join_on (CHR ''/'') (List.map component_text path))"

definition bundle_configure_child :: "codex_bundle \<Rightarrow> spawn_command \<Rightarrow> (artifact_error, spawn_command) result" where
  "bundle_configure_child b command =
     (let cleared = command\<lparr>cmd_env := fold (\<lambda>key e. e(key := None)) LAUNCH_MARKERS (cmd_env command)\<rparr> in
      if starts_with ''npm-'' (bundle_launch_kind b)
      then and_then (ok_or NoLaunchRoot
          (Option.bind (launch_package_file b) (\<lambda>f. path_parent (bound_path f)))) (\<lambda>root.
        Inr (cleared\<lparr>cmd_env := (cmd_env cleared)(''CODEX_MANAGED_BY_NPM'' \<mapsto> ''1'',
                       ''CODEX_MANAGED_PACKAGE_ROOT'' \<mapsto> path_text root)\<rparr>))
      else Inr cleared)"


section \<open>The digest of a bundle\<close>

lemma hex_byte_inj:
  assumes "hex_byte a = hex_byte b"
  shows "a = b"
proof -
  have "unat a < 256" "unat b < 256" by (rule unat_u8_less)+
  then have less: "unat a div 16 < 16" "unat b div 16 < 16" by linarith+
  have "hex_digit (unat a div 16) = hex_digit (unat b div 16)"
    "hex_digit (unat a mod 16) = hex_digit (unat b mod 16)"
    using assms by (simp_all add: hex_byte_def unat_high_nibble unat_low_nibble)
  then have "unat a div 16 = unat b div 16" "unat a mod 16 = unat b mod 16"
    using hex_value_digit less by (metis, metis mod_less_divisor zero_less_numeral)
  then have "unat a = unat b" by (metis div_mult_mod_eq)
  then show ?thesis by (simp add: word_unat_eq_iff)
qed

lemma to_hex_inj: "to_hex as = to_hex bs \<Longrightarrow> as = bs"
proof (induction as arbitrary: bs)
  case Nil
  then show ?case by (cases bs) (simp_all add: to_hex_Cons hex_byte_def)
next
  case (Cons a as)
  then obtain b cs where bs: "bs = b # cs" by (cases bs) (simp_all add: to_hex_Cons hex_byte_def)
  then have "hex_byte a = hex_byte b \<and> to_hex as = to_hex cs"
    using Cons.prems by (simp add: to_hex_Cons hex_byte_def)
  then show ?case using Cons.IH hex_byte_inj bs by simp
qed

lemma length_be_bytes_64 [simp]: "length (be_bytes_64 n) = 8"
  by (simp add: be_bytes_64_def)

lemma char_of_byte_inj: "char_of (a mod 256) = (char_of (b mod 256) :: char) \<Longrightarrow> (a :: nat) mod 256 = b mod 256"
  by (metis mod_mod_trivial of_char_of)

lemma base_256_inj:
  "\<lbrakk>\<forall>i < k. a div 256 ^ i mod 256 = b div 256 ^ i mod 256; a < 256 ^ k; b < 256 ^ k\<rbrakk> \<Longrightarrow> (a :: nat) = b"
proof (induction k arbitrary: a b)
  case (Suc k)
  have "\<forall>i < k. a div 256 div 256 ^ i mod 256 = b div 256 div 256 ^ i mod 256"
    using Suc.prems(1) by (metis Suc_less_eq div_mult2_eq power_Suc)
  moreover have "a div 256 < 256 ^ k" "b div 256 < 256 ^ k"
    using Suc.prems(2,3) by (simp_all add: less_mult_imp_div_less mult.commute)
  ultimately have "a div 256 = b div 256" by (rule Suc.IH)
  moreover have "a mod 256 = b mod 256" using Suc.prems(1) by (metis div_by_1 power_0 zero_less_Suc)
  ultimately show ?case by (metis div_mult_mod_eq)
qed simp

lemma be_bytes_64_inj:
  assumes "be_bytes_64 a = be_bytes_64 b" "a < 2 ^ 64" "b < 2 ^ 64"
  shows "a = b"
proof (rule base_256_inj)
  have e: "\<forall>i \<in> set [7, 6, 5, 4, 3, 2, 1, 0]. a div 256 ^ i mod 256 = b div 256 ^ i mod 256"
    using assms(1) char_of_byte_inj unfolding be_bytes_64_def map_eq_conv by blast
  show "\<forall>i < 8. a div 256 ^ i mod 256 = b div 256 ^ i mod 256"
  proof (intro allI impI)
    fix i :: nat assume "i < 8"
    then have "i \<in> set [7, 6, 5, 4, 3, 2, 1, 0]" by simp arith
    with e show "a div 256 ^ i mod 256 = b div 256 ^ i mod 256" by (rule bspec)
  qed
qed (use assms(2,3) in simp_all)

text \<open>A name without the terminator, a size of 64 bits, a digest of 64 digits.\<close>

definition entry_ok :: "string \<times> nat \<times> string \<Rightarrow> bool" where
  "entry_ok e = (case e of (name, len, sha256) \<Rightarrow>
     CHR 0x00 \<notin> set name \<and> len < 2 ^ 64 \<and> length sha256 = 64)"

lemma digest_entry_inj:
  assumes "digest_entry a @ s = digest_entry b @ r" "entry_ok a" "entry_ok b"
  shows "a = b \<and> s = r"
proof -
  obtain n l h n' l' h' where ab: "a = (n, l, h)" "b = (n', l', h')" by (metis prod_cases3)
  have ok: "CHR 0x00 \<notin> set n" "l < 2 ^ 64" "length h = 64" "CHR 0x00 \<notin> set n'" "l' < 2 ^ 64" "length h' = 64"
    using assms(2,3) unfolding ab entry_ok_def by auto
  have "n @ CHR 0x00 # (be_bytes_64 l @ h @ s) = n' @ CHR 0x00 # (be_bytes_64 l' @ h' @ r)"
    using assms(1) unfolding ab digest_entry_def by simp
  from append_sep_left_inj [OF this ok(1,4)]
  have n: "n = n'" and tail: "be_bytes_64 l @ (h @ s) = be_bytes_64 l' @ (h' @ r)" by blast+
  have "be_bytes_64 l = be_bytes_64 l' \<and> h @ s = h' @ r"
    using tail by (subst (asm) append_eq_append_conv) simp_all
  then have b: "be_bytes_64 l = be_bytes_64 l'" and hs: "h @ s = h' @ r" by simp_all
  from hs have "h = h'" "s = r" using ok(3,6) by simp_all
  then show ?thesis using n be_bytes_64_inj [OF b ok(2,5)] unfolding ab by simp
qed

lemma digest_entry_not_Nil: "digest_entry e \<noteq> []"
  by (simp add: digest_entry_def split: prod.splits)

lemma digest_input_inj:
  assumes "digest_input es = digest_input es'" "\<forall>e \<in> set es. entry_ok e" "\<forall>e \<in> set es'. entry_ok e"
  shows "es = es'"
proof -
  have "concat (map digest_entry es) = concat (map digest_entry es')"
    using assms(1) by (simp add: digest_input_def)
  then show ?thesis
    using assms(2,3)
  proof (induction es arbitrary: es')
    case Nil
    then show ?case by (cases es') (auto simp: digest_entry_not_Nil)
  next
    case (Cons e es)
    then obtain e' fs where es': "es' = e' # fs" by (cases es') (auto simp: digest_entry_not_Nil)
    have "digest_entry e @ concat (map digest_entry es) = digest_entry e' @ concat (map digest_entry fs)"
      using Cons.prems(1) es' by simp
    then have "e = e' \<and> concat (map digest_entry es) = concat (map digest_entry fs)"
      using Cons.prems es' by (intro digest_entry_inj) simp_all
    then show ?case using Cons es' by simp
  qed
qed


section \<open>The list of files\<close>

text \<open>A tree that does not change: the children of each directory, and what each path is.\<close>

definition static_tree :: "host_os \<Rightarrow> (path \<Rightarrow> string list) \<Rightarrow> (path \<Rightarrow> inode_kind) \<Rightarrow> bool" where
  "static_tree os children kind =
     ((\<forall>\<tau> path. host_read_dir os \<tau> path = Inr (map Inr (children path))) \<and>
      (\<forall>\<tau> path. \<exists>m. host_lstat os \<tau> path = Inr m \<and> fst_kind m = kind path))"

inductive below :: "(path \<Rightarrow> string list) \<Rightarrow> (path \<Rightarrow> inode_kind) \<Rightarrow> path \<Rightarrow> path \<Rightarrow> bool"
  for children kind where
  child: "name \<in> set (children d) \<Longrightarrow> below children kind d (d @ [Normal name])"
| deeper: "\<lbrakk>name \<in> set (children d); kind (d @ [Normal name]) = PlainDirectory;
    below children kind (d @ [Normal name]) p\<rbrakk> \<Longrightarrow> below children kind d p"

definition relative_name :: "path \<Rightarrow> path \<Rightarrow> string" where
  "relative_name root path =
     join_on (CHR ''/'') (map (\<lambda>c. case c of Normal n \<Rightarrow> n | _ \<Rightarrow> []) (drop (length root) path))"

text \<open>What the walk finds below a directory.\<close>

definition files_below :: "(path \<Rightarrow> string list) \<Rightarrow> (path \<Rightarrow> inode_kind) \<Rightarrow> path \<Rightarrow> path \<Rightarrow> string set" where
  "files_below children kind root d =
     {relative_name root p | p. below children kind d p \<and> kind p = PlainFile}"

definition all_plain :: "(path \<Rightarrow> string list) \<Rightarrow> (path \<Rightarrow> inode_kind) \<Rightarrow> path \<Rightarrow> bool" where
  "all_plain children kind d =
     (\<forall>p. below children kind d p \<longrightarrow> kind p = PlainFile \<or> kind p = PlainDirectory)"

lemma below_iff:
  "below children kind d p =
     (\<exists>name \<in> set (children d). p = d @ [Normal name] \<or>
        kind (d @ [Normal name]) = PlainDirectory \<and> below children kind (d @ [Normal name]) p)"
  by (subst below.simps) blast

lemma files_below_step:
  "files_below children kind root d =
     {relative_name root (d @ [Normal n]) | n. n \<in> set (children d) \<and> kind (d @ [Normal n]) = PlainFile} \<union>
     (\<Union>p \<in> {d @ [Normal n] | n. n \<in> set (children d) \<and> kind (d @ [Normal n]) = PlainDirectory}.
        files_below children kind root p)"
  unfolding files_below_def by (subst below_iff) blast

lemma all_plain_step:
  assumes "\<forall>n \<in> set (children d). kind (d @ [Normal n]) = PlainFile \<or> kind (d @ [Normal n]) = PlainDirectory"
    and "\<forall>p \<in> {d @ [Normal n] | n. n \<in> set (children d) \<and> kind (d @ [Normal n]) = PlainDirectory}.
      all_plain children kind p"
  shows "all_plain children kind d"
  unfolding all_plain_def
proof (intro allI impI)
  fix p assume "below children kind d p"
  then obtain n where "n \<in> set (children d)" "p = d @ [Normal n] \<or>
      kind (d @ [Normal n]) = PlainDirectory \<and> below children kind (d @ [Normal n]) p"
    by (subst (asm) below_iff) blast
  then show "kind p = PlainFile \<or> kind p = PlainDirectory"
    using assms unfolding all_plain_def by blast
qed

lemma static_tree_read:
  "static_tree os children kind \<Longrightarrow> host_read_dir os \<tau> path = Inr (map Inr (children path))"
  by (simp add: static_tree_def)

lemma scan_entries_Inr:
  assumes "static_tree os children kind"
  shows "scan_entries os root d directories stack found (map Inr names) t = (t', Inr (stack', found')) \<Longrightarrow>
    set stack' = set stack \<union> {d @ [Normal n] | n. n \<in> set names \<and> kind (d @ [Normal n]) = PlainDirectory} \<and>
    set found' = set found \<union>
      {relative_name root (d @ [Normal n]) | n. n \<in> set names \<and> kind (d @ [Normal n]) = PlainFile} \<and>
    (\<forall>n \<in> set names. kind (d @ [Normal n]) = PlainFile \<or> kind (d @ [Normal n]) = PlainDirectory) \<and>
    (length found \<le> MAX_FILES \<longrightarrow> length found' \<le> MAX_FILES)"
proof (induction names arbitrary: stack found t)
  case Nil
  then show ?case by (simp add: io_simps)
next
  case (Cons n names)
  let ?p = "d @ [Normal n]"
  obtain m where m: "host_lstat os t ?p = Inr m" "fst_kind m = kind ?p"
    using assms unfolding static_tree_def by blast
  show ?case
  proof (cases "kind ?p")
    case PlainFile
    then have "scan_entries os root d directories stack (found @ [relative_name root ?p]) (map Inr names) (Suc t) =
        (t', Inr (stack', found'))" "length (found @ [relative_name root ?p]) \<le> MAX_FILES"
      using Cons.prems m by (auto simp: io_simps Let_def relative_name_def not_less split: if_splits)
    from Cons.IH [OF this(1)] this(2) PlainFile show ?thesis by auto
  next
    case PlainDirectory
    then have "scan_entries os root d directories (?p # stack) found (map Inr names) (Suc t) =
        (t', Inr (stack', found'))"
      using Cons.prems m by (auto simp: io_simps Let_def split: if_splits)
    from Cons.IH [OF this] PlainDirectory show ?thesis by auto
  qed (use Cons.prems m in \<open>auto simp: io_simps Let_def\<close>)
qed

lemma list_loop_Inr:
  "static_tree os children kind \<Longrightarrow> list_loop os root directories stack found t = (t', Inr out) \<Longrightarrow> length found \<le> MAX_FILES \<Longrightarrow>
    set out = set found \<union> (\<Union>d \<in> set stack. files_below children kind root d) \<and>
    (\<forall>d \<in> set stack. all_plain children kind d) \<and> length out \<le> MAX_FILES"
proof (induction os root directories stack found arbitrary: t rule: list_loop.induct)
  case (1 os root directories found)
  then show ?case by (simp add: io_simps)
next
  case (2 os root directories d stack found)
  have few: "\<not> MAX_DIRECTORIES < Suc directories" using "2.prems"(2) by (auto simp: io_simps)
  then obtain t1 stack' found' t2 where run:
      "scan_entries os root d (Suc directories) stack found (map Inr (children d)) t1 = (t2, Inr (stack', found'))"
      "list_loop os root (Suc directories) stack' found' t2 = (t', Inr out)"
    using "2.prems"(2) by (auto simp: io_simps static_tree_read [OF "2.prems"(1)])
  note scan = scan_entries_Inr [OF "2.prems"(1) run(1)]
  have small: "length found' \<le> MAX_FILES" using scan "2.prems"(3) by blast
  note rest = "2.IH" [OF few "2.prems"(1) run(2) small]
  define D where "D = {d @ [Normal n] | n. n \<in> set (children d) \<and> kind (d @ [Normal n]) = PlainDirectory}"
  define P where "P =
    {relative_name root (d @ [Normal n]) | n. n \<in> set (children d) \<and> kind (d @ [Normal n]) = PlainFile}"
  have sets: "set stack' = set stack \<union> D" "set found' = set found \<union> P"
    using scan unfolding D_def P_def by blast+
  have "\<forall>p \<in> D. all_plain children kind p" "\<forall>p \<in> set stack. all_plain children kind p"
    using rest sets(1) by blast+
  moreover from this(1) have "all_plain children kind d"
    using scan unfolding D_def by (intro all_plain_step) blast+
  moreover have "files_below children kind root d = P \<union> (\<Union>p \<in> D. files_below children kind root p)"
    unfolding D_def P_def by (rule files_below_step)
  ultimately show ?case using rest unfolding sets by auto
qed


section \<open>What binding establishes\<close>

definition bound_entry :: "path \<Rightarrow> executable \<Rightarrow> bound_file list \<Rightarrow> string \<times> nat \<times> string \<Rightarrow> bool" where
  "bound_entry root exe files e =
     (case e of (name, len, sha256) \<Rightarrow>
        if relative_path root name = exe_path exe then sha256 = exe_sha256 exe
        else \<exists>f \<in> set files. bound_path f = relative_path root name \<and> bound_sha256 f = sha256 \<and>
          bound_size f = len)"

lemma bound_entry_more: "bound_entry root exe files e \<Longrightarrow> bound_entry root exe (front @ files) e"
  by (auto simp: bound_entry_def split: prod.splits if_splits)

lemma bind_files_Inr:
  "bind_files os sha root exe bytes names t = (t', Inr (files, es)) \<Longrightarrow> bytes \<le> MAX_BYTES \<Longrightarrow>
   map fst es = names \<and> bytes + sum_list (map (\<lambda>e. fst (snd e)) es) \<le> MAX_BYTES \<and>
   (\<forall>e \<in> set es. bound_entry root exe files e \<and> fst (snd e) < 2 ^ 64)"
proof (induction names arbitrary: bytes t files es)
  case Nil
  then show ?case by (simp add: io_simps)
next
  case (Cons name names)
  obtain m t1 sha256 bound files' es' where
      stat: "host_stat os t (relative_path root name) = Inr m" "unat (fst_len m) \<le> MAX_BYTES - bytes" and
      entry: "(if relative_path root name = exe_path exe
        then t1 = Suc t \<and> sha256 = exe_sha256 exe \<and> bound = []
        else \<exists>f. open_limited os sha (relative_path root name) (MAX_BYTES - bytes) (Suc t) = (t1, Inr f) \<and>
          sha256 = bound_sha256 f \<and> bound_size f = unat (fst_len m) \<and> bound = [f])" and
      rest: "bind_files os sha root exe (bytes + unat (fst_len m)) names t1 = (t', Inr (files', es'))"
        "files = bound @ files'" "es = (name, unat (fst_len m), sha256) # es'"
    using Cons.prems(1) by (auto simp: io_simps Let_def split: if_splits)
  have "bytes + unat (fst_len m) \<le> MAX_BYTES" using stat(2) Cons.prems(2) by simp
  note ih = Cons.IH [OF rest(1) this]
  have "bound_entry root exe files (name, unat (fst_len m), sha256)"
    using entry rest(2) open_limited_Inr by (force simp: bound_entry_def split: if_splits)
  moreover have "unat (fst_len m) < 2 ^ 64" by (rule order_less_le_trans [OF unsigned_less]) simp
  ultimately show ?case using ih rest(2,3) bound_entry_more by auto
qed

lemma leads_to_mono: "\<lbrakk>leads_to os path s u u'; t \<le> u; u' \<le> t'\<rbrakk> \<Longrightarrow> leads_to os path s t t'"
  unfolding leads_to_def
  by (elim exE) (rule_tac x = \<tau> in exI, rule_tac x = h in exI, rule_tac x = m in exI, auto)

lemma forward_locate [forward_intros]: "forward (locate os tok requested version)"
  by (auto simp: locate_def guess_npm_def guess_native_def read_package_metadata_def read_json_def
      stat_is_def intro!: forward_intros split: prod.splits)

lemma forward_metadata [forward_intros]: "forward (read_package_metadata os tok root)"
  by (auto simp: read_package_metadata_def read_json_def intro!: forward_intros)

lemma forward_scan [forward_intros]: "forward (scan_entries os root d directories stack found es)"
proof (induction es arbitrary: stack found)
  case (Cons e es)
  then show ?case
    by (cases e) (auto intro!: forward_intros simp: Let_def split: inode_kind.splits)
qed (simp add: forward_intros)

lemma forward_list_loop [forward_intros]: "forward (list_loop os root directories stack found)"
  by (induction os root directories stack found rule: list_loop.induct)
    (auto intro!: forward_intros split: prod.splits)

lemma forward_list_files [forward_intros]: "forward (list_files os root)"
  by (auto simp: list_files_def intro!: forward_intros)


lemma each_leads_to:
  assumes "io_each (\<lambda>f. io_map_err ArtifactIdentity (bound_recheck os f)) fs t = (t', Inr u)" "f \<in> set fs"
  shows "leads_to os (bound_path f) (bound_stamp f) t t'"
proof -
  obtain t1 t2 where "t \<le> t1" "t2 \<le> t'" "bound_recheck os f t1 = (t2, Inr ())"
    using io_each_Inr [OF assms forward_map_err [OF forward_bound(3)]] by (auto simp: io_simps)
  then show ?thesis
    using recheck_file_Inr leads_to_mono unfolding bound_recheck_def by blast
qed

lemma option_leads_to:
  assumes "io_option (\<lambda>f. io_map_err ArtifactIdentity (bound_recheck os f)) m t = (t', Inr u)" "m = Some f"
  shows "leads_to os (bound_path f) (bound_stamp f) t t'"
  using assms recheck_file_Inr unfolding bound_recheck_def by (force simp: io_simps)

lemma forward_option_recheck [forward_intros]:
  "forward (io_option (\<lambda>f. io_map_err ArtifactIdentity (bound_recheck os f)) m)"
  by (auto intro!: forward_intros)

definition bundle_unchanged :: "host_os \<Rightarrow> codex_bundle \<Rightarrow> nat \<Rightarrow> nat \<Rightarrow> bool" where
  "bundle_unchanged os b t t' =
     (leads_to os (exe_path (bundle_executable b)) (exe_stamp (bundle_executable b)) t t' \<and>
      (\<forall>f \<in> set (bundle_files b) \<union> set_option (launch_file b) \<union> set_option (launch_package_file b).
         leads_to os (bound_path f) (bound_stamp f) t t') \<and>
      (\<exists>t1 t2. t \<le> t1 \<and> t2 \<le> t' \<and> list_files os (package_root b) t1 = (t2, Inr (bundle_file_names b))))"

lemma bundle_recheck_Inr:
  assumes "bundle_recheck os tok b t = (t', Inr u)"
  shows "bundle_unchanged os b t t'"
proof -
  obtain metadata located t1 t2 t3 t4 t5 t6 where r:
      "read_package_metadata os tok (package_root b) t = (t1, Inr metadata)"
      "locate os tok (bundle_requested b) (package_version metadata) t1 = (t2, Inr located)"
      "list_files os (package_root b) t2 = (t3, Inr (bundle_file_names b))"
      "executable_recheck os (bundle_executable b) t3 = (t4, Inr ())"
      "\<exists>r. io_option (\<lambda>f. io_map_err ArtifactIdentity (bound_recheck os f)) (launch_file b) t4 = (t5, Inr r)"
      "\<exists>r. io_option (\<lambda>f. io_map_err ArtifactIdentity (bound_recheck os f)) (launch_package_file b) t5 = (t6, Inr r)"
      "io_each (\<lambda>f. io_map_err ArtifactIdentity (bound_recheck os f)) (bundle_files b) t6 = (t', Inr ())"
    using assms unfolding bundle_recheck_def
    by (auto simp: io_then_Inr io_ensure_Inr io_map_err_Inr)
  obtain r5 r6 where o:
      "io_option (\<lambda>f. io_map_err ArtifactIdentity (bound_recheck os f)) (launch_file b) t4 = (t5, Inr r5)"
      "io_option (\<lambda>f. io_map_err ArtifactIdentity (bound_recheck os f)) (launch_package_file b) t5 = (t6, Inr r6)"
    using r(5,6) by blast
  have le: "t \<le> t1" "t1 \<le> t2" "t2 \<le> t3" "t3 \<le> t4" "t4 \<le> t5" "t5 \<le> t6" "t6 \<le> t'"
    by (rule forwardD [OF forward_metadata r(1)], rule forwardD [OF forward_locate r(2)],
        rule forwardD [OF forward_list_files r(3)], rule forwardD [OF forward_executable(2) r(4)],
        rule forwardD [OF forward_option_recheck o(1)], rule forwardD [OF forward_option_recheck o(2)],
        rule forwardD [OF forward_each [OF forward_map_err [OF forward_bound(3)]] r(7)])
  have l: "t \<le> t2" "t \<le> t3" "t \<le> t4" "t \<le> t5" "t \<le> t6" "t3 \<le> t'" "t4 \<le> t'" "t5 \<le> t'" "t6 \<le> t'"
    using le by linarith+
  have exe: "leads_to os (exe_path (bundle_executable b)) (exe_stamp (bundle_executable b)) t3 t4"
    using recheck_file_Inr [OF r(4) [unfolded executable_recheck_def]] by blast
  have files: "leads_to os (bound_path f) (bound_stamp f) t t'" if "f \<in> set (bundle_files b)" for f
    by (rule leads_to_mono [OF each_leads_to [OF r(7) that] l(5)]) simp
  have launch: "leads_to os (bound_path f) (bound_stamp f) t t'" if "launch_file b = Some f" for f
    by (rule leads_to_mono [OF option_leads_to [OF o(1) that] l(3) l(8)])
  have package: "leads_to os (bound_path f) (bound_stamp f) t t'" if "launch_package_file b = Some f" for f
    by (rule leads_to_mono [OF option_leads_to [OF o(2) that] l(4) l(9)])
  have "\<exists>t1 t2. t \<le> t1 \<and> t2 \<le> t' \<and> list_files os (package_root b) t1 = (t2, Inr (bundle_file_names b))"
    by (intro exI conjI, rule l(1), rule l(6), rule r(3))
  then show ?thesis
    using leads_to_mono [OF exe l(2) l(7)] files launch package unfolding bundle_unchanged_def by auto
qed


text \<open>What a bundle that has been discovered is bound to.\<close>

definition bundle_bound :: "(string \<Rightarrow> u8 list) \<Rightarrow> codex_bundle \<Rightarrow> (string \<times> nat \<times> string) list \<Rightarrow> bool" where
  "bundle_bound sha b es =
     (bundle_sha256 b = to_hex (sha (digest_input es)) \<and> map fst es = bundle_file_names b \<and>
      sum_list (map (\<lambda>e. fst (snd e)) es) \<le> MAX_BYTES \<and>
      (\<forall>e \<in> set es. bound_entry (package_root b) (bundle_executable b) (bundle_files b) e \<and>
         fst (snd e) < 2 ^ 64))"

lemma forward_bind_files [forward_intros]: "forward (bind_files os sha root exe bytes names)"
  by (induction names arbitrary: bytes) (auto intro!: forward_intros simp: Let_def split: prod.splits)

lemma forward_recheck [forward_intros]: "forward (bundle_recheck os tok b)"
  by (auto simp: bundle_recheck_def intro!: forward_intros)

text \<open>A digest of what was read from an open file in a span; if the file did not change meanwhile these are all its bytes.\<close>

definition file_read :: "host_os \<Rightarrow> (string \<Rightarrow> u8 list) \<Rightarrow> nat \<Rightarrow> stamp \<Rightarrow> string \<Rightarrow> nat \<Rightarrow> nat \<Rightarrow> bool" where
  "file_read os sha h stamp digest t t' =
     (has_stamp os h stamp t t' \<and>
      (\<exists>bytes limit front u u'. digest = to_hex (sha bytes) \<and> t \<le> u \<and> u' \<le> t' \<and>
         read_bytes os h limit front u = (u', Inr bytes) \<and> (\<forall>content. steady os h content t t' \<longrightarrow> bytes = content)))"

lemma file_read_mono: "\<lbrakk>file_read os sha h s d u u'; t \<le> u; u' \<le> t'\<rbrakk> \<Longrightarrow> file_read os sha h s d t t'"
  unfolding file_read_def has_stamp_def
  by (elim conjE exE, intro conjI exI) (auto intro: steady_sub)

lemma open_limited_read:
  assumes "open_limited os sha path limit t = (t', Inr f)"
  shows "bound_path f = path \<and> file_read os sha (bound_handle f) (bound_stamp f) (bound_sha256 f) t t'"
proof -
  note o = open_limited_Inr [OF assms]
  then obtain bytes u u' where r: "read_bytes os (bound_handle f) limit [] u = (u', Inr bytes)" "t \<le> u" "u' \<le> t'"
      "bound_sha256 f = to_hex (sha bytes)" by blast
  have "bytes = content" if "steady os (bound_handle f) content t t'" for content
    using read_bytes_steady [OF r(1) steady_sub [OF that r(2,3)]] by simp
  with o r show ?thesis unfolding file_read_def by blast
qed

lemma executable_open_read:
  assumes "executable_open os sha requested t = (t', Inr exe)"
  shows "exe_requested exe = requested \<and> file_read os sha (exe_handle exe) (exe_stamp exe) (exe_sha256 exe) t t'"
proof -
  note o = executable_open_Inr [OF assms]
  then obtain bytes u1 u2 u3 where r: "read_prefix os (exe_handle exe) 4 [] u1 = (u2, Inr ELF_MAGIC)"
      "read_bytes os (exe_handle exe) MAX_IDENTITY_FILE_BYTES ELF_MAGIC u2 = (u3, Inr bytes)"
      "t \<le> u1" "u3 \<le> t'" "exe_sha256 exe = to_hex (sha bytes)" by blast
  have le: "u1 \<le> u2" "u2 \<le> u3" using r(1,2) forwardD forward_reads by blast+
  have "bytes = content" if s: "steady os (exe_handle exe) content t t'" for content
  proof -
    have "ELF_MAGIC = take 4 content \<and> length ELF_MAGIC = 4"
      by (rule read_prefix_steady [OF r(1) steady_sub [OF s]]) (use r le in auto)
    then have "ELF_MAGIC = take (length ELF_MAGIC) content" by simp
    then show ?thesis by (rule read_bytes_steady [OF r(2) steady_sub [OF s], rotated 2]) (use r le in auto)
  qed
  moreover have "t \<le> u2" using r(3) le by simp
  ultimately show ?thesis using o r unfolding file_read_def by blast
qed

lemma bind_files_read:
  "bind_files os sha root exe bytes names t = (t', Inr (files, es)) \<Longrightarrow> f \<in> set files \<Longrightarrow>
   file_read os sha (bound_handle f) (bound_stamp f) (bound_sha256 f) t t'"
proof (induction names arbitrary: bytes t files es)
  case Nil
  then show ?case by (simp add: io_simps)
next
  case (Cons name names)
  obtain m t1 bound files' es' where
      "host_stat os t (relative_path root name) = Inr m" and
      entry: "(if relative_path root name = exe_path exe then t1 = Suc t \<and> bound = []
        else \<exists>g. open_limited os sha (relative_path root name) (MAX_BYTES - bytes) (Suc t) = (t1, Inr g) \<and>
          bound_size g = unat (fst_len m) \<and> bound = [g])" and
      rest: "bind_files os sha root exe (bytes + unat (fst_len m)) names t1 = (t', Inr (files', es'))" "files = bound @ files'"
    using Cons.prems(1) by (auto simp: io_simps Let_def split: if_splits)
  have le: "Suc t \<le> t1" "t1 \<le> t'"
    using entry forwardD [OF forward_bound(1)] forwardD [OF forward_bind_files rest(1)] by (auto split: if_splits)
  show ?case
  proof (cases "f \<in> set files'")
    case True
    from Cons.IH [OF rest(1) this] show ?thesis by (rule file_read_mono) (use le in simp_all)
  next
    case False
    then obtain limit where "open_limited os sha (relative_path root name) limit (Suc t) = (t1, Inr f)"
      using entry rest(2) Cons.prems(2) by (auto split: if_splits)
    then have "file_read os sha (bound_handle f) (bound_stamp f) (bound_sha256 f) (Suc t) t1"
      using open_limited_read by blast
    then show ?thesis by (rule file_read_mono) (use le in simp_all)
  qed
qed

text \<open>Where the files of a bundle are, which of them the launch goes through, and that their digests are of what was
  read from them in a span.\<close>

definition bundle_read :: "host_os \<Rightarrow> tokenizer \<Rightarrow> (string \<Rightarrow> u8 list) \<Rightarrow> path \<Rightarrow> string \<Rightarrow> codex_bundle \<Rightarrow> nat \<Rightarrow> nat
    \<Rightarrow> bool" where
  "bundle_read os tok sha requested version b t t' =
     (\<exists>location u. locate os tok requested version t = (u, Inr location) \<and> u \<le> t' \<and>
        package_root b = loc_root location \<and> exe_requested (bundle_executable b) = loc_executable location \<and>
        file_read os sha (exe_handle (bundle_executable b)) (exe_stamp (bundle_executable b))
          (exe_sha256 (bundle_executable b)) t t' \<and>
        (\<forall>f \<in> set (bundle_files b) \<union> set_option (launch_file b) \<union> set_option (launch_package_file b).
           file_read os sha (bound_handle f) (bound_stamp f) (bound_sha256 f) t t') \<and>
        bundle_launch_kind b = loc_kind location \<and>
        map_option bound_path (launch_file b) = loc_shim location \<and>
        bundle_launch_sha256 b =
          (case launch_file b of None \<Rightarrow> exe_sha256 (bundle_executable b) | Some f \<Rightarrow> bound_sha256 f) \<and>
        map_option bound_path (launch_package_file b) = loc_npm_package_json location \<and>
        (case launch_package_file b of
           Some f \<Rightarrow> bundle_launch_package_sha256 b = bound_sha256 f
         | None \<Rightarrow> (\<exists>f :: bound_file. bound_path f = under (loc_root location) [''codex-package.json''] \<and>
             file_read os sha (bound_handle f) (bound_stamp f) (bound_sha256 f) t t' \<and>
             bundle_launch_package_sha256 b = bound_sha256 f)))"

lemma option_opened:
  assumes "io_option (\<lambda>path. io_map_err ArtifactIdentity (open_limited os sha path limit)) m t = (t', Inr x)"
  shows "map_option bound_path x = m \<and> t \<le> t' \<and>
    (\<forall>f \<in> set_option x. file_read os sha (bound_handle f) (bound_stamp f) (bound_sha256 f) t t')"
  using assms open_limited_read forwardD [OF forward_bound(1)]
  by (cases m) (fastforce simp: io_simps)+

lemma discover_read:
  assumes "discover os tok sha requested version t = (t', Inr b)"
  shows "bundle_read os tok sha requested version b t t' \<and>
    (\<exists>es u. bundle_bound sha b es \<and> t \<le> u \<and> bundle_recheck os tok b u = (t', Inr ()))"
proof -
  obtain location t1 exe t2 launch t3 package t4 t5 digest t6 names t7 files es where
    r: "locate os tok requested version t = (t1, Inr location)"
      "executable_open os sha (loc_executable location) t1 = (t2, Inr exe)"
      "io_option (\<lambda>path. io_map_err ArtifactIdentity (open_limited os sha path MAX_LAUNCH_BYTES)) (loc_shim location) t2 =
         (t3, Inr launch)"
      "io_option (\<lambda>path. io_map_err ArtifactIdentity (open_limited os sha path MAX_METADATA_BYTES))
         (loc_npm_package_json location) t3 = (t4, Inr package)"
      "(case package of
          Some f \<Rightarrow> io_return (bound_sha256 f)
        | None \<Rightarrow>
            io_then (io_map_err ArtifactIdentity (open_limited os sha
                (under (loc_root location) [''codex-package.json'']) MAX_METADATA_BYTES)) (\<lambda>f.
            io_return (bound_sha256 f))) t4 = (t5, Inr digest)"
      "list_files os (loc_root location) t5 = (t6, Inr names)"
      "bind_files os sha (loc_root location) exe 0 names t6 = (t7, Inr (files, es))"
      "bundle_recheck os tok b t7 = (t', Inr ())"
    and b: "b = \<lparr>bundle_executable = exe, bundle_sha256 = to_hex (sha (digest_input es)),
        bundle_launch_kind = loc_kind location,
        bundle_launch_sha256 = (case launch of None \<Rightarrow> exe_sha256 exe | Some f \<Rightarrow> bound_sha256 f),
        bundle_launch_package_sha256 = digest, package_root = loc_root location,
        bundle_requested = requested, launch_file = launch,
        launch_package_file = package, bundle_files = files, bundle_file_names = names\<rparr>"
    using assms unfolding discover_def Let_def
    by (auto simp: io_then_Inr io_return_Inr io_map_err_Inr)
  have package_read: "t4 \<le> t5 \<and> (case package of
      Some f \<Rightarrow> digest = bound_sha256 f
    | None \<Rightarrow> (\<exists>f :: bound_file. bound_path f = under (loc_root location) [''codex-package.json''] \<and>
        file_read os sha (bound_handle f) (bound_stamp f) (bound_sha256 f) t4 t5 \<and> digest = bound_sha256 f))"
    using r(5) open_limited_read forwardD [OF forward_bound(1)]
    by (cases package) (fastforce simp: io_simps)+
  note opened = option_opened [OF r(3)] option_opened [OF r(4)]
  have le: "t \<le> t1" "t1 \<le> t2" "t2 \<le> t3" "t3 \<le> t4" "t4 \<le> t5" "t5 \<le> t6" "t6 \<le> t7" "t7 \<le> t'"
    using forwardD [OF forward_locate r(1)] forwardD [OF forward_executable(1) r(2)] opened package_read
      forwardD [OF forward_list_files r(6)] forwardD [OF forward_bind_files r(7)] forwardD [OF forward_recheck r(8)]
    by blast+
  note wide = file_read_mono [of os sha _ _ _ _ _ t t']
  have "file_read os sha (exe_handle exe) (exe_stamp exe) (exe_sha256 exe) t t'"
    by (rule wide [OF conjunct2 [OF executable_open_read [OF r(2)]]]) (use le in linarith)+
  moreover have "file_read os sha (bound_handle f) (bound_stamp f) (bound_sha256 f) t t'"
    if "f \<in> set files \<union> set_option launch \<union> set_option package" for f
  proof -
    have "file_read os sha (bound_handle f) (bound_stamp f) (bound_sha256 f) t6 t7 \<or>
        file_read os sha (bound_handle f) (bound_stamp f) (bound_sha256 f) t2 t3 \<or>
        file_read os sha (bound_handle f) (bound_stamp f) (bound_sha256 f) t3 t4"
      using that bind_files_read [OF r(7)] opened by blast
    then show ?thesis by (elim disjE) (rule wide, assumption, use le in linarith, use le in linarith)+
  qed
  moreover have "case package of
      Some f \<Rightarrow> digest = bound_sha256 f
    | None \<Rightarrow> (\<exists>f :: bound_file. bound_path f = under (loc_root location) [''codex-package.json''] \<and>
        file_read os sha (bound_handle f) (bound_stamp f) (bound_sha256 f) t t' \<and> digest = bound_sha256 f)"
  proof -
    have "t \<le> t4" "t5 \<le> t'" using le by linarith+
    with package_read show ?thesis by (auto intro: wide split: option.splits)
  qed
  ultimately have "bundle_read os tok sha requested version b t t'"
    unfolding bundle_read_def
    using r(1) le opened executable_open_read [OF r(2)] unfolding b
    by (intro exI [of _ location] exI [of _ t1]) (auto split: option.splits)
  moreover have "bundle_bound sha b es" using bind_files_Inr [OF r(7)] by (simp add: b bundle_bound_def)
  moreover have "t \<le> t7" using le by linarith
  ultimately show ?thesis using r(8) by blast
qed


section \<open>A tree to evaluate on\<close>

definition example_children :: "path \<Rightarrow> string list" where
  "example_children path =
     (if path = [RootDir] then [''b'', ''d''] else if path = [RootDir, Normal ''d''] then [''a''] else [])"

definition example_kind :: "path \<Rightarrow> inode_kind" where
  "example_kind path =
     (if path = [RootDir] \<or> path = [RootDir, Normal ''d''] then PlainDirectory else PlainFile)"

definition example_tree_host :: host_os where
  "example_tree_host = example_host
     \<lparr>host_lstat := (\<lambda>t path. Inr (example_stat\<lparr>fst_kind := example_kind path\<rparr>)),
      host_read_dir := (\<lambda>t path. Inr (map Inr (example_children path)))\<rparr>"

lemma example_static: "static_tree example_tree_host example_children example_kind"
  by (simp add: static_tree_def example_tree_host_def)

lemma example_tree_calls:
  "host_lstat example_tree_host t path = Inr (example_stat\<lparr>fst_kind := example_kind path\<rparr>)"
  "host_read_dir example_tree_host t path = Inr (map Inr (example_children path))"
  "host_euid example_tree_host = 7"
  by (simp_all add: example_tree_host_def example_host_def)

lemma example_tree_chain:
  "check_trusted_directory_chain example_tree_host [RootDir] t = (t + 2, Inr ())"
  "check_trusted_directory_chain example_tree_host [RootDir, Normal ''d''] t = (t + 3, Inr ())"
  by (simp_all add: check_trusted_directory_chain_def check_directory_def ancestors.simps path_parent_def
      io_run example_tree_calls example_kind_def example_stat_def)

lemma example_listing: "list_files example_tree_host [RootDir] 0 = (10, Inr [''b'', ''d/a''])"
  by (simp add: list_files_def io_run io_map_err_def example_tree_chain example_tree_calls example_children_def
      example_kind_def MAX_DIRECTORIES_def MAX_FILES_def ascii_utf8 ascii_text_def byte_def
      insort_key_def less_char_def)

definition example_bundle :: codex_bundle where
  "example_bundle =
     \<lparr>bundle_executable = example_executable\<lparr>exe_sha256 := replicate 64 CHR ''0''\<rparr>,
      bundle_sha256 = to_hex (replicate 32 0), bundle_launch_kind = ''native'',
      bundle_launch_sha256 = replicate 64 CHR ''0'', bundle_launch_package_sha256 = replicate 64 CHR ''0'',
      package_root = [RootDir], bundle_requested = example_file, launch_file = None,
      launch_package_file = None, bundle_files = [], bundle_file_names = [''codex'']\<rparr>"

lemma example_bound:
  "bundle_bound (\<lambda>_. replicate 32 0) example_bundle [(''codex'', 5, replicate 64 CHR ''0'')]"
  by (simp add: bundle_bound_def example_bundle_def bound_entry_def example_executable_def example_file_def
      relative_path_def path_join_def is_absolute_def path_of_string_def starts_with_def MAX_BYTES_def)

section \<open>Properties\<close>

text \<open>The listing of a bundle whose directories do not change is sorted, holds at most 256 names, and
  names exactly the files below the root; there is no symbolic link and no special file below it.\<close>

theorem list_files_complete:
  assumes "static_tree os children kind" "list_files os root t = (t', Inr names)"
  shows "set names = files_below children kind root root \<and> sorted names \<and> names \<noteq> [] \<and>
    length names \<le> 256 \<and> all_plain children kind root"
proof -
  obtain found where f: "list_loop os root 0 [root] [] t = (t', Inr found)" "found \<noteq> []" "names = sort found"
    using assms(2) by (auto simp: list_files_def io_simps simp del: list_loop.simps)
  moreover have "sort found \<noteq> []" using f(2) by (metis set_empty set_sort)
  ultimately show ?thesis
    using list_loop_Inr [OF assms(1) f(1)] by (simp add: MAX_FILES_def)
qed

theorem list_files_complete_witness:
  "\<exists>names t'. list_files example_tree_host [RootDir] 0 = (t', Inr names) \<and>
     set names = files_below example_children example_kind [RootDir] [RootDir]"
  using list_files_complete [OF example_static example_listing] example_listing by blast

text \<open>The digest of a bundle identifies its files: if SHA-256 does not collide on what it is given for
  two bundles with equal digests, then the names, the sizes and the digests of their files are the same.\<close>

theorem bundle_digest_identifies:
  assumes "bundle_bound sha a es" "bundle_bound sha b fs" "bundle_sha256 a = bundle_sha256 b"
    and "sha (digest_input es) = sha (digest_input fs) \<Longrightarrow> digest_input es = digest_input fs"
    and "\<forall>e \<in> set (es @ fs). CHR 0x00 \<notin> set (fst e) \<and> length (snd (snd e)) = 64"
  shows "es = fs \<and> bundle_file_names a = bundle_file_names b"
proof -
  have "sha (digest_input es) = sha (digest_input fs)"
    using assms(1-3) to_hex_inj by (simp add: bundle_bound_def)
  then have "digest_input es = digest_input fs" by (rule assms(4))
  moreover have "entry_ok e" if "e \<in> set (es @ fs)" for e
    using assms(1,2,5) that by (fastforce simp: entry_ok_def bundle_bound_def split: prod.splits)
  ultimately have "es = fs" by (intro digest_input_inj) simp_all
  then show ?thesis using assms(1,2) by (simp add: bundle_bound_def)
qed

theorem bundle_digest_identifies_witness:
  "\<exists>es. bundle_bound (\<lambda>_. replicate 32 0) example_bundle es \<and> es = [(''codex'', 5, replicate 64 CHR ''0'')]"
proof -
  have b: "bundle_bound (\<lambda>_. replicate 32 0) example_bundle [(''codex'', 5, replicate 64 CHR ''0'')]"
    by (rule example_bound)
  have "[(''codex'', 5 :: nat, replicate 64 CHR ''0'')] = [(''codex'', 5, replicate 64 CHR ''0'')] \<and>
      bundle_file_names example_bundle = bundle_file_names example_bundle"
    by (rule bundle_digest_identifies [OF b b]) simp_all
  with b show ?thesis by blast
qed

end
