(* ===== verification/Host_Environment.thy ===== *)
theory Host_Environment
  imports Trusted_Files
begin

text \<open>
  What the launcher observes of the host it runs on, \<^verbatim>\<open>src/environment.rs\<close> on Linux:
  the execution surface and the exact identity of the distribution and the kernel.  The signs of a
  remote, embedded or isolated environment are looked for one after the other.
\<close>

section \<open>Surface\<close>

record host =
  observed_os :: string
  observed_arch :: string
  observed_os_release :: string
  observed_os_build :: string
  observed_surface :: string

datatype environment_error =
    EnvironmentIo io_kind
  | NotUnicode
  | MismatchedArchitecture
  | MissingReleaseField

type_synonym 'a environment_io = "(environment_error, 'a) io"

definition WSL_VARIABLES :: "string list" where
  "WSL_VARIABLES = [''WSL_DISTRO_NAME'', ''WSL_INTEROP'']"

definition REMOTE_VARIABLES :: "string list" where
  "REMOTE_VARIABLES =
     [''SSH_CONNECTION'', ''SSH_CLIENT'', ''SSH_TTY'', ''CODESPACES'', ''CLOUD_SHELL'']"

definition IDE_VARIABLES :: "string list" where
  "IDE_VARIABLES =
     [''VSCODE_PID'', ''VSCODE_IPC_HOOK_CLI'', ''CURSOR_TRACE_ID'', ''REMOTE_CONTAINERS'']"

definition CONTAINER_WORDS :: "string list" where
  "CONTAINER_WORDS = [''docker'', ''kubepods'', ''containerd'', ''lxc'', ''libpod'']"

definition is_set :: "environment \<Rightarrow> string \<Rightarrow> bool" where
  "is_set env key = (env key \<noteq> None)"

text \<open>The part that looks at environment variables only.\<close>

definition variable_surface :: "environment \<Rightarrow> string option" where
  "variable_surface env =
     (if list_ex (is_set env) WSL_VARIABLES then Some ''wsl''
      else if list_ex (is_set env) REMOTE_VARIABLES then Some ''remote''
      else if list_ex (is_set env) IDE_VARIABLES then Some ''ide''
      else if is_some_and (env ''TERM_PROGRAM'')
                (\<lambda>v. map to_ascii_lowercase v \<in> {''vscode'', ''cursor''})
      then Some ''ide''
      else if is_some_and (env ''CODEX_INTERNAL_ORIGINATOR_OVERRIDE'')
                (\<lambda>v. utf8_valid v \<and> v \<noteq> ''codex_cli_rs'')
      then Some ''hosted''
      else None)"

definition absolute :: "string list \<Rightarrow> path" where
  "absolute names = RootDir # List.map Normal names"

definition CONTAINER_FILES :: "path list" where
  "CONTAINER_FILES =
     [absolute [''.dockerenv''], absolute [''run'', ''.containerenv''],
      absolute [''run'', ''systemd'', ''container'']]"

definition NAMESPACES :: "string list" where
  "NAMESPACES = [''mnt'', ''user'', ''pid'']"

definition read_text :: "host_os \<Rightarrow> path \<Rightarrow> string environment_io" where
  "read_text os path =
     io_then (call EnvironmentIo (\<lambda>t. host_read_all os t path)) (\<lambda>bytes.
     io_then (io_ensure (utf8_valid bytes) (EnvironmentIo KindOther)) (\<lambda>_. io_return bytes))"

text \<open>Whether one of the files that mark a container exists.\<close>

fun container_file :: "host_os \<Rightarrow> path list \<Rightarrow> bool environment_io" where
  "container_file os [] = io_return False"
| "container_file os (path # paths) =
     io_then (try_call (\<lambda>t. host_lstat os t path)) (\<lambda>r.
       case r of
         Inr m \<Rightarrow> io_return True
       | Inl KindNotFound \<Rightarrow> container_file os paths
       | Inl e \<Rightarrow> io_fail (EnvironmentIo e))"

definition namespace_link :: "string \<Rightarrow> string \<Rightarrow> path" where
  "namespace_link process namespace = absolute [''proc'', process, ''ns'', namespace]"

text \<open>Whether a namespace is not that of the first process.\<close>

fun isolated_namespace :: "host_os \<Rightarrow> string list \<Rightarrow> bool environment_io" where
  "isolated_namespace os [] = io_return False"
| "isolated_namespace os (namespace # namespaces) =
     io_then (call EnvironmentIo (\<lambda>t. host_read_link os t (namespace_link ''self'' namespace))) (\<lambda>own.
     io_then (call EnvironmentIo (\<lambda>t. host_read_link os t (namespace_link ''1'' namespace))) (\<lambda>first.
       if own \<noteq> first then io_return True else isolated_namespace os namespaces))"

definition surface :: "host_os \<Rightarrow> string environment_io" where
  "surface os =
     (case variable_surface (host_env os) of
        Some s \<Rightarrow> io_return s
      | None \<Rightarrow>
     io_then (call EnvironmentIo (\<lambda>t. host_stat os t [RootDir])) (\<lambda>root.
     if fst_uid root \<noteq> 0 then io_return ''isolated-namespace'' else
     io_then (read_text os (absolute [''proc'', ''sys'', ''kernel'', ''osrelease''])) (\<lambda>kernel.
     if contains_sub ''microsoft'' (map to_ascii_lowercase kernel) then io_return ''wsl'' else
     io_then (container_file os CONTAINER_FILES) (\<lambda>marked.
     if marked then io_return ''container''
     else if is_set (host_env os) ''container'' then io_return ''container'' else
     io_then (read_text os (absolute [''proc'', ''1'', ''cgroup''])) (\<lambda>cgroups.
     if list_ex (\<lambda>w. contains_sub w cgroups) CONTAINER_WORDS then io_return ''container'' else
     io_then (isolated_namespace os NAMESPACES) (\<lambda>isolated.
     io_return (if isolated then ''isolated-namespace'' else ''native-cli'')))))))"

section \<open>Identity\<close>

definition trim_quotes :: "string \<Rightarrow> string" where
  "trim_quotes s = rev (dropWhile (\<lambda>c. c = CHR 0x22) (rev (dropWhile (\<lambda>c. c = CHR 0x22) s)))"

definition release_char :: "char \<Rightarrow> bool" where
  "release_char c = (is_ascii_alphanumeric c \<or> c \<in> set ''._-'')"

definition release_values :: "string \<Rightarrow> string \<Rightarrow> string list" where
  "release_values text key =
     List.map_filter (\<lambda>line. Option.bind (strip_prefix key line) (strip_prefix ''='')) (text_lines text)"

definition release_field :: "string \<Rightarrow> string \<Rightarrow> string option" where
  "release_field text key =
     (case release_values text key of
        [] \<Rightarrow> None
      | v # vs \<Rightarrow>
          (let value' = trim_quotes v in
           if value' = [] \<or> vs \<noteq> [] \<or> \<not> list_all release_char value' then None else Some value'))"

definition observe_host :: "host_os \<Rightarrow> (string \<Rightarrow> u8 list) \<Rightarrow> host environment_io" where
  "observe_host os sha =
     io_then (surface os) (\<lambda>surface.
     io_then (try_call (\<lambda>t. (host_machine os t, host_kernel_release os t))) (\<lambda>(arch, kernel).
     io_then (io_ensure (utf8_valid arch) NotUnicode) (\<lambda>_.
     io_then (io_ensure (arch = host_arch os) MismatchedArchitecture) (\<lambda>_.
     io_then (call EnvironmentIo (\<lambda>t. host_read_all os t (absolute [''etc'', ''os-release'']))) (\<lambda>release.
     io_then (io_ensure (utf8_valid release) NotUnicode) (\<lambda>_.
     io_then (io_of (ok_or MissingReleaseField (release_field release ''ID''))) (\<lambda>id.
     io_then (io_of (ok_or MissingReleaseField (release_field release ''VERSION_ID''))) (\<lambda>version.
     io_then (read_text os (absolute [''proc'', ''sys'', ''kernel'', ''version''])) (\<lambda>build.
     io_then (io_ensure (utf8_valid kernel) NotUnicode) (\<lambda>_.
     io_return
       \<lparr>observed_os = ''linux'', observed_arch = arch,
        observed_os_release = id @ '':'' @ version @ '':sha256:'' @ to_hex (sha release),
        observed_os_build = kernel @ '' '' @ trim build, observed_surface = surface\<rparr>))))))))))"


section \<open>Time goes forward\<close>

lemma forward_read_text [forward_intros]: "forward (read_text os path)"
  by (auto simp: read_text_def intro!: forward_intros)

lemma forward_container_file [forward_intros]: "forward (container_file os paths)"
  by (induction paths) (auto intro!: forward_intros split: sum.splits io_kind.splits)

lemma forward_isolated [forward_intros]: "forward (isolated_namespace os ns)"
  by (induction ns) (auto intro!: forward_intros)

lemma forward_surface [forward_intros]: "forward (surface os)"
  by (auto simp: surface_def intro!: forward_intros split: option.splits)

lemma forward_observe [forward_intros]: "forward (observe_host os sha)"
  by (auto simp: observe_host_def intro!: forward_intros split: prod.splits)

section \<open>The loops\<close>

lemma container_file_False:
  "container_file os paths t = (t', Inr False) \<Longrightarrow> path \<in> set paths \<Longrightarrow>
   \<exists>\<tau>. t \<le> \<tau> \<and> \<tau> < t' \<and> host_lstat os \<tau> path = Inl KindNotFound"
proof (induction paths arbitrary: t)
  case (Cons p ps)
  then have first: "host_lstat os t p = Inl KindNotFound" "container_file os ps (Suc t) = (t', Inr False)"
    by (auto simp: io_simps split: sum.splits io_kind.splits)
  then have "Suc t \<le> t'" using forwardD forward_container_file by blast
  then show ?case using Cons first by (cases "path = p") (auto dest: Suc_leD intro: exI [of _ t])
qed simp

lemma isolated_namespace_False:
  "isolated_namespace os namespaces t = (t', Inr False) \<Longrightarrow> n \<in> set namespaces \<Longrightarrow>
   \<exists>\<tau> link. t \<le> \<tau> \<and> Suc \<tau> < t' \<and> host_read_link os \<tau> (namespace_link ''self'' n) = Inr link \<and>
     host_read_link os (Suc \<tau>) (namespace_link ''1'' n) = Inr link"
proof (induction namespaces arbitrary: t)
  case (Cons m ms)
  then obtain link where first: "host_read_link os t (namespace_link ''self'' m) = Inr link"
      "host_read_link os (Suc t) (namespace_link ''1'' m) = Inr link"
      "isolated_namespace os ms (Suc (Suc t)) = (t', Inr False)"
    by (auto simp: io_simps split: if_splits)
  then have t': "Suc (Suc t) \<le> t'" using forwardD forward_isolated by blast
  show ?case
  proof (cases "n = m")
    case True
    then show ?thesis using first(1,2) t' by (intro exI [of _ t] exI [of _ link]) simp
  next
    case False
    then show ?thesis using Cons.IH [OF first(3)] Cons.prems(2) by (force dest: Suc_leD)
  qed
qed simp

lemma variable_surface_None:
  "variable_surface env = None \<Longrightarrow>
   \<forall>key \<in> set (WSL_VARIABLES @ REMOTE_VARIABLES @ IDE_VARIABLES). env key = None"
  by (auto simp: variable_surface_def list_ex_iff is_set_def split: if_splits)

section \<open>Properties\<close>

text \<open>C33: a host is called native only if no variable of a remote, embedded or WSL session is set, the
  root directory is owned by root, the kernel is not Microsoft's, no file and no control group marks
  a container, and the mount, user and process namespaces are those of the first process.\<close>

theorem native_surface_sound:
  assumes "surface os t = (t', Inr ''native-cli'')"
  shows "(\<forall>key \<in> set (''container'' # WSL_VARIABLES @ REMOTE_VARIABLES @ IDE_VARIABLES).
      host_env os key = None) \<and>
    (\<exists>root. host_stat os t [RootDir] = Inr root \<and> fst_uid root = 0) \<and>
    (\<exists>kernel. host_read_all os (Suc t) (absolute [''proc'', ''sys'', ''kernel'', ''osrelease'']) = Inr kernel \<and>
       \<not> contains_sub ''microsoft'' (map to_ascii_lowercase kernel)) \<and>
    (\<forall>path \<in> set CONTAINER_FILES. \<exists>\<tau>. t \<le> \<tau> \<and> \<tau> < t' \<and> host_lstat os \<tau> path = Inl KindNotFound) \<and>
    (\<exists>\<tau> cgroups. t \<le> \<tau> \<and> \<tau> < t' \<and> host_read_all os \<tau> (absolute [''proc'', ''1'', ''cgroup'']) = Inr cgroups \<and>
       \<not> list_ex (\<lambda>w. contains_sub w cgroups) CONTAINER_WORDS) \<and>
    (\<forall>n \<in> set NAMESPACES. \<exists>\<tau> link. t \<le> \<tau> \<and> Suc \<tau> < t' \<and>
       host_read_link os \<tau> (namespace_link ''self'' n) = Inr link \<and>
       host_read_link os (Suc \<tau>) (namespace_link ''1'' n) = Inr link)"
proof -
  have none: "variable_surface (host_env os) = None"
  proof (cases "variable_surface (host_env os)")
    case (Some s)
    then have "s = ''native-cli''" using assms by (simp add: surface_def io_simps)
    then show ?thesis using Some by (auto simp: variable_surface_def split: if_splits)
  qed
  obtain root kernel t1 cgroups where r: "host_stat os t [RootDir] = Inr root" "fst_uid root = 0"
      "host_read_all os (Suc t) (absolute [''proc'', ''sys'', ''kernel'', ''osrelease'']) = Inr kernel"
      "\<not> contains_sub ''microsoft'' (map to_ascii_lowercase kernel)"
      "container_file os CONTAINER_FILES (Suc (Suc t)) = (t1, Inr False)" "host_env os ''container'' = None"
      "host_read_all os t1 (absolute [''proc'', ''1'', ''cgroup'']) = Inr cgroups"
      "\<not> list_ex (\<lambda>w. contains_sub w cgroups) CONTAINER_WORDS"
      "isolated_namespace os NAMESPACES (Suc t1) = (t', Inr False)"
    using assms none
    by (auto simp: surface_def io_simps read_text_def is_set_def split: if_splits)
  have le: "Suc (Suc t) \<le> t1" "Suc t1 \<le> t'"
    using r(5,9) forwardD forward_container_file forward_isolated by blast+
  show ?thesis
  proof (intro conjI)
    show "\<forall>key \<in> set (''container'' # WSL_VARIABLES @ REMOTE_VARIABLES @ IDE_VARIABLES).
        host_env os key = None"
      using variable_surface_None [OF none] r(6) by simp
    show "\<forall>path \<in> set CONTAINER_FILES. \<exists>\<tau>. t \<le> \<tau> \<and> \<tau> < t' \<and> host_lstat os \<tau> path = Inl KindNotFound"
      using container_file_False [OF r(5)] le by (meson Suc_leD le_trans less_le_trans)
    show "\<forall>n \<in> set NAMESPACES. \<exists>\<tau> link. t \<le> \<tau> \<and> Suc \<tau> < t' \<and>
       host_read_link os \<tau> (namespace_link ''self'' n) = Inr link \<and>
       host_read_link os (Suc \<tau>) (namespace_link ''1'' n) = Inr link"
      using isolated_namespace_False [OF r(9)] le by (meson Suc_leD le_trans)
    show "\<exists>\<tau> cgroups. t \<le> \<tau> \<and> \<tau> < t' \<and> host_read_all os \<tau> (absolute [''proc'', ''1'', ''cgroup'']) = Inr cgroups \<and>
       \<not> list_ex (\<lambda>w. contains_sub w cgroups) CONTAINER_WORDS"
      using r(7,8) le by (intro exI [of _ t1] exI [of _ cgroups]) simp
  qed (use r in auto)
qed


text \<open>A host whose files do not mark it.\<close>

definition example_native :: host_os where
  "example_native = example_host
     \<lparr>host_stat := (\<lambda>t path. Inr (example_stat\<lparr>fst_uid := 0\<rparr>)),
      host_lstat := (\<lambda>t path. Inl KindNotFound),
      host_read_all := (\<lambda>t path. Inr ''6.1''), host_read_link := (\<lambda>t path. Inr [RootDir])\<rparr>"

lemma example_native_calls:
  "host_env example_native = Map.empty" "host_stat example_native t path = Inr (example_stat\<lparr>fst_uid := 0\<rparr>)"
  "host_lstat example_native t path = Inl KindNotFound" "host_read_all example_native t path = Inr ''6.1''"
  "host_read_link example_native t path = Inr [RootDir]"
  by (simp_all add: example_native_def example_host_def)

lemma example_native_surface: "surface example_native 0 = (12, Inr ''native-cli'')"
  by (simp add: surface_def example_native_calls variable_surface_def is_set_def io_run read_text_def
      CONTAINER_FILES_def NAMESPACES_def CONTAINER_WORDS_def WSL_VARIABLES_def REMOTE_VARIABLES_def
      IDE_VARIABLES_def ascii_utf8 ascii_text_def byte_def to_ascii_lowercase_def starts_with_def)

theorem native_surface_sound_witness:
  "\<exists>root. host_stat example_native 0 [RootDir] = Inr root \<and> fst_uid root = 0"
  using native_surface_sound [OF example_native_surface] by blast

end
