(* ===== verification/Admission.thy ===== *)
theory Admission
  imports Artifact Host_Environment
begin

text \<open>
  The admission of a launch and its revalidation for every request, \<^verbatim>\<open>src/admission.rs\<close>:
  the arguments and the sandbox that are certified, the exact tuple that the manifest must hold, and
  the sandbox health probe.
\<close>

section \<open>Types\<close>

datatype admission_error =
    AdmissionManifest certification_error
  | AdmissionEnvironment environment_error
  | AdmissionArtifact artifact_error
  | AdmissionIdentity identity_error
  | NoCurrentCertification
  | NonUnicodeArgument
  | MissingArgumentValue
  | OptionOutsideSurface
  | SubcommandOutsideSurface
  | AmbiguousArguments
  | UnsupportedSurface string
  | NoSandboxSelected
  | UnknownSandbox
  | NotWorkspaceWrite
  | NotCertifiedTuple
  | IdentityChanged
  | HealthSetup
  | HealthProbe
  | HealthFailed

type_synonym 'a admission_io = "(admission_error, 'a) io"

record admission =
  adm_target :: target
  adm_executable :: executable
  adm_bundle :: codex_bundle
  adm_host :: host

section \<open>Arguments\<close>

definition VALUE_OPTIONS :: "string set" where
  "VALUE_OPTIONS = {''--model'', ''-m'', ''--image'', ''-i''}"

definition FLAG_OPTIONS :: "string set" where
  "FLAG_OPTIONS = {''--search'', ''--no-alt-screen''}"

definition SUBCOMMANDS :: "string set" where
  "SUBCOMMANDS =
     {''exec'', ''e'', ''resume'', ''fork'', ''app-server'', ''remote'', ''cloud'', ''login'', ''logout'',
      ''sandbox'', ''mcp'', ''doctor'', ''features'', ''review'', ''apply'', ''completion'', ''debug'',
      ''update'', ''help''}"

fun validate_arguments :: "bool \<Rightarrow> string list \<Rightarrow> (admission_error, unit) result" where
  "validate_arguments prompt_seen [] = Inr ()"
| "validate_arguments prompt_seen (arg # rest) =
     (if \<not> utf8_valid arg then Inl NonUnicodeArgument
      else if arg \<in> VALUE_OPTIONS then
        (case rest of [] \<Rightarrow> Inl MissingArgumentValue | _ # rest \<Rightarrow> validate_arguments prompt_seen rest)
      else if arg \<in> FLAG_OPTIONS then validate_arguments prompt_seen rest
      else if starts_with ''-'' arg then Inl OptionOutsideSurface
      else if arg \<in> SUBCOMMANDS then Inl SubcommandOutsideSurface
      else if \<not> prompt_seen then validate_arguments True rest
      else Inl AmbiguousArguments)"

definition sandbox_overrides :: "operating_system \<Rightarrow> string \<Rightarrow> (admission_error, string list) result" where
  "sandbox_overrides os sandbox =
     (if sandbox = ''linux-bwrap'' \<and> os = OsLinux then Inr [''features.use_legacy_landlock=false'']
      else if sandbox = ''linux-landlock'' \<and> os = OsLinux then Inr [''features.use_legacy_landlock=true'']
      else if sandbox = ''windows-elevated'' \<and> os = OsWindows
      then Inr [''windows.sandbox='' @ [CHR 0x22] @ ''elevated'' @ [CHR 0x22]]
      else if sandbox = ''windows-unelevated'' \<and> os = OsWindows
      then Inr [''windows.sandbox='' @ [CHR 0x22] @ ''unelevated'' @ [CHR 0x22]]
      else Inl UnknownSandbox)"

definition require_workspace_write :: "string option \<Rightarrow> (admission_error, unit) result" where
  "require_workspace_write mode =
     (if mode \<noteq> Some ''workspace-write'' then Inl NotWorkspaceWrite else Inr ())"

section \<open>Inspection\<close>

definition target_of :: "installation \<Rightarrow> host \<Rightarrow> string \<Rightarrow> codex_bundle \<Rightarrow> target" where
  "target_of installation h sandbox b =
     \<lparr>target_codex_version = installation_version installation, target_os = observed_os h,
      target_arch = observed_arch h, target_os_release = observed_os_release h,
      target_os_build = observed_os_build h, target_sandbox = sandbox,
      target_surface = observed_surface h, target_protocol = PROTOCOL_VERSION, target_tool = ''Bash'',
      codex_binary_sha256 = exe_sha256 (bundle_executable b), codex_bundle_sha256 = bundle_sha256 b,
      launch_kind = bundle_launch_kind b, launch_artifact_sha256 = bundle_launch_sha256 b,
      launch_package_sha256 = bundle_launch_package_sha256 b\<rparr>"

definition admission_inspect :: "host_os \<Rightarrow> tokenizer \<Rightarrow> (string \<Rightarrow> u8 list) \<Rightarrow> installation
    \<Rightarrow> string option \<Rightarrow> string option \<Rightarrow> string list \<Rightarrow> admission admission_io" where
  "admission_inspect os tok sha installation sandbox sandbox_mode args =
     io_then (io_of (map_err AdmissionManifest (embedded tok))) (\<lambda>manifest.
     io_then (io_ensure (list_ex (\<lambda>entry. target_codex_version (certificate_target entry) =
         installation_version installation) (entries manifest)) NoCurrentCertification) (\<lambda>_.
     io_then (io_of (validate_arguments False args)) (\<lambda>_.
     io_then (io_map_err AdmissionEnvironment (observe_host os sha)) (\<lambda>h.
     io_then (io_ensure (observed_surface h = ''native-cli'') (UnsupportedSurface (observed_surface h))) (\<lambda>_.
     io_then (io_of (ok_or NoSandboxSelected sandbox)) (\<lambda>sandbox.
     io_then (io_of (sandbox_overrides OsLinux sandbox)) (\<lambda>_.
     io_then (io_of (require_workspace_write sandbox_mode)) (\<lambda>_.
     io_then (io_map_err AdmissionArtifact (discover os tok sha
         (path_of_string (installation_path installation)) (installation_version installation))) (\<lambda>b.
     io_then (io_ensure (admits manifest (target_of installation h sandbox b)) NotCertifiedTuple) (\<lambda>_.
     io_return \<lparr>adm_target = target_of installation h sandbox b,
                adm_executable = bundle_executable b, adm_bundle = b, adm_host = h\<rparr>))))))))))"

section \<open>Revalidation\<close>

definition admission_recheck :: "host_os \<Rightarrow> tokenizer \<Rightarrow> (string \<Rightarrow> u8 list) \<Rightarrow> admission \<Rightarrow> unit admission_io" where
  "admission_recheck os tok sha a =
     io_then (io_of (map_err AdmissionManifest (embedded tok))) (\<lambda>manifest.
     io_then (io_ensure (admits manifest (adm_target a)) IdentityChanged) (\<lambda>_.
     io_then (io_map_err AdmissionEnvironment (observe_host os sha)) (\<lambda>h.
     io_then (io_ensure (h = adm_host a) IdentityChanged) (\<lambda>_.
     io_map_err AdmissionArtifact (bundle_recheck os tok (adm_bundle a))))))"

definition admission_verify_process ::
    "host_os \<Rightarrow> tokenizer \<Rightarrow> (string \<Rightarrow> u8 list) \<Rightarrow> admission \<Rightarrow> u32 \<Rightarrow> unit admission_io" where
  "admission_verify_process os tok sha a pid =
     io_then (admission_recheck os tok sha a) (\<lambda>_.
     io_map_err AdmissionIdentity (executable_verify_process os (adm_executable a) pid))"

text \<open>What the child is given before the arguments of the user.\<close>

definition override_args :: "string list \<Rightarrow> string list" where
  "override_args settings = concat (map (\<lambda>s. [''-c'', s]) settings)"

definition admission_configure_child :: "admission \<Rightarrow> spawn_command \<Rightarrow> (admission_error, spawn_command) result"
where
  "admission_configure_child a command =
     and_then (map_err AdmissionArtifact (bundle_configure_child (adm_bundle a) command)) (\<lambda>c.
     and_then (sandbox_overrides OsLinux (target_sandbox (adm_target a))) (\<lambda>settings.
     Inr (c\<lparr>cmd_args := cmd_args c @ [''--no-daemon'', ''-s'', ''workspace-write'', ''-a'', ''on-request''] @
              override_args settings\<rparr>)))"

section \<open>Health\<close>

text \<open>What the health probe meets: the working directory, the disposable directory, the random bytes,
  what the command prints and what the file holds afterwards.\<close>

record health_events =
  he_cwd :: "(io_kind, path) result"
  he_directory :: "(io_kind, path) result"
  he_random :: "u8 list option"
  he_output :: "spawn_command \<Rightarrow> probe_output option"
  he_file :: "string option"

definition HEALTH_SCRIPT :: string where
  "HEALTH_SCRIPT = ''printf '' @ [CHR 0x27] @ ''%s'' @ [CHR 0x27] @ '' '' @ [CHR 0x22] @ ''$1'' @ [CHR 0x22] @
     '' > '' @ [CHR 0x22] @ ''$2'' @ [CHR 0x22] @ '' && cat '' @ [CHR 0x22] @ ''$2'' @ [CHR 0x22]"

definition quoted :: "string \<Rightarrow> string" where
  "quoted s = [CHR 0x22] @ s @ [CHR 0x22]"

definition health_args :: "string list \<Rightarrow> string \<Rightarrow> path \<Rightarrow> string list" where
  "health_args settings nonce path =
     [''sandbox'', ''-c'', ''sandbox_mode='' @ quoted ''workspace-write'',
      ''-c'', ''approval_policy='' @ quoted ''on-request''] @ override_args settings @
     [''--'', ''/bin/sh'', ''-c'', HEALTH_SCRIPT, ''autoapprover-health'', nonce, path_text path]"

definition check_execution_health ::
    "host_os \<Rightarrow> tokenizer \<Rightarrow> (string \<Rightarrow> u8 list) \<Rightarrow> health_events \<Rightarrow> admission \<Rightarrow> unit admission_io" where
  "check_execution_health os tok sha he a =
     io_then (admission_recheck os tok sha a) (\<lambda>_.
     io_then (io_of (map_err (\<lambda>_. HealthSetup) (he_cwd he))) (\<lambda>_.
     io_then (io_of (map_err (\<lambda>_. HealthSetup) (he_directory he))) (\<lambda>directory.
     io_then (io_of (map_err (\<lambda>_. HealthSetup) (new_secret (he_random he)))) (\<lambda>nonce.
     io_then (io_of (map_err AdmissionArtifact
         (bundle_configure_child (adm_bundle a) (executable_command (host_env os) (adm_executable a))))) (\<lambda>command.
     io_then (io_of (sandbox_overrides OsLinux (target_sandbox (adm_target a)))) (\<lambda>settings.
     io_then (io_of (ok_or HealthProbe (he_output he (command\<lparr>cmd_args := cmd_args command @
         health_args settings nonce (directory @ [Normal ''autoapprover-health.txt''])\<rparr>)))) (\<lambda>output.
     io_then (io_ensure (probe_success output \<and> probe_stdout output = nonce \<and> he_file he = Some nonce)
         HealthFailed) (\<lambda>_.
     admission_recheck os tok sha a))))))))"


section \<open>What is established\<close>

lemma forward_discover [forward_intros]: "forward (discover os tok sha requested version)"
  by (auto simp: discover_def Let_def intro!: forward_intros split: option.splits prod.splits)

lemma forward_admission [forward_intros]:
  "forward (admission_inspect os tok sha installation sandbox mode args)"
  "forward (admission_recheck os tok sha a)" "forward (admission_verify_process os tok sha a pid)"
  "forward (check_execution_health os tok sha he a)"
  by (auto simp: admission_inspect_def admission_recheck_def admission_verify_process_def
      check_execution_health_def intro!: forward_intros)

text \<open>The state of the host that an admission claims, observed again in a span.\<close>

definition admission_holds :: "host_os \<Rightarrow> tokenizer \<Rightarrow> (string \<Rightarrow> u8 list) \<Rightarrow> admission \<Rightarrow> nat \<Rightarrow> nat \<Rightarrow> bool" where
  "admission_holds os tok sha a t t' =
     ((\<exists>m. embedded tok = Inr m \<and> admits m (adm_target a)) \<and>
      (\<exists>t1 t2. t \<le> t1 \<and> t2 \<le> t' \<and> observe_host os sha t1 = (t2, Inr (adm_host a))) \<and>
      (\<exists>t1. t \<le> t1 \<and> bundle_unchanged os (adm_bundle a) t1 t'))"

lemma admission_recheck_Inr:
  assumes "admission_recheck os tok sha a t = (t', Inr u)"
  shows "admission_holds os tok sha a t t'"
proof -
  obtain m t1 where r: "embedded tok = Inr m" "admits m (adm_target a)"
      "observe_host os sha t = (t1, Inr (adm_host a))" "bundle_recheck os tok (adm_bundle a) t1 = (t', Inr ())"
    using assms by (auto simp: admission_recheck_def io_simps)
  have "t \<le> t1" "t1 \<le> t'"
    by (rule forwardD [OF forward_observe r(3)], rule forwardD [OF forward_recheck r(4)])
  then show ?thesis
    using r bundle_recheck_Inr [OF r(4)] unfolding admission_holds_def by blast
qed

lemma admits_entry:
  assumes "admits m observed"
  shows "\<exists>entry \<in> set (entries m). certificate_target entry = observed"
  using assms by (auto simp: admits_def list_ex_iff)

section \<open>The grammar of the arguments\<close>

text \<open>Options with a value, two flags, and at most one prompt, which is no option and no subcommand.\<close>

inductive foreground :: "bool \<Rightarrow> string list \<Rightarrow> bool" where
  no_more: "foreground p []"
| option_value: "\<lbrakk>opt \<in> VALUE_OPTIONS; foreground p rest\<rbrakk> \<Longrightarrow> foreground p (opt # val # rest)"
| flag: "\<lbrakk>f \<in> FLAG_OPTIONS; foreground p rest\<rbrakk> \<Longrightarrow> foreground p (f # rest)"
| prompt: "\<lbrakk>utf8_valid w; \<not> starts_with ''-'' w; w \<notin> SUBCOMMANDS; foreground False rest\<rbrakk> \<Longrightarrow>
    foreground True (w # rest)"

lemma options_dash: "arg \<in> VALUE_OPTIONS \<union> FLAG_OPTIONS \<Longrightarrow> starts_with ''-'' arg \<and> utf8_valid arg"
  by (auto simp: VALUE_OPTIONS_def FLAG_OPTIONS_def starts_with_def ascii_utf8 ascii_text_def byte_def)

lemma options_disjoint: "arg \<in> VALUE_OPTIONS \<Longrightarrow> arg \<notin> FLAG_OPTIONS"
  by (auto simp: VALUE_OPTIONS_def FLAG_OPTIONS_def)

lemma validate_foreground: "validate_arguments seen args = Inr () \<Longrightarrow> foreground (\<not> seen) args"
proof (induction seen args rule: validate_arguments.induct)
  case (2 seen arg rest)
  then show ?case
    by (auto split: if_splits list.splits intro: foreground.intros)
qed (simp add: no_more)

lemma foreground_validate: "foreground p args \<Longrightarrow> validate_arguments (\<not> p) args = Inr ()"
proof (induction rule: foreground.induct)
  case (option_value opt p rest val)
  then show ?case using options_dash by simp
next
  case (flag f p rest)
  then show ?case using options_dash [of f] options_disjoint [of f] by auto
next
  case (prompt w rest)
  then have "w \<notin> VALUE_OPTIONS" "w \<notin> FLAG_OPTIONS" using options_dash by blast+
  with prompt show ?case by simp
qed simp

section \<open>Properties\<close>

text \<open>The arguments that are accepted are exactly the sentences of a grammar with four options that take
  a value, two flags and at most one prompt; no other option and no subcommand gets through.\<close>

theorem validate_arguments_exact: "(validate_arguments False args = Inr ()) = foreground True args"
  using validate_foreground [of False args] foreground_validate [of True args] by auto


text \<open>C6: before an allow the process is verified: in the span of that check the manifest still admits the
  tuple, the host is observed to be the same, every file of the bundle is still the file that was hashed,
  and the image of the running process is the certified executable.\<close>

theorem verified_process_is_admitted:
  assumes "admission_verify_process os tok sha a pid t = (t', Inr u)"
  shows "\<exists>t1. admission_holds os tok sha a t t1 \<and>
    (\<exists>t2. t1 \<le> t2 \<and> leads_to os (exe_path (adm_executable a)) (exe_stamp (adm_executable a)) t1 t2 \<and>
       leads_to os (proc_exe pid) (exe_stamp (adm_executable a)) t2 t')"
proof -
  obtain t1 t2 h m where r: "admission_recheck os tok sha a t = (t1, Inr ())"
      "executable_recheck os (adm_executable a) t1 = (t2, Inr ())"
      and image: "host_open os t2 (proc_exe pid) False = Inr h" "host_fstat os (Suc t2) h = Inr m"
        "owner_controlled os m" "stamp_of m = exe_stamp (adm_executable a)" "t' = Suc (Suc t2)"
    using assms
    by (auto simp: admission_verify_process_def executable_verify_process_def io_simps file_stamp_Inr)
  have image': "leads_to os (proc_exe pid) (exe_stamp (adm_executable a)) t2 t'"
    using image unfolding leads_to_def by (rule_tac x = t2 in exI) auto
  have "t1 \<le> t2" by (rule forwardD [OF forward_executable(2) r(2)])
  then show ?thesis
    using admission_recheck_Inr [OF r(1)] recheck_file_Inr [OF r(2) [unfolded executable_recheck_def]] image'
    by blast
qed

text \<open>The manifest that is shipped has no entry, so nothing is admitted.\<close>

theorem shipped_admits_no_launch:
  assumes "reads_embedded tok"
  shows "admission_inspect os tok sha installation sandbox mode args t = (t, Inl NoCurrentCertification)"
  using embedded_shipped [OF assms]
  by (simp add: admission_inspect_def io_run shipped_manifest_def)

end
