(* ===== verification/Launcher.thy ===== *)
theory Launcher
  imports Child_Tree Admission State_Store Cli Broker
begin

text \<open>
  The launcher, \<^verbatim>\<open>run\<close> and \<^verbatim>\<open>launch_unarmed\<close> of \<^verbatim>\<open>src/launcher.rs\<close> on
  Linux, with the inspection of the installed Codex from \<^verbatim>\<open>src/codex.rs\<close>: everything that is checked
  before a child is armed, the supervision of the child, and what is cleaned up on every path.
\<close>

section \<open>What the calls return\<close>

record session =
  session_socket :: string
  session_secret_text :: string
  session_audit :: string

text \<open>One round of the loop that waits for the child.\<close>

record wait_round =
  wr_interrupted :: bool
  wr_expired :: bool
  wr_status :: "(io_kind, exit_status option) result"

record launch_calls =
  lc_which :: "nat \<Rightarrow> (io_kind, string) result"
  lc_current_exe :: "nat \<Rightarrow> (io_kind, path) result"
  lc_current_dir :: "nat \<Rightarrow> (io_kind, path) result"
  lc_output :: "nat \<Rightarrow> command_line \<Rightarrow> probe_output option"
  lc_health :: health_events
  lc_status :: "nat \<Rightarrow> spawn_command \<Rightarrow> (io_kind, exit_status) result"
  lc_session :: "nat \<Rightarrow> (io_kind, session) result"
  lc_broker_start :: "nat \<Rightarrow> (io_kind, unit) result"
  lc_spawn :: "nat \<Rightarrow> spawn_command \<Rightarrow> (io_kind, u32) result"
  lc_interrupt :: "nat \<Rightarrow> (io_kind, unit) result"
  lc_reader :: process_reader
  lc_set_identity :: "nat \<Rightarrow> (io_kind, unit) result"
  lc_rounds :: "wait_round list"
  lc_broker_shutdown :: "nat \<Rightarrow> (io_kind, unit) result"
  lc_session_cleanup :: "nat \<Rightarrow> (io_kind, unit) result"
  lc_audit :: "nat \<Rightarrow> audit_file option"

datatype launch_error =
    LaunchIo io_kind
  | WhichCodex
  | RecursiveLaunch
  | NotRegularFile
  | InvalidCompatibility
  | NonUnicodeCompatibility
  | LaunchAdmission admission_error
  | SessionFails io_kind
  | BrokerFails io_kind
  | InvalidSecret
  | SpawnFails io_kind
  | InterruptFails io_kind
  | ChildIdentity process_error
  | SetIdentity io_kind
  | WaitFails io_kind
  | StoppedOnInterrupt
  | StoppedOnTimeout
  | TreeFails tree_error
  | BrokerShutdown io_kind
  | SessionCleanup io_kind
  | CleanupAlso launch_error launch_error
  | UncertifiedHookConfig admission_error

text \<open>What the launcher does to the system; an action that creates something is logged when it succeeds.
  \<open>IdentitySet\<close> arms the session: until then the broker
  has no expected process, so it allows nothing.  \<open>SessionDropped\<close> is what Rust does with a session that
  goes out of scope, whose directories remove themselves.\<close>

datatype launch_action =
    RanUnarmed spawn_command
  | SessionCreated
  | BrokerStarted admission broker_config
  | ChildSpawned spawn_command
  | ChildKilled
  | ChildWaited
  | ChildReaped
  | IdentitySet process_identity
  | AcceptingStopped
  | BrokerStopped
  | SessionCleaned
  | SessionDropped
  | ObservationOffered string compatibility_observation
  | TreeAction tree_action

type_synonym 'a launch = "(launch_action, 'a) program"

type_synonym 'a outcome = "(launch_error, 'a) result option"

section \<open>The installed Codex\<close>

text \<open>\<^verbatim>\<open>version\<close> runs the command with one argument.  The text of the diagnostic is that of the
  error; only whether there is one is looked at.\<close>

definition path_extension :: "path \<Rightarrow> string option" where
  "path_extension path =
     Option.bind (file_name path) (\<lambda>name.
       case rfind_char (CHR ''.'') name of
         None \<Rightarrow> None
       | Some i \<Rightarrow> if i = 0 then None else Some (drop (Suc i) name))"

definition version_command :: "string \<Rightarrow> command_line" where
  "version_command path =
     build_codex_command
       \<lparr>installation_path = path, installation_native_path = None, installation_version = [],
        installation_version_diagnostic = None,
        installation_launcher_kind = launcher_kind_of (path_extension (path_of_string path))\<rparr> @ [''--version'']"

definition version_of :: "launch_calls \<Rightarrow> string \<Rightarrow> string option launch" where
  "version_of lc path = ask (\<lambda>t. version_of_output (lc_output lc t (version_command path)))"

definition codex_inspect :: "host_os \<Rightarrow> tokenizer \<Rightarrow> launch_calls \<Rightarrow> (launch_error, installation) result launch" where
  "codex_inspect os tok lc =
     if_ok (ask (lc_which lc)) (\<lambda>e. WhichCodex) (\<lambda>candidate.
     if_ok (ask (\<lambda>t. host_canonicalize os t (path_of_string candidate))) LaunchIo (\<lambda>resolved.
     if_ok (ask (lc_current_exe lc)) LaunchIo (\<lambda>launcher.
     if_ok (ask (\<lambda>t. host_canonicalize os t launcher)) LaunchIo (\<lambda>launcher.
     if resolved = launcher then done_with (Inl RecursiveLaunch)
     else
     and_next (perform (stat_is os PlainFile resolved)) (\<lambda>plain.
     if plain \<noteq> Inr True then done_with (Inl NotRegularFile)
     else
     and_next (perform (native_path os tok (path_of_string candidate))) (\<lambda>native.
     let found = (case native of Inl e \<Rightarrow> None | Inr p \<Rightarrow> Some (path_text p)) in
     and_next (version_of lc (case found of None \<Rightarrow> candidate | Some p \<Rightarrow> p)) (\<lambda>version.
     done_with (Inr
       \<lparr>installation_path = candidate, installation_native_path = found,
        installation_version = (case version of None \<Rightarrow> UNKNOWN_VERSION | Some v \<Rightarrow> v),
        installation_version_diagnostic =
          (case version of None \<Rightarrow> Some ''the version probe failed'' | Some v \<Rightarrow> None),
        installation_launcher_kind = Codex.Executable\<rparr>))))))))"

section \<open>Compatibility policy\<close>

definition resolve_compatibility_mode :: "environment \<Rightarrow> run_args \<Rightarrow> (launch_error, compatibility_mode) result" where
  "resolve_compatibility_mode env args =
     (case arg_compatibility args of
        Some mode \<Rightarrow> Inr Strict
      | None \<Rightarrow>
          (case env COMPATIBILITY_ENV of
             None \<Rightarrow> Inr Strict
           | Some value \<Rightarrow>
               if \<not> utf8_valid value then Inl NonUnicodeCompatibility
               else if eq_ignore_ascii_case value ''automatic'' then Inr Strict
               else if eq_ignore_ascii_case value ''strict'' then Inr Strict
               else Inl InvalidCompatibility))"

section \<open>Without approvals\<close>

text \<open>The command of the installation, in an environment that has no arming variable.\<close>

definition unarmed_command :: "environment \<Rightarrow> installation \<Rightarrow> string list \<Rightarrow> spawn_command" where
  "unarmed_command env installation args =
     (let line = build_codex_command installation in
      \<lparr>cmd_program = path_of_string (hd line), cmd_arg0 = None, cmd_args = tl line @ args,
       cmd_env = disarm_child env\<rparr>)"

definition launch_unarmed :: "host_os \<Rightarrow> launch_calls \<Rightarrow> installation \<Rightarrow> run_args \<Rightarrow> int outcome launch" where
  "launch_unarmed os lc installation args =
     (let command = unarmed_command (host_env os) installation (arg_codex_args args) in
      orfail (act (RanUnarmed command) (\<lambda>t. lc_status lc t command)) SpawnFails (\<lambda>status.
      returns (status_code status)))"

section \<open>Waiting\<close>

text \<open>The loop that waits for the child.  A verification has a way to stop the tree and a limit; in a
  production run an interrupt ends the approvals and the child goes on.\<close>

fun wait_for_bound_child ::
    "wait_round list \<Rightarrow> (launch_error, unit) result launch option \<Rightarrow> exit_status outcome launch" where
  "wait_for_bound_child [] verification = done_with None"
| "wait_for_bound_child (r # rs) verification =
     and_next (if wr_interrupted r then act AcceptingStopped (\<lambda>t. ()) else done_with ()) (\<lambda>_.
     case (wr_interrupted r, verification) of
       (True, Some stop) \<Rightarrow>
         and_next stop (\<lambda>cleanup. fails (with_cleanup_error CleanupAlso StoppedOnInterrupt cleanup))
     | _ \<Rightarrow>
       (case (wr_expired r, verification) of
          (True, Some stop) \<Rightarrow>
            and_next (act AcceptingStopped (\<lambda>t. ())) (\<lambda>_.
            and_next stop (\<lambda>cleanup. fails (with_cleanup_error CleanupAlso StoppedOnTimeout cleanup)))
        | _ \<Rightarrow>
          (case wr_status r of
             Inl e \<Rightarrow>
               and_next (case verification of None \<Rightarrow> done_with (Inr ()) | Some stop \<Rightarrow> stop) (\<lambda>cleanup.
               fails (with_cleanup_error CleanupAlso (WaitFails e) cleanup))
           | Inr (Some status) \<Rightarrow> and_next (act ChildReaped (\<lambda>t. ())) (\<lambda>_. returns status)
           | Inr None \<Rightarrow> wait_for_bound_child rs verification)))"

section \<open>The record of the session\<close>

definition user_state_path :: "environment \<Rightarrow> path option" where
  "user_state_path env =
     map_option (\<lambda>root. path_join (path_join root [Normal ''codex-autoapprover'']) [Normal ''update-state.json''])
       (case env ''XDG_STATE_HOME'' of
          Some root \<Rightarrow> Some (path_of_string root)
        | None \<Rightarrow> map_option (\<lambda>home. path_join (path_of_string home) (path_of_string ''.local/state''))
            (env ''HOME''))"

text \<open>The observation of a session, for the place where the state is kept.\<close>

definition session_observation ::
    "environment \<Rightarrow> audit_file option \<Rightarrow> string \<Rightarrow> (path \<times> compatibility_observation) option" where
  "session_observation env audit installed =
     (case read_audit audit of
        Inl e \<Rightarrow> None
      | Inr acc \<Rightarrow>
          (case (user_state_path env, stable_version_parse CARGO_PKG_VERSION, stable_version_parse installed) of
             (Some path, Inr autoapprover, Inr codex) \<Rightarrow>
               Some (path, from_session autoapprover codex OsLinux LocalCli
                 (finish (record_command_outcome UnknownOutcome acc)))
           | _ \<Rightarrow> None))"

definition record_session_observation :: "host_os \<Rightarrow> launch_calls \<Rightarrow> string \<Rightarrow> unit launch" where
  "record_session_observation os lc installed =
     and_next (ask (\<lambda>t. session_observation (host_env os) (lc_audit lc t) installed)) (\<lambda>observation.
     case observation of
       None \<Rightarrow> done_with ()
     | Some (path, ob) \<Rightarrow> act (ObservationOffered (path_text path) ob) (\<lambda>t. ()))"

section \<open>The armed child\<close>

text \<open>\<^verbatim>\<open>arm_production_child\<close>: the arming variables, and no path of the audit.\<close>

definition armed_command ::
    "session \<Rightarrow> string \<Rightarrow> string list \<Rightarrow> spawn_command \<Rightarrow> (launch_error, spawn_command) result" where
  "armed_command session hook args command =
     (case arm_child (cmd_env command) (session_socket session) (session_secret_text session) of
        Inl e \<Rightarrow> Inl InvalidSecret
      | Inr env \<Rightarrow> Inr (command\<lparr>cmd_args := cmd_args command @ [''-c'', hook] @ args,
                           cmd_env := env(AUDIT_PATH_ENV := None)\<rparr>))"

text \<open>The ways out of a run that has a broker.\<close>

definition kill_child :: "unit launch" where
  "kill_child = and_next (act ChildKilled (\<lambda>t. ())) (\<lambda>_. act ChildWaited (\<lambda>t. ()))"

definition abandon :: "launch_calls \<Rightarrow> launch_error \<Rightarrow> 'a outcome launch" where
  "abandon lc error =
     and_next (act BrokerStopped (lc_broker_shutdown lc)) (\<lambda>_.
     and_next (act SessionCleaned (lc_session_cleanup lc)) (\<lambda>cleanup.
     fails (with_cleanup_error CleanupAlso error (map_err SessionCleanup cleanup))))"

text \<open>After the child has been waited for.\<close>

definition conclude ::
    "host_os \<Rightarrow> launch_calls \<Rightarrow> string \<Rightarrow> (launch_error, exit_status) result \<Rightarrow> int outcome launch" where
  "conclude os lc installed status =
     and_next (act BrokerStopped (lc_broker_shutdown lc)) (\<lambda>broker_result.
     and_next (record_session_observation os lc installed) (\<lambda>_.
     and_next (act SessionCleaned (lc_session_cleanup lc)) (\<lambda>cleanup.
     done_with (Some
       (and_then status (\<lambda>status.
        and_then (map_err BrokerShutdown broker_result) (\<lambda>_.
        and_then (map_err SessionCleanup cleanup) (\<lambda>_. Inr (status_code status)))))))))"

definition supervise :: "host_os \<Rightarrow> tokenizer \<Rightarrow> (string \<Rightarrow> u8 list) \<Rightarrow> launch_calls \<Rightarrow> admission \<Rightarrow> string
    \<Rightarrow> u32 \<Rightarrow> int outcome launch" where
  "supervise os tok sha lc a installed pid =
     and_next (ask (lc_interrupt lc)) (\<lambda>interrupted.
     case interrupted of Inl e \<Rightarrow> and_next kill_child (\<lambda>_. abandon lc (InterruptFails e)) | Inr _ \<Rightarrow>
     and_next (ask (\<lambda>t. current_process_identity (lc_reader lc) t pid)) (\<lambda>identity.
     case identity of
       Inl e \<Rightarrow> and_next kill_child (\<lambda>_. and_next (act AcceptingStopped (\<lambda>t. ())) (\<lambda>_. abandon lc (ChildIdentity e)))
     | Inr identity \<Rightarrow>
     and_next (perform (admission_verify_process os tok sha a pid)) (\<lambda>verified.
     case verified of Inl e \<Rightarrow> and_next kill_child (\<lambda>_. abandon lc (LaunchAdmission e)) | Inr _ \<Rightarrow>
     and_next (act_ok (IdentitySet identity) (lc_set_identity lc)) (\<lambda>armed.
     case armed of Inl e \<Rightarrow> and_next kill_child (\<lambda>_. abandon lc (SetIdentity e)) | Inr _ \<Rightarrow>
     and_next (wait_for_bound_child (lc_rounds lc) None) (\<lambda>status.
     case status of None \<Rightarrow> done_with None | Some status \<Rightarrow> conclude os lc installed status)))))"

definition production_config :: "admission \<Rightarrow> string \<Rightarrow> path \<Rightarrow> broker_config" where
  "production_config a installed dir =
     \<lparr>cfg_admission = Some (adm_target a), cfg_codex_version = installed,
      cfg_expected_cwd = path_text dir, cfg_expected_command = None, cfg_expected_tool_name = None,
      cfg_audit = True\<rparr>"

definition absolute_path :: "host_os \<Rightarrow> path \<Rightarrow> path launch" where
  "absolute_path os path =
     ask (\<lambda>t. case host_canonicalize os t path of Inl e \<Rightarrow> path | Inr p \<Rightarrow> p)"

text \<open>From the arming variables to the supervision of the child.\<close>

definition launch_child :: "host_os \<Rightarrow> tokenizer \<Rightarrow> (string \<Rightarrow> u8 list) \<Rightarrow> launch_calls \<Rightarrow> admission \<Rightarrow> string
    \<Rightarrow> (launch_error, spawn_command) result \<Rightarrow> int outcome launch" where
  "launch_child os tok sha lc a installed armed =
     (case armed of
        Inl e \<Rightarrow> abandon lc e
      | Inr command \<Rightarrow>
          and_next (act_ok (ChildSpawned command) (\<lambda>t. lc_spawn lc t command)) (\<lambda>child.
          case child of
            Inl e \<Rightarrow> abandon lc (SpawnFails e)
          | Inr pid \<Rightarrow> supervise os tok sha lc a installed pid))"

definition start_armed :: "host_os \<Rightarrow> tokenizer \<Rightarrow> (string \<Rightarrow> u8 list) \<Rightarrow> launch_calls \<Rightarrow> installation \<Rightarrow> run_args
    \<Rightarrow> path \<Rightarrow> path \<Rightarrow> admission \<Rightarrow> int outcome launch" where
  "start_armed os tok sha lc installation args launcher dir a =
     orfail (act_ok SessionCreated (lc_session lc)) SessionFails (\<lambda>session.
     and_next (act_ok (BrokerStarted a (production_config a (installation_version installation) dir))
       (lc_broker_start lc)) (\<lambda>broker.
     case broker of Inl e \<Rightarrow> and_next (act SessionDropped (\<lambda>t. ())) (\<lambda>_. fails (BrokerFails e)) | Inr _ \<Rightarrow>
     case admission_configure_child a (executable_command (host_env os) (adm_executable a)) of
       Inl e \<Rightarrow> and_next (act SessionDropped (\<lambda>t. ())) (\<lambda>_. fails (LaunchAdmission e))
     | Inr configured \<Rightarrow>
     and_next (absolute_path os launcher) (\<lambda>hook.
     launch_child os tok sha lc a (installation_version installation)
       (armed_command session (hook_command_value OsLinux (path_text hook)) (arg_codex_args args) configured))))"

section \<open>The run\<close>

definition capability_of :: "host_os \<Rightarrow> launch_calls \<Rightarrow> installation \<Rightarrow> path \<Rightarrow> hook_capability launch" where
  "capability_of os lc installation launcher =
     and_next (absolute_path os launcher) (\<lambda>hook.
     let config = hook_command_value OsLinux (path_text hook); probe = build_probe_command installation in
     ask (\<lambda>t. detect_hook_capability
       (lc_output lc t (probe @ [''--help'', ''-c'', config]))
       (lc_output lc t (probe @ [''features'', ''list'', ''-c'', config]))))"

definition capable :: "hook_capability \<Rightarrow> bool" where
  "capable c = (c = ReviewedLiveEvidence \<or> c = SupportedByConfigurationProbe)"

text \<open>What is checked when an admission has been given.\<close>

definition launch_admitted :: "host_os \<Rightarrow> tokenizer \<Rightarrow> (string \<Rightarrow> u8 list) \<Rightarrow> launch_calls \<Rightarrow> installation \<Rightarrow> run_args
    \<Rightarrow> path \<Rightarrow> path \<Rightarrow> admission \<Rightarrow> int outcome launch" where
  "launch_admitted os tok sha lc installation args launcher dir a =
     and_next (capability_of os lc installation launcher) (\<lambda>capability.
     if \<not> capable capability then launch_unarmed os lc installation args
     else
     and_next (perform (check_execution_health os tok sha (lc_health lc) a)) (\<lambda>health.
     case health of Inl e \<Rightarrow> launch_unarmed os lc installation args | Inr _ \<Rightarrow>
     and_next (version_of lc (path_text (exe_path (adm_executable a)))) (\<lambda>version.
     if version \<noteq> Some (installation_version installation) then launch_unarmed os lc installation args
     else
     orfail (perform (admission_recheck os tok sha a)) LaunchAdmission (\<lambda>_.
     start_armed os tok sha lc installation args launcher dir a))))"

definition run :: "host_os \<Rightarrow> tokenizer \<Rightarrow> (string \<Rightarrow> u8 list) \<Rightarrow> launch_calls \<Rightarrow> run_args \<Rightarrow> int outcome launch" where
  "run os tok sha lc args =
     orfail (codex_inspect os tok lc) (\<lambda>e. e) (\<lambda>installation.
     orfail (ask (lc_current_exe lc)) LaunchIo (\<lambda>launcher.
     orfail (ask (lc_current_dir lc)) LaunchIo (\<lambda>dir.
     orfail (done_with (resolve_compatibility_mode (host_env os) args)) (\<lambda>e. e) (\<lambda>mode.
     and_next (perform (admission_inspect os tok sha installation (arg_sandbox_implementation args)
         (arg_sandbox_mode args) (arg_codex_args args))) (\<lambda>admission.
     case admission of
       Inl e \<Rightarrow> launch_unarmed os lc installation args
     | Inr a \<Rightarrow> launch_admitted os tok sha lc installation args launcher dir a)))))"

text \<open>\<^verbatim>\<open>print_hook_config\<close>: the admission is inspected without a sandbox.\<close>

definition print_hook_config ::
    "host_os \<Rightarrow> tokenizer \<Rightarrow> (string \<Rightarrow> u8 list) \<Rightarrow> launch_calls \<Rightarrow> (launch_error, string) result launch" where
  "print_hook_config os tok sha lc =
     if_ok (codex_inspect os tok lc) (\<lambda>e. e) (\<lambda>installation.
     if_ok (perform (admission_inspect os tok sha installation None None [])) UncertifiedHookConfig (\<lambda>a.
     if_ok (ask (lc_current_exe lc)) LaunchIo (\<lambda>launcher.
     and_next (absolute_path os launcher) (\<lambda>hook.
     done_with (Inr (hook_config_snippet OsLinux (path_text hook)))))))"

end
