(* ===== verification/Verification_Probe.thy ===== *)
theory Verification_Probe
  imports Compatibility Frames Arming
begin

text \<open>
  The loopback witness of \<^verbatim>\<open>src/verification_probe.rs\<close>: it counts the requests that arrive on its
  port and tells the one that the verification asks for from all others.
\<close>

section \<open>One request\<close>

definition REQUEST_LIMIT :: nat where
  "REQUEST_LIMIT = 4096"

definition CHUNK :: nat where
  "CHUNK = 256"

definition LINE_END :: string where
  "LINE_END = [CHR 0x0D, CHR 0x0A]"

definition HEAD_END :: string where
  "HEAD_END = LINE_END @ LINE_END"

text \<open>The first position at which a window of the text equals the pattern.\<close>

fun find_sub :: "string \<Rightarrow> string \<Rightarrow> nat option" where
  "find_sub p [] = None"
| "find_sub p (c # s) = (if starts_with p (c # s) then Some 0 else map_option Suc (find_sub p s))"

definition head_line :: "string \<Rightarrow> string" where
  "head_line path = ''HEAD '' @ path @ '' HTTP/1.1''"

definition is_head :: "string \<Rightarrow> string \<Rightarrow> bool" where
  "is_head path request =
     (case find_sub LINE_END request of None \<Rightarrow> False | Some line_end \<Rightarrow> take line_end request = head_line path)"

text \<open>The events are those of a stream of the broker; an error of the socket, also one of setting its time
  out, ends the witness.\<close>

function receive_head :: "string \<Rightarrow> string \<Rightarrow> io_event list \<Rightarrow> (unit, bool) result" where
  "receive_head path request es =
     (if REQUEST_LIMIT \<le> length request then Inr False
      else case es of
        [] \<Rightarrow> Inr False
      | DeadlinePassed # es \<Rightarrow> Inr False
      | WouldBlock # es \<Rightarrow> Inr False
      | IoFailure # es \<Rightarrow> Inl ()
      | Interrupted # es \<Rightarrow> receive_head path request es
      | Bytes s # es \<Rightarrow>
          (if s = [] then Inr False
           else
             let room = min (REQUEST_LIMIT - length request) CHUNK;
                 request' = request @ take room s
             in case find_sub HEAD_END request' of
                  Some end_at \<Rightarrow> Inr (end_at + 4 = length request' \<and> is_head path request')
                | None \<Rightarrow>
                    receive_head path request' (if length s \<le> room then es else Bytes (drop room s) # es)))"
  by pat_completeness auto

termination
  by (relation "measures [\<lambda>(path, request, es). REQUEST_LIMIT - length request, \<lambda>(path, request, es). length es]")
    (auto simp: not_le Let_def CHUNK_def neq_Nil_conv)

declare receive_head.simps [simp del]

section \<open>The witness\<close>

record observation_counts =
  exact_head_requests :: nat
  unexpected_requests :: nat

text \<open>What one round of the loop meets: the flag that stops it, a connection with the address of its peer, what it
  sends and whether the time out can be set and the answer written, no connection, or an error.\<close>

datatype witness_round =
    WitnessStopped
  | WitnessAccepts bool "io_event list" bool bool
  | WitnessIdle
  | WitnessFails

definition witness_exact :: "string \<Rightarrow> bool \<Rightarrow> io_event list \<Rightarrow> (unit, bool) result" where
  "witness_exact path loopback stream = (if loopback then receive_head path [] stream else Inr False)"

text \<open>The value is \<open>None\<close> if the rounds that are given do not end the loop.\<close>

fun observe_requests ::
    "string \<Rightarrow> observation_counts \<Rightarrow> witness_round list \<Rightarrow> (unit, observation_counts) result option" where
  "observe_requests path counts [] = None"
| "observe_requests path counts (WitnessStopped # rs) = Some (Inr counts)"
| "observe_requests path counts (WitnessIdle # rs) = observe_requests path counts rs"
| "observe_requests path counts (WitnessFails # rs) = Some (Inl ())"
| "observe_requests path counts (WitnessAccepts loopback stream timed written # rs) =
     (case witness_exact path loopback stream of
        Inl e \<Rightarrow> Some (Inl ())
      | Inr exact \<Rightarrow>
          if \<not> timed then Some (Inl ())
          else if written \<and> exact
          then observe_requests path (counts\<lparr>exact_head_requests := Suc (exact_head_requests counts)\<rparr>) rs
          else observe_requests path (counts\<lparr>unexpected_requests := Suc (unexpected_requests counts)\<rparr>) rs)"

text \<open>\<^verbatim>\<open>start\<close>: the port of the listener and the random bytes give the command and the path that
  the witness waits for.\<close>

datatype probe_start_error = ProbeListener | ProbeRandom | ProbeCommand | ProbeWorker

definition probe_start ::
    "(unit, u16) result \<Rightarrow> u8 list option \<Rightarrow> bool \<Rightarrow> (probe_start_error, string \<times> string) result" where
  "probe_start listener random spawned =
     and_then (map_err (\<lambda>_. ProbeListener) listener) (\<lambda>port.
     and_then (ok_or ProbeRandom random) (\<lambda>bytes.
     let nonce = to_hex bytes in
     and_then (ok_or ProbeCommand (verification_probe_command OsLinux port nonce)) (\<lambda>command.
     if spawned then Inr (command, CHR ''/'' # nonce) else Inl ProbeWorker)))"


section \<open>Lemmas\<close>

lemma find_sub_Some: "find_sub p s = Some n \<Longrightarrow> starts_with p (drop n s) \<and> n < length s"
  by (induction p s arbitrary: n rule: find_sub.induct) (auto split: if_splits)

lemma find_sub_split: "find_sub p s = Some n \<Longrightarrow> s = take n s @ p @ drop (n + length p) s"
  using find_sub_Some [of p s n]
  by (metis add.commute append_take_drop_id drop_drop starts_with_def)

lemma find_sub_length: "find_sub p s = Some n \<Longrightarrow> n + length p \<le> length s"
  using find_sub_split [of p s n] find_sub_Some [of p s n]
  by (metis add_le_cancel_left diff_add_inverse length_append length_drop le_add1 le_add_diff_inverse less_imp_le_nat starts_with_iff)

text \<open>A pattern that ends a text, and does not occur before, does not occur in what comes before the end.\<close>

lemma find_sub_None_prefix:
  "\<lbrakk>find_sub p (s @ t) = Some n; length s < n + length p\<rbrakk> \<Longrightarrow> find_sub p s = None"
proof (induction s arbitrary: n)
  case (Cons c s)
  show ?case
  proof (cases "starts_with p (c # s)")
    case True
    then have "starts_with p (c # s @ t)" by (metis append.assoc append_Cons starts_with_iff)
    then have "n = 0" using Cons.prems(1) by simp
    moreover have "length p \<le> length (c # s)" using True by (metis le_add1 length_append starts_with_iff)
    ultimately show ?thesis using Cons.prems(2) by simp
  next
    case False
    have short: "length (c # s) < n + length p" using Cons.prems(2) .
    show ?thesis
    proof (cases "starts_with p (c # s @ t)")
      case True
      then have "n = 0" using Cons.prems(1) by simp
      show ?thesis
      proof (cases "find_sub p s")
        case (Some m)
        then have "m + length p \<le> length s" by (rule find_sub_length)
        then show ?thesis using short \<open>n = 0\<close> by simp
      qed (simp add: False)
    next
      case False
      then obtain m where "find_sub p (s @ t) = Some m" "n = Suc m" using Cons.prems(1) by auto
      then have "find_sub p s = None" using Cons.IH [of m] short by simp
      then show ?thesis using \<open>\<not> starts_with p (c # s)\<close> by simp
    qed
  qed
qed simp

lemma find_line_end: "CHR 0x0D \<notin> set x \<Longrightarrow> find_sub LINE_END (x @ LINE_END @ h) = Some (length x)"
  by (induction x) (auto simp: LINE_END_def starts_with_def)

lemma is_head_line: "is_head path r \<Longrightarrow> \<exists>headers. r = head_line path @ LINE_END @ headers"
  by (auto simp: is_head_def split: option.splits) (metis find_sub_split)

text \<open>What a stream delivers, whatever the pieces.\<close>

definition stream_bytes :: "io_event list \<Rightarrow> string" where
  "stream_bytes es = concat (map (\<lambda>e. case e of Bytes s \<Rightarrow> s | _ \<Rightarrow> []) es)"

lemma stream_bytes_simps [simp]:
  "stream_bytes [] = []" "stream_bytes (Bytes s # es) = s @ stream_bytes es"
  "stream_bytes (Interrupted # es) = stream_bytes es"
  by (simp_all add: stream_bytes_def)

lemma receive_head_Bytes:
  assumes "length request < REQUEST_LIMIT" "s \<noteq> []" "room = min (REQUEST_LIMIT - length request) CHUNK"
    "request' = request @ take room s" "rest = (if length s \<le> room then es else Bytes (drop room s) # es)"
  shows "receive_head path request (Bytes s # es) =
    (case find_sub HEAD_END request' of
       Some end_at \<Rightarrow> Inr (end_at + 4 = length request' \<and> is_head path request')
     | None \<Rightarrow> receive_head path request' rest)"
  unfolding receive_head.simps [of path request "Bytes s # es"] Let_def list.case io_event.case assms(3-5)
  using assms(1,2) by (simp only: not_le [symmetric] if_False)

text \<open>A request is exact only if the stream delivers the line of the request and its headers, with nothing
  after the end of the headers that was read with them.\<close>

lemma receive_head_prefix:
  "receive_head path request es = Inr True \<Longrightarrow>
   \<exists>r rest. request @ stream_bytes es = r @ rest \<and> length r \<le> REQUEST_LIMIT \<and>
     find_sub HEAD_END r = Some (length r - 4) \<and> is_head path r"
proof (induction path request es rule: receive_head.induct)
  case (1 path request es)
  note run = 1(3) [unfolded receive_head.simps [of path request es]]
  then have short: "length request < REQUEST_LIMIT" by (simp split: if_splits)
  show ?case
  proof (cases es)
    case (Cons e es')
    show ?thesis
    proof (cases e)
      case (Bytes s)
      define room where "room = min (REQUEST_LIMIT - length request) CHUNK"
      define request' where "request' = request @ take room s"
      define rest where "rest = (if length s \<le> room then es' else Bytes (drop room s) # es')"
      have s: "s \<noteq> []" using run short Cons Bytes by auto
      have bound: "length request' \<le> REQUEST_LIMIT" using short by (simp add: request'_def room_def)
      have bytes: "request' @ stream_bytes rest = request @ stream_bytes es"
        by (simp add: request'_def rest_def Cons Bytes)
      note step = receive_head_Bytes [OF short s room_def request'_def rest_def]
      show ?thesis
      proof (cases "find_sub HEAD_END request'")
        case None
        then have "receive_head path request' rest = Inr True"
          using 1(3) by (simp add: Cons Bytes step)
        from 1(1) [OF _ Cons Bytes s room_def request'_def None, folded rest_def] this bytes short show ?thesis by simp
      next
        case (Some n)
        then have "n + 4 = length request'" "is_head path request'"
          using 1(3) by (simp_all add: Cons Bytes step)
        then show ?thesis using Some bound bytes by (metis add_diff_cancel_right')
      qed
    qed (use run short Cons 1(2) [OF _ Cons] in auto)
  qed (use run short in auto)
qed


text \<open>A request that is there as a whole is recognised however it is cut into pieces.\<close>

definition steady_stream :: "io_event list \<Rightarrow> bool" where
  "steady_stream es = list_all (\<lambda>e. e = Interrupted \<or> (\<exists>s. e = Bytes s \<and> s \<noteq> [])) es"

lemma receive_head_steady:
  assumes "steady_stream es" "request @ stream_bytes es = r" "stream_bytes es \<noteq> []"
    and whole: "find_sub HEAD_END r = Some (length r - 4)" "length r \<le> REQUEST_LIMIT"
  shows "receive_head path request es = Inr (is_head path r)"
  using assms(1-3)
proof (induction path request es rule: receive_head.induct)
  case (1 path request es)
  have "length request < length r" using 1(4,5) by auto
  then have short: "length request < REQUEST_LIMIT" using whole(2) by simp
  obtain e es' where es: "es = e # es'" using 1(5) by (cases es) auto
  show ?case
  proof (cases e)
    case (Bytes s)
    define room where "room = min (REQUEST_LIMIT - length request) CHUNK"
    define request' where "request' = request @ take room s"
    define rest where "rest = (if length s \<le> room then es' else Bytes (drop room s) # es')"
    have s: "s \<noteq> []" using 1(3) es Bytes by (simp add: steady_stream_def)
    have whole_piece: "take room s @ drop room s @ u = s @ u" for u by (metis append_assoc append_take_drop_id)
    have bytes: "request' @ stream_bytes rest = r"
      using 1(4) by (simp add: request'_def rest_def es Bytes whole_piece)
    have still: "steady_stream rest" using 1(3) by (auto simp: steady_stream_def es Bytes rest_def)
    note step = receive_head_Bytes [OF short s room_def request'_def rest_def]
    show ?thesis
    proof (cases "stream_bytes rest = []")
      case True
      then have "request' = r" using bytes by simp
      moreover have "4 \<le> length r" using find_sub_length [OF whole(1)] by (simp add: HEAD_END_def LINE_END_def)
      ultimately show ?thesis using whole(1) by (simp add: es Bytes step)
    next
      case False
      then have less: "length request' < length r" using bytes by auto
      have "4 \<le> length r" using find_sub_length [OF whole(1)] by (simp add: HEAD_END_def LINE_END_def)
      then have "length request' < length r - 4 + length HEAD_END"
        using less by (simp add: HEAD_END_def LINE_END_def)
      then have none: "find_sub HEAD_END request' = None"
        using find_sub_None_prefix whole(1) bytes by metis
      have "receive_head path request' rest = Inr (is_head path r)"
        using 1(1) [OF _ es Bytes s room_def request'_def none, folded rest_def] still bytes False short by simp
      then show ?thesis using none by (simp add: es Bytes step)
    qed
  next
    case Interrupted
    then show ?thesis
      using 1(2) [OF _ es] 1(3-5) short es by (simp add: receive_head.simps [of path request "Interrupted # es'"] steady_stream_def)
  qed (use 1(3) es in \<open>auto simp: steady_stream_def\<close>)
qed

section \<open>Properties\<close>

text \<open>The witness counts a request as the expected one only if its peer is on the loopback interface and the
  stream delivers exactly the line of the request, some headers and the empty line that ends them,
  within the limit.\<close>

theorem witness_exact_sound:
  assumes "witness_exact path loopback stream = Inr True"
  shows "loopback \<and> (\<exists>headers rest. stream_bytes stream = head_line path @ LINE_END @ headers @ rest \<and>
    length (head_line path @ LINE_END @ headers) \<le> REQUEST_LIMIT \<and>
    (\<exists>before. head_line path @ LINE_END @ headers = before @ HEAD_END))"
proof -
  from assms have loopback: loopback and run: "receive_head path [] stream = Inr True"
    by (simp_all add: witness_exact_def split: if_splits)
  from receive_head_prefix [OF run] obtain r rest where
      r: "stream_bytes stream = r @ rest" "length r \<le> REQUEST_LIMIT" "find_sub HEAD_END r = Some (length r - 4)" "is_head path r"
    by auto
  obtain headers where headers: "r = head_line path @ LINE_END @ headers" using is_head_line [OF r(4)] by blast
  have "drop (length r - 4 + 4) r = []" using find_sub_length [OF r(3)] by (simp add: HEAD_END_def LINE_END_def)
  then have "r = take (length r - 4) r @ HEAD_END"
    using find_sub_split [OF r(3)] by (simp add: HEAD_END_def LINE_END_def)
  then show ?thesis using loopback r(1,2) headers by (metis append.assoc)
qed

text \<open>The answer does not depend on how the request is cut into pieces, or on interruptions between them.\<close>

theorem witness_any_pieces:
  assumes "steady_stream es" "stream_bytes es = head_line path @ LINE_END @ headers"
    and "find_sub HEAD_END (head_line path @ LINE_END @ headers) = Some (length (head_line path @ LINE_END @ headers) - 4)"
    and "length (head_line path @ LINE_END @ headers) \<le> REQUEST_LIMIT" "CHR 0x0D \<notin> set path"
  shows "witness_exact path True es = Inr True"
proof -
  have line: "find_sub LINE_END (head_line path @ LINE_END @ headers) = Some (length (head_line path))"
    using assms(5) by (intro find_line_end) (simp add: head_line_def char_of_def)
  have "stream_bytes es \<noteq> []" by (simp add: assms(2) head_line_def)
  from receive_head_steady [OF assms(1) _ this assms(3,4)] assms(2) line show ?thesis
    by (simp add: witness_exact_def is_head_def)
qed



definition round_exact :: "string \<Rightarrow> witness_round \<Rightarrow> bool" where
  "round_exact path r =
     (case r of WitnessAccepts loopback stream timed written \<Rightarrow> written \<and> witness_exact path loopback stream = Inr True
      | _ \<Rightarrow> False)"

definition round_accepts :: "witness_round \<Rightarrow> bool" where
  "round_accepts r = (case r of WitnessAccepts loopback stream timed written \<Rightarrow> True | _ \<Rightarrow> False)"

lemma observe_counts:
  "observe_requests path counts rs = Some (Inr counts') \<Longrightarrow>
   exact_head_requests counts' =
     exact_head_requests counts + length (filter (round_exact path) (takeWhile (\<lambda>r. r \<noteq> WitnessStopped) rs)) \<and>
   exact_head_requests counts' + unexpected_requests counts' =
     exact_head_requests counts + unexpected_requests counts +
     length (filter round_accepts (takeWhile (\<lambda>r. r \<noteq> WitnessStopped) rs))"
proof (induction path counts rs rule: observe_requests.induct)
  case (5 path counts loopback stream timed written rs)
  obtain exact where exact: "witness_exact path loopback stream = Inr exact"
    using 5(3) by (cases "witness_exact path loopback stream") simp_all
  have timed: timed using 5(3) exact by (cases timed) simp_all
  show ?case
  proof (cases "written \<and> exact")
    case True
    then show ?thesis using 5(1) [OF exact] 5(3) exact timed by (simp add: round_exact_def round_accepts_def)
  next
    case False
    then show ?thesis using 5(2) [OF exact] 5(3) exact timed by (auto simp: round_exact_def round_accepts_def)
  qed
qed (simp_all add: round_exact_def round_accepts_def)

text \<open>The counts of the witness are those of the connections it has accepted until it was stopped: the requests
  that are exact and were answered, and all others.  So one exact and no unexpected request mean that there
  was exactly one connection.\<close>

theorem witness_counts_connections:
  assumes "observe_requests path \<lparr>exact_head_requests = 0, unexpected_requests = 0\<rparr> rs = Some (Inr counts)"
  shows "exact_head_requests counts = length (filter (round_exact path) (takeWhile (\<lambda>r. r \<noteq> WitnessStopped) rs)) \<and>
    exact_head_requests counts + unexpected_requests counts =
      length (filter round_accepts (takeWhile (\<lambda>r. r \<noteq> WitnessStopped) rs))"
  using observe_counts [OF assms] by simp

section \<open>Witnesses\<close>

definition example_request :: string where
  "example_request = ''HEAD /n HTTP/1.1'' @ LINE_END @ ''Host: x'' @ HEAD_END"

lemma example_text:
  "example_request = ''HEAD /n HTTP/1.1'' @ [CHR 0x0D, CHR 0x0A] @ ''Host: x'' @ [CHR 0x0D, CHR 0x0A, CHR 0x0D, CHR 0x0A]"
  "LINE_END = [CHR 0x0D, CHR 0x0A]" "HEAD_END = [CHR 0x0D, CHR 0x0A, CHR 0x0D, CHR 0x0A]"
  by (simp_all add: example_request_def LINE_END_def HEAD_END_def)

lemma example_ends: "find_sub HEAD_END example_request = Some (length example_request - 4)"
  unfolding example_text by (simp add: starts_with_def)

lemma example_exact: "witness_exact ''/n'' True [Bytes example_request] = Inr True"
proof -
  have "is_head ''/n'' example_request"
    unfolding is_head_def example_text head_line_def by (simp add: starts_with_def)
  then show ?thesis
    using receive_head_steady [of "[Bytes example_request]" "[]" example_request "''/n''"] example_ends
    by (simp add: witness_exact_def steady_stream_def example_text REQUEST_LIMIT_def)
qed

theorem witness_exact_sound_witness:
  "\<exists>headers rest. stream_bytes [Bytes example_request] = head_line ''/n'' @ LINE_END @ headers @ rest"
  using witness_exact_sound [OF example_exact] by blast

theorem witness_any_pieces_witness:
  "witness_exact ''/n'' True [Bytes (take 20 example_request), Interrupted, Bytes (drop 20 example_request)] = Inr True"
proof -
  have whole: "head_line ''/n'' @ LINE_END @ ''Host: x'' @ HEAD_END = example_request"
    unfolding example_text by (simp add: head_line_def)
  have "steady_stream [Bytes (take 20 example_request), Interrupted, Bytes (drop 20 example_request)]"
    unfolding example_text by (simp add: steady_stream_def)
  moreover have "stream_bytes [Bytes (take 20 example_request), Interrupted, Bytes (drop 20 example_request)] = example_request"
    by (simp del: take_append drop_append)
  moreover have "length example_request \<le> REQUEST_LIMIT"
    unfolding example_text by (simp add: REQUEST_LIMIT_def)
  ultimately show ?thesis
    using witness_any_pieces [where headers = "''Host: x'' @ HEAD_END" and path = "''/n''", unfolded whole] example_ends
    by simp
qed

theorem witness_counts_connections_witness:
  "exact_head_requests \<lparr>exact_head_requests = 1, unexpected_requests = 1\<rparr> =
     length (filter (round_exact ''/n'') [WitnessAccepts True [Bytes example_request] True True, WitnessAccepts False [] True True])"
proof -
  have other: "witness_exact ''/n'' False [] = Inr False" by (simp add: witness_exact_def)
  have "observe_requests ''/n'' \<lparr>exact_head_requests = 0, unexpected_requests = 0\<rparr>
      [WitnessAccepts True [Bytes example_request] True True, WitnessAccepts False [] True True, WitnessStopped] =
      Some (Inr \<lparr>exact_head_requests = 1, unexpected_requests = 1\<rparr>)"
    by (simp add: example_exact other)
  from witness_counts_connections [OF this] show ?thesis by simp
qed

end
