(* ===== verification/Verification_Setup.thy ===== *)
theory Verification_Setup
  imports Launcher Verification_Probe
begin

text \<open>
  What the local verification of \<^verbatim>\<open>src/launcher.rs\<close> prepares: the confirmation, the login that is
  copied, the temporary directories and the repository in them, and the environment of the child.
\<close>

section \<open>Confirmation\<close>

definition confirmation_phrase :: "verification_target \<Rightarrow> string" where
  "confirmation_phrase target =
     (if target_operating_system_of target = OsWindows
      then ''VERIFY CODEX '' @ target_version target @ '' WINDOWS HOOK''
      else ''VERIFY CODEX '' @ target_version target @ '' HOOK'')"

definition confirmation_matches :: "string \<Rightarrow> string \<Rightarrow> bool" where
  "confirmation_matches line expected =
     (rev (dropWhile (\<lambda>c. c = CHR 0x0D \<or> c = CHR 0x0A) (rev line)) = expected)"

text \<open>The prompt shows the phrase between two back quotes.\<close>

definition confirmation_prompt :: "verification_target \<Rightarrow> string" where
  "confirmation_prompt target =
     ''Type exactly '' @ [CHR 0x60] @ confirmation_phrase target @ '' '' @ [CHR 0x60] @
     '' followed by Enter to continue: ''"

datatype confirm_event = ConfirmLine string | ConfirmUnreadable io_kind | ConfirmNothing | ConfirmClosed

record confirm_round =
  cr_interrupted :: bool
  cr_expired :: bool
  cr_event :: confirm_event

datatype confirm_error =
    ConfirmCancelled | ConfirmTimedOut | ConfirmEof | ConfirmWrong | ConfirmReadError io_kind | ConfirmInputClosed

text \<open>A line of no bytes is the end of the input.\<close>

fun confirm_with_timeout :: "verification_target \<Rightarrow> confirm_round list \<Rightarrow> (confirm_error, unit) result option" where
  "confirm_with_timeout target [] = None"
| "confirm_with_timeout target (r # rs) =
     (if cr_interrupted r then Some (Inl ConfirmCancelled)
      else if cr_expired r then Some (Inl ConfirmTimedOut)
      else case cr_event r of
        ConfirmLine line \<Rightarrow>
          (if line = [] then Some (Inl ConfirmEof)
           else if confirmation_matches line (confirmation_phrase target) then Some (Inr ())
           else Some (Inl ConfirmWrong))
      | ConfirmUnreadable e \<Rightarrow> Some (Inl (ConfirmReadError e))
      | ConfirmNothing \<Rightarrow> confirm_with_timeout target rs
      | ConfirmClosed \<Rightarrow> Some (Inl ConfirmInputClosed))"

text \<open>The text that the prompt shows ends with a space, and a line of exactly this text is refused.\<close>

theorem prompted_text_is_refused:
  "confirm_with_timeout target [\<lparr>cr_interrupted = False, cr_expired = False,
     cr_event = ConfirmLine (confirmation_phrase target @ '' '' @ [CHR 0x0A])\<rparr>] = Some (Inl ConfirmWrong)"
  by (simp add: confirmation_matches_def)

section \<open>The login\<close>

definition MAX_VERIFICATION_AUTH_BYTES :: nat where
  "MAX_VERIFICATION_AUTH_BYTES = 1024 * 1024"

datatype auth_error =
    AuthHomeRelative
  | AuthIdentity identity_error
  | AuthIo io_kind
  | AuthLiveHome
  | AuthRelative
  | AuthNotBounded
  | AuthExposed
  | AuthNoParent
  | AuthChanged

definition refuse_live :: "host_os \<Rightarrow> path \<Rightarrow> path \<Rightarrow> (auth_error, unit) io" where
  "refuse_live os canonical live =
     io_then (try_call (\<lambda>t. host_canonicalize os t live)) (\<lambda>r.
     io_ensure (\<not> (case r of Inl e \<Rightarrow> False | Inr path \<Rightarrow> path_starts_with canonical path)) AuthLiveHome)"

definition verification_auth_source_with_live :: "host_os \<Rightarrow> path \<Rightarrow> path list \<Rightarrow> (auth_error, path) io" where
  "verification_auth_source_with_live os test_home live_homes =
     io_then (io_ensure (is_absolute test_home) AuthHomeRelative) (\<lambda>_.
     io_then (io_map_err AuthIdentity (check_trusted_directory_chain os test_home)) (\<lambda>_.
     io_then (call AuthIo (\<lambda>t. host_canonicalize os t test_home)) (\<lambda>canonical.
     io_then (io_each (refuse_live os canonical) live_homes) (\<lambda>_.
     io_return (path_join canonical [Normal ''auth.json''])))))"

definition live_homes :: "environment \<Rightarrow> path list" where
  "live_homes env =
     (case env ''HOME'' of None \<Rightarrow> [] | Some home \<Rightarrow> [path_join (path_of_string home) [Normal ''.codex'']]) @
     (case env ''CODEX_HOME'' of None \<Rightarrow> [] | Some home \<Rightarrow> [path_of_string home])"

definition verification_auth_source :: "host_os \<Rightarrow> path \<Rightarrow> (auth_error, path) io" where
  "verification_auth_source os test_home =
     verification_auth_source_with_live os test_home (live_homes (host_env os))"

text \<open>\<^verbatim>\<open>take\<close> and \<^verbatim>\<open>read_to_end\<close>: what the file holds, up to a number of bytes.\<close>

function read_taken :: "host_os \<Rightarrow> nat \<Rightarrow> nat \<Rightarrow> string \<Rightarrow> (auth_error, string) io" where
  "read_taken os opened n bytes t =
     (if n \<le> length bytes then (t, Inr bytes)
      else case host_read os t opened (length bytes) of
        Inl k \<Rightarrow> (Suc t, Inl (AuthIo k))
      | Inr chunk \<Rightarrow>
          let chunk = take (n - length bytes) chunk in
          if chunk = [] then (Suc t, Inr bytes)
          else read_taken os opened n (bytes @ chunk) (Suc t))"
  by pat_completeness auto
termination
  by (relation "measure (\<lambda>(os, opened, n, bytes, t). n - length bytes)")
    (auto simp: Let_def length_greater_0_conv [symmetric] simp del: length_greater_0_conv)

declare read_taken.simps [simp del]

text \<open>The checks on the original, which end with its bytes and the file that is held.\<close>

definition read_verification_auth ::
    "host_os \<Rightarrow> (string \<Rightarrow> u8 list) \<Rightarrow> path \<Rightarrow> path \<Rightarrow> (auth_error, bound_file \<times> string) io" where
  "read_verification_auth os sha source isolated_home =
     io_then (io_ensure (is_absolute source \<and> is_absolute isolated_home) AuthRelative) (\<lambda>_.
     io_then (call AuthIo (\<lambda>t. host_lstat os t source)) (\<lambda>m.
     io_then (io_ensure (fst_kind m = PlainFile \<and> unat (fst_len m) \<le> MAX_VERIFICATION_AUTH_BYTES)
         AuthNotBounded) (\<lambda>_.
     io_then (io_ensure (fst_mode m AND 0x3F = 0) AuthExposed) (\<lambda>_.
     io_then (io_of (ok_or AuthNoParent (path_parent source))) (\<lambda>parent.
     io_then (io_map_err AuthIdentity (check_trusted_directory_chain os parent)) (\<lambda>_.
     io_then (call AuthIo (\<lambda>t. host_canonicalize os t source)) (\<lambda>canonical.
     io_then (io_map_err AuthIdentity (open_limited os sha canonical MAX_VERIFICATION_AUTH_BYTES)) (\<lambda>bound.
     io_then (call AuthIo (\<lambda>t. host_open os t canonical False)) (\<lambda>input.
     io_then (read_taken os input (MAX_VERIFICATION_AUTH_BYTES + 1) []) (\<lambda>bytes.
     io_then (io_ensure (length bytes = bound_size bound \<and> to_hex (sha bytes) = bound_sha256 bound)
         AuthChanged) (\<lambda>_.
     io_then (io_map_err AuthIdentity (bound_recheck os bound)) (\<lambda>_.
     io_then (io_map_err AuthIdentity (check_trusted_directory_chain os isolated_home)) (\<lambda>_.
     io_return (bound, bytes))))))))))))))"


section \<open>Actions\<close>

datatype temp_dir = Repository | Evidence | CodexHome | Diagnostic

record git_call =
  git_cwd :: path
  git_args :: "string list"
  git_env :: environment

record diagnostic_report =
  rep_codex_version :: string
  rep_operating_system :: string
  rep_command_sha256 :: string
  rep_child_exit_code :: int
  rep_baseline_clean :: bool
  rep_repository_clean :: bool
  rep_broker_connections :: nat
  rep_parsed_hook_requests :: nat
  rep_exact_permission_requests :: nat
  rep_allowed_permission_requests :: nat
  rep_structured_allow_emissions :: nat
  rep_witnessed_exact_head_requests :: nat
  rep_unexpected_loopback_requests :: nat
  rep_audit_sha256 :: string

text \<open>What is done by \<^const>\<open>wait_for_bound_child\<close> and on the session is an action of the launcher.  A temporary
  directory that is dropped removes itself; whether that worked is not seen by the program.\<close>

datatype verification_action =
    Launching launch_action
  | TempCreated temp_dir
  | TempClosed temp_dir
  | TempDropped temp_dir
  | RanGit git_call
  | HooksDirCreated path
  | FixtureWritten path string
  | AuditInitialized
  | AuthCreated path
  | AuthWritten path string
  | VerificationBroker broker_config
  | TreeSpawned path spawn_command
  | WitnessJoined
  | AuditRetained string
  | ReportRetained diagnostic_report

datatype local_error =
    RefusedWsl
  | RefusedTerminal
  | RefusedSurface
  | SurfaceFails environment_error
  | NoDiagnosticParent
  | AuthFails auth_error
  | InspectionFails launch_error
  | NotEligible
  | TargetChanged
  | ProbeFails probe_start_error
  | InterruptRegistration io_kind
  | NotConfirmed confirm_error
  | VersionUnknown
  | VersionChanged
  | LauncherPath io_kind
  | TempFails io_kind
  | TempUntrusted identity_error
  | GitRun io_kind
  | GitExit int
  | FixtureFails io_kind
  | AuditFails io_error
  | RetainFails io_kind
  | SessionError io_kind
  | BrokerError io_kind
  | SecretError
  | DirtyBaseline
  | TreeSpawnFails io_kind
  | IdentityFails process_error
  | SetIdentityFails io_kind
  | WaitingFails launch_error
  | DescendantsFail tree_error
  | TreeCleanup tree_error
  | WitnessFailed
  | CountsDiffer
  | RepositoryModified
  | ChildFailed
  | VerificationCleanup local_error local_error

type_synonym 'a verification = "(verification_action, 'a) program"

type_synonym 'a verified = "(local_error, 'a) result option"

record verification_calls =
  vc_launch :: launch_calls
  vc_terminal :: "nat \<Rightarrow> bool"
  vc_listener :: "(unit, u16) result"
  vc_random :: "u8 list option"
  vc_worker :: bool
  vc_confirm_interrupt :: "nat \<Rightarrow> (io_kind, unit) result"
  vc_confirm :: "confirm_round list"
  vc_temp :: "nat \<Rightarrow> temp_dir \<Rightarrow> (io_kind, path) result"
  vc_protect :: "nat \<Rightarrow> path \<Rightarrow> (io_kind, unit) result"
  vc_close :: "nat \<Rightarrow> temp_dir \<Rightarrow> (io_kind, unit) result"
  vc_drop :: "nat \<Rightarrow> temp_dir \<Rightarrow> (io_kind, unit) result"
  vc_git :: "nat \<Rightarrow> git_call \<Rightarrow> (io_kind, exit_status) result"
  vc_git_output :: "nat \<Rightarrow> git_call \<Rightarrow> (io_kind, exit_status \<times> string) result"
  vc_create_dir :: "nat \<Rightarrow> path \<Rightarrow> (io_kind, unit) result"
  vc_write :: "nat \<Rightarrow> path \<Rightarrow> string \<Rightarrow> (io_kind, unit) result"
  vc_init_audit :: "nat \<Rightarrow> (io_error, unit) result"
  vc_create :: "nat \<Rightarrow> path \<Rightarrow> (io_kind, unit) result"
  vc_broker_start :: "nat \<Rightarrow> (io_kind, unit) result"
  vc_spawn_tree :: "nat \<Rightarrow> path \<Rightarrow> spawn_command \<Rightarrow> (io_kind, u32) result"
  vc_child :: child_calls
  vc_audit :: "nat \<Rightarrow> (io_error, audit_file) result"
  vc_witness :: "witness_round list"
  vc_retain :: "nat \<Rightarrow> (io_kind, unit) result"
  vc_crypto :: crypto

section \<open>Temporary directories\<close>

definition drop_temp :: "verification_calls \<Rightarrow> temp_dir \<Rightarrow> (io_kind, unit) result verification" where
  "drop_temp vc d = act (TempDropped d) (\<lambda>t. vc_drop vc t d)"

definition private_verification_tempdir ::
    "host_os \<Rightarrow> verification_calls \<Rightarrow> temp_dir \<Rightarrow> (local_error, path) result verification" where
  "private_verification_tempdir os vc d =
     if_ok (act_ok (TempCreated d) (\<lambda>t. vc_temp vc t d)) TempFails (\<lambda>path.
     and_next (ask (\<lambda>t. vc_protect vc t path)) (\<lambda>protected.
     case protected of Inl e \<Rightarrow> and_next (drop_temp vc d) (\<lambda>_. done_with (Inl (TempFails e))) | Inr _ \<Rightarrow>
     and_next (perform (check_trusted_directory_chain os path)) (\<lambda>trusted.
     case trusted of Inl e \<Rightarrow> and_next (drop_temp vc d) (\<lambda>_. done_with (Inl (TempUntrusted e)))
     | Inr _ \<Rightarrow> done_with (Inr path))))"

definition close_temp :: "verification_calls \<Rightarrow> temp_dir \<Rightarrow> (local_error, unit) result verification" where
  "close_temp vc d = and_next (act (TempClosed d) (\<lambda>t. vc_close vc t d)) (\<lambda>r. done_with (map_err TempFails r))"

definition both_cleanups ::
    "(local_error, unit) result verification \<Rightarrow> (local_error, unit) result verification \<Rightarrow>
     (local_error, unit) result verification" where
  "both_cleanups first second =
     and_next first (\<lambda>r. and_next second (\<lambda>s. done_with (combine_cleanup VerificationCleanup r s)))"

definition close_temp_dirs :: "verification_calls \<Rightarrow> (local_error, unit) result verification" where
  "close_temp_dirs vc =
     both_cleanups (both_cleanups (close_temp vc Repository) (close_temp vc Evidence)) (close_temp vc CodexHome)"

text \<open>An error, after what is cleaned up for it.\<close>

definition after_cleanup :: "local_error \<Rightarrow> (local_error, unit) result verification \<Rightarrow>
    (local_error, 'a) result verification" where
  "after_cleanup error cleanup =
     and_next cleanup (\<lambda>r. done_with (Inl (with_cleanup_error VerificationCleanup error r)))"


section \<open>The repository\<close>

text \<open>\<^verbatim>\<open>String::from_utf8_lossy\<close>: each maximal prefix of a sequence that is not valid becomes one
  replacement character.\<close>

definition REPLACEMENT :: string where
  "REPLACEMENT = [CHR 0xEF, CHR 0xBF, CHR 0xBD]"

function utf8_lossy :: "string \<Rightarrow> string" where
  "utf8_lossy [] = []"
| "utf8_lossy (a # s) =
     (if byte a < 128 then a # utf8_lossy s
      else if 194 \<le> byte a \<and> byte a \<le> 223 then
        (case s of b # t \<Rightarrow> if continuation b then a # b # utf8_lossy t else REPLACEMENT @ utf8_lossy s
         | [] \<Rightarrow> REPLACEMENT)
      else if 224 \<le> byte a \<and> byte a \<le> 239 then
        (case s of
           b # t \<Rightarrow>
             (if \<not> utf8_second a b then REPLACEMENT @ utf8_lossy s
              else case t of
                c # u \<Rightarrow> if continuation c then a # b # c # utf8_lossy u else REPLACEMENT @ utf8_lossy t
              | [] \<Rightarrow> REPLACEMENT)
         | [] \<Rightarrow> REPLACEMENT)
      else if 240 \<le> byte a \<and> byte a \<le> 244 then
        (case s of
           b # t \<Rightarrow>
             (if \<not> utf8_second a b then REPLACEMENT @ utf8_lossy s
              else case t of
                c # u \<Rightarrow>
                  (if \<not> continuation c then REPLACEMENT @ utf8_lossy t
                   else case u of
                     d # v \<Rightarrow> if continuation d then a # b # c # d # utf8_lossy v else REPLACEMENT @ utf8_lossy u
                   | [] \<Rightarrow> REPLACEMENT)
              | [] \<Rightarrow> REPLACEMENT)
         | [] \<Rightarrow> REPLACEMENT)
      else REPLACEMENT @ utf8_lossy s)"
  by pat_completeness auto
termination by (relation "measure length") auto

declare utf8_lossy.simps(2) [simp del]

definition VERIFICATION_FIXTURE :: string where
  "VERIFICATION_FIXTURE = ''codex-autoapprover-fixture.txt''"

definition VERIFICATION_HOOKS_DIR :: string where
  "VERIFICATION_HOOKS_DIR = ''.codex-autoapprover-hooks''"

definition VERIFICATION_COMMIT_MESSAGE :: string where
  "VERIFICATION_COMMIT_MESSAGE = ''verification baseline''"

definition VERIFICATION_GIT_NAME :: string where
  "VERIFICATION_GIT_NAME = ''codex-autoapprover verification''"

definition VERIFICATION_GIT_EMAIL :: string where
  "VERIFICATION_GIT_EMAIL = ''codex-autoapprover-verification@localhost''"

definition git_command :: "environment \<Rightarrow> path \<Rightarrow> string list \<Rightarrow> git_call" where
  "git_command env path args =
     \<lparr>git_cwd = path, git_args = args,
      git_env = env(''GIT_CONFIG_NOSYSTEM'' \<mapsto> ''1'', ''GIT_CONFIG_GLOBAL'' \<mapsto> ''/dev/null'',
                    ''GIT_TERMINAL_PROMPT'' \<mapsto> ''0'')\<rparr>"

definition run_git :: "host_os \<Rightarrow> verification_calls \<Rightarrow> path \<Rightarrow> string list \<Rightarrow>
    (local_error, unit) result verification" where
  "run_git os vc path args =
     (let c = git_command (host_env os) path args in
      if_ok (act (RanGit c) (\<lambda>t. vc_git vc t c)) GitRun (\<lambda>status.
      done_with (if status_success status then Inr () else Inl (GitExit (status_code status)))))"

record repository_status =
  repository_entries :: "string list"

definition repository_is_clean :: "repository_status \<Rightarrow> bool" where
  "repository_is_clean status = (repository_entries status = [])"

definition temporary_repository_status :: "host_os \<Rightarrow> verification_calls \<Rightarrow> path \<Rightarrow>
    (local_error, repository_status) result verification" where
  "temporary_repository_status os vc path =
     (let c = git_command (host_env os) path
                [''status'', ''--porcelain=v1'', ''--untracked-files=all'', ''--ignored''] in
      if_ok (act (RanGit c) (\<lambda>t. vc_git_output vc t c)) GitRun (\<lambda>(status, out).
      done_with (if status_success status then Inr \<lparr>repository_entries = text_lines (utf8_lossy out)\<rparr>
                 else Inl (GitExit (status_code status)))))"

definition verify_clean_baseline :: "host_os \<Rightarrow> verification_calls \<Rightarrow> path \<Rightarrow>
    (local_error, repository_status) result verification" where
  "verify_clean_baseline os vc path =
     if_ok (temporary_repository_status os vc path) (\<lambda>e. e) (\<lambda>status.
     done_with (if repository_is_clean status then Inr status else Inl DirtyBaseline))"

definition initialize_temporary_repository :: "host_os \<Rightarrow> verification_calls \<Rightarrow> path \<Rightarrow>
    (local_error, unit) result verification" where
  "initialize_temporary_repository os vc path =
     (let hooks = path_join path [Normal VERIFICATION_HOOKS_DIR];
          fixture = path_join path [Normal VERIFICATION_FIXTURE];
          content = ''harmless verification fixture'' @ [CHR 0x0A] in
      if_ok (run_git os vc path [''init'', ''--quiet'']) (\<lambda>e. e) (\<lambda>_.
      if_ok (act (HooksDirCreated hooks) (\<lambda>t. vc_create_dir vc t hooks)) FixtureFails (\<lambda>_.
      if_ok (act (FixtureWritten fixture content) (\<lambda>t. vc_write vc t fixture content)) FixtureFails (\<lambda>_.
      if_ok (run_git os vc path [''add'', ''--'', VERIFICATION_FIXTURE]) (\<lambda>e. e) (\<lambda>_.
      if_ok (run_git os vc path
        [''-c'', ''user.name='' @ VERIFICATION_GIT_NAME, ''-c'', ''user.email='' @ VERIFICATION_GIT_EMAIL,
         ''-c'', ''commit.gpgSign=false'', ''-c'', ''core.hooksPath='' @ path_text hooks,
         ''commit'', ''--quiet'', ''--no-gpg-sign'', ''-m'', VERIFICATION_COMMIT_MESSAGE]) (\<lambda>e. e) (\<lambda>_.
      if_ok (verify_clean_baseline os vc path) (\<lambda>e. e) (\<lambda>status.
      done_with (Inr ()))))))))"

definition format_repository_diagnostics :: "string \<Rightarrow> repository_status \<Rightarrow> string" where
  "format_repository_diagnostics label status =
     ''verification diagnostics: '' @ label @ [CHR 0x0A] @
     (if repository_entries status = [] then ''  (none)'' @ [CHR 0x0A]
      else concat (map (\<lambda>entry. ''  '' @ entry @ [CHR 0x0A]) (repository_entries status)))"


section \<open>The state of a verification\<close>

record verification_state =
  vs_repository :: path
  vs_evidence :: path
  vs_codex_home :: path

definition audit_path :: "verification_state \<Rightarrow> path" where
  "audit_path state = path_join (vs_evidence state) [Normal ''hook-audit.log'']"

definition verification_state_new :: "host_os \<Rightarrow> verification_calls \<Rightarrow>
    (local_error, verification_state) result verification" where
  "verification_state_new os vc =
     if_ok (private_verification_tempdir os vc Repository) (\<lambda>e. e) (\<lambda>repository.
     and_next (private_verification_tempdir os vc Evidence) (\<lambda>r.
     case r of Inl e \<Rightarrow> after_cleanup e (close_temp vc Repository) | Inr evidence \<Rightarrow>
     and_next (private_verification_tempdir os vc CodexHome) (\<lambda>r.
     case r of Inl e \<Rightarrow> after_cleanup e (both_cleanups (close_temp vc Repository) (close_temp vc Evidence))
     | Inr home \<Rightarrow>
     and_next (initialize_temporary_repository os vc repository) (\<lambda>r.
     case r of Inl e \<Rightarrow> after_cleanup e (close_temp_dirs vc) | Inr _ \<Rightarrow>
     and_next (act_ok AuditInitialized (vc_init_audit vc)) (\<lambda>r.
     case r of Inl e \<Rightarrow> after_cleanup (AuditFails e) (close_temp_dirs vc) | Inr _ \<Rightarrow>
     done_with (Inr \<lparr>vs_repository = repository, vs_evidence = evidence, vs_codex_home = home\<rparr>))))))"

definition stage_verification_auth :: "host_os \<Rightarrow> (string \<Rightarrow> u8 list) \<Rightarrow> verification_calls \<Rightarrow> path \<Rightarrow> path \<Rightarrow>
    (local_error, unit) result verification" where
  "stage_verification_auth os sha vc source home =
     (let target = path_join home [Normal ''auth.json''] in
      if_ok (perform (read_verification_auth os sha source home)) AuthFails (\<lambda>(bound, bytes).
      if_ok (act_ok (AuthCreated target) (\<lambda>t. vc_create vc t target)) (\<lambda>e. AuthFails (AuthIo e)) (\<lambda>_.
      if_ok (act (AuthWritten target bytes) (\<lambda>t. vc_write vc t target bytes)) (\<lambda>e. AuthFails (AuthIo e)) (\<lambda>_.
      if_ok (perform (bound_recheck os bound)) (\<lambda>e. AuthFails (AuthIdentity e)) (\<lambda>_.
      done_with (Inr ()))))))"

definition ISOLATED_VARIABLES :: "string list" where
  "ISOLATED_VARIABLES =
     [''CODEX_SQLITE_HOME'', ''CODEX_ACCESS_TOKEN'', ''CODEX_API_KEY'', ''OPENAI_API_KEY'',
      ''OPENAI_FEDERATION_RULE_ID'', ''OPENAI_IDENTITY_TOKEN_FILE'', ''OPENAI_WORKLOAD_IDENTITY_CONTEXT'',
      ''OPENAI_BASE_URL'', ''OPENAI_ORGANIZATION'', ''OPENAI_PROJECT'', ''XDG_CONFIG_HOME'', ''XDG_DATA_HOME'',
      ''XDG_STATE_HOME'', ''XDG_CACHE_HOME'', ''BASH_ENV'', ''ENV'', ''ZDOTDIR'', ''PROMPT_COMMAND'', ''RUST_LOG'']"

definition isolate_verification_child_environment :: "environment \<Rightarrow> path \<Rightarrow> environment" where
  "isolate_verification_child_environment env home =
     fold (\<lambda>key e. e(key := None)) ISOLATED_VARIABLES
       (env(''CODEX_HOME'' \<mapsto> path_text home, ''HOME'' \<mapsto> path_text home, ''USERPROFILE'' \<mapsto> path_text home))"

definition verification_prompt :: "string \<Rightarrow> string" where
  "verification_prompt command =
     ''Run exactly '' @ [CHR 0x60] @ command @ [CHR 0x60] @ '' and do nothing else. '' @
     ''If sandboxed network access is blocked, request approval for that exact command. '' @
     ''Do not substitute another command. Do not create or modify files, install software, alter Git state, '' @
     ''use full access, or perform any other action. Report completion.''"

text \<open>The command of the child, before the session arms it.\<close>

definition verification_command :: "environment \<Rightarrow> installation \<Rightarrow> string \<Rightarrow> string \<Rightarrow> path \<Rightarrow> spawn_command" where
  "verification_command env installation hook command home =
     (let line = build_codex_command installation in
      \<lparr>cmd_program = path_of_string (hd line), cmd_arg0 = None,
       cmd_args = tl line @ [''-s'', ''workspace-write'', ''-a'', ''on-request'', ''--no-daemon'', ''--no-alt-screen'',
         ''-c'', hook, ''-c'', ''cli_auth_credentials_store='' @ [CHR 0x22] @ ''file'' @ [CHR 0x22],
         verification_prompt command],
       cmd_env = isolate_verification_child_environment env home\<rparr>)"

section \<open>The diagnostic\<close>

definition retain_diagnostic :: "verification_calls \<Rightarrow> (string \<Rightarrow> u8 list) \<Rightarrow> diagnostic_report \<Rightarrow>
    (local_error, path) result verification" where
  "retain_diagnostic vc sha report =
     if_ok (act_ok (TempCreated Diagnostic) (\<lambda>t. vc_temp vc t Diagnostic)) TempFails (\<lambda>output.
     and_next
       (if_ok (ask (\<lambda>t. vc_protect vc t output)) TempFails (\<lambda>_.
        if_ok (ask (\<lambda>t. read_bounded (vc_audit vc t))) AuditFails (\<lambda>audit.
        if_ok (act (AuditRetained audit)
          (\<lambda>t. vc_write vc t (path_join output [Normal ''hook-audit.log'']) audit)) RetainFails (\<lambda>_.
        if_ok (act (ReportRetained (report\<lparr>rep_audit_sha256 := to_hex (sha audit)\<rparr>)) (vc_retain vc)) RetainFails (\<lambda>_.
        done_with (Inr output)))))) (\<lambda>r.
     case r of Inl e \<Rightarrow> and_next (drop_temp vc Diagnostic) (\<lambda>_. done_with (Inl e))
     | Inr path \<Rightarrow> done_with (Inr path)))"

end
