(* ===== verification/Local_Verification.thy ===== *)
theory Local_Verification
  imports Verification_Setup
begin

text \<open>
  \<^verbatim>\<open>verify_local_hook\<close> of \<^verbatim>\<open>src/launcher.rs\<close> on Linux: an interactive experiment in which
  a child is allowed one harmless request, and what counts as its success.
\<close>

section \<open>Cleaning up\<close>

definition session_cleanup :: "verification_calls \<Rightarrow> (local_error, unit) result verification" where
  "session_cleanup vc =
     and_next (act (Launching SessionCleaned) (lc_session_cleanup (vc_launch vc))) (\<lambda>r. done_with (map_err SessionError r))"

definition broker_shutdown :: "verification_calls \<Rightarrow> (local_error, unit) result verification" where
  "broker_shutdown vc =
     and_next (act (Launching BrokerStopped) (lc_broker_shutdown (vc_launch vc))) (\<lambda>r. done_with (map_err BrokerError r))"

definition cleanup_verification_state :: "verification_calls \<Rightarrow> (local_error, unit) result verification" where
  "cleanup_verification_state vc = both_cleanups (session_cleanup vc) (close_temp_dirs vc)"

definition cleanup_bound_verification :: "verification_calls \<Rightarrow> (local_error, unit) result verification" where
  "cleanup_bound_verification vc =
     both_cleanups (both_cleanups (broker_shutdown vc) (session_cleanup vc)) (close_temp_dirs vc)"

definition cleanup_child_then_verification ::
    "verification_calls \<Rightarrow> u32 \<Rightarrow> (local_error, unit) result verification" where
  "cleanup_child_then_verification vc pid =
     both_cleanups (relabel (\<lambda>f. Launching (TreeAction f)) (map_err TreeCleanup) (stop_and_reap (vc_child vc) pid))
       (cleanup_bound_verification vc)"

text \<open>A part that ends, in a program that may wait.\<close>

definition settle :: "(local_error, 'a) result verification \<Rightarrow> 'a verified verification" where
  "settle m = and_next m (\<lambda>r. done_with (Some r))"

section \<open>Evidence\<close>

record evidence =
  ev_attempts :: nat
  ev_invocations :: nat
  ev_allows :: nat
  ev_exact :: nat
  ev_emitted :: nat

definition read_evidence :: "verification_calls \<Rightarrow> verification_target \<Rightarrow> string \<Rightarrow>
    (local_error, evidence) result verification" where
  "read_evidence vc target command =
     (let cr = vc_crypto vc; tool = target_observed_tool_type target;
          input = JObject [(''command'', JString command)] in
      if_ok (ask (\<lambda>t. broker_attempt_count (vc_audit vc t))) AuditFails (\<lambda>attempts.
      if_ok (ask (\<lambda>t. invocation_count (vc_audit vc t))) AuditFails (\<lambda>invocations.
      if_ok (ask (\<lambda>t. allow_record_count (vc_audit vc t))) AuditFails (\<lambda>allows.
      if_ok (ask (\<lambda>t. exact_request_count cr (vc_audit vc t) tool input)) AuditFails (\<lambda>exact.
      if_ok (ask (\<lambda>t. emitted_allow_count cr (vc_audit vc t) tool input)) AuditFails (\<lambda>emitted.
      done_with (Inr \<lparr>ev_attempts = attempts, ev_invocations = invocations, ev_allows = allows,
                      ev_exact = exact, ev_emitted = emitted\<rparr>)))))))"

definition verdict :: "bool \<Rightarrow> evidence \<Rightarrow> observation_counts \<Rightarrow> repository_status \<Rightarrow> exit_status \<Rightarrow>
    (local_error, int) result" where
  "verdict baseline_clean ev observed post status =
     (if \<not> baseline_clean then Inl DirtyBaseline
      else if ev_attempts ev \<noteq> 1 \<or> ev_invocations ev \<noteq> 1 \<or> ev_exact ev \<noteq> 1 \<or> ev_allows ev \<noteq> 1 \<or>
              ev_emitted ev \<noteq> 1 \<or> exact_head_requests observed \<noteq> 1 \<or> unexpected_requests observed \<noteq> 0
      then Inl CountsDiffer
      else if \<not> repository_is_clean post then Inl RepositoryModified
      else if \<not> status_success status then Inl ChildFailed
      else Inr 0)"

definition report_of :: "string \<Rightarrow> (string \<Rightarrow> u8 list) \<Rightarrow> string \<Rightarrow> exit_status \<Rightarrow> bool \<Rightarrow> bool \<Rightarrow> evidence \<Rightarrow>
    observation_counts \<Rightarrow> diagnostic_report" where
  "report_of version sha command status baseline_clean clean ev observed =
     \<lparr>rep_codex_version = version, rep_operating_system = ''linux'', rep_command_sha256 = to_hex (sha command),
      rep_child_exit_code = status_code status, rep_baseline_clean = baseline_clean,
      rep_repository_clean = clean, rep_broker_connections = ev_attempts ev,
      rep_parsed_hook_requests = ev_invocations ev, rep_exact_permission_requests = ev_exact ev,
      rep_allowed_permission_requests = ev_allows ev, rep_structured_allow_emissions = ev_emitted ev,
      rep_witnessed_exact_head_requests = exact_head_requests observed,
      rep_unexpected_loopback_requests = unexpected_requests observed, rep_audit_sha256 = []\<rparr>"

text \<open>After the child has ended and the log is complete.\<close>

definition judge :: "host_os \<Rightarrow> (string \<Rightarrow> u8 list) \<Rightarrow> verification_calls \<Rightarrow> bool \<Rightarrow> verification_target \<Rightarrow> string \<Rightarrow>
    path \<Rightarrow> bool \<Rightarrow> observation_counts \<Rightarrow> exit_status \<Rightarrow> (local_error, int) result verification" where
  "judge os sha vc retain target command repository baseline_clean observed status =
     and_next (read_evidence vc target command) (\<lambda>r.
     case r of Inl e \<Rightarrow> after_cleanup e (cleanup_verification_state vc) | Inr ev \<Rightarrow>
     and_next (temporary_repository_status os vc repository) (\<lambda>r.
     case r of Inl e \<Rightarrow> after_cleanup e (cleanup_verification_state vc) | Inr post \<Rightarrow>
     and_next
       (if retain
        then and_next (retain_diagnostic vc sha (report_of (target_version target) sha command status baseline_clean
               (repository_is_clean post) ev observed)) (\<lambda>r. done_with (Some r))
        else done_with None) (\<lambda>retained.
     and_next (cleanup_verification_state vc) (\<lambda>cleanup.
     done_with
       (case retained of
          Some (Inl e) \<Rightarrow> Inl (with_cleanup_error VerificationCleanup e cleanup)
        | _ \<Rightarrow> and_then cleanup (\<lambda>_. verdict baseline_clean ev observed post status))))))"

section \<open>The child\<close>

text \<open>When the child has ended: its descendants are stopped, and the log is complete once the broker has stopped.\<close>

definition finish_verification :: "host_os \<Rightarrow> (string \<Rightarrow> u8 list) \<Rightarrow> verification_calls \<Rightarrow> bool \<Rightarrow> verification_target \<Rightarrow>
    string \<Rightarrow> string \<Rightarrow> path \<Rightarrow> u32 \<Rightarrow> exit_status \<Rightarrow> int verified verification" where
  "finish_verification os sha vc retain target command witness repository pid status =
     and_next (relabel (\<lambda>f. Launching (TreeAction f)) (\<lambda>x. x) (tree_stop (vc_child vc) pid)) (\<lambda>r.
     case r of Inl e \<Rightarrow> settle (after_cleanup (DescendantsFail e) (cleanup_bound_verification vc)) | Inr _ \<Rightarrow>
     and_next (act (Launching AcceptingStopped) (\<lambda>t. ())) (\<lambda>_.
     and_next (broker_shutdown vc) (\<lambda>r.
     case r of Inl e \<Rightarrow> settle (after_cleanup e (cleanup_verification_state vc)) | Inr _ \<Rightarrow>
     and_next (act WitnessJoined (\<lambda>t. observe_requests witness
         \<lparr>exact_head_requests = 0, unexpected_requests = 0\<rparr> (vc_witness vc))) (\<lambda>r.
     case r of None \<Rightarrow> done_with None
     | Some (Inl e) \<Rightarrow> settle (after_cleanup WitnessFailed (cleanup_verification_state vc))
     | Some (Inr observed) \<Rightarrow>
         settle (judge os sha vc retain target command repository True observed status)))))"

definition supervise_verification :: "host_os \<Rightarrow> (string \<Rightarrow> u8 list) \<Rightarrow> verification_calls \<Rightarrow> bool \<Rightarrow> verification_target \<Rightarrow>
    string \<Rightarrow> string \<Rightarrow> path \<Rightarrow> u32 \<Rightarrow> int verified verification" where
  "supervise_verification os sha vc retain target command witness repository pid =
     (let lc = vc_launch vc;
          stop = relabel TreeAction (map_err TreeFails) (stop_and_reap (vc_child vc) pid) in
     and_next (ask (\<lambda>t. current_process_identity (lc_reader lc) t pid)) (\<lambda>r.
     case r of Inl e \<Rightarrow> settle (after_cleanup (IdentityFails e) (cleanup_child_then_verification vc pid)) | Inr identity \<Rightarrow>
     and_next (act_ok (Launching (IdentitySet identity)) (lc_set_identity lc)) (\<lambda>r.
     case r of Inl e \<Rightarrow> settle (after_cleanup (SetIdentityFails e) (cleanup_child_then_verification vc pid)) | Inr _ \<Rightarrow>
     and_next (ask (lc_interrupt lc)) (\<lambda>r.
     case r of Inl e \<Rightarrow> settle (after_cleanup (InterruptRegistration e) (cleanup_child_then_verification vc pid)) | Inr _ \<Rightarrow>
     and_next (relabel Launching (\<lambda>x. x) (wait_for_bound_child (lc_rounds lc) (Some stop))) (\<lambda>waited.
     case waited of None \<Rightarrow> done_with None
     | Some (Inl e) \<Rightarrow> settle (after_cleanup (WaitingFails e) (cleanup_bound_verification vc))
     | Some (Inr status) \<Rightarrow>
         finish_verification os sha vc retain target command witness repository pid status)))))"


section \<open>The verification\<close>

definition verification_config :: "verification_target \<Rightarrow> string \<Rightarrow> path \<Rightarrow> broker_config" where
  "verification_config target command repository =
     \<lparr>cfg_admission = None, cfg_codex_version = target_version target, cfg_expected_cwd = path_text repository,
      cfg_expected_command = Some command, cfg_expected_tool_name = Some (target_observed_tool_type target),
      cfg_audit = True\<rparr>"

text \<open>\<^verbatim>\<open>Session::arm_child\<close>.\<close>

definition session_arm_child :: "session \<Rightarrow> spawn_command \<Rightarrow> (local_error, spawn_command) result" where
  "session_arm_child session command =
     (case arm_child (cmd_env command) (session_socket session) (session_secret_text session) of
        Inl e \<Rightarrow> Inl SecretError
      | Inr env \<Rightarrow> Inr (command\<lparr>cmd_env := env(AUDIT_PATH_ENV := None)\<rparr>))"

text \<open>From the broker to the child; the state and the session are there.\<close>

definition start_verification :: "host_os \<Rightarrow> (string \<Rightarrow> u8 list) \<Rightarrow> verification_calls \<Rightarrow> bool \<Rightarrow> installation \<Rightarrow>
    verification_target \<Rightarrow> string \<Rightarrow> string \<Rightarrow> path \<Rightarrow> verification_state \<Rightarrow> session \<Rightarrow> int verified verification" where
  "start_verification os sha vc retain installation target command witness launcher state session =
     and_next (act_ok (VerificationBroker (verification_config target command (vs_repository state))) (vc_broker_start vc)) (\<lambda>r.
     case r of Inl e \<Rightarrow> settle (after_cleanup (BrokerError e) (cleanup_verification_state vc)) | Inr _ \<Rightarrow>
     and_next (relabel Launching (\<lambda>x. x) (absolute_path os launcher)) (\<lambda>hook.
     case session_arm_child session (verification_command (host_env os) installation
         (hook_command_value OsLinux (path_text hook)) command (vs_codex_home state)) of
       Inl e \<Rightarrow> settle (after_cleanup e (cleanup_bound_verification vc)) | Inr armed \<Rightarrow>
     and_next (temporary_repository_status os vc (vs_repository state)) (\<lambda>r.
     case r of Inl e \<Rightarrow> settle (after_cleanup e (cleanup_bound_verification vc)) | Inr baseline \<Rightarrow>
     if \<not> repository_is_clean baseline then settle (after_cleanup DirtyBaseline (cleanup_bound_verification vc)) else
     and_next (act_ok (TreeSpawned (vs_repository state) armed) (\<lambda>t. vc_spawn_tree vc t (vs_repository state) armed)) (\<lambda>r.
     case r of Inl e \<Rightarrow> settle (after_cleanup (TreeSpawnFails e) (cleanup_bound_verification vc)) | Inr pid \<Rightarrow>
     supervise_verification os sha vc retain target command witness (vs_repository state) pid))))"

text \<open>The temporary state, the login in it, and the session.\<close>

definition prepare_verification :: "host_os \<Rightarrow> (string \<Rightarrow> u8 list) \<Rightarrow> verification_calls \<Rightarrow> bool \<Rightarrow> path \<Rightarrow> installation \<Rightarrow>
    verification_target \<Rightarrow> string \<Rightarrow> string \<Rightarrow> path \<Rightarrow> int verified verification" where
  "prepare_verification os sha vc retain source installation target command witness launcher =
     orfail (verification_state_new os vc) (\<lambda>e. e) (\<lambda>state.
     and_next (stage_verification_auth os sha vc source (vs_codex_home state)) (\<lambda>r.
     case r of Inl e \<Rightarrow> settle (after_cleanup e (close_temp_dirs vc)) | Inr _ \<Rightarrow>
     and_next (act_ok (Launching SessionCreated) (lc_session (vc_launch vc))) (\<lambda>r.
     case r of Inl e \<Rightarrow> settle (after_cleanup (SessionError e) (close_temp_dirs vc)) | Inr session \<Rightarrow>
     start_verification os sha vc retain installation target command witness launcher state session)))"

text \<open>The target of the verification and the probe, for the installation that was found.\<close>

definition preflight_target :: "verification_calls \<Rightarrow> path \<Rightarrow> installation \<Rightarrow>
    (local_error, path \<times> installation \<times> verification_target \<times> string \<times> string) result verification" where
  "preflight_target vc source installation =
     (case resolved_verification_target OsLinux (installation_version installation) of
        None \<Rightarrow> done_with (Inl NotEligible)
      | Some target \<Rightarrow>
          if installation_version installation \<noteq> target_version target then done_with (Inl TargetChanged) else
          if_ok (done_with (probe_start (vc_listener vc) (vc_random vc) (vc_worker vc))) ProbeFails (\<lambda>(command, witness).
          if_ok (ask (vc_confirm_interrupt vc)) InterruptRegistration (\<lambda>_.
          done_with (Inr (source, installation, target, command, witness)))))"

text \<open>What is checked before anything is asked.\<close>

definition verification_preflight :: "host_os \<Rightarrow> tokenizer \<Rightarrow> verification_calls \<Rightarrow> path \<Rightarrow> path option \<Rightarrow>
    (local_error, path \<times> installation \<times> verification_target \<times> string \<times> string) result verification" where
  "verification_preflight os tok vc auth_home diagnostic_dir =
     and_next (perform (surface os)) (\<lambda>s.
     if s = Inr ''wsl'' then done_with (Inl RefusedWsl) else
     and_next (ask (vc_terminal vc)) (\<lambda>terminal.
     if \<not> terminal then done_with (Inl RefusedTerminal) else
     if_ok (perform (surface os)) SurfaceFails (\<lambda>s.
     if s \<noteq> ''native-cli'' then done_with (Inl RefusedSurface) else
     and_next (case diagnostic_dir of None \<Rightarrow> done_with (Inr True) | Some parent \<Rightarrow> perform (stat_is os PlainDirectory parent)) (\<lambda>present.
     if present \<noteq> Inr True then done_with (Inl NoDiagnosticParent) else
     if_ok (perform (verification_auth_source os auth_home)) AuthFails (\<lambda>source.
     if_ok (relabel Launching (\<lambda>x. x) (codex_inspect os tok (vc_launch vc))) InspectionFails (\<lambda>installation.
     preflight_target vc source installation))))))"

definition verify_local_hook :: "host_os \<Rightarrow> tokenizer \<Rightarrow> (string \<Rightarrow> u8 list) \<Rightarrow> verification_calls \<Rightarrow> path \<Rightarrow> path option \<Rightarrow>
    int verified verification" where
  "verify_local_hook os tok sha vc auth_home diagnostic_dir =
     orfail (verification_preflight os tok vc auth_home diagnostic_dir) (\<lambda>e. e)
       (\<lambda>(source, installation, target, command, witness).
     case confirm_with_timeout target (vc_confirm vc) of
       None \<Rightarrow> done_with None
     | Some (Inl e) \<Rightarrow> fails (NotConfirmed e)
     | Some (Inr _) \<Rightarrow>
         and_next (relabel Launching (\<lambda>x. x) (version_of (vc_launch vc) (installation_path installation))) (\<lambda>version.
         case version of
           None \<Rightarrow> fails VersionUnknown
         | Some current \<Rightarrow>
             if \<not> verification_version_matches current target then fails VersionChanged else
             orfail (ask (lc_current_exe (vc_launch vc))) LauncherPath (\<lambda>launcher.
             prepare_verification os sha vc (diagnostic_dir \<noteq> None) source installation target command witness launcher)))"

end
