(* ===== verification/Admission_Run.thy ===== *)
theory Admission_Run
  imports Admission Decision
begin

text \<open>
  A host on which an admission is given: a native host with one native bundle of two files, and a
  reader that finds its tuple in the manifest.  The properties of the admission are applied there.
\<close>

section \<open>The host\<close>

definition run_directories :: "path set" where
  "run_directories =
     {[RootDir], [RootDir, Normal ''codex-path''], [RootDir, Normal ''codex-resources'']}"

definition run_package :: path where
  "run_package = [RootDir, Normal ''codex-package.json'']"

definition run_stat :: "path \<Rightarrow> file_stat" where
  "run_stat path =
     (if path \<in> run_directories then example_stat\<lparr>fst_kind := PlainDirectory, fst_uid := 0\<rparr> else example_stat)"

definition run_text :: "path \<Rightarrow> string" where
  "run_text path =
     (if path = run_package then ''{}''
      else if path = absolute [''etc'', ''os-release''] then unlines [''ID=debian'', ''VERSION_ID=12''] else ''6.1'')"

definition run_host :: host_os where
  "run_host =
     \<lparr>host_euid = 7, host_env = Map.empty, host_arch = ''x86_64'', host_machine = (\<lambda>t. ''x86_64''),
      host_kernel_release = (\<lambda>t. ''6.1''),
      host_lstat = (\<lambda>t path. if path \<in> set CONTAINER_FILES then Inl KindNotFound else Inr (run_stat path)),
      host_stat = (\<lambda>t path. Inr (run_stat path)), host_canonicalize = (\<lambda>t path. Inr path),
      host_read_link = (\<lambda>t path. Inr [RootDir]),
      host_read_dir = (\<lambda>t path. Inr (if path = [RootDir]
        then map Inr [''codex'', ''codex-package.json'', ''codex-path'', ''codex-resources''] else [])),
      host_read_all = (\<lambda>t path. Inr (run_text path)), host_open = (\<lambda>t path nofollow. Inr 4),
      host_fstat = (\<lambda>t h. Inr example_stat), host_read = (\<lambda>t h off. Inr (drop off (ELF_MAGIC @ ''x'')))\<rparr>"

definition run_sha :: "string \<Rightarrow> u8 list" where
  "run_sha s = replicate 32 0"

definition zeros :: string where
  "zeros = replicate 64 CHR ''0''"

definition run_target :: target where
  "run_target =
     \<lparr>target_codex_version = ''0.156.1'', target_os = ''linux'', target_arch = ''x86_64'',
      target_os_release = ''debian:12:sha256:'' @ zeros, target_os_build = ''6.1 6.1'',
      target_sandbox = ''linux-bwrap'', target_surface = ''native-cli'',
      target_protocol = ''permission-request-v1'', target_tool = ''Bash'', codex_binary_sha256 = zeros,
      codex_bundle_sha256 = zeros, launch_kind = ''native'', launch_artifact_sha256 = zeros,
      launch_package_sha256 = zeros\<rparr>"

lemma run_calls:
  "host_euid run_host = 7" "host_env run_host = Map.empty" "host_arch run_host = ''x86_64''"
  "host_machine run_host t = ''x86_64''" "host_kernel_release run_host t = ''6.1''"
  "host_lstat run_host t path = (if path \<in> set CONTAINER_FILES then Inl KindNotFound else Inr (run_stat path))"
  "host_stat run_host t path = Inr (run_stat path)" "host_canonicalize run_host t path = Inr path"
  "host_read_link run_host t path = Inr [RootDir]" "host_read_all run_host t path = Inr (run_text path)"
  "host_open run_host t path nofollow = Inr 4" "host_fstat run_host t h = Inr example_stat"
  by (simp_all add: run_host_def)

lemma hex_byte_zero: "hex_byte 0 = ''00''"
  by (simp add: hex_byte_def hex_digit_def char_of_def bit_Suc_0_iff)

lemma run_sha_hex: "to_hex (run_sha s) = zeros"
  unfolding to_hex_def run_sha_def zeros_def map_replicate hex_byte_zero by (simp add: numeral_eq_Suc)

section \<open>Files\<close>

lemma run_chain: "yields (check_trusted_directory_chain run_host [RootDir]) ()"
  by (simp add: run_calls CONTAINER_FILES_def absolute_def ancestors.simps path_parent_def
      check_trusted_directory_chain_def check_directory_def yields_def io_run run_stat_def
      run_directories_def example_stat_def)

lemma run_stamp: "yields (file_stamp run_host h) (stamp_of example_stat)"
  by (simp add: yields_def file_stamp_def io_run run_calls owner_controlled_def example_stat_def)

lemma run_prefix: "yields (read_prefix run_host h 4 []) ELF_MAGIC"
  by (simp add: yields_def read_prefix.simps run_host_def ELF_MAGIC_def)

lemma run_bytes: "5 \<le> limit \<Longrightarrow> yields (read_bytes run_host h limit []) (ELF_MAGIC @ ''x'')"
  by (simp add: yields_def read_bytes.simps run_host_def ELF_MAGIC_def READ_BUFFER_def)

lemma run_rest: "yields (read_bytes run_host h MAX_IDENTITY_FILE_BYTES ELF_MAGIC) (ELF_MAGIC @ ''x'')"
  by (simp add: yields_def read_bytes.simps run_host_def ELF_MAGIC_def READ_BUFFER_def
      MAX_IDENTITY_FILE_BYTES_def)

lemma run_len: "unat (fst_len example_stat) = 5"
  by (simp add: example_stat_def)

definition run_file :: "string \<Rightarrow> path" where
  "run_file name = [RootDir, Normal name]"

lemma run_parent: "path_parent (run_file name) = Some [RootDir]"
  by (simp add: run_file_def path_parent_def)

definition run_bound :: "string \<Rightarrow> bound_file" where
  "run_bound name =
     \<lparr>bound_path = run_file name, bound_stamp = stamp_of example_stat, bound_handle = 4,
      bound_sha256 = zeros, bound_size = 5\<rparr>"

lemma run_open:
  assumes "5 \<le> limit" "run_stat (run_file name) = example_stat" "run_file name \<notin> set CONTAINER_FILES"
  shows "yields (open_limited run_host run_sha (run_file name) limit) (run_bound name)"
  unfolding open_limited_def run_parent ok_or_def
  using assms
  by (auto intro!: yields_then [OF yields_basic(2)] yields_then [OF run_chain] yields_then [OF yields_basic(3)]
      yields_then [OF yields_basic(5)] yields_then [OF run_stamp] yields_then [OF run_bytes] yields_basic
      simp: run_calls run_len run_sha_hex run_bound_def ELF_MAGIC_def example_stat_def)


section \<open>The surface\<close>

lemma run_read: "utf8_valid (run_text path) \<Longrightarrow> yields (read_text run_host path) (run_text path)"
  by (simp add: yields_def read_text_def io_run run_calls)

lemma run_container: "yields (container_file run_host CONTAINER_FILES) False"
  by (simp add: yields_def CONTAINER_FILES_def io_run run_calls)

lemma run_isolated: "yields (isolated_namespace run_host NAMESPACES) False"
  by (simp add: yields_def NAMESPACES_def io_run run_calls)

lemma run_texts:
  "run_text (absolute [''proc'', a, b, c]) = ''6.1''" "run_text (absolute [''proc'', a, b]) = ''6.1''"
  by (simp_all add: run_text_def run_package_def absolute_def)

lemma run_root: "yields (call EnvironmentIo (\<lambda>t. host_stat run_host t [RootDir])) (run_stat [RootDir])"
  by (rule yields_basic) (simp add: run_calls)

lemma run_surface: "yields (surface run_host) ''native-cli''"
proof -
  have none: "variable_surface (host_env run_host) = None"
    by (simp add: variable_surface_def run_calls is_set_def WSL_VARIABLES_def REMOTE_VARIABLES_def IDE_VARIABLES_def)
  have uid: "fst_uid (run_stat [RootDir]) = 0"
    by (simp add: run_stat_def run_directories_def)
  have valid: "utf8_valid ''6.1''" by (simp add: ascii_utf8 ascii_text_def byte_def)
  have clean: "\<not> contains_sub ''microsoft'' (map to_ascii_lowercase ''6.1'')"
    "\<not> list_ex (\<lambda>w. contains_sub w ''6.1'') CONTAINER_WORDS" "\<not> is_set (host_env run_host) ''container''"
    by (simp_all add: to_ascii_lowercase_def is_ascii_uppercase_def byte_def starts_with_def CONTAINER_WORDS_def
        run_calls is_set_def)
  show ?thesis
    unfolding surface_def none
    using uid valid clean
    by (auto intro!: yields_then [OF run_root] yields_then [OF run_read] yields_then [OF run_container]
        yields_then [OF run_isolated] yields_basic simp: run_texts)
qed

definition run_observed :: host where
  "run_observed =
     \<lparr>observed_os = ''linux'', observed_arch = ''x86_64'',
      observed_os_release = ''debian:12:sha256:'' @ zeros, observed_os_build = ''6.1 6.1'',
      observed_surface = ''native-cli''\<rparr>"


lemma run_release_text: "run_text (absolute [''etc'', ''os-release'']) = unlines [''ID=debian'', ''VERSION_ID=12'']"
  by (simp add: run_text_def run_package_def absolute_def)

lemma run_release_lines: "text_lines (unlines [''ID=debian'', ''VERSION_ID=12'']) = [''ID=debian'', ''VERSION_ID=12'']"
  by (rule text_lines_unlines) (simp add: plain_line_def)

lemma run_release_values:
  "release_values (unlines [''ID=debian'', ''VERSION_ID=12'']) ''ID'' = [''debian'']"
  "release_values (unlines [''ID=debian'', ''VERSION_ID=12'']) ''VERSION_ID'' = [''12'']"
  unfolding release_values_def run_release_lines
  by (simp_all add: List.map_filter_simps strip_prefix_def starts_with_def)

lemma run_release_chars: "list_all release_char ''debian''" "list_all release_char ''12''"
  by (simp_all add: release_char_def is_ascii_alphanumeric_def is_ascii_digit_def is_ascii_uppercase_def
      is_ascii_lowercase_def byte_def)

lemma run_release:
  "release_field (run_text (absolute [''etc'', ''os-release''])) ''ID'' = Some ''debian''"
  "release_field (run_text (absolute [''etc'', ''os-release''])) ''VERSION_ID'' = Some ''12''"
  using run_release_chars unfolding run_release_text release_field_def run_release_values
  by (simp_all add: trim_quotes_def)

lemma run_release_valid: "utf8_valid (run_text (absolute [''etc'', ''os-release'']))"
  unfolding run_release_text by (rule ascii_utf8) (simp add: unlines_def ascii_text_def byte_def)

lemma run_observe: "yields (observe_host run_host run_sha) run_observed"
proof -
  have valid: "utf8_valid ''6.1''" "utf8_valid ''x86_64''" by (simp_all add: ascii_utf8 ascii_text_def byte_def)
  have trim: "trim ''6.1'' = ''6.1''" by (simp add: trim_def trim_start.simps text_eval)
  have build: "yields (read_text run_host (absolute [''proc'', ''sys'', ''kernel'', ''version''])) ''6.1''"
    using run_read [of "absolute [''proc'', ''sys'', ''kernel'', ''version'']"] valid by (simp add: run_texts)
  note ids = run_release [unfolded run_release_text] run_release_valid [unfolded run_release_text]
  show ?thesis
    unfolding observe_host_def run_calls run_release_text
    by (rule yields_then [OF run_surface], rule yields_try, rule refl, simp only: prod.case,
        rule yields_ensure [OF valid(2)], rule yields_ensure, rule refl, rule yields_call, rule refl,
        rule yields_ensure [OF ids(3)], rule yields_pure, simp only: ids(1) ok_or_def option.case,
        rule yields_pure, simp only: ids(2) ok_or_def option.case, rule yields_then [OF build],
        rule yields_ensure [OF valid(1)])
      (simp add: trim run_observed_def run_sha_hex yields_basic)
qed

section \<open>The package\<close>

definition run_metadata :: package_metadata where
  "run_metadata =
     \<lparr>layout_version = 1, package_version = ''0.156.1'', package_target = ''x86_64-unknown-linux-musl'',
      variant = ''codex'', entrypoint = ''codex'', resources_dir = ''codex-resources'',
      path_dir = ''codex-path''\<rparr>"

definition run_tok :: tokenizer where
  "run_tok s =
     (if s = ''{}'' then
        Some (RawObject
          [(''layoutVersion'', RawU64 1), (''version'', RawString ''0.156.1''),
           (''target'', RawString ''x86_64-unknown-linux-musl''), (''variant'', RawString ''codex''),
           (''entrypoint'', RawString ''codex''), (''resourcesDir'', RawString ''codex-resources''),
           (''pathDir'', RawString ''codex-path'')], [])
      else
        Some (RawObject
          [(''schema_version'', RawU64 2), (''autoapprover_version'', RawString ''0.1.0''),
           (''entries'', RawArray [RawArray [RawString ''run-1'', RawArray (map RawString
              [''0.156.1'', ''linux'', ''x86_64'', ''debian:12:sha256:'' @ zeros, ''6.1 6.1'', ''linux-bwrap'',
               ''native-cli'', ''permission-request-v1'', ''Bash'', zeros, zeros, ''native'', zeros, zeros])]]),
           (''revoked_artifact_sha256'', RawArray [])], []))"

definition run_manifest :: cert_manifest where
  "run_manifest =
     \<lparr>schema_version = 2, autoapprover_version = ''0.1.0'',
      entries = [\<lparr>evidence_id = ''run-1'', certificate_target = run_target\<rparr>], revoked_artifact_sha256 = []\<rparr>"

lemma run_target_ok: "target_ok run_target"
proof -
  have "version_text ''0.156.1''"
    by (simp add: version_text_split canonical_decimal_def text_eval)
  then have "parse_version (''codex-cli '' @ ''0.156.1'') = Some ''0.156.1''"
    by (rule parse_version_complete)
  then show ?thesis
    by (simp add: target_ok_def target_validate_def run_target_def PROTOCOL_VERSION_def zeros_def text_eval)
qed

lemma run_manifest_valid: "cert_manifest_validate run_manifest = Inr ()"
  using run_target_ok
  by (simp add: cert_manifest_validate_def run_manifest_def CARGO_PKG_VERSION_def result_simps text_eval
      artifact_digests_def)

lemma run_admits: "admits run_manifest run_target"
  by (simp add: admits_iff run_manifest_valid) (simp add: run_manifest_def)

lemma run_decode_target:
  "target_decode (JArray (map JString
      [''0.156.1'', ''linux'', ''x86_64'', ''debian:12:sha256:'' @ zeros, ''6.1 6.1'', ''linux-bwrap'',
       ''native-cli'', ''permission-request-v1'', ''Bash'', zeros, zeros, ''native'', zeros, zeros])) = Some run_target"
  by (simp add: target_decode_def target_field_names_def bind_field_def run_target_def)

lemma run_embedded: "embedded run_tok = Inr run_manifest"
proof -
  have start: "is_some_and (find (\<lambda>c. \<not> is_ascii_whitespace c) MANIFEST_BYTES) (\<lambda>c. c = CHR ''{'')"
    by (simp add: MANIFEST_BYTES_def unlines_def is_ascii_whitespace_def byte_def)
  have "MANIFEST_BYTES \<noteq> ''{}''" by (simp add: MANIFEST_BYTES_def unlines_def)
  then have "parse_unique_object run_tok MANIFEST_BYTES = Inr (JObject
      [(''autoapprover_version'', JString ''0.1.0''),
       (''entries'', JArray [JArray [JString ''run-1'', JArray (map JString
          [''0.156.1'', ''linux'', ''x86_64'', ''debian:12:sha256:'' @ zeros, ''6.1 6.1'', ''linux-bwrap'',
           ''native-cli'', ''permission-request-v1'', ''Bash'', zeros, zeros, ''native'', zeros, zeros])]]),
       (''revoked_artifact_sha256'', JArray []), (''schema_version'', JNumber (PosInt 2))])"
    using start by (simp add: parse_unique_object_def run_tok_def)
  then show ?thesis
    using run_manifest_valid
    by (simp add: embedded_def cert_manifest_parse_def cert_manifest_decode_def certificate_decode_def
        run_decode_target [simplified] bind_field_def ok_or_def run_manifest_def)
qed

lemma run_read_metadata: "yields (read_package_metadata run_host run_tok [RootDir]) run_metadata"
  by (simp add: yields_def read_package_metadata_def read_json_def io_run run_calls under_def run_text_def
      run_package_def MAX_METADATA_BYTES_def parse_unique_object_def run_tok_def is_ascii_whitespace_def byte_def
      package_metadata_decode_def bind_field_def ok_or_def run_metadata_def)

lemma run_stats:
  "run_stat (run_file ''codex'') = example_stat" "run_stat (run_file ''codex-package.json'') = example_stat"
  "run_file ''codex'' \<notin> set CONTAINER_FILES" "run_file ''codex-package.json'' \<notin> set CONTAINER_FILES"
  by (simp_all add: run_stat_def run_file_def run_directories_def CONTAINER_FILES_def absolute_def)

lemma run_kinds:
  "yields (stat_is run_host PlainDirectory (under [RootDir] [''codex-resources''])) True"
  "yields (stat_is run_host PlainDirectory (under [RootDir] [''codex-path''])) True"
  unfolding stat_is_def
  by (rule yields_basic, simp add: run_calls run_stat_def under_def run_directories_def)+

definition run_location :: location where
  "run_location =
     \<lparr>loc_root = [RootDir], loc_executable = run_file ''codex'', loc_kind = ''native'', loc_shim = None,
      loc_npm_package_json = None\<rparr>"


lemma run_native: "native_target (host_arch run_host) = Inr (''codex-linux-x64'', ''x86_64-unknown-linux-musl'')"
  by (simp add: native_target_def run_calls)

lemma run_guess: "guess_native (run_file ''codex'') = (\<lambda>t. (t, Inr ([RootDir], ''native'', None, None, None)))"
  by (simp add: guess_native_def run_parent io_run ok_or_def file_name_def)

lemma run_entrypoint: "path_join [RootDir] (path_of_string ''codex'') = run_file ''codex''"
  "path_of_string ''codex'' \<in> set (allowed_entrypoints ''x86_64-unknown-linux-musl'')"
  "path_of_string ''/codex'' = run_file ''codex''"
  by (simp_all add: path_join_def is_absolute_def path_of_string_def run_file_def allowed_entrypoints_def
      starts_with_def)

lemma run_names: "file_name (run_file ''codex'') = Some ''codex''" "path_starts_with (run_file ''codex'') [RootDir]"
  by (simp_all add: file_name_def run_file_def)

lemma run_locate_any:
  assumes "version = [] \<or> version = ''0.156.1''"
  shows "yields (locate run_host run_tok (run_file ''codex'') version) run_location"
proof -
  have guess: "yields (guess_native (run_file ''codex'')) ([RootDir], ''native'', None, None, None)"
    by (simp add: run_guess yields_def)
  show ?thesis
    unfolding locate_def run_names ok_or_def option.case run_native
    by (rule yields_call [OF run_calls(8)], simp only: run_names option.case,
        rule yields_pure, rule refl, rule yields_pure, rule refl, simp,
        rule yields_then [OF guess], simp, rule yields_call [OF run_calls(8)],
        rule yields_then [OF yields_map_err [OF run_chain]], rule yields_then [OF run_read_metadata],
        rule yields_pure, rule refl, simp add: run_metadata_def, rule yields_ensure, use assms in force,
        rule yields_ensure, rule run_entrypoint, simp only: run_entrypoint, rule yields_call [OF run_calls(8)],
        rule yields_ensure, simp add: run_names, rule yields_then [OF run_kinds(1)], rule yields_ensure, simp,
        rule yields_then [OF run_kinds(2)], rule yields_ensure, simp, rule yields_ensure, simp)
      (simp add: run_location_def yields_basic)
qed

lemmas run_locate = run_locate_any [OF disjI2 [OF refl]]

lemma run_native_path: "yields (native_path run_host run_tok (run_file ''codex'')) (run_file ''codex'')"
  unfolding native_path_def
  by (rule yields_then [OF run_locate_any]) (simp_all add: run_location_def yields_basic)


section \<open>The bundle\<close>

definition run_executable :: executable where
  "run_executable =
     \<lparr>exe_requested = run_file ''codex'', exe_path = run_file ''codex'', exe_sha256 = zeros,
      exe_stamp = stamp_of example_stat, exe_handle = 4\<rparr>"

lemma run_exe: "yields (executable_open run_host run_sha (run_file ''codex'')) run_executable"
  unfolding executable_open_def
  by (rule yields_call [OF run_calls(8)], simp only: run_parent ok_or_def option.case, rule yields_pure,
      rule refl, rule yields_then [OF run_chain], rule yields_call [OF run_calls(11)],
      rule yields_then [OF run_stamp], rule yields_call [OF run_calls(12)], rule yields_ensure,
      simp add: run_len MAX_IDENTITY_FILE_BYTES_def, rule yields_then [OF run_prefix], rule yields_ensure,
      rule refl, rule yields_then [OF run_rest], rule yields_ensure, simp add: run_len ELF_MAGIC_def,
      rule yields_then [OF run_stamp], rule yields_ensure, rule refl, rule yields_call [OF run_calls(8)],
      rule yields_ensure, rule refl)
    (simp add: run_executable_def run_sha_hex yields_basic)

lemma run_recheck: "yields (recheck_file run_host (run_file name) (run_file name) (stamp_of example_stat) h) ()"
  unfolding recheck_file_def
  by (rule yields_pure, simp only: run_parent ok_or_def option.case, rule yields_then [OF run_chain],
      rule yields_call [OF run_calls(8)], rule yields_ensure, rule refl, rule yields_then [OF run_stamp],
      rule yields_ensure, rule refl, rule yields_call [OF run_calls(11)], rule yields_then [OF run_stamp])
    (simp add: yields_basic)

lemma run_directory_chain:
  "yields (check_trusted_directory_chain run_host (run_file ''codex-path'')) ()"
  "yields (check_trusted_directory_chain run_host (run_file ''codex-resources'')) ()"
  by (simp_all add: run_calls CONTAINER_FILES_def absolute_def ancestors.simps path_parent_def run_file_def
      check_trusted_directory_chain_def check_directory_def yields_def io_run run_stat_def
      run_directories_def example_stat_def)

lemma run_read_dir:
  "host_read_dir run_host t [RootDir] =
     Inr (map Inr [''codex'', ''codex-package.json'', ''codex-path'', ''codex-resources''])"
  "host_read_dir run_host t (run_file name) = Inr []"
  by (simp_all add: run_host_def run_file_def)

lemma run_lstat:
  "host_lstat run_host t [RootDir, Normal ''codex''] = Inr example_stat"
  "host_lstat run_host t [RootDir, Normal ''codex-package.json''] = Inr example_stat"
  "host_lstat run_host t [RootDir, Normal ''codex-path''] = Inr (example_stat\<lparr>fst_kind := PlainDirectory, fst_uid := 0\<rparr>)"
  "host_lstat run_host t [RootDir, Normal ''codex-resources''] =
     Inr (example_stat\<lparr>fst_kind := PlainDirectory, fst_uid := 0\<rparr>)"
  by (simp_all add: run_calls CONTAINER_FILES_def absolute_def run_stat_def run_directories_def)

definition run_listing :: "string list" where
  "run_listing = [''codex'', ''codex-package.json'']"

lemma run_scan:
  "yields (scan_entries run_host [RootDir] [RootDir] (Suc 0) [] []
      (map Inr [''codex'', ''codex-package.json'', ''codex-path'', ''codex-resources'']))
     ([run_file ''codex-resources'', run_file ''codex-path''], run_listing)"
  by (simp add: yields_def io_run run_lstat Let_def example_stat_def MAX_FILES_def MAX_DIRECTORIES_def ascii_utf8
      ascii_text_def byte_def run_file_def run_listing_def)

lemma yields_loop:
  assumes "Suc n \<le> MAX_DIRECTORIES" "yields (check_trusted_directory_chain os d) ()"
    and "\<And>t. host_read_dir os t d = Inr es"
    and "yields (scan_entries os root d (Suc n) stack found es) (stack', found')"
    and "yields (list_loop os root (Suc n) stack' found') out"
  shows "yields (list_loop os root n (d # stack) found) out"
proof -
  have few: "\<not> MAX_DIRECTORIES < Suc n" using assms(1) by simp
  show ?thesis
    unfolding list_loop.simps if_not_P [OF few]
    by (rule yields_then [OF yields_map_err [OF assms(2)]], rule_tac yields_call [OF assms(3)],
        rule_tac yields_then [OF assms(4)]) (simp add: assms(5))
qed

lemma run_list: "yields (list_files run_host [RootDir]) run_listing"
proof -
  have sorted: "sort run_listing = run_listing" "run_listing \<noteq> []"
    by (simp_all add: run_listing_def)
  have "yields (list_loop run_host [RootDir] 0 [[RootDir]] []) run_listing"
    by (rule yields_loop, simp add: MAX_DIRECTORIES_def, rule run_chain, rule run_read_dir(1), rule run_scan,
        rule yields_loop, simp add: MAX_DIRECTORIES_def, rule run_directory_chain(2), rule run_read_dir(2),
        simp only: scan_entries.simps, rule yields_basic, rule yields_loop, simp add: MAX_DIRECTORIES_def, rule run_directory_chain(1),
        rule run_read_dir(2), simp only: scan_entries.simps, rule yields_basic)
      (simp add: yields_basic)
  then show ?thesis
    unfolding list_files_def
    by (rule yields_then, rule_tac yields_ensure [OF sorted(2)]) (simp add: sorted yields_basic)
qed

lemma run_relative: "relative_path [RootDir] ''codex'' = run_file ''codex''"
  "relative_path [RootDir] ''codex-package.json'' = run_file ''codex-package.json''"
  by (simp_all add: relative_path_def path_join_def is_absolute_def path_of_string_def run_file_def starts_with_def)

lemma run_bind:
  "yields (bind_files run_host run_sha [RootDir] run_executable 0 run_listing)
     ([run_bound ''codex-package.json''], [(''codex'', 5, zeros), (''codex-package.json'', 5, zeros)])"
proof -
  have exe: "exe_path run_executable = run_file ''codex''" "exe_sha256 run_executable = zeros"
    by (simp_all add: run_executable_def)
  have other: "run_file ''codex-package.json'' \<noteq> run_file ''codex''" by (simp add: run_file_def)
  have stat: "host_stat run_host t (run_file ''codex-package.json'') = Inr example_stat"
    "host_stat run_host t (run_file ''codex'') = Inr example_stat" for t
    by (simp_all add: run_calls run_stats)
  have open_second: "yields (open_limited run_host run_sha (run_file ''codex-package.json'') (MAX_BYTES - 5))
      (run_bound ''codex-package.json'')"
    by (rule run_open) (simp_all add: run_stats MAX_BYTES_def)
  have second: "yields (bind_files run_host run_sha [RootDir] run_executable 5 [''codex-package.json''])
      ([run_bound ''codex-package.json''], [(''codex-package.json'', 5, zeros)])"
    unfolding bind_files.simps Let_def run_relative exe if_not_P [OF other]
    by (rule yields_call [OF stat(1)], rule yields_ensure, simp add: run_len MAX_BYTES_def,
        rule yields_then, rule yields_then [OF yields_map_err [OF open_second]], rule yields_basic, simp only: prod.case,
        rule yields_ensure, simp add: run_len run_bound_def, rule yields_then [OF yields_basic(1)])
      (simp add: yields_basic run_bound_def)
  show ?thesis
    unfolding run_listing_def bind_files.simps(2) [of _ _ _ _ 0] Let_def run_relative exe if_P [OF refl]
    by (rule yields_call [OF stat(2)], rule yields_ensure, simp add: run_len MAX_BYTES_def,
        rule yields_then, rule yields_basic, simp only: prod.case,
        rule yields_ensure, simp add: run_len, simp only: run_len add_0, rule yields_then [OF second])
      (simp add: yields_basic run_len)
qed

definition run_bundle :: codex_bundle where
  "run_bundle =
     \<lparr>bundle_executable = run_executable, bundle_sha256 = zeros, bundle_launch_kind = ''native'',
      bundle_launch_sha256 = zeros, bundle_launch_package_sha256 = zeros, package_root = [RootDir],
      bundle_requested = run_file ''codex'', launch_file = None, launch_package_file = None,
      bundle_files = [run_bound ''codex-package.json''], bundle_file_names = run_listing\<rparr>"

lemma run_unchanged: "yields (bundle_recheck run_host run_tok run_bundle) ()"
proof -
  have b: "package_root run_bundle = [RootDir]" "bundle_requested run_bundle = run_file ''codex''"
    "launch_file run_bundle = None" "launch_package_file run_bundle = None"
    "bundle_file_names run_bundle = run_listing" "bundle_executable run_bundle = run_executable"
    "bundle_files run_bundle = [run_bound ''codex-package.json'']" "bundle_launch_kind run_bundle = ''native''"
    by (simp_all add: run_bundle_def)
  have exe: "yields (executable_recheck run_host run_executable) ()"
    using run_recheck by (simp add: executable_recheck_def run_executable_def)
  have bound: "yields (bound_recheck run_host (run_bound ''codex-package.json'')) ()"
    using run_recheck by (simp add: bound_recheck_def run_bound_def)
  have version: "package_version run_metadata = ''0.156.1''" by (simp add: run_metadata_def)
  show ?thesis
    unfolding bundle_recheck_def b
    by (rule yields_then [OF run_read_metadata], simp only: version, rule yields_then [OF run_locate],
        rule yields_ensure, simp add: run_location_def run_executable_def, rule yields_then [OF run_list],
        rule yields_ensure, rule refl, rule yields_then [OF yields_map_err [OF exe]],
        rule yields_then [OF yields_option(1)], rule yields_then [OF yields_option(1)], rule yields_each)
      (simp add: yields_map_err [OF bound])
qed


lemma run_discover: "yields (discover run_host run_tok run_sha (run_file ''codex'') ''0.156.1'') run_bundle"
proof -
  have loc: "loc_executable run_location = run_file ''codex''" "loc_root run_location = [RootDir]"
    "loc_shim run_location = None" "loc_npm_package_json run_location = None" "loc_kind run_location = ''native''"
    by (simp_all add: run_location_def)
  have under: "under [RootDir] [''codex-package.json''] = run_file ''codex-package.json''"
    by (simp add: under_def run_file_def)
  have package: "yields (open_limited run_host run_sha (run_file ''codex-package.json'') MAX_METADATA_BYTES)
      (run_bound ''codex-package.json'')"
    by (rule run_open) (simp_all add: run_stats MAX_METADATA_BYTES_def)
  have sha: "bound_sha256 (run_bound name) = zeros" "exe_sha256 run_executable = zeros" for name
    by (simp_all add: run_bound_def run_executable_def)
  note built = run_unchanged [unfolded run_bundle_def]
  show ?thesis
    unfolding discover_def Let_def
    by (rule yields_then [OF run_locate], simp only: loc, rule yields_then [OF yields_map_err [OF run_exe]],
        rule yields_then [OF yields_option(1)], rule yields_then [OF yields_option(1)], simp only: option.case under,
        rule yields_then, rule yields_then [OF yields_map_err [OF package]], rule yields_basic,
        rule yields_then [OF run_list], rule yields_then [OF run_bind],
        simp only: prod.case sha run_sha_hex, rule yields_then [OF built])
      (simp add: run_bundle_def yields_basic)
qed

section \<open>The admission\<close>

definition run_installation :: installation where
  "run_installation =
     \<lparr>installation_path = ''/codex'', installation_native_path = None, installation_version = ''0.156.1'',
      installation_version_diagnostic = None, installation_launcher_kind = launcher_kind_of None\<rparr>"

definition run_admission :: admission where
  "run_admission =
     \<lparr>adm_target = run_target, adm_executable = run_executable, adm_bundle = run_bundle,
      adm_host = run_observed\<rparr>"

lemma run_target_of:
  "installation_version installation = ''0.156.1'' \<Longrightarrow> target_of installation run_observed ''linux-bwrap'' run_bundle = run_target"
  by (simp add: target_of_def run_observed_def run_bundle_def run_executable_def run_target_def
      PROTOCOL_VERSION_def)

lemma run_inspect_any:
  assumes installed: "installation_path installation = ''/codex''" "installation_version installation = ''0.156.1''"
  shows "yields (admission_inspect run_host run_tok run_sha installation (Some ''linux-bwrap'')
     (Some ''workspace-write'') [''--search'', ''fix the bug'']) run_admission"
proof -
  have args: "validate_arguments False [''--search'', ''fix the bug''] = Inr ()"
    by (simp add: VALUE_OPTIONS_def FLAG_OPTIONS_def SUBCOMMANDS_def starts_with_def ascii_utf8 ascii_text_def byte_def)
  have version: "list_ex (\<lambda>entry. target_codex_version (certificate_target entry) =
      installation_version installation) (entries run_manifest)"
    by (simp add: run_manifest_def run_target_def installed)
  have native: "observed_surface run_observed = ''native-cli''" by (simp add: run_observed_def)
  have box: "sandbox_overrides OsLinux ''linux-bwrap'' = Inr [''features.use_legacy_landlock=false'']"
    by (simp add: sandbox_overrides_def)
  have mode: "require_workspace_write (Some ''workspace-write'') = Inr ()"
    by (simp add: require_workspace_write_def)
  have path: "path_of_string (installation_path installation) = run_file ''codex''"
    "installation_version installation = ''0.156.1''"
    by (simp_all add: installed run_entrypoint)
  have exe: "bundle_executable run_bundle = run_executable" by (simp add: run_bundle_def)
  show ?thesis
    unfolding admission_inspect_def run_embedded args
    by (simp only: map_err.simps, rule yields_pure, rule refl, rule yields_ensure [OF version], rule yields_pure,
        rule refl, rule yields_then [OF yields_map_err [OF run_observe]], rule yields_ensure [OF native],
        simp only: ok_or_def option.case, rule yields_pure, rule refl, rule yields_pure, rule box,
        rule yields_pure, rule mode, simp only: path, rule yields_then [OF yields_map_err [OF run_discover]],
        simp only: run_target_of [OF installed(2)], rule yields_ensure [OF run_admits])
      (simp add: run_admission_def exe yields_basic)
qed

lemma run_inspect:
  "yields (admission_inspect run_host run_tok run_sha run_installation (Some ''linux-bwrap'')
     (Some ''workspace-write'') [''--search'', ''fix the bug'']) run_admission"
  by (rule run_inspect_any) (simp_all add: run_installation_def)

lemma run_admission_fields:
  "adm_target run_admission = run_target" "adm_host run_admission = run_observed"
  "adm_bundle run_admission = run_bundle" "adm_executable run_admission = run_executable"
  by (simp_all add: run_admission_def)

lemma run_recheck_admission: "yields (admission_recheck run_host run_tok run_sha run_admission) ()"
  unfolding admission_recheck_def run_embedded run_admission_fields
  by (simp only: map_err.simps, rule yields_pure, rule refl, rule yields_ensure [OF run_admits],
      rule yields_then [OF yields_map_err [OF run_observe]], rule yields_ensure, rule refl)
    (rule yields_map_err [OF run_unchanged])

lemma run_verified: "yields (admission_verify_process run_host run_tok run_sha run_admission 9) ()"
proof -
  have exe: "yields (executable_recheck run_host run_executable) ()"
    using run_recheck by (simp add: executable_recheck_def run_executable_def)
  have image: "exe_stamp run_executable = stamp_of example_stat" by (simp add: run_executable_def)
  have process: "yields (executable_verify_process run_host run_executable 9) ()"
    unfolding executable_verify_process_def image
    by (rule yields_then [OF exe], rule yields_call [OF run_calls(11)], rule yields_then [OF run_stamp])
      (simp add: yields_basic)
  show ?thesis
    unfolding admission_verify_process_def run_admission_fields
    by (rule yields_then [OF run_recheck_admission]) (rule yields_map_err [OF process])
qed

section \<open>Witnesses\<close>


theorem verified_process_is_admitted_witness:
  "\<exists>t' t1. admission_verify_process run_host run_tok run_sha run_admission 9 0 = (t', Inr ()) \<and>
    admission_holds run_host run_tok run_sha run_admission 0 t1"
proof -
  obtain t' where run: "admission_verify_process run_host run_tok run_sha run_admission 9 0 = (t', Inr ())"
    using yieldsD [OF run_verified] by blast
  from verified_process_is_admitted [OF run] run show ?thesis by blast
qed

theorem shipped_admits_no_launch_witness:
  "admission_inspect run_host example_tokenizer run_sha run_installation (Some ''linux-bwrap'')
     (Some ''workspace-write'') [] 0 = (0, Inl NoCurrentCertification)"
  by (rule shipped_admits_no_launch [OF example_reads_embedded])

end
