(* ===== verification/Launcher_Runs.thy ===== *)
theory Launcher_Runs
  imports Launcher Admission_Run
begin

text \<open>
  What every run of the launcher satisfies: approvals are armed only for a child that has been verified
  after it was started, what was opened is closed on every path, and a run without a certified
  tuple leaves no trace of the arming variables in its child.
\<close>

section \<open>Actions of the parts\<close>

lemma acts_wait [acts_intros]:
  "\<lbrakk>AcceptingStopped \<in> A; ChildReaped \<in> A\<rbrakk> \<Longrightarrow> acts_only A (wait_for_bound_child rs None)"
  by (induction rs) (auto simp: fails_def returns_def intro!: acts_intros split: sum.splits option.splits bool.splits)

abbreviation offered :: "launch_action set" where
  "offered \<equiv> {f. \<exists>p ob. f = ObservationOffered p ob}"

lemma acts_record [acts_intros]:
  "(\<And>p ob. ObservationOffered p ob \<in> A) \<Longrightarrow> acts_only A (record_session_observation os lc v)"
  by (auto simp: record_session_observation_def intro!: acts_intros split: option.splits)

lemma acts_parts:
  "acts_only {BrokerStopped, SessionCleaned} (abandon lc e)"
  "acts_only {ChildKilled, ChildWaited} kill_child"
  "acts_only ({BrokerStopped, SessionCleaned} \<union> offered) (conclude os lc v status)"
  "acts_only {} (codex_inspect os tok lc)" "acts_only {} (capability_of os lc installation launcher)"
  "acts_only {} (version_of lc path)"
  by (auto simp: abandon_def fails_def kill_child_def conclude_def codex_inspect_def version_of_def
      capability_of_def absolute_path_def Let_def intro!: acts_intros split: sum.splits)

lemma progress_wait [progress_intros]: "progresses (wait_for_bound_child rs None)"
  by (induction rs) (auto simp: fails_def returns_def intro!: progress_intros split: sum.splits option.splits bool.splits)

lemma forward_native [forward_intros]: "forward (native_path os tok p)" "forward (stat_is os kind p)"
  by (auto simp: native_path_def stat_is_def intro!: forward_intros)

lemma progress_parts [progress_intros]:
  "progresses (abandon lc e)" "progresses kill_child" "progresses (conclude os lc v status)"
  "progresses (codex_inspect os tok lc)" "progresses (capability_of os lc installation launcher)"
  "progresses (version_of lc path)" "progresses (launch_unarmed os lc installation args)"
  "progresses (absolute_path os p)"
  by (auto simp: abandon_def fails_def returns_def kill_child_def conclude_def codex_inspect_def version_of_def
      capability_of_def absolute_path_def record_session_observation_def launch_unarmed_def Let_def
      intro!: progress_intros forward_intros split: sum.splits option.splits)

lemma progress_supervise [progress_intros]: "progresses (supervise os tok sha lc a v pid)"
  by (auto simp: supervise_def intro!: progress_intros forward_intros split: sum.splits option.splits)

lemma progress_launch [progress_intros]: "progresses (launch_child os tok sha lc a v armed)"
  by (auto simp: launch_child_def intro!: progress_intros split: sum.splits)

lemma progress_start [progress_intros]: "progresses (start_armed os tok sha lc installation args launcher dir a)"
  by (auto simp: start_armed_def fails_def intro!: progress_intros forward_intros split: sum.splits option.splits)


section \<open>What is held open\<close>

datatype resource = HeldSession | HeldBroker | HeldChild

fun hold :: "launch_action \<Rightarrow> resource set \<Rightarrow> resource set" where
  "hold SessionCreated R = insert HeldSession R"
| "hold SessionCleaned R = R - {HeldSession}"
| "hold SessionDropped R = R - {HeldSession}"
| "hold (BrokerStarted a config) R = insert HeldBroker R"
| "hold BrokerStopped R = R - {HeldBroker}"
| "hold (ChildSpawned command) R = insert HeldChild R"
| "hold ChildWaited R = R - {HeldChild}"
| "hold ChildReaped R = R - {HeldChild}"
| "hold _ R = R"

definition held :: "launch_action action_log \<Rightarrow> resource set \<Rightarrow> resource set" where
  "held l R = fold (\<lambda>(t, f). hold f) l R"

lemma held_simps [simp]: "held [] R = R" "held ((t, f) # l) R = held l (hold f R)" "held (l @ l') R = held l' (held l R)"
  by (simp_all add: held_def)

lemma held_record: "record_session_observation os lc v t = (l, t', x) \<Longrightarrow> held l R = R"
  by (auto simp: record_session_observation_def program_simps split: option.splits)

lemma conclude_log:
  assumes "conclude os lc v status t = (l, t', x)"
  shows "\<exists>l1 t1 u. record_session_observation os lc v (Suc t) = (l1, t1, u) \<and>
    l = (t, BrokerStopped) # l1 @ [(t1, SessionCleaned)] \<and> (\<forall>e. status = Inl e \<longrightarrow> x = Some (Inl e))"
  using assms unfolding conclude_def
  by (elim nextE) (auto simp: act_eq done_with_eq)

lemma held_conclude:
  assumes "conclude os lc v status t = (l, t', x)"
  shows "held l R = R - {HeldBroker, HeldSession} \<and> (\<forall>e. status = Inl e \<longrightarrow> x = Some (Inl e))"
proof -
  obtain l1 t1 u where "record_session_observation os lc v (Suc t) = (l1, t1, u)"
      "l = (t, BrokerStopped) # l1 @ [(t1, SessionCleaned)]" "\<forall>e. status = Inl e \<longrightarrow> x = Some (Inl e)"
    using conclude_log [OF assms] by blast
  then show ?thesis using held_record by auto
qed

lemma held_abandon:
  "abandon lc e t = (l, t', x) \<Longrightarrow> held l R = R - {HeldBroker, HeldSession} \<and> (\<exists>c. x = Some (Inl (with_cleanup_error CleanupAlso e c)))"
  by (auto simp: abandon_def fails_def program_simps)

lemma held_kill: "kill_child t = (l, t', x) \<Longrightarrow> held l R = R - {HeldChild}"
  by (auto simp: kill_child_def program_simps)

text \<open>The waiting loop in a production run.\<close>

lemma wait_production:
  "wait_for_bound_child (r # rs) None =
     and_next (if wr_interrupted r then act AcceptingStopped (\<lambda>t. ()) else done_with ()) (\<lambda>_.
     case wr_status r of
       Inl e \<Rightarrow> fails (WaitFails e)
     | Inr (Some status) \<Rightarrow> and_next (act ChildReaped (\<lambda>t. ())) (\<lambda>_. returns status)
     | Inr None \<Rightarrow> wait_for_bound_child rs None)"
  unfolding wait_for_bound_child.simps with_cleanup_error_def option.case
  by (cases "wr_interrupted r"; cases "wr_expired r"; cases "wr_status r") (simp_all only: prod.case bool.case option.case sum.case and_next_done if_True if_False)

lemma held_pre: "(if c then act AcceptingStopped (\<lambda>t. ()) else done_with ()) t = (l, t', x) \<Longrightarrow> held l R = R"
  by (auto simp: program_simps split: if_splits)

lemma held_wait:
  "wait_for_bound_child rs None t = (l, t', Some r) \<Longrightarrow>
   held l R = (case r of Inl e \<Rightarrow> R | Inr status \<Rightarrow> R - {HeldChild}) \<and>
   (\<forall>e. r = Inl e \<longrightarrow> (\<exists>k. e = WaitFails k))"
proof (induction rs arbitrary: t l)
  case Nil
  then show ?case by (simp add: program_simps)
next
  case (Cons round rs)
  then obtain l1 t1 l2 where
      pre: "held l1 R = R" and l: "l = l1 @ l2" and
      rest: "(case wr_status round of
         Inl e \<Rightarrow> fails (WaitFails e)
       | Inr (Some status) \<Rightarrow> and_next (act ChildReaped (\<lambda>t. ())) (\<lambda>_. returns status)
       | Inr None \<Rightarrow> wait_for_bound_child rs None) t1 = (l2, t', Some r)"
    unfolding wait_production and_next_eq using held_pre by blast
  show ?case
  proof (cases "wr_status round")
    case (Inl e)
    then show ?thesis using rest pre l by (auto simp: fails_def program_simps)
  next
    case (Inr s)
    then show ?thesis using rest pre l Cons.IH
      by (cases s) (auto simp: returns_def program_simps)
  qed
qed

lemma held_give_up:
  "and_next kill_child (\<lambda>_. abandon lc e) t = (l, t', Some r) \<Longrightarrow> held l R = R - {HeldBroker, HeldSession, HeldChild}"
  "and_next kill_child (\<lambda>_. and_next (act AcceptingStopped (\<lambda>t. ())) (\<lambda>_. abandon lc e)) t = (l, t', Some r) \<Longrightarrow>
     held l R = R - {HeldBroker, HeldSession, HeldChild}"
  using held_kill [where R = R] held_abandon [where R = "R - {HeldChild}"]
  by (fastforce simp: and_next_eq act_eq)+

lemma held_supervise:
  assumes "supervise os tok sha lc a v pid t = (l, t', Some r)"
  shows "held l R = R - {HeldBroker, HeldSession, HeldChild} \<or>
    held l R = R - {HeldBroker, HeldSession} \<and> (\<exists>k. r = Inl (WaitFails k))"
proof -
  define rest where "rest = (\<lambda>status. case status of None \<Rightarrow> done_with None | Some status \<Rightarrow> conclude os lc v status)"
  have last: "held l R = R - {HeldBroker, HeldSession, HeldChild} \<or>
      held l R = R - {HeldBroker, HeldSession} \<and> (\<exists>k. r = Inl (WaitFails k))"
    if waited: "and_next (wait_for_bound_child (lc_rounds lc) None) rest t = (l, t', Some r)" for t l
  proof -
    obtain l1 t1 out l2 where n: "wait_for_bound_child (lc_rounds lc) None t = (l1, t1, out)"
        "rest out t1 = (l2, t', Some r)" "l = l1 @ l2"
      using waited unfolding and_next_eq by blast
    then obtain s where c: "wait_for_bound_child (lc_rounds lc) None t = (l1, t1, Some s)"
        "conclude os lc v s t1 = (l2, t', Some r)" "l = l1 @ l2"
      by (cases out) (auto simp: rest_def done_with_eq)
    show ?thesis
      using held_wait [OF c(1), of R] held_conclude [OF c(2), of "held l1 R"] c(3) by (cases s) auto
  qed
  show ?thesis
    using assms unfolding supervise_def rest_def [symmetric]
    by (elim next_sumE) (auto simp: ask_eq perform_eq act_ok_eq dest: held_give_up [where R = R] last)
qed


section \<open>The configuration of an admitted child\<close>

lemma guess_npm_package:
  assumes "guess_npm os tok name canonical t = (t', Inr (root, kind, shim, version, package))"
  shows "\<exists>p. package = Some p \<and> path_parent p \<noteq> None"
  using assms
  unfolding guess_npm_def io_then_Inr split_paired_Ex prod.case io_return_Inr prod.inject
  by (elim exE conjE) (simp add: under_def path_parent_def)

lemma guess_native_kind:
  "guess_native canonical t = (t', Inr (root, kind, shim, version, package)) \<Longrightarrow> kind = ''native''"
  by (auto simp: guess_native_def io_simps)

lemma locate_package:
  assumes "locate os tok requested version t = (t', Inr loc)" "starts_with ''npm-'' (loc_kind loc)"
  shows "\<exists>p. loc_npm_package_json loc = Some p \<and> path_parent p \<noteq> None"
proof -
  obtain root kind shim npm package canonical name name' t1 t2 where
      guess: "(if name = ''codex.js'' then guess_npm os tok name' canonical else guess_native canonical) t1 =
        (t2, Inr (root, kind, shim, npm, package))" and
      loc: "loc_kind loc = kind" "loc_npm_package_json loc = package"
    using assms(1) unfolding locate_def io_then_Inr split_paired_Ex prod.case io_return_Inr
    apply (elim exE conjE)
    apply (rule that)
    apply assumption
    by simp_all
  show ?thesis
  proof (cases "name = ''codex.js''")
    case True
    then show ?thesis using guess guess_npm_package loc(2) by simp
  next
    case False
    then have "kind = ''native''" using guess guess_native_kind by simp
    then show ?thesis using assms(2) loc(1) by (simp add: starts_with_def)
  qed
qed

lemma discover_configures:
  assumes "discover os tok sha requested version t = (t', Inr b)"
  shows "\<exists>c. bundle_configure_child b command = Inr c"
proof -
  obtain loc t1 t2 t3 where l: "locate os tok requested version t = (t1, Inr loc)"
      "bundle_launch_kind b = loc_kind loc"
      "io_option (\<lambda>path. io_map_err ArtifactIdentity (open_limited os sha path MAX_METADATA_BYTES))
        (loc_npm_package_json loc) t2 = (t3, Inr (launch_package_file b))"
    using assms unfolding discover_def Let_def by (auto simp: io_then_Inr io_return_Inr)
  show ?thesis
  proof (cases "starts_with ''npm-'' (loc_kind loc)")
    case True
    then obtain p where "loc_npm_package_json loc = Some p" "path_parent p \<noteq> None"
      using locate_package [OF l(1)] by blast
    moreover from this(1) obtain f where "launch_package_file b = Some f" "bound_path f = p"
      using l(3) open_limited_Inr by (fastforce simp: io_simps)
    ultimately show ?thesis
      by (auto simp: bundle_configure_child_def Let_def and_then_Inr ok_or_Inr)
  qed (simp add: bundle_configure_child_def Let_def l(2))
qed

lemma inspected_configures:
  assumes "admission_inspect os tok sha installation sandbox mode args t = (t', Inr a)"
  shows "\<exists>c. admission_configure_child a command = Inr c"
proof -
  obtain s x t1 t2 h b where r: "sandbox_overrides OsLinux s = Inr x"
      "discover os tok sha (path_of_string (installation_path installation)) (installation_version installation) t1 =
         (t2, Inr b)"
      "a = \<lparr>adm_target = target_of installation h s b, adm_executable = bundle_executable b, adm_bundle = b,
         adm_host = h\<rparr>"
    using assms by (auto simp: admission_inspect_def io_simps result_simps)
  obtain c where "bundle_configure_child b command = Inr c"
    using discover_configures [OF r(2)] by blast
  then show ?thesis
    using r(1,3) by (auto simp: admission_configure_child_def target_of_def)
qed


section \<open>Runs\<close>

lemma held_launch:
  assumes "launch_child os tok sha lc a v armed t = (l, t', Some r)" "HeldChild \<notin> R"
  shows "held l R = R - {HeldBroker, HeldSession} \<or>
    held l R = insert HeldChild R - {HeldBroker, HeldSession} \<and> (\<exists>k. r = Inl (WaitFails k))"
proof (cases armed)
  case (Inl e)
  then show ?thesis using assms(1) held_abandon [of lc e t l t' "Some r" R] by (simp add: launch_child_def)
next
  case (Inr command)
  show ?thesis
    using assms(1) unfolding launch_child_def Inr sum.case
  proof (cases rule: next_sumE)
    case (Failed l1 t1 e l2)
    then show ?thesis using held_abandon [OF Failed(2), of R] by (auto simp: act_ok_eq is_ok_iff)
  next
    case (Worked l1 t1 pid l2)
    then show ?thesis using held_supervise [OF Worked(2), of "insert HeldChild R"] assms(2)
      by (auto simp: act_ok_eq is_ok_iff)
  qed
qed

lemma held_start:
  assumes "start_armed os tok sha lc installation args launcher dir a t = (l, t', Some r)"
    and configures: "\<And>command. \<exists>c. admission_configure_child a command = Inr c"
  shows "held l {} = {} \<or> held l {} = {HeldChild} \<and> (\<exists>k. r = Inl (WaitFails k))"
proof -
  obtain c where c: "admission_configure_child a (executable_command (host_env os) (adm_executable a)) = Inr c"
    using configures by blast
  show ?thesis
    using assms(1) unfolding start_armed_def c sum.case
  proof (cases rule: orfailE)
    case (Failed e)
    then show ?thesis by (auto simp: act_ok_eq)
  next
    case (Worked l1 t1 session l2)
    then have l1: "held l1 {} = {HeldSession}" by (auto simp: act_ok_eq is_ok_iff)
    from Worked(2) have "held l2 {HeldSession} = {} \<or> held l2 {HeldSession} = {HeldChild} \<and> (\<exists>k. r = Inl (WaitFails k))"
    proof (cases rule: next_sumE)
      case (Failed l3 t3 e l4)
      then show ?thesis by (auto simp: act_ok_eq fails_def act_eq and_next_eq done_with_eq is_ok_iff)
    next
      case (Worked l3 t3 u l4)
      then have l3: "held l3 {HeldSession} = {HeldSession, HeldBroker}" by (auto simp: act_ok_eq is_ok_iff)
      from Worked(2) show ?thesis
        using l3 Worked(3)
        by (elim nextE) (auto simp: absolute_path_def ask_eq dest!: held_launch [where R = "{HeldSession, HeldBroker}"])
    qed
    then show ?thesis using l1 Worked(3) by simp
  qed
qed


section \<open>When approvals are armed\<close>

text \<open>The actions by which no session is armed.\<close>

abbreviation harmless :: "launch_action set" where
  "harmless \<equiv> {f. \<forall>ident. f \<noteq> IdentitySet ident}"

lemma harmlessD: "\<lbrakk>acts_only harmless m; m t = (l, t', x)\<rbrakk> \<Longrightarrow> (u, IdentitySet ident) \<notin> set l"
  by (blast dest: acts_onlyD)

lemma harmless_parts:
  "acts_only harmless (abandon lc e)" "acts_only harmless kill_child" "acts_only harmless (conclude os lc v status)"
  "acts_only harmless (wait_for_bound_child rs None)" "acts_only harmless (codex_inspect os tok lc)"
  "acts_only harmless (capability_of os lc installation launcher)" "acts_only harmless (version_of lc path)"
  "acts_only harmless (launch_unarmed os lc installation args)"
  by (auto simp: abandon_def fails_def returns_def kill_child_def conclude_def codex_inspect_def version_of_def
      capability_of_def absolute_path_def launch_unarmed_def Let_def intro!: acts_intros split: sum.splits)

lemma harmless_ends:
  "acts_only harmless (and_next kill_child (\<lambda>_. abandon lc e))"
  "acts_only harmless (and_next kill_child (\<lambda>_. and_next (act AcceptingStopped (\<lambda>t. ())) (\<lambda>_. abandon lc e)))"
  "acts_only harmless (and_next (wait_for_bound_child rs None) (\<lambda>status.
     case status of None \<Rightarrow> done_with None | Some status \<Rightarrow> conclude os lc v status))"
  by (auto intro!: acts_intros harmless_parts split: option.splits)

lemma supervise_arms:
  assumes "supervise os tok sha lc a v pid t = (l, t', r)" "(u, IdentitySet ident) \<in> set l"
  shows "current_process_identity (lc_reader lc) (Suc t) pid = Inr ident \<and>
    admission_verify_process os tok sha a pid (Suc (Suc t)) = (u, Inr ())"
  using assms(1)[unfolded supervise_def] assms(2)
  by (elim next_sumE) (auto simp: ask_eq perform_eq act_ok_eq dest: harmlessD [OF harmless_ends(1)]
      harmlessD [OF harmless_ends(2)] harmlessD [OF harmless_ends(3)] split: if_splits)

lemma launch_arms:
  assumes "launch_child os tok sha lc a v armed t = (l, t', r)" "(u, IdentitySet ident) \<in> set l"
  shows "\<exists>command pid w w'. armed = Inr command \<and> (t, ChildSpawned command) \<in> set l \<and>
    lc_spawn lc t command = Inr pid \<and> t < w \<and> current_process_identity (lc_reader lc) w pid = Inr ident \<and>
    w < w' \<and> admission_verify_process os tok sha a pid w' = (u, Inr ())"
proof (cases armed)
  case (Inl e)
  then show ?thesis using assms harmlessD [OF harmless_parts(1), of lc e t l t' r u ident] by (simp add: launch_child_def)
next
  case (Inr command)
  from assms(1) [unfolded launch_child_def Inr sum.case] show ?thesis
  proof (cases rule: next_sumE)
    case (Failed l1 t1 e l2)
    then show ?thesis
      using assms(2) harmlessD [OF harmless_parts(1) Failed(2), of u ident] by (auto simp: act_ok_eq is_ok_iff)
  next
    case (Worked l1 t1 pid l2)
    then have first: "l1 = [(t, ChildSpawned command)]" "t1 = Suc t" "lc_spawn lc t command = Inr pid"
      by (auto simp: act_ok_eq is_ok_iff)
    with Worked assms(2) have "(u, IdentitySet ident) \<in> set l2" by auto
    from supervise_arms [OF Worked(2) this] show ?thesis
      using first Worked(3) Inr
      by (intro exI [of _ command] exI [of _ pid] exI [of _ "Suc t1"] exI [of _ "Suc (Suc t1)"]) auto
  qed
qed

text \<open>The child that a session is armed for.\<close>

definition armed_child :: "host_os \<Rightarrow> session \<Rightarrow> admission \<Rightarrow> path \<Rightarrow> string list \<Rightarrow> spawn_command \<Rightarrow> bool" where
  "armed_child os session a hook args command =
     (\<exists>c. admission_configure_child a (executable_command (host_env os) (adm_executable a)) = Inr c \<and>
        armed_command session (hook_command_value OsLinux (path_text hook)) args c = Inr command)"

lemma start_arms:
  assumes "start_armed os tok sha lc installation args launcher dir a t = (l, t', r)" "(u, IdentitySet ident) \<in> set l"
  shows "\<exists>session command hook pid s w w'.
    lc_session lc t = Inr session \<and> armed_child os session a hook (arg_codex_args args) command \<and>
    (Suc t, BrokerStarted a (production_config a (installation_version installation) dir)) \<in> set l \<and>
    Suc t < s \<and> (s, ChildSpawned command) \<in> set l \<and> lc_spawn lc s command = Inr pid \<and>
    s < w \<and> current_process_identity (lc_reader lc) w pid = Inr ident \<and>
    w < w' \<and> admission_verify_process os tok sha a pid w' = (u, Inr ())"
  using assms(1) unfolding start_armed_def
proof (cases rule: orfailE)
  case (Failed e)
  then show ?thesis using assms(2) by (auto simp: act_ok_eq is_ok_iff)
next
  case (Worked l1 t1 session l2)
  then have first: "l1 = [(t, SessionCreated)]" "t1 = Suc t" "lc_session lc t = Inr session"
    by (auto simp: act_ok_eq is_ok_iff)
  from Worked(2) show ?thesis
  proof (cases rule: next_sumE)
    case (Failed l3 t3 e l4)
    then show ?thesis using assms(2) first Worked(3) by (auto simp: act_ok_eq fails_def act_eq and_next_eq done_with_eq is_ok_iff)
  next
    case second: (Worked l3 t3 x l4)
    then have l3: "l3 = [(Suc t, BrokerStarted a (production_config a (installation_version installation) dir))]"
        "t3 = Suc (Suc t)"
      using first by (auto simp: act_ok_eq is_ok_iff)
    show ?thesis
    proof (cases "admission_configure_child a (executable_command (host_env os) (adm_executable a))")
      case (Inl e)
      then show ?thesis using second Worked(3) first l3 assms(2)
        by (auto simp: fails_def act_eq and_next_eq done_with_eq)
    next
      case (Inr c)
      obtain hook where h: "launch_child os tok sha lc a (installation_version installation)
          (armed_command session (hook_command_value OsLinux (path_text hook)) (arg_codex_args args) c)
          (Suc t3) = (l4, t', r)"
        using second(2) unfolding Inr sum.case by (elim nextE) (auto simp: absolute_path_def ask_eq)
      have "(u, IdentitySet ident) \<in> set l4" using assms(2) Worked(3) first l3 second(3) by auto
      from launch_arms [OF h this] obtain command pid w w' where k:
          "armed_command session (hook_command_value OsLinux (path_text hook)) (arg_codex_args args) c = Inr command"
          "(Suc t3, ChildSpawned command) \<in> set l4" "lc_spawn lc (Suc t3) command = Inr pid" "Suc t3 < w"
          "current_process_identity (lc_reader lc) w pid = Inr ident" "w < w'"
          "admission_verify_process os tok sha a pid w' = (u, Inr ())"
        by blast
      have "armed_child os session a hook (arg_codex_args args) command"
        using Inr k(1) unfolding armed_child_def by blast
      then show ?thesis
        using first l3 Worked(3) second(3) k(2-)
        by (intro exI [of _ session] exI [of _ command] exI [of _ hook] exI [of _ pid] exI [of _ "Suc t3"]
            exI [of _ w] exI [of _ w'] conjI) auto
    qed
  qed
qed


text \<open>The one thing that is done without approvals, and what the run returns then: the status of the command.\<close>

definition ran_unarmed :: "host_os \<Rightarrow> launch_calls \<Rightarrow> installation \<Rightarrow> run_args \<Rightarrow> launch_action action_log \<Rightarrow>
    int outcome \<Rightarrow> bool" where
  "ran_unarmed os lc installation args l r =
     (\<exists>u. let command = unarmed_command (host_env os) installation (arg_codex_args args) in
        l = [(u, RanUnarmed command)] \<and>
        r = Some (case lc_status lc u command of Inl e \<Rightarrow> Inl (SpawnFails e) | Inr status \<Rightarrow> Inr (status_code status)))"

lemma unarmed_log: "launch_unarmed os lc installation args t = (l, t', r) \<Longrightarrow> ran_unarmed os lc installation args l r"
  by (auto simp: launch_unarmed_def ran_unarmed_def Let_def returns_def act_eq done_with_eq eq_commute [of "Inl _" "lc_status _ _ _"]
      eq_commute [of "Inr _" "lc_status _ _ _"] elim!: orfailE)

lemma quiet_parts:
  "codex_inspect os tok lc t = (l, t', r) \<Longrightarrow> l = []"
  "capability_of os lc installation launcher t = (l, t', c) \<Longrightarrow> l = []"
  "version_of lc path t = (l, t', v) \<Longrightarrow> l = []"
  by (rule acts_nothing [OF acts_parts(4)], assumption, rule acts_nothing [OF acts_parts(5)], assumption,
      rule acts_nothing [OF acts_parts(6)])

lemma admitted_cases:
  assumes "launch_admitted os tok sha lc installation args launcher dir a t = (l, t', r)"
  obtains (Nothing) e where "l = []" "r = Some (Inl e)"
    | (Unarmed) "ran_unarmed os lc installation args l r"
    | (Armed) t3 t4 where "t \<le> t3" "admission_recheck os tok sha a t3 = (t4, Inr ())"
        "start_armed os tok sha lc installation args launcher dir a t4 = (l, t', r)"
  using assms [unfolded launch_admitted_def]
proof (cases rule: nextE)
  case (1 l1 t1 capability l2)
  have l: "l = l2" using 1(1,3) quiet_parts(2) by simp
  have le: "t \<le> t1" using progressesD [OF progress_parts(5) 1(1)] by blast
  show ?thesis
  proof (cases "capable capability")
    case False
    then have "ran_unarmed os lc installation args l2 r"
      using 1(2) by (intro unarmed_log) simp
    then show ?thesis using Unarmed l by blast
  next
    case True
    from 1(2) [simplified True, simplified] show ?thesis
    proof (cases rule: next_sumE)
      case (Failed l3 t3 e l4)
      then have "l = l4" using l by (simp add: perform_eq)
      then show ?thesis using Unarmed unarmed_log [OF Failed(2)] by blast
    next
      case (Worked l3 t3 x l4)
      then have l4: "l = l4" and health: "check_execution_health os tok sha (lc_health lc) a t1 = (t3, Inr ())"
        using l by (simp_all add: perform_eq)
      have le3: "t1 \<le> t3" by (rule forwardD [OF forward_admission(4) health])
      from Worked(2) show ?thesis
      proof (cases rule: nextE)
        case (1 l5 t5 version l6)
        have l6: "l = l6" using 1(1,3) quiet_parts(3) l4 by simp
        have le5: "t3 \<le> t5" using progressesD [OF progress_parts(6) 1(1)] by blast
        show ?thesis
        proof (cases "version = Some (installation_version installation)")
          case False
          then have "ran_unarmed os lc installation args l6 r"
            using 1(2) by (intro unarmed_log) simp
          then show ?thesis using Unarmed l6 by blast
        next
          case True
          from 1(2) [simplified True, simplified] show ?thesis
          proof (cases rule: orfailE)
            case (Failed e)
            then show ?thesis using Nothing l6 by (simp add: perform_eq)
          next
            case (Worked l7 t7 x l8)
            then show ?thesis using Armed [of t5 t7] le le3 le5 l6 by (simp add: perform_eq)
          qed
        qed
      qed
    qed
  qed
qed

text \<open>A run either ends before it has done anything, or runs the child without approvals, or goes on with an
  admission that was given, and checked again, before.\<close>

lemma run_cases:
  assumes "run os tok sha lc args t = (l, t', r)"
  obtains (Nothing) e where "l = []" "r = Some (Inl e)"
    | (Unarmed) installation t1 where "codex_inspect os tok lc t = ([], t1, Inr installation)"
        "ran_unarmed os lc installation args l r"
    | (Armed) installation launcher dir a t1 t2 t3 t4 where
        "admission_inspect os tok sha installation (arg_sandbox_implementation args) (arg_sandbox_mode args)
           (arg_codex_args args) t1 = (t2, Inr a)"
        "t2 \<le> t3" "admission_recheck os tok sha a t3 = (t4, Inr ())"
        "start_armed os tok sha lc installation args launcher dir a t4 = (l, t', r)"
  using assms [unfolded run_def]
proof (cases rule: orfailE)
  case (Failed e)
  then show ?thesis using Nothing quiet_parts(1) by blast
next
  case inspected: (Worked l1 t1 installation l2)
  have l2: "l = l2" "l1 = []" using inspected(1,3) quiet_parts(1) by fastforce+
  have inspect: "codex_inspect os tok lc t = ([], t1, Inr installation)" using inspected(1) l2(2) by simp
  from inspected(2) show ?thesis
  proof (cases rule: orfailE)
    case (Failed e)
    then show ?thesis using Nothing l2(1) by (simp add: ask_eq)
  next
    case (Worked l3 t3 launcher l4)
    then have l4: "l = l4" using l2(1) by (simp add: ask_eq)
    from Worked(2) show ?thesis
    proof (cases rule: orfailE)
      case (Failed e)
      then show ?thesis using Nothing l4 by (simp add: ask_eq)
    next
      case (Worked l5 t5 dir l6)
      then have l6: "l = l6" using l4 by (simp add: ask_eq)
      from Worked(2) show ?thesis
      proof (cases rule: orfailE)
        case (Failed e)
        then show ?thesis using Nothing l6 by (simp add: done_with_eq)
      next
        case (Worked l7 t7 mode l8)
        then have l8: "l = l8" using l6 by (simp add: done_with_eq)
        from Worked(2) show ?thesis
        proof (cases rule: next_sumE)
          case (Failed l9 t9 e l10)
          then have "l = l10" using l8 by (simp add: perform_eq)
          then show ?thesis using Unarmed [OF inspect] unarmed_log [OF Failed(2)] by blast
        next
          case (Worked l9 t9 a l10)
          then have admitted: "admission_inspect os tok sha installation (arg_sandbox_implementation args)
              (arg_sandbox_mode args) (arg_codex_args args) t7 = (t9, Inr a)" and l10: "l = l10"
            using l8 by (simp_all add: perform_eq)
          show ?thesis
            by (rule admitted_cases [OF Worked(2) [folded l10]]) (use Nothing Unarmed [OF inspect] Armed admitted in blast)+
        qed
      qed
    qed
  qed
qed

end
