(* ===== verification/Verification_Safety.thy ===== *)
theory Verification_Safety
  imports Local_Verification Launcher_Runs
begin

text \<open>
  What every local verification satisfies: whatever was created is removed again on every path, and the success
  is reported only for the evidence of exactly one request.
\<close>

section \<open>What is kept\<close>

text \<open>What a verification has created, and has to end.  The processes of the group that the child leads are
  ended by the kill of the group alone; the child itself is also gone once it has been waited for.\<close>

datatype kept = KeptTemp temp_dir | KeptSession | KeptBroker | KeptGroup | KeptChild

text \<open>What was created and was not ended yet, and that of it which was tried to end at a moment when this failed.\<close>

type_synonym keeping = "kept set \<times> kept set"

definition keeps :: "kept set \<Rightarrow> keeping \<Rightarrow> keeping" where
  "keeps K s = (fst s \<union> K, snd s)"

definition ended :: "bool \<Rightarrow> kept \<Rightarrow> keeping \<Rightarrow> keeping" where
  "ended done k s = (fst s - {k}, if done then snd s - {k} else insert k (snd s))"

definition tree_at :: "child_calls \<Rightarrow> nat \<Rightarrow> tree_action \<Rightarrow> keeping \<Rightarrow> keeping" where
  "tree_at cc t f s =
     (case f of
        KillGroup \<Rightarrow> ended (cc_kill_group cc t \<noteq> GroupKillFails) KeptGroup s
      | TryWait \<Rightarrow> (case cc_try_wait cc t of Inl e \<Rightarrow> ended False KeptChild s | Inr None \<Rightarrow> s
          | Inr (Some status) \<Rightarrow> ended True KeptChild s)
      | KillChildAction \<Rightarrow> (if is_ok (cc_kill cc t) then s else ended False KeptChild s)
      | WaitChild \<Rightarrow> ended (is_ok (cc_wait cc t)) KeptChild s)"

fun keep_at :: "verification_calls \<Rightarrow> nat \<Rightarrow> verification_action \<Rightarrow> keeping \<Rightarrow> keeping" where
  "keep_at vc t (TempCreated d) s = keeps {KeptTemp d} s"
| "keep_at vc t (TempClosed d) s = ended (is_ok (vc_close vc t d)) (KeptTemp d) s"
| "keep_at vc t (TempDropped d) s = ended (is_ok (vc_drop vc t d)) (KeptTemp d) s"
| "keep_at vc t (Launching SessionCreated) s = keeps {KeptSession} s"
| "keep_at vc t (Launching SessionCleaned) s = ended (is_ok (lc_session_cleanup (vc_launch vc) t)) KeptSession s"
| "keep_at vc t (VerificationBroker config) s = keeps {KeptBroker} s"
| "keep_at vc t (Launching BrokerStopped) s = ended (is_ok (lc_broker_shutdown (vc_launch vc) t)) KeptBroker s"
| "keep_at vc t (TreeSpawned path command) s = keeps {KeptGroup, KeptChild} s"
| "keep_at vc t (Launching (TreeAction f)) s = tree_at (vc_child vc) t f s"
| "keep_at vc t (Launching ChildReaped) s = ended True KeptChild s"
| "keep_at vc t _ s = s"

section \<open>Cleaning up\<close>

text \<open>A cleanup tries to end certain things whatever fails, and if it succeeds it has ended them.\<close>

definition cleans :: "(nat \<Rightarrow> 'f \<Rightarrow> keeping \<Rightarrow> keeping) \<Rightarrow> kept set \<Rightarrow> ('f, ('e, unit) result) program \<Rightarrow> bool" where
  "cleans step K m = (\<forall>s. wp_at step m (\<lambda>r s'. fst s' = fst s - K \<and> (is_ok r \<longrightarrow> snd s' \<subseteq> snd s)) s)"

named_theorems cleans_intros "what a cleanup ends"

lemma wp_cleans:
  assumes "cleans step K m" "\<And>r stuck. (is_ok r \<Longrightarrow> stuck \<subseteq> snd s) \<Longrightarrow> Q r (fst s - K, stuck)"
  shows "wp_at step m Q s"
  by (rule wp_mono [OF assms(1) [unfolded cleans_def, rule_format]]) (metis assms(2) prod.collapse)

lemma is_ok_combine: "is_ok (combine_cleanup both r r') = (is_ok r \<and> is_ok r')"
  by (cases r; cases r') (simp_all add: combine_cleanup_def)

lemma cleans_combine:
  assumes "cleans step K first" "cleans step L second"
  shows "cleans step (K \<union> L) (and_next first (\<lambda>r. and_next second (\<lambda>r'. done_with (combine_cleanup both r r'))))"
  unfolding cleans_def
  by (intro allI wp_next, rule wp_cleans [OF assms(1)], rule wp_next, rule wp_cleans [OF assms(2)], rule wp_done)
    (auto simp: is_ok_combine)

lemma cleans_both [cleans_intros]:
  "\<lbrakk>cleans step K first; cleans step L second\<rbrakk> \<Longrightarrow> cleans step (K \<union> L) (both_cleanups first second)"
  unfolding both_cleanups_def by (rule cleans_combine)

lemma cleans_relabel [cleans_intros]:
  assumes "cleans (\<lambda>t f. step t (action f)) K m" "\<And>r. is_ok (res r) = is_ok r"
  shows "cleans step K (relabel action res m)"
  unfolding cleans_def by (intro allI wp_relabel, rule wp_cleans [OF assms(1)]) (simp add: assms(2))

lemma cleans_act:
  assumes "\<And>t s. step t f s = ended (is_ok (g t)) k s" "\<And>r. is_ok (res r) = is_ok r"
  shows "cleans step {k} (and_next (act f g) (\<lambda>r. done_with (res r)))"
  unfolding cleans_def by (intro allI wp_intros) (auto simp: assms ended_def)

lemma is_ok_map_err [simp]: "is_ok (map_err f r) = is_ok r"
  by (cases r) simp_all

lemma cleans_one [cleans_intros]:
  "cleans (keep_at vc) {KeptTemp d} (close_temp vc d)" "cleans (keep_at vc) {KeptSession} (session_cleanup vc)"
  "cleans (keep_at vc) {KeptBroker} (broker_shutdown vc)"
  unfolding close_temp_def session_cleanup_def broker_shutdown_def by (rule cleans_act; simp)+

abbreviation state_dirs :: "kept set" where
  "state_dirs \<equiv> {KeptTemp Repository, KeptTemp Evidence, KeptTemp CodexHome}"

lemma cleans_equal: "\<lbrakk>cleans step K m; K = L\<rbrakk> \<Longrightarrow> cleans step L m"
  by simp

lemma cleans_state [cleans_intros]:
  "cleans (keep_at vc) state_dirs (close_temp_dirs vc)"
  "cleans (keep_at vc) (insert KeptSession state_dirs) (cleanup_verification_state vc)"
  "cleans (keep_at vc) (insert KeptBroker (insert KeptSession state_dirs)) (cleanup_bound_verification vc)"
proof -
  show dirs: "cleans (keep_at vc) state_dirs (close_temp_dirs vc)"
    unfolding close_temp_dirs_def by (rule cleans_equal, rule cleans_both, rule cleans_both) (rule cleans_one, rule cleans_one, rule cleans_one, auto)
  show state: "cleans (keep_at vc) (insert KeptSession state_dirs) (cleanup_verification_state vc)"
    unfolding cleanup_verification_state_def by (rule cleans_equal, rule cleans_both, rule cleans_one, rule dirs) auto
  show "cleans (keep_at vc) (insert KeptBroker (insert KeptSession state_dirs)) (cleanup_bound_verification vc)"
    unfolding cleanup_bound_verification_def by (rule cleans_equal, rule cleans_both, rule cleans_both, rule cleans_one, rule cleans_one, rule dirs) auto
qed

text \<open>Stopping the tree kills the group on every path, as long as the child has a number.\<close>

lemma cleans_tree_stop: "pid \<noteq> 0 \<Longrightarrow> cleans (tree_at cc) {KeptGroup} (tree_stop cc pid)"
  unfolding cleans_def tree_stop_def
  by (auto intro!: wp_intros simp: tree_at_def ended_def split: group_kill.splits)

lemma cleans_tree_wait: "cleans (tree_at cc) {KeptChild} (tree_wait cc)"
  unfolding cleans_def tree_wait_def
  by (auto intro!: wp_intros simp: tree_at_def ended_def is_ok_iff split: sum.splits)

lemma cleans_tree_reap: "cleans (tree_at cc) {KeptChild} (tree_reap cc)"
  unfolding cleans_def tree_reap_def tree_wait_def
  by (auto intro!: wp_intros simp: tree_at_def ended_def is_ok_iff split: sum.splits option.splits)

lemma cleans_stop_and_reap:
  "pid \<noteq> 0 \<Longrightarrow> cleans (tree_at cc) {KeptGroup, KeptChild} (stop_and_reap cc pid)"
  unfolding stop_and_reap_def
  by (rule cleans_equal, rule cleans_combine, rule cleans_tree_stop, assumption, rule cleans_tree_reap) auto

lemma tree_part: "(\<lambda>t f. keep_at vc t (Launching (TreeAction f))) = tree_at (vc_child vc)"
  by (simp add: fun_eq_iff)

lemma cleans_child [cleans_intros]:
  assumes "pid \<noteq> 0"
  shows "cleans (keep_at vc) {KeptGroup, KeptChild, KeptBroker, KeptSession, KeptTemp Repository, KeptTemp Evidence,
    KeptTemp CodexHome} (cleanup_child_then_verification vc pid)"
proof -
  have tree: "cleans (keep_at vc) {KeptGroup, KeptChild}
      (relabel (\<lambda>f. Launching (TreeAction f)) (map_err TreeCleanup) (stop_and_reap (vc_child vc) pid))"
    by (rule cleans_relabel) (simp_all add: tree_part cleans_stop_and_reap [OF assms])
  show ?thesis
    unfolding cleanup_child_then_verification_def
    by (rule cleans_equal, rule cleans_both [OF tree cleans_state(3)]) auto
qed

lemma wp_after:
  assumes "cleans step K cleanup" "\<And>e stuck. Q (Inl e) (fst s - K, stuck)"
  shows "wp_at step (after_cleanup error cleanup) Q s"
  unfolding after_cleanup_def by (rule wp_next, rule wp_cleans [OF assms(1)], rule wp_done, rule assms(2))

lemma wp_settle: "wp_at step m (\<lambda>r. Q (Some r)) s \<Longrightarrow> wp_at step (settle m) Q s"
  unfolding settle_def by (intro wp_next) (erule wp_mono, rule wp_done)

lemma wp_wait:
  assumes "pid \<noteq> 0" "Q None s" "\<And>e stuck. Q (Some (Inl e)) (fst s - {KeptGroup, KeptChild}, stuck)"
    "\<And>status. Q (Some (Inr status)) (fst s - {KeptChild}, snd s - {KeptChild})"
  shows "wp_at (\<lambda>t f. keep_at vc t (Launching f))
    (wait_for_bound_child rs (Some (relabel TreeAction (map_err TreeFails) (stop_and_reap (vc_child vc) pid)))) Q s"
proof (induction rs)
  case Nil
  then show ?case using assms(2) by (auto intro!: wp_intros)
next
  case (Cons r rs)
  have stop: "cleans (\<lambda>t f. keep_at vc t (Launching f)) {KeptGroup, KeptChild}
      (relabel TreeAction (map_err TreeFails) (stop_and_reap (vc_child vc) pid))"
    by (rule cleans_relabel) (simp_all add: tree_part cleans_stop_and_reap [OF assms(1)])
  show ?case
    using Cons.IH assms(3,4)
    by (cases "wr_interrupted r"; cases "wr_expired r"; cases "wr_status r")
      (auto intro!: wp_next wp_act wp_done wp_cleans [OF stop] wp_fails wp_returns simp: ended_def split: option.splits)
qed


section \<open>Creating\<close>

lemma wp_private_tempdir:
  assumes "KeptTemp d \<notin> fst s" "\<And>e stuck. Q (Inl e) (fst s, stuck)" "\<And>path. Q (Inr path) (insert (KeptTemp d) (fst s), snd s)"
  shows "wp_at (keep_at vc) (private_verification_tempdir os vc d) Q s"
  unfolding private_verification_tempdir_def drop_temp_def
  using assms assms(2) [of _ "snd s"] by (auto intro!: wp_intros wp_sum simp: keeps_def ended_def)

lemma wp_git [wp_intros]:
  "(\<And>r. Q r s) \<Longrightarrow> wp_at (keep_at vc') (run_git os vc path args) Q s"
  "(\<And>r. Q' r s) \<Longrightarrow> wp_at (keep_at vc') (temporary_repository_status os vc path) Q' s"
  "(\<And>r. Q'' r s) \<Longrightarrow> wp_at (keep_at vc') (verify_clean_baseline os vc path) Q'' s"
  by (auto simp: run_git_def temporary_repository_status_def verify_clean_baseline_def Let_def intro!: wp_intros)

lemma wp_initialize [wp_intros]:
  "(\<And>r. Q r s) \<Longrightarrow> wp_at (keep_at vc') (initialize_temporary_repository os vc path) Q s"
  by (auto simp: initialize_temporary_repository_def Let_def intro!: wp_intros)

lemma wp_state_new:
  assumes "\<And>e stuck. Q (Inl e) ({}, stuck)" "\<And>x. Q (Inr x) (state_dirs, {})"
  shows "wp_at (keep_at vc) (verification_state_new os vc) Q ({}, {})"
proof -
  note cleanups = wp_after [OF cleans_one(1)] wp_after [OF cleans_both [OF cleans_one(1) cleans_one(1)]]
    wp_after [OF cleans_state(1)]
  show ?thesis
    unfolding verification_state_new_def
    using assms by (auto intro!: wp_intros wp_sum wp_private_tempdir cleanups simp: insert_commute insert_Diff_if)
qed

lemma wp_stage: "(\<And>r. Q r s) \<Longrightarrow> wp_at (keep_at vc') (stage_verification_auth os sha vc source home) Q s"
  by (auto simp: stage_verification_auth_def Let_def intro!: wp_intros)

lemma wp_retain:
  assumes "KeptTemp Diagnostic \<notin> fst s" "\<And>e stuck. Q (Inl e) (fst s, stuck)"
    "\<And>path. Q (Inr path) (insert (KeptTemp Diagnostic) (fst s), snd s)"
  shows "wp_at (keep_at vc) (retain_diagnostic vc sha report) Q s"
  unfolding retain_diagnostic_def drop_temp_def
  using assms assms(2) [of _ "snd s"] by (auto simp: keeps_def ended_def intro!: wp_intros wp_sum)

lemma wp_evidence [wp_intros]: "(\<And>r. Q r s) \<Longrightarrow> wp_at (keep_at vc') (read_evidence vc target command) Q s"
  by (auto simp: read_evidence_def Let_def intro!: wp_intros)

section \<open>Nothing is left behind\<close>

definition nothing_left :: "bool \<Rightarrow> (local_error, int) result \<Rightarrow> keeping \<Rightarrow> bool" where
  "nothing_left retain r s = (fst s \<subseteq> (if retain then {KeptTemp Diagnostic} else {}) \<and> (is_ok r \<longrightarrow> snd s = {}))"

abbreviation nothing_left_after :: "bool \<Rightarrow> int verified \<Rightarrow> keeping \<Rightarrow> bool" where
  "nothing_left_after retain r s \<equiv> (\<forall>x. r = Some x \<longrightarrow> nothing_left retain x s)"

lemma nothing_left_Inl [simp]: "fst s = {} \<Longrightarrow> nothing_left retain (Inl e) s"
  by (simp add: nothing_left_def)

abbreviation ready :: "kept set" where
  "ready \<equiv> insert KeptSession state_dirs"

lemma wp_judge:
  "wp_at (keep_at vc) (judge os sha vc retain target command repository clean observed status) (nothing_left retain) (ready, {})"
proof -
  have failed: "wp_at (keep_at vc) (cleanup_verification_state vc)
      (\<lambda>r. wp_at (keep_at vc) (done_with (Inl (f r))) (nothing_left b)) (ready, stuck)" for f stuck b
    by (rule wp_cleans [OF cleans_state(2)], rule wp_done) simp
  have judged: "wp_at (keep_at vc) (cleanup_verification_state vc)
      (\<lambda>r. wp_at (keep_at vc) (done_with (and_then r f)) (nothing_left b)) (K, {})"
    if "K - ready \<subseteq> (if b then {KeptTemp Diagnostic} else {})" for f K b
    by (rule wp_cleans [OF cleans_state(2)], rule wp_done)
      (use that in \<open>auto simp: nothing_left_def and_then_Inr is_ok_iff\<close>)
  show ?thesis
    unfolding judge_def
    by (auto intro!: wp_intros wp_sum wp_retain wp_after [OF cleans_state(2)] failed judged)
qed

lemma wp_finish:
  assumes "pid \<noteq> 0"
  shows "wp_at (keep_at vc) (finish_verification os sha vc retain target command witness repository pid status)
    (nothing_left_after retain) (insert KeptGroup (insert KeptBroker ready), {})"
proof -
  have group: "cleans (keep_at vc) {KeptGroup} (relabel (\<lambda>f. Launching (TreeAction f)) (\<lambda>x. x) (tree_stop (vc_child vc) pid))"
    by (rule cleans_relabel) (simp_all add: tree_part cleans_tree_stop [OF assms])
  have judge: "wp_at (keep_at vc) (settle (judge os sha vc retain target command repository clean observed status))
      (nothing_left_after retain) (ready, {})" for clean observed
    by (rule wp_settle, rule wp_mono [OF wp_judge]) simp
  have bound: "wp_at (keep_at vc) (settle (after_cleanup error (cleanup_bound_verification vc))) (nothing_left_after retain)
      (insert KeptBroker ready, stuck)" for error stuck
    by (rule wp_settle, rule wp_after [OF cleans_state(3)]) auto
  have state: "wp_at (keep_at vc) (settle (after_cleanup error (cleanup_verification_state vc))) (nothing_left_after retain)
      (ready, stuck)" for error stuck
    by (rule wp_settle, rule wp_after [OF cleans_state(2)]) auto
  show ?thesis
    unfolding finish_verification_def
    by (rule wp_next, rule wp_cleans [OF group])
      (auto intro!: wp_next wp_act wp_sum wp_cleans [OF cleans_one(3)] wp_done bound state judge
        simp: insert_Diff_if split: option.splits sum.splits)
qed

lemma wp_supervise:
  assumes "pid \<noteq> 0"
  shows "wp_at (keep_at vc) (supervise_verification os sha vc retain target command witness repository pid)
    (nothing_left_after retain) (insert KeptGroup (insert KeptChild (insert KeptBroker ready)), {})"
proof -
  have child: "wp_at (keep_at vc) (settle (after_cleanup error (cleanup_child_then_verification vc pid))) (nothing_left_after retain)
      (insert KeptGroup (insert KeptChild (insert KeptBroker ready)), {})" for error
    by (rule wp_settle, rule wp_after [OF cleans_child [OF assms]]) auto
  have bound: "wp_at (keep_at vc) (settle (after_cleanup error (cleanup_bound_verification vc))) (nothing_left_after retain)
      (insert KeptBroker ready, stuck)" for error stuck
    by (rule wp_settle, rule wp_after [OF cleans_state(3)]) auto
  show ?thesis
    unfolding supervise_verification_def Let_def
    by (auto intro!: wp_next wp_ask wp_act_ok wp_done wp_relabel wp_wait [OF assms] wp_sum child bound wp_finish [OF assms]
        simp: insert_Diff_if split: option.splits sum.splits)
qed

lemma wp_start:
  assumes "\<And>t path command. vc_spawn_tree vc t path command \<noteq> Inr 0"
  shows "wp_at (keep_at vc) (start_verification os sha vc retain installation target command witness launcher state session)
    (nothing_left_after retain) (ready, {})"
proof -
  have child: "wp_at (keep_at vc) (supervise_verification os sha vc retain target command witness repository pid)
      (nothing_left_after retain) (insert KeptGroup (insert KeptChild (insert KeptBroker ready)), {})"
    if "vc_spawn_tree vc t path c = Inr pid" for t path c pid repository
    by (rule wp_supervise) (use that assms in auto)
  have bound: "wp_at (keep_at vc) (settle (after_cleanup error (cleanup_bound_verification vc))) (nothing_left_after retain)
      (insert KeptBroker ready, stuck)" for error stuck
    by (rule wp_settle, rule wp_after [OF cleans_state(3)]) auto
  have state: "wp_at (keep_at vc) (settle (after_cleanup error (cleanup_verification_state vc))) (nothing_left_after retain)
      (ready, stuck)" for error stuck
    by (rule wp_settle, rule wp_after [OF cleans_state(2)]) auto
  show ?thesis
    unfolding start_verification_def absolute_path_def
    by (auto intro!: wp_intros wp_sum bound state child simp: keeps_def)
qed

lemma wp_prepare:
  assumes "\<And>t path command. vc_spawn_tree vc t path command \<noteq> Inr 0"
  shows "wp_at (keep_at vc) (prepare_verification os sha vc retain source installation target command witness launcher)
    (nothing_left_after retain) ({}, {})"
proof -
  have dirs: "wp_at (keep_at vc) (settle (after_cleanup error (close_temp_dirs vc))) (nothing_left_after retain)
      (state_dirs, stuck)" for error stuck
    by (rule wp_settle, rule wp_after [OF cleans_state(1)]) auto
  show ?thesis
    unfolding prepare_verification_def
    by (auto intro!: wp_intros wp_sum wp_state_new wp_stage wp_start [OF assms] dirs simp: keeps_def)
qed

lemma quiet_preflight: "acts_only {} (verification_preflight os tok vc auth_home diagnostic_dir)"
  using acts_parts(4) [of os tok "vc_launch vc"]
  by (auto simp: verification_preflight_def preflight_target_def intro!: acts_intros split: option.splits prod.splits)

lemma wp_preflight: "(\<And>r. Q r s) \<Longrightarrow> wp_at step (verification_preflight os tok vc auth_home diagnostic_dir) Q s"
  by (rule wp_idle [OF quiet_preflight]) simp_all

lemma wp_version: "(\<And>r. Q r s) \<Longrightarrow> wp_at step (version_of lc path) Q s"
  by (rule wp_idle [OF acts_parts(6)]) simp_all

text \<open>C11: a verification that ends has tried to kill the process group of the child, to reap the child, to stop the broker and
  to remove the session and the three temporary directories, on every path and whatever fails on the way; only a
  diagnostic directory is kept where one was asked for.  When it ends without an error then none of this has failed: the
  group was killed or had no process left, the child was reaped, the thread of the broker has ended, and the session and the
  directories are gone.\<close>

theorem verification_leaves_nothing:
  assumes "\<And>t path command. vc_spawn_tree vc t path command \<noteq> Inr 0"
    and "verify_local_hook os tok sha vc auth_home diagnostic_dir t = (l, t', Some r)"
  shows "case replay_at (keep_at vc) l ({}, {}) of (kept, stuck) \<Rightarrow>
    kept \<subseteq> (if diagnostic_dir = None then {} else {KeptTemp Diagnostic}) \<and> (\<forall>code. r = Inr code \<longrightarrow> stuck = {})"
proof -
  have "wp_at (keep_at vc) (verify_local_hook os tok sha vc auth_home diagnostic_dir)
      (nothing_left_after (diagnostic_dir \<noteq> None)) ({}, {})"
    unfolding verify_local_hook_def
    by (auto intro!: wp_intros wp_preflight wp_version wp_prepare [OF assms(1), simplified] split: option.splits sum.splits)
  from wpD [OF this assms(2)] show ?thesis
    by (auto simp: nothing_left_def case_prod_beta is_ok_iff split: if_splits)
qed

section \<open>What success means\<close>

lemma utf8_lossy_empty: "(utf8_lossy s = []) = (s = [])"
  by (cases s) (auto simp: utf8_lossy.simps REPLACEMENT_def split: list.splits)

lemma text_lines_empty: "(text_lines s = []) = (s = [])"
proof
  assume "text_lines s = []"
  then have "split_on (CHR 0x0A) s = [[]]"
    by (cases "split_on (CHR 0x0A) s") (auto simp: text_lines_def Let_def split: if_splits)
  then show "s = []" using join_split [of "CHR 0x0A" s] by simp
qed (simp add: text_lines_def)

text \<open>The repository is clean when the listing of git, with untracked and ignored files, is empty.\<close>

definition git_clean :: "host_os \<Rightarrow> verification_calls \<Rightarrow> path \<Rightarrow> nat \<Rightarrow> bool" where
  "git_clean os vc path u =
     (vc_git_output vc u (git_command (host_env os) path
        [''status'', ''--porcelain=v1'', ''--untracked-files=all'', ''--ignored'']) = Inr (Exited 0, []))"

lemma status_Inr:
  assumes "temporary_repository_status os vc path t = (l, t', Inr st)"
  shows "t' = Suc t \<and> (repository_is_clean st \<longrightarrow> git_clean os vc path t)"
  using assms
  by (auto simp: temporary_repository_status_def Let_def program_simps git_clean_def repository_is_clean_def
      text_lines_empty utf8_lossy_empty status_success_def split: if_splits prod.splits)

definition one_request :: "verification_calls \<Rightarrow> verification_target \<Rightarrow> string \<Rightarrow> nat \<Rightarrow> nat \<Rightarrow> bool" where
  "one_request vc target command t t' =
     (let tool = target_observed_tool_type target; input = JObject [(''command'', JString command)] in
      \<exists>u. t \<le> u \<and> u + 5 \<le> t' \<and>
        broker_attempt_count (vc_audit vc u) = Inr 1 \<and> invocation_count (vc_audit vc (u + 1)) = Inr 1 \<and>
        allow_record_count (vc_audit vc (u + 2)) = Inr 1 \<and>
        exact_request_count (vc_crypto vc) (vc_audit vc (u + 3)) tool input = Inr 1 \<and>
        emitted_allow_count (vc_crypto vc) (vc_audit vc (u + 4)) tool input = Inr 1)"

lemma verdict_Inr:
  "(verdict clean ev observed post status = Inr n) =
     (n = 0 \<and> clean \<and> ev_attempts ev = 1 \<and> ev_invocations ev = 1 \<and> ev_exact ev = 1 \<and> ev_allows ev = 1 \<and>
      ev_emitted ev = 1 \<and> exact_head_requests observed = 1 \<and> unexpected_requests observed = 0 \<and>
      repository_is_clean post \<and> status_success status)"
  by (auto simp: verdict_def)

lemma evidence_Inr:
  assumes "read_evidence vc target command t = (l, t', Inr ev)"
    "ev_attempts ev = 1" "ev_invocations ev = 1" "ev_exact ev = 1" "ev_allows ev = 1" "ev_emitted ev = 1"
  shows "one_request vc target command t t' \<and> t' = t + 5"
proof -
  let ?input = "JObject [(''command'', JString command)]"
  from assms(1) have "broker_attempt_count (vc_audit vc t) = Inr (ev_attempts ev) \<and>
      invocation_count (vc_audit vc (t + 1)) = Inr (ev_invocations ev) \<and>
      allow_record_count (vc_audit vc (t + 2)) = Inr (ev_allows ev) \<and>
      exact_request_count (vc_crypto vc) (vc_audit vc (t + 3)) (target_observed_tool_type target) ?input = Inr (ev_exact ev) \<and>
      emitted_allow_count (vc_crypto vc) (vc_audit vc (t + 4)) (target_observed_tool_type target) ?input = Inr (ev_emitted ev) \<and>
      t' = t + 5"
    by (auto simp: read_evidence_def Let_def program_simps numeral_eq_Suc)
  then show ?thesis using assms(2-) unfolding one_request_def Let_def by auto
qed

text \<open>The parts that go forward in time.\<close>

lemma progress_cleanups [progress_intros]:
  "progresses (close_temp vc d)" "\<lbrakk>progresses m; progresses n\<rbrakk> \<Longrightarrow> progresses (both_cleanups m n)"
  by (auto simp: close_temp_def both_cleanups_def intro!: progress_intros)

lemma progress_cleanup_state [progress_intros]:
  "progresses (close_temp_dirs vc)" "progresses (session_cleanup vc)" "progresses (cleanup_verification_state vc)"
  by (auto simp: close_temp_dirs_def session_cleanup_def cleanup_verification_state_def intro!: progress_intros)

lemma progress_drop_temp [progress_intros]: "progresses (drop_temp vc d)"
  unfolding drop_temp_def by (rule progress_basic)

lemma progress_retain [progress_intros]: "progresses (retain_diagnostic vc sha report)"
  by (auto simp: retain_diagnostic_def intro!: progress_intros split: sum.splits)

lemma after_cleanup_fails: "after_cleanup e c t \<noteq> (l, t', Inr n)"
  by (auto simp: after_cleanup_def program_simps)

lemma one_request_mono: "\<lbrakk>one_request vc target command t t1; t1 \<le> t'\<rbrakk> \<Longrightarrow> one_request vc target command t t'"
  unfolding one_request_def Let_def by (elim exE conjE, rule_tac x = u in exI) simp

lemma judged_value:
  "(case retained of Some (Inl e) \<Rightarrow> Inl (err e) | _ \<Rightarrow> and_then cleanup (\<lambda>_. v)) = Inr n \<Longrightarrow> cleanup = Inr () \<and> v = Inr n"
  by (cases cleanup) (auto split: option.splits sum.splits)

lemma judge_Inr:
  assumes "judge os sha vc retain target command repository clean observed status t = (l, t', Inr n)"
  shows "n = 0 \<and> one_request vc target command t t' \<and> exact_head_requests observed = 1 \<and>
    unexpected_requests observed = 0 \<and> status = Exited 0 \<and> (\<exists>u. t \<le> u \<and> u < t' \<and> git_clean os vc repository u) \<and>
    (\<exists>l1 u u'. cleanup_verification_state vc u = (l1, u', Inr ()) \<and> t \<le> u)"
  using assms unfolding judge_def
proof (cases rule: next_sumE)
  case (Failed l1 t1 e l2)
  then show ?thesis by (simp add: after_cleanup_fails)
next
  case ev: (Worked l1 t1 ev l2)
  from ev(2) show ?thesis
  proof (cases rule: next_sumE)
    case (Failed l1 t1 e l2)
    then show ?thesis by (simp add: after_cleanup_fails)
  next
    case post: (Worked l3 t3 post l4)
    define m where "m =
      (if retain
       then and_next (retain_diagnostic vc sha (report_of (target_version target) sha command status clean
              (repository_is_clean post) ev observed)) (\<lambda>r. done_with (Some r))
       else done_with None)"
    from post(2) obtain l5 t5 retained l6 where r: "m t3 = (l5, t5, retained)"
        "and_next (cleanup_verification_state vc) (\<lambda>cleanup. done_with
           (case retained of Some (Inl e) \<Rightarrow> Inl (with_cleanup_error VerificationCleanup e cleanup)
            | _ \<Rightarrow> and_then cleanup (\<lambda>_. verdict clean ev observed post status))) t5 = (l6, t', Inr n)" "l4 = l5 @ l6"
      unfolding m_def [symmetric] by (rule nextE)
    from r(2) obtain l7 t7 cleanup l8 where c: "cleanup_verification_state vc t5 = (l7, t7, cleanup)"
        "done_with (case retained of Some (Inl e) \<Rightarrow> Inl (with_cleanup_error VerificationCleanup e cleanup)
          | _ \<Rightarrow> and_then cleanup (\<lambda>_. verdict clean ev observed post status)) t7 = (l8, t', Inr n)" "l6 = l7 @ l8"
      by (rule nextE)
    have "t' = t7" and "(case retained of Some (Inl e) \<Rightarrow> Inl (with_cleanup_error VerificationCleanup e cleanup)
          | _ \<Rightarrow> and_then cleanup (\<lambda>_. verdict clean ev observed post status)) = Inr n"
      using c(2) unfolding done_with_eq by simp_all
    from judged_value [OF this(2)] have "cleanup = Inr ()" and verdict: "verdict clean ev observed post status = Inr n"
      by simp_all
    have "progresses m" unfolding m_def by (intro progress_intros)
    from progressesD [OF this r(1)] have "t3 \<le> t5" by (rule conjunct1)
    moreover have "t5 \<le> t'" unfolding \<open>t' = t7\<close> by (rule conjunct1 [OF progressesD [OF progress_cleanup_state(3) c(1)]])
    moreover have "t3 = t1 + 1" "repository_is_clean post \<longrightarrow> git_clean os vc repository t1"
      using status_Inr [OF post(1)] by simp_all
    moreover have request: "one_request vc target command t t1 \<and> t1 = t + 5"
      using evidence_Inr [OF ev(1)] verdict [unfolded verdict_Inr] by blast
    ultimately have times: "t \<le> t5" "t1 \<le> t'" "t \<le> t1" "t1 < t'" by simp_all
    from request times(2) have "one_request vc target command t t'"
      using one_request_mono by blast
    moreover have "git_clean os vc repository t1"
      using \<open>repository_is_clean post \<longrightarrow> _\<close> verdict by (simp add: verdict_Inr)
    then have "\<exists>u. t \<le> u \<and> u < t' \<and> git_clean os vc repository u" using times(3,4) by blast
    moreover have "cleanup_verification_state vc t5 = (l7, t7, Inr ())" using c(1) \<open>cleanup = Inr ()\<close> by simp
    then have "\<exists>l1 u u'. cleanup_verification_state vc u = (l1, u', Inr ()) \<and> t \<le> u" using times(1) by blast
    moreover have "n = 0" "exact_head_requests observed = 1" "unexpected_requests observed = 0" "status = Exited 0"
      using verdict by (simp_all add: verdict_Inr status_success_def)
    ultimately show ?thesis by simp
  qed
qed


definition removed :: "verification_calls \<Rightarrow> nat \<Rightarrow> bool" where
  "removed vc u =
     (lc_session_cleanup (vc_launch vc) u = Inr () \<and> vc_close vc (u + 1) Repository = Inr () \<and>
      vc_close vc (u + 2) Evidence = Inr () \<and> vc_close vc (u + 3) CodexHome = Inr ())"

lemma map_err_ok: "(map_err f r = Inr x) = (r = Inr x)" "(Inr x = map_err f r) = (r = Inr x)"
  by (cases r; auto)+

lemma cleanup_flip: "(Inr () = combine_cleanup both first second) = (first = Inr () \<and> second = Inr ())"
  using combine_cleanup_Inr by metis

lemma cleanup_ok: "cleanup_verification_state vc u = (l, u', Inr ()) \<Longrightarrow> removed vc u"
  by (auto simp: cleanup_verification_state_def session_cleanup_def close_temp_dirs_def both_cleanups_def close_temp_def
      program_simps cleanup_flip combine_cleanup_Inr removed_def map_err_ok numeral_eq_Suc)

lemma settle_Inr: "settle m t = (l, t', Some (Inr n)) \<Longrightarrow> m t = (l, t', Inr n)"
  by (auto simp: settle_def program_simps)

lemma settled_after: "settle (after_cleanup e c) t \<noteq> (l, t', Some (Inr n))"
  using settle_Inr after_cleanup_fails by metis

lemma wait_status:
  "wait_for_bound_child rs v t = (l, t', Some (Inr status)) \<Longrightarrow> \<exists>r \<in> set rs. wr_status r = Inr (Some status)"
proof (induction rs arbitrary: t l)
  case (Cons r rs)
  then show ?case
    by (cases "wr_interrupted r"; cases "wr_expired r"; cases "wr_status r"; cases v)
      (auto simp: program_simps fails_def returns_def split: option.splits)
qed (auto simp: program_simps)

text \<open>What a supervised child leads to if the verification succeeds.\<close>

definition supervised :: "host_os \<Rightarrow> verification_calls \<Rightarrow> verification_target \<Rightarrow> string \<Rightarrow> string \<Rightarrow> path \<Rightarrow> u32 \<Rightarrow> nat \<Rightarrow>
    verification_action action_log \<Rightarrow> nat \<Rightarrow> bool" where
  "supervised os vc target command witness repository pid s l t' =
     (\<exists>identity b u. current_process_identity (lc_reader (vc_launch vc)) s pid = Inr identity \<and>
        (Suc s, Launching (IdentitySet identity)) \<in> set l \<and>
        (\<exists>r \<in> set (lc_rounds (vc_launch vc)). wr_status r = Inr (Some (Exited 0))) \<and>
        s < b \<and> (b, Launching BrokerStopped) \<in> set l \<and> lc_broker_shutdown (vc_launch vc) b = Inr () \<and>
        one_request vc target command b t' \<and>
        observe_requests witness \<lparr>exact_head_requests = 0, unexpected_requests = 0\<rparr> (vc_witness vc) =
          Some (Inr \<lparr>exact_head_requests = 1, unexpected_requests = 0\<rparr>) \<and>
        b < u \<and> git_clean os vc repository u \<and> (\<exists>w > b. removed vc w))"

lemma observed_counts: "exact_head_requests (c :: observation_counts) = 1 \<Longrightarrow> unexpected_requests c = 0 \<Longrightarrow>
    c = \<lparr>exact_head_requests = 1, unexpected_requests = 0\<rparr>"
  by simp


lemma progress_stop_tree [progress_intros]: "progresses (tree_stop cc pid)" "progresses (stop_and_reap cc pid)"
  by (auto simp: tree_stop_def stop_and_reap_def tree_reap_def tree_wait_def intro!: progress_intros split: sum.splits option.splits)

lemma progress_wait_any: "progresses stop \<Longrightarrow> progresses (wait_for_bound_child rs (Some stop))"
proof (induction rs)
  case (Cons r rs)
  then show ?case
    by (cases "wr_interrupted r"; cases "wr_expired r"; cases "wr_status r")
      (auto simp: fails_def returns_def intro!: progress_intros split: option.splits)
qed (auto intro!: progress_intros)

lemma act_next: "(and_next (act f g) k t = (l, t', y)) = (\<exists>l2. k (g t) (Suc t) = (l2, t', y) \<and> l = (t, f) # l2)"
  by (auto simp: and_next_eq act_eq)

text \<open>A step of a verification that succeeds.\<close>

lemma next_settledE:
  assumes "and_next m (\<lambda>r. case r of Inl e \<Rightarrow> settle (after_cleanup (f e) (c e)) | Inr x \<Rightarrow> g x) t = (l, t', Some (Inr n))"
  obtains l1 t1 x l2 where "m t = (l1, t1, Inr x)" "g x t1 = (l2, t', Some (Inr n))" "l = l1 @ l2"
  using assms by (cases rule: next_sumE) (simp_all add: settled_after)

lemma finish_Inr:
  assumes "finish_verification os sha vc retain target command witness repository pid status t = (l, t', Some (Inr n))"
  shows "n = 0 \<and> status = Exited 0 \<and>
    (\<exists>b u. t < b \<and> (b, Launching BrokerStopped) \<in> set l \<and> lc_broker_shutdown (vc_launch vc) b = Inr () \<and>
       one_request vc target command b t' \<and>
       observe_requests witness \<lparr>exact_head_requests = 0, unexpected_requests = 0\<rparr> (vc_witness vc) =
         Some (Inr \<lparr>exact_head_requests = 1, unexpected_requests = 0\<rparr>) \<and>
       b < u \<and> git_clean os vc repository u \<and> (\<exists>w > b. removed vc w))"
  using assms [unfolded finish_verification_def]
proof (cases rule: next_settledE)
  case (1 l1 t1 x l2)
  have "progresses (relabel (\<lambda>f. Launching (TreeAction f)) (\<lambda>x. x) (tree_stop (vc_child vc) pid) :: (tree_error, unit) result verification)"
    by (intro progress_relabel progress_stop_tree)
  from progressesD [OF this 1(1)] have "t \<le> t1" by (rule conjunct1)
  from 1(2) obtain t3 l4 where accept: "t3 = Suc t1" "l2 = (t1, Launching AcceptingStopped) # l4" and
      stopped: "and_next (broker_shutdown vc) (\<lambda>r.
        case r of Inl e \<Rightarrow> settle (after_cleanup e (cleanup_verification_state vc)) | Inr _ \<Rightarrow>
        and_next (act WitnessJoined (\<lambda>t. observe_requests witness
            \<lparr>exact_head_requests = 0, unexpected_requests = 0\<rparr> (vc_witness vc))) (\<lambda>r.
        case r of None \<Rightarrow> done_with None
        | Some (Inl e) \<Rightarrow> settle (after_cleanup WitnessFailed (cleanup_verification_state vc))
        | Some (Inr observed) \<Rightarrow>
            settle (judge os sha vc retain target command repository True observed status))) t3 = (l4, t', Some (Inr n))"
    unfolding act_next by blast
  from stopped show ?thesis
  proof (cases rule: next_settledE)
    case broker: (1 l5 t5 u l6)
    then have b: "l5 = [(t3, Launching BrokerStopped)]" "t5 = Suc t3" "lc_broker_shutdown (vc_launch vc) t3 = Inr ()"
      by (auto simp: broker_shutdown_def program_simps map_err_ok)
    from broker(2) obtain observed l7 where
        o: "observe_requests witness \<lparr>exact_head_requests = 0, unexpected_requests = 0\<rparr> (vc_witness vc) = Some (Inr observed)" and
        j: "judge os sha vc retain target command repository True observed status (Suc t5) = (l7, t', Inr n)"
      unfolding act_next by (auto simp: done_with_eq settled_after dest: settle_Inr split: option.splits sum.splits)
    note judged = judge_Inr [OF j]
    have "one_request vc target command t3 t'"
      using judged b(2) unfolding one_request_def Let_def by (elim conjE exE, rule_tac x = u in exI) simp
    moreover obtain u w where "t3 < u" "git_clean os vc repository u" "t3 < w" "removed vc w"
      using judged cleanup_ok b(2) by (metis Suc_le_lessD Suc_leD le_less_trans lessI less_Suc_eq_le)
    moreover have "n = 0" "status = Exited 0" "observed = \<lparr>exact_head_requests = 1, unexpected_requests = 0\<rparr>"
      using judged observed_counts [of observed] by simp_all
    moreover have "t < t3" "(t3, Launching BrokerStopped) \<in> set l"
      using accept b \<open>t \<le> t1\<close> 1(3) broker(3) by simp_all
    ultimately show ?thesis
      using o b(3) by (intro conjI, simp, simp, rule_tac exI [of _ t3], rule_tac exI [of _ u]) auto
  qed
qed

lemma supervise_Inr:
  assumes "supervise_verification os sha vc retain target command witness repository pid t = (l, t', Some (Inr n))"
  shows "n = 0 \<and> supervised os vc target command witness repository pid t l t'"
  using assms [unfolded supervise_verification_def Let_def]
proof (cases rule: next_settledE)
  case identity: (1 l1 t1 ident l2)
  from identity(2) show ?thesis
  proof (cases rule: next_settledE)
    case set: (1 l3 t3 x l4)
    from set(2) show ?thesis
    proof (cases rule: next_settledE)
      case interrupt: (1 l5 t5 x l6)
      define m where "m = relabel Launching (\<lambda>x. x) (wait_for_bound_child (lc_rounds (vc_launch vc))
        (Some (relabel TreeAction (map_err TreeFails) (stop_and_reap (vc_child vc) pid))))"
      from interrupt(2) obtain l7 t7 waited l8 where waited: "m t5 = (l7, t7, waited)" and
          rest: "(case waited of None \<Rightarrow> done_with None
            | Some (Inl e) \<Rightarrow> settle (after_cleanup (WaitingFails e) (cleanup_bound_verification vc))
            | Some (Inr status) \<Rightarrow>
                finish_verification os sha vc retain target command witness repository pid status) t7 = (l8, t', Some (Inr n))"
          "l6 = l7 @ l8"
        unfolding m_def [symmetric] by (rule nextE)
      have "progresses m" unfolding m_def by (intro progress_relabel progress_wait_any progress_stop_tree)
      from progressesD [OF this waited] have "t5 \<le> t7" by (rule conjunct1)
      obtain status where status: "waited = Some (Inr status)"
        using rest(1) by (cases waited; cases "the waited") (auto simp: done_with_eq settled_after)
      have finish: "finish_verification os sha vc retain target command witness repository pid status t7 = (l8, t', Some (Inr n))"
        using rest(1) status by simp
      have "\<exists>r \<in> set (lc_rounds (vc_launch vc)). wr_status r = Inr (Some status)"
        using waited wait_status unfolding m_def status relabel_eq by blast
      moreover have "current_process_identity (lc_reader (vc_launch vc)) t pid = Inr ident" "t1 = Suc t"
        using identity(1) by (auto simp: ask_eq)
      moreover have "l3 = [(t1, Launching (IdentitySet ident))]" "t3 = Suc t1" "t5 = Suc t3"
        using set(1) interrupt(1) by (auto simp: ask_eq act_ok_eq is_ok_iff)
      moreover obtain b u where "n = 0" "status = Exited 0" "t7 < b" "(b, Launching BrokerStopped) \<in> set l8"
          "lc_broker_shutdown (vc_launch vc) b = Inr ()" "one_request vc target command b t'"
          "observe_requests witness \<lparr>exact_head_requests = 0, unexpected_requests = 0\<rparr> (vc_witness vc) =
            Some (Inr \<lparr>exact_head_requests = 1, unexpected_requests = 0\<rparr>)"
          "b < u" "git_clean os vc repository u" "\<exists>w > b. removed vc w"
        using finish_Inr [OF finish] by blast
      ultimately show ?thesis
        using \<open>t5 \<le> t7\<close> identity(3) set(3) interrupt(3) rest(2)
        unfolding supervised_def by (intro conjI, simp, rule_tac exI [of _ ident], rule_tac exI [of _ b], rule_tac exI [of _ u]) auto
    qed
  qed
qed


lemma supervised_mono:
  "\<lbrakk>supervised os vc target command witness repository pid s l t'; set l \<subseteq> set l'\<rbrakk> \<Longrightarrow>
   supervised os vc target command witness repository pid s l' t'"
  unfolding supervised_def by blast

text \<open>The child of a verification: spawned in a clean repository, with the environment and the arguments that are
  made for it, and supervised to the end.\<close>

definition verified_child :: "host_os \<Rightarrow> verification_calls \<Rightarrow> installation \<Rightarrow> verification_target \<Rightarrow> string \<Rightarrow> string \<Rightarrow>
    verification_state \<Rightarrow> session \<Rightarrow> verification_action action_log \<Rightarrow> nat \<Rightarrow> bool" where
  "verified_child os vc installation target command witness state session l t' =
     (\<exists>hook armed pid b s. session_arm_child session (verification_command (host_env os) installation hook command
          (vs_codex_home state)) = Inr armed \<and>
        b < s \<and> (b, VerificationBroker (verification_config target command (vs_repository state))) \<in> set l \<and>
        git_clean os vc (vs_repository state) s \<and>
        (Suc s, TreeSpawned (vs_repository state) armed) \<in> set l \<and>
        vc_spawn_tree vc (Suc s) (vs_repository state) armed = Inr pid \<and>
        supervised os vc target command witness (vs_repository state) pid (Suc (Suc s)) l t')"

lemma verified_child_mono:
  "\<lbrakk>verified_child os vc installation target command witness state session l t'; set l \<subseteq> set l'\<rbrakk> \<Longrightarrow>
   verified_child os vc installation target command witness state session l' t'"
  unfolding verified_child_def by (elim exE conjE, intro exI conjI) (assumption | erule supervised_mono | erule (1) subsetD)+

lemma next_settled_ifE:
  assumes "and_next m (\<lambda>r. case r of Inl e \<Rightarrow> settle (after_cleanup (f e) (c e)) | Inr x \<Rightarrow>
      if b x then settle (after_cleanup e' c') else g x) t = (l, t', Some (Inr n))"
  obtains l1 t1 x l2 where "m t = (l1, t1, Inr x)" "\<not> b x" "g x t1 = (l2, t', Some (Inr n))" "l = l1 @ l2"
  using assms by (cases rule: next_settledE) (auto simp: settled_after split: if_splits)

lemma case_settledE:
  assumes "(case r of Inl e \<Rightarrow> settle (after_cleanup (f e) (c e)) | Inr x \<Rightarrow> g x) t = (l, t', Some (Inr n))"
  obtains x where "r = Inr x" "g x t = (l, t', Some (Inr n))"
  using assms by (cases r) (simp_all add: settled_after)

lemma start_Inr:
  assumes "start_verification os sha vc retain installation target command witness launcher state session t =
    (l, t', Some (Inr n))"
  shows "n = 0 \<and> verified_child os vc installation target command witness state session l t'"
  using assms [unfolded start_verification_def]
proof (cases rule: next_settledE)
  case broker: (1 l1 t1 x l2)
  from broker(2) show ?thesis
  proof (cases rule: nextE)
    case hooked: (1 l3 t3 hook l4)
    from hooked(2) obtain armed where armed: "session_arm_child session (verification_command (host_env os) installation
        (hook_command_value OsLinux (path_text hook)) command (vs_codex_home state)) = Inr armed" and
      rest: "and_next (temporary_repository_status os vc (vs_repository state)) (\<lambda>r.
     case r of Inl e \<Rightarrow> settle (after_cleanup e (cleanup_bound_verification vc)) | Inr baseline \<Rightarrow>
     if \<not> repository_is_clean baseline then settle (after_cleanup DirtyBaseline (cleanup_bound_verification vc)) else
     and_next (act_ok (TreeSpawned (vs_repository state) armed) (\<lambda>t. vc_spawn_tree vc t (vs_repository state) armed)) (\<lambda>r.
     case r of Inl e \<Rightarrow> settle (after_cleanup (TreeSpawnFails e) (cleanup_bound_verification vc)) | Inr pid \<Rightarrow>
     supervise_verification os sha vc retain target command witness (vs_repository state) pid)) t3 = (l4, t', Some (Inr n))"
      by (rule case_settledE)
  from rest show ?thesis
  proof (cases rule: next_settled_ifE)
    case clean: (1 l5 t5 baseline l6)
    from clean(3) show ?thesis
    proof (cases rule: next_settledE)
      case (1 l7 t7 pid l8)
      then have spawned: "l7 = [(t5, TreeSpawned (vs_repository state) armed)]" "t7 = Suc t5"
          "vc_spawn_tree vc t5 (vs_repository state) armed = Inr pid"
        by (auto simp: act_ok_eq)
      have before: "l1 = [(t, VerificationBroker (verification_config target command (vs_repository state)))]" "t1 = Suc t"
        using broker(1) by (auto simp: act_ok_eq)
      have times: "t3 = Suc t1" using hooked(1) by (auto simp: absolute_path_def relabel_eq ask_eq)
      have baseline: "t5 = Suc t3" "git_clean os vc (vs_repository state) t3"
        using status_Inr [OF clean(1)] clean(2) by simp_all
      have l: "set l = set l1 \<union> set l3 \<union> set l5 \<union> set l7 \<union> set l8"
        using 1(3) clean(4) hooked(3) broker(3) by auto
      have "n = 0" and "supervised os vc target command witness (vs_repository state) pid t7 l8 t'"
        using supervise_Inr [OF 1(2)] by simp_all
      from supervised_mono [OF this(2), of l]
      have child: "supervised os vc target command witness (vs_repository state) pid (Suc (Suc t3)) l t'"
        using l spawned(2) baseline(1) by simp
      have "(t, VerificationBroker (verification_config target command (vs_repository state))) \<in> set l" "t < t3"
          "(Suc t3, TreeSpawned (vs_repository state) armed) \<in> set l"
        using l before spawned(1) times baseline(1) by simp_all
      then show ?thesis
        unfolding verified_child_def using \<open>n = 0\<close> armed baseline(2) spawned(3) child baseline(1) by blast
    qed
  qed
  qed
qed


definition checked_target :: "verification_calls \<Rightarrow> path \<times> installation \<times> verification_target \<times> string \<times> string \<Rightarrow> bool" where
  "checked_target vc x =
     (case x of (source, installation, target, command, witness) \<Rightarrow>
        resolved_verification_target OsLinux (installation_version installation) = Some target \<and>
        probe_start (vc_listener vc) (vc_random vc) (vc_worker vc) = Inr (command, witness))"

definition target_checked ::
    "verification_calls \<Rightarrow> (local_error, path \<times> installation \<times> verification_target \<times> string \<times> string) result \<Rightarrow> bool" where
  "target_checked vc r = (case r of Inl e \<Rightarrow> True | Inr x \<Rightarrow> checked_target vc x)"

lemma target_refused [simp]: "target_checked vc (Inl e)"
  by (simp add: target_checked_def)

lemma wp_target: "wp step (preflight_target vc source installation) (\<lambda>r s. target_checked vc r) s"
  unfolding preflight_target_def
  by (auto intro!: wp_intros simp: target_checked_def checked_target_def split: option.splits prod.splits)

lemma preflight_Inr:
  assumes "verification_preflight os tok vc auth_home diagnostic_dir t = (l, t', Inr x)"
  shows "checked_target vc x"
proof -
  have "wp (\<lambda>f s. s) (verification_preflight os tok vc auth_home diagnostic_dir) (\<lambda>r s. target_checked vc r) {}"
    unfolding verification_preflight_def
    by (auto intro!: wp_intros wp_target wp_idle [OF acts_parts(4)] split: option.splits)
  from wpD [OF this assms] show ?thesis by (simp add: target_checked_def)
qed

lemma prepare_Inr:
  assumes "prepare_verification os sha vc retain source installation target command witness launcher t = (l, t', Some (Inr n))"
  shows "n = 0 \<and> (\<exists>state session. verified_child os vc installation target command witness state session l t')"
  using assms [unfolded prepare_verification_def]
proof (cases rule: orfailE)
  case state: (Worked l1 t1 state l2)
  from state(2) show ?thesis
  proof (cases rule: next_settledE)
    case staged: (1 l3 t3 x l4)
    from staged(2) show ?thesis
    proof (cases rule: next_settledE)
      case (1 l5 t5 session l6)
      have "n = 0 \<and> verified_child os vc installation target command witness state session l6 t'"
        by (rule start_Inr [OF 1(2)])
      moreover have "set l6 \<subseteq> set l" using 1(3) staged(3) state(3) by auto
      ultimately show ?thesis using verified_child_mono by blast
    qed
  qed
qed simp

text \<open>C10: the verification succeeds only for an eligible version and the confirmed phrase, when the child was spawned
  in a clean repository with its own environment, armed for the one command, and ended with success; the
  broker had stopped before the log was read; the log shows one connection, one parsed request, one exact
  request, one allow and one emission for this command; the witness counted one exact request and no other;
  the repository was clean again; and the session and every temporary directory were removed.\<close>

theorem verification_success_sound:
  assumes "verify_local_hook os tok sha vc auth_home diagnostic_dir t = (l, t', Some (Inr n))"
  shows "n = 0 \<and> (\<exists>installation target command witness state session.
    resolved_verification_target OsLinux (installation_version installation) = Some target \<and>
    probe_start (vc_listener vc) (vc_random vc) (vc_worker vc) = Inr (command, witness) \<and>
    confirm_with_timeout target (vc_confirm vc) = Some (Inr ()) \<and>
    verified_child os vc installation target command witness state session l t')"
  using assms [unfolded verify_local_hook_def]
proof (cases rule: orfailE)
  case checked: (Worked l1 t1 x l2)
  obtain source installation target command witness where x: "x = (source, installation, target, command, witness)"
    by (cases x)
  note preflight = preflight_Inr [OF checked(1), unfolded x checked_target_def prod.case]
  from checked(2) [unfolded x prod.case] have confirmed: "confirm_with_timeout target (vc_confirm vc) = Some (Inr ())"
    by (auto simp: done_with_eq fails_def split: option.splits sum.splits)
  from checked(2) [unfolded x prod.case confirmed option.case sum.case] show ?thesis
  proof (cases rule: nextE)
    case version: (1 l3 t3 version l4)
    from version(2) obtain l5 t5 launcher l6 where
        prepare: "prepare_verification os sha vc (diagnostic_dir \<noteq> None) source installation target command witness launcher t5 =
          (l6, t', Some (Inr n))" and l6: "l4 = l5 @ l6"
      by (auto simp: fails_def done_with_eq split: option.splits if_splits elim!: orfailE)
    have "set l6 \<subseteq> set l" using l6 version(3) checked(3) by auto
    then show ?thesis using prepare_Inr [OF prepare] preflight confirmed verified_child_mono by metis
  qed
qed simp

end
