(* ===== verification/Launcher_Safety.thy ===== *)
theory Launcher_Safety
  imports Launcher_Runs
begin

text \<open>
  The properties of the launcher, and a run on the host of \<^verbatim>\<open>Admission_Run\<close> in which a session is
  armed, where they are applied.
\<close>

section \<open>A run that arms a session\<close>

definition run_output :: probe_output where
  "run_output =
     \<lparr>probe_success = True, probe_stdout = ''codex-cli 0.156.1'',
      probe_stderr = unlines [''-c, --config'', ''hooks stable true'']\<rparr>"

definition run_health :: health_events where
  "run_health =
     \<lparr>he_cwd = Inr [RootDir], he_directory = Inr [RootDir, Normal ''tmp''], he_random = Some (replicate 32 0),
      he_output = (\<lambda>c. Some \<lparr>probe_success = True, probe_stdout = zeros, probe_stderr = []\<rparr>),
      he_file = Some zeros\<rparr>"

definition run_identity :: process_identity where
  "run_identity = \<lparr>identity_pid = 9, start_time = 3, identity_user = 7\<rparr>"

definition run_launch :: launch_calls where
  "run_launch =
     \<lparr>lc_which = (\<lambda>t. Inr ''/codex''), lc_current_exe = (\<lambda>t. Inr [RootDir, Normal ''hook'']),
      lc_current_dir = (\<lambda>t. Inr [RootDir]), lc_output = (\<lambda>t line. Some run_output), lc_health = run_health,
      lc_status = (\<lambda>t command. Inr (Exited 0)),
      lc_session = (\<lambda>t. Inr \<lparr>session_socket = ''/s'', session_secret_text = zeros, session_audit = ''/a''\<rparr>),
      lc_broker_start = (\<lambda>t. Inr ()), lc_spawn = (\<lambda>t command. Inr 9), lc_interrupt = (\<lambda>t. Inr ()),
      lc_reader = (\<lambda>t pid. Inr \<lparr>process_identity_of = run_identity, parent_pid = 1\<rparr>),
      lc_set_identity = (\<lambda>t. Inr ()),
      lc_rounds = [\<lparr>wr_interrupted = True, wr_expired = False, wr_status = Inr None\<rparr>,
                   \<lparr>wr_interrupted = False, wr_expired = False, wr_status = Inr (Some (Exited 3))\<rparr>],
      lc_broker_shutdown = (\<lambda>t. Inr ()), lc_session_cleanup = (\<lambda>t. Inr ()), lc_audit = (\<lambda>t. None)\<rparr>"

definition run_arguments :: run_args where
  "run_arguments =
     \<lparr>arg_sandbox_implementation = Some ''linux-bwrap'', arg_sandbox_mode = Some ''workspace-write'',
      arg_compatibility = None, arg_codex_args = [''--search'', ''fix the bug'']\<rparr>"

lemma run_version: "version_of_output (Some run_output) = Some ''0.156.1''"
proof -
  have "version_text ''0.156.1''"
    by (simp add: version_text_split canonical_decimal_def text_eval)
  then have "parse_version (''codex-cli '' @ ''0.156.1'') = Some ''0.156.1''"
    by (rule parse_version_complete)
  then show ?thesis
    by (simp add: version_of_output_def run_output_def CAPABILITY_OUTPUT_LIMIT_def output_size_def unlines_def)
qed

lemma run_capable: "capable (detect_hook_capability (Some run_output) (Some run_output))"
proof -
  have "text_lines (unlines [''-c, --config'', ''hooks stable true'']) = [''-c, --config'', ''hooks stable true'']"
    by (rule text_lines_unlines) (simp add: plain_line_def)
  moreover have "split_whitespace ''hooks stable true'' = [''hooks'', ''stable'', ''true'']"
    using split_whitespace_join [of "[''hooks'', ''stable'', ''true'']"] by (simp add: plain_token_def visible_def byte_def)
  ultimately have "hooks_feature_is_stable_and_enabled run_output"
    by (simp add: hooks_feature_is_stable_and_enabled_def run_output_def text_eval)
  moreover have "output_contains run_output ''-c, --config''"
    by (simp add: output_contains_def run_output_def unlines_def starts_with_def)
  ultimately show ?thesis
    by (simp add: capable_def detect_hook_capability_def run_output_def CAPABILITY_OUTPUT_LIMIT_def output_size_def
        unlines_def)
qed


lemma run_health_ok:
  "yields (check_execution_health run_host run_tok run_sha run_health run_admission) ()"
proof -
  have secret: "new_secret (Some (replicate 32 0)) = Inr zeros"
    using run_sha_hex by (simp add: new_secret_def ok_or_def run_sha_def)
  have settings: "sandbox_overrides OsLinux (target_sandbox run_target) = Inr [''features.use_legacy_landlock=false'']"
    by (simp add: sandbox_overrides_def run_target_def)
  have command: "\<exists>c. bundle_configure_child run_bundle command = Inr c" for command
    by (simp add: bundle_configure_child_def Let_def run_bundle_def starts_with_def)
  then obtain c where c: "bundle_configure_child run_bundle (executable_command (host_env run_host) run_executable) = Inr c"
    by blast
  have h: "he_cwd run_health = Inr [RootDir]" "he_directory run_health = Inr [RootDir, Normal ''tmp'']"
    "he_random run_health = Some (replicate 32 0)" "he_file run_health = Some zeros"
    "he_output run_health command = Some \<lparr>probe_success = True, probe_stdout = zeros, probe_stderr = []\<rparr>" for command
    by (simp_all add: run_health_def)
  show ?thesis
    unfolding check_execution_health_def run_admission_fields h secret settings c
    by (rule yields_then [OF run_recheck_admission], simp only: map_err.simps, rule yields_pure, rule refl,
        rule yields_pure, rule refl, rule yields_pure, rule refl, rule yields_pure, rule refl,
        rule yields_pure, rule refl, simp only: ok_or_def option.case, rule yields_pure, rule refl,
        rule yields_ensure, simp, rule run_recheck_admission)
qed

lemma run_launch_calls:
  "lc_which run_launch t = Inr ''/codex''" "lc_current_exe run_launch t = Inr [RootDir, Normal ''hook'']"
  "lc_current_dir run_launch t = Inr [RootDir]" "lc_output run_launch t line = Some run_output"
  "lc_health run_launch = run_health" "lc_broker_start run_launch t = Inr ()" "lc_spawn run_launch t command = Inr 9"
  "lc_interrupt run_launch t = Inr ()" "lc_set_identity run_launch t = Inr ()"
  "lc_broker_shutdown run_launch t = Inr ()" "lc_session_cleanup run_launch t = Inr ()" "lc_audit run_launch t = None"
  "current_process_identity (lc_reader run_launch) t 9 = Inr run_identity"
  "lc_session run_launch t = Inr \<lparr>session_socket = ''/s'', session_secret_text = zeros, session_audit = ''/a''\<rparr>"
  by (simp_all add: run_launch_def current_process_identity_def)

definition run_installed :: installation where
  "run_installed =
     \<lparr>installation_path = ''/codex'', installation_native_path = Some ''/codex'', installation_version = ''0.156.1'',
      installation_version_diagnostic = None, installation_launcher_kind = Codex.Executable\<rparr>"

lemma run_resolved: "yields (stat_is run_host PlainFile (run_file ''codex'')) True"
  unfolding stat_is_def by (rule yields_basic) (simp add: run_calls run_stats example_stat_def)

lemma run_path_text: "path_text (run_file ''codex'') = ''/codex''"
  by (simp add: path_text_def run_file_def component_text_def)

lemma run_version_of: "completes (version_of run_launch path) [] (Some ''0.156.1'')"
  unfolding version_of_def by (rule completes_basic) (simp add: run_launch_calls run_version)

lemma run_codex: "completes (codex_inspect run_host run_tok run_launch) [] (Inr run_installed)"
proof -
  have other: "run_file ''codex'' \<noteq> [RootDir, Normal ''hook'']" by (simp add: run_file_def)
  note steps = completes_if_ok [where L = "[]", simplified] completes_next [where L = "[]", simplified]
  show ?thesis
    unfolding codex_inspect_def
    by (rule steps(1), rule completes_basic(2), rule run_launch_calls, rule steps(1), rule completes_basic(2), rule run_calls,
        rule steps(1), rule completes_basic(2), rule run_launch_calls, rule steps(1), rule completes_basic(2), rule run_calls,
        simp only: run_entrypoint if_not_P [OF other], rule steps(2), rule completes_perform [OF run_resolved],
        simp only: not_True_eq_False if_False simp_thms, rule steps(2), rule completes_perform [OF run_native_path],
        simp only: sum.case Let_def run_path_text option.case, rule steps(2), rule run_version_of)
      (simp add: run_installed_def completes_basic)
qed



text \<open>The child is waited for, interrupted once, and ends by itself.\<close>

lemma run_wait:
  "completes (wait_for_bound_child (lc_rounds run_launch) None) [AcceptingStopped, ChildReaped] (Some (Inr (Exited 3)))"
proof -
  have rounds: "lc_rounds run_launch = [\<lparr>wr_interrupted = True, wr_expired = False, wr_status = Inr None\<rparr>,
      \<lparr>wr_interrupted = False, wr_expired = False, wr_status = Inr (Some (Exited 3))\<rparr>]"
    by (simp add: run_launch_def)
  show ?thesis
    unfolding rounds
    by (simp add: completes_def log_of_def value_of_def program_run returns_def)
qed

lemma run_conclude:
  "completes (conclude run_host run_launch version (Inr (Exited 3))) [BrokerStopped, SessionCleaned] (Some (Inr 3))"
  by (simp add: completes_def log_of_def value_of_def program_run conclude_def record_session_observation_def
      session_observation_def run_launch_calls run_calls user_state_path_def status_code_def split: sum.splits)

lemma run_supervise:
  "completes (supervise run_host run_tok run_sha run_launch run_admission version 9)
     [IdentitySet run_identity, AcceptingStopped, ChildReaped, BrokerStopped, SessionCleaned] (Some (Inr 3))"
proof -
  note steps = completes_next [where L = "[]", simplified]
  have last: "completes (and_next (wait_for_bound_child (lc_rounds run_launch) None) (\<lambda>status.
      case status of None \<Rightarrow> done_with None | Some status \<Rightarrow> conclude run_host run_launch version status))
      ([AcceptingStopped, ChildReaped] @ [BrokerStopped, SessionCleaned]) (Some (Inr 3))"
    by (rule completes_next [OF run_wait]) (simp add: run_conclude)
  show ?thesis
    unfolding supervise_def
    by (rule steps, rule completes_basic(2), rule run_launch_calls, simp only: sum.case,
        rule steps, rule completes_basic(2), rule run_launch_calls, simp only: sum.case,
        rule steps, rule completes_perform [OF run_verified], simp only: sum.case,
        rule completes_next [where L = "[IdentitySet run_identity]", simplified], rule completes_basic(4),
        rule run_launch_calls, simp only: sum.case)
      (rule last [simplified])
qed

definition run_session :: session where
  "run_session = \<lparr>session_socket = ''/s'', session_secret_text = zeros, session_audit = ''/a''\<rparr>"

lemma run_armed_command: "\<exists>command. armed_command run_session hook args c = Inr command"
proof -
  have "valid_token (Some zeros)"
    by (simp add: valid_token_def zeros_def TOKEN_BYTES_def text_eval list_all_iff)
  then show ?thesis by (simp add: armed_command_def arm_child_def run_session_def)
qed

lemma run_start:
  assumes "installation_version installation = ''0.156.1''"
  shows "\<exists>c. completes (start_armed run_host run_tok run_sha run_launch installation args launcher dir run_admission)
     [SessionCreated, BrokerStarted run_admission (production_config run_admission ''0.156.1'' dir), ChildSpawned c,
      IdentitySet run_identity, AcceptingStopped, ChildReaped, BrokerStopped, SessionCleaned] (Some (Inr 3))"
proof -
  obtain configured where configured:
      "admission_configure_child run_admission (executable_command (host_env run_host) (adm_executable run_admission)) =
        Inr configured"
    by (metis inspected_configures run_inspect yieldsD)
  obtain command where command:
      "armed_command run_session (hook_command_value OsLinux (path_text launcher)) (arg_codex_args args) configured = Inr command"
    using run_armed_command by blast
  have child: "completes (launch_child run_host run_tok run_sha run_launch run_admission ''0.156.1'' (Inr command))
      ([ChildSpawned command] @ [IdentitySet run_identity, AcceptingStopped, ChildReaped, BrokerStopped, SessionCleaned])
      (Some (Inr 3))"
    unfolding launch_child_def sum.case
    by (rule completes_next, rule completes_basic(4), rule run_launch_calls, simp only: sum.case) (rule run_supervise)
  have "completes (start_armed run_host run_tok run_sha run_launch installation args launcher dir run_admission)
      ([SessionCreated] @ [BrokerStarted run_admission (production_config run_admission ''0.156.1'' dir)] @ [] @
       [ChildSpawned command] @ [IdentitySet run_identity, AcceptingStopped, ChildReaped, BrokerStopped, SessionCleaned])
      (Some (Inr 3))"
    unfolding start_armed_def assms configured sum.case
    by (rule completes_orfail, rule completes_basic(4), rule run_launch_calls, rule completes_next,
        rule completes_basic(4), rule run_launch_calls, simp only: sum.case, rule completes_next,
        unfold absolute_path_def, rule completes_basic(2), simp add: run_calls)
      (use child in \<open>simp only: run_session_def [symmetric] command\<close>)
  then show ?thesis by auto
qed


lemma run_admitted:
  "\<exists>c. completes (launch_admitted run_host run_tok run_sha run_launch run_installed run_arguments launcher dir run_admission)
     [SessionCreated, BrokerStarted run_admission (production_config run_admission ''0.156.1'' dir), ChildSpawned c,
      IdentitySet run_identity, AcceptingStopped, ChildReaped, BrokerStopped, SessionCleaned] (Some (Inr 3))"
proof -
  have version: "installation_version run_installed = ''0.156.1''" by (simp add: run_installed_def)
  note steps = completes_next [where L = "[]", simplified] completes_orfail [where L = "[]", simplified]
  have capability: "completes (capability_of run_host run_launch run_installed launcher) [] SupportedByConfigurationProbe"
    unfolding capability_of_def absolute_path_def Let_def run_launch_calls
    by (rule steps(1), rule completes_basic(2), simp add: run_calls, rule completes_basic(2))
      (use run_capable in \<open>auto simp: capable_def detect_hook_capability_def split: option.splits if_splits\<close>)
  obtain c where c: "completes (start_armed run_host run_tok run_sha run_launch run_installed run_arguments launcher dir run_admission)
     [SessionCreated, BrokerStarted run_admission (production_config run_admission ''0.156.1'' dir), ChildSpawned c,
      IdentitySet run_identity, AcceptingStopped, ChildReaped, BrokerStopped, SessionCleaned] (Some (Inr 3))"
    using run_start [OF version] by blast
  show ?thesis
    unfolding launch_admitted_def run_launch_calls
    by (rule exI [of _ c], rule steps(1), rule capability, simp add: capable_def, rule steps(1),
        rule completes_perform [OF run_health_ok], simp only: sum.case, rule steps(1), rule run_version_of,
        simp add: version, rule steps(2), rule completes_perform [OF run_recheck_admission], rule c)
qed

lemma run_completes:
  "\<exists>c. completes (run run_host run_tok run_sha run_launch run_arguments)
     [SessionCreated, BrokerStarted run_admission (production_config run_admission ''0.156.1'' [RootDir]), ChildSpawned c,
      IdentitySet run_identity, AcceptingStopped, ChildReaped, BrokerStopped, SessionCleaned] (Some (Inr 3))"
proof -
  note steps = completes_next [where L = "[]", simplified] completes_orfail [where L = "[]", simplified]
  have mode: "resolve_compatibility_mode (host_env run_host) run_arguments = Inr Strict"
    by (simp add: resolve_compatibility_mode_def run_arguments_def run_calls)
  have args: "arg_sandbox_implementation run_arguments = Some ''linux-bwrap''"
    "arg_sandbox_mode run_arguments = Some ''workspace-write''"
    "arg_codex_args run_arguments = [''--search'', ''fix the bug'']"
    by (simp_all add: run_arguments_def)
  have inspect: "yields (admission_inspect run_host run_tok run_sha run_installed (Some ''linux-bwrap'')
      (Some ''workspace-write'') [''--search'', ''fix the bug'']) run_admission"
    by (rule run_inspect_any) (simp_all add: run_installed_def)
  obtain c where c: "completes (launch_admitted run_host run_tok run_sha run_launch run_installed run_arguments
        [RootDir, Normal ''hook''] [RootDir] run_admission)
     [SessionCreated, BrokerStarted run_admission (production_config run_admission ''0.156.1'' [RootDir]), ChildSpawned c,
      IdentitySet run_identity, AcceptingStopped, ChildReaped, BrokerStopped, SessionCleaned] (Some (Inr 3))"
    using run_admitted by blast
  show ?thesis
    unfolding run_def mode args
    by (rule exI [of _ c], rule steps(2), rule run_codex, rule steps(2), rule completes_basic(2), rule run_launch_calls,
        rule steps(2), rule completes_basic(2), rule run_launch_calls, rule steps(2), rule completes_basic(1),
        rule steps(1), rule completes_perform [OF inspect], simp only: sum.case, rule c)
qed

section \<open>Approvals\<close>

text \<open>C7: a session is armed only for a child that the launcher has started itself, for an admission that was
  inspected and checked again before: the executable behind the process was verified after the start,
  and the identity that the broker gets is that of this process, read before the verification.  The
  child has the arming variables of the session of this run, with the configuration of the admission.\<close>

theorem approvals_only_for_verified_child:
  assumes "run os tok sha lc args t = (l, t', r)" "(u, IdentitySet ident) \<in> set l"
  shows "\<exists>installation dir a t1 t2 t3 t4 session hook command pid s w w'.
    admission_inspect os tok sha installation (arg_sandbox_implementation args) (arg_sandbox_mode args)
      (arg_codex_args args) t1 = (t2, Inr a) \<and>
    t2 \<le> t3 \<and> admission_recheck os tok sha a t3 = (t4, Inr ()) \<and>
    lc_session lc t4 = Inr session \<and> armed_child os session a hook (arg_codex_args args) command \<and>
    (Suc t4, BrokerStarted a (production_config a (installation_version installation) dir)) \<in> set l \<and>
    Suc t4 < s \<and> (s, ChildSpawned command) \<in> set l \<and> lc_spawn lc s command = Inr pid \<and>
    s < w \<and> current_process_identity (lc_reader lc) w pid = Inr ident \<and>
    w < w' \<and> admission_verify_process os tok sha a pid w' = (u, Inr ())"
  using assms(1)
proof (cases rule: run_cases)
  case (Armed installation launcher dir a t1 t2 t3 t4)
  from start_arms [OF Armed(4) assms(2)] show ?thesis using Armed(1-3) by blast
qed (use assms(2) in \<open>auto simp: ran_unarmed_def Let_def\<close>)

theorem approvals_only_for_verified_child_witness:
  "\<exists>l t' u s w' pid a command. run run_host run_tok run_sha run_launch run_arguments 0 = (l, t', Some (Inr 3)) \<and>
     (u, IdentitySet run_identity) \<in> set l \<and> (s, ChildSpawned command) \<in> set l \<and> s < w' \<and>
     admission_verify_process run_host run_tok run_sha a pid w' = (u, Inr ())"
proof -
  obtain l t' c where run: "run run_host run_tok run_sha run_launch run_arguments 0 = (l, t', Some (Inr 3))"
      and l: "map snd l = [SessionCreated, BrokerStarted run_admission (production_config run_admission ''0.156.1'' [RootDir]),
        ChildSpawned c, IdentitySet run_identity, AcceptingStopped, ChildReaped, BrokerStopped, SessionCleaned]"
    using run_completes completesD by metis
  then have "IdentitySet run_identity \<in> set (map snd l)" by simp
  then obtain u where "(u, IdentitySet run_identity) \<in> set l" by auto
  with approvals_only_for_verified_child [OF run this] run show ?thesis by (blast intro: less_trans)
qed


section \<open>Cleaning up\<close>

text \<open>C8: a run that ends has closed the session and the broker and has waited for the child on every path but one:
  when the wait for the child fails, the child is left to itself.\<close>

theorem run_releases_everything:
  assumes "run os tok sha lc args t = (l, t', Some r)"
  shows "held l {} = {} \<or> held l {} = {HeldChild} \<and> (\<exists>k. r = Inl (WaitFails k))"
  using assms
proof (cases rule: run_cases)
  case (Armed installation launcher dir a t1 t2 t3 t4)
  from held_start [OF Armed(4) inspected_configures [OF Armed(1)]] show ?thesis .
qed (auto simp: ran_unarmed_def Let_def)

theorem run_releases_everything_witness:
  "\<exists>l t'. run run_host run_tok run_sha run_launch run_arguments 0 = (l, t', Some (Inr 3)) \<and> held l {} = {} \<and>
     SessionCreated \<in> snd ` set l"
proof -
  obtain l t' c where run: "run run_host run_tok run_sha run_launch run_arguments 0 = (l, t', Some (Inr 3))"
      and l: "map snd l = [SessionCreated, BrokerStarted run_admission (production_config run_admission ''0.156.1'' [RootDir]),
        ChildSpawned c, IdentitySet run_identity, AcceptingStopped, ChildReaped, BrokerStopped, SessionCleaned]"
    using run_completes completesD by metis
  from l have "SessionCreated \<in> snd ` set l" by (metis list.set_intros(1) list.set_map)
  with run_releases_everything [OF run] run show ?thesis by auto
qed

section \<open>Runs without approvals\<close>

lemma disarmed_environment:
  "disarm_child env =
     (\<lambda>key. if key \<in> {SESSION_TOKEN_ENV, SESSION_SOCKET_ENV, PROTOCOL_ENV, AUDIT_PATH_ENV} then None else env key)"
  by (auto simp: disarm_child_def fun_eq_iff)

lemma inspect_found:
  "codex_inspect os tok lc t = (l, t', Inr installation) \<Longrightarrow>
   lc_which lc t = Inr (installation_path installation) \<and> installation_launcher_kind installation = Codex.Executable"
  by (auto simp: codex_inspect_def Let_def program_simps eq_commute [of "Inr _" "lc_which _ _"] split: if_splits sum.splits)
    (metis sum.exhaust installation.select_convs(1), metis sum.exhaust installation.select_convs(5))

text \<open>C9: with the manifest that is shipped no run arms anything: the launcher ends with an error before it has done anything, or it runs the command that was found as Codex, with the given arguments and nothing else, in
  its own environment without the arming variables, whatever that holds, and ends with its status.\<close>

theorem shipped_run_is_unarmed:
  assumes "reads_embedded tok" "run os tok sha lc args t = (l, t', r)"
  shows "l = [] \<and> (\<exists>e. r = Some (Inl e)) \<or>
    (\<exists>u candidate. lc_which lc t = Inr candidate \<and>
       (let command = \<lparr>cmd_program = path_of_string candidate, cmd_arg0 = None, cmd_args = arg_codex_args args,
          cmd_env = (\<lambda>key. if key \<in> {SESSION_TOKEN_ENV, SESSION_SOCKET_ENV, PROTOCOL_ENV, AUDIT_PATH_ENV} then None
            else host_env os key)\<rparr>
        in l = [(u, RanUnarmed command)] \<and>
           r = Some (case lc_status lc u command of Inl e \<Rightarrow> Inl (SpawnFails e) | Inr status \<Rightarrow> Inr (status_code status))))"
  using assms(2)
proof (cases rule: run_cases)
  case (Unarmed installation t1)
  note found = inspect_found [OF Unarmed(1)]
  have "unarmed_command (host_env os) installation (arg_codex_args args) =
      \<lparr>cmd_program = path_of_string (installation_path installation), cmd_arg0 = None, cmd_args = arg_codex_args args,
        cmd_env = (\<lambda>key. if key \<in> {SESSION_TOKEN_ENV, SESSION_SOCKET_ENV, PROTOCOL_ENV, AUDIT_PATH_ENV} then None
          else host_env os key)\<rparr>"
    using found by (simp add: unarmed_command_def build_codex_command_def disarmed_environment)
  with Unarmed(2) found show ?thesis unfolding ran_unarmed_def Let_def by auto
next
  case (Armed installation launcher dir a t1 t2 t3 t4)
  then show ?thesis using embedded_shipped [OF assms(1)] by (simp add: admission_inspect_def io_run shipped_manifest_def)
qed blast

lemma run_installs: "\<exists>t' i. codex_inspect run_host tok run_launch t = ([], t', Inr i)"
proof -
  have other: "run_file ''codex'' \<noteq> [RootDir, Normal ''hook'']" by (simp add: run_file_def)
  have stat: "\<exists>t'. stat_is run_host PlainFile (run_file ''codex'') t = (t', Inr True)" for t
    by (rule yieldsD [OF run_resolved])
  have version: "snd (snd (version_of run_launch path t)) = Some ''0.156.1'' \<and> fst (version_of run_launch path t) = []" for path t
    by (simp add: version_of_def ask_def run_launch_calls run_version)
  obtain t1 where t1: "stat_is run_host PlainFile (run_file ''codex'') (Suc (Suc (Suc (Suc t)))) = (t1, Inr True)"
    using stat by blast
  show ?thesis
    using other t1 version
    by (simp add: codex_inspect_def if_ok_def and_next_def ask_def perform_def done_with_def run_launch_calls run_calls
        run_entrypoint Let_def split_beta)
qed

theorem shipped_run_is_unarmed_witness:
  "\<exists>l t' u command. run run_host example_tokenizer run_sha run_launch run_arguments 0 = (l, t', Some (Inr 0)) \<and>
     l = [(u, RanUnarmed command)] \<and> cmd_program command = path_of_string ''/codex'' \<and>
     cmd_args command = [''--search'', ''fix the bug''] \<and> cmd_env command SESSION_TOKEN_ENV = None"
proof -
  obtain t1 i where inspect: "codex_inspect run_host example_tokenizer run_launch 0 = ([], t1, Inr i)"
    using run_installs by blast
  have refused: "admission_inspect run_host example_tokenizer run_sha i sandbox mode args t = (t, Inl NoCurrentCertification)"
    for sandbox mode args t
    using embedded_shipped [OF example_reads_embedded] by (simp add: admission_inspect_def io_run shipped_manifest_def)
  have status: "lc_status run_launch t c = Inr (Exited 0)" for t c
    by (simp add: run_launch_def)
  have mode: "resolve_compatibility_mode (host_env run_host) run_arguments = Inr Strict"
    by (simp add: resolve_compatibility_mode_def run_arguments_def run_calls)
  have "\<exists>l t'. run run_host example_tokenizer run_sha run_launch run_arguments 0 = (l, t', Some (Inr 0))"
    by (simp add: run_def orfail_def and_next_def inspect ask_def done_with_def perform_def run_launch_calls mode refused
        launch_unarmed_def act_def status returns_def status_code_def Let_def)
  then obtain l t' where run: "run run_host example_tokenizer run_sha run_launch run_arguments 0 = (l, t', Some (Inr 0))"
    by blast
  from shipped_run_is_unarmed [OF example_reads_embedded run] run show ?thesis
    by (auto simp: Let_def run_launch_calls run_arguments_def)
qed

section \<open>Waiting\<close>

text \<open>The rounds that end the loop: those in which the child has ended or cannot be asked, and for a
  verification also those in which the run was interrupted or has taken too long.\<close>

definition round_ends :: "bool \<Rightarrow> wait_round \<Rightarrow> bool" where
  "round_ends verifying r = (wr_status r \<noteq> Inr None \<or> verifying \<and> (wr_interrupted r \<or> wr_expired r))"

text \<open>Why a verification stops its child, if a round tells it to.\<close>

definition stop_reason :: "wait_round \<Rightarrow> launch_error option" where
  "stop_reason r =
     (if wr_interrupted r then Some StoppedOnInterrupt
      else if wr_expired r then Some StoppedOnTimeout
      else case wr_status r of Inl e \<Rightarrow> Some (WaitFails e) | Inr s \<Rightarrow> None)"

text \<open>The end of a wait without a verification: an interrupt only ends the approvals, each time anew.\<close>

definition production_end :: "wait_round list \<Rightarrow> wait_round \<Rightarrow> launch_action action_log \<Rightarrow> exit_status outcome \<Rightarrow> bool" where
  "production_end rs r l x =
     (\<exists>rest. rs = takeWhile (\<lambda>r. \<not> round_ends False r) rs @ r # rest \<and>
        (let stops = replicate (length (filter wr_interrupted (takeWhile (\<lambda>r. \<not> round_ends False r) rs @ [r]))) AcceptingStopped in
         case wr_status r of
           Inl e \<Rightarrow> map snd l = stops \<and> x = Some (Inl (WaitFails e))
         | Inr None \<Rightarrow> False
         | Inr (Some status) \<Rightarrow> map snd l = stops @ [ChildReaped] \<and> x = Some (Inr status)))"

text \<open>The end of the wait of a verification that began at a moment: its way to stop the tree has run, or the child was reaped.\<close>

definition verification_end ::
    "(launch_error, unit) result launch \<Rightarrow> wait_round \<Rightarrow> nat \<Rightarrow> launch_action action_log \<Rightarrow> nat \<Rightarrow> exit_status outcome \<Rightarrow> bool" where
  "verification_end stop r t l t' x =
     (case stop_reason r of
        Some why \<Rightarrow>
          (\<exists>u stopped cleanup. stop u = (stopped, t', cleanup) \<and>
             l = (if wr_interrupted r \<or> wr_expired r then [(t, AcceptingStopped)] else []) @ stopped \<and>
             x = Some (Inl (with_cleanup_error CleanupAlso why cleanup)))
      | None \<Rightarrow> (\<exists>status. wr_status r = Inr (Some status) \<and> l = [(t, ChildReaped)] \<and> x = Some (Inr status)))"

lemma production_turn:
  "wait_for_bound_child (r # rs) None =
     and_next (if wr_interrupted r then act AcceptingStopped (\<lambda>t. ()) else done_with ()) (\<lambda>_.
     case wr_status r of
       Inl e \<Rightarrow> fails (WaitFails e)
     | Inr (Some status) \<Rightarrow> and_next (act ChildReaped (\<lambda>t. ())) (\<lambda>_. returns status)
     | Inr None \<Rightarrow> wait_for_bound_child rs None)"
  by (simp add: with_cleanup_error_def split: sum.split option.split bool.split)

lemma production_ends:
  "wait_for_bound_child rs None t = (l, t', x) \<Longrightarrow>
   case find (round_ends False) rs of None \<Rightarrow> x = None | Some r \<Rightarrow> production_end rs r l x"
proof (induction rs arbitrary: t l)
  case Nil
  then show ?case by (simp add: done_with_eq)
next
  case (Cons r rs)
  from Cons.prems obtain l1 t1 l2 where
    l1: "map snd l1 = (if wr_interrupted r then [AcceptingStopped] else [])" "l = l1 @ l2" and
    rest: "(case wr_status r of
       Inl e \<Rightarrow> fails (WaitFails e)
     | Inr (Some status) \<Rightarrow> and_next (act ChildReaped (\<lambda>t. ())) (\<lambda>_. returns status)
     | Inr None \<Rightarrow> wait_for_bound_child rs None) t1 = (l2, t', x)"
    unfolding production_turn by (rule nextE) (rule that; (assumption | auto simp: act_eq done_with_eq split: if_splits))
  show ?case
  proof (cases "wr_status r = Inr None")
    case True
    with Cons.IH rest l1 show ?thesis
      by (auto simp: round_ends_def production_end_def Let_def split: option.splits sum.splits)
  next
    case False
    with rest l1 show ?thesis
      by (auto simp: round_ends_def production_end_def fails_def returns_def program_simps split: sum.splits option.splits)
  qed
qed

lemma verification_ends:
  "wait_for_bound_child rs (Some stop) t = (l, t', x) \<Longrightarrow>
   case find (round_ends True) rs of None \<Rightarrow> x = None | Some r \<Rightarrow> verification_end stop r t l t' x"
proof (induction rs)
  case Nil
  then show ?case by (simp add: done_with_eq)
next
  case (Cons r rs)
  show ?case
  proof (cases "round_ends True r")
    case True
    then show ?thesis
      using Cons.prems
      by (auto simp: round_ends_def verification_end_def stop_reason_def fails_def returns_def program_simps
          split: sum.splits option.splits if_splits) blast+
  next
    case False
    then have "wait_for_bound_child (r # rs) (Some stop) = wait_for_bound_child rs (Some stop)"
      by (auto simp: round_ends_def split: sum.splits option.splits)
    with Cons False show ?thesis by simp
  qed
qed

text \<open>C25: the loop ends exactly when a round ends it, with what the first such round says.  Without a verification an
  interrupt never ends the child: it ends the approvals, and the loop goes on until the child was reaped or cannot be asked.
  With one, an interrupt, the limit or a failure runs the way to stop the tree, after the approvals were ended in the first two cases,
  and what the stop returns is part of the error.\<close>

theorem wait_for_bound_child_ends:
  "case wait_for_bound_child rs verification t of (l, t', x) \<Rightarrow>
     (case find (round_ends (verification \<noteq> None)) rs of
        None \<Rightarrow> x = None
      | Some r \<Rightarrow>
          (case verification of
             None \<Rightarrow> production_end rs r l x
           | Some stop \<Rightarrow> verification_end stop r t l t' x))"
  using production_ends [of rs t] verification_ends [of rs _ t]
  by (cases verification) (auto split: prod.splits option.splits)


section \<open>Printing the hook\<close>

lemma inspect_needs_sandbox: "admission_inspect os tok sha installation None mode args t \<noteq> (t', Inr a)"
  by (auto simp: admission_inspect_def io_simps ok_or_def)

text \<open>The configuration of the hook is never printed: the admission it asks for is inspected without a sandbox,
  and an admission needs one.  This holds for every manifest.\<close>

theorem print_hook_config_never_prints: "value_of (print_hook_config os tok sha lc t) \<noteq> Inr printed"
proof
  assume "value_of (print_hook_config os tok sha lc t) = Inr printed"
  then obtain l t' where "print_hook_config os tok sha lc t = (l, t', Inr printed)"
    by (metis value_of_def prod.collapse)
  then show False
    by (auto simp: print_hook_config_def program_simps inspect_needs_sandbox)
qed

end
