(* ===== verification/Verification_Run.thy ===== *)
theory Verification_Run
  imports Verification_Safety Launcher_Safety
begin

text \<open>
  A local verification that succeeds, on the host of \<^verbatim>\<open>Admission_Run\<close>, where the properties of
  \<^verbatim>\<open>Verification_Safety\<close> are applied.
\<close>

section \<open>The calls\<close>

definition verify_crypto :: crypto where
  "verify_crypto = \<lparr>sha256_of = run_sha, to_vec = (\<lambda>v. Some ''{}''), request_to_vec = (\<lambda>r. None)\<rparr>"

definition verify_command :: string where
  "verify_command = ''curl -fsSI --max-time 10 --noproxy 127.0.0.1 http://127.0.0.1:80/'' @ replicate 32 CHR ''0''"

definition verify_input :: json where
  "verify_input = JObject [(''command'', JString verify_command)]"

definition verify_log :: string where
  "verify_log = unlines
     [attempt_line, invoked_line verify_crypto (Some ''Bash'') (Some ''PermissionRequest''),
      request_line verify_crypto (Some ''Bash'') (Some ''PermissionRequest'') (Some verify_input),
      allow_line verify_crypto ''Bash'' (Some verify_input), emitted_line verify_crypto ''Bash'' (Some verify_input)]"

definition probe_request_text :: string where
  "probe_request_text = head_line (CHR ''/'' # replicate 32 CHR ''0'') @ HEAD_END"

definition verify_calls :: verification_calls where
  "verify_calls =
     \<lparr>vc_launch = run_launch\<lparr>lc_rounds := [\<lparr>wr_interrupted = False, wr_expired = False, wr_status = Inr (Some (Exited 0))\<rparr>]\<rparr>,
      vc_terminal = (\<lambda>t. True), vc_listener = Inr 80, vc_random = Some (replicate 16 0), vc_worker = True,
      vc_confirm_interrupt = (\<lambda>t. Inr ()),
      vc_confirm = [\<lparr>cr_interrupted = False, cr_expired = False,
        cr_event = ConfirmLine (''VERIFY CODEX 0.156.1 HOOK'' @ [CHR 0x0A])\<rparr>],
      vc_temp = (\<lambda>t d. Inr [RootDir]), vc_protect = (\<lambda>t path. Inr ()), vc_close = (\<lambda>t d. Inr ()),
      vc_drop = (\<lambda>t d. Inr ()),
      vc_git = (\<lambda>t c. Inr (Exited 0)), vc_git_output = (\<lambda>t c. Inr (Exited 0, [])),
      vc_create_dir = (\<lambda>t path. Inr ()), vc_write = (\<lambda>t path s. Inr ()), vc_init_audit = (\<lambda>t. Inr ()),
      vc_create = (\<lambda>t path. Inr ()), vc_broker_start = (\<lambda>t. Inr ()), vc_spawn_tree = (\<lambda>t path c. Inr 9),
      vc_child = example_child,
      vc_audit = (\<lambda>t. Inr \<lparr>audit_is_file = True, audit_len = 600, audit_bytes = Some verify_log\<rparr>),
      vc_witness = [WitnessAccepts True [Bytes probe_request_text] True True, WitnessStopped],
      vc_retain = (\<lambda>t. Inr ()), vc_crypto = verify_crypto\<rparr>"

section \<open>The evidence\<close>

lemma verify_hashes: "short_hash verify_crypto s = replicate 16 CHR ''0''" "json_hash verify_crypto v = replicate 16 CHR ''0''"
  by (simp_all add: short_hash_def json_hash_def digest_prefix_def verify_crypto_def run_sha_def to_hex_def
      map_replicate hex_byte_zero numeral_eq_Suc)

lemma verify_lines:
  "attempt_line = ''broker connection''"
  "invoked_line verify_crypto (Some ''Bash'') (Some ''PermissionRequest'') =
     ''invoked event=PermissionRequest tool_hash=0000000000000000''"
  "request_line verify_crypto (Some ''Bash'') (Some ''PermissionRequest'') (Some verify_input) =
     ''request event=PermissionRequest tool_hash=0000000000000000 input_hash=0000000000000000''"
  "allow_line verify_crypto ''Bash'' (Some verify_input) =
     ''allowed one PermissionRequest tool_hash=0000000000000000 input_hash=0000000000000000''"
  "emitted_line verify_crypto ''Bash'' (Some verify_input) =
     ''emitted one PermissionRequest tool_hash=0000000000000000 input_hash=0000000000000000''"
  by (simp_all add: attempt_line_def invoked_line_def request_line_def allow_line_def emitted_line_def verify_hashes
      event_label_def input_hash_def numeral_eq_Suc)

lemma verify_read:
  "read_bounded_string (Inr \<lparr>audit_is_file = True, audit_len = 600, audit_bytes = Some verify_log\<rparr>) = Inr verify_log"
proof -
  have "length verify_log \<le> 1000" "ascii_text verify_log"
    unfolding verify_log_def verify_lines by (simp_all add: unlines_def ascii_text_def byte_def)
  then show ?thesis
    by (simp add: read_bounded_string_def read_bounded_def ok_or_def ascii_utf8)
qed

lemma verify_text: "text_lines verify_log =
     [attempt_line, invoked_line verify_crypto (Some ''Bash'') (Some ''PermissionRequest''),
      request_line verify_crypto (Some ''Bash'') (Some ''PermissionRequest'') (Some verify_input),
      allow_line verify_crypto ''Bash'' (Some verify_input), emitted_line verify_crypto ''Bash'' (Some verify_input)]"
  unfolding verify_log_def by (rule text_lines_unlines) (simp add: log_line_plain)

lemma sixteen: "replicate 16 CHR ''0'' = ''0000000000000000''"
  by (simp add: numeral_eq_Suc)

lemma verify_counts:
  assumes f: "f = Inr \<lparr>audit_is_file = True, audit_len = 600, audit_bytes = Some verify_log\<rparr>"
  shows "broker_attempt_count f = Inr 1" "invocation_count f = Inr 1" "allow_record_count f = Inr 1"
    "exact_request_count verify_crypto f ''Bash'' verify_input = Inr 1"
    "emitted_allow_count verify_crypto f ''Bash'' verify_input = Inr 1"
  unfolding f broker_attempt_count_def invocation_count_def allow_record_count_def exact_request_count_def
    emitted_allow_count_def count_matching_lines_def verify_read sum.case verify_text verify_lines verify_hashes
  by (simp_all add: starts_with_def sixteen)


lemma verify_probe:
  "probe_start (vc_listener verify_calls) (vc_random verify_calls) (vc_worker verify_calls) =
     Inr (verify_command, CHR ''/'' # replicate 32 CHR ''0'')"
proof -
  have nonce: "to_hex (replicate 16 0) = replicate 32 CHR ''0''"
    by (simp add: to_hex_def map_replicate hex_byte_zero numeral_eq_Suc)
  have "verification_probe_command OsLinux 80 (replicate 32 CHR ''0'') = Some verify_command"
    by (simp add: verification_probe_command_def list_all_iff is_ascii_hexdigit_def is_ascii_uppercase_def is_ascii_digit_def
        byte_def verify_command_def show_nat.simps digit_char_def char_of_def bit_Suc_0_iff)
  then show ?thesis
    by (simp add: verify_calls_def probe_start_def ok_or_def nonce Let_def)
qed

lemma verify_witness:
  "observe_requests (CHR ''/'' # replicate 32 CHR ''0'') \<lparr>exact_head_requests = 0, unexpected_requests = 0\<rparr>
     (vc_witness verify_calls) = Some (Inr \<lparr>exact_head_requests = 1, unexpected_requests = 0\<rparr>)"
proof -
  let ?path = "CHR ''/'' # replicate 32 CHR ''0''"
  have fresh: "CHR 0x0D \<notin> set (head_line ?path)" by (simp add: head_line_def)
  have ends: "find_sub HEAD_END probe_request_text = Some (length probe_request_text - 4)"
  proof -
    have "find_sub HEAD_END (x @ HEAD_END) = Some (length x)" if "CHR 0x0D \<notin> set x" for x
      using that by (induction x) (auto simp: HEAD_END_def LINE_END_def starts_with_def)
    from this [OF fresh] show ?thesis by (simp add: probe_request_text_def HEAD_END_def LINE_END_def)
  qed
  have "is_head ?path probe_request_text"
    using find_line_end [OF fresh, of LINE_END] by (simp add: is_head_def probe_request_text_def HEAD_END_def)
  then have "witness_exact ?path True [Bytes probe_request_text] = Inr True"
    using receive_head_steady [of "[Bytes probe_request_text]" "[]" probe_request_text ?path] ends
    by (simp add: witness_exact_def steady_stream_def probe_request_text_def head_line_def HEAD_END_def LINE_END_def REQUEST_LIMIT_def)
  then show ?thesis by (simp add: verify_calls_def)
qed

section \<open>The login\<close>

lemma verify_source: "yields (verification_auth_source run_host [RootDir]) (run_file ''auth.json'')"
proof -
  have homes: "live_homes (host_env run_host) = []" by (simp add: live_homes_def run_calls)
  show ?thesis
    unfolding verification_auth_source_def verification_auth_source_with_live_def homes io_each.simps
    by (rule yields_ensure, simp add: is_absolute_def, rule yields_then [OF yields_map_err [OF run_chain]],
        rule yields_call [OF run_calls(8)], rule yields_then [OF yields_basic(1)])
      (simp add: yields_basic run_file_def path_join_def is_absolute_def)
qed

lemma verify_stat: "run_stat (run_file ''auth.json'') = example_stat" "run_file ''auth.json'' \<notin> set CONTAINER_FILES"
  by (simp_all add: run_stat_def run_file_def run_directories_def CONTAINER_FILES_def absolute_def)

lemma verify_taken: "yields (read_taken run_host 4 (MAX_VERIFICATION_AUTH_BYTES + 1) []) (ELF_MAGIC @ ''x'')"
  by (simp add: yields_def read_taken.simps run_host_def ELF_MAGIC_def MAX_VERIFICATION_AUTH_BYTES_def)

lemma verify_auth:
  "yields (read_verification_auth run_host run_sha (run_file ''auth.json'') [RootDir])
     (run_bound ''auth.json'', ELF_MAGIC @ ''x'')"
proof -
  have lstat: "host_lstat run_host t (run_file ''auth.json'') = Inr example_stat" for t
    by (simp add: run_calls verify_stat)
  have bound: "yields (open_limited run_host run_sha (run_file ''auth.json'') MAX_VERIFICATION_AUTH_BYTES) (run_bound ''auth.json'')"
    by (rule run_open) (simp_all add: verify_stat MAX_VERIFICATION_AUTH_BYTES_def)
  have recheck: "yields (bound_recheck run_host (run_bound ''auth.json'')) ()"
    using run_recheck by (simp add: bound_recheck_def run_bound_def)
  show ?thesis
    unfolding read_verification_auth_def run_parent ok_or_def option.case
    by (rule yields_ensure, simp add: is_absolute_def run_file_def, rule yields_call [OF lstat], rule yields_ensure,
        simp add: example_stat_def MAX_VERIFICATION_AUTH_BYTES_def, rule yields_ensure, simp add: example_stat_def,
        rule yields_pure, rule refl, rule yields_then [OF yields_map_err [OF run_chain]], rule yields_call [OF run_calls(8)],
        rule yields_then [OF yields_map_err [OF bound]], rule yields_call [OF run_calls(11)],
        rule yields_then [OF verify_taken], rule yields_ensure, simp add: run_bound_def ELF_MAGIC_def run_sha_hex,
        rule yields_then [OF yields_map_err [OF recheck]], rule yields_then [OF yields_map_err [OF run_chain]])
      (rule yields_basic)
qed


section \<open>The run\<close>

text \<open>A program that always ends with the same value.\<close>

definition gives :: "('f, 'a) program \<Rightarrow> 'a \<Rightarrow> bool" where
  "gives m x = (\<forall>t. value_of (m t) = x)"

lemma givesD: "gives m x \<Longrightarrow> \<exists>l t'. m t = (l, t', x)"
  unfolding gives_def value_of_def by (metis prod.collapse)

lemma gives_basic:
  "gives (done_with x) x" "(\<And>t. f t = x) \<Longrightarrow> gives (ask f) x" "(\<And>t. g t = x) \<Longrightarrow> gives (act a g) x"
  "(\<And>t. h t = y) \<Longrightarrow> gives (act_ok a h) y" "yields n z \<Longrightarrow> gives (perform n) (Inr z)"
  by (simp_all add: gives_def value_of_def done_with_def ask_def act_def act_ok_def perform_def yields_def split_beta)

lemma gives_next: "\<lbrakk>gives m x; gives (k x) y\<rbrakk> \<Longrightarrow> gives (and_next m k) y"
  by (simp add: gives_def value_of_def and_next_def split_beta)

lemma gives_if_ok: "\<lbrakk>gives m (Inr x); gives (k x) y\<rbrakk> \<Longrightarrow> gives (if_ok m err k) y"
  unfolding if_ok_def by (rule gives_next) auto

lemma gives_orfail: "\<lbrakk>gives m (Inr x); gives (k x) y\<rbrakk> \<Longrightarrow> gives (orfail m err k) y"
  unfolding orfail_def by (rule gives_next) auto

lemma gives_relabel: "gives m x \<Longrightarrow> gives (relabel action res m) (res x)"
  by (simp add: gives_def value_of_def relabel_def split_beta)

lemma gives_settle: "gives m x \<Longrightarrow> gives (settle m) (Some x)"
  unfolding settle_def by (erule gives_next) (rule gives_basic)

lemma gives_unless: "\<lbrakk>\<not> c; gives m x\<rbrakk> \<Longrightarrow> gives (if c then n else m) x"
  by simp

lemma gives_completes: "completes m L x \<Longrightarrow> gives m x"
  by (simp add: completes_def gives_def)

lemma gives_both: "\<lbrakk>gives m (Inr ()); gives n (Inr ())\<rbrakk> \<Longrightarrow> gives (both_cleanups m n) (Inr ())"
  unfolding both_cleanups_def
  by (rule gives_next, assumption, rule gives_next, assumption) (simp add: combine_cleanup_def gives_basic)

abbreviation verify_launch :: launch_calls where
  "verify_launch \<equiv> run_launch\<lparr>lc_rounds := [\<lparr>wr_interrupted = False, wr_expired = False, wr_status = Inr (Some (Exited 0))\<rparr>]\<rparr>"

lemma verify_answers:
  "vc_launch verify_calls = verify_launch" "vc_terminal verify_calls t" "vc_confirm_interrupt verify_calls t = Inr ()"
  "vc_temp verify_calls t d = Inr [RootDir]" "vc_protect verify_calls t path = Inr ()" "vc_close verify_calls t d = Inr ()"
  "vc_git verify_calls t c = Inr (Exited 0)" "vc_git_output verify_calls t c = Inr (Exited 0, [])"
  "vc_create_dir verify_calls t path = Inr ()" "vc_write verify_calls t path s = Inr ()"
  "vc_init_audit verify_calls t = Inr ()" "vc_create verify_calls t path = Inr ()" "vc_broker_start verify_calls t = Inr ()"
  "vc_spawn_tree verify_calls t path command = Inr 9" "vc_child verify_calls = example_child"
  "vc_audit verify_calls t = Inr \<lparr>audit_is_file = True, audit_len = 600, audit_bytes = Some verify_log\<rparr>"
  "vc_crypto verify_calls = verify_crypto"
  by (simp_all add: verify_calls_def)

lemma verify_inspect: "gives (codex_inspect run_host run_tok verify_launch) (Inr run_installed)"
proof -
  have version: "version_of verify_launch = version_of run_launch"
    by (rule ext) (simp add: version_of_def)
  have "codex_inspect run_host run_tok verify_launch = codex_inspect run_host run_tok run_launch"
    unfolding codex_inspect_def version by simp
  then show ?thesis using gives_completes [OF run_codex] by simp
qed

definition verify_target :: verification_target where
  "verify_target =
     \<lparr>target_version = ''0.156.1'', target_operating_system_of = OsLinux, target_surface_of = LocalCli,
      target_hook_protocol = SUPPORTED_HOOK_PROTOCOL, target_observed_tool_type = ''Bash''\<rparr>"

lemma verify_preflight:
  "gives (verification_preflight run_host run_tok verify_calls [RootDir] None)
     (Inr (run_file ''auth.json'', run_installed, verify_target, verify_command, CHR ''/'' # replicate 32 CHR ''0''))"
proof -
  have target: "resolved_verification_target OsLinux (installation_version run_installed) = Some verify_target"
    by (simp add: resolved_verification_target_def verification_schema_def verification_schema_for_def run_installed_def
        verify_target_def)
  have version: "installation_version run_installed = target_version verify_target"
    by (simp add: run_installed_def verify_target_def)
  have last: "gives (preflight_target verify_calls source run_installed)
      (Inr (source, run_installed, verify_target, verify_command, CHR ''/'' # replicate 32 CHR ''0''))" for source
    unfolding preflight_target_def target option.case verify_probe
    by (simp add: version, rule gives_if_ok, rule gives_basic(1), simp only: prod.case, rule gives_if_ok, rule gives_basic(2),
        rule verify_answers, rule gives_basic(1))
  show ?thesis
    unfolding verification_preflight_def verify_answers(1)
    by (rule gives_next, rule gives_basic(5) [OF run_surface], rule gives_unless, simp, rule gives_next,
        rule gives_basic(2) [where x = True], simp add: verify_answers, rule gives_unless, simp, rule gives_if_ok, rule gives_basic(5) [OF run_surface],
        rule gives_unless, simp, simp only: option.case and_next_done, rule gives_unless, simp,
        rule gives_if_ok, rule gives_basic(5) [OF verify_source], rule gives_if_ok,
        rule gives_relabel [OF verify_inspect], rule last)
qed

lemma verify_dir: "gives (private_verification_tempdir run_host verify_calls d) (Inr [RootDir])"
  unfolding private_verification_tempdir_def
  by (rule gives_if_ok, rule gives_basic(4), rule verify_answers, rule gives_next, rule gives_basic(2), rule verify_answers,
      simp only: sum.case, rule gives_next, rule gives_basic(5) [OF run_chain]) (simp add: gives_basic)

lemma verify_git: "gives (run_git run_host verify_calls path args) (Inr ())"
  unfolding run_git_def Let_def
  by (rule gives_if_ok, rule gives_basic(3), rule verify_answers) (simp add: status_success_def gives_basic)

lemma verify_status: "gives (temporary_repository_status run_host verify_calls path) (Inr \<lparr>repository_entries = []\<rparr>)"
  unfolding temporary_repository_status_def Let_def
  by (rule gives_if_ok, rule gives_basic(3), rule verify_answers)
    (simp add: status_success_def gives_basic text_lines_def)

lemma verify_initialize: "gives (initialize_temporary_repository run_host verify_calls path) (Inr ())"
proof -
  have baseline: "gives (verify_clean_baseline run_host verify_calls path) (Inr \<lparr>repository_entries = []\<rparr>)"
    unfolding verify_clean_baseline_def
    by (rule gives_if_ok [OF verify_status]) (simp add: repository_is_clean_def gives_basic)
  show ?thesis
    unfolding initialize_temporary_repository_def Let_def
    by (rule gives_if_ok [OF verify_git], rule gives_if_ok, rule gives_basic(3), rule verify_answers, rule gives_if_ok,
        rule gives_basic(3), rule verify_answers, rule gives_if_ok [OF verify_git], rule gives_if_ok [OF verify_git],
        rule gives_if_ok [OF baseline], rule gives_basic(1))
qed

definition verify_state :: verification_state where
  "verify_state = \<lparr>vs_repository = [RootDir], vs_evidence = [RootDir], vs_codex_home = [RootDir]\<rparr>"

lemma verify_new: "gives (verification_state_new run_host verify_calls) (Inr verify_state)"
  unfolding verification_state_new_def
  by (rule gives_if_ok [OF verify_dir], rule gives_next [OF verify_dir], simp only: sum.case, rule gives_next [OF verify_dir],
      simp only: sum.case, rule gives_next [OF verify_initialize], simp only: sum.case, rule gives_next,
      rule gives_basic(4), rule verify_answers, simp only: sum.case)
    (simp add: verify_state_def gives_basic)

lemma verify_stage: "gives (stage_verification_auth run_host run_sha verify_calls (run_file ''auth.json'') [RootDir]) (Inr ())"
proof -
  have recheck: "yields (bound_recheck run_host (run_bound ''auth.json'')) ()"
    using run_recheck by (simp add: bound_recheck_def run_bound_def)
  show ?thesis
    unfolding stage_verification_auth_def Let_def
    by (rule gives_if_ok, rule gives_basic(5) [OF verify_auth], simp only: prod.case, rule gives_if_ok, rule gives_basic(4),
        rule verify_answers, rule gives_if_ok, rule gives_basic(3), rule verify_answers, rule gives_if_ok,
        rule gives_basic(5) [OF recheck], rule gives_basic(1))
qed

lemma verify_cleanup:
  "gives (broker_shutdown verify_calls) (Inr ())" "gives (cleanup_verification_state verify_calls) (Inr ())"
proof -
  have launch: "lc_broker_shutdown (vc_launch verify_calls) t = Inr ()" "lc_session_cleanup (vc_launch verify_calls) t = Inr ()" for t
    by (simp_all add: verify_answers run_launch_calls)
  show "gives (broker_shutdown verify_calls) (Inr ())"
    unfolding broker_shutdown_def by (rule gives_next, rule gives_basic(3), rule launch) (simp add: gives_basic)
  have session: "gives (session_cleanup verify_calls) (Inr ())"
    unfolding session_cleanup_def by (rule gives_next, rule gives_basic(3), rule launch) (simp add: gives_basic)
  have "gives (close_temp verify_calls d) (Inr ())" for d
    unfolding close_temp_def by (rule gives_next, rule gives_basic(3), rule verify_answers) (simp add: gives_basic)
  then show "gives (cleanup_verification_state verify_calls) (Inr ())"
    unfolding cleanup_verification_state_def close_temp_dirs_def by (intro gives_both session)
qed

lemma verify_evidence:
  "gives (read_evidence verify_calls verify_target verify_command)
     (Inr \<lparr>ev_attempts = 1, ev_invocations = 1, ev_allows = 1, ev_exact = 1, ev_emitted = 1\<rparr>)"
proof -
  have tool: "target_observed_tool_type verify_target = ''Bash''" by (simp add: verify_target_def)
  note counts = verify_counts [OF refl]
  show ?thesis
    unfolding read_evidence_def Let_def tool verify_answers verify_input_def [symmetric] counts
    by (rule gives_if_ok, rule gives_basic(2), rule refl)+ (rule gives_basic(1))
qed

lemma verify_judge:
  "gives (judge run_host run_sha verify_calls False verify_target verify_command path True
     \<lparr>exact_head_requests = 1, unexpected_requests = 0\<rparr> (Exited 0)) (Inr 0)"
  unfolding judge_def
  by (rule gives_next [OF verify_evidence], simp only: sum.case, rule gives_next [OF verify_status], simp only: sum.case if_False,
      unfold and_next_done, rule gives_next [OF verify_cleanup(2)])
    (simp add: gives_basic verdict_def repository_is_clean_def status_success_def)

lemma verify_finish:
  "gives (finish_verification run_host run_sha verify_calls False verify_target verify_command (CHR ''/'' # replicate 32 CHR ''0'')
     path 9 (Exited 0)) (Some (Inr 0))"
proof -
  have stop: "gives (tree_stop (vc_child verify_calls) 9) (Inr ())"
    unfolding tree_stop_def verify_answers
    by (simp, rule gives_next, rule gives_basic(3) [where x = GroupKilled]) (simp_all add: gives_basic example_child_def)
  show ?thesis
    unfolding finish_verification_def
    by (rule gives_next, rule gives_relabel [OF stop], simp only: sum.case, rule gives_next, rule gives_basic(3), rule refl,
        rule gives_next [OF verify_cleanup(1)], simp only: sum.case, rule gives_next, rule gives_basic(3), rule verify_witness,
        simp only: option.case sum.case, rule gives_settle [OF verify_judge])
qed

lemma verify_supervise:
  "gives (supervise_verification run_host run_sha verify_calls False verify_target verify_command
     (CHR ''/'' # replicate 32 CHR ''0'') path 9) (Some (Inr 0))"
proof -
  have launch: "current_process_identity (lc_reader verify_launch) t 9 = Inr run_identity"
      "lc_set_identity verify_launch t = Inr ()" "lc_interrupt verify_launch t = Inr ()" for t
    using run_launch_calls by simp_all
  have waits: "gives (wait_for_bound_child (lc_rounds verify_launch) (Some stop)) (Some (Inr (Exited 0)))" for stop
    by (simp add: gives_def value_of_def program_run returns_def)
  show ?thesis
    unfolding supervise_verification_def Let_def verify_answers(1)
    by (rule gives_next, rule gives_basic(2), rule launch, simp only: sum.case, rule gives_next, rule gives_basic(4),
        rule launch, simp only: sum.case, rule gives_next, rule gives_basic(2), rule launch, simp only: sum.case,
        rule gives_next, rule gives_relabel [OF waits], simp only: option.case sum.case, rule verify_finish)
qed

definition verify_session :: session where
  "verify_session = \<lparr>session_socket = ''/s'', session_secret_text = zeros, session_audit = ''/a''\<rparr>"

lemma verify_armed: "\<exists>c. session_arm_child verify_session command = Inr c"
proof -
  have "valid_token (Some zeros)"
    by (simp add: valid_token_def zeros_def TOKEN_BYTES_def text_eval list_all_iff)
  then show ?thesis by (simp add: session_arm_child_def arm_child_def verify_session_def)
qed

lemma verify_start:
  "gives (start_verification run_host run_sha verify_calls False run_installed verify_target verify_command
     (CHR ''/'' # replicate 32 CHR ''0'') launcher verify_state verify_session) (Some (Inr 0))"
proof -
  have hook: "gives (absolute_path run_host path) path" for path
    unfolding absolute_path_def by (rule gives_basic(2)) (simp add: run_calls)
  obtain armed where armed: "session_arm_child verify_session (verification_command (host_env run_host) run_installed
      (hook_command_value OsLinux (path_text launcher)) verify_command (vs_codex_home verify_state)) = Inr armed"
    using verify_armed by blast
  show ?thesis
    unfolding start_verification_def
    by (rule gives_next, rule gives_basic(4), rule verify_answers, simp only: sum.case, rule gives_next,
        rule gives_relabel [OF hook], simp only: armed sum.case, rule gives_next [OF verify_status],
        simp only: sum.case, rule gives_unless, simp add: repository_is_clean_def, rule gives_next, rule gives_basic(4),
        rule verify_answers, simp only: sum.case, rule verify_supervise)
qed

lemma verify_prepare:
  "gives (prepare_verification run_host run_sha verify_calls False (run_file ''auth.json'') run_installed verify_target
     verify_command (CHR ''/'' # replicate 32 CHR ''0'') launcher) (Some (Inr 0))"
proof -
  have session: "lc_session (vc_launch verify_calls) t = Inr verify_session" for t
    using run_launch_calls(14) by (simp add: verify_answers verify_session_def)
  have home: "vs_codex_home verify_state = [RootDir]" by (simp add: verify_state_def)
  show ?thesis
    unfolding prepare_verification_def
    by (rule gives_orfail [OF verify_new], unfold home, rule gives_next [OF verify_stage], simp only: sum.case, rule gives_next,
        rule gives_basic(4), rule session, simp only: sum.case, rule verify_start)
qed

lemma verify_confirmed: "confirm_with_timeout verify_target (vc_confirm verify_calls) = Some (Inr ())"
  by (simp add: verify_calls_def confirmation_matches_def confirmation_phrase_def verify_target_def)

lemma verify_succeeds:
  "gives (verify_local_hook run_host run_tok run_sha verify_calls [RootDir] None) (Some (Inr 0))"
proof -
  have version: "gives (version_of (vc_launch verify_calls) path) (Some ''0.156.1'')" for path
    unfolding version_of_def by (rule gives_basic(2)) (simp add: verify_answers run_launch_calls run_version)
  have launcher: "lc_current_exe (vc_launch verify_calls) t = Inr [RootDir, Normal ''hook'']" for t
    by (simp add: verify_answers run_launch_calls)
  show ?thesis
    unfolding verify_local_hook_def
    by (rule gives_orfail [OF verify_preflight], simp only: prod.case verify_confirmed option.case sum.case, rule gives_next,
        rule gives_relabel [OF version], simp only: option.case, rule gives_unless,
        simp add: verification_version_matches_def verify_target_def, rule gives_orfail, rule gives_basic(2), rule launcher)
      (use verify_prepare in simp)
qed

section \<open>Where the properties apply\<close>

theorem verification_success_sound_witness:
  "\<exists>l t' installation target command witness state session.
     verify_local_hook run_host run_tok run_sha verify_calls [RootDir] None 0 = (l, t', Some (Inr 0)) \<and>
     resolved_verification_target OsLinux (installation_version installation) = Some target \<and>
     confirm_with_timeout target (vc_confirm verify_calls) = Some (Inr ()) \<and>
     verified_child run_host verify_calls installation target command witness state session l t'"
proof -
  obtain l t' where run: "verify_local_hook run_host run_tok run_sha verify_calls [RootDir] None 0 = (l, t', Some (Inr 0))"
    using givesD [OF verify_succeeds] by blast
  from verification_success_sound [OF run] obtain installation target command witness state session where
      "resolved_verification_target OsLinux (installation_version installation) = Some target"
      "confirm_with_timeout target (vc_confirm verify_calls) = Some (Inr ())"
      "verified_child run_host verify_calls installation target command witness state session l t'"
    by (elim conjE exE)
  with run show ?thesis by (intro exI conjI)
qed

theorem verification_leaves_nothing_witness:
  "\<exists>l t'. verify_local_hook run_host run_tok run_sha verify_calls [RootDir] None 0 = (l, t', Some (Inr 0)) \<and>
     replay_at (keep_at verify_calls) l ({}, {}) = ({}, {})"
proof -
  obtain l t' where run: "verify_local_hook run_host run_tok run_sha verify_calls [RootDir] None 0 = (l, t', Some (Inr 0))"
    using givesD [OF verify_succeeds] by blast
  have "vc_spawn_tree verify_calls t path command \<noteq> Inr 0" for t path command
    by (simp add: verify_answers)
  from verification_leaves_nothing [OF this run] have "replay_at (keep_at verify_calls) l ({}, {}) = ({}, {})"
    by (simp add: case_prod_beta prod_eq_iff)
  with run show ?thesis by blast
qed

end
