(* ===== verification/Session_Files.thy ===== *)
theory Session_Files
  imports Launcher
begin

text \<open>
  The files of a session, \<^verbatim>\<open>Session\<close> and the start of the broker in \<^verbatim>\<open>src/broker/linux.rs\<close>: the
  private directories, the socket in one of them, the log in the other, and what removes them.
\<close>

section \<open>The calls\<close>

datatype session_kind = DirectoryInode | SocketInode | AnotherInode

record session_stat =
  ss_kind :: session_kind
  ss_uid :: u32
  ss_mode :: u32

record session_calls =
  se_euid :: u32
  se_env :: environment
  se_lstat :: "nat \<Rightarrow> path \<Rightarrow> (io_kind, session_stat) result"
  se_tempdir :: "nat \<Rightarrow> path \<Rightarrow> (io_kind, path) result"
  se_chmod :: "nat \<Rightarrow> path \<Rightarrow> (io_kind, unit) result"
  se_bind :: "nat \<Rightarrow> path \<Rightarrow> (io_kind, unit) result"
  se_remove :: "nat \<Rightarrow> path \<Rightarrow> (io_kind, unit) result"
  se_random :: "u8 list option"
  se_audit :: "nat \<Rightarrow> path \<Rightarrow> (io_error, unit) result"
  se_close :: "nat \<Rightarrow> path \<Rightarrow> (io_kind, unit) result"
  se_drop :: "nat \<Rightarrow> path \<Rightarrow> (io_kind, unit) result"
  se_nonblocking :: "nat \<Rightarrow> (io_kind, unit) result"
  se_thread :: "nat \<Rightarrow> (io_kind, unit) result"

datatype session_error =
    RuntimeIo io_kind
  | NotOwnDirectory
  | NotPrivate
  | UnsafeDirectory
  | SocketPathLong
  | SocketReused
  | SecretFails
  | AuditSetup io_error
  | SocketIo io_kind
  | UnsafeSocket
  | UnsafeReplacement
  | CloseFails io_kind
  | ThreadFails io_kind

text \<open>A temporary directory that is dropped, or closed, is removed with what is in it, unless the removal fails.  What
  becomes of the removal is the result of \<^verbatim>\<open>close\<close>; a drop does not say, and the program does not see \<open>se_drop\<close>.\<close>

datatype session_action =
    DirMade path
  | DirDropped path
  | DirClosed path
  | ProbeBound path
  | ProbeRemoved path
  | AuditMade path
  | SocketBound path
  | SocketRemoved path
  | ThreadStarted

type_synonym 'a session_program = "(session_action, (session_error, 'a) result) program"

definition drop_dir :: "session_calls \<Rightarrow> path \<Rightarrow> (session_action, unit) program" where
  "drop_dir se path = and_next (act (DirDropped path) (\<lambda>t. se_drop se t path)) (\<lambda>_. done_with ())"

definition close_dir :: "session_calls \<Rightarrow> path \<Rightarrow> (session_action, (io_kind, unit) result) program" where
  "close_dir se path = act (DirClosed path) (\<lambda>t. se_close se t path)"

abbreviation or_drop ::
    "session_calls \<Rightarrow> path \<Rightarrow> 'a session_program \<Rightarrow> ('a \<Rightarrow> 'b session_program) \<Rightarrow> 'b session_program" where
  "or_drop se path \<equiv> or_undo (drop_dir se path)"

section \<open>Directories\<close>

definition is_private_inode :: "session_calls \<Rightarrow> session_kind \<Rightarrow> u32 \<Rightarrow> session_stat \<Rightarrow> bool" where
  "is_private_inode se kind mode m = (ss_kind m = kind \<and> ss_uid m = se_euid se \<and> ss_mode m AND 0x1FF = mode)"

definition validate_runtime_dir :: "session_calls \<Rightarrow> path \<Rightarrow> unit session_program" where
  "validate_runtime_dir se path =
     if_ok (ask (\<lambda>t. se_lstat se t path)) RuntimeIo (\<lambda>m.
     if ss_kind m \<noteq> DirectoryInode \<or> ss_uid m \<noteq> se_euid se then done_with (Inl NotOwnDirectory)
     else if ss_mode m AND 0x1FF \<noteq> 0x1C0 then done_with (Inl NotPrivate)
     else done_with (Inr ()))"

definition validate_private_directory :: "session_calls \<Rightarrow> path \<Rightarrow> unit session_program" where
  "validate_private_directory se path =
     if_ok (ask (\<lambda>t. se_lstat se t path)) RuntimeIo (\<lambda>m.
     done_with (if is_private_inode se DirectoryInode 0x1C0 m then Inr () else Inl UnsafeDirectory))"

definition private_tempdir_in :: "session_calls \<Rightarrow> path \<Rightarrow> path session_program" where
  "private_tempdir_in se parent =
     if_ok (act_got DirMade (\<lambda>t. se_tempdir se t parent)) RuntimeIo (\<lambda>dir.
     let probe = path_join dir [Normal ''socket-probe''] in
     or_drop se dir (if_ok (ask (\<lambda>t. se_chmod se t dir)) RuntimeIo (\<lambda>_. done_with (Inr ()))) (\<lambda>_.
     or_drop se dir (validate_private_directory se dir) (\<lambda>_.
     or_drop se dir (if_ok (act_ok (ProbeBound probe) (\<lambda>t. se_bind se t probe)) SocketIo (\<lambda>_. done_with (Inr ()))) (\<lambda>_.
     or_drop se dir (if_ok (act (ProbeRemoved probe) (\<lambda>t. se_remove se t probe)) SocketIo (\<lambda>_. done_with (Inr ()))) (\<lambda>_.
     done_with (Inr dir))))))"

definition system_temp_dir :: "environment \<Rightarrow> path" where
  "system_temp_dir env = path_of_string (case env ''TMPDIR'' of Some d \<Rightarrow> d | None \<Rightarrow> ''/tmp'')"

definition create_private_runtime_directory :: "session_calls \<Rightarrow> path session_program" where
  "create_private_runtime_directory se =
     (case se_env se ''XDG_RUNTIME_DIR'' of
        None \<Rightarrow> private_tempdir_in se (system_temp_dir (se_env se))
      | Some d \<Rightarrow>
          and_next (validate_runtime_dir se (path_of_string d)) (\<lambda>valid.
          if \<not> is_ok valid then private_tempdir_in se (system_temp_dir (se_env se))
          else and_next (private_tempdir_in se (path_of_string d)) (\<lambda>r.
            case r of Inr dir \<Rightarrow> done_with (Inr dir) | Inl e \<Rightarrow> private_tempdir_in se (system_temp_dir (se_env se)))))"

section \<open>The session\<close>

definition MAX_RUNTIME_SOCKET_PATH_BYTES :: nat where
  "MAX_RUNTIME_SOCKET_PATH_BYTES = 100"

record session_files =
  sf_runtime :: path
  sf_audit_runtime :: path
  sf_socket :: path
  sf_audit :: path
  sf_secret :: string

definition session_create :: "session_calls \<Rightarrow> session_files session_program" where
  "session_create se =
     if_ok (create_private_runtime_directory se) (\<lambda>e. e) (\<lambda>runtime.
     let socket = path_join runtime [Normal ''broker.sock''] in
     if MAX_RUNTIME_SOCKET_PATH_BYTES < length (path_text socket)
     then and_next (close_dir se runtime) (\<lambda>_. done_with (Inl SocketPathLong)) else
     and_next (ask (\<lambda>t. se_lstat se t socket)) (\<lambda>found.
     if is_ok found then and_next (close_dir se runtime) (\<lambda>_. done_with (Inl SocketReused)) else
     or_drop se runtime (done_with (map_err (\<lambda>_. SecretFails) (new_secret (se_random se)))) (\<lambda>secret.
     or_drop se runtime (create_private_runtime_directory se) (\<lambda>audit_runtime.
     let audit = path_join audit_runtime [Normal ''hook-audit.log''] in
     or_drop se runtime
       (or_drop se audit_runtime (if_ok (act_ok (AuditMade audit) (\<lambda>t. se_audit se t audit)) AuditSetup (\<lambda>_. done_with (Inr ())))
         (\<lambda>_. done_with (Inr ()))) (\<lambda>_.
     done_with (Inr \<lparr>sf_runtime = runtime, sf_audit_runtime = audit_runtime, sf_socket = socket, sf_audit = audit,
                     sf_secret = secret\<rparr>))))))"

definition remove_socket_safely :: "session_calls \<Rightarrow> path \<Rightarrow> unit session_program" where
  "remove_socket_safely se path =
     and_next (ask (\<lambda>t. se_lstat se t path)) (\<lambda>r.
     case r of
       Inr m \<Rightarrow>
         if \<not> is_private_inode se SocketInode 0x180 m then done_with (Inl UnsafeReplacement)
         else if_ok (act (SocketRemoved path) (\<lambda>t. se_remove se t path)) SocketIo (\<lambda>_. done_with (Inr ()))
     | Inl e \<Rightarrow> done_with (if e = KindNotFound then Inr () else Inl (SocketIo e)))"

text \<open>The session is given up: what an early return leaves is dropped.\<close>

definition cleanup_session :: "session_calls \<Rightarrow> session_files \<Rightarrow> unit session_program" where
  "cleanup_session se s =
     and_next (remove_socket_safely se (sf_socket s)) (\<lambda>r.
     case r of
       Inl e \<Rightarrow> and_next (drop_dir se (sf_runtime s)) (\<lambda>_. and_next (drop_dir se (sf_audit_runtime s)) (\<lambda>_. done_with (Inl e)))
     | Inr _ \<Rightarrow>
         and_next (close_dir se (sf_runtime s)) (\<lambda>r.
         case r of
           Inl e \<Rightarrow> and_next (drop_dir se (sf_audit_runtime s)) (\<lambda>_. done_with (Inl (CloseFails e)))
         | Inr _ \<Rightarrow>
             if_ok (close_dir se (sf_audit_runtime s)) CloseFails (\<lambda>_. done_with (Inr ()))))"

section \<open>The start of the broker\<close>

definition validate_socket :: "session_calls \<Rightarrow> path \<Rightarrow> unit session_program" where
  "validate_socket se path =
     if_ok (ask (\<lambda>t. se_lstat se t path)) SocketIo (\<lambda>m.
     done_with (if is_private_inode se SocketInode 0x180 m then Inr () else Inl UnsafeSocket))"

definition broker_listen :: "session_calls \<Rightarrow> path \<Rightarrow> unit session_program" where
  "broker_listen se socket =
     if_ok (act_ok (SocketBound socket) (\<lambda>t. se_bind se t socket)) SocketIo (\<lambda>_.
     and_next
       (if_ok (ask (\<lambda>t. se_chmod se t socket)) SocketIo (\<lambda>_.
        if_ok (validate_socket se socket) (\<lambda>e. e) (\<lambda>_.
        if_ok (ask (se_nonblocking se)) SocketIo (\<lambda>_. done_with (Inr ()))))) (\<lambda>r.
     case r of Inl e \<Rightarrow> and_next (remove_socket_safely se socket) (\<lambda>_. done_with (Inl e)) | Inr _ \<Rightarrow>
     and_next (act_ok ThreadStarted (se_thread se)) (\<lambda>r.
     case r of Inl e \<Rightarrow> and_next (remove_socket_safely se socket) (\<lambda>_. done_with (Inl (ThreadFails e)))
     | Inr _ \<Rightarrow> done_with (Inr ()))))"

section \<open>Nothing is left\<close>

text \<open>The directories that were made and whose removal was not tried yet, and those whose removal was tried and failed at
  that moment: what is still in the file system is in one of the two.\<close>

fun dir_at :: "session_calls \<Rightarrow> nat \<Rightarrow> session_action \<Rightarrow> path set \<times> path set \<Rightarrow> path set \<times> path set" where
  "dir_at se t (DirMade path) s = (insert path (fst s), snd s)"
| "dir_at se t (DirDropped path) s = (fst s - {path}, if is_ok (se_drop se t path) then snd s else insert path (snd s))"
| "dir_at se t (DirClosed path) s = (fst s - {path}, if is_ok (se_close se t path) then snd s else insert path (snd s))"
| "dir_at se t _ s = s"

lemma wp_drop_dir [wp_intros]:
  "(\<And>stuck. Q () (fst s - {path}, stuck)) \<Longrightarrow> wp_at (dir_at se) (drop_dir se path) Q s"
  unfolding drop_dir_def by (auto intro!: wp_intros)

lemma wp_close_dir [wp_intros]:
  "\<lbrakk>Q (Inr ()) (fst s - {path}, snd s); \<And>e. Q (Inl e) (fst s - {path}, insert path (snd s))\<rbrakk> \<Longrightarrow>
   wp_at (dir_at se) (close_dir se path) Q s"
  unfolding close_dir_def by (auto intro!: wp_intros simp: is_ok_iff) (metis old.unit.exhaust sum.exhaust)+

definition makes_one :: "path set \<times> path set \<Rightarrow> (session_error, path) result \<Rightarrow> path set \<times> path set \<Rightarrow> bool" where
  "makes_one s r s' = (case r of Inl e \<Rightarrow> fst s' \<subseteq> fst s | Inr dir \<Rightarrow> fst s' \<subseteq> insert dir (fst s))"

lemma makes_one_simps [simp]:
  "makes_one s (Inl e) s' = (fst s' \<subseteq> fst s)" "makes_one s (Inr dir) s' = (fst s' \<subseteq> insert dir (fst s))"
  by (simp_all add: makes_one_def)

lemma wp_session_tempdir: "wp_at (dir_at se) (private_tempdir_in se parent) (makes_one s) s"
  unfolding private_tempdir_in_def Let_def validate_private_directory_def
  by (auto intro!: wp_intros)

lemma wp_make_mono:
  "\<lbrakk>wp_at (dir_at se) m (makes_one s') s'; fst s' \<subseteq> fst s\<rbrakk> \<Longrightarrow> wp_at (dir_at se) m (makes_one s) s'"
  by (erule wp_mono) (auto simp: makes_one_def split: sum.splits)

lemma wp_runtime_directory: "wp_at (dir_at se) (create_private_runtime_directory se) (makes_one s) s"
proof -
  have valid: "wp_at (dir_at se) (validate_runtime_dir se path) (\<lambda>r s'. s' = s) s" for path
    unfolding validate_runtime_dir_def by (auto intro!: wp_intros)
  have two: "wp_at (dir_at se) (and_next (private_tempdir_in se a) (\<lambda>r.
      case r of Inr dir \<Rightarrow> done_with (Inr dir) | Inl e \<Rightarrow> private_tempdir_in se b)) (makes_one s) s" for a b s
    by (rule wp_next, rule wp_mono [OF wp_session_tempdir])
      (auto intro!: wp_done wp_make_mono [OF wp_session_tempdir] split: sum.splits)
  show ?thesis
    unfolding create_private_runtime_directory_def
    by (cases "se_env se ''XDG_RUNTIME_DIR''")
      (auto intro!: wp_session_tempdir wp_next wp_mono [OF valid] two)
qed

lemma wp_session_create:
  "wp_at (dir_at se) (session_create se)
     (\<lambda>r s. fst s \<subseteq> (case r of Inl e \<Rightarrow> {} | Inr f \<Rightarrow> {sf_runtime f, sf_audit_runtime f})) ({}, {})"
proof -
  have audit: "wp_at (dir_at se) (create_private_runtime_directory se)
      (\<lambda>r s'. (\<forall>e. r = Inl e \<longrightarrow> fst s' \<subseteq> fst s) \<and> (\<forall>x. r = Inr x \<longrightarrow> fst s' \<subseteq> insert x (fst s))) s" for s
    by (rule wp_mono [OF wp_runtime_directory]) (auto simp: makes_one_def)
  show ?thesis
    unfolding session_create_def Let_def
    by (rule wp_if_ok, rule wp_mono [OF audit [of "({}, {})"]])
      (auto intro!: wp_intros wp_mono [OF audit]; auto)
qed

lemma wp_remove_socket: "wp_at (dir_at se) (remove_socket_safely se path) (\<lambda>r s'. s' = s) s"
  unfolding remove_socket_safely_def by (auto intro!: wp_intros split: sum.splits)

lemma wp_cleanup_session:
  "fst s \<subseteq> {sf_runtime f, sf_audit_runtime f} \<Longrightarrow>
   wp_at (dir_at se) (cleanup_session se f) (\<lambda>r s'. fst s' = {} \<and> (r = Inr () \<longrightarrow> snd s' = snd s)) s"
  unfolding cleanup_session_def
  by (rule wp_next, rule wp_mono [OF wp_remove_socket]) (auto intro!: wp_intros split: sum.splits; blast)

text \<open>C17: a session that could not be created has tried to remove every directory it had made, wherever it failed; and the
  cleanup of a session tries to remove both of its directories on every path, also when it refuses to remove what is
  found in place of the socket or when a removal fails.  A cleanup that reports success has removed them: none
  was left by a removal that failed.\<close>

theorem session_leaves_nothing:
  assumes "session_create se t = (l, t', r)"
  shows "case r of Inl e \<Rightarrow> fst (replay_at (dir_at se) l ({}, {})) = {}
    | Inr f \<Rightarrow> \<forall>u l' u' r'. cleanup_session se f u = (l', u', r') \<longrightarrow>
        fst (replay_at (dir_at se) (l @ l') ({}, {})) = {} \<and>
        (r' = Inr () \<longrightarrow> snd (replay_at (dir_at se) (l @ l') ({}, {})) = snd (replay_at (dir_at se) l ({}, {})))"
proof (cases r)
  case (Inl e)
  then show ?thesis using wpD [OF wp_session_create assms] by simp
next
  case (Inr f)
  then have "fst (replay_at (dir_at se) l ({}, {})) \<subseteq> {sf_runtime f, sf_audit_runtime f}"
    using wpD [OF wp_session_create assms] by simp
  from wpD [OF wp_cleanup_session [OF this]] show ?thesis by (simp add: Inr)
qed

section \<open>Two directories\<close>

text \<open>The directories that are there, and whether each was made under a name that none of them had.\<close>

fun name_step :: "session_action \<Rightarrow> path set \<times> bool \<Rightarrow> path set \<times> bool" where
  "name_step (DirMade path) s = (insert path (fst s), snd s \<and> path \<notin> fst s)"
| "name_step (DirDropped path) s = (fst s - {path}, snd s)"
| "name_step (DirClosed path) s = (fst s - {path}, snd s)"
| "name_step _ s = s"

definition made_anew :: "session_action action_log \<Rightarrow> bool" where
  "made_anew l = snd (replay name_step l ({}, True))"

definition adds_one :: "path set \<times> bool \<Rightarrow> (session_error, path) result \<Rightarrow> path set \<times> bool \<Rightarrow> bool" where
  "adds_one s r s' = (snd s' \<longrightarrow> snd s \<and>
     (case r of Inl e \<Rightarrow> fst s' = fst s | Inr dir \<Rightarrow> dir \<notin> fst s \<and> fst s' = insert dir (fst s)))"

lemma adds_tempdir: "wp name_step (private_tempdir_in se parent) (adds_one s) s"
  unfolding private_tempdir_in_def Let_def validate_private_directory_def drop_dir_def
  by (auto intro!: wp_intros simp: adds_one_def)

lemma adds_runtime_directory: "wp name_step (create_private_runtime_directory se) (adds_one s) s"
proof -
  have valid: "wp name_step (validate_runtime_dir se path) (\<lambda>r s'. s' = s) s" for path
    unfolding validate_runtime_dir_def by (auto intro!: wp_intros)
  have two: "wp name_step (and_next (private_tempdir_in se a) (\<lambda>r.
      case r of Inr dir \<Rightarrow> done_with (Inr dir) | Inl e \<Rightarrow> private_tempdir_in se b)) (adds_one s) s" for a b s
    by (rule wp_next, rule wp_mono [OF adds_tempdir])
      (auto intro!: wp_done wp_mono [OF adds_tempdir] simp: adds_one_def split: sum.splits)
  show ?thesis
    unfolding create_private_runtime_directory_def
    by (cases "se_env se ''XDG_RUNTIME_DIR''")
      (auto intro!: adds_tempdir wp_next wp_mono [OF valid] two)
qed

lemma session_names_differ:
  "wp name_step (session_create se) (\<lambda>r s. \<forall>f. r = Inr f \<longrightarrow> snd s \<longrightarrow> sf_audit_runtime f \<noteq> sf_runtime f) ({}, True)"
proof -
  have made: "wp name_step (create_private_runtime_directory se)
      (\<lambda>r s'. (\<forall>x. r = Inr x \<longrightarrow> snd s' \<longrightarrow> snd s \<and> x \<notin> fst s \<and> fst s' = insert x (fst s))) s" for s
    by (rule wp_mono [OF adds_runtime_directory]) (auto simp: adds_one_def)
  show ?thesis
    unfolding session_create_def Let_def drop_dir_def close_dir_def
    by (rule wp_if_ok, rule wp_mono [OF made [of "({}, True)"]])
      (auto intro!: wp_intros wp_mono [OF made]; auto)
qed

section \<open>What is private\<close>

definition seen_private :: "session_calls \<Rightarrow> session_kind \<Rightarrow> u32 \<Rightarrow> path \<Rightarrow> nat \<Rightarrow> nat \<Rightarrow> bool" where
  "seen_private se kind mode path t t' =
     (\<exists>u m. t \<le> u \<and> u < t' \<and> se_lstat se u path = Inr m \<and>
        ss_kind m = kind \<and> ss_uid m = se_euid se \<and> ss_mode m AND 0x1FF = mode)"

lemma seen_private_mono:
  "\<lbrakk>seen_private se kind mode path t1 t2; t \<le> t1; t2 \<le> t'\<rbrakk> \<Longrightarrow> seen_private se kind mode path t t'"
  unfolding seen_private_def by (elim exE conjE, intro exI conjI) (erule (1) le_trans, erule (1) less_le_trans, assumption+)

lemma progress_drop_dir [progress_intros]: "progresses (drop_dir se path)"
  unfolding drop_dir_def by (intro progress_intros)

lemma progress_session [progress_intros]:
  "progresses (validate_runtime_dir se path)" "progresses (validate_private_directory se path)"
  "progresses (private_tempdir_in se path)"
  unfolding private_tempdir_in_def validate_private_directory_def validate_runtime_dir_def Let_def
  by (auto intro!: progress_intros)

lemma validate_private_Inr:
  "validate_private_directory se path t = (l, t', Inr u) \<Longrightarrow> t' = Suc t \<and>
     (\<exists>m. se_lstat se t path = Inr m \<and> ss_kind m = DirectoryInode \<and> ss_uid m = se_euid se \<and> ss_mode m AND 0x1FF = 0x1C0)"
  unfolding is_private_inode_def [symmetric]
  by (auto simp: validate_private_directory_def program_simps split: if_splits) (metis (no_types))

lemma private_tempdir_Inr:
  assumes "private_tempdir_in se parent t = (l, t', Inr dir)"
  shows "seen_private se DirectoryInode 0x1C0 dir t t'"
  using assms [unfolded private_tempdir_in_def Let_def if_ok_eq]
proof (elim exE conjE or_undoE)
  fix l1 t1 d l2 l3 t3 x l5 t5 y l6 l7 t7 z l8 l9 t9 w l10 l11
  assume made: "act_got DirMade (\<lambda>t. se_tempdir se t parent) t = (l1, t1, Inr d)"
    and mode: "if_ok (ask (\<lambda>t. se_chmod se t d)) RuntimeIo (\<lambda>_. done_with (Inr ())) t1 = (l3, t3, Inr x)"
    and seen: "validate_private_directory se d t3 = (l5, t5, Inr y)"
    and probes: "if_ok (act_ok (ProbeBound (path_join d [Normal ''socket-probe'']))
      (\<lambda>t. se_bind se t (path_join d [Normal ''socket-probe'']))) SocketIo (\<lambda>_. done_with (Inr ())) t5 = (l7, t7, Inr z)"
      "if_ok (act (ProbeRemoved (path_join d [Normal ''socket-probe'']))
      (\<lambda>t. se_remove se t (path_join d [Normal ''socket-probe'']))) SocketIo (\<lambda>_. done_with (Inr ())) t7 = (l9, t9, Inr w)"
    and last: "done_with (Inr d) t9 = (l11, t', Inr dir)"
  have "t3 = Suc (Suc t)" using made mode by (auto simp: program_simps)
  moreover have "t' = Suc (Suc t5)" "dir = d" using probes last by (auto simp: program_simps)
  ultimately show ?thesis
    using validate_private_Inr [OF seen] unfolding seen_private_def by (intro exI [of _ t3]) auto
qed

lemma private_tempdir_within:
  "\<lbrakk>private_tempdir_in se parent t1 = (l, t', Inr dir); t \<le> t1\<rbrakk> \<Longrightarrow> seen_private se DirectoryInode 0x1C0 dir t t'"
  using private_tempdir_Inr seen_private_mono by blast

lemma runtime_directory_Inr:
  assumes "create_private_runtime_directory se t = (l, t', Inr dir)"
  shows "seen_private se DirectoryInode 0x1C0 dir t t'"
proof (cases "se_env se ''XDG_RUNTIME_DIR''")
  case None
  then show ?thesis using assms private_tempdir_Inr by (simp add: create_private_runtime_directory_def)
next
  case (Some d)
  from assms [unfolded create_private_runtime_directory_def Some option.case] show ?thesis
  proof (cases rule: nextE)
    case valid: (1 l1 t1 r l2)
    have t1: "t \<le> t1" using progressesD [OF progress_session(1) valid(1)] by simp
    show ?thesis
    proof (cases "is_ok r")
      case False
      then show ?thesis using valid(2) t1 private_tempdir_within by simp
    next
      case True
      with valid(2) have "and_next (private_tempdir_in se (path_of_string d)) (\<lambda>r. case r of Inr dir \<Rightarrow> done_with (Inr dir)
          | Inl e \<Rightarrow> private_tempdir_in se (system_temp_dir (se_env se))) t1 = (l2, t', Inr dir)" by simp
      then show ?thesis
      proof (cases rule: next_sumE)
        case (Failed l3 t3 e l4)
        then show ?thesis
          using progressesD [OF progress_session(3) Failed(1)] t1 private_tempdir_within by (meson le_trans)
      next
        case (Worked l3 t3 x l4)
        then show ?thesis using t1 private_tempdir_within by (auto simp: done_with_eq)
      qed
    qed
  qed
qed

lemma progress_runtime [progress_intros]: "progresses (create_private_runtime_directory se)"
  unfolding create_private_runtime_directory_def by (auto intro!: progress_intros split: option.splits sum.splits)

text \<open>C16: a session that is created has its socket in a directory that was seen, after it was made, to belong to the user and
  to be open to nobody else, under a name that is short enough and was free; its log is in a second
  directory that was seen to be so, which is another one than that of the socket as long as a new directory is never given the
  name of one that is still there; and its secret is a token of the right length when the system fills the bytes
  that it is asked for.\<close>

theorem session_is_private:
  assumes "session_create se t = (l, t', Inr s)"
    and "made_anew l" "\<And>random. se_random se = Some random \<Longrightarrow> length random = TOKEN_BYTES"
  shows "sf_socket s = path_join (sf_runtime s) [Normal ''broker.sock''] \<and> length (path_text (sf_socket s)) \<le> 100 \<and>
    sf_audit s = path_join (sf_audit_runtime s) [Normal ''hook-audit.log''] \<and> sf_audit_runtime s \<noteq> sf_runtime s \<and>
    seen_private se DirectoryInode 0x1C0 (sf_runtime s) t t' \<and> seen_private se DirectoryInode 0x1C0 (sf_audit_runtime s) t t' \<and>
    (\<exists>u e. t \<le> u \<and> u < t' \<and> se_lstat se u (sf_socket s) = Inl e) \<and>
    (\<exists>random. se_random se = Some random \<and> sf_secret s = to_hex random) \<and>
    length (sf_secret s) = 64 \<and> valid_token (Some (sf_secret s))"
  using assms(1) [unfolded session_create_def Let_def if_ok_eq]
proof (elim exE conjE)
  fix l1 t1 runtime l2
  let ?socket = "path_join runtime [Normal ''broker.sock'']"
  assume runtime: "create_private_runtime_directory se t = (l1, t1, Inr runtime)"
    and rest: "(if MAX_RUNTIME_SOCKET_PATH_BYTES < length (path_text ?socket)
     then and_next (close_dir se runtime) (\<lambda>_. done_with (Inl SocketPathLong)) else
     and_next (ask (\<lambda>t. se_lstat se t ?socket)) (\<lambda>found.
     if is_ok found then and_next (close_dir se runtime) (\<lambda>_. done_with (Inl SocketReused)) else
     or_drop se runtime (done_with (map_err (\<lambda>_. SecretFails) (new_secret (se_random se)))) (\<lambda>secret.
     or_drop se runtime (create_private_runtime_directory se) (\<lambda>audit_runtime.
     or_drop se runtime
       (or_drop se audit_runtime (if_ok (act_ok (AuditMade (path_join audit_runtime [Normal ''hook-audit.log'']))
           (\<lambda>t. se_audit se t (path_join audit_runtime [Normal ''hook-audit.log'']))) AuditSetup (\<lambda>_. done_with (Inr ())))
         (\<lambda>_. done_with (Inr ()))) (\<lambda>_.
     done_with (Inr \<lparr>sf_runtime = runtime, sf_audit_runtime = audit_runtime, sf_socket = ?socket,
       sf_audit = path_join audit_runtime [Normal ''hook-audit.log''], sf_secret = secret\<rparr>)))))) t1 = (l2, t', Inr s)"
  have short: "length (path_text ?socket) \<le> 100"
    using rest by (auto simp: MAX_RUNTIME_SOCKET_PATH_BYTES_def program_simps close_dir_def split: if_splits)
  obtain e where free: "se_lstat se t1 ?socket = Inl e"
    using rest short by (cases "se_lstat se t1 ?socket") (auto simp: MAX_RUNTIME_SOCKET_PATH_BYTES_def program_simps close_dir_def)
  from rest short free obtain l3 where
      "or_drop se runtime (done_with (map_err (\<lambda>_. SecretFails) (new_secret (se_random se)))) (\<lambda>secret.
     or_drop se runtime (create_private_runtime_directory se) (\<lambda>audit_runtime.
     or_drop se runtime
       (or_drop se audit_runtime (if_ok (act_ok (AuditMade (path_join audit_runtime [Normal ''hook-audit.log'']))
           (\<lambda>t. se_audit se t (path_join audit_runtime [Normal ''hook-audit.log'']))) AuditSetup (\<lambda>_. done_with (Inr ())))
         (\<lambda>_. done_with (Inr ()))) (\<lambda>_.
     done_with (Inr \<lparr>sf_runtime = runtime, sf_audit_runtime = audit_runtime, sf_socket = ?socket,
       sf_audit = path_join audit_runtime [Normal ''hook-audit.log''], sf_secret = secret\<rparr>)))) (Suc t1) = (l3, t', Inr s)"
    by (auto simp: MAX_RUNTIME_SOCKET_PATH_BYTES_def program_simps)
  then show ?thesis
  proof (elim or_undoE)
    fix la ta secret lb lc tc audit_runtime ld le te w lf lg tg v lh
    assume secret: "done_with (map_err (\<lambda>_. SecretFails) (new_secret (se_random se))) (Suc t1) = (la, ta, Inr secret)"
      and audit: "create_private_runtime_directory se ta = (lc, tc, Inr audit_runtime)"
      and inits: "if_ok (act_ok (AuditMade (path_join audit_runtime [Normal ''hook-audit.log'']))
           (\<lambda>t. se_audit se t (path_join audit_runtime [Normal ''hook-audit.log'']))) AuditSetup (\<lambda>_. done_with (Inr ())) tc = (lg, tg, Inr v)"
        "done_with (Inr ()) tg = (lh, te, Inr w)"
      and last: "done_with (Inr \<lparr>sf_runtime = runtime, sf_audit_runtime = audit_runtime, sf_socket = ?socket,
       sf_audit = path_join audit_runtime [Normal ''hook-audit.log''], sf_secret = secret\<rparr>) te = (lf, t', Inr s)"
    have times: "t \<le> t1" "ta = Suc t1" "ta \<le> tc" "t' = Suc tc"
      using progressesD [OF progress_runtime runtime] progressesD [OF progress_runtime audit] secret inits last
      by (auto simp: program_simps)
    have "seen_private se DirectoryInode 0x1C0 runtime t t'" "seen_private se DirectoryInode 0x1C0 audit_runtime t t'"
      using seen_private_mono [OF runtime_directory_Inr [OF runtime], of t t'] seen_private_mono [OF runtime_directory_Inr [OF audit], of t t']
        times by simp_all
    moreover have token: "new_secret (se_random se) = Inr secret"
      using secret by (cases "new_secret (se_random se)") (auto simp: program_simps)
    moreover have "\<exists>random. se_random se = Some random \<and> secret = to_hex random"
      using token by (auto simp: new_secret_def result_simps)
    moreover have "valid_token (Some secret)" using new_secret_valid [OF token] assms(3) by blast
    moreover have "length secret = 64" using \<open>valid_token (Some secret)\<close> by (simp add: valid_token_iff TOKEN_BYTES_def)
    moreover have "sf_audit_runtime s \<noteq> sf_runtime s"
      using wpD [OF session_names_differ assms(1)] assms(2) by (simp add: made_anew_def)
    moreover have "s = \<lparr>sf_runtime = runtime, sf_audit_runtime = audit_runtime, sf_socket = ?socket,
       sf_audit = path_join audit_runtime [Normal ''hook-audit.log''], sf_secret = secret\<rparr>"
      using last by (simp add: done_with_eq)
    moreover have "t \<le> t1 \<and> t1 < t' \<and> se_lstat se t1 ?socket = Inl e" using times free by simp
    ultimately show ?thesis using short by auto
  qed
qed

text \<open>The thread of the broker is started only after the socket was seen, once bound, to belong to the user alone.\<close>

theorem broker_listens_privately:
  assumes "broker_listen se socket t = (l, t', Inr ())"
  shows "(t, SocketBound socket) \<in> set l \<and>
    (\<exists>w. seen_private se SocketInode 0x180 socket (Suc t) w \<and> (w, ThreadStarted) \<in> set l)"
  using assms unfolding seen_private_def
  by (auto simp: broker_listen_def validate_socket_def if_ok_eq if_ok_def and_next_eq ask_eq act_ok_eq done_with_eq is_ok_iff
      is_private_inode_def split: sum.splits if_splits) (rule exI [of _ "Suc (Suc t)"], simp)

section \<open>A session\<close>

text \<open>The runtime directory of the user is not private, so that the session is made in the temporary directory.\<close>

definition example_session :: session_calls where
  "example_session =
     \<lparr>se_euid = 7, se_env = [''XDG_RUNTIME_DIR'' \<mapsto> ''/run''],
      se_lstat = (\<lambda>t path. if path = [RootDir, Normal ''run''] then Inr \<lparr>ss_kind = DirectoryInode, ss_uid = 7, ss_mode = 0x1ED\<rparr>
        else if path = [RootDir, Normal ''d'', Normal ''broker.sock'']
        then (if t < 9 then Inl KindNotFound else Inr \<lparr>ss_kind = SocketInode, ss_uid = 8, ss_mode = 0x180\<rparr>)
        else Inr \<lparr>ss_kind = DirectoryInode, ss_uid = 7, ss_mode = 0x1C0\<rparr>),
      se_tempdir = (\<lambda>t parent. Inr [RootDir, Normal (if t < 5 then ''d'' else ''e'')]),
      se_chmod = (\<lambda>t path. Inr ()), se_bind = (\<lambda>t path. Inr ()), se_remove = (\<lambda>t path. Inr ()),
      se_random = Some (replicate 32 0), se_audit = (\<lambda>t path. Inr ()), se_close = (\<lambda>t path. Inr ()), se_drop = (\<lambda>t path. Inr ()),
      se_nonblocking = (\<lambda>t. Inr ()), se_thread = (\<lambda>t. Inr ())\<rparr>"

definition session_example :: session_files where
  "session_example =
     \<lparr>sf_runtime = [RootDir, Normal ''d''], sf_audit_runtime = [RootDir, Normal ''e''],
      sf_socket = [RootDir, Normal ''d'', Normal ''broker.sock''], sf_audit = [RootDir, Normal ''e'', Normal ''hook-audit.log''],
      sf_secret = to_hex (replicate 32 0)\<rparr>"

lemma example_run_path: "path_of_string ''/run'' = [RootDir, Normal ''run'']"
  by (simp add: path_of_string_def starts_with_Cons)

lemma example_created:
  "\<exists>l t'. session_create example_session 0 = (l, t', Inr session_example) \<and> made_anew l"
  by (simp add: session_create_def create_private_runtime_directory_def validate_runtime_dir_def private_tempdir_in_def
      validate_private_directory_def or_undo_def drop_dir_def close_dir_def program_run if_ok_def example_session_def
      example_run_path is_private_inode_def path_join_def is_absolute_def path_text_def component_text_def
      MAX_RUNTIME_SOCKET_PATH_BYTES_def new_secret_def ok_or_def session_example_def Let_def made_anew_def)

theorem session_is_private_witness:
  "\<exists>l t'. session_create example_session 0 = (l, t', Inr session_example) \<and>
     seen_private example_session DirectoryInode 0x1C0 [RootDir, Normal ''d''] 0 t' \<and>
     length (sf_secret session_example) = 64"
proof -
  obtain l t' where run: "session_create example_session 0 = (l, t', Inr session_example)" "made_anew l"
    using example_created by blast
  have "length random = TOKEN_BYTES" if "se_random example_session = Some random" for random
    using that by (auto simp: example_session_def TOKEN_BYTES_def)
  from session_is_private [OF run this] run show ?thesis by (auto simp: session_example_def)
qed

text \<open>The socket has been replaced by another user: its removal is refused, and the directory that holds it is removed.\<close>

theorem session_leaves_nothing_witness:
  "\<exists>l t' l' u'. session_create example_session 0 = (l, t', Inr session_example) \<and>
     cleanup_session example_session session_example 9 = (l', u', Inl UnsafeReplacement) \<and>
     fst (replay_at (dir_at example_session) (l @ l') ({}, {})) = {}"
proof -
  obtain l t' where run: "session_create example_session 0 = (l, t', Inr session_example)" using example_created by blast
  obtain l' u' where cleanup: "cleanup_session example_session session_example 9 = (l', u', Inl UnsafeReplacement)"
    by (simp add: cleanup_session_def remove_socket_safely_def program_run example_session_def session_example_def
        is_private_inode_def drop_dir_def)
  note removed = session_leaves_nothing [OF run, unfolded sum.case, rule_format, OF cleanup]
  show ?thesis using run cleanup removed by blast
qed

theorem broker_listens_privately_witness:
  "\<exists>l t'. broker_listen (example_session\<lparr>se_euid := 8\<rparr>) (sf_socket session_example) 9 = (l, t', Inr ()) \<and>
     (9, SocketBound (sf_socket session_example)) \<in> set l"
proof -
  obtain l t' where run: "broker_listen (example_session\<lparr>se_euid := 8\<rparr>) (sf_socket session_example) 9 = (l, t', Inr ())"
    by (simp add: broker_listen_def validate_socket_def program_run if_ok_def example_session_def session_example_def
        is_private_inode_def)
  from broker_listens_privately [OF run] run show ?thesis by auto
qed

end
