(* ===== verification/Dependency_Order.thy ===== *)
theory Dependency_Order
  imports Prelude
begin

text \<open>
  \<^verbatim>\<open>detect_cycles\<close> of \<^verbatim>\<open>src/bin/validate_distribution_roadmap.rs\<close>: a depth first search over
  the dependencies of the tasks.  It accepts exactly the acyclic maps.
\<close>

section \<open>The search\<close>

type_synonym dependency_map = "(string \<times> string list) list"

text \<open>What is added to \<^verbatim>\<open>visiting\<close> is removed again before the search of a task returns, so this set is only
  passed down; \<^verbatim>\<open>visited\<close> grows.  The error is the task at which a cycle is noticed.\<close>

function visit :: "dependency_map \<Rightarrow> string set \<Rightarrow> string \<Rightarrow> string set \<Rightarrow> (string, string set) result"
  and visit_all :: "dependency_map \<Rightarrow> string set \<Rightarrow> string list \<Rightarrow> string set \<Rightarrow> (string, string set) result"
where
  "visit deps visiting task visited =
     (if task \<in> visited then Inr visited
      else if task \<in> visiting then Inl task
      else case map_of deps task of
        None \<Rightarrow> Inr (insert task visited)
      | Some ds \<Rightarrow> and_then (visit_all deps (insert task visiting) ds visited) (\<lambda>visited. Inr (insert task visited)))"
| "visit_all deps visiting [] visited = Inr visited"
| "visit_all deps visiting (d # ds) visited =
     and_then (visit deps visiting d visited) (\<lambda>visited. visit_all deps visiting ds visited)"
  by pat_completeness auto
termination
proof (relation "inv_image (less_than <*lex*> less_than)
    (case_sum (\<lambda>(deps, visiting, task, visited). (card (fst ` set deps - visiting), 0))
       (\<lambda>(deps, visiting, ds, visited). (card (fst ` set deps - visiting), Suc (length ds))))", goal_cases)
  case (2 deps visiting task visited ds)
  have "task \<in> fst ` set deps" using 2(3) by (auto dest: map_of_SomeD intro: rev_image_eqI)
  then have "fst ` set deps - insert task visiting \<subset> fst ` set deps - visiting" using 2(2) by blast
  then show ?case by (simp add: psubset_card_mono)
qed auto

declare visit.simps [simp del]

definition detect_cycles :: "dependency_map \<Rightarrow> (string, unit) result" where
  "detect_cycles deps = and_then (visit_all deps {} (map fst deps) {}) (\<lambda>_. Inr ())"

section \<open>What it accepts\<close>

definition depends :: "dependency_map \<Rightarrow> (string \<times> string) set" where
  "depends deps = {(a, b). \<exists>ds. map_of deps a = Some ds \<and> b \<in> set ds}"

text \<open>Whatever has been visited has no path into a cycle: its dependencies are well founded.\<close>

lemma visit_grounded:
  "visit deps visiting task visited = Inr visited' \<Longrightarrow> visited \<subseteq> Wellfounded.acc ((depends deps)\<inverse>) \<Longrightarrow>
   insert task visited \<subseteq> visited' \<and> visited' \<subseteq> Wellfounded.acc ((depends deps)\<inverse>)"
  "visit_all deps visiting ds visited = Inr visited' \<Longrightarrow> visited \<subseteq> Wellfounded.acc ((depends deps)\<inverse>) \<Longrightarrow>
   set ds \<union> visited \<subseteq> visited' \<and> visited' \<subseteq> Wellfounded.acc ((depends deps)\<inverse>)"
proof (induction deps visiting task visited and deps visiting ds visited arbitrary: visited' and visited'
    rule: visit_visit_all.induct)
  case (1 deps visiting task visited)
  consider "task \<in> visited" "visited' = visited"
    | "map_of deps task = None" "visited' = insert task visited"
    | ds out where "task \<notin> visited" "task \<notin> visiting" "map_of deps task = Some ds"
        "visit_all deps (insert task visiting) ds visited = Inr out" "visited' = insert task out"
    using 1(2) by (auto simp: visit.simps and_then_Inr split: if_splits option.splits)
  then show ?case
  proof cases
    case 2
    then have "task \<in> Wellfounded.acc ((depends deps)\<inverse>)" by - (rule accI, simp add: depends_def)
    then show ?thesis using 2 1(3) by auto
  next
    case 3
    note out = 1(1) [OF 3(1-4) 1(3)]
    have "task \<in> Wellfounded.acc ((depends deps)\<inverse>)"
      using out 3(3) by - (rule accI, auto simp: depends_def)
    then show ?thesis using out 3(5) by auto
  qed (use 1(3) in auto)
next
  case (3 deps visiting d ds visited)
  from 3(3) obtain middle where middle: "visit deps visiting d visited = Inr middle"
      "visit_all deps visiting ds middle = Inr visited'"
    by (auto simp: and_then_Inr)
  then show ?case using 3(1) [OF middle(1) 3(4)] 3(2) [OF middle(2)] by auto
qed simp

text \<open>Each task that is being visited reaches the one that is visited next; so a task that is met again reaches
  itself.\<close>

lemma visit_circular:
  "visit deps visiting task visited = Inl e \<Longrightarrow> \<forall>x \<in> visiting. (x, task) \<in> (depends deps)\<^sup>+ \<Longrightarrow> (e, e) \<in> (depends deps)\<^sup>+"
  "visit_all deps visiting ds visited = Inl e \<Longrightarrow> \<forall>x \<in> visiting. \<forall>d \<in> set ds. (x, d) \<in> (depends deps)\<^sup>+ \<Longrightarrow>
   (e, e) \<in> (depends deps)\<^sup>+"
proof (induction deps visiting task visited and deps visiting ds visited rule: visit_visit_all.induct)
  case (1 deps visiting task visited)
  consider "task \<in> visiting" "e = task"
    | ds where "task \<notin> visited" "task \<notin> visiting" "map_of deps task = Some ds"
        "visit_all deps (insert task visiting) ds visited = Inl e"
    using 1(2) by (auto simp: visit.simps and_then_Inl split: if_splits option.splits)
  then show ?case
  proof cases
    case 2
    have "(task, d) \<in> depends deps" if "d \<in> set ds" for d using that 2(3) by (auto simp: depends_def)
    then show ?thesis using 1(3) by (intro 1(1) [OF 2(1-4)]) (auto intro: trancl_into_trancl)
  qed (use 1(3) in auto)
next
  case (3 deps visiting d ds visited)
  then show ?case by (auto simp: and_then_Inl)
qed simp

lemma finite_depends: "finite (depends deps)"
proof (rule finite_subset)
  show "depends deps \<subseteq> fst ` set deps \<times> \<Union> (set ` snd ` set deps)"
    by (force simp: depends_def dest: map_of_SomeD)
qed simp

lemma detect_cycles_sound:
  assumes "detect_cycles deps = Inr ()"
  shows "acyclic (depends deps)"
proof -
  obtain visited where visited: "visit_all deps {} (map fst deps) {} = Inr visited"
    using assms by (auto simp: detect_cycles_def and_then_Inr)
  have keys: "fst ` set deps \<subseteq> Wellfounded.acc ((depends deps)\<inverse>)"
    using visit_grounded(2) [OF visited] by auto
  have "task \<in> Wellfounded.acc ((depends deps)\<inverse>)" for task
  proof (cases "task \<in> fst ` set deps")
    case False
    then have "map_of deps task = None" by (simp add: map_of_eq_None_iff)
    then show ?thesis by - (rule accI, simp add: depends_def)
  qed (use keys in blast)
  then have "wf ((depends deps)\<inverse>)" by (simp add: wf_iff_acc)
  then have "acyclic ((depends deps)\<inverse>)" by (rule wf_acyclic)
  then show ?thesis by simp
qed

lemma detect_cycles_Inl: "detect_cycles deps = Inl e \<Longrightarrow> (e, e) \<in> (depends deps)\<^sup>+"
  using visit_circular(2) [of deps "{}" "map fst deps" "{}" e] by (auto simp: detect_cycles_def and_then_Inl)

lemma detect_cycles_Inr: "(detect_cycles deps = Inr ()) = acyclic (depends deps)"
  using detect_cycles_sound [of deps] detect_cycles_Inl [of deps]
  by (cases "detect_cycles deps") (auto simp: acyclic_def)

text \<open>C40: the search accepts exactly the maps in which no task depends on itself through any number of steps, whether or
  not the dependencies are tasks of the map; and the task that it names is on a cycle.\<close>

theorem detect_cycles_exact:
  "case detect_cycles deps of Inr u \<Rightarrow> acyclic (depends deps) | Inl e \<Rightarrow> (e, e) \<in> (depends deps)\<^sup>+"
  using detect_cycles_sound [of deps] detect_cycles_Inl [of deps] by (cases "detect_cycles deps") auto

end
