(* ===== verification/Roadmap.thy ===== *)
theory Roadmap
  imports Manifest Dependency_Order
begin

text \<open>
  The check of the distribution roadmap, \<^verbatim>\<open>src/bin/validate_distribution_roadmap.rs\<close>: how the
  document is parsed, which texts it may not hold, and every rule of \<^verbatim>\<open>validate\<close>.
\<close>

section \<open>Reading a value\<close>

type_synonym json_object = "(string \<times> json) list"

datatype roadmap_error =
    RoadmapTooLarge
  | PrivateRaw
  | PrivateValue
  | RoadmapJson
  | NotObject string
  | NotString string
  | NotArray string
  | NotStrings string
  | BadSchemaVersion string
  | BadRevision
  | BadCommit
  | IsEmpty string
  | DuplicateId string
  | MissingField string string
  | BadStatus string string
  | BadArea string
  | BadRequirement string string
  | NoEvidence string
  | UnknownMilestone string
  | UnknownTask string
  | UnknownDependency string string
  | DependencyCycle string

fun as_array :: "json \<Rightarrow> json list option" where
  "as_array (JArray vs) = Some vs"
| "as_array _ = None"

fun as_bool :: "json \<Rightarrow> bool option" where
  "as_bool (JBool b) = Some b"
| "as_bool _ = None"

fun as_u64 :: "json \<Rightarrow> u64 option" where
  "as_u64 (JNumber (PosInt n)) = Some n"
| "as_u64 _ = None"

lemma as_array_Some [simp]: "(as_array v = Some vs) = (v = JArray vs)"
  by (cases v) auto

lemma as_bool_Some [simp]: "(as_bool v = Some b) = (v = JBool b)"
  by (cases v) auto

definition get_with :: "(json \<Rightarrow> 'a option) \<Rightarrow> json_object \<Rightarrow> string \<Rightarrow> 'a option" where
  "get_with dec obj field = Option.bind (map_of obj field) dec"

definition required_string :: "json_object \<Rightarrow> string \<Rightarrow> (roadmap_error, string) result" where
  "required_string obj field =
     ok_or (NotString field) (case get_with as_str obj field of Some s \<Rightarrow> if s = [] then None else Some s | None \<Rightarrow> None)"

definition required_object :: "json_object \<Rightarrow> string \<Rightarrow> (roadmap_error, json_object) result" where
  "required_object obj field = ok_or (NotObject field) (get_with as_object obj field)"

definition required_array :: "json_object \<Rightarrow> string \<Rightarrow> (roadmap_error, json list) result" where
  "required_array obj field = ok_or (NotArray field) (get_with as_array obj field)"

fun texts_of :: "string \<Rightarrow> json list \<Rightarrow> (roadmap_error, string list) result" where
  "texts_of field [] = Inr []"
| "texts_of field (v # vs) =
     (case as_str v of
        None \<Rightarrow> Inl (NotStrings field)
      | Some s \<Rightarrow> if s = [] then Inl (NotStrings field) else and_then (texts_of field vs) (\<lambda>ss. Inr (s # ss)))"

definition string_array :: "json_object \<Rightarrow> string \<Rightarrow> (roadmap_error, string list) result" where
  "string_array obj field = and_then (required_array obj field) (texts_of field)"

definition validate_strings :: "json_object \<Rightarrow> string \<Rightarrow> (roadmap_error, unit) result" where
  "validate_strings obj field = and_then (string_array obj field) (\<lambda>_. Inr ())"

definition validate_string_array :: "json_object \<Rightarrow> string \<Rightarrow> (roadmap_error, unit) result" where
  "validate_string_array obj field = and_then (string_array obj field) (\<lambda>vs. ensure (vs \<noteq> []) (IsEmpty field))"

definition require_strings :: "json_object \<Rightarrow> string list \<Rightarrow> (roadmap_error, unit) result" where
  "require_strings obj = for_each (\<lambda>field. and_then (required_string obj field) (\<lambda>_. Inr ()))"

definition object_of :: "string \<Rightarrow> json \<Rightarrow> (roadmap_error, json_object) result" where
  "object_of what v = ok_or (NotObject what) (as_object v)"

section \<open>Private texts\<close>

definition BACKSLASH :: char where
  "BACKSLASH = CHR 0x5C"

definition PRIVATE_MARKERS :: "string list" where
  "PRIVATE_MARKERS =
     [''-----BEGIN'', ''Bearer '', ''C:'' @ [BACKSLASH] @ ''Users'' @ [BACKSLASH], ''C:/Users/'', ''/Users/'', ''/home/'',
      ''CODEX_AUTOAPPROVER_SESSION_TOKEN'', ''CODEX_AUTOAPPROVER_SESSION_SECRET'']"

text \<open>In the raw bytes a backslash may be written twice.\<close>

definition RAW_MARKERS :: "string list" where
  "RAW_MARKERS =
     [''-----BEGIN'', ''Bearer '', ''C:'' @ [BACKSLASH] @ ''Users'' @ [BACKSLASH],
      ''C:'' @ [BACKSLASH, BACKSLASH] @ ''Users'' @ [BACKSLASH, BACKSLASH], ''C:/Users/'', ''/Users/'', ''/home/'',
      ''CODEX_AUTOAPPROVER_SESSION_TOKEN'', ''CODEX_AUTOAPPROVER_SESSION_SECRET'']"

definition is_private :: "string \<Rightarrow> bool" where
  "is_private s = list_ex (\<lambda>marker. contains_sub marker s) PRIVATE_MARKERS"

definition reject_raw_private_evidence :: "string \<Rightarrow> (roadmap_error, unit) result" where
  "reject_raw_private_evidence bytes = for_each (\<lambda>marker. ensure (\<not> contains_sub marker bytes) PrivateRaw) RAW_MARKERS"

text \<open>The values that are still to be looked at are a stack, whose top is the head of the list.\<close>

abbreviation json_sizes :: "json list \<Rightarrow> nat" where
  "json_sizes \<equiv> size_list size"

lemma json_sizes_rev [simp]: "json_sizes (rev vs) = json_sizes vs"
  by (induction vs) auto

lemma json_sizes_values:
  "size_list (size \<circ> snd) obj < Suc (Suc (size_list (size_prod (\<lambda>_. 0) size) (obj :: json_object)))"
proof -
  have "size_list (size \<circ> snd) obj \<le> size_list (size_prod (\<lambda>_. 0) size) obj"
    by (induction obj) auto
  then show ?thesis by simp
qed

function private_loop :: "json list \<Rightarrow> (roadmap_error, unit) result" where
  "private_loop [] = Inr ()"
| "private_loop (JString s # pending) = (if is_private s then Inl PrivateValue else private_loop pending)"
| "private_loop (JObject obj # pending) =
     (if list_ex (\<lambda>kv. is_private (fst kv)) obj then Inl PrivateValue else private_loop (rev (map snd obj) @ pending))"
| "private_loop (JArray vs # pending) = private_loop (rev vs @ pending)"
| "private_loop (JNull # pending) = private_loop pending"
| "private_loop (JBool b # pending) = private_loop pending"
| "private_loop (JNumber n # pending) = private_loop pending"
  by pat_completeness auto

termination
  by (relation "measure json_sizes") (auto simp: json_sizes_values)

definition reject_private_evidence :: "json \<Rightarrow> (roadmap_error, unit) result" where
  "reject_private_evidence roadmap = private_loop [roadmap]"

section \<open>Parsing\<close>

definition MAX_ROADMAP_BYTES :: nat where
  "MAX_ROADMAP_BYTES = 2 * 1024 * 1024"

text \<open>\<^verbatim>\<open>NoDuplicateKeys\<close> is the same visitor as the one of the release manifest.\<close>

definition no_duplicate_keys :: "raw_json \<Rightarrow> bool" where
  "no_duplicate_keys raw = dup_value raw"

text \<open>The bytes are read twice: for repeated keys, and for the value.\<close>

definition parse_roadmap :: "tokenizer \<Rightarrow> string \<Rightarrow> (roadmap_error, json) result" where
  "parse_roadmap tok bytes =
     and_then (ensure (length bytes \<le> MAX_ROADMAP_BYTES) RoadmapTooLarge) (\<lambda>_.
     and_then (reject_raw_private_evidence bytes) (\<lambda>_.
     and_then (ok_or RoadmapJson (tok bytes)) (\<lambda>(raw, rest).
     and_then (ensure (no_duplicate_keys raw \<and> list_all json_blank rest) RoadmapJson) (\<lambda>_.
     and_then (ok_or RoadmapJson (strict_value raw)) (\<lambda>roadmap.
     and_then (reject_private_evidence roadmap) (\<lambda>_. Inr roadmap))))))"

section \<open>The rules\<close>

definition SCHEMA_VERSION :: string where
  "SCHEMA_VERSION = ''1.0''"

definition validate_status :: "string \<Rightarrow> string \<Rightarrow> (roadmap_error, unit) result" where
  "validate_status what status =
     ensure (status \<in> {''planned'', ''in_progress'', ''blocked'', ''completed''}) (BadStatus what status)"

definition validate_area :: "string \<Rightarrow> json \<Rightarrow> (roadmap_error, unit) result" where
  "validate_area task_id v =
     and_then (object_of task_id v) (\<lambda>area.
     and_then (require_strings area [''path'', ''purpose'']) (\<lambda>_.
     and_then (required_string area ''kind'') (\<lambda>kind.
     ensure (kind \<in> {''existing'', ''planned'', ''workflow''}) (BadArea task_id))))"

definition validate_areas :: "json \<Rightarrow> string \<Rightarrow> (roadmap_error, unit) result" where
  "validate_areas v task_id =
     and_then (ok_or (NotArray task_id) (as_array v)) (\<lambda>areas.
     and_then (ensure (areas \<noteq> []) (IsEmpty task_id)) (\<lambda>_.
     for_each (validate_area task_id) areas))"

definition REQUIREMENTS :: "string list" where
  "REQUIREMENTS = [''native_windows'', ''native_linux'', ''github_access'', ''human_action'']"

definition validate_requirements :: "json \<Rightarrow> string \<Rightarrow> (roadmap_error, unit) result" where
  "validate_requirements v task_id =
     and_then (object_of task_id v) (\<lambda>requirements.
     for_each (\<lambda>field. ensure (get_with as_bool requirements field \<noteq> None) (BadRequirement task_id field)) REQUIREMENTS)"

definition validate_blocker :: "json \<Rightarrow> (roadmap_error, unit) result" where
  "validate_blocker v =
     and_then (object_of ''blockers'' v) (\<lambda>blocker.
     and_then (require_strings blocker [''id'']) (\<lambda>_.
     and_then (required_string blocker ''status'') (\<lambda>status.
     and_then (validate_status ''blocker'' status) (\<lambda>_.
     and_then (require_strings blocker [''description'']) (\<lambda>_.
     validate_strings blocker ''unblocks'')))))"

definition validate_blockers :: "json \<Rightarrow> (roadmap_error, unit) result" where
  "validate_blockers v = and_then (ok_or (NotArray ''blockers'') (as_array v)) (for_each validate_blocker)"

text \<open>Rows that are objects with some texts.\<close>

definition validate_row :: "string \<Rightarrow> string list \<Rightarrow> json \<Rightarrow> (roadmap_error, unit) result" where
  "validate_row field columns v = and_then (object_of field v) (\<lambda>row. require_strings row columns)"

definition DECISION_COLUMNS :: "string list" where
  "DECISION_COLUMNS = [''state'', ''condition'', ''action'', ''codex_action'', ''outcome'']"

definition TRANSITION_COLUMNS :: "string list" where
  "TRANSITION_COLUMNS = [''from'', ''event'', ''to'', ''effect'']"

definition TARGET_FIELDS :: "string list" where
  "TARGET_FIELDS = [''target'', ''triple'', ''runtime_floor'', ''package_format'', ''status'']"

definition OWNERSHIP_FIELDS :: "string list" where
  "OWNERSHIP_FIELDS =
     [''platform'', ''entry_point'', ''payloads'', ''active_pointer'', ''staging'', ''cache'', ''rollback'', ''ownership'']"

definition TRUST_FIELDS :: "string list" where
  "TRUST_FIELDS =
     [''metadata'', ''bootstrap'', ''signing_thresholds'', ''asset_integrity'', ''expiration_and_replay'',
      ''key_rotation_and_revocation'', ''rollback'', ''authorization_boundary'']"

definition LIBRARY_FIELDS :: "string list" where
  "LIBRARY_FIELDS =
     [''purpose'', ''crate'', ''observed_documented_version'', ''official_documentation'', ''decision'']"

definition validate_table :: "json_object \<Rightarrow> string \<Rightarrow> string list \<Rightarrow> (roadmap_error, unit) result" where
  "validate_table obj field columns =
     and_then (required_array obj field) (\<lambda>rows.
     and_then (ensure (rows \<noteq> []) (IsEmpty field)) (\<lambda>_.
     for_each (validate_row field columns) rows))"

definition validate_target :: "json \<Rightarrow> (roadmap_error, unit) result" where
  "validate_target v =
     and_then (object_of ''initial_support_targets'' v) (\<lambda>target.
     and_then (require_strings target TARGET_FIELDS) (\<lambda>_. validate_strings target ''validation_milestones''))"

definition validate_trust :: "json_object \<Rightarrow> (roadmap_error, unit) result" where
  "validate_trust obj =
     and_then (required_object obj ''release_trust_model'') (\<lambda>trust.
     and_then (require_strings trust TRUST_FIELDS) (\<lambda>_. validate_string_array trust ''maintainer_actions''))"

definition validate_design_contract :: "json_object \<Rightarrow> (roadmap_error, unit) result" where
  "validate_design_contract obj =
     and_then (validate_table obj ''startup_decision_table'' DECISION_COLUMNS) (\<lambda>_.
     and_then (validate_table obj ''startup_state_transitions'' TRANSITION_COLUMNS) (\<lambda>_.
     and_then (and_then (required_array obj ''initial_support_targets'') (for_each validate_target)) (\<lambda>_.
     and_then (and_then (required_array obj ''installation_ownership'')
       (for_each (validate_row ''installation_ownership'' OWNERSHIP_FIELDS))) (\<lambda>_.
     and_then (validate_trust obj) (\<lambda>_.
     and_then (required_array obj ''release_library_review'')
       (for_each (validate_row ''release_library_review'' LIBRARY_FIELDS)))))))"

section \<open>Milestones and tasks\<close>

record roadmap_seen =
  seen_milestones :: "string set"
  seen_tasks :: "string set"
  seen_dependencies :: dependency_map

definition TASK_FIELDS :: "string list" where
  "TASK_FIELDS =
     [''objective'', ''user_visible_outcome'', ''status'', ''dependencies'', ''expected_implementation_areas'',
      ''deliverables'', ''validation'', ''completion_evidence'', ''risks_or_unresolved_decisions'', ''requirements'']"

fun fold_each :: "('a \<Rightarrow> 's \<Rightarrow> ('e, 's) result) \<Rightarrow> 'a list \<Rightarrow> 's \<Rightarrow> ('e, 's) result" where
  "fold_each f [] s = Inr s"
| "fold_each f (x # xs) s = and_then (f x s) (fold_each f xs)"

text \<open>The map of the dependencies is sorted by the identifier, which is new when it is inserted.\<close>

definition validate_task :: "string \<Rightarrow> json \<Rightarrow> roadmap_seen \<Rightarrow> (roadmap_error, roadmap_seen) result" where
  "validate_task milestone_id v seen =
     and_then (object_of milestone_id v) (\<lambda>task.
     and_then (required_string task ''id'') (\<lambda>task_id.
     and_then (ensure (task_id \<notin> seen_tasks seen) (DuplicateId task_id)) (\<lambda>_.
     and_then (for_each (\<lambda>field. ensure (map_of task field \<noteq> None) (MissingField task_id field)) TASK_FIELDS) (\<lambda>_.
     and_then (required_string task ''status'') (\<lambda>status.
     and_then (validate_status ''task'' status) (\<lambda>_.
     and_then (string_array task ''dependencies'') (\<lambda>dependencies.
     and_then (for_each (validate_strings task)
       [''deliverables'', ''validation'', ''completion_evidence'', ''risks_or_unresolved_decisions'']) (\<lambda>_.
     and_then (ok_or (MissingField task_id ''expected_implementation_areas'')
       (map_of task ''expected_implementation_areas'')) (\<lambda>areas.
     and_then (validate_areas areas task_id) (\<lambda>_.
     and_then (ok_or (MissingField task_id ''requirements'') (map_of task ''requirements'')) (\<lambda>requirements.
     and_then (validate_requirements requirements task_id) (\<lambda>_.
     and_then (string_array task ''completion_evidence'') (\<lambda>evidence.
     and_then (ensure (status = ''completed'' \<longrightarrow> evidence \<noteq> []) (NoEvidence task_id)) (\<lambda>_.
     Inr (seen\<lparr>seen_tasks := insert task_id (seen_tasks seen),
               seen_dependencies := insort_key fst (task_id, dependencies) (seen_dependencies seen)\<rparr>)))))))))))))))"

definition validate_milestone :: "json \<Rightarrow> roadmap_seen \<Rightarrow> (roadmap_error, roadmap_seen) result" where
  "validate_milestone v seen =
     and_then (object_of ''milestones'' v) (\<lambda>milestone.
     and_then (required_string milestone ''id'') (\<lambda>milestone_id.
     and_then (ensure (milestone_id \<notin> seen_milestones seen) (DuplicateId milestone_id)) (\<lambda>_.
     and_then (require_strings milestone [''title'']) (\<lambda>_.
     and_then (required_string milestone ''status'') (\<lambda>status.
     and_then (validate_status ''milestone'' status) (\<lambda>_.
     and_then (require_strings milestone [''objective'']) (\<lambda>_.
     and_then (required_array milestone ''tasks'') (\<lambda>tasks.
     and_then (ensure (tasks \<noteq> []) (IsEmpty milestone_id)) (\<lambda>_.
     fold_each (validate_task milestone_id) tasks
       (seen\<lparr>seen_milestones := insert milestone_id (seen_milestones seen)\<rparr>))))))))))"

text \<open>The head of the document.\<close>

definition validate_head :: "json_object \<Rightarrow> (roadmap_error, unit) result" where
  "validate_head obj =
     and_then (required_string obj ''schema_version'') (\<lambda>schema.
     and_then (ensure (schema = SCHEMA_VERSION) (BadSchemaVersion schema)) (\<lambda>_.
     and_then (ok_or BadRevision (get_with as_u64 obj ''roadmap_revision'')) (\<lambda>revision.
     and_then (ensure (revision \<noteq> 0) BadRevision) (\<lambda>_.
     and_then (required_string obj ''inspected_source_commit'') (\<lambda>commit.
     and_then (ensure (length commit = 40 \<and> list_all is_ascii_hexdigit commit) BadCommit) (\<lambda>_.
     and_then (require_strings obj
       [''repository'', ''source_branch'', ''roadmap_branch'', ''overall_objective'', ''current_milestone'',
        ''next_executable_task'']) (\<lambda>_.
     for_each (\<lambda>field. and_then (required_array obj field) (\<lambda>_. Inr ()))
       [''scope'', ''non_goals'', ''blockers'', ''operating_rules'', ''milestones''])))))))"

definition known_dependencies :: "roadmap_seen \<Rightarrow> (roadmap_error, unit) result" where
  "known_dependencies seen =
     for_each (\<lambda>(task_id, dependencies).
       for_each (\<lambda>d. ensure (d \<in> seen_tasks seen) (UnknownDependency task_id d)) dependencies) (seen_dependencies seen)"

definition validate :: "json \<Rightarrow> (roadmap_error, unit) result" where
  "validate roadmap =
     and_then (object_of ''roadmap'' roadmap) (\<lambda>obj.
     and_then (validate_head obj) (\<lambda>_.
     and_then (required_array obj ''milestones'') (\<lambda>milestones.
     and_then (ensure (milestones \<noteq> []) (IsEmpty ''milestones'')) (\<lambda>_.
     and_then (fold_each validate_milestone milestones
       \<lparr>seen_milestones = {}, seen_tasks = {}, seen_dependencies = []\<rparr>) (\<lambda>seen.
     and_then (required_string obj ''current_milestone'') (\<lambda>current.
     and_then (ensure (current \<in> seen_milestones seen) (UnknownMilestone current)) (\<lambda>_.
     and_then (required_string obj ''next_executable_task'') (\<lambda>next_task.
     and_then (ensure (next_task \<in> seen_tasks seen) (UnknownTask next_task)) (\<lambda>_.
     and_then (known_dependencies seen) (\<lambda>_.
     and_then (map_err DependencyCycle (detect_cycles (seen_dependencies seen))) (\<lambda>_.
     and_then (ok_or (MissingField ''roadmap'' ''blockers'') (map_of obj ''blockers'')) (\<lambda>blockers.
     and_then (validate_blockers blockers) (\<lambda>_.
     and_then (for_each (validate_strings obj) [''scope'', ''non_goals'', ''operating_rules'']) (\<lambda>_.
     and_then (validate_design_contract obj) (\<lambda>_.
     reject_private_evidence roadmap)))))))))))))))"

section \<open>No private text\<close>

lemma size_entry: "kv \<in> set obj \<Longrightarrow> size (snd kv) < Suc (size_list (size_prod (\<lambda>_. 0) size) (obj :: json_object))"
  by (induction obj) auto

lemma size_element: "v \<in> set vs \<Longrightarrow> size v < Suc (json_sizes vs)"
  by (induction vs) auto

text \<open>Every text of a value: its strings and the keys of its objects.\<close>

function json_texts :: "json \<Rightarrow> string list" where
  "json_texts (JString s) = [s]"
| "json_texts (JArray vs) = concat (map json_texts vs)"
| "json_texts (JObject obj) = map fst obj @ concat (map (\<lambda>kv. json_texts (snd kv)) obj)"
| "json_texts JNull = []"
| "json_texts (JBool b) = []"
| "json_texts (JNumber n) = []"
  by pat_completeness auto

termination by (relation "measure size") (auto simp: size_entry size_element)

lemma private_loop_Inr: "(private_loop pending = Inr u) = (\<forall>v \<in> set pending. \<forall>t \<in> set (json_texts v). \<not> is_private t)"
  by (induction pending rule: private_loop.induct) (auto simp: list_ex_iff)

text \<open>The loop over the stack refuses a document exactly if one of its texts has a marker, at any depth, also as a
  key.\<close>

theorem reject_private_exact:
  "(reject_private_evidence roadmap = Inr ()) = (\<forall>t \<in> set (json_texts roadmap). \<not> is_private t)"
  by (simp add: reject_private_evidence_def private_loop_Inr)

lemma reject_private_Inr [result_simps]:
  "(reject_private_evidence roadmap = Inr u) = (\<forall>t \<in> set (json_texts roadmap). \<not> is_private t)"
  by (simp add: reject_private_evidence_def private_loop_Inr)

section \<open>What a valid roadmap is\<close>

definition member :: "json \<Rightarrow> string \<Rightarrow> json option" where
  "member v field = Option.bind (as_object v) (\<lambda>obj. map_of obj field)"

definition text_of :: "string \<Rightarrow> json \<Rightarrow> string" where
  "text_of field v = (case member v field of Some (JString s) \<Rightarrow> s | _ \<Rightarrow> [])"

definition list_of :: "string \<Rightarrow> json \<Rightarrow> json list" where
  "list_of field v = (case member v field of Some (JArray vs) \<Rightarrow> vs | _ \<Rightarrow> [])"

definition tasks_of :: "json \<Rightarrow> json list" where
  "tasks_of roadmap = concat (map (list_of ''tasks'') (list_of ''milestones'' roadmap))"

definition dependencies_of :: "json \<Rightarrow> string list" where
  "dependencies_of task = map (\<lambda>v. case v of JString s \<Rightarrow> s | _ \<Rightarrow> []) (list_of ''dependencies'' task)"

definition task_entry :: "json \<Rightarrow> string \<times> string list" where
  "task_entry task = (text_of ''id'' task, dependencies_of task)"

lemma text_of_object: "required_string obj field = Inr s \<Longrightarrow> text_of field (JObject obj) = s"
  by (auto simp: required_string_def get_with_def result_simps text_of_def member_def split: option.splits if_splits bind_splits)

lemma list_of_object: "required_array obj field = Inr vs \<Longrightarrow> list_of field (JObject obj) = vs"
  by (auto simp: required_array_def get_with_def result_simps list_of_def member_def split: option.splits bind_splits)

lemma texts_of_Inr: "(texts_of field vs = Inr ss) = (vs = map JString ss \<and> [] \<notin> set ss)"
proof (induction vs arbitrary: ss)
  case (Cons v vs)
  show ?case by (cases v; cases ss) (auto simp: and_then_Inr Cons.IH)
qed auto

lemma string_array_object:
  "string_array obj field = Inr ss \<Longrightarrow> list_of field (JObject obj) = map JString ss"
  by (auto simp: string_array_def result_simps texts_of_Inr dest: list_of_object)

text \<open>What is known when some tasks have been seen.\<close>

definition task_ok :: "json \<Rightarrow> bool" where
  "task_ok task = (text_of ''status'' task = ''completed'' \<longrightarrow> list_of ''completion_evidence'' task \<noteq> [])"

definition recorded :: "json list \<Rightarrow> roadmap_seen \<Rightarrow> bool" where
  "recorded tasks seen =
     (distinct (map (text_of ''id'') tasks) \<and> seen_tasks seen = text_of ''id'' ` set tasks \<and>
      set (seen_dependencies seen) = task_entry ` set tasks \<and> distinct (map fst (seen_dependencies seen)) \<and>
      list_all task_ok tasks)"

lemma distinct_insort_fst:
  "distinct (map fst (insort_key fst kv m)) = (fst kv \<notin> fst ` set m \<and> distinct (map fst m))"
  by (induction m) (auto simp: set_insort_key)

lemma validate_task_Inr:
  assumes "validate_task milestone_id v seen = Inr seen'" "recorded tasks seen"
  shows "recorded (tasks @ [v]) seen' \<and> seen_milestones seen' = seen_milestones seen"
proof -
  obtain task task_id status deps evidence where v: "v = JObject task" and
      task: "required_string task ''id'' = Inr task_id" "task_id \<notin> seen_tasks seen"
        "required_string task ''status'' = Inr status" "string_array task ''dependencies'' = Inr deps"
        "string_array task ''completion_evidence'' = Inr evidence" "status = ''completed'' \<longrightarrow> evidence \<noteq> []" and
      seen': "seen' = seen\<lparr>seen_tasks := insert task_id (seen_tasks seen),
        seen_dependencies := insort_key fst (task_id, deps) (seen_dependencies seen)\<rparr>"
    using assms(1) unfolding validate_task_def object_of_def and_then_Inr ok_or_Inr ensure_Inr as_object_Some sum.inject
    by (elim exE conjE) (rule that, assumption+, erule sym)
  have texts: "text_of ''id'' v = task_id" "text_of ''status'' v = status" "list_of ''dependencies'' v = map JString deps"
      "list_of ''completion_evidence'' v = map JString evidence"
    using task by (simp_all add: v text_of_object string_array_object)
  have entry: "task_entry v = (task_id, deps)"
    by (simp add: task_entry_def dependencies_of_def texts comp_def)
  have keys: "fst ` set (seen_dependencies seen) = seen_tasks seen"
    using assms(2) by (simp add: recorded_def task_entry_def image_image)
  have fresh: "task_id \<notin> text_of ''id'' ` set tasks" and before: "distinct (map (text_of ''id'') tasks)"
      "seen_tasks seen = text_of ''id'' ` set tasks" "set (seen_dependencies seen) = task_entry ` set tasks"
      "distinct (map fst (seen_dependencies seen))" "list_all task_ok tasks"
    using assms(2) task(2) by (simp_all add: recorded_def)
  have "task_ok v" using task(6) by (simp add: task_ok_def texts)
  moreover have "distinct (map fst (seen_dependencies seen'))"
    using before(4) task(2) keys by (simp add: seen' distinct_insort_fst)
  ultimately show ?thesis
    unfolding recorded_def using fresh before by (simp add: seen' texts entry set_insort_key)
qed

lemma fold_tasks_Inr:
  "\<lbrakk>fold_each (validate_task milestone_id) vs seen = Inr seen'; recorded tasks seen\<rbrakk> \<Longrightarrow>
   recorded (tasks @ vs) seen' \<and> seen_milestones seen' = seen_milestones seen"
proof (induction vs arbitrary: tasks seen)
  case (Cons v vs)
  from Cons.prems(1) obtain middle where middle: "validate_task milestone_id v seen = Inr middle"
      "fold_each (validate_task milestone_id) vs middle = Inr seen'"
    by (auto simp: and_then_Inr)
  note first = validate_task_Inr [OF middle(1) Cons.prems(2)]
  from Cons.IH [OF middle(2) conjunct1 [OF first]] first show ?case by simp
qed simp

lemma validate_milestone_Inr:
  assumes "validate_milestone v seen = Inr seen'" "recorded tasks seen"
  shows "recorded (tasks @ list_of ''tasks'' v) seen' \<and> text_of ''id'' v \<notin> seen_milestones seen \<and>
    seen_milestones seen' = insert (text_of ''id'' v) (seen_milestones seen)"
proof -
  obtain milestone milestone_id vs where v: "v = JObject milestone" and
      milestone: "required_string milestone ''id'' = Inr milestone_id" "milestone_id \<notin> seen_milestones seen"
        "required_array milestone ''tasks'' = Inr vs"
        "fold_each (validate_task milestone_id) vs (seen\<lparr>seen_milestones := insert milestone_id (seen_milestones seen)\<rparr>) = Inr seen'"
    using assms(1) unfolding validate_milestone_def object_of_def and_then_Inr ok_or_Inr ensure_Inr as_object_Some
    by (elim exE conjE) (rule that, assumption+)
  have "recorded tasks (seen\<lparr>seen_milestones := insert milestone_id (seen_milestones seen)\<rparr>)"
    using assms(2) by (simp add: recorded_def)
  from fold_tasks_Inr [OF milestone(4) this] show ?thesis
    using milestone(1-3) by (simp add: v text_of_object list_of_object)
qed

lemma fold_milestones_Inr:
  "\<lbrakk>fold_each validate_milestone vs seen = Inr seen'; recorded tasks seen\<rbrakk> \<Longrightarrow>
   recorded (tasks @ concat (map (list_of ''tasks'') vs)) seen' \<and> distinct (map (text_of ''id'') vs) \<and>
   text_of ''id'' ` set vs \<inter> seen_milestones seen = {} \<and>
   seen_milestones seen' = text_of ''id'' ` set vs \<union> seen_milestones seen"
proof (induction vs arbitrary: tasks seen)
  case (Cons v vs)
  from Cons.prems(1) obtain middle where middle: "validate_milestone v seen = Inr middle"
      "fold_each validate_milestone vs middle = Inr seen'"
    by (auto simp: and_then_Inr)
  note first = validate_milestone_Inr [OF middle(1) Cons.prems(2)]
  from Cons.IH [OF middle(2) conjunct1 [OF first]] first show ?case by auto
qed simp

lemma depends_cong: "\<lbrakk>set m = set m'; distinct (map fst m); distinct (map fst m')\<rbrakk> \<Longrightarrow> depends m = depends m'"
  using map_of_inject_set [of m m'] by (simp add: depends_def)

text \<open>A roadmap that is accepted names its milestones and its tasks apart, each dependency is a task and no task
  waits for itself through any number of tasks; the current milestone and the next task exist; a completed task
  has evidence; and no text of the document, at any depth, is private.\<close>

theorem validate_sound:
  assumes "validate roadmap = Inr ()"
  shows "distinct (map (text_of ''id'') (list_of ''milestones'' roadmap)) \<and>
    distinct (map (text_of ''id'') (tasks_of roadmap)) \<and>
    (\<forall>task \<in> set (tasks_of roadmap). set (dependencies_of task) \<subseteq> text_of ''id'' ` set (tasks_of roadmap) \<and> task_ok task) \<and>
    acyclic (depends (map task_entry (tasks_of roadmap))) \<and>
    text_of ''current_milestone'' roadmap \<in> text_of ''id'' ` set (list_of ''milestones'' roadmap) \<and>
    text_of ''next_executable_task'' roadmap \<in> text_of ''id'' ` set (tasks_of roadmap) \<and>
    (\<forall>t \<in> set (json_texts roadmap). \<not> is_private t)"
proof -
  obtain obj milestones seen current following where roadmap: "roadmap = JObject obj" and
      fields: "required_array obj ''milestones'' = Inr milestones"
        "required_string obj ''current_milestone'' = Inr current" "current \<in> seen_milestones seen"
        "required_string obj ''next_executable_task'' = Inr following" "following \<in> seen_tasks seen" and
      run: "fold_each validate_milestone milestones \<lparr>seen_milestones = {}, seen_tasks = {}, seen_dependencies = []\<rparr> = Inr seen" and
      checks: "known_dependencies seen = Inr ()" "detect_cycles (seen_dependencies seen) = Inr ()"
        "reject_private_evidence roadmap = Inr ()"
    using assms unfolding validate_def object_of_def and_then_Inr ok_or_Inr ensure_Inr map_err_Inr as_object_Some
    by (elim exE conjE) (rule that, (assumption | simp)+)
  have milestones: "list_of ''milestones'' roadmap = milestones"
    using fields(1) by (simp add: roadmap list_of_object)
  then have tasks: "tasks_of roadmap = concat (map (list_of ''tasks'') milestones)" by (simp add: tasks_of_def)
  have "recorded [] \<lparr>seen_milestones = {}, seen_tasks = {}, seen_dependencies = []\<rparr>" by (simp add: recorded_def)
  from fold_milestones_Inr [OF run this]
  have seen: "recorded (tasks_of roadmap) seen" "distinct (map (text_of ''id'') milestones)"
      "seen_milestones seen = text_of ''id'' ` set milestones"
    by (simp_all add: tasks)
  note parts = seen(1) [unfolded recorded_def]
  have "set (dependencies_of task) \<subseteq> seen_tasks seen" if "task \<in> set (tasks_of roadmap)" for task
  proof -
    have "task_entry task \<in> set (seen_dependencies seen)" using parts that by blast
    then show ?thesis using checks(1) by (force simp: known_dependencies_def result_simps task_entry_def)
  qed
  moreover have "depends (map task_entry (tasks_of roadmap)) = depends (seen_dependencies seen)"
    using parts by (intro depends_cong) (simp_all add: task_entry_def comp_def)
  moreover have "acyclic (depends (seen_dependencies seen))" using checks(2) by (simp add: detect_cycles_Inr)
  moreover have "text_of ''current_milestone'' roadmap = current" "text_of ''next_executable_task'' roadmap = following"
    using fields by (simp_all add: roadmap text_of_object)
  ultimately show ?thesis
    using parts seen milestones fields checks(3) by (simp add: list_all_iff reject_private_Inr)
qed

end
