(* ===== verification/Roadmap_Render.thy ===== *)
theory Roadmap_Render
  imports Roadmap Effects
begin

text \<open>
  \<^verbatim>\<open>render\<close> and \<^verbatim>\<open>main\<close> of \<^verbatim>\<open>src/bin/validate_distribution_roadmap.rs\<close>: the Markdown of a
  roadmap, the check that the file on the disk is this text, and its replacement.
\<close>

section \<open>Pieces of text\<close>

definition NL :: string where
  "NL = [CHR 0x0A]"

definition DASH :: string where
  "DASH = [CHR 0xE2, CHR 0x80, CHR 0x94]"

definition code :: "string \<Rightarrow> string" where
  "code s = [CHR 0x60] @ s @ [CHR 0x60]"

definition bullet :: "string \<Rightarrow> string" where
  "bullet s = ''- '' @ s @ NL"

definition labelled :: "string \<Rightarrow> string \<Rightarrow> string" where
  "labelled label s = ''- '' @ label @ '': '' @ s @ NL"

definition heading :: "string \<Rightarrow> string" where
  "heading title = ''## '' @ title @ NL @ NL"

definition section_text :: "string \<Rightarrow> string \<Rightarrow> string" where
  "section_text title body = heading title @ body @ NL @ NL"

definition section_list :: "string \<Rightarrow> string list \<Rightarrow> string" where
  "section_list title vs = heading title @ concat (map bullet vs) @ NL"

fun join_codes :: "string list \<Rightarrow> string" where
  "join_codes [] = []"
| "join_codes [s] = code s"
| "join_codes (s # ss) = code s @ '', '' @ join_codes ss"

definition display_list :: "string list \<Rightarrow> string" where
  "display_list vs = (if vs = [] then ''none'' else join_codes vs)"

definition table_cell :: "string \<Rightarrow> string" where
  "table_cell s =
     concat (map (\<lambda>c. if c = CHR ''|'' then [CHR 0x5C, CHR ''|''] else if c = CHR 0x0D \<or> c = CHR 0x0A then '' '' else [c]) s)"

text \<open>A row of a table, from its cells.\<close>

definition table_row :: "string list \<Rightarrow> string" where
  "table_row cells = concat (map (\<lambda>cell. ''| '' @ cell @ '' '') cells) @ ''|'' @ NL"

definition table_head :: "string list \<Rightarrow> string" where
  "table_head titles = table_row titles @ table_row (map (\<lambda>_. ''---'') titles)"

text \<open>A loop that appends to the text.\<close>

fun render_each :: "('a \<Rightarrow> ('e, string) result) \<Rightarrow> 'a list \<Rightarrow> ('e, string) result" where
  "render_each f [] = Inr []"
| "render_each f (x # xs) = and_then (f x) (\<lambda>s. and_then (render_each f xs) (\<lambda>t. Inr (s @ t)))"

definition render_array :: "json_object \<Rightarrow> string \<Rightarrow> (json \<Rightarrow> (roadmap_error, string) result) \<Rightarrow> (roadmap_error, string) result" where
  "render_array obj field f = and_then (required_array obj field) (render_each f)"

definition render_bullets :: "json_object \<Rightarrow> string \<Rightarrow> (roadmap_error, string) result" where
  "render_bullets obj field = and_then (string_array obj field) (\<lambda>vs. Inr (concat (map bullet vs)))"

text \<open>A row with the texts of some columns, each written in its way.\<close>

definition render_cells :: "json_object \<Rightarrow> (string \<times> (string \<Rightarrow> string)) list \<Rightarrow> (roadmap_error, string) result" where
  "render_cells row = render_each (\<lambda>(column, write_cell).
     and_then (required_string row column) (\<lambda>s. Inr (''| '' @ write_cell (table_cell s) @ '' '')))"

definition render_row :: "string \<Rightarrow> (string \<times> (string \<Rightarrow> string)) list \<Rightarrow> json \<Rightarrow> (roadmap_error, string) result" where
  "render_row what columns v =
     and_then (object_of what v) (\<lambda>row. and_then (render_cells row columns) (\<lambda>s. Inr (s @ ''|'' @ NL)))"

text \<open>Lines with a label each.\<close>

definition render_lines ::
    "json_object \<Rightarrow> (string \<times> string \<times> (string \<Rightarrow> string)) list \<Rightarrow> (roadmap_error, string) result" where
  "render_lines obj = render_each (\<lambda>(label, field, write_text).
     and_then (required_string obj field) (\<lambda>s. Inr (labelled label (write_text s))))"

section \<open>The design contract\<close>

definition plain :: "string \<Rightarrow> string" where
  "plain s = s"

definition render_target :: "json \<Rightarrow> (roadmap_error, string) result" where
  "render_target v =
     and_then (object_of ''initial_support_targets'' v) (\<lambda>target.
     and_then (render_cells target
       [(''target'', plain), (''triple'', code), (''runtime_floor'', plain), (''package_format'', plain), (''status'', code)])
       (\<lambda>cells.
     and_then (string_array target ''validation_milestones'') (\<lambda>milestones.
     Inr (cells @ ''| '' @ display_list milestones @ '' |'' @ NL))))"

definition render_ownership :: "json \<Rightarrow> (roadmap_error, string) result" where
  "render_ownership v =
     and_then (object_of ''installation_ownership'' v) (\<lambda>ownership.
     and_then (required_string ownership ''platform'') (\<lambda>platform.
     and_then (render_lines ownership
       [(''Entry point'', ''entry_point'', code), (''Immutable payloads'', ''payloads'', code),
        (''Active pointer'', ''active_pointer'', code), (''Staging'', ''staging'', code), (''Cache'', ''cache'', code),
        (''Rollback'', ''rollback'', code), (''Ownership'', ''ownership'', plain)]) (\<lambda>lines.
     Inr (''### '' @ platform @ NL @ NL @ lines @ NL))))"

definition TRUST_LABELS :: "(string \<times> string) list" where
  "TRUST_LABELS =
     [(''metadata'', ''Metadata''), (''bootstrap'', ''Bootstrap''), (''signing_thresholds'', ''Signing thresholds''),
      (''asset_integrity'', ''Asset integrity''), (''expiration_and_replay'', ''Expiration and replay''),
      (''key_rotation_and_revocation'', ''Key rotation and revocation''), (''rollback'', ''Rollback''),
      (''authorization_boundary'', ''Authorization boundary'')]"

definition render_trust :: "json_object \<Rightarrow> (roadmap_error, string) result" where
  "render_trust obj =
     and_then (required_object obj ''release_trust_model'') (\<lambda>trust.
     and_then (render_each (\<lambda>(field, label).
         and_then (required_string trust field) (\<lambda>s. Inr (''- **'' @ label @ '':** '' @ s @ NL))) TRUST_LABELS) (\<lambda>lines.
     and_then (string_array trust ''maintainer_actions'') (\<lambda>actions.
     Inr (heading ''Release trust model'' @ lines @ ''- **Future maintainer actions:**'' @ NL @
          concat (map (\<lambda>a. ''  '' @ bullet a) actions) @ NL))))"

definition render_design_contract :: "json_object \<Rightarrow> (roadmap_error, string) result" where
  "render_design_contract obj =
     and_then (render_array obj ''startup_decision_table'' (render_row ''startup_decision_table''
       (map (\<lambda>column. (column, plain)) DECISION_COLUMNS))) (\<lambda>decisions.
     and_then (render_array obj ''startup_state_transitions'' (render_row ''startup_state_transitions''
       (map (\<lambda>column. (column, plain)) TRANSITION_COLUMNS))) (\<lambda>transitions.
     and_then (render_array obj ''initial_support_targets'' render_target) (\<lambda>targets.
     and_then (render_array obj ''installation_ownership'' render_ownership) (\<lambda>ownership.
     and_then (render_trust obj) (\<lambda>trust.
     and_then (render_array obj ''release_library_review'' (render_row ''release_library_review''
       [(''purpose'', plain), (''crate'', code), (''observed_documented_version'', code),
        (''official_documentation'', plain), (''decision'', plain)])) (\<lambda>libraries.
     Inr (heading ''Startup decision table'' @
          table_head [''State'', ''Condition'', ''Wrapper action'', ''Codex action'', ''Outcome''] @ decisions @ NL @
          heading ''Startup state transitions'' @ table_head [''From'', ''Event'', ''To'', ''Effect''] @ transitions @ NL @
          heading ''Initial support targets'' @
          table_head [''Target'', ''Triple'', ''Proposed runtime floor'', ''Package'', ''Status'', ''Native validation''] @
          targets @ NL @ heading ''Installation ownership'' @ ownership @ trust @
          heading ''Reviewed release libraries'' @
          table_head [''Purpose'', ''Crate'', ''Observed docs version'', ''Official documentation'', ''Decision''] @
          libraries @ NL)))))))"

section \<open>Tasks and milestones\<close>

definition render_area :: "json \<Rightarrow> (roadmap_error, string) result" where
  "render_area v =
     and_then (object_of ''expected_implementation_areas'' v) (\<lambda>area.
     and_then (required_string area ''path'') (\<lambda>path.
     and_then (required_string area ''kind'') (\<lambda>kind.
     and_then (required_string area ''purpose'') (\<lambda>purpose.
     Inr (bullet (code path @ '' ('' @ code kind @ ''): '' @ purpose))))))"

definition part :: "string \<Rightarrow> string" where
  "part title = ''**'' @ title @ ''**'' @ NL @ NL"

definition REQUIREMENT_LABELS :: "(string \<times> string) list" where
  "REQUIREMENT_LABELS =
     [(''native_windows'', ''Native Windows''), (''native_linux'', ''Native Linux''), (''github_access'', ''GitHub access''),
      (''human_action'', ''Human action'')]"

definition render_requirement :: "json_object \<Rightarrow> string \<times> string \<Rightarrow> (roadmap_error, string) result" where
  "render_requirement requirements = (\<lambda>(key, label).
     and_then (ok_or (BadRequirement [] key) (get_with as_bool requirements key)) (\<lambda>b.
     Inr (labelled label (code (if b then ''true'' else ''false'')))))"

definition render_task :: "json_object \<Rightarrow> (roadmap_error, string) result" where
  "render_task task =
     and_then (required_string task ''id'') (\<lambda>task_id.
     and_then (required_string task ''status'') (\<lambda>status.
     and_then (string_array task ''dependencies'') (\<lambda>dependencies.
     and_then (required_string task ''objective'') (\<lambda>objective.
     and_then (required_string task ''user_visible_outcome'') (\<lambda>user_outcome.
     and_then (render_array task ''expected_implementation_areas'' render_area) (\<lambda>areas.
     and_then (render_bullets task ''deliverables'') (\<lambda>deliverables.
     and_then (render_bullets task ''validation'') (\<lambda>validation.
     and_then (string_array task ''completion_evidence'') (\<lambda>evidence.
     and_then (render_bullets task ''risks_or_unresolved_decisions'') (\<lambda>risks.
     and_then (required_object task ''requirements'') (\<lambda>requirements.
     and_then (render_each (render_requirement requirements) REQUIREMENT_LABELS) (\<lambda>access.
     Inr (''#### '' @ task_id @ '' '' @ DASH @ '' '' @
          (case get_with as_str task ''title'' of Some title \<Rightarrow> title | None \<Rightarrow> task_id) @ NL @ NL @
          labelled ''Status'' (code status) @ labelled ''Dependencies'' (display_list dependencies) @
          labelled ''Objective'' objective @ labelled ''User-visible outcome'' user_outcome @ NL @
          part ''Expected implementation areas'' @ areas @ NL @ part ''Deliverables'' @ deliverables @ NL @
          part ''Validation'' @ validation @ NL @ part ''Completion evidence'' @
          (if evidence = []
           then bullet (''Not complete; evidence must be recorded before status becomes '' @ code ''completed'' @ ''.'')
           else concat (map bullet evidence)) @
          NL @ part ''Risks and unresolved decisions'' @ risks @ NL @ part ''Required access or action'' @ access @ NL)))))))))))))"

definition render_milestone :: "json \<Rightarrow> (roadmap_error, string) result" where
  "render_milestone v =
     and_then (object_of ''milestones'' v) (\<lambda>milestone.
     and_then (required_string milestone ''id'') (\<lambda>milestone_id.
     and_then (required_string milestone ''title'') (\<lambda>title.
     and_then (required_string milestone ''status'') (\<lambda>status.
     and_then (required_string milestone ''objective'') (\<lambda>objective.
     and_then (render_array milestone ''tasks'' (\<lambda>task. and_then (object_of ''tasks'' task) render_task)) (\<lambda>tasks.
     Inr (''### '' @ milestone_id @ '' '' @ DASH @ '' '' @ title @ NL @ NL @ labelled ''Status'' (code status) @
          labelled ''Objective'' objective @ NL @ tasks)))))))"

definition render_blocker :: "json \<Rightarrow> (roadmap_error, string) result" where
  "render_blocker v =
     and_then (object_of ''blockers'' v) (\<lambda>blocker.
     and_then (required_string blocker ''id'') (\<lambda>blocker_id.
     and_then (required_string blocker ''status'') (\<lambda>status.
     and_then (required_string blocker ''description'') (\<lambda>description.
     and_then (string_array blocker ''unblocks'') (\<lambda>unblocks.
     Inr (''### '' @ code blocker_id @ NL @ NL @ labelled ''Status'' (code status) @
          labelled ''Description'' description @ labelled ''Unblocks'' (display_list unblocks) @ NL))))))"

definition render_head :: "json_object \<Rightarrow> (roadmap_error, string) result" where
  "render_head obj =
     and_then (required_string obj ''schema_version'') (\<lambda>schema.
     and_then (ok_or BadRevision (get_with as_u64 obj ''roadmap_revision'')) (\<lambda>revision.
     and_then (render_lines obj
       [(''Repository'', ''repository'', code), (''Inspected source commit'', ''inspected_source_commit'', code),
        (''Source branch'', ''source_branch'', code), (''Roadmap branch'', ''roadmap_branch'', code),
        (''Current milestone'', ''current_milestone'', code), (''Next executable task'', ''next_executable_task'', code)])
       (\<lambda>lines.
     Inr (''<!-- Generated from docs/distribution-roadmap.json by validate_distribution_roadmap; do not edit. -->'' @ NL @ NL @
          ''# Distribution roadmap'' @ NL @ NL @ labelled ''Schema version'' (code schema) @
          labelled ''Roadmap revision'' (code (show_nat (unat revision))) @ lines @ NL))))"

definition render_contract :: "json_object \<Rightarrow> (roadmap_error, string) result" where
  "render_contract obj =
     and_then (required_object obj ''validation_contract'') (\<lambda>validation.
     and_then (required_string validation ''purpose'') (\<lambda>purpose.
     and_then (render_bullets validation ''checks'') (\<lambda>checks.
     Inr (heading ''Roadmap validation contract'' @ purpose @ NL @ NL @ checks))))"

definition render_list :: "json_object \<Rightarrow> string \<Rightarrow> string \<Rightarrow> (roadmap_error, string) result" where
  "render_list obj title field = and_then (string_array obj field) (\<lambda>vs. Inr (section_list title vs))"

definition render :: "json \<Rightarrow> (roadmap_error, string) result" where
  "render roadmap =
     and_then (object_of ''roadmap'' roadmap) (\<lambda>obj.
     and_then (render_head obj) (\<lambda>head.
     and_then (required_string obj ''overall_objective'') (\<lambda>objective.
     and_then (render_list obj ''Scope'' ''scope'') (\<lambda>scope.
     and_then (render_list obj ''Non-goals'' ''non_goals'') (\<lambda>non_goals.
     and_then (render_design_contract obj) (\<lambda>design.
     and_then (render_array obj ''blockers'' render_blocker) (\<lambda>blockers.
     and_then (render_list obj ''Operating rules'' ''operating_rules'') (\<lambda>rules.
     and_then (render_array obj ''milestones'' render_milestone) (\<lambda>milestones.
     and_then (render_contract obj) (\<lambda>contract.
     Inr (trim_end (head @ section_text ''Objective'' objective @ scope @ non_goals @ design @ heading ''Blockers'' @
          blockers @ rules @ heading ''Milestones'' @ milestones @ contract) @ NL)))))))))))"

section \<open>What validation leaves to the rendering\<close>

lemma is_ok_and_then: "is_ok (and_then m k) = (\<exists>x. m = Inr x \<and> is_ok (k x))"
  by (cases m) auto

lemma is_ok_render_each: "is_ok (render_each f xs) = (\<forall>x \<in> set xs. is_ok (f x))"
  by (induction xs) (auto simp: is_ok_iff and_then_Inr)

lemma is_ok_required: "is_ok (required_string obj field) = (text_of field (JObject obj) \<noteq> [])"
  by (auto simp: required_string_def get_with_def text_of_def member_def ok_or_def split: option.splits json.splits bind_splits)

lemma require_strings_Inr: "(require_strings obj names = Inr u) = (\<forall>f \<in> set names. is_ok (required_string obj f))"
  by (auto simp: require_strings_def result_simps is_ok_iff)

lemma validate_strings_Inr: "(validate_strings obj field = Inr u) = is_ok (string_array obj field)"
  by (auto simp: validate_strings_def result_simps is_ok_iff)

lemma is_ok_plain [simp]: "is_ok (and_then m (\<lambda>x. Inr (f x))) = is_ok m"
  by (cases m) auto

lemma is_ok_bullets: "is_ok (render_bullets obj field) = is_ok (string_array obj field)"
  by (simp add: render_bullets_def)

lemma is_ok_cells: "is_ok (render_cells row columns) = (\<forall>(column, w) \<in> set columns. is_ok (required_string row column))"
  by (auto simp: render_cells_def is_ok_render_each)

lemma is_ok_lines: "is_ok (render_lines obj entries_list) = (\<forall>(label, field, w) \<in> set entries_list. is_ok (required_string obj field))"
  by (auto simp: render_lines_def is_ok_render_each)

lemma render_row_ok:
  assumes "validate_row what columns v = Inr ()" "fst ` set cells \<subseteq> set columns"
  shows "is_ok (render_row what cells v)"
  using assms by (force simp: validate_row_def render_row_def is_ok_and_then is_ok_cells result_simps require_strings_Inr
      split_beta)

lemma is_okE: "\<lbrakk>is_ok m; \<And>x. m = Inr x \<Longrightarrow> thesis\<rbrakk> \<Longrightarrow> thesis"
  by (cases m) auto

lemma is_ok_array: "is_ok (render_array obj field f) = (\<exists>vs. required_array obj field = Inr vs \<and> (\<forall>v \<in> set vs. is_ok (f v)))"
  by (auto simp: render_array_def is_ok_and_then is_ok_render_each)

lemma is_ok_list: "is_ok (render_list obj title field) = is_ok (string_array obj field)"
  by (simp add: render_list_def)

lemma is_ok_ensure: "is_ok (ensure c e) = c"
  by (simp add: ensure_def)

lemma is_ok_ok_or: "is_ok (ok_or e m) = (m \<noteq> None)"
  by (simp add: ok_or_def split: option.splits)

lemma required_array_map: "required_array obj field = Inr vs \<Longrightarrow> map_of obj field = Some (JArray vs)"
  by (auto simp: required_array_def get_with_def result_simps bind_eq_Some_conv)

lemmas rendering = is_ok_and_then is_ok_render_each is_ok_required is_ok_bullets is_ok_cells is_ok_lines is_ok_array is_ok_list
  is_ok_ok_or

lemmas accepting = and_then_Inr ok_or_Inr ensure_Inr for_each_Inr require_strings_Inr validate_strings_Inr object_of_def
  as_object_Some

lemma render_area_ok: "validate_area task_id v = Inr () \<Longrightarrow> is_ok (render_area v)"
  by (auto simp: validate_area_def render_area_def accepting rendering is_ok_iff)

lemma render_requirement_ok:
  assumes "validate_requirements (JObject requirements) task_id = Inr u"
  shows "is_ok (render_each (render_requirement requirements) REQUIREMENT_LABELS)"
  using assms by (auto simp: validate_requirements_def render_requirement_def accepting rendering REQUIREMENTS_def
      REQUIREMENT_LABELS_def)

text \<open>The two texts of a task that are asked for by the rendering only.\<close>

definition described :: "json \<Rightarrow> bool" where
  "described task = (text_of ''objective'' task \<noteq> [] \<and> text_of ''user_visible_outcome'' task \<noteq> [])"

lemma render_task_ok:
  assumes "validate_task milestone_id v seen = Inr seen'"
  shows "is_ok (and_then (object_of ''tasks'' v) render_task) = described v"
proof -
  obtain task task_id status deps areas requirements evidence u1 u2 u3 where v: "v = JObject task" and
      task: "required_string task ''id'' = Inr task_id" "required_string task ''status'' = Inr status"
        "string_array task ''dependencies'' = Inr deps"
        "for_each (validate_strings task) [''deliverables'', ''validation'', ''completion_evidence'', ''risks_or_unresolved_decisions''] = Inr u1"
        "map_of task ''expected_implementation_areas'' = Some areas" "validate_areas areas task_id = Inr u2"
        "map_of task ''requirements'' = Some requirements" "validate_requirements requirements task_id = Inr u3"
        "string_array task ''completion_evidence'' = Inr evidence"
    using assms unfolding validate_task_def object_of_def and_then_Inr ok_or_Inr ensure_Inr as_object_Some
    by (elim exE conjE) (rule that, assumption+)
  obtain vs where vs: "areas = JArray vs" "\<forall>v \<in> set vs. is_ok (render_area v)"
    using task(6) by (auto simp: validate_areas_def accepting intro: render_area_ok)
  have areas: "is_ok (render_array task ''expected_implementation_areas'' render_area)"
    using task(5) vs by (simp add: is_ok_array required_array_def get_with_def ok_or_def)
  obtain robj where robj: "requirements = JObject robj"
    using task(8) by (auto simp: validate_requirements_def accepting)
  have reqs: "required_object task ''requirements'' = Inr robj"
      "is_ok (render_each (render_requirement robj) REQUIREMENT_LABELS)"
    using task(7) render_requirement_ok [OF task(8) [unfolded robj]] by (simp_all add: robj required_object_def get_with_def ok_or_def)
  have arrays: "is_ok (render_bullets task ''deliverables'')" "is_ok (render_bullets task ''validation'')"
      "is_ok (render_bullets task ''risks_or_unresolved_decisions'')"
    using task(4) by (auto simp: is_ok_bullets and_then_Inr validate_strings_Inr)
  obtain a where a: "render_array task ''expected_implementation_areas'' render_area = Inr a" using areas by (rule is_okE)
  obtain b where b: "render_bullets task ''deliverables'' = Inr b" using arrays(1) by (rule is_okE)
  obtain c where c: "render_bullets task ''validation'' = Inr c" using arrays(2) by (rule is_okE)
  obtain d where d: "render_bullets task ''risks_or_unresolved_decisions'' = Inr d" using arrays(3) by (rule is_okE)
  obtain e where e: "render_each (render_requirement robj) REQUIREMENT_LABELS = Inr e" using reqs(2) by (rule is_okE)
  have "is_ok (render_task task) = (is_ok (required_string task ''objective'') \<and> is_ok (required_string task ''user_visible_outcome''))"
    unfolding render_task_def task a b c d e reqs(1) and_then.simps
    by (cases "required_string task ''objective''"; cases "required_string task ''user_visible_outcome''") simp_all
  then show ?thesis by (simp add: v object_of_def ok_or_def is_ok_required described_def)
qed

lemma fold_tasks_described:
  "fold_each (validate_task milestone_id) vs seen = Inr seen' \<Longrightarrow>
   (\<forall>v \<in> set vs. is_ok (and_then (object_of ''tasks'' v) render_task)) = (\<forall>v \<in> set vs. described v)"
proof (induction vs arbitrary: seen)
  case (Cons v vs)
  from Cons.prems obtain middle where "validate_task milestone_id v seen = Inr middle"
      "fold_each (validate_task milestone_id) vs middle = Inr seen'"
    by (auto simp: and_then_Inr)
  then show ?case using render_task_ok Cons.IH by auto
qed simp

lemma render_milestone_ok:
  assumes "validate_milestone v seen = Inr seen'"
  shows "is_ok (render_milestone v) = (\<forall>task \<in> set (list_of ''tasks'' v). described task)"
proof -
  obtain milestone milestone_id status vs seen1 u1 u2 where v: "v = JObject milestone" and
      milestone: "required_string milestone ''id'' = Inr milestone_id" "required_string milestone ''status'' = Inr status"
        "require_strings milestone [''title''] = Inr u1" "require_strings milestone [''objective''] = Inr u2"
        "required_array milestone ''tasks'' = Inr vs" "fold_each (validate_task milestone_id) vs seen1 = Inr seen'"
    using assms unfolding validate_milestone_def object_of_def and_then_Inr ok_or_Inr ensure_Inr as_object_Some
    by (elim exE conjE) (rule that, assumption+)
  have title: "is_ok (required_string milestone ''title'')" and objective: "is_ok (required_string milestone ''objective'')"
    using milestone(3,4) by (simp_all add: require_strings_Inr)
  have tasks: "is_ok (render_array milestone ''tasks'' (\<lambda>task. and_then (object_of ''tasks'' task) render_task)) =
      (\<forall>task \<in> set vs. described task)"
    using fold_tasks_described [OF milestone(6)] milestone(5) by (simp add: is_ok_array)
  obtain a where a: "required_string milestone ''title'' = Inr a" using title by (rule is_okE)
  obtain b where b: "required_string milestone ''objective'' = Inr b" using objective by (rule is_okE)
  show ?thesis
    using tasks by (simp add: render_milestone_def v object_of_def ok_or_def milestone a b list_of_object [OF milestone(5)])
qed

lemma fold_milestones_described:
  "fold_each validate_milestone vs seen = Inr seen' \<Longrightarrow>
   (\<forall>v \<in> set vs. is_ok (render_milestone v)) = (\<forall>task \<in> set (concat (map (list_of ''tasks'') vs)). described task)"
proof (induction vs arbitrary: seen)
  case (Cons v vs)
  from Cons.prems obtain middle where "validate_milestone v seen = Inr middle" "fold_each validate_milestone vs middle = Inr seen'"
    by (auto simp: and_then_Inr)
  then show ?case using render_milestone_ok Cons.IH by auto
qed simp

lemma render_blocker_ok: "validate_blocker v = Inr () \<Longrightarrow> is_ok (render_blocker v)"
  by (auto simp: validate_blocker_def render_blocker_def accepting rendering is_ok_iff)

lemma is_ok_next: "\<lbrakk>is_ok m; \<And>x. is_ok (k x)\<rbrakk> \<Longrightarrow> is_ok (and_then m k)"
  by (cases m) auto

lemma render_target_ok:
  assumes "validate_target v = Inr ()"
  shows "is_ok (render_target v)"
proof -
  obtain target where v: "v = JObject target" and checks: "require_strings target TARGET_FIELDS = Inr ()"
      "validate_strings target ''validation_milestones'' = Inr ()"
    using assms by (auto simp: validate_target_def object_of_def result_simps)
  have "is_ok (render_cells target [(''target'', plain), (''triple'', code), (''runtime_floor'', plain),
      (''package_format'', plain), (''status'', code)])"
    using checks(1) by (simp add: is_ok_cells require_strings_Inr TARGET_FIELDS_def)
  then show ?thesis
    using checks(2) unfolding render_target_def by (simp add: v object_of_def ok_or_def is_ok_next validate_strings_Inr)
qed

lemma render_ownership_ok:
  assumes "validate_row ''installation_ownership'' OWNERSHIP_FIELDS v = Inr ()"
  shows "is_ok (render_ownership v)"
proof -
  obtain row where v: "v = JObject row" and checks: "require_strings row OWNERSHIP_FIELDS = Inr ()"
    using assms by (auto simp: validate_row_def object_of_def result_simps)
  then show ?thesis
    unfolding render_ownership_def
    by (simp add: object_of_def ok_or_def is_ok_next is_ok_lines require_strings_Inr OWNERSHIP_FIELDS_def)
qed

lemma render_trust_ok:
  assumes "validate_trust obj = Inr ()"
  shows "is_ok (render_trust obj)"
proof -
  obtain trust where trust: "required_object obj ''release_trust_model'' = Inr trust" and
      checks: "require_strings trust TRUST_FIELDS = Inr ()" "is_ok (string_array trust ''maintainer_actions'')"
    using assms by (auto simp: validate_trust_def validate_string_array_def result_simps is_ok_iff)
  have "is_ok (render_each (\<lambda>(field, label).
         and_then (required_string trust field) (\<lambda>s. Inr (''- **'' @ label @ '':** '' @ s @ NL))) TRUST_LABELS)"
    using checks(1) unfolding is_ok_render_each by (simp add: require_strings_Inr TRUST_FIELDS_def TRUST_LABELS_def)
  then show ?thesis using checks(2) unfolding render_trust_def trust by (simp add: is_ok_next)
qed

lemma render_table_ok:
  assumes "validate_table obj field columns = Inr ()"
  shows "is_ok (render_array obj field (render_row field (map (\<lambda>column. (column, plain)) columns)))"
proof -
  have "is_ok (render_row field (map (\<lambda>column. (column, plain)) columns) v)" if "validate_row field columns v = Inr ()" for v
    using that by (rule render_row_ok) (auto simp: image_image)
  then show ?thesis using assms by (auto simp: validate_table_def is_ok_array result_simps)
qed

lemma render_design_ok:
  assumes "validate_design_contract obj = Inr ()"
  shows "is_ok (render_design_contract obj)"
proof -
  have parts: "validate_table obj ''startup_decision_table'' DECISION_COLUMNS = Inr ()"
      "validate_table obj ''startup_state_transitions'' TRANSITION_COLUMNS = Inr ()"
      "and_then (required_array obj ''initial_support_targets'') (for_each validate_target) = Inr ()"
      "and_then (required_array obj ''installation_ownership'')
        (for_each (validate_row ''installation_ownership'' OWNERSHIP_FIELDS)) = Inr ()"
      "validate_trust obj = Inr ()"
      "and_then (required_array obj ''release_library_review'')
        (for_each (validate_row ''release_library_review'' LIBRARY_FIELDS)) = Inr ()"
    using assms unfolding validate_design_contract_def and_then_Inr [of _ "\<lambda>_. _"] by auto
  have "is_ok (render_array obj ''initial_support_targets'' render_target)"
    using parts(3) render_target_ok by (auto simp: is_ok_array result_simps)
  moreover have "is_ok (render_array obj ''installation_ownership'' render_ownership)"
    using parts(4) render_ownership_ok by (auto simp: is_ok_array result_simps)
  moreover have "is_ok (render_array obj ''release_library_review'' (render_row ''release_library_review''
       [(''purpose'', plain), (''crate'', code), (''observed_documented_version'', code),
        (''official_documentation'', plain), (''decision'', plain)]))"
    using parts(6) by (auto simp: is_ok_array result_simps LIBRARY_FIELDS_def intro!: render_row_ok)
  ultimately show ?thesis
    using render_table_ok [OF parts(1)] render_table_ok [OF parts(2)] render_trust_ok [OF parts(5)]
    unfolding render_design_contract_def by (auto simp: is_ok_iff)
qed

text \<open>What the rendering needs and the validation does not look at: a purpose and the checks of the contract.\<close>

definition contract_ok :: "json \<Rightarrow> bool" where
  "contract_ok roadmap =
     (\<exists>validation. member roadmap ''validation_contract'' = Some (JObject validation) \<and>
        text_of ''purpose'' (JObject validation) \<noteq> [] \<and> is_ok (string_array validation ''checks''))"

lemma render_contract_ok: "is_ok (render_contract obj) = contract_ok (JObject obj)"
  by (auto simp: render_contract_def contract_ok_def member_def required_object_def get_with_def rendering is_ok_iff [of "required_string _ _", symmetric]
      ok_or_Inr bind_eq_Some_conv)

lemma render_head_ok: "validate_head obj = Inr u \<Longrightarrow> is_ok (render_head obj) \<and> is_ok (required_string obj ''overall_objective'')"
proof -
  assume "validate_head obj = Inr u"
  then obtain schema revision commit v where checks: "required_string obj ''schema_version'' = Inr schema"
      "get_with as_u64 obj ''roadmap_revision'' = Some revision" "required_string obj ''inspected_source_commit'' = Inr commit"
      "require_strings obj [''repository'', ''source_branch'', ''roadmap_branch'', ''overall_objective'', ''current_milestone'',
        ''next_executable_task''] = Inr v"
    unfolding validate_head_def and_then_Inr ok_or_Inr ensure_Inr by (elim exE conjE) (rule that, assumption+)
  from checks(4) have strings: "\<forall>f \<in> {''repository'', ''source_branch'', ''roadmap_branch'', ''overall_objective'', ''current_milestone'',
        ''next_executable_task''}. is_ok (required_string obj f)"
    unfolding require_strings_Inr by simp
  have "is_ok (render_lines obj
       [(''Repository'', ''repository'', code), (''Inspected source commit'', ''inspected_source_commit'', code),
        (''Source branch'', ''source_branch'', code), (''Roadmap branch'', ''roadmap_branch'', code),
        (''Current milestone'', ''current_milestone'', code), (''Next executable task'', ''next_executable_task'', code)])"
    unfolding is_ok_lines using strings checks(3) by (simp add: is_ok_iff)
  then show ?thesis
    using strings unfolding render_head_def checks by (simp add: ok_or_def is_ok_next)
qed

lemma validated_renders:
  assumes "validate roadmap = Inr ()"
  shows "is_ok (render roadmap) = ((\<forall>task \<in> set (tasks_of roadmap). described task) \<and> contract_ok roadmap)"
proof -
  obtain obj milestones seen blockers u1 u2 u3 u4 where roadmap: "roadmap = JObject obj" and
      checks: "validate_head obj = Inr u1" "required_array obj ''milestones'' = Inr milestones"
        "fold_each validate_milestone milestones \<lparr>seen_milestones = {}, seen_tasks = {}, seen_dependencies = []\<rparr> = Inr seen"
        "map_of obj ''blockers'' = Some blockers" "validate_blockers blockers = Inr u2"
        "for_each (validate_strings obj) [''scope'', ''non_goals'', ''operating_rules''] = Inr u3"
        "validate_design_contract obj = Inr u4"
    using assms unfolding validate_def object_of_def and_then_Inr ok_or_Inr ensure_Inr map_err_Inr as_object_Some
    by (elim exE conjE) (rule that, assumption+)
  note head = conjunct1 [OF render_head_ok [OF checks(1)]] and objective = conjunct2 [OF render_head_ok [OF checks(1)]]
  obtain bs where bs: "blockers = JArray bs" "\<forall>v \<in> set bs. is_ok (render_blocker v)"
    using checks(5) by (auto simp: validate_blockers_def result_simps intro: render_blocker_ok)
  have blockers: "is_ok (render_array obj ''blockers'' render_blocker)"
    using checks(4) bs by (simp add: is_ok_array required_array_def get_with_def ok_or_def)
  have lists: "is_ok (render_list obj title ''scope'')" "is_ok (render_list obj title ''non_goals'')"
      "is_ok (render_list obj title ''operating_rules'')" for title
    using checks(6) by (auto simp: is_ok_list and_then_Inr validate_strings_Inr)
  have tasks: "tasks_of roadmap = concat (map (list_of ''tasks'') milestones)"
    using checks(2) by (simp add: tasks_of_def roadmap list_of_object)
  have milestones: "is_ok (render_array obj ''milestones'' render_milestone) = (\<forall>task \<in> set (tasks_of roadmap). described task)"
    using fold_milestones_described [OF checks(3)] checks(2) by (simp add: is_ok_array tasks)
  obtain a where a: "render_head obj = Inr a" using head by (rule is_okE)
  obtain b where b: "required_string obj ''overall_objective'' = Inr b" using objective by (rule is_okE)
  obtain c where c: "render_list obj ''Scope'' ''scope'' = Inr c" using lists(1) by (rule is_okE)
  obtain d where d: "render_list obj ''Non-goals'' ''non_goals'' = Inr d" using lists(2) by (rule is_okE)
  obtain e where e: "render_design_contract obj = Inr e" using render_design_ok checks(7) by (auto elim: is_okE)
  obtain f where f: "render_array obj ''blockers'' render_blocker = Inr f" using blockers by (rule is_okE)
  obtain g where g: "render_list obj ''Operating rules'' ''operating_rules'' = Inr g" using lists(3) by (rule is_okE)
  have "is_ok (render roadmap) = (is_ok (render_array obj ''milestones'' render_milestone) \<and> is_ok (render_contract obj))"
    by (simp add: render_def roadmap object_of_def ok_or_def a b c d e f g)
      (cases "render_array obj ''milestones'' render_milestone"; cases "render_contract obj"; simp)
  then show ?thesis using milestones render_contract_ok roadmap by simp
qed

section \<open>The program\<close>

definition JSON_PATH :: path where
  "JSON_PATH = [Normal ''docs'', Normal ''distribution-roadmap.json'']"

definition MARKDOWN_PATH :: path where
  "MARKDOWN_PATH = [Normal ''docs'', Normal ''distribution-roadmap.md'']"

datatype roadmap_action =
    MarkdownStaged path
  | MarkdownWritten string
  | MarkdownDropped
  | MarkdownReplaced path string

datatype roadmap_failure = Usage | RoadmapIo io_kind | RoadmapInvalid roadmap_error | NotRegular | NoParent | OutOfSync

datatype roadmap_outcome = HelpPrinted | Regenerated | Synchronized

record roadmap_calls =
  rc_cwd :: "nat \<Rightarrow> (io_kind, path) result"
  rc_json :: "nat \<Rightarrow> path \<Rightarrow> (io_kind, string) result"
  rc_markdown :: "nat \<Rightarrow> path \<Rightarrow> (io_kind, string) result"
  rc_lstat :: "nat \<Rightarrow> path \<Rightarrow> (io_kind, inode_kind) result"
  rc_temp :: "nat \<Rightarrow> path \<Rightarrow> (io_kind, unit) result"
  rc_write :: "nat \<Rightarrow> string \<Rightarrow> (io_kind, unit) result"
  rc_sync :: "nat \<Rightarrow> (io_kind, unit) result"
  rc_persist :: "nat \<Rightarrow> path \<Rightarrow> (io_kind, unit) result"
  rc_sync_parent :: "nat \<Rightarrow> path \<Rightarrow> (io_kind, unit) result"

text \<open>An error after the temporary file has been created removes it.\<close>

definition drop_markdown :: "io_kind \<Rightarrow> (roadmap_action, (roadmap_failure, unit) result) program" where
  "drop_markdown e = and_next (act MarkdownDropped (\<lambda>t. ())) (\<lambda>_. done_with (Inl (RoadmapIo e)))"

definition write_markdown :: "roadmap_calls \<Rightarrow> path \<Rightarrow> string \<Rightarrow> (roadmap_action, (roadmap_failure, unit) result) program" where
  "write_markdown rc path markdown =
     and_next (ask (\<lambda>t. rc_lstat rc t path)) (\<lambda>r.
     if (case r of Inr kind \<Rightarrow> kind \<noteq> PlainFile | Inl e \<Rightarrow> False) then done_with (Inl NotRegular) else
     if (case r of Inr kind \<Rightarrow> False | Inl e \<Rightarrow> e \<noteq> KindNotFound)
     then done_with (Inl (RoadmapIo (case r of Inl e \<Rightarrow> e | Inr kind \<Rightarrow> KindOther))) else
     case path_parent path of
       None \<Rightarrow> done_with (Inl NoParent)
     | Some parent \<Rightarrow>
     if_ok (act_ok (MarkdownStaged parent) (\<lambda>t. rc_temp rc t parent)) RoadmapIo (\<lambda>_.
     and_next (act (MarkdownWritten markdown) (\<lambda>t. rc_write rc t markdown)) (\<lambda>r.
     case r of Inl e \<Rightarrow> drop_markdown e | Inr _ \<Rightarrow>
     and_next (ask (rc_sync rc)) (\<lambda>r.
     case r of Inl e \<Rightarrow> drop_markdown e | Inr _ \<Rightarrow>
     and_next (act_ok (MarkdownReplaced path markdown) (\<lambda>t. rc_persist rc t path)) (\<lambda>r.
     case r of Inl e \<Rightarrow> drop_markdown e | Inr _ \<Rightarrow>
     if_ok (ask (\<lambda>t. rc_sync_parent rc t parent)) RoadmapIo (\<lambda>_. done_with (Inr ())))))))"

text \<open>What both modes do before the Markdown is looked at.\<close>

definition roadmap_text :: "tokenizer \<Rightarrow> string \<Rightarrow> (roadmap_error, string) result" where
  "roadmap_text tok bytes =
     and_then (parse_roadmap tok (take (MAX_ROADMAP_BYTES + 1) bytes)) (\<lambda>roadmap.
     and_then (validate roadmap) (\<lambda>_. render roadmap))"

definition roadmap_main :: "tokenizer \<Rightarrow> roadmap_calls \<Rightarrow> string option \<Rightarrow>
    (roadmap_action, (roadmap_failure, roadmap_outcome) result) program" where
  "roadmap_main tok rc arg =
     (let mode = (case arg of None \<Rightarrow> ''--check'' | Some m \<Rightarrow> m) in
      if mode \<notin> {''--check'', ''--write'', ''--help''} then done_with (Inl Usage)
      else if mode = ''--help'' then done_with (Inr HelpPrinted)
      else
        if_ok (ask (rc_cwd rc)) RoadmapIo (\<lambda>root.
        if_ok (ask (\<lambda>t. rc_json rc t (path_join root JSON_PATH))) RoadmapIo (\<lambda>bytes.
        if_ok (done_with (roadmap_text tok bytes)) RoadmapInvalid (\<lambda>rendered.
        if mode = ''--write''
        then if_ok (write_markdown rc (path_join root MARKDOWN_PATH) rendered) (\<lambda>e. e) (\<lambda>_. done_with (Inr Regenerated))
        else if_ok (ask (\<lambda>t. rc_markdown rc t (path_join root MARKDOWN_PATH))) RoadmapIo (\<lambda>existing.
          done_with (if existing \<noteq> rendered then Inl OutOfSync else Inr Synchronized))))))"

section \<open>What the program does\<close>

text \<open>The Markdown file is replaced only by the text of a valid roadmap, after all of it was written to a temporary
  file, and only where a plain file or nothing was found; each other ending leaves it alone.\<close>

lemma write_markdown_replaces:
  assumes "write_markdown rc path markdown t = (l, t', r)" "(u, MarkdownReplaced path' s) \<in> set l"
  shows "path' = path \<and> s = markdown \<and> rc_persist rc u path = Inr () \<and>
    (\<exists>w < u. (w, MarkdownWritten markdown) \<in> set l \<and> rc_write rc w markdown = Inr ()) \<and>
    (rc_lstat rc t path = Inr PlainFile \<or> rc_lstat rc t path = Inl KindNotFound)"
  using assms
  by (auto simp: write_markdown_def drop_markdown_def and_next_eq if_ok_def ask_eq act_eq act_ok_eq done_with_eq is_ok_iff
      split: sum.splits option.splits if_splits)

text \<open>A roadmap that is accepted is rendered exactly if its contract is complete and each task has an objective and
  an outcome that are texts: these two are the only ones that the validation asks for without looking at
  them, and the contract is not looked at at all.\<close>

theorem rendering_needs:
  assumes "validate roadmap = Inr ()"
  shows "(\<exists>s. render roadmap = Inr s) = ((\<forall>task \<in> set (tasks_of roadmap). described task) \<and> contract_ok roadmap)"
  using validated_renders [OF assms] by (simp add: is_ok_iff)

text \<open>The check succeeds exactly if the roadmap is valid and the Markdown file is its rendering.\<close>

theorem check_exact:
  "(value_of (roadmap_main tok rc None t) = Inr Synchronized) =
     (\<exists>root bytes roadmap rendered. rc_cwd rc t = Inr root \<and> rc_json rc (Suc t) (path_join root JSON_PATH) = Inr bytes \<and>
        parse_roadmap tok (take (MAX_ROADMAP_BYTES + 1) bytes) = Inr roadmap \<and> validate roadmap = Inr () \<and>
        render roadmap = Inr rendered \<and> rc_markdown rc (Suc (Suc t)) (path_join root MARKDOWN_PATH) = Inr rendered)"
  by (auto simp: roadmap_main_def value_of_def if_ok_def and_next_def ask_def done_with_def roadmap_text_def and_then_Inr
      split: sum.splits prod.splits if_splits)

section \<open>A roadmap\<close>

definition sample_texts :: "string list \<Rightarrow> json_object" where
  "sample_texts names = map (\<lambda>name. (name, JString ''x'')) names"

definition sample_task :: "json \<Rightarrow> json" where
  "sample_task objective = JObject
     ([(''id'', JString ''T1''), (''objective'', objective), (''status'', JString ''planned''),
       (''dependencies'', JArray []), (''deliverables'', JArray []), (''validation'', JArray []),
       (''completion_evidence'', JArray []), (''risks_or_unresolved_decisions'', JArray []),
       (''expected_implementation_areas'', JArray [JObject
          [(''path'', JString ''src''), (''purpose'', JString ''p''), (''kind'', JString ''existing'')]]),
       (''requirements'', JObject (map (\<lambda>field. (field, JBool False)) REQUIREMENTS))] @
      sample_texts [''user_visible_outcome''])"

definition sample_roadmap :: "json \<Rightarrow> json" where
  "sample_roadmap objective = JObject
     ([(''schema_version'', JString ''1.0''), (''roadmap_revision'', JNumber (PosInt 1)),
       (''inspected_source_commit'', JString (replicate 40 CHR ''0'')), (''current_milestone'', JString ''M1''),
       (''next_executable_task'', JString ''T1''), (''scope'', JArray []), (''non_goals'', JArray []),
       (''blockers'', JArray []), (''operating_rules'', JArray []),
       (''milestones'', JArray [JObject
          ([(''id'', JString ''M1''), (''status'', JString ''planned''), (''tasks'', JArray [sample_task objective])] @
           sample_texts [''title'', ''objective''])]),
       (''startup_decision_table'', JArray [JObject (sample_texts DECISION_COLUMNS)]),
       (''startup_state_transitions'', JArray [JObject (sample_texts TRANSITION_COLUMNS)]),
       (''initial_support_targets'', JArray []), (''installation_ownership'', JArray []),
       (''release_library_review'', JArray []),
       (''release_trust_model'', JObject ((''maintainer_actions'', JArray [JString ''x'']) # sample_texts TRUST_FIELDS)),
       (''validation_contract'', JObject [(''purpose'', JString ''x''), (''checks'', JArray [])])] @
      sample_texts [''repository'', ''source_branch'', ''roadmap_branch'', ''overall_objective''])"

lemmas sample_simps = sample_texts_def get_with_def required_string_def required_array_def required_object_def object_of_def
  require_strings_def string_array_def validate_strings_def ok_or_def ensure_def

lemma sample_task_valid:
  assumes "seen_tasks seen = {}" "seen_dependencies seen = []"
  shows "validate_task ''M1'' (sample_task objective) seen =
    Inr (seen\<lparr>seen_tasks := {''T1''}, seen_dependencies := [(''T1'', [])]\<rparr>)"
  using assms
  by (simp add: validate_task_def sample_task_def sample_simps validate_status_def validate_areas_def validate_area_def
      validate_requirements_def TASK_FIELDS_def REQUIREMENTS_def)
    (rule exI [of _ False], simp)

lemma sample_milestones_valid:
  "fold_each validate_milestone (list_of ''milestones'' (sample_roadmap objective))
     \<lparr>seen_milestones = {}, seen_tasks = {}, seen_dependencies = []\<rparr> =
   Inr \<lparr>seen_milestones = {''M1''}, seen_tasks = {''T1''}, seen_dependencies = [(''T1'', [])]\<rparr>"
  by (simp add: sample_roadmap_def list_of_def member_def validate_milestone_def sample_simps validate_status_def
      sample_task_valid)

lemma sample_head: "as_object (sample_roadmap objective) = Some obj \<Longrightarrow> validate_head obj = Inr ()"
  by (auto simp: sample_roadmap_def validate_head_def sample_simps SCHEMA_VERSION_def is_ascii_hexdigit_def is_ascii_digit_def
      byte_def list_all_iff)

lemma sample_design: "as_object (sample_roadmap objective) = Some obj \<Longrightarrow> validate_design_contract obj = Inr ()"
  by (auto simp: sample_roadmap_def validate_design_contract_def validate_table_def validate_row_def validate_trust_def
      validate_string_array_def sample_simps DECISION_COLUMNS_def TRANSITION_COLUMNS_def TRUST_FIELDS_def)

lemma harmless:
  assumes "set s \<inter> {CHR ''-'', CHR '' '', CHR '':'', CHR ''/'', CHR ''C''} = {}"
  shows "\<not> is_private s"
proof -
  have sub: "set p \<subseteq> set s" if "contains_sub p s" for p
  using that
  proof (induction s)
    case (Cons a s)
    have "set p \<subseteq> set (a # s)" if "starts_with p (a # s)"
      using that by (metis starts_with_iff set_append Un_upper1)
    then show ?case using Cons by auto
  qed simp
  have "set marker \<inter> {CHR ''-'', CHR '' '', CHR '':'', CHR ''/'', CHR ''C''} \<noteq> {}" if "marker \<in> set PRIVATE_MARKERS" for marker
    using that by (auto simp: PRIVATE_MARKERS_def)
  then show ?thesis using assms sub by (fastforce simp: is_private_def list_ex_iff)
qed

lemma sample_valid:
  assumes "\<forall>t \<in> set (json_texts objective). \<not> is_private t"
  shows "validate (sample_roadmap objective) = Inr ()"
proof -
  obtain obj where obj: "as_object (sample_roadmap objective) = Some obj" by (simp add: sample_roadmap_def)
  have list: "required_array obj ''milestones'' = Inr (list_of ''milestones'' (sample_roadmap objective))"
    using obj by (auto simp: sample_roadmap_def sample_simps list_of_def member_def)
  have names: "required_string obj ''current_milestone'' = Inr ''M1''" "required_string obj ''next_executable_task'' = Inr ''T1''"
      "map_of obj ''blockers'' = Some (JArray [])" "list_of ''milestones'' (sample_roadmap objective) \<noteq> []"
      "for_each (validate_strings obj) [''scope'', ''non_goals'', ''operating_rules''] = Inr ()"
    using obj by (auto simp: sample_roadmap_def sample_simps list_of_def member_def)
  have "reject_private_evidence (sample_roadmap objective) = Inr ()"
    using assms by (simp add: reject_private_Inr sample_roadmap_def sample_task_def sample_texts_def harmless
        REQUIREMENTS_def DECISION_COLUMNS_def TRANSITION_COLUMNS_def TRUST_FIELDS_def numeral_eq_Suc)
  then show ?thesis
    using obj names list sample_head [OF obj] sample_design [OF obj] sample_milestones_valid [of objective]
    by (simp add: validate_def object_of_def ok_or_def ensure_def known_dependencies_def validate_blockers_def
        detect_cycles_def visit.simps)
qed

lemma sample_tasks: "tasks_of (sample_roadmap objective) = [sample_task objective]"
  by (simp add: tasks_of_def sample_roadmap_def list_of_def member_def)

lemma sample_described: "described (sample_task objective) = (objective \<noteq> JString [] \<and> is_string objective)"
  by (cases objective) (simp_all add: described_def sample_task_def sample_texts_def text_of_def member_def is_string_def)

lemma sample_contract: "contract_ok (sample_roadmap objective)"
  by (simp add: contract_ok_def sample_roadmap_def member_def text_of_def string_array_def sample_simps)

theorem validate_sound_witness:
  "validate (sample_roadmap (JString ''x'')) = Inr () \<and>
   acyclic (depends (map task_entry (tasks_of (sample_roadmap (JString ''x''))))) \<and>
   text_of ''next_executable_task'' (sample_roadmap (JString ''x'')) \<in> text_of ''id'' ` {sample_task (JString ''x'')}"
proof -
  have valid: "validate (sample_roadmap (JString ''x'')) = Inr ()"
    by (rule sample_valid) (simp add: harmless)
  from validate_sound [OF valid] valid show ?thesis by (simp add: sample_tasks)
qed

text \<open>An objective that is not a text is accepted, and cannot be rendered.\<close>

theorem rendering_needs_witness:
  "(\<exists>s. render (sample_roadmap (JString ''x'')) = Inr s) \<and>
   validate (sample_roadmap JNull) = Inr () \<and> (\<nexists>s. render (sample_roadmap JNull) = Inr s)"
proof -
  have worded: "validate (sample_roadmap (JString ''x'')) = Inr ()"
    by (rule sample_valid) (simp add: harmless)
  have null: "validate (sample_roadmap JNull) = Inr ()" by (rule sample_valid) simp
  show ?thesis
    using rendering_needs [OF worded] rendering_needs [OF null] null
    by (simp add: sample_tasks sample_described sample_contract is_string_def)
qed

end
