(* ===== verification/Configure.thy ===== *)
theory Configure
  imports Effects Trusted_Files
begin

text \<open>
  The repair of a Codex configuration, \<^verbatim>\<open>src/configure.rs\<close> outside Windows: the change of one value of a
  TOML document, and the replacement of the file under a lock, with a backup of what it held.
\<close>

section \<open>The document\<close>

text \<open>The \<^verbatim>\<open>toml_edit\<close> package: a document is read and written, a table is found or inserted, and a value of it has
  a text, if it is one, and an old value whose spaces and comments the new one takes over.\<close>

record ('doc, 'item) toml =
  toml_parse :: "string \<Rightarrow> 'doc option"
  toml_text :: "'doc \<Rightarrow> string"
  toml_contains :: "'doc \<Rightarrow> string \<Rightarrow> bool"
  toml_new_table :: "'doc \<Rightarrow> string \<Rightarrow> 'doc"
  toml_is_table :: "'doc \<Rightarrow> string \<Rightarrow> bool"
  toml_get :: "'doc \<Rightarrow> string \<Rightarrow> string \<Rightarrow> 'item option"
  toml_as_str :: "'item \<Rightarrow> string option"
  toml_put :: "'doc \<Rightarrow> string \<Rightarrow> string \<Rightarrow> string \<Rightarrow> 'item option \<Rightarrow> 'doc"

datatype config_error =
    UnsupportedMode
  | InvalidToml
  | WindowsNotTable
  | SandboxNotString
  | UnknownSandbox
  | RequiresWindows
  | ConfigIo io_kind
  | NotPlainDirectory
  | ConfigLocked io_kind
  | LockRemains io_kind
  | ConfigNotRegular
  | ConfigNotBounded
  | ConfigHardlinked
  | ConfigNotUtf8
  | ConfigTooLarge
  | ConfigChanged
  | ConfigExists io_kind path
  | BackupNotKept io_kind path

definition SANDBOX_MODES :: "string list" where
  "SANDBOX_MODES = [''elevated'', ''unelevated'']"

text \<open>A byte order mark is removed however often it stands at the start.\<close>

fun trim_marks :: "string \<Rightarrow> string" where
  "trim_marks (a # b # c # s) =
     (if a = CHR 0xEF \<and> b = CHR 0xBB \<and> c = CHR 0xBF then trim_marks s else a # b # c # s)"
| "trim_marks s = s"

definition render_config :: "('doc, 'item) toml \<Rightarrow> string \<Rightarrow> string \<Rightarrow> (config_error, string) result" where
  "render_config api original mode =
     and_then (ensure (mode \<in> set SANDBOX_MODES) UnsupportedMode) (\<lambda>_.
     and_then (ok_or InvalidToml (toml_parse api (trim_marks original))) (\<lambda>document.
     let document = (if toml_contains api document ''windows'' then document else toml_new_table api document ''windows'');
         previous = toml_get api document ''windows'' ''sandbox'';
         changed = toml_text api (toml_put api document ''windows'' ''sandbox'' mode previous) in
     and_then (ensure (toml_is_table api document ''windows'') WindowsNotTable) (\<lambda>_.
     case previous of
       None \<Rightarrow> Inr changed
     | Some item \<Rightarrow>
         and_then (ok_or SandboxNotString (toml_as_str api item)) (\<lambda>current.
         and_then (ensure (current \<in> set SANDBOX_MODES) UnknownSandbox) (\<lambda>_.
         Inr (if current = mode then original else changed))))))"

text \<open>What a document reads as after the value was put into a table of it and it was written.\<close>

definition writes_back :: "('doc, 'item) toml \<Rightarrow> bool" where
  "writes_back api =
     (\<forall>document mode previous. toml_is_table api document ''windows'' \<longrightarrow>
        (\<exists>again item.
           toml_parse api (trim_marks (toml_text api (toml_put api document ''windows'' ''sandbox'' mode previous))) = Some again \<and>
           toml_contains api again ''windows'' \<and> toml_is_table api again ''windows'' \<and>
           toml_get api again ''windows'' ''sandbox'' = Some item \<and> toml_as_str api item = Some mode))"

definition sandbox_of :: "('doc, 'item) toml \<Rightarrow> string \<Rightarrow> string option" where
  "sandbox_of api s =
     Option.bind (toml_parse api (trim_marks s)) (\<lambda>document.
     Option.bind (toml_get api document ''windows'' ''sandbox'') (toml_as_str api))"

lemma renders_itself:
  assumes "mode \<in> set SANDBOX_MODES" "toml_parse api (trim_marks s) = Some document"
    "toml_contains api document ''windows''" "toml_is_table api document ''windows''"
    "toml_get api document ''windows'' ''sandbox'' = Some item" "toml_as_str api item = Some mode"
  shows "sandbox_of api s = Some mode \<and> render_config api s mode = Inr s"
  using assms by (simp add: sandbox_of_def render_config_def ensure_def ok_or_def Let_def)


text \<open>A table that was inserted has no value in it.\<close>

definition inserts_empty :: "('doc, 'item) toml \<Rightarrow> bool" where
  "inserts_empty api = (\<forall>document. toml_get api (toml_new_table api document ''windows'') ''windows'' ''sandbox'' = None)"

text \<open>The text that is returned reads as the mode that was asked for, and rendering it again changes nothing.\<close>

theorem render_settles:
  assumes "writes_back api" "inserts_empty api" "render_config api original mode = Inr s"
  shows "sandbox_of api s = Some mode \<and> render_config api s mode = Inr s"
proof -
  from assms(3) obtain parsed document where doc: "mode \<in> set SANDBOX_MODES"
      "toml_parse api (trim_marks original) = Some parsed" "toml_is_table api document ''windows''"
      "document = (if toml_contains api parsed ''windows'' then parsed else toml_new_table api parsed ''windows'')"
      "s = original \<and> (\<exists>item. toml_get api document ''windows'' ''sandbox'' = Some item \<and> toml_as_str api item = Some mode) \<or>
       (\<exists>previous. s = toml_text api (toml_put api document ''windows'' ''sandbox'' mode previous))"
    unfolding render_config_def Let_def and_then_Inr ensure_Inr ok_or_Inr
    by (elim exE conjE) (rule that, assumption+, rule refl, auto simp: and_then_Inr ensure_def ok_or_def split: option.splits if_splits)
  from doc(5) show ?thesis
  proof (elim disjE exE conjE)
    fix item assume item: "s = original" "toml_get api document ''windows'' ''sandbox'' = Some item" "toml_as_str api item = Some mode"
    have "toml_contains api parsed ''windows''" using item(2) assms(2) doc(4) by (auto simp: inserts_empty_def split: if_splits)
    with doc item show ?thesis by (intro renders_itself) auto
  next
    fix previous assume s: "s = toml_text api (toml_put api document ''windows'' ''sandbox'' mode previous)"
    from assms(1) doc(3) obtain again item where "toml_parse api (trim_marks s) = Some again"
        "toml_contains api again ''windows''" "toml_is_table api again ''windows''"
        "toml_get api again ''windows'' ''sandbox'' = Some item" "toml_as_str api item = Some mode"
      unfolding writes_back_def s by blast
    with doc(1) show ?thesis by (intro renders_itself)
  qed
qed

text \<open>A document of one line, which is empty or sets the value.\<close>

definition one_line :: "(string option, string) toml" where
  "one_line = \<lparr>
     toml_parse = (\<lambda>s. if s = [] then Some None
        else if take 8 s = ''sandbox='' then Some (Some (drop 8 s)) else None),
     toml_text = (\<lambda>d. case d of None \<Rightarrow> [] | Some v \<Rightarrow> ''sandbox='' @ v),
     toml_contains = (\<lambda>d k. d \<noteq> None),
     toml_new_table = (\<lambda>d k. None),
     toml_is_table = (\<lambda>d k. True),
     toml_get = (\<lambda>d t k. d),
     toml_as_str = Some,
     toml_put = (\<lambda>d t k v previous. Some v)\<rparr>"

lemma one_line_laws: "writes_back one_line" "inserts_empty one_line"
  by (auto simp: writes_back_def inserts_empty_def one_line_def)

theorem render_settles_witness:
  "render_config one_line ''sandbox=elevated'' ''unelevated'' = Inr ''sandbox=unelevated'' \<and>
   render_config one_line ''sandbox=unelevated'' ''unelevated'' = Inr ''sandbox=unelevated''"
proof -
  have run: "render_config one_line ''sandbox=elevated'' ''unelevated'' = Inr ''sandbox=unelevated''" by code_simp
  from render_settles [OF one_line_laws run] run show ?thesis by blast
qed

section \<open>The files\<close>

definition MAX_CONFIG_BYTES :: nat where
  "MAX_CONFIG_BYTES = 4 * 1024 * 1024"

record config_stat =
  cs_plain :: bool
  cs_len :: nat
  cs_links :: nat

datatype config_kind = ConfigDirectory | ConfigFile | ConfigOther

record config_calls =
  co_absolute :: "nat \<Rightarrow> path \<Rightarrow> (io_kind, path) result"
  co_lstat :: "nat \<Rightarrow> path \<Rightarrow> (io_kind, config_kind) result"
  co_create_dirs :: "nat \<Rightarrow> path \<Rightarrow> (io_kind, unit) result"
  co_lock :: "nat \<Rightarrow> path \<Rightarrow> (io_kind, unit) result"
  co_unlock :: "nat \<Rightarrow> path \<Rightarrow> (io_kind, unit) result"
  co_open :: "nat \<Rightarrow> path \<Rightarrow> (io_kind, nat) result"
  co_fstat :: "nat \<Rightarrow> nat \<Rightarrow> (io_kind, config_stat) result"
  co_read :: "nat \<Rightarrow> nat \<Rightarrow> (io_kind, string) result"
  co_temp :: "nat \<Rightarrow> path \<Rightarrow> (io_kind, path) result"
  co_write :: "nat \<Rightarrow> path \<Rightarrow> string \<Rightarrow> (io_kind, unit) result"
  co_copy_mode :: "nat \<Rightarrow> path \<Rightarrow> path \<Rightarrow> (io_kind, unit) result"
  co_sync :: "nat \<Rightarrow> path \<Rightarrow> (io_kind, unit) result"
  co_drop :: "nat \<Rightarrow> path \<Rightarrow> (io_kind, unit) result"
  co_keep :: "nat \<Rightarrow> path \<Rightarrow> (io_kind, unit) result"
  co_rename :: "nat \<Rightarrow> path \<Rightarrow> path \<Rightarrow> (io_kind, unit) result"
  co_persist_new :: "nat \<Rightarrow> path \<Rightarrow> path \<Rightarrow> (io_kind, unit) result"

datatype config_action =
    LockTaken path
  | LockRemoved path
  | FileMade path
  | FileDropped path
  | FileWritten path string
  | FileSynced path
  | BackupKept path
  | ConfigReplaced path path
  | ConfigCreated path path

type_synonym 'a config_program = "(config_action, (config_error, 'a) result) program"

text \<open>A temporary file that is dropped is removed; whether that worked is not seen by the program.\<close>

definition drop_file :: "config_calls \<Rightarrow> path \<Rightarrow> (config_action, unit) program" where
  "drop_file co path = and_next (act (FileDropped path) (\<lambda>t. co_drop co t path)) (\<lambda>_. done_with ())"

definition check_plain_directory :: "config_calls \<Rightarrow> path \<Rightarrow> unit config_program" where
  "check_plain_directory co path =
     and_next (ask (\<lambda>t. co_lstat co t path)) (\<lambda>r.
     done_with (case r of
       Inl e \<Rightarrow> if e = KindNotFound then Inr () else Inl (ConfigIo e)
     | Inr kind \<Rightarrow> if kind = ConfigDirectory then Inr () else Inl NotPlainDirectory))"

fun check_each_directory :: "config_calls \<Rightarrow> path list \<Rightarrow> unit config_program" where
  "check_each_directory co [] = done_with (Inr ())"
| "check_each_directory co (path # paths) =
     if_ok (check_plain_directory co path) (\<lambda>e. e) (\<lambda>_. check_each_directory co paths)"

definition check_plain_directory_chain :: "config_calls \<Rightarrow> path \<Rightarrow> unit config_program" where
  "check_plain_directory_chain co directory =
     if_ok (ask (\<lambda>t. co_absolute co t directory)) ConfigIo (\<lambda>path. check_each_directory co (ancestors path))"

definition read_config :: "config_calls \<Rightarrow> path \<Rightarrow> string option config_program" where
  "read_config co path =
     and_next (ask (\<lambda>t. co_lstat co t path)) (\<lambda>r.
     case r of
       Inl e \<Rightarrow> done_with (if e = KindNotFound then Inr None else Inl (ConfigIo e))
     | Inr kind \<Rightarrow>
     if kind \<noteq> ConfigFile then done_with (Inl ConfigNotRegular) else
     if_ok (ask (\<lambda>t. co_open co t path)) ConfigIo (\<lambda>opened.
     if_ok (ask (\<lambda>t. co_fstat co t opened)) ConfigIo (\<lambda>m.
     if \<not> cs_plain m \<or> MAX_CONFIG_BYTES < cs_len m then done_with (Inl ConfigNotBounded)
     else if cs_links m \<noteq> 1 then done_with (Inl ConfigHardlinked) else
     if_ok (ask (\<lambda>t. co_read co t opened)) ConfigIo (\<lambda>bytes.
     let s = take (MAX_CONFIG_BYTES + 1) bytes in
     done_with
       (if \<not> utf8_valid s then Inl ConfigNotUtf8
        else if MAX_CONFIG_BYTES < length s then Inl ConfigTooLarge
        else Inr (Some s))))))"

section \<open>The replacement\<close>

definition replace_existing :: "config_calls \<Rightarrow> path \<Rightarrow> path \<Rightarrow> unit config_program" where
  "replace_existing co staged destination =
     if_ok (ask (\<lambda>t. co_copy_mode co t destination staged)) ConfigIo (\<lambda>_.
     if_ok (act_ok (ConfigReplaced staged destination) (\<lambda>t. co_rename co t staged destination)) ConfigIo (\<lambda>_.
     done_with (Inr ())))"

text \<open>The backup of what the file holds, which is kept.  The error of a failed \<^verbatim>\<open>keep\<close> or \<^verbatim>\<open>persist_noclobber\<close> owns
  the temporary file, and \<^verbatim>\<open>src/main.rs\<close> ends the process while it still has the error.\<close>

definition keep_backup :: "config_calls \<Rightarrow> path \<Rightarrow> path \<Rightarrow> string \<Rightarrow> unit config_program" where
  "keep_backup co directory path original =
     if_ok (act_got FileMade (\<lambda>t. co_temp co t directory)) ConfigIo (\<lambda>backup.
     or_undo (drop_file co backup)
       (if_ok (act (FileWritten backup original) (\<lambda>t. co_write co t backup original)) ConfigIo (\<lambda>_.
        if_ok (ask (\<lambda>t. co_copy_mode co t path backup)) ConfigIo (\<lambda>_.
        if_ok (act_ok (FileSynced backup) (\<lambda>t. co_sync co t backup)) ConfigIo (\<lambda>_. done_with (Inr ())))))
       (\<lambda>_. if_ok (act_ok (BackupKept backup) (\<lambda>t. co_keep co t backup)) (\<lambda>e. BackupNotKept e backup)
          (\<lambda>_. done_with (Inr ()))))"

text \<open>The staged file is removed at the end, where it has not become the configuration.\<close>

definition replace_config :: "config_calls \<Rightarrow> path \<Rightarrow> path \<Rightarrow> path \<Rightarrow> string \<Rightarrow> unit config_program" where
  "replace_config co directory path staged original =
     or_undo (drop_file co staged) (read_config co path) (\<lambda>now.
     or_undo (drop_file co staged) (done_with (ensure (now = Some original) ConfigChanged)) (\<lambda>_.
     or_undo (drop_file co staged) (keep_backup co directory path original) (\<lambda>_.
     or_undo (drop_file co staged) (replace_existing co staged path) (\<lambda>_.
     and_next (drop_file co staged) (\<lambda>_. done_with (Inr ()))))))"

definition update_locked :: "('doc, 'item) toml \<Rightarrow> config_calls \<Rightarrow> path \<Rightarrow> string \<Rightarrow> unit config_program" where
  "update_locked api co directory mode =
     (let path = path_join directory [Normal ''config.toml''] in
      if_ok (read_config co path) (\<lambda>e. e) (\<lambda>original.
      if_ok (done_with (render_config api (case original of None \<Rightarrow> [] | Some s \<Rightarrow> s) mode)) (\<lambda>e. e) (\<lambda>updated.
      if original = Some updated then done_with (Inr ()) else
      if_ok (act_got FileMade (\<lambda>t. co_temp co t directory)) ConfigIo (\<lambda>staged.
      or_undo (drop_file co staged)
        (if_ok (act (FileWritten staged updated) (\<lambda>t. co_write co t staged updated)) ConfigIo (\<lambda>_.
         if_ok (act_ok (FileSynced staged) (\<lambda>t. co_sync co t staged)) ConfigIo (\<lambda>_. done_with (Inr ())))) (\<lambda>_.
      case original of
        Some s \<Rightarrow> replace_config co directory path staged s
      | None \<Rightarrow>
          if_ok (act_ok (ConfigCreated staged path) (\<lambda>t. co_persist_new co t staged path)) (\<lambda>e. ConfigExists e staged)
            (\<lambda>_. done_with (Inr ())))))))"

definition update_config :: "('doc, 'item) toml \<Rightarrow> config_calls \<Rightarrow> path \<Rightarrow> string \<Rightarrow> unit config_program" where
  "update_config api co directory mode =
     (let lock = path_join directory [Normal ''.autoapprover-config.lock''] in
      if_ok (check_plain_directory_chain co directory) (\<lambda>e. e) (\<lambda>_.
      if_ok (ask (\<lambda>t. co_create_dirs co t directory)) ConfigIo (\<lambda>_.
      if_ok (check_plain_directory_chain co directory) (\<lambda>e. e) (\<lambda>_.
      if_ok (act_ok (LockTaken lock) (\<lambda>t. co_lock co t lock)) ConfigLocked (\<lambda>_.
      and_next (update_locked api co directory mode) (\<lambda>result.
      and_next (act (LockRemoved lock) (\<lambda>t. co_unlock co t lock)) (\<lambda>cleanup.
      done_with (and_then result (\<lambda>_. map_err LockRemains cleanup)))))))))"

text \<open>The command, outside Windows.\<close>

definition run_configure :: "path \<Rightarrow> string \<Rightarrow> (config_error, int) result" where
  "run_configure directory mode = Inl RequiresWindows"

section \<open>Nothing is left\<close>

text \<open>The lock and the temporary files that are there and whose removal was not tried yet, and those whose removal was
  tried and failed at that moment.  A file that was kept, or has become the configuration, is not temporary any more.\<close>

definition removal :: "bool \<Rightarrow> path \<Rightarrow> path set \<times> path set \<Rightarrow> path set \<times> path set" where
  "removal done path s = (fst s - {path}, if path \<in> fst s \<and> \<not> done then insert path (snd s) else snd s)"

fun config_at :: "config_calls \<Rightarrow> nat \<Rightarrow> config_action \<Rightarrow> path set \<times> path set \<Rightarrow> path set \<times> path set" where
  "config_at co t (LockTaken path) s = (insert path (fst s), snd s)"
| "config_at co t (LockRemoved path) s = removal (is_ok (co_unlock co t path)) path s"
| "config_at co t (FileMade path) s = (insert path (fst s), snd s)"
| "config_at co t (FileDropped path) s = removal (is_ok (co_drop co t path)) path s"
| "config_at co t (BackupKept path) s = (fst s - {path}, snd s)"
| "config_at co t (ConfigReplaced staged path) s = (fst s - {staged}, snd s)"
| "config_at co t (ConfigCreated staged path) s = (fst s - {staged}, snd s)"
| "config_at co t _ s = s"

lemma quiet_read: "acts_only {} (read_config co path)"
  unfolding read_config_def Let_def by (auto intro!: acts_intros split: sum.splits)

lemma quiet_chain: "acts_only {} (check_plain_directory_chain co path)"
proof -
  have "acts_only {} (check_each_directory co paths)" for paths
    by (induction paths) (auto intro!: acts_intros simp: check_plain_directory_def)
  then show ?thesis unfolding check_plain_directory_chain_def by (auto intro!: acts_intros)
qed

lemma wp_chain: "(\<And>r. Q r s) \<Longrightarrow> wp_at (config_at co) (check_plain_directory_chain co path) Q s"
  by (rule wp_idle [OF quiet_chain]) simp_all

lemma wp_drop_file [wp_intros]:
  assumes "\<And>left. path \<notin> fst s \<longrightarrow> left = snd s \<Longrightarrow> Q () (fst s - {path}, left)"
  shows "wp_at (config_at co) (drop_file co path) Q s"
  unfolding drop_file_def
  by (intro wp_next wp_act wp_done) (simp only: config_at.simps removal_def, rule assms, simp)

text \<open>The temporary file that an error owns.\<close>

fun owned_by :: "(config_error, unit) result \<Rightarrow> path set" where
  "owned_by (Inl (ConfigExists e path)) = {path}"
| "owned_by (Inl (BackupNotKept e path)) = {path}"
| "owned_by _ = {}"

text \<open>What a part of the update leaves, and that it has failed if a removal has.\<close>

definition leaves_only :: "path set \<times> path set \<Rightarrow> path set \<Rightarrow> (config_error, unit) result \<Rightarrow> path set \<times> path set \<Rightarrow> bool" where
  "leaves_only s gone r s' = (fst s' \<subseteq> (fst s - gone) \<union> owned_by r \<and>
     (case r of Inl e \<Rightarrow> \<forall>k. e \<noteq> LockRemains k | Inr u \<Rightarrow> snd s' = snd s))"

lemma leaves_only_simps [simp]:
  "leaves_only s gone (Inr u) s' = (fst s' \<subseteq> fst s - gone \<and> snd s' = snd s)"
  "leaves_only s gone (Inl e) s' = (fst s' \<subseteq> (fst s - gone) \<union> owned_by (Inl e) \<and> (\<forall>k. e \<noteq> LockRemains k))"
  by (simp_all add: leaves_only_def)

lemma wp_keep_backup: "wp_at (config_at co) (keep_backup co directory path original) (leaves_only s {}) s"
  unfolding keep_backup_def by (intro wp_intros allI conjI impI | clarsimp)+

lemma read_quiet: "read_config co path t = (l, t', r) \<Longrightarrow> l = []"
  by (rule acts_nothing [OF quiet_read])

lemma read_no_lock: "read_config co path t = (l, t', Inl e) \<Longrightarrow> e \<noteq> LockRemains k"
  unfolding read_config_def Let_def
  by (auto simp: if_ok_def program_simps split: sum.splits if_splits)

lemma render_no_lock [simp]: "render_config api original mode \<noteq> Inl (LockRemains k)"
  unfolding render_config_def Let_def
  by (auto simp: and_then_Inl ensure_def ok_or_def split: sum.splits option.splits if_splits)

lemma wp_read_config:
  assumes "\<And>e. \<forall>k. e \<noteq> LockRemains k \<Longrightarrow> Q (Inl e) s" "\<And>x. Q (Inr x) s"
  shows "wp_at (config_at co) (read_config co path) Q s"
  unfolding wp_at_def
proof (intro allI impI)
  fix t l t' r
  assume run: "read_config co path t = (l, t', r)"
  show "Q r (replay_at (config_at co) l s)"
  proof (cases r)
    case (Inl e)
    then show ?thesis using assms(1) read_no_lock run read_quiet [OF run] by simp
  next
    case (Inr x)
    then show ?thesis using assms(2) read_quiet [OF run] by simp
  qed
qed

lemma wp_or_drop:
  assumes "wp_at (config_at co) m (\<lambda>r s'. case r of Inl e \<Rightarrow> (\<forall>left. Q (Inl e) (fst s' - {path}, left))
    | Inr x \<Rightarrow> wp_at (config_at co) (k x) Q s') s"
  shows "wp_at (config_at co) (or_undo (drop_file co path) m k) Q s"
  by (rule wp_or_undo, rule wp_mono [OF assms]) (auto intro!: wp_drop_file split: sum.splits)

lemma wp_replace_existing:
  assumes "\<And>k. Q (Inl (ConfigIo k)) s" "Q (Inr ()) (fst s - {staged}, snd s)"
  shows "wp_at (config_at co) (replace_existing co staged destination) Q s"
  unfolding replace_existing_def using assms by (auto intro!: wp_intros)

lemma wp_keep_backup_cases:
  assumes "\<And>e s'. leaves_only s {} (Inl e) s' \<Longrightarrow> Q (Inl e) s'" "\<And>s'. leaves_only s {} (Inr ()) s' \<Longrightarrow> Q (Inr ()) s'"
  shows "wp_at (config_at co) (keep_backup co directory path original) Q s"
  by (rule wp_mono [OF wp_keep_backup]) (metis assms old.unit.exhaust sum.exhaust)

lemma wp_replace_config:
  "wp_at (config_at co) (replace_config co directory path staged original) (leaves_only s {staged}) s"
proof -
  have last: "wp_at (config_at co) (and_next (drop_file co staged) (\<lambda>_. done_with (Inr ()))) (leaves_only s {staged})
      (fst s' - {staged}, snd s')" if "leaves_only s {} (Inr ()) s'" for s'
    by (intro wp_next wp_drop_file wp_done) (use that in auto)
  have replaced: "wp_at (config_at co) (or_undo (drop_file co staged) (replace_existing co staged path)
      (\<lambda>_. and_next (drop_file co staged) (\<lambda>_. done_with (Inr ())))) (leaves_only s {staged}) s'"
    if "leaves_only s {} (Inr ()) s'" for s'
    by (intro wp_or_drop wp_replace_existing) (use last [OF that] that in auto)
  show ?thesis
    unfolding replace_config_def
    by (intro wp_or_drop wp_read_config wp_done; auto simp: ensure_def intro!: wp_or_drop wp_done wp_keep_backup_cases replaced; blast)
qed

lemma leaves_insert: "leaves_only (insert path (fst s), snd s) {path} r s' \<Longrightarrow> leaves_only s {} r s'"
  unfolding leaves_only_def by (auto split: sum.splits)

lemma wp_update_locked: "wp_at (config_at co) (update_locked api co directory mode) (leaves_only s {}) s"
proof -
  have unless: "\<lbrakk>c \<Longrightarrow> wp_at step m Q s; \<not> c \<Longrightarrow> wp_at step n Q s\<rbrakk> \<Longrightarrow> wp_at step (if c then m else n) Q s"
    for c and step :: "nat \<Rightarrow> config_action \<Rightarrow> path set \<times> path set \<Rightarrow> path set \<times> path set" and m n :: "unit config_program" and Q s by simp
  show ?thesis
    unfolding update_locked_def Let_def
    by (intro wp_intros unless wp_read_config allI conjI impI wp_mono [OF wp_replace_config] |
        clarsimp simp: leaves_insert split: option.splits)+
qed

definition locked_end :: "path \<Rightarrow> (config_error, unit) result \<Rightarrow> path set \<times> path set \<Rightarrow> bool" where
  "locked_end lock r s = (fst s \<subseteq> owned_by r \<and> (r = Inr () \<longrightarrow> snd s = {}) \<and>
     (\<forall>e. r = Inl (LockRemains e) \<longrightarrow> fst s = {} \<and> snd s \<subseteq> {lock}))"

lemma leaves_unlocked:
  assumes "leaves_only ({lock}, {}) {} r s"
  shows "locked_end lock (and_then r (\<lambda>_. map_err LockRemains cleanup)) (removal (is_ok cleanup) lock s)"
  using assms by (cases r; cases cleanup) (auto simp: removal_def locked_end_def)

lemma locked_start: "locked_end lock (Inl e) ({}, {})"
  by (simp add: locked_end_def)

lemma wp_update_config: "wp_at (config_at co) (update_config api co directory mode)
      (locked_end (path_join directory [Normal ''.autoapprover-config.lock''])) ({}, {})"
  unfolding update_config_def Let_def
  by (intro wp_intros wp_chain allI conjI impI wp_mono [OF wp_update_locked])
    (simp_all add: locked_start leaves_unlocked)

text \<open>C13: whatever fails on the way, an update that ends has tried to remove its lock and every temporary file that has not
  become the configuration or the backup, but for the one that the error owns.  When it reports success no
  removal has failed, so that nothing is left; and when it reports that the lock remains then the lock, whose removal failed, is
  all that is left.\<close>

theorem update_leaves_only:
  assumes "update_config api co directory mode t = (l, t', r)"
  shows "case replay_at (config_at co) l ({}, {}) of (left, stuck) \<Rightarrow>
    left \<subseteq> owned_by r \<and> (r = Inr () \<longrightarrow> stuck = {}) \<and>
    (\<forall>e. r = Inl (LockRemains e) \<longrightarrow> left = {} \<and> stuck \<subseteq> {path_join directory [Normal ''.autoapprover-config.lock'']})"
  using wpD [OF wp_update_config assms] by (simp add: locked_end_def case_prod_beta)

section \<open>What is replaced\<close>

lemma progress_config [progress_intros]:
  "progresses (read_config co path)" "progresses (drop_file co path)" "progresses (keep_backup co directory path original)"
  unfolding read_config_def drop_file_def keep_backup_def Let_def
  by (auto intro!: progress_intros split: sum.splits)

text \<open>The backup holds what the file held, and is kept only when it is on the disk.\<close>

definition backed_up :: "config_calls \<Rightarrow> string \<Rightarrow> config_action action_log \<Rightarrow> nat \<Rightarrow> nat \<Rightarrow> bool" where
  "backed_up co original l t t' =
     (\<exists>backup a b c. t \<le> a \<and> a < b \<and> b < c \<and> c < t' \<and> (a, FileWritten backup original) \<in> set l \<and>
        co_write co a backup original = Inr () \<and> (b, FileSynced backup) \<in> set l \<and> (c, BackupKept backup) \<in> set l)"

lemma backed_up_mono:
  "\<lbrakk>backed_up co original l t1 t2; t \<le> t1; t2 \<le> t'; set l \<subseteq> set l'\<rbrakk> \<Longrightarrow> backed_up co original l' t t'"
  unfolding backed_up_def
  by (elim exE conjE, intro exI conjI)
    (erule (1) le_trans, assumption, assumption, erule (1) less_le_trans, erule (1) subsetD, assumption, erule (1) subsetD,
      erule (1) subsetD)

lemma keep_backup_Inr:
  assumes "keep_backup co directory path original t = (l, t', Inr u)"
  shows "backed_up co original l t t'"
proof -
  from assms obtain backup where "Inr () = co_write co (Suc t) backup original" "t' = Suc (Suc (Suc (Suc (Suc t))))"
      "l = [(t, FileMade backup), (Suc t, FileWritten backup original), (Suc (Suc (Suc t)), FileSynced backup),
        (Suc (Suc (Suc (Suc t))), BackupKept backup)]"
    unfolding keep_backup_def if_ok_eq
    by (elim exE conjE or_undoE) (auto simp: program_simps, metis is_ok.simps(2))
  then show ?thesis
    unfolding backed_up_def by (intro exI [of _ backup] exI [of _ "Suc t"] exI [of _ "Suc (Suc (Suc t))"]
        exI [of _ "Suc (Suc (Suc (Suc t)))"]) auto
qed

fun is_change :: "config_action \<Rightarrow> bool" where
  "is_change (ConfigReplaced a b) = True"
| "is_change (ConfigCreated a b) = True"
| "is_change _ = False"

lemma acts_no_change:
  "acts_only (- Collect is_change) (keep_backup co directory path original)"
  "acts_only (- Collect is_change) (drop_file co path)"
  unfolding keep_backup_def or_undo_def drop_file_def if_ok_def act_got_def
  by (auto simp: acts_only_def program_simps split: sum.splits)

lemma no_change:
  "\<lbrakk>keep_backup co directory path original t = (l, t', r); is_change x\<rbrakk> \<Longrightarrow> (u, x) \<notin> set l"
  by (metis acts_no_change(1) acts_onlyD ComplD mem_Collect_eq)

lemma or_drop_file_casesE:
  assumes "or_undo (drop_file co staged) m k t = (l, t', r)"
  obtains (Failed) l1 t1 e where "m t = (l1, t1, Inl e)" "l = l1 @ [(t1, FileDropped staged)]" "r = Inl e"
    | (Worked) l1 t1 x l2 where "m t = (l1, t1, Inr x)" "k x t1 = (l2, t', r)" "l = l1 @ l2"
  using assms unfolding or_undo_def drop_file_def
  by (elim next_sumE) (auto simp: program_simps)

lemma replace_config_replaces:
  assumes "replace_config co directory path staged original t = (l, t', r)" "(u, x) \<in> set l" "is_change x"
  shows "x = ConfigReplaced staged path \<and> co_rename co u staged path = Inr () \<and>
    (\<exists>w. read_config co path t = ([], w, Inr (Some original)) \<and> backed_up co original l w u)"
  using assms(1) [unfolded replace_config_def]
proof (cases rule: or_drop_file_casesE)
  case Failed
  then show ?thesis using assms(2,3) read_quiet by fastforce
next
  case read: (Worked l1 t1 now l2)
  note l1 = read_quiet [OF read(1)]
  from read(2) show ?thesis
  proof (cases rule: or_drop_file_casesE)
    case Failed
    then show ?thesis using assms(2,3) read(3) l1 by (auto simp: done_with_eq)
  next
    case same: (Worked l3 t3 z l4)
    then have now: "now = Some original" "l3 = []" "t3 = t1" by (auto simp: done_with_eq ensure_def split: if_splits)
    from same(2) show ?thesis
    proof (cases rule: or_drop_file_casesE)
      case Failed
      then show ?thesis using assms(2,3) read(3) l1 same(3) now no_change [OF Failed(1)] by auto
    next
      case kept: (Worked l5 t5 y l6)
      have l6: "(u, x) \<in> set l6"
        using assms(2,3) read(3) l1 same(3) now kept(3) no_change [OF kept(1)] by auto
      from kept(2) have replaced: "x = ConfigReplaced staged path \<and> co_rename co u staged path = Inr () \<and> t5 \<le> u"
      proof (cases rule: or_drop_file_casesE)
        case (Failed l7 t7 e)
        then show ?thesis using l6 assms(3) by (auto simp: replace_existing_def if_ok_def program_simps split: sum.splits if_splits)
      next
        case (Worked l7 t7 z l8)
        then show ?thesis
          using l6 assms(3) by (auto simp: replace_existing_def drop_file_def if_ok_def program_simps split: sum.splits if_splits)
      qed
      have "set l5 \<subseteq> set l" using read(3) same(3) kept(3) by auto
      with keep_backup_Inr [OF kept(1)] have "backed_up co original l t1 u"
        using replaced now(3) by (elim backed_up_mono) auto
      then show ?thesis using replaced read(1) l1 now(1) by auto
    qed
  qed
qed


text \<open>The staged file holds the new text, on the disk.\<close>

definition staged_with :: "config_calls \<Rightarrow> path \<Rightarrow> string \<Rightarrow> config_action action_log \<Rightarrow> nat \<Rightarrow> bool" where
  "staged_with co staged updated l t =
     (\<exists>a b. a < b \<and> b < t \<and> (a, FileWritten staged updated) \<in> set l \<and> co_write co a staged updated = Inr () \<and>
        (b, FileSynced staged) \<in> set l)"

text \<open>An action that changes the configuration follows the two reads, the new text and the backup.\<close>

definition changes_safely :: "('doc, 'item) toml \<Rightarrow> config_calls \<Rightarrow> path \<Rightarrow> string \<Rightarrow> config_action action_log \<Rightarrow>
    nat \<times> config_action \<Rightarrow> bool" where
  "changes_safely api co path mode l change =
     (\<exists>t found t1 updated staged w.
        read_config co path t = ([], t1, Inr found) \<and>
        render_config api (case found of None \<Rightarrow> [] | Some s \<Rightarrow> s) mode = Inr updated \<and> found \<noteq> Some updated \<and>
        t1 < w \<and> staged_with co staged updated l w \<and> w \<le> fst change \<and>
        (case found of
           None \<Rightarrow> snd change = ConfigCreated staged path \<and> co_persist_new co (fst change) staged path = Inr ()
         | Some original \<Rightarrow>
             snd change = ConfigReplaced staged path \<and> co_rename co (fst change) staged path = Inr () \<and>
             (\<exists>w'. read_config co path w = ([], w', Inr (Some original)) \<and> backed_up co original l w' (fst change))))"

lemma staged_with_mono: "\<lbrakk>staged_with co staged updated l t; set l \<subseteq> set l'\<rbrakk> \<Longrightarrow> staged_with co staged updated l' t"
  unfolding staged_with_def by blast

lemma changes_safely_mono:
  assumes "changes_safely api co path mode l change" "set l \<subseteq> set l'"
  shows "changes_safely api co path mode l' change"
proof -
  note mono = staged_with_mono [OF _ assms(2)] backed_up_mono [OF _ order_refl order_refl assms(2)]
  show ?thesis
    using assms(1) mono unfolding changes_safely_def by (elim exE conjE, intro exI conjI) (auto split: option.splits)
qed

lemma staging_Inr:
  assumes "if_ok (act (FileWritten staged updated) (\<lambda>t. co_write co t staged updated)) ConfigIo (\<lambda>_.
      if_ok (act_ok (FileSynced staged) (\<lambda>t. co_sync co t staged)) ConfigIo (\<lambda>_. done_with (Inr ()))) t = (l, t', Inr y)"
  shows "staged_with co staged updated l t' \<and> t < t'"
  using assms by (auto simp: program_simps staged_with_def dest: sym)


lemma staging_quiet:
  assumes "if_ok (act (FileWritten staged updated) (\<lambda>t. co_write co t staged updated)) ConfigIo (\<lambda>_.
      if_ok (act_ok (FileSynced staged) (\<lambda>t. co_sync co t staged)) ConfigIo (\<lambda>_. done_with (Inr ()))) t = (l, t', r)"
    "is_change x"
  shows "(u, x) \<notin> set l"
proof -
  have "acts_only (- Collect is_change) (if_ok (act (FileWritten staged updated) (\<lambda>t. co_write co t staged updated)) ConfigIo
      (\<lambda>_. if_ok (act_ok (FileSynced staged) (\<lambda>t. co_sync co t staged)) ConfigIo (\<lambda>_. done_with (Inr ()))))"
    by (auto intro!: acts_intros)
  with assms show ?thesis by (metis acts_onlyD ComplD mem_Collect_eq)
qed

lemma update_locked_changes:
  assumes "update_locked api co directory mode t = (l, t', r)" "(u, x) \<in> set l" "is_change x"
  shows "changes_safely api co (path_join directory [Normal ''config.toml'']) mode l (u, x)"
proof -
  let ?path = "path_join directory [Normal ''config.toml'']"
  from assms(1) [unfolded update_locked_def Let_def] show ?thesis
  proof (cases rule: if_ok_casesE)
    case Failed
    then show ?thesis using assms(2) read_quiet by fastforce
  next
    case read: (Worked l1 t1 found l2)
    note l1 = read_quiet [OF read(1)]
    let ?old = "case found of None \<Rightarrow> [] | Some s \<Rightarrow> s"
    obtain updated where updated: "render_config api ?old mode = Inr updated" "found \<noteq> Some updated"
      using read(2,3) l1 assms(2)
      by (cases "render_config api ?old mode") (auto simp: if_ok_def done_with_eq split: if_splits)
    with read(2) have "if_ok (act_got FileMade (\<lambda>t. co_temp co t directory)) ConfigIo (\<lambda>staged.
      or_undo (drop_file co staged)
        (if_ok (act (FileWritten staged updated) (\<lambda>t. co_write co t staged updated)) ConfigIo (\<lambda>_.
         if_ok (act_ok (FileSynced staged) (\<lambda>t. co_sync co t staged)) ConfigIo (\<lambda>_. done_with (Inr ())))) (\<lambda>_.
      case found of
        Some s \<Rightarrow> replace_config co directory ?path staged s
      | None \<Rightarrow>
          if_ok (act_ok (ConfigCreated staged ?path) (\<lambda>t. co_persist_new co t staged ?path)) (\<lambda>e. ConfigExists e staged)
            (\<lambda>_. done_with (Inr ())))) t1 = (l2, t', r)"
      by (simp add: if_ok_def)
    then show ?thesis
    proof (cases rule: if_ok_casesE)
      case Failed
      then show ?thesis using assms(2,3) read(3) l1 by (auto simp: act_got_eq)
    next
      case made: (Worked l3 t3 staged l4)
      then have l3: "l3 = [(t1, FileMade staged)]" "t3 = Suc t1" by (auto simp: act_got_eq)
      from made(2) show ?thesis
      proof (cases rule: or_drop_file_casesE)
        case Failed
        then show ?thesis using assms(2,3) read(3) l1 made(3) l3 staging_quiet [OF Failed(1)] by auto
      next
        case written: (Worked l5 t5 y l6)
        have l: "l = l3 @ l5 @ l6" and l6: "(u, x) \<in> set l6"
          using assms(2,3) read(3) l1 made(3) l3 written(3) staging_quiet [OF written(1)] by auto
        have staged: "staged_with co staged updated l t5" "t1 < t5"
          using staging_Inr [OF written(1)] l l3(2) by (auto elim!: staged_with_mono)
        show ?thesis
        proof (cases found)
          case None
          with written(2) l6 assms(3) have "x = ConfigCreated staged ?path" "co_persist_new co u staged ?path = Inr ()" "u = t5"
            by (auto simp: if_ok_def program_simps split: sum.splits if_splits)
          then show ?thesis using read(1) l1 updated staged None unfolding changes_safely_def by fastforce
        next
          case (Some original)
          with written(2) have run: "replace_config co directory ?path staged original t5 = (l6, t', r)" by simp
          from replace_config_replaces [OF this l6 assms(3)] obtain w' where w':
              "x = ConfigReplaced staged ?path" "co_rename co u staged ?path = Inr ()"
              "read_config co ?path t5 = ([], w', Inr (Some original))" "backed_up co original l6 w' u"
            by blast
          have "t5 \<le> u" using progressesD [OF progress_config(1) w'(3)] w'(4) by (auto simp: backed_up_def)
          moreover have "backed_up co original l w' u" by (rule backed_up_mono [OF w'(4) order_refl order_refl]) (auto simp: l)
          ultimately show ?thesis
            using read(1) l1 updated staged Some w' unfolding changes_safely_def by fastforce
        qed
      qed
    qed
  qed
qed


section \<open>The update\<close>

lemma progress_update_locked: "progresses (update_locked api co directory mode)"
  unfolding update_locked_def replace_config_def replace_existing_def Let_def
  by (auto intro!: progress_intros split: option.splits)

lemma chain_quiet: "check_plain_directory_chain co path t = (l, t', r) \<Longrightarrow> l = []"
  by (rule acts_nothing [OF quiet_chain])

text \<open>C12: the configuration is changed only under the lock, and only from what was read and is there a second time, to the
  rendering of it, which is on the disk; what is replaced is backed up before.\<close>

theorem config_changed_safely:
  assumes "update_config api co directory mode t = (l, t', r)" "(u, x) \<in> set l" "is_change x"
  shows "changes_safely api co (path_join directory [Normal ''config.toml'']) mode l (u, x) \<and>
    (\<exists>v w. v < u \<and> u < w \<and> (v, LockTaken (path_join directory [Normal ''.autoapprover-config.lock''])) \<in> set l \<and>
      (w, LockRemoved (path_join directory [Normal ''.autoapprover-config.lock''])) \<in> set l)"
  using assms(1) [unfolded update_config_def Let_def]
proof (cases rule: if_ok_casesE)
  case Failed
  then show ?thesis using assms(2) chain_quiet by fastforce
next
  case first: (Worked l1 t1 y1 l2)
  note l1 = chain_quiet [OF first(1)]
  from first(2) show ?thesis
  proof (cases rule: if_ok_casesE)
    case Failed
    then show ?thesis using assms(2) l1 first(3) by (simp add: ask_eq)
  next
    case made: (Worked l3 t3 y3 l4)
    then have l3: "l3 = []" by (simp add: ask_eq)
    from made(2) show ?thesis
    proof (cases rule: if_ok_casesE)
      case Failed
      then show ?thesis using assms(2) l1 l3 first(3) made(3) chain_quiet by fastforce
    next
      case again: (Worked l5 t5 y5 l6)
      note l5 = chain_quiet [OF again(1)]
      from again(2) show ?thesis
      proof (cases rule: if_ok_casesE)
        case Failed
        then show ?thesis using assms(2) l1 l3 l5 first(3) made(3) again(3) by (simp add: act_ok_eq)
      next
        case locked: (Worked l7 t7 y7 l8)
        let ?lock = "path_join directory [Normal ''.autoapprover-config.lock'']"
        have l7: "l7 = [(t5, LockTaken ?lock)]" "t7 = Suc t5" using locked(1) by (auto simp: act_ok_eq)
        from locked(2) obtain l9 t9 result where inner: "update_locked api co directory mode t7 = (l9, t9, result)"
            "l8 = l9 @ [(t9, LockRemoved ?lock)]"
          by (auto simp: program_simps)
        have l: "l = l7 @ l8" using first(3) made(3) again(3) locked(3) l1 l3 l5 by simp
        have u: "(u, x) \<in> set l9" using assms(2,3) l l7 inner(2) by auto
        have "changes_safely api co (path_join directory [Normal ''config.toml'']) mode l (u, x)"
          by (rule changes_safely_mono [OF update_locked_changes [OF inner(1) u assms(3)]]) (auto simp: l inner(2))
        moreover have "t5 < u \<and> u < t9"
          using progressesD [OF progress_update_locked inner(1)] u l7(2) by fastforce
        ultimately show ?thesis using l l7 inner(2) by (intro conjI exI [of _ t5] exI [of _ t9]) auto
      qed
    qed
  qed
qed


text \<open>An update of a configuration, and one that loses a race: the file that was staged for a configuration that did
  not exist is owned by the error.\<close>

definition example_config :: "string option \<Rightarrow> config_calls" where
  "example_config contents_read = \<lparr>
     co_absolute = (\<lambda>t path. Inr path),
     co_lstat = (\<lambda>t path.
       if path = [RootDir, Normal ''config.toml'']
       then (case contents_read of None \<Rightarrow> Inl KindNotFound | Some s \<Rightarrow> Inr ConfigFile) else Inr ConfigDirectory),
     co_create_dirs = (\<lambda>t path. Inr ()),
     co_lock = (\<lambda>t path. Inr ()),
     co_unlock = (\<lambda>t path. Inr ()),
     co_open = (\<lambda>t path. Inr 3),
     co_fstat = (\<lambda>t n. Inr \<lparr>cs_plain = True, cs_len = 16, cs_links = 1\<rparr>),
     co_read = (\<lambda>t n. Inr (case contents_read of None \<Rightarrow> [] | Some s \<Rightarrow> s)),
     co_temp = (\<lambda>t path. Inr (path @ [Normal (replicate t CHR ''t'')])),
     co_write = (\<lambda>t path s. Inr ()),
     co_copy_mode = (\<lambda>t a b. Inr ()),
     co_sync = (\<lambda>t path. Inr ()),
     co_drop = (\<lambda>t path. Inr ()),
     co_keep = (\<lambda>t path. Inr ()),
     co_rename = (\<lambda>t a b. Inr ()),
     co_persist_new = (\<lambda>t a b. Inl KindOther)\<rparr>"

lemma example_runs:
  "check_plain_directory_chain (example_config c) [RootDir] t = ([], Suc (Suc t), Inr ())"
  "read_config (example_config None) [RootDir, Normal ''config.toml''] t = ([], Suc t, Inr None)"
  "read_config (example_config (Some ''sandbox=elevated'')) [RootDir, Normal ''config.toml''] t =
     ([], Suc (Suc (Suc (Suc t))), Inr (Some ''sandbox=elevated''))"
proof -
  have "ancestors [RootDir] = [[RootDir]]" by (simp add: ancestors.simps [of "[RootDir]"] path_parent_def)
  then show "check_plain_directory_chain (example_config c) [RootDir] t = ([], Suc (Suc t), Inr ())"
    by (simp add: check_plain_directory_chain_def check_plain_directory_def example_config_def program_run if_ok_def)
next
  have "utf8_valid ''sandbox=elevated''" by code_simp
  moreover have "16 < MAX_CONFIG_BYTES" by (simp add: MAX_CONFIG_BYTES_def)
  moreover from this have "take (MAX_CONFIG_BYTES + 1) ''sandbox=elevated'' = ''sandbox=elevated''" by (intro take_all) simp
  ultimately show "read_config (example_config (Some ''sandbox=elevated'')) [RootDir, Normal ''config.toml''] t =
     ([], Suc (Suc (Suc (Suc t))), Inr (Some ''sandbox=elevated''))"
    by (simp add: read_config_def example_config_def program_run if_ok_def Let_def del: take_Suc_Cons take_Suc)
qed (simp add: read_config_def example_config_def program_run)

lemma example_answers:
  "co_create_dirs (example_config c) t path = Inr ()" "co_lock (example_config c) t path = Inr ()"
  "co_unlock (example_config c) t path = Inr ()" "co_temp (example_config c) t path = Inr (path @ [Normal (replicate t CHR ''t'')])"
  "co_write (example_config c) t path s = Inr ()" "co_copy_mode (example_config c) t a b = Inr ()"
  "co_sync (example_config c) t path = Inr ()" "co_keep (example_config c) t path = Inr ()" "co_drop (example_config c) t path = Inr ()"
  "co_rename (example_config c) t a b = Inr ()" "co_persist_new (example_config c) t a b = Inl KindOther"
  by (simp_all add: example_config_def)

lemma example_rendered:
  "render_config one_line ''sandbox=elevated'' ''unelevated'' = Inr ''sandbox=unelevated''"
  "render_config one_line [] ''unelevated'' = Inr ''sandbox=unelevated''"
  by code_simp+

lemmas example_update = update_config_def update_locked_def replace_config_def keep_backup_def replace_existing_def
  or_undo_def drop_file_def removal_def path_join_def is_absolute_def example_answers example_runs example_rendered program_run if_ok_def ensure_def Let_def

lemma example_replaced:
  "\<exists>l t' u a. update_config one_line (example_config (Some ''sandbox=elevated'')) [RootDir] ''unelevated'' 0 = (l, t', Inr ()) \<and>
     (u, ConfigReplaced a [RootDir, Normal ''config.toml'']) \<in> set l"
  by (simp add: example_update)

lemma example_lost:
  "\<exists>l t' staged. update_config one_line (example_config None) [RootDir] ''unelevated'' 0 =
       (l, t', Inl (ConfigExists KindOther staged)) \<and>
     replay_at (config_at (example_config None)) l ({}, {}) = ({staged}, {})"
  by (simp add: example_update insert_Diff_if)

theorem config_changed_safely_witness:
  "\<exists>l t' u a. update_config one_line (example_config (Some ''sandbox=elevated'')) [RootDir] ''unelevated'' 0 = (l, t', Inr ()) \<and>
     changes_safely one_line (example_config (Some ''sandbox=elevated'')) [RootDir, Normal ''config.toml''] ''unelevated'' l
       (u, ConfigReplaced a [RootDir, Normal ''config.toml''])"
proof -
  obtain l t' u a where run:
      "update_config one_line (example_config (Some ''sandbox=elevated'')) [RootDir] ''unelevated'' 0 = (l, t', Inr ())"
      "(u, ConfigReplaced a [RootDir, Normal ''config.toml'']) \<in> set l"
    using example_replaced by blast
  from config_changed_safely [OF run] run show ?thesis by (auto simp: path_join_def is_absolute_def)
qed

theorem update_leaves_only_witness:
  "\<exists>l t' staged. update_config one_line (example_config None) [RootDir] ''unelevated'' 0 =
       (l, t', Inl (ConfigExists KindOther staged)) \<and>
     fst (replay_at (config_at (example_config None)) l ({}, {})) = {staged}"
proof -
  obtain l t' staged where run: "update_config one_line (example_config None) [RootDir] ''unelevated'' 0 =
      (l, t', Inl (ConfigExists KindOther staged))" "replay_at (config_at (example_config None)) l ({}, {}) = ({staged}, {})"
    using example_lost by blast
  from update_leaves_only [OF run(1)] run show ?thesis by auto
qed

end
