(* ===== verification/Raw_Memory.thy ===== *)
theory Raw_Memory
  imports Rust_Text
begin

text \<open>
  Memory that the system has filled in and that the code reads through pointers.  A region has an address and its
  bytes; reading any other byte is a fault, which the code must make impossible by its checks.  Sizes are those
  of 64 bit Windows.
\<close>

section \<open>Addresses\<close>

definition addr_add :: "nat \<Rightarrow> nat \<Rightarrow> nat option" where
  "addr_add a b = (if a + b < 2 ^ 64 then Some (a + b) else None)"

definition addr_mul :: "nat \<Rightarrow> nat \<Rightarrow> nat option" where
  "addr_mul a b = (if a * b < 2 ^ 64 then Some (a * b) else None)"

lemma addr_Some [result_simps]:
  "(addr_add a b = Some n) = (n = a + b \<and> n < 2 ^ 64)" "(addr_mul a b = Some n) = (n = a * b \<and> n < 2 ^ 64)"
  by (auto simp: addr_add_def addr_mul_def)

section \<open>Regions\<close>

record region =
  region_start :: nat
  region_bytes :: string

abbreviation region_end :: "region \<Rightarrow> nat" where
  "region_end m \<equiv> region_start m + length (region_bytes m)"

datatype 'e raw_error = Fault | Refused 'e

definition read_at :: "region \<Rightarrow> nat \<Rightarrow> nat \<Rightarrow> ('e raw_error, string) result" where
  "read_at m a n =
     (if region_start m \<le> a \<and> a + n \<le> region_end m then Inr (take n (drop (a - region_start m) (region_bytes m)))
      else Inl Fault)"

lemma read_at_Inr [result_simps]:
  "(read_at m a n = Inr s) =
     (region_start m \<le> a \<and> a + n \<le> region_end m \<and> s = take n (drop (a - region_start m) (region_bytes m)))"
  by (auto simp: read_at_def)

lemma read_at_length: "read_at m a n = Inr s \<Longrightarrow> length s = n"
  by (auto simp: read_at_def split: if_splits)

lemma read_at_faults: "(read_at m a n = Inl e) = (e = Fault \<and> \<not> (region_start m \<le> a \<and> a + n \<le> region_end m))"
  by (auto simp: read_at_def)

text \<open>Words in memory, the lowest byte first.\<close>

definition le_val :: "string \<Rightarrow> nat" where
  "le_val s = foldr (\<lambda>c n. n * 256 + byte c) s 0"

lemma le_val_less: "le_val s < 256 ^ length s"
proof (induction s)
  case (Cons c s)
  have "byte c < 256" by (rule byte_less_256)
  with Cons show ?case by (simp add: le_val_def)
qed (simp add: le_val_def)

definition octets :: "nat list \<Rightarrow> string" where
  "octets = map char_of"

end
