(* ===== verification/Sid_Tokens.thy ===== *)
theory Sid_Tokens
  imports Raw_Memory Process_Tree Effects
begin

text \<open>
  Process identities on Windows, \<^verbatim>\<open>src/process/windows.rs\<close>: security identifiers, the identifier in the token
  of a process, the record of a process and the walk to its ancestors.  What the system answers is a parameter; memory
  that it fills in is a region, so that the checks before each use of a pointer are part of the model.
\<close>

section \<open>Security identifiers\<close>

type_synonym sid = string

text \<open>\<^verbatim>\<open>IsValidSid\<close>, \<^verbatim>\<open>GetLengthSid\<close> and \<^verbatim>\<open>EqualSid\<close>.\<close>

record sid_api =
  sid_ok :: "sid \<Rightarrow> bool"
  sid_len :: "sid \<Rightarrow> nat"
  sid_same :: "sid \<Rightarrow> sid \<Rightarrow> bool"

definition sid_expected_length :: "string \<Rightarrow> nat option" where
  "sid_expected_length header =
     (if length header < 8 \<or> byte (header ! 0) \<noteq> 1 then None
      else let sub_authority_count = byte (header ! 1) in
        if 15 < sub_authority_count then None
        else Option.bind (addr_mul sub_authority_count 4) (addr_add 8))"

definition sid_byte_length :: "sid \<Rightarrow> nat option" where
  "sid_byte_length bytes =
     (if length bytes < 8 \<or> byte (bytes ! 0) \<noteq> 1 then None
      else case sid_expected_length (take 8 bytes) of
        None \<Rightarrow> None
      | Some n \<Rightarrow> if n = length bytes then Some n else None)"

definition sid_is_valid :: "sid_api \<Rightarrow> sid \<Rightarrow> bool" where
  "sid_is_valid api bytes =
     (sid_byte_length bytes = Some (length bytes) \<and> length bytes < 2 ^ 32 \<and> sid_ok api bytes \<and>
      sid_len api bytes = length bytes)"

definition sid_equal :: "sid_api \<Rightarrow> sid \<Rightarrow> sid \<Rightarrow> bool" where
  "sid_equal api left right =
     (sid_is_valid api left \<and> sid_is_valid api right \<and> sid_ok api left \<and> sid_ok api right \<and>
      sid_len api left = length left \<and> sid_len api right = length right \<and> sid_same api left right)"

section \<open>The user of a token\<close>

text \<open>The calls of one reading of a process: each is made once.  A handle is a number other than zero.\<close>

record token_calls =
  tk_open :: "u32 \<Rightarrow> nat option"
  tk_times :: "nat \<Rightarrow> (u32 \<times> u32) option"
  tk_token :: "nat \<Rightarrow> nat option"
  tk_length :: "nat \<Rightarrow> u32"
  tk_address :: nat
  tk_info :: "nat \<Rightarrow> (u32 \<times> string) option"
  tk_snapshot :: "nat option"
  tk_entries :: "nat \<Rightarrow> (u32 \<times> u32) list"

definition TOKEN_USER_SIZE :: nat where
  "TOKEN_USER_SIZE = 16"

text \<open>The buffer, which was filled with zeros, after the call has written to it.\<close>

definition filled :: "nat \<Rightarrow> string \<Rightarrow> string" where
  "filled n s = take n (s @ replicate n (CHR 0x00))"

definition sum_within :: "nat \<Rightarrow> nat \<Rightarrow> nat \<Rightarrow> bool" where
  "sum_within a n bound = (case addr_add a n of None \<Rightarrow> False | Some e \<Rightarrow> e \<le> bound)"

definition query_token_sid :: "sid_api \<Rightarrow> token_calls \<Rightarrow> nat \<Rightarrow> (process_error raw_error, sid) result" where
  "query_token_sid api tk token =
     (let len = tk_length tk token; start = tk_address tk in
      and_then (ensure (len \<noteq> 0) (Refused ProcUnavailable)) (\<lambda>_.
      and_then (ensure (TOKEN_USER_SIZE \<le> unat len) (Refused ProcMalformed)) (\<lambda>_.
      and_then (ok_or (Refused ProcMalformed) (addr_add start (unat len))) (\<lambda>buffer_end.
      and_then (ok_or (Refused ProcUnavailable) (tk_info tk token)) (\<lambda>(returned, written).
      let buffer = \<lparr>region_start = start, region_bytes = filled (unat len) written\<rparr> in
      and_then (ensure (unat returned \<le> unat len \<and> TOKEN_USER_SIZE \<le> unat returned) (Refused ProcUnavailable)) (\<lambda>_.
      and_then (ok_or (Refused ProcMalformed) (addr_add start (unat returned))) (\<lambda>returned_end.
      and_then (read_at buffer start 8) (\<lambda>pointer.
      let sid_start = le_val pointer in
      and_then (ensure (sid_start \<noteq> 0) (Refused ProcMalformed)) (\<lambda>_.
      and_then (ensure (start \<le> sid_start \<and> sum_within sid_start 8 returned_end) (Refused ProcMalformed)) (\<lambda>_.
      and_then (read_at buffer sid_start 8) (\<lambda>header.
      and_then (ok_or (Refused ProcMalformed) (sid_expected_length header)) (\<lambda>expected.
      and_then (ensure (sum_within sid_start expected returned_end) (Refused ProcMalformed)) (\<lambda>_.
      and_then (read_at buffer sid_start expected) (\<lambda>body.
      and_then (ensure (sid_ok api body) (Refused ProcMalformed)) (\<lambda>_.
      let sid_length = sid_len api body in
      and_then (ok_or (Refused ProcMalformed) (addr_add sid_start sid_length)) (\<lambda>sid_end.
      and_then (ensure (sid_length \<noteq> 0 \<and> start \<le> sid_start \<and> sid_end \<le> buffer_end) (Refused ProcMalformed)) (\<lambda>_.
      read_at buffer sid_start sid_length)))))))))))))))))"

section \<open>The record of a process\<close>

datatype handle_action = HandleOpened nat | HandleClosed nat

type_synonym 'a token_program = "(handle_action, (process_error raw_error, 'a) result) program"

definition close_token :: "nat \<Rightarrow> (handle_action, unit) program" where
  "close_token handle = act (HandleClosed handle) (\<lambda>t. ())"

definition open_process :: "token_calls \<Rightarrow> u32 \<Rightarrow> nat token_program" where
  "open_process tk pid = act_got HandleOpened (\<lambda>t. ok_or (Refused ProcUnavailable) (tk_open tk pid))"

definition filetime_to_u64 :: "u32 \<Rightarrow> u32 \<Rightarrow> u64" where
  "filetime_to_u64 high low = push_bit 32 (ucast high) OR ucast low"

definition process_creation_time :: "token_calls \<Rightarrow> nat \<Rightarrow> (process_error raw_error, u64) result" where
  "process_creation_time tk handle =
     and_then (ok_or (Refused ProcUnavailable) (tk_times tk handle)) (\<lambda>(high, low). Inr (filetime_to_u64 high low))"

definition token_user_sid :: "sid_api \<Rightarrow> token_calls \<Rightarrow> nat \<Rightarrow> sid token_program" where
  "token_user_sid api tk process =
     if_ok (act_got HandleOpened (\<lambda>t. ok_or (Refused ProcUnavailable) (tk_token tk process))) (\<lambda>e. e) (\<lambda>token.
     and_next (done_with (query_token_sid api tk token)) (\<lambda>sid.
     and_next (close_token token) (\<lambda>_. done_with sid)))"

definition process_user_sid :: "sid_api \<Rightarrow> token_calls \<Rightarrow> u32 \<Rightarrow> sid token_program" where
  "process_user_sid api tk pid =
     if_ok (open_process tk pid) (\<lambda>e. e) (\<lambda>handle.
     and_next (token_user_sid api tk handle) (\<lambda>sid.
     and_next (close_token handle) (\<lambda>_. done_with sid)))"

text \<open>The entries of a snapshot are looked at until the process is found.\<close>

fun find_parent :: "u32 \<Rightarrow> (u32 \<times> u32) list \<Rightarrow> u32 option" where
  "find_parent pid [] = None"
| "find_parent pid ((process, parent) # entries) = (if process = pid then Some parent else find_parent pid entries)"

definition parent_process_id :: "token_calls \<Rightarrow> u32 \<Rightarrow> u32 token_program" where
  "parent_process_id tk pid =
     if_ok (act_got HandleOpened (\<lambda>t. ok_or (Refused ProcUnavailable) (tk_snapshot tk))) (\<lambda>e. e) (\<lambda>snapshot.
     and_next (done_with (find_parent pid (tk_entries tk snapshot))) (\<lambda>found.
     and_next (close_token snapshot) (\<lambda>_. done_with (ok_or (Refused ProcUnavailable) found))))"

definition read_process_record :: "sid_api \<Rightarrow> token_calls \<Rightarrow> u32 \<Rightarrow> sid tree_record token_program" where
  "read_process_record api tk pid =
     if_ok (open_process tk pid) (\<lambda>e. e) (\<lambda>handle.
     and_next (if_ok (done_with (process_creation_time tk handle)) (\<lambda>e. e) (\<lambda>creation_time.
        if_ok (token_user_sid api tk handle) (\<lambda>e. e) (\<lambda>user_sid. done_with (Inr (creation_time, user_sid))))) (\<lambda>process_data.
     and_next (close_token handle) (\<lambda>_.
     if_ok (done_with process_data) (\<lambda>e. e) (\<lambda>(creation_time, user_sid).
     if_ok (parent_process_id tk pid) (\<lambda>e. e) (\<lambda>parent.
     done_with (Inr
       \<lparr>process_identity_of = \<lparr>identity_pid = pid, start_time = creation_time, identity_user = user_sid\<rparr>,
        parent_pid = parent\<rparr>))))))"


section \<open>No pointer is followed out of the buffer\<close>

lemma filled_length [simp]: "length (filled n s) = n"
  by (simp add: filled_def)

lemma sum_within_iff: "sum_within a n bound = (a + n < 2 ^ 64 \<and> a + n \<le> bound)"
  by (simp add: sum_within_def addr_add_def)

text \<open>Whatever the system says about the length and the place of the identifier, each read is inside of the buffer.\<close>

theorem token_sid_in_bounds: "query_token_sid api tk token \<noteq> Inl Fault"
  unfolding query_token_sid_def Let_def
  by (auto simp: result_simps sum_within_iff read_at_faults TOKEN_USER_SIZE_def split: prod.splits)

section \<open>Every handle is closed\<close>

fun handle_step :: "handle_action \<Rightarrow> nat set \<Rightarrow> nat set" where
  "handle_step (HandleOpened h) s = insert h s"
| "handle_step (HandleClosed h) s = s - {h}"

lemma wp_close_token [wp_intros]: "Q () (s - {h}) \<Longrightarrow> wp handle_step (close_token h) Q s"
  unfolding close_token_def by (rule wp_act) simp

lemma wp_token_user: "wp handle_step (token_user_sid api tk process) (\<lambda>r s'. s' \<subseteq> s) s"
  unfolding token_user_sid_def by (auto intro!: wp_intros)

lemma wp_parent: "wp handle_step (parent_process_id tk pid) (\<lambda>r s'. s' \<subseteq> s) s"
  unfolding parent_process_id_def by (auto intro!: wp_intros)

theorem reading_closes_handles:
  assumes "read_process_record api tk pid t = (l, t', r)"
  shows "replay handle_step l {} = {}"
proof -
  have user: "wp handle_step (token_user_sid api tk process)
      (\<lambda>r s'. (\<forall>e. r = Inl e \<longrightarrow> s' \<subseteq> s) \<and> (\<forall>x. r = Inr x \<longrightarrow> s' \<subseteq> s)) s" for process s
    by (rule wp_mono [OF wp_token_user]) auto
  have parent: "wp handle_step (parent_process_id tk pid)
      (\<lambda>r s'. (\<forall>e. r = Inl e \<longrightarrow> s' \<subseteq> s) \<and> (\<forall>x. r = Inr x \<longrightarrow> s' \<subseteq> s)) s" for pid s
    by (rule wp_mono [OF wp_parent]) auto
  have "wp handle_step (read_process_record api tk pid) (\<lambda>r s. s = {}) {}"
    unfolding read_process_record_def open_process_def
    by (auto intro!: wp_intros wp_mono [OF user] wp_mono [OF parent] split: prod.splits; blast)
  from wpD [OF this assms] show ?thesis .
qed


section \<open>Valid identifiers\<close>

lemma sid_expected_length_Some:
  "(sid_expected_length header = Some n) =
     (8 \<le> length header \<and> byte (header ! 0) = 1 \<and> byte (header ! 1) \<le> 15 \<and> n = 8 + 4 * byte (header ! 1))"
  by (auto simp: sid_expected_length_def result_simps bind_eq_Some_conv Let_def)

text \<open>A valid identifier is exactly as long as its header says: 8 bytes and 4 for each of at most 15 parts.\<close>

lemma sid_valid_shape:
  "sid_is_valid api bytes \<Longrightarrow>
     byte (bytes ! 0) = 1 \<and> byte (bytes ! 1) \<le> 15 \<and> length bytes = 8 + 4 * byte (bytes ! 1) \<and> length bytes \<le> 68"
  by (auto simp: sid_is_valid_def sid_byte_length_def sid_expected_length_Some split: if_splits option.splits)

section \<open>The ancestors of a peer\<close>

text \<open>The reader of one process after another; the calls of each reading are answered anew.\<close>

definition cause :: "process_error raw_error \<Rightarrow> process_error" where
  "cause e = (case e of Fault \<Rightarrow> ProcUnavailable | Refused e \<Rightarrow> e)"

definition win_process :: "sid_api \<Rightarrow> (nat \<Rightarrow> token_calls) \<Rightarrow> sid tree_reader" where
  "win_process api tk = (\<lambda>t pid. map_err cause (value_of (read_process_record api (tk t) pid 0)))"

definition identity_matches :: "sid_api \<Rightarrow> sid identity \<Rightarrow> sid identity \<Rightarrow> bool" where
  "identity_matches api left right =
     (identity_pid left = identity_pid right \<and> start_time left = start_time right \<and>
      sid_equal api (identity_user left) (identity_user right))"

text \<open>The walk is the one of the other systems.\<close>

definition sid_collect_ancestry :: "sid tree_reader \<Rightarrow> nat \<Rightarrow> u32 \<Rightarrow> u32 \<Rightarrow>
    nat \<times> (process_error, sid tree_record list) result" where
  "sid_collect_ancestry = collect_ancestry"

definition sid_validate_ancestry :: "sid_api \<Rightarrow> sid tree_reader \<Rightarrow> nat \<Rightarrow> u32 \<Rightarrow> sid identity \<Rightarrow>
    nat \<times> (process_error, unit) result" where
  "sid_validate_ancestry api = validate_ancestry_by (identity_matches api)"

definition sid_process_identity :: "sid_api \<Rightarrow> (nat \<Rightarrow> token_calls) \<Rightarrow> nat \<Rightarrow> u32 \<Rightarrow> (process_error, sid identity) result"
where
  "sid_process_identity api tk = current_process_identity (win_process api tk)"

definition launcher_user_sid :: "sid_api \<Rightarrow> token_calls \<Rightarrow> u32 \<Rightarrow> (process_error, sid) result" where
  "launcher_user_sid api tk current_process = map_err cause (value_of (process_user_sid api tk current_process 0))"

definition peer_user_matches_launcher :: "sid_api \<Rightarrow> token_calls \<Rightarrow> u32 \<Rightarrow> sid \<Rightarrow> bool" where
  "peer_user_matches_launcher api tk peer launcher =
     (case value_of (process_user_sid api tk peer 0) of Inl e \<Rightarrow> False | Inr user \<Rightarrow> sid_equal api user launcher)"

lemma read_record_pid:
  assumes "read_process_record api tk pid t = (l, t', Inr r)"
  shows "record_pid r = pid"
  using assms unfolding read_process_record_def if_ok_eq and_next_eq done_with_eq by (auto simp: if_ok_eq done_with_eq split: prod.splits)

interpretation win: process_source "win_process api tk" for api tk
proof unfold_locales
  fix t pid r
  assume "win_process api tk t pid = Inr r"
  then have "snd (snd (read_process_record api (tk t) pid 0)) = Inr r" by (simp add: win_process_def value_of_def)
  then obtain l t' where "read_process_record api (tk t) pid 0 = (l, t', Inr r)" by (metis prod.collapse)
  then show "record_pid r = pid" by (rule read_record_pid)
qed

theorem sid_ancestry_exact:
  "(sid_validate_ancestry api reader t peer expected = (t', Inr ())) =
     (\<exists>rs. chain reader t peer (identity_pid expected) rs \<and>
        chain reader (t + length rs) peer (identity_pid expected) rs \<and> length rs \<le> 32 \<and>
        distinct (map record_pid rs) \<and> identity_matches api (process_identity_of (last rs)) expected \<and>
        t' = t + 2 * length rs)"
  unfolding sid_validate_ancestry_def
  by (subst validate_ancestry_by_iff) (auto simp: ancestry_seen_def identity_matches_def)

lemma sid_identity_sound:
  assumes "sid_process_identity api tk t pid = Inr i"
  shows "identity_pid i = pid \<and> (\<exists>r. win_process api tk t pid = Inr r \<and> win_process api tk (t + 1) pid = Inr r \<and>
    process_identity_of r = i)"
  using assms unfolding sid_process_identity_def by (rule win.current_identity_pid)

end
