(* ===== verification/Access_Lists.thy ===== *)
theory Access_Lists
  imports Sid_Tokens Trusted_Files
begin

unbundle bit_operations_syntax

text \<open>
  The check of an owner and an access list on Windows, \<^verbatim>\<open>src/identity/windows_acl.rs\<close>.  The list is read
  from memory by the layout of its entries; what the entries grant is stated apart, by the rules with which the system
  evaluates them.
\<close>

section \<open>Rights\<close>

definition FILE_ADD_FILE :: u32 where "FILE_ADD_FILE = 0x2"
definition FILE_ADD_SUBDIRECTORY :: u32 where "FILE_ADD_SUBDIRECTORY = 0x4"
definition FILE_WRITE_EA :: u32 where "FILE_WRITE_EA = 0x10"
definition FILE_DELETE_CHILD :: u32 where "FILE_DELETE_CHILD = 0x40"
definition FILE_WRITE_ATTRIBUTES :: u32 where "FILE_WRITE_ATTRIBUTES = 0x100"
definition DELETE_RIGHT :: u32 where "DELETE_RIGHT = 0x10000"
definition WRITE_DAC :: u32 where "WRITE_DAC = 0x40000"
definition WRITE_OWNER :: u32 where "WRITE_OWNER = 0x80000"
definition GENERIC_ALL :: u32 where "GENERIC_ALL = 0x10000000"
definition GENERIC_WRITE :: u32 where "GENERIC_WRITE = 0x40000000"

definition UNTRUSTED_WRITE :: u32 where
  "UNTRUSTED_WRITE = FILE_ADD_FILE OR FILE_ADD_SUBDIRECTORY OR FILE_DELETE_CHILD OR FILE_WRITE_EA OR
     FILE_WRITE_ATTRIBUTES OR DELETE_RIGHT OR WRITE_DAC OR WRITE_OWNER OR GENERIC_WRITE OR GENERIC_ALL"

definition UNTRUSTED_REPLACEMENT :: u32 where
  "UNTRUSTED_REPLACEMENT = UNTRUSTED_WRITE AND NOT (FILE_ADD_FILE OR FILE_ADD_SUBDIRECTORY)"

section \<open>Principals\<close>

record acl_api = sid_api +
  sid_system :: "sid \<Rightarrow> bool"
  sid_administrators :: "sid \<Rightarrow> bool"
  sid_creator_owner :: "sid \<Rightarrow> bool"
  sid_installer :: "sid option"

definition same_user :: "acl_api \<Rightarrow> sid \<Rightarrow> sid \<Rightarrow> bool" where
  "same_user api s user = sid_same api s user"

definition is_trusted_installer :: "acl_api \<Rightarrow> sid \<Rightarrow> bool" where
  "is_trusted_installer api s = (case sid_installer api of None \<Rightarrow> False | Some expected \<Rightarrow> sid_same api s expected)"

definition trusted_owner :: "acl_api \<Rightarrow> sid \<Rightarrow> sid \<Rightarrow> bool" where
  "trusted_owner api s user =
     (same_user api s user \<or> sid_system api s \<or> sid_administrators api s \<or> is_trusted_installer api s)"

definition trusted_grantee :: "acl_api \<Rightarrow> sid \<Rightarrow> sid \<Rightarrow> bool" where
  "trusted_grantee api s user = (trusted_owner api s user \<or> sid_creator_owner api s)"

section \<open>The entries of a list\<close>

text \<open>The access list is the block of memory of the descriptor that starts with it; \<^verbatim>\<open>GetAce\<close> gives the
  address of an entry.\<close>

record access_list =
  acl_memory :: region
  acl_valid :: bool
  acl_entry :: "nat \<Rightarrow> nat option"

datatype acl_error =
    OwnerUnread
  | UntrustedOwner
  | InvalidList
  | ListOverflow
  | EntryUnread
  | EntryOutside
  | EntryBounds
  | UnsupportedEntry
  | ShortEntry
  | ShortSid
  | InvalidSid
  | GrantsWrite

definition ACE_HEADER_SIZE :: nat where "ACE_HEADER_SIZE = 4"
definition ACL_SIZE :: nat where "ACL_SIZE = 8"
definition ACCESS_ALLOWED_ACE_SIZE :: nat where "ACCESS_ALLOWED_ACE_SIZE = 12"
definition ACCESS_ALLOWED_ACE_TYPE :: nat where "ACCESS_ALLOWED_ACE_TYPE = 0"
definition ACCESS_DENIED_ACE_TYPE :: nat where "ACCESS_DENIED_ACE_TYPE = 1"
definition INHERIT_ONLY_ACE :: u8 where "INHERIT_ONLY_ACE = 0x08"

definition forbidden_rights :: "bool \<Rightarrow> u32" where
  "forbidden_rights protected_leaf = (if protected_leaf then UNTRUSTED_WRITE else UNTRUSTED_REPLACEMENT)"

abbreviation overflow_free :: "nat option \<Rightarrow> (acl_error raw_error, nat) result" where
  "overflow_free \<equiv> ok_or (Refused ListOverflow)"

definition check_allowed :: "acl_api \<Rightarrow> region \<Rightarrow> sid \<Rightarrow> bool \<Rightarrow> nat \<Rightarrow> nat \<Rightarrow> (acl_error raw_error, unit) result" where
  "check_allowed api m user protected_leaf ace_start ace_end =
     and_then (ensure (ACCESS_ALLOWED_ACE_SIZE \<le> ace_end - ace_start) (Refused ShortEntry)) (\<lambda>_.
     and_then (read_at m ace_start ACCESS_ALLOWED_ACE_SIZE) (\<lambda>allowed.
     let sid_start = ace_start + 8 in
     and_then (overflow_free (addr_add sid_start 8)) (\<lambda>sid_header_end.
     and_then (ensure (sid_header_end \<le> ace_end) (Refused ShortSid)) (\<lambda>_.
     and_then (read_at m (sid_start + 1) 1) (\<lambda>count.
     and_then (overflow_free (Option.bind (addr_mul (le_val count) 4) (addr_add sid_header_end))) (\<lambda>sid_end.
     and_then (ensure (sid_end \<le> ace_end) (Refused InvalidSid)) (\<lambda>_.
     and_then (read_at m sid_start (sid_end - sid_start)) (\<lambda>grantee.
     and_then (ensure (sid_ok api grantee) (Refused InvalidSid)) (\<lambda>_.
     ensure ((word_of_nat (le_val (take 4 (drop 4 allowed))) AND forbidden_rights protected_leaf) = 0 \<or>
         trusted_grantee api grantee user)
       (Refused GrantsWrite))))))))))"

definition check_ace :: "acl_api \<Rightarrow> access_list \<Rightarrow> sid \<Rightarrow> bool \<Rightarrow> nat \<Rightarrow> nat \<Rightarrow> (acl_error raw_error, unit) result" where
  "check_ace api acl user protected_leaf acl_end index =
     (let m = acl_memory acl in
      and_then (ok_or (Refused EntryUnread) (acl_entry acl index)) (\<lambda>ace_start.
      and_then (overflow_free (addr_add ace_start ACE_HEADER_SIZE)) (\<lambda>header_end.
      and_then (overflow_free (addr_add (region_start m) ACL_SIZE)) (\<lambda>first.
      and_then (ensure (first \<le> ace_start \<and> header_end \<le> acl_end) (Refused EntryOutside)) (\<lambda>_.
      and_then (read_at m ace_start ACE_HEADER_SIZE) (\<lambda>header.
      and_then (overflow_free (addr_add ace_start (le_val (drop 2 header)))) (\<lambda>ace_end.
      and_then (ensure (ace_end \<le> acl_end \<and> header_end \<le> ace_end) (Refused EntryBounds)) (\<lambda>_.
      let ace_type = byte (header ! 0); ace_flags = word_of_nat (byte (header ! 1)) in
      if ace_type = ACCESS_DENIED_ACE_TYPE then Inr ()
      else if ace_type \<noteq> ACCESS_ALLOWED_ACE_TYPE then Inl (Refused UnsupportedEntry)
      else if ace_flags AND INHERIT_ONLY_ACE \<noteq> 0 then Inr ()
      else check_allowed api m user protected_leaf ace_start ace_end))))))))"

fun check_aces :: "acl_api \<Rightarrow> access_list \<Rightarrow> sid \<Rightarrow> bool \<Rightarrow> nat \<Rightarrow> nat list \<Rightarrow> (acl_error raw_error, unit) result" where
  "check_aces api acl user protected_leaf acl_end [] = Inr ()"
| "check_aces api acl user protected_leaf acl_end (index # indices) =
     and_then (check_ace api acl user protected_leaf acl_end index) (\<lambda>_.
       check_aces api acl user protected_leaf acl_end indices)"

text \<open>What \<^verbatim>\<open>GetSecurityInfo\<close> gave: the owner and the list, either of which may be missing.\<close>

record security_info =
  si_owner :: "sid option"
  si_list :: "access_list option"

definition check_acl :: "acl_api \<Rightarrow> security_info option \<Rightarrow> sid \<Rightarrow> bool \<Rightarrow> (acl_error raw_error, unit) result" where
  "check_acl api info user protected_leaf =
     and_then (ok_or (Refused OwnerUnread) info) (\<lambda>info.
     and_then (ok_or (Refused OwnerUnread) (si_owner info)) (\<lambda>owner.
     and_then (ok_or (Refused OwnerUnread) (si_list info)) (\<lambda>acl.
     and_then (ensure (sid_ok api owner \<and> trusted_owner api owner user) (Refused UntrustedOwner)) (\<lambda>_.
     and_then (ensure (acl_valid acl) (Refused InvalidList)) (\<lambda>_.
     let m = acl_memory acl in
     and_then (read_at m (region_start m) ACL_SIZE) (\<lambda>head.
     and_then (overflow_free (addr_add (region_start m) (le_val (take 2 (drop 2 head))))) (\<lambda>acl_end.
     check_aces api acl user protected_leaf acl_end [0..<le_val (take 2 (drop 4 head))])))))))"


section \<open>No read leaves the list\<close>

text \<open>The memory of a list that the system calls valid holds what its head says.\<close>

definition list_in_memory :: "access_list \<Rightarrow> bool" where
  "list_in_memory acl =
     (let bytes = region_bytes (acl_memory acl) in
      ACL_SIZE \<le> length bytes \<and> le_val (take 2 (drop 2 bytes)) \<le> length bytes)"

lemmas acl_sizes = ACE_HEADER_SIZE_def ACL_SIZE_def ACCESS_ALLOWED_ACE_SIZE_def

lemma check_allowed_in_bounds:
  assumes "region_start m \<le> a" "e \<le> region_end m"
  shows "check_allowed api m user leaf a e \<noteq> Inl Fault"
  using assms by (auto simp: check_allowed_def Let_def result_simps read_at_faults acl_sizes bind_eq_Some_conv)

lemma check_ace_in_bounds:
  assumes "acl_end \<le> region_end (acl_memory acl)"
  shows "check_ace api acl user leaf acl_end index \<noteq> Inl Fault"
proof -
  have "check_allowed api (acl_memory acl) user leaf a e \<noteq> Inl Fault"
    if "region_start (acl_memory acl) + 8 \<le> a" "e \<le> acl_end" for a e
    using check_allowed_in_bounds [of "acl_memory acl" a e] that assms by simp
  then show ?thesis
    using assms by (auto simp: check_ace_def Let_def result_simps read_at_faults acl_sizes split: if_splits)
qed

lemma part_of_prefix: "n + k \<le> m \<Longrightarrow> take n (drop k (take m s)) = take n (drop k s)"
  by (simp add: drop_take min_def)

text \<open>C15: if a list that the system calls valid is in memory as long as its head says, no entry of it, whatever it holds, makes
  the check read outside of the list.\<close>

theorem acl_reads_in_bounds:
  assumes "\<forall>s acl. info = Some s \<and> si_list s = Some acl \<and> acl_valid acl \<longrightarrow> list_in_memory acl"
  shows "check_acl api info user leaf \<noteq> Inl Fault"
proof
  assume "check_acl api info user leaf = Inl Fault"
  then obtain s acl where acl: "info = Some s" "si_list s = Some acl" "acl_valid acl" and
    rest: "and_then (read_at (acl_memory acl) (region_start (acl_memory acl)) ACL_SIZE) (\<lambda>head.
     and_then (overflow_free (addr_add (region_start (acl_memory acl)) (le_val (take 2 (drop 2 head))))) (\<lambda>acl_end.
     check_aces api acl user leaf acl_end [0..<le_val (take 2 (drop 4 head))])) = Inl Fault"
    by (auto simp: check_acl_def Let_def result_simps)
  have held: "list_in_memory acl" using assms acl by blast
  have "check_aces api acl user leaf e is \<noteq> Inl Fault" if "e \<le> region_end (acl_memory acl)" for e "is"
    using check_ace_in_bounds [OF that] by (induction "is") (auto simp: result_simps)
  then show False
    using rest held
    by (auto simp: result_simps read_at_faults list_in_memory_def Let_def ACL_SIZE_def part_of_prefix)
qed

section \<open>What is granted\<close>

text \<open>The entries that the system evaluates for the object: those that are not there to be inherited only.\<close>

datatype effective_ace = Allows u32 sid | Denies u32 sid

definition memory_slice :: "region \<Rightarrow> nat \<Rightarrow> nat \<Rightarrow> string" where
  "memory_slice m a n = take n (drop (a - region_start m) (region_bytes m))"

definition ace_mask :: "region \<Rightarrow> nat \<Rightarrow> u32" where
  "ace_mask m a = word_of_nat (le_val (memory_slice m (a + 4) 4))"

definition ace_sid :: "region \<Rightarrow> nat \<Rightarrow> sid" where
  "ace_sid m a = memory_slice m (a + 8) (8 + le_val (memory_slice m (a + 9) 1) * 4)"

definition effective_at :: "region \<Rightarrow> nat \<Rightarrow> effective_ace list" where
  "effective_at m a =
     (let ace_type = byte (memory_slice m a 2 ! 0); ace_flags = word_of_nat (byte (memory_slice m a 2 ! 1)) :: u8 in
      if ace_flags AND INHERIT_ONLY_ACE \<noteq> 0 then []
      else if ace_type = ACCESS_ALLOWED_ACE_TYPE then [Allows (ace_mask m a) (ace_sid m a)]
      else if ace_type = ACCESS_DENIED_ACE_TYPE then [Denies (ace_mask m a) (ace_sid m a)]
      else [])"

definition ace_count :: "access_list \<Rightarrow> nat" where
  "ace_count acl = le_val (memory_slice (acl_memory acl) (region_start (acl_memory acl) + 4) 2)"

definition effective_aces :: "access_list \<Rightarrow> effective_ace list" where
  "effective_aces acl =
     concat (map (\<lambda>i. case acl_entry acl i of None \<Rightarrow> [] | Some a \<Rightarrow> effective_at (acl_memory acl) a) [0..<ace_count acl])"

text \<open>The evaluation for a token with some identifiers, entry by entry: a right that was granted stays granted, and one
  that was denied stays denied.\<close>

fun access_check :: "sid set \<Rightarrow> effective_ace list \<Rightarrow> u32 \<times> u32 \<Rightarrow> u32 \<times> u32" where
  "access_check G [] (granted, denied) = (granted, denied)"
| "access_check G (Allows rights s # aces) (granted, denied) =
     access_check G aces (if s \<in> G then granted OR (rights AND NOT denied) else granted, denied)"
| "access_check G (Denies rights s # aces) (granted, denied) =
     access_check G aces (granted, if s \<in> G then denied OR (rights AND NOT granted) else denied)"

lemma no_bits: "x AND f = 0 \<Longrightarrow> m AND f = 0 \<Longrightarrow> (x OR (m AND NOT d)) AND f = (0 :: u32)"
  by (simp add: bit_eq_iff bit_simps) blast

lemma access_check_bits:
  assumes "\<forall>rights s. Allows rights s \<in> set aces \<and> s \<in> G \<longrightarrow> rights AND f = 0" "granted AND f = 0"
  shows "fst (access_check G aces (granted, denied)) AND f = 0"
  using assms
proof (induction G aces "(granted, denied)" arbitrary: granted denied rule: access_check.induct)
  case (2 G rights s aces granted denied)
  have "(if s \<in> G then granted OR (rights AND NOT denied) else granted) AND f = 0"
    using 2(2,3) no_bits [of granted f rights denied] by auto
  moreover have "\<forall>rights s. Allows rights s \<in> set aces \<and> s \<in> G \<longrightarrow> rights AND f = 0" using 2(2) by (meson list.set_intros(2))
  ultimately show ?case using 2(1) by simp
qed auto

lemma check_aces_each: "check_aces api acl user leaf e is = Inr () \<Longrightarrow> i \<in> set is \<Longrightarrow> check_ace api acl user leaf e i = Inr ()"
  by (induction "is") (auto simp: result_simps)


lemma check_allowed_Inr:
  assumes "check_allowed api m user leaf a e = Inr ()" "region_start m \<le> a"
  shows "ace_mask m a AND forbidden_rights leaf = 0 \<or> trusted_grantee api (ace_sid m a) user"
proof -
  have at: "a + 4 - region_start m = 4 + a - region_start m" "a + 9 - region_start m = 9 + a - region_start m"
      "a + 8 - region_start m = 8 + a - region_start m"
    by simp_all
  from assms show ?thesis
    by (auto simp: check_allowed_def Let_def result_simps acl_sizes bind_eq_Some_conv ace_mask_def ace_sid_def
        memory_slice_def part_of_prefix at)
qed

lemma checked_entry:
  assumes "check_ace api acl user leaf e i = Inr ()" "acl_entry acl i = Some a"
    "Allows rights s \<in> set (effective_at (acl_memory acl) a)"
  shows "rights AND forbidden_rights leaf = 0 \<or> trusted_grantee api s user"
proof -
  have entry: "rights = ace_mask (acl_memory acl) a" "s = ace_sid (acl_memory acl) a"
    using assms(3) by (auto simp: effective_at_def Let_def split: if_splits)
  have "\<exists>e'. check_allowed api (acl_memory acl) user leaf a e' = Inr () \<and> region_start (acl_memory acl) \<le> a"
    using assms
    by (auto simp: check_ace_def Let_def result_simps effective_at_def memory_slice_def acl_sizes
        ACCESS_ALLOWED_ACE_TYPE_def ACCESS_DENIED_ACE_TYPE_def split: if_splits)
  then show ?thesis using check_allowed_Inr entry by blast
qed

text \<open>C14: if an object passes, no token without a trusted identifier is granted a right to change it, whatever groups it has
  and in whatever order the entries come, and the owner, who may change the list, is trusted.\<close>

theorem acl_check_sound:
  assumes "check_acl api (Some \<lparr>si_owner = owner, si_list = Some acl\<rparr>) user leaf = Inr ()"
    "\<forall>s \<in> G. \<not> trusted_grantee api s user"
  shows "fst (access_check G (effective_aces acl) (0, 0)) AND forbidden_rights leaf = 0 \<and>
    (\<exists>s. owner = Some s \<and> sid_ok api s \<and> trusted_owner api s user)"
proof
  from assms(1) obtain e where "ACL_SIZE \<le> length (region_bytes (acl_memory acl))"
      "check_aces api acl user leaf e [0..<le_val (take 2 (drop 4 (take 8 (region_bytes (acl_memory acl)))))] = Inr ()"
    by (auto simp: check_acl_def Let_def result_simps acl_sizes)
  then have checked: "check_aces api acl user leaf e [0..<ace_count acl] = Inr ()"
    by (simp add: part_of_prefix ace_count_def memory_slice_def)
  have "rights AND forbidden_rights leaf = 0" if "Allows rights s \<in> set (effective_aces acl)" "s \<in> G" for rights s
  proof -
    from that(1) obtain i a where i: "i < ace_count acl" "Some a = acl_entry acl i"
        "Allows rights s \<in> set (effective_at (acl_memory acl) a)"
      by (auto simp: effective_aces_def)
    with check_aces_each [OF checked, of i] checked_entry [OF _ i(2) [symmetric] i(3)] assms(2) that(2) show ?thesis by fastforce
  qed
  then show "fst (access_check G (effective_aces acl) (0, 0)) AND forbidden_rights leaf = 0"
    by (intro access_check_bits) auto
  show "\<exists>s. owner = Some s \<and> sid_ok api s \<and> trusted_owner api s user"
    using assms(1) by (auto simp: check_acl_def result_simps)
qed


section \<open>The chain of directories\<close>

datatype chain_error =
    NotLocalDrive
  | LauncherUnknown process_error
  | DirectoryUnopened io_kind
  | DirectoryNotPlain
  | UnsafeDirectory "acl_error raw_error"

text \<open>The calls on a handle of a directory: whether it is a directory and not a reparse point, and its owner and list.\<close>

record directory_calls =
  dc_open :: "nat \<Rightarrow> path \<Rightarrow> (io_kind, nat) result"
  dc_plain :: "nat \<Rightarrow> nat \<Rightarrow> bool"
  dc_security :: "nat \<Rightarrow> nat \<Rightarrow> security_info option"

type_synonym 'a chain_program = "(handle_action, (chain_error, 'a) result) program"

text \<open>A drive letter with a colon, which may follow the prefix for verbatim paths.\<close>

definition is_drive :: "string \<Rightarrow> bool" where
  "is_drive s =
     (let d = (if take 4 s = [CHR 0x5C, CHR 0x5C, CHR ''?'', CHR 0x5C] then drop 4 s else s) in
      length d = 2 \<and> d ! 1 = CHR '':'' \<and> (let b = byte (d ! 0) in 65 \<le> b \<and> b \<le> 90 \<or> 97 \<le> b \<and> b \<le> 122))"

fun on_local_drive :: "path \<Rightarrow> bool" where
  "on_local_drive (PrefixDir drive # RootDir # rest) = is_drive drive"
| "on_local_drive path = False"

fun close_each :: "nat list \<Rightarrow> (handle_action, unit) program" where
  "close_each [] = done_with ()"
| "close_each (handle # handles) = and_next (close_token handle) (\<lambda>_. close_each handles)"

definition closing :: "nat list \<Rightarrow> (chain_error, 'a) result \<Rightarrow> 'a chain_program" where
  "closing handles r = and_next (close_each handles) (\<lambda>_. done_with r)"

text \<open>The directories from the root on; those that were checked are held open.\<close>

fun walk_chain :: "acl_api \<Rightarrow> directory_calls \<Rightarrow> sid \<Rightarrow> nat list \<Rightarrow> path list \<Rightarrow> unit chain_program" where
  "walk_chain api dc user held [] = closing held (Inr ())"
| "walk_chain api dc user held (directory # below) =
     and_next (act_got HandleOpened (\<lambda>t. dc_open dc t directory)) (\<lambda>r.
     case r of
       Inl e \<Rightarrow> closing held (Inl (DirectoryUnopened e))
     | Inr opened \<Rightarrow>
     and_next (ask (\<lambda>t. dc_plain dc t opened)) (\<lambda>plain.
     if \<not> plain then closing (opened # held) (Inl DirectoryNotPlain) else
     and_next (ask (\<lambda>t. check_acl api (dc_security dc t opened) user (below = []))) (\<lambda>r.
     case r of
       Inl e \<Rightarrow> closing (opened # held) (Inl (UnsafeDirectory e))
     | Inr _ \<Rightarrow> walk_chain api dc user (held @ [opened]) below)))"

definition win_trusted_directory_chain ::
    "acl_api \<Rightarrow> directory_calls \<Rightarrow> (process_error, sid) result \<Rightarrow> path \<Rightarrow> unit chain_program" where
  "win_trusted_directory_chain api dc launcher path =
     if_ok (done_with (ensure (on_local_drive path) NotLocalDrive)) (\<lambda>e. e) (\<lambda>_.
     if_ok (done_with launcher) LauncherUnknown (\<lambda>user.
     walk_chain api dc user [] (rev (ancestors path))))"

definition check_trusted_file_acl :: "acl_api \<Rightarrow> security_info option \<Rightarrow> (process_error, sid) result \<Rightarrow> (chain_error, unit) result"
where
  "check_trusted_file_acl api info launcher =
     and_then (map_err LauncherUnknown launcher) (\<lambda>user. map_err UnsafeDirectory (check_acl api info user True))"

lemma wp_close_each: "wp handle_step (close_each handles) (\<lambda>r s'. s' = s - set handles) s"
proof (induction handles arbitrary: s)
  case (Cons handle handles)
  have "wp handle_step (close_each handles) (\<lambda>r s'. s' = s - set (handle # handles)) (s - {handle})"
    by (rule wp_mono [OF Cons]) auto
  then show ?case by (auto intro!: wp_intros)
qed (auto intro!: wp_intros)

lemma wp_closing [wp_intros]: "Q r (s - set handles) \<Longrightarrow> wp handle_step (closing handles r) Q s"
  unfolding closing_def by (auto intro!: wp_intros wp_mono [OF wp_close_each])

lemma wp_walk: "wp handle_step (walk_chain api dc user held paths) (\<lambda>r s'. s' = {}) (set held)"
proof (induction paths arbitrary: held)
  case Nil
  then show ?case by (auto intro!: wp_intros)
next
  case (Cons directory below)
  have "wp handle_step (walk_chain api dc user (held @ [h]) below) (\<lambda>r s'. s' = {}) (insert h (set held))" for h
    using Cons [of "held @ [h]"] by simp
  then show ?case by (auto intro!: wp_intros wp_sum)
qed

theorem chain_closes_handles:
  assumes "win_trusted_directory_chain api dc launcher path t = (l, t', r)"
  shows "replay handle_step l {} = {}"
proof -
  have "wp handle_step (win_trusted_directory_chain api dc launcher path) (\<lambda>r s. s = {}) {}"
    unfolding win_trusted_directory_chain_def using wp_walk [of api dc _ "[]"] by (auto intro!: wp_intros)
  from wpD [OF this assms] show ?thesis .
qed


text \<open>A check that succeeds has opened every directory of the chain, seen that it is plain, and then found its list safe,
  the last one as the protected one, before any of them was closed.\<close>

definition directory_checked :: "acl_api \<Rightarrow> directory_calls \<Rightarrow> sid \<Rightarrow> path \<Rightarrow> bool \<Rightarrow>
    handle_action action_log \<Rightarrow> nat \<Rightarrow> nat \<Rightarrow> bool" where
  "directory_checked api dc user directory leaf l t t' =
     (\<exists>a h. t \<le> a \<and> a + 2 < t' \<and> (a, HandleOpened h) \<in> set l \<and> dc_open dc a directory = Inr h \<and> dc_plain dc (a + 1) h \<and>
        check_acl api (dc_security dc (a + 2) h) user leaf = Inr ())"

lemma directory_checked_mono:
  "\<lbrakk>directory_checked api dc user d leaf l t t'; set l \<subseteq> set l'; u \<le> t; t' \<le> u'\<rbrakk> \<Longrightarrow>
     directory_checked api dc user d leaf l' u u'"
  unfolding directory_checked_def by (meson le_trans less_le_trans subsetD)

lemma close_each_log: "close_each handles t = (l, t', u) \<Longrightarrow> \<forall>(w, f) \<in> set l. t \<le> w"
proof -
  have "progresses (close_each handles)"
    by (induction handles) (auto intro!: progress_intros simp: close_token_def)
  then show "close_each handles t = (l, t', u) \<Longrightarrow> \<forall>(w, f) \<in> set l. t \<le> w"
    by (auto dest!: progressesD)
qed

lemma walk_chain_Inr:
  assumes "walk_chain api dc user held paths t = (l, t', Inr u)"
  shows "\<exists>s \<ge> t. (\<forall>i < length paths. directory_checked api dc user (paths ! i) (Suc i = length paths) l t s) \<and>
    (\<forall>w h. (w, HandleClosed h) \<in> set l \<longrightarrow> s \<le> w)"
  using assms
proof (induction paths arbitrary: held t l)
  case Nil
  then show ?case by (auto simp: closing_def and_next_eq done_with_eq dest!: close_each_log intro!: exI [of _ t])
next
  case (Cons d below)
  from Cons.prems obtain h l1 where h: "dc_open dc t d = Inr h" "dc_plain dc (Suc t) h"
      "check_acl api (dc_security dc (Suc (Suc t)) h) user (below = []) = Inr ()"
      "walk_chain api dc user (held @ [h]) below (Suc (Suc (Suc t))) = (l1, t', Inr u)" "l = (t, HandleOpened h) # l1"
    by (auto simp: and_next_eq act_got_eq ask_eq closing_def done_with_eq split: sum.splits if_splits)
  from Cons.IH [OF h(4)] obtain s where s: "s \<ge> Suc (Suc (Suc t))"
      "\<forall>i < length below. directory_checked api dc user (below ! i) (Suc i = length below) l1 (Suc (Suc (Suc t))) s"
      "\<forall>w h. (w, HandleClosed h) \<in> set l1 \<longrightarrow> s \<le> w" by blast
  have "directory_checked api dc user ((d # below) ! i) (Suc i = length (d # below)) l t s" if "i < length (d # below)" for i
  proof (cases i)
    case 0
    then show ?thesis using h s(1) unfolding directory_checked_def by (intro exI [of _ t] exI [of _ h]) auto
  next
    case (Suc j)
    with that s(2) have "directory_checked api dc user (below ! j) (Suc j = length below) l1 (Suc (Suc (Suc t))) s" by simp
    then show ?thesis using Suc h(5) by (auto elim!: directory_checked_mono)
  qed
  then show ?case using s(1,3) h(5) by (intro exI [of _ s]) auto
qed

theorem directory_chain_sound:
  assumes "win_trusted_directory_chain api dc launcher path t = (l, t', Inr ())"
  shows "on_local_drive path \<and> last (rev (ancestors path)) = path \<and> (\<exists>user s. launcher = Inr user \<and>
    (\<forall>i < length (rev (ancestors path)).
       directory_checked api dc user (rev (ancestors path) ! i) (Suc i = length (rev (ancestors path))) l t s) \<and>
    (\<forall>w h. (w, HandleClosed h) \<in> set l \<longrightarrow> s \<le> w))"
proof -
  from assms obtain user where run: "on_local_drive path" "launcher = Inr user"
      "walk_chain api dc user [] (rev (ancestors path)) t = (l, t', Inr ())"
    by (auto simp: win_trusted_directory_chain_def if_ok_eq done_with_eq ensure_def split: if_splits)
  have "last (rev (ancestors path)) = path" by (simp add: last_rev ancestors.simps [of path])
  with walk_chain_Inr [OF run(3)] run(1,2) show ?thesis by blast
qed


section \<open>An example\<close>

text \<open>A list with one entry, which grants the user everything, and one that grants a group the right to read.\<close>

definition example_sid :: "nat \<Rightarrow> sid" where
  "example_sid n = octets [1, 1, 0, 0, 0, 0, 0, 5, n, 0, 0, 0]"

definition example_list :: access_list where
  "example_list = \<lparr>
     acl_memory = \<lparr>region_start = 4096, region_bytes =
       octets [2, 0, 48, 0, 2, 0, 0, 0] @
       octets [0, 0, 20, 0, 0, 0, 0, 16] @ example_sid 7 @
       octets [0, 0, 20, 0, 1, 0, 0, 0] @ example_sid 9\<rparr>,
     acl_valid = True,
     acl_entry = (\<lambda>i. if i < 2 then Some (4104 + 20 * i) else None)\<rparr>"

definition example_principals :: acl_api where
  "example_principals = \<lparr>sid_ok = (\<lambda>s. True), sid_len = length, sid_same = (=), sid_system = (\<lambda>s. False),
     sid_administrators = (\<lambda>s. False), sid_creator_owner = (\<lambda>s. False), sid_installer = None\<rparr>"

lemmas example_list_simps = example_list_def example_sid_def octets_def example_principals_def read_at_def le_val_def
  addr_add_def addr_mul_def ok_or_def ensure_def acl_sizes ACCESS_ALLOWED_ACE_TYPE_def ACCESS_DENIED_ACE_TYPE_def
  INHERIT_ONLY_ACE_def trusted_grantee_def trusted_owner_def same_user_def is_trusted_installer_def

lemma example_rights: "1 AND forbidden_rights True = 0"
  by code_simp

lemma example_entries:
  "check_ace example_principals example_list (example_sid 7) True 4144 0 = Inr ()"
  "check_ace example_principals example_list (example_sid 7) True 4144 1 = Inr ()"
  by (simp_all add: check_ace_def check_allowed_def Let_def example_list_simps example_rights)

lemma example_checked:
  "check_acl example_principals (Some \<lparr>si_owner = Some (example_sid 7), si_list = Some example_list\<rparr>) (example_sid 7) True = Inr ()"
  using example_entries by (simp add: check_acl_def Let_def example_list_simps upt_rec)

lemma example_untrusted: "\<not> trusted_grantee example_principals (example_sid 9) (example_sid 7)"
  by code_simp

theorem acl_check_sound_witness:
  "fst (access_check {example_sid 9} (effective_aces example_list) (0, 0)) AND forbidden_rights True = 0"
  using acl_check_sound [OF example_checked, of "{example_sid 9}"] example_untrusted by simp

theorem acl_reads_in_bounds_witness:
  "check_acl example_principals (Some \<lparr>si_owner = Some (example_sid 7), si_list = Some example_list\<rparr>) (example_sid 9) True
     \<noteq> Inl Fault"
proof (rule acl_reads_in_bounds)
  have "list_in_memory example_list" by (simp add: list_in_memory_def example_list_simps)
  then show "\<forall>s acl. Some \<lparr>si_owner = Some (example_sid 7), si_list = Some example_list\<rparr> = Some s \<and>
      si_list s = Some acl \<and> acl_valid acl \<longrightarrow> list_in_memory acl" by simp
qed

end
