(* ===== verification/Pipe_Frames.thy ===== *)
theory Pipe_Frames
  imports Effects Frames
begin

text \<open>
  Named pipes with overlapped operations, the lower half of \<^verbatim>\<open>src/broker/windows.rs\<close>.  An operation that
  is pending uses its event and the memory of its caller until it has ended, so the log tells when one starts and ends,
  and when an event or a pipe is closed.  A program that is still waiting when its rounds are used up has no value.
\<close>

section \<open>Calls\<close>

datatype win_error = BrokenPipe | IoPending | OperationAborted | PipeBusy | PipeConnected | OtherError u32

datatype win_wait = WaitSignaled | WaitTimeout | WaitFailed | WaitOther

datatype pipe_error =
    PipeEof
  | PipeBroken
  | PipeTimedOut
  | PipeInterrupted
  | PipeInvalidLength
  | PipeWriteZero
  | PipeTrailing
  | PipeUnexpectedWait
  | PipeUnserialized
  | PipeOs win_error

text \<open>A call that fails gives its error code; a clock is in nanoseconds, a wait in milliseconds.\<close>

record pipe_calls =
  pc_event :: "nat \<Rightarrow> (win_error, nat) result"
  pc_read :: "nat \<Rightarrow> nat \<Rightarrow> nat \<Rightarrow> (win_error, string) result"
  pc_read_result :: "nat \<Rightarrow> (win_error, string) result"
  pc_write :: "nat \<Rightarrow> nat \<Rightarrow> string \<Rightarrow> (win_error, nat) result"
  pc_write_result :: "nat \<Rightarrow> (win_error, nat) result"
  pc_wait :: "nat \<Rightarrow> nat \<Rightarrow> nat \<Rightarrow> win_wait"
  pc_last_error :: "nat \<Rightarrow> win_error"
  pc_now :: "nat \<Rightarrow> nat"
  pc_shutdown :: "nat \<Rightarrow> bool"
  pc_peek :: "nat \<Rightarrow> nat \<Rightarrow> (win_error, nat) result"
  pc_connect :: "nat \<Rightarrow> nat \<Rightarrow> (win_error, unit) result"
  pc_connect_result :: "nat \<Rightarrow> (win_error, unit) result"

text \<open>How long a program watches: until a deadline, and whether it looks at the shutdown.\<close>

record watch =
  watch_deadline :: nat
  watch_shutdown :: bool

datatype pipe_action =
    EventMade nat
  | EventClosed nat
  | OperationStarted nat
  | OperationEnded nat
  | WriteOffered string
  | PipeMade nat
  | PipeClosed nat
  | PipeDisconnected nat

type_synonym 'a pipe_program = "(pipe_action, (pipe_error, 'a) result option) program"

definition awaits :: "('f, ('e, 'a) result option) program \<Rightarrow> ('a \<Rightarrow> ('f, ('e, 'b) result option) program)
    \<Rightarrow> ('f, ('e, 'b) result option) program" where
  "awaits m k = and_next m (\<lambda>r. case r of None \<Rightarrow> done_with None | Some (Inl e) \<Rightarrow> fails e | Some (Inr x) \<Rightarrow> k x)"

section \<open>An operation\<close>

text \<open>A call that starts an operation: it is pending only if the call says so.\<close>

definition submit :: "nat \<Rightarrow> (nat \<Rightarrow> (win_error, 'a) result) \<Rightarrow> (pipe_action, (win_error, 'a) result) program" where
  "submit ev f = (\<lambda>t. (if f t = Inl IoPending then [(t, OperationStarted ev)] else [], Suc t, f t))"

text \<open>\<^verbatim>\<open>OverlappedOperation::cancel\<close> waits until the operation has ended.\<close>

definition cancel :: "nat \<Rightarrow> (pipe_action, unit) program" where
  "cancel ev = act (OperationEnded ev) (\<lambda>t. ())"

definition cancelled :: "nat \<Rightarrow> pipe_error \<Rightarrow> 'a pipe_program" where
  "cancelled ev e = and_next (cancel ev) (\<lambda>_. fails e)"

definition completion_error :: "win_error \<Rightarrow> pipe_error" where
  "completion_error e =
     (if e = OperationAborted then PipeInterrupted else if e = BrokenPipe then PipeEof else PipeOs e)"

definition wait_time :: "nat \<Rightarrow> nat" where
  "wait_time remaining = max 1 (min 50 (remaining div 1000000))"

fun overlapped_complete :: "pipe_calls \<Rightarrow> watch \<Rightarrow> nat \<Rightarrow> (nat \<Rightarrow> (win_error, 'a) result) \<Rightarrow> nat \<Rightarrow> 'a pipe_program" where
  "overlapped_complete pc w ev ending 0 = done_with None"
| "overlapped_complete pc w ev ending (Suc rounds) =
     and_next (ask (\<lambda>t. watch_shutdown w \<and> pc_shutdown pc t)) (\<lambda>stopped.
     if stopped then cancelled ev PipeInterrupted else
     and_next (ask (\<lambda>t. watch_deadline w - pc_now pc t)) (\<lambda>remaining.
     if remaining = 0 then cancelled ev PipeTimedOut else
     and_next (ask (\<lambda>t. pc_wait pc t ev (wait_time remaining))) (\<lambda>waited.
     case waited of
       WaitSignaled \<Rightarrow> orfail (act (OperationEnded ev) ending) completion_error returns
     | WaitTimeout \<Rightarrow> overlapped_complete pc w ev ending rounds
     | WaitFailed \<Rightarrow> and_next (cancel ev) (\<lambda>_. and_next (ask (pc_last_error pc)) (\<lambda>e. fails (PipeOs e)))
     | WaitOther \<Rightarrow> cancelled ev PipeUnexpectedWait)))"

text \<open>An operation has an event of its own, which is closed when it is dropped.\<close>

definition with_event :: "pipe_calls \<Rightarrow> (nat \<Rightarrow> 'a pipe_program) \<Rightarrow> 'a pipe_program" where
  "with_event pc body =
     orfail (act_got EventMade (pc_event pc)) PipeOs (\<lambda>ev.
     and_next (body ev) (\<lambda>r.
     case r of None \<Rightarrow> done_with None | Some x \<Rightarrow> and_next (act (EventClosed ev) (\<lambda>t. ())) (\<lambda>_. done_with (Some x))))"

definition transfer :: "pipe_calls \<Rightarrow> watch \<Rightarrow> nat \<Rightarrow> nat \<Rightarrow> pipe_error \<Rightarrow>
    (nat \<Rightarrow> (win_error, 'a) result) \<Rightarrow> (nat \<Rightarrow> (win_error, 'a) result) \<Rightarrow> 'a pipe_program" where
  "transfer pc w rounds ev broken start ending =
     and_next (submit ev start) (\<lambda>r.
     case r of
       Inr x \<Rightarrow> returns x
     | Inl e \<Rightarrow>
         if e = IoPending then overlapped_complete pc w ev ending rounds
         else fails (if e = BrokenPipe then broken else PipeOs e))"

section \<open>Frames\<close>

text \<open>Each turn of a loop moves at least one byte, so there are no more turns than bytes.\<close>

fun pipe_read_loop :: "pipe_calls \<Rightarrow> watch \<Rightarrow> nat \<Rightarrow> nat \<Rightarrow> nat \<Rightarrow> nat \<Rightarrow> nat \<Rightarrow> string \<Rightarrow> string pipe_program" where
  "pipe_read_loop pc w rounds pipe ev turns 0 acc = returns acc"
| "pipe_read_loop pc w rounds pipe ev 0 (Suc n) acc = done_with None"
| "pipe_read_loop pc w rounds pipe ev (Suc turns) (Suc n) acc =
     awaits (transfer pc w rounds ev PipeEof (\<lambda>t. pc_read pc t pipe (Suc n)) (pc_read_result pc)) (\<lambda>got.
     let s = take (Suc n) got in
     if s = [] then fails PipeEof
     else pipe_read_loop pc w rounds pipe ev turns (Suc n - length s) (acc @ s))"

definition pipe_read_exact :: "pipe_calls \<Rightarrow> watch \<Rightarrow> nat \<Rightarrow> nat \<Rightarrow> nat \<Rightarrow> string pipe_program" where
  "pipe_read_exact pc w rounds pipe n = with_event pc (\<lambda>ev. pipe_read_loop pc w rounds pipe ev n n [])"

fun pipe_write_loop :: "pipe_calls \<Rightarrow> watch \<Rightarrow> nat \<Rightarrow> nat \<Rightarrow> nat \<Rightarrow> nat \<Rightarrow> string \<Rightarrow> unit pipe_program" where
  "pipe_write_loop pc w rounds pipe ev turns [] = returns ()"
| "pipe_write_loop pc w rounds pipe ev 0 (c # bytes) = done_with None"
| "pipe_write_loop pc w rounds pipe ev (Suc turns) (c # bytes) =
     and_next (act (WriteOffered (c # bytes)) (\<lambda>t. ())) (\<lambda>_.
     awaits (transfer pc w rounds ev PipeBroken (\<lambda>t. pc_write pc t pipe (c # bytes)) (pc_write_result pc)) (\<lambda>n.
     if n = 0 then fails PipeWriteZero
     else pipe_write_loop pc w rounds pipe ev turns (drop n (c # bytes))))"

definition pipe_write_all :: "pipe_calls \<Rightarrow> watch \<Rightarrow> nat \<Rightarrow> nat \<Rightarrow> string \<Rightarrow> unit pipe_program" where
  "pipe_write_all pc w rounds pipe bytes =
     with_event pc (\<lambda>ev. pipe_write_loop pc w rounds pipe ev (length bytes) bytes)"

definition pipe_read_frame :: "pipe_calls \<Rightarrow> watch \<Rightarrow> nat \<Rightarrow> nat \<Rightarrow> nat \<Rightarrow> string pipe_program" where
  "pipe_read_frame pc w rounds pipe maximum =
     awaits (pipe_read_exact pc w rounds pipe 4) (\<lambda>header.
     let len = unat (from_be_bytes header) in
     if len = 0 \<or> maximum < len then fails PipeInvalidLength else pipe_read_exact pc w rounds pipe len)"

definition pipe_write_frame :: "pipe_calls \<Rightarrow> watch \<Rightarrow> nat \<Rightarrow> nat \<Rightarrow> string \<Rightarrow> nat \<Rightarrow> unit pipe_program" where
  "pipe_write_frame pc w rounds pipe bytes maximum =
     (if bytes = [] \<or> maximum < length bytes then fails PipeInvalidLength
      else if 2 ^ 32 \<le> length bytes then fails PipeInvalidLength
      else awaits (pipe_write_all pc w rounds pipe (to_be_bytes (word_of_nat (length bytes)))) (\<lambda>_.
        pipe_write_all pc w rounds pipe bytes))"

definition pipe_no_trailing_data :: "pipe_calls \<Rightarrow> nat \<Rightarrow> (pipe_action, (pipe_error, unit) result) program" where
  "pipe_no_trailing_data pc pipe =
     and_next (ask (\<lambda>t. pc_peek pc t pipe)) (\<lambda>r.
     done_with (case r of
       Inl e \<Rightarrow> if e = BrokenPipe then Inr () else Inl (PipeOs e)
     | Inr available \<Rightarrow> if 0 < available then Inl PipeTrailing else Inr ()))"

section \<open>Waiting for a client\<close>

fun connect_wait :: "pipe_calls \<Rightarrow> nat \<Rightarrow> nat \<Rightarrow> bool pipe_program" where
  "connect_wait pc ev 0 = done_with None"
| "connect_wait pc ev (Suc rounds) =
     and_next (ask (pc_shutdown pc)) (\<lambda>stopped.
     if stopped then and_next (cancel ev) (\<lambda>_. returns False) else
     and_next (ask (\<lambda>t. pc_wait pc t ev 50)) (\<lambda>waited.
     case waited of
       WaitSignaled \<Rightarrow>
         and_next (act (OperationEnded ev) (pc_connect_result pc)) (\<lambda>r.
         if r = Inr () \<or> r = Inl PipeConnected then returns True
         else case r of Inl e \<Rightarrow> fails (PipeOs e) | Inr _ \<Rightarrow> returns True)
     | WaitTimeout \<Rightarrow> connect_wait pc ev rounds
     | WaitFailed \<Rightarrow> and_next (cancel ev) (\<lambda>_. and_next (ask (pc_last_error pc)) (\<lambda>e. fails (PipeOs e)))
     | WaitOther \<Rightarrow> fails PipeUnexpectedWait))"

definition wait_for_connection :: "pipe_calls \<Rightarrow> nat \<Rightarrow> nat \<Rightarrow> bool pipe_program" where
  "wait_for_connection pc rounds pipe =
     with_event pc (\<lambda>ev.
     and_next (submit ev (\<lambda>t. pc_connect pc t pipe)) (\<lambda>r.
     case r of
       Inr _ \<Rightarrow> returns True
     | Inl e \<Rightarrow>
         if e = PipeConnected then returns True
         else if e \<noteq> IoPending then fails (PipeOs e)
         else connect_wait pc ev rounds))"


section \<open>No operation outlives its memory\<close>

lemma wp_awaits:
  "wp step m (\<lambda>r s. (r = None \<longrightarrow> Q None s) \<and> (\<forall>e. r = Some (Inl e) \<longrightarrow> Q (Some (Inl e)) s) \<and>
     (\<forall>x. r = Some (Inr x) \<longrightarrow> wp step (k x) Q s)) s \<Longrightarrow> wp step (awaits m k) Q s"
  unfolding awaits_def fails_def
  by (rule wp_next, erule wp_mono) (auto intro: wp_done split: option.splits sum.splits)

lemma wp_submit [wp_intros]:
  "\<lbrakk>\<And>t. f t = Inl IoPending \<Longrightarrow> Q (Inl IoPending) (step (OperationStarted ev) s);
    \<And>t r. \<lbrakk>f t = r; r \<noteq> Inl IoPending\<rbrakk> \<Longrightarrow> Q r s\<rbrakk> \<Longrightarrow> wp step (submit ev f) Q s"
  by (auto simp: wp_at_def submit_def)

text \<open>The operations that are pending, the events that are open, and whether all was in order: an operation starts with
  an open event that has none pending, and an event is closed only when nothing is pending on it.\<close>

type_synonym io_state = "nat set \<times> nat set \<times> bool"

fun io_step :: "pipe_action \<Rightarrow> io_state \<Rightarrow> io_state" where
  "io_step (EventMade ev) (pending, events, ok) = (pending, insert ev events, ok)"
| "io_step (EventClosed ev) (pending, events, ok) = (pending, events - {ev}, ok \<and> ev \<in> events \<and> ev \<notin> pending)"
| "io_step (OperationStarted ev) (pending, events, ok) = (insert ev pending, events, ok \<and> ev \<in> events \<and> ev \<notin> pending)"
| "io_step (OperationEnded ev) (pending, events, ok) = (pending - {ev}, events, ok \<and> ev \<in> pending)"
| "io_step _ s = s"

definition in_order :: "io_state \<Rightarrow> 'a option \<Rightarrow> io_state \<Rightarrow> bool" where
  "in_order s0 r s = (snd (snd s) \<and> (r \<noteq> None \<longrightarrow> s = s0))"

lemma in_order_simps [simp]:
  "in_order s0 (Some x) s = (snd (snd s) \<and> s = s0)" "in_order s0 None s = snd (snd s)"
  by (auto simp: in_order_def)

abbreviation idle :: "nat \<Rightarrow> io_state" where
  "idle ev \<equiv> ({}, {ev}, True)"

abbreviation at_rest :: io_state where
  "at_rest \<equiv> ({}, {}, True)"

lemma wp_cancel [wp_intros]: "Q () (io_step (OperationEnded ev) s) \<Longrightarrow> wp io_step (cancel ev) Q s"
  unfolding cancel_def by (rule wp_act) simp

lemma wp_complete: "wp io_step (overlapped_complete pc w ev ending rounds) (in_order (idle ev)) ({ev}, {ev}, True)"
proof (induction rounds)
  case 0
  then show ?case by (auto intro!: wp_intros)
next
  case (Suc rounds)
  then show ?case by (auto simp: cancelled_def intro!: wp_intros split: win_wait.splits)
qed

lemma wp_transfer: "wp io_step (transfer pc w rounds ev broken start ending) (in_order (idle ev)) (idle ev)"
  unfolding transfer_def by (auto intro!: wp_intros wp_complete split: sum.splits)


lemma wp_in_order:
  assumes "wp io_step m (in_order s0) s" "snd (snd s0)"
    "\<And>s. snd (snd s) \<Longrightarrow> Q None s" "\<And>e. Q (Some (Inl e)) s0" "\<And>x. Q (Some (Inr x)) s0"
  shows "wp io_step m Q s"
  using assms(1)
proof (rule wp_mono, goal_cases)
  case (1 r s)
  then show ?case using assms(2-5) by (cases r; cases "the r") auto
qed

lemma wp_awaits_in_order:
  assumes "wp io_step m (in_order s0) s" "snd (snd s0)" "\<And>x. wp io_step (k x) (in_order s0) s0"
  shows "wp io_step (awaits m k) (in_order s0) s"
  by (rule wp_awaits, rule wp_in_order [OF assms(1,2)]) (use assms in auto)

lemma wp_with_event:
  assumes "\<And>ev. wp io_step (body ev) (in_order (idle ev)) (idle ev)"
  shows "wp io_step (with_event pc body) (in_order at_rest) at_rest"
  unfolding with_event_def
  by (auto intro!: wp_intros wp_in_order [OF assms])

lemma wp_read_loop: "wp io_step (pipe_read_loop pc w rounds pipe ev turns n acc) (in_order (idle ev)) (idle ev)"
  by (induction pc w rounds pipe ev turns n acc rule: pipe_read_loop.induct)
    (auto intro!: wp_intros wp_awaits_in_order wp_transfer simp: Let_def)

lemma wp_write_loop: "wp io_step (pipe_write_loop pc w rounds pipe ev turns bytes) (in_order (idle ev)) (idle ev)"
  by (induction pc w rounds pipe ev turns bytes rule: pipe_write_loop.induct)
    (auto intro!: wp_intros wp_awaits_in_order wp_transfer)

lemma wp_read_frame: "wp io_step (pipe_read_frame pc w rounds pipe maximum) (in_order at_rest) at_rest"
  unfolding pipe_read_frame_def pipe_read_exact_def Let_def
  by (auto intro!: wp_awaits_in_order wp_with_event wp_read_loop wp_intros)

lemma wp_write_frame: "wp io_step (pipe_write_frame pc w rounds pipe bytes maximum) (in_order at_rest) at_rest"
  unfolding pipe_write_frame_def pipe_write_all_def
  by (auto intro!: wp_awaits_in_order wp_with_event wp_write_loop wp_intros)

text \<open>C19: each frame that is read or written, however its operations end, leaves no operation that still uses memory or
  an event of the caller, and no open event.\<close>

theorem frames_leave_no_operation:
  "(case pipe_read_frame pc w rounds pipe maximum t of (l, t', r) \<Rightarrow> in_order at_rest r (replay io_step l at_rest)) \<and>
   (case pipe_write_frame pc w rounds pipe bytes maximum t of (l, t', r) \<Rightarrow> in_order at_rest r (replay io_step l at_rest))"
  using wpD [OF wp_read_frame] wpD [OF wp_write_frame] by (auto split: prod.splits)

lemma wp_connect_wait:
  assumes "\<And>t ev ms. pc_wait pc t ev ms \<noteq> WaitOther"
  shows "wp io_step (connect_wait pc ev rounds) (in_order (idle ev)) ({ev}, {ev}, True)"
  by (induction rounds) (auto intro!: wp_intros simp: assms split: win_wait.splits sum.splits)

text \<open>So does the wait for a client, if a wait for an event ends as the system says; this wait alone does not cancel its
  operation when it ends otherwise.\<close>

theorem connection_leaves_no_operation:
  assumes "\<forall>t ev ms. pc_wait pc t ev ms \<noteq> WaitOther" "wait_for_connection pc rounds pipe t = (l, t', r)"
  shows "snd (snd (replay io_step l at_rest)) \<and> (r \<noteq> None \<longrightarrow> replay io_step l at_rest = at_rest)"
proof -
  have "wp io_step (wait_for_connection pc rounds pipe) (in_order at_rest) at_rest"
    unfolding wait_for_connection_def
    using assms(1) by (intro wp_with_event) (auto intro!: wp_intros wp_connect_wait split: sum.splits)
  from wpD [OF this assms(2)] show ?thesis by (simp add: in_order_def)
qed


section \<open>The deadline ends every frame\<close>

text \<open>The clock has reached the deadline at every call from some call on.\<close>

definition expires :: "pipe_calls \<Rightarrow> watch \<Rightarrow> nat \<Rightarrow> bool" where
  "expires pc w T = (\<forall>u \<ge> T. watch_deadline w \<le> pc_now pc u)"

definition ends :: "('f, 'a option) program \<Rightarrow> bool" where
  "ends m = (\<forall>t l t' r. m t = (l, t', r) \<longrightarrow> r \<noteq> None)"

named_theorems ends_intros "programs that have a value"

lemma ends_basic [ends_intros]: "ends (fails e)" "ends (returns x)" "ends (done_with (Some y))"
  by (auto simp: ends_def fails_def returns_def done_with_def)

lemma ends_next [ends_intros]: "(\<And>x. ends (k x)) \<Longrightarrow> ends (and_next m k)"
  unfolding ends_def and_next_eq by metis

lemma ends_orfail [ends_intros]: "(\<And>x. ends (k x)) \<Longrightarrow> ends (orfail m err k)"
  unfolding orfail_def by (rule ends_next) (auto intro: ends_intros split: sum.splits)

lemma ends_awaits [ends_intros]: "\<lbrakk>ends m; \<And>x. ends (k x)\<rbrakk> \<Longrightarrow> ends (awaits m k)"
proof -
  assume m: "ends m" and k: "\<And>x. ends (k x)"
  have "r \<noteq> None" if run: "awaits m k t = (l, t', r)" for t l t' r
  proof -
    from run obtain l1 t1 x l2 where x: "m t = (l1, t1, x)"
        "(case x of None \<Rightarrow> done_with None | Some (Inl e) \<Rightarrow> fails e | Some (Inr y) \<Rightarrow> k y) t1 = (l2, t', r)"
      unfolding awaits_def and_next_eq by blast
    then show ?thesis
      using m k by (cases x; cases "the x") (auto simp: ends_def fails_def done_with_def)
  qed
  then show ?thesis unfolding ends_def by blast
qed

lemma ends_with_event [ends_intros]:
  assumes "\<And>ev. ends (body ev)"
  shows "ends (with_event pc body)"
proof -
  have "ends (and_next (body ev) (\<lambda>r.
      case r of None \<Rightarrow> done_with None | Some x \<Rightarrow> and_next (act (EventClosed ev) (\<lambda>t. ())) (\<lambda>_. done_with (Some x))))" for ev
    using assms [of ev] unfolding ends_def and_next_eq act_eq done_with_eq by (auto split: option.splits) (auto simp: and_next_eq done_with_eq)
  then show ?thesis unfolding with_event_def by (intro ends_orfail)
qed

lemma next_ask: "and_next (ask f) k t = k (f t) (Suc t)"
  by (simp add: and_next_def ask_def split: prod.splits)

lemma next_ask_fun: "and_next (ask f) k = (\<lambda>t. k (f t) (Suc t))"
  by (rule ext) (rule next_ask)

lemma endsD: "\<lbrakk>m t = (l, t', r); ends m\<rbrakk> \<Longrightarrow> r \<noteq> None"
  unfolding ends_def by blast

lemma complete_ends:
  assumes "expires pc w T"
  shows "\<lbrakk>0 < rounds; T < t + rounds; overlapped_complete pc w ev ending rounds t = (l, t', r)\<rbrakk> \<Longrightarrow> r \<noteq> None"
proof (induction rounds arbitrary: t l)
  case (Suc n)
  note run = Suc.prems(3) [unfolded overlapped_complete.simps next_ask]
  have stops: "ends (cancelled ev e :: 'a pipe_program)" "ends (orfail (act (OperationEnded ev) ending) completion_error returns)"
      "ends (and_next (cancel ev) (\<lambda>_. and_next (ask (pc_last_error pc)) (\<lambda>e. fails (PipeOs e))) :: 'a pipe_program)" for e
    by (auto simp: cancelled_def intro!: ends_intros)
  show ?case
  proof (cases "(watch_shutdown w \<and> pc_shutdown pc t) \<or> watch_deadline w - pc_now pc (Suc t) = 0")
    case True
    then show ?thesis using run stops(1) by (auto dest!: endsD split: if_splits)
  next
    case False
    then have "\<not> T \<le> Suc t" using assms by (auto simp: expires_def)
    then have "0 < n" "T < Suc (Suc (Suc t)) + n" using Suc.prems(2) by simp_all
    note again = Suc.IH [OF this]
    from False run have "(case pc_wait pc (Suc (Suc t)) ev (wait_time (watch_deadline w - pc_now pc (Suc t))) of
        WaitSignaled \<Rightarrow> orfail (act (OperationEnded ev) ending) completion_error returns
      | WaitTimeout \<Rightarrow> overlapped_complete pc w ev ending n
      | WaitFailed \<Rightarrow> and_next (cancel ev) (\<lambda>_ t. fails (PipeOs (pc_last_error pc t)) (Suc t))
      | WaitOther \<Rightarrow> cancelled ev PipeUnexpectedWait) (Suc (Suc (Suc t))) = (l, t', r)"
      by auto
    then show ?thesis using again stops [unfolded next_ask_fun] by (auto dest!: endsD split: win_wait.splits)
  qed
qed simp

lemma ends_transfer [ends_intros]:
  assumes "expires pc w T" "T < rounds"
  shows "ends (transfer pc w rounds ev broken start ending)"
  unfolding transfer_def
proof (rule ends_next)
  fix x
  have "ends (overlapped_complete pc w ev ending rounds)"
    using complete_ends [OF assms(1)] assms(2) unfolding ends_def by (metis gr0I not_less0 trans_less_add2)
  then show "ends (case x of Inr x \<Rightarrow> returns x
     | Inl e \<Rightarrow> if e = IoPending then overlapped_complete pc w ev ending rounds
         else fails (if e = BrokenPipe then broken else PipeOs e))"
    by (auto intro: ends_intros split: sum.splits)
qed

text \<open>A loop has as many turns as bytes.\<close>

lemma shrinks: "\<lbrakk>s \<noteq> []; m < Suc turns\<rbrakk> \<Longrightarrow> Suc m - length s \<le> turns"
  by (cases s) auto

lemma ends_read_loop:
  assumes "expires pc w T" "T < rounds" "n \<le> turns"
  shows "ends (pipe_read_loop pc w rounds pipe ev turns n acc)"
  using assms(3)
proof (induction turns arbitrary: n acc)
  case (Suc turns)
  then show ?case
    by (cases n) (auto intro!: ends_intros ends_transfer [OF assms(1,2)] Suc.IH shrinks simp: Let_def min_def)
qed (auto intro: ends_intros)

lemma ends_write_loop:
  assumes "expires pc w T" "T < rounds" "length bytes \<le> turns"
  shows "ends (pipe_write_loop pc w rounds pipe ev turns bytes)"
  using assms(3)
proof (induction turns arbitrary: bytes)
  case (Suc turns)
  then show ?case
    by (cases bytes) (auto intro!: ends_intros ends_transfer [OF assms(1,2)] Suc.IH)
qed (auto intro: ends_intros)

text \<open>Reading or writing a frame returns, whatever the peer does: the clock passes the deadline, and there are more rounds
  than calls until then.\<close>

theorem pipe_frames_end:
  assumes "expires pc w T" "T < rounds"
  shows "ends (pipe_read_frame pc w rounds pipe maximum) \<and> ends (pipe_write_frame pc w rounds pipe bytes maximum)"
  unfolding pipe_read_frame_def pipe_write_frame_def pipe_read_exact_def pipe_write_all_def Let_def
  by (auto intro!: ends_intros ends_read_loop [OF assms] ends_write_loop [OF assms])

section \<open>A frame does not close its pipe\<close>

declare acts_only_if [acts_intros del]

lemma acts_if [acts_intros]: "\<lbrakk>c \<Longrightarrow> acts_only A m; \<not> c \<Longrightarrow> acts_only A n\<rbrakk> \<Longrightarrow> acts_only A (if c then m else n)"
  by simp

lemma acts_awaits [acts_intros]:
  "\<lbrakk>acts_only A m; \<And>x. acts_only A (k x)\<rbrakk> \<Longrightarrow> acts_only A (awaits m k)"
  unfolding awaits_def fails_def by (auto intro!: acts_intros split: option.splits sum.splits)

lemma acts_answers [acts_intros]: "acts_only A (fails e)" "acts_only A (returns x)"
  by (auto simp: fails_def returns_def intro: acts_intros)

lemma acts_submit [acts_intros]: "OperationStarted ev \<in> A \<Longrightarrow> acts_only A (submit ev f)"
  by (auto simp: acts_only_def submit_def)

lemma acts_got [acts_intros]: "(\<And>x. eff x \<in> A) \<Longrightarrow> acts_only A (act_got eff f)"
  by (auto simp: acts_only_def act_got_def split: sum.splits)

definition io_actions :: "pipe_action set" where
  "io_actions = {a. case a of PipeMade p \<Rightarrow> False | PipeClosed p \<Rightarrow> False | PipeDisconnected p \<Rightarrow> False | _ \<Rightarrow> True}"

lemma io_actions_simps [simp]:
  "EventMade ev \<in> io_actions" "EventClosed ev \<in> io_actions" "OperationStarted ev \<in> io_actions"
  "OperationEnded ev \<in> io_actions" "WriteOffered s \<in> io_actions" "PipeMade p \<notin> io_actions"
  "PipeClosed p \<notin> io_actions" "PipeDisconnected p \<notin> io_actions"
  by (simp_all add: io_actions_def)

lemma acts_transfer [acts_intros]: "acts_only io_actions (transfer pc w rounds ev broken start ending)"
proof -
  have "acts_only io_actions (overlapped_complete pc w ev ending n)" for n
    by (induction n) (auto simp: cancelled_def cancel_def intro!: acts_intros split: win_wait.splits)
  then show ?thesis unfolding transfer_def by (auto intro!: acts_intros split: sum.splits)
qed

lemma acts_with_event [acts_intros]:
  "(\<And>ev. acts_only io_actions (body ev)) \<Longrightarrow> acts_only io_actions (with_event pc body)"
  unfolding with_event_def by (auto intro!: acts_intros split: option.splits)

lemma acts_frames:
  "acts_only io_actions (pipe_read_frame pc w rounds pipe maximum)"
  "acts_only io_actions (pipe_write_frame pc w rounds pipe bytes maximum)"
proof -
  have "acts_only io_actions (pipe_read_loop pc w rounds pipe ev turns n acc)" for ev turns n acc
    by (induction pc w rounds pipe ev turns n acc rule: pipe_read_loop.induct) (auto intro!: acts_intros simp: Let_def)
  moreover have "acts_only io_actions (pipe_write_loop pc w rounds pipe ev turns bytes)" for ev turns bytes
    by (induction pc w rounds pipe ev turns bytes rule: pipe_write_loop.induct) (auto intro!: acts_intros)
  ultimately show "acts_only io_actions (pipe_read_frame pc w rounds pipe maximum)"
    "acts_only io_actions (pipe_write_frame pc w rounds pipe bytes maximum)"
    unfolding pipe_read_frame_def pipe_write_frame_def pipe_read_exact_def pipe_write_all_def Let_def
    by (auto intro!: acts_intros)
qed

lemma acts_wait_for_connection: "acts_only io_actions (wait_for_connection pc rounds pipe)"
proof -
  have "acts_only io_actions (connect_wait pc ev n)" for ev n
    by (induction n) (auto simp: cancel_def intro!: acts_intros split: win_wait.splits sum.splits)
  then show ?thesis unfolding wait_for_connection_def by (auto intro!: acts_intros split: sum.splits)
qed

end
