(* ===== verification/Pipe_Broker.thy ===== *)
theory Pipe_Broker
  imports Broker Pipe_Frames Sid_Tokens
begin

text \<open>
  A connection of the Windows broker and its client, the upper half of \<^verbatim>\<open>src/broker/windows.rs\<close>.  The
  messages, the decision and the ledger are those of the other systems; the peer is a process with a security
  identifier.  The ledger is what it holds when its lock is taken, whatever the other connections have done.
\<close>

section \<open>State\<close>

definition CONNECTION_NANOS :: nat where
  "CONNECTION_NANOS = 2 * 10 ^ 9"

record pipe_static =
  ps_os :: operating_system
  ps_tok :: tokenizer
  ps_crypto :: crypto
  ps_response_to_vec :: "broker_response \<Rightarrow> string option"
  ps_config :: broker_config
  ps_secret :: string
  ps_api :: sid_api
  ps_launcher :: sid

datatype audit_kind = AuditAttempt | AuditInvoked | AuditRequest | AuditAllow | AuditEmitted

record server_calls =
  sv_pipe :: pipe_calls
  sv_client_pid :: "nat \<Rightarrow> nat \<Rightarrow> u32 option"
  sv_audit :: "nat \<Rightarrow> audit_kind \<Rightarrow> (unit, unit) result"
  sv_expected :: "nat \<Rightarrow> sid identity option"
  sv_tokens :: "nat \<Rightarrow> token_calls"
  sv_verify :: "nat \<Rightarrow> bool"
  sv_ledger :: "nat \<Rightarrow> ledger"

datatype server_action =
    PipeAct pipe_action
  | Audited audit_kind
  | Responding broker_decision
  | LedgerSet ledger

type_synonym 'a server_program = "(server_action, 'a) program"

section \<open>Authorization\<close>

definition when_ok :: "('f, bool) program \<Rightarrow> ('f, bool) program \<Rightarrow> ('f, bool) program" where
  "when_ok m k = and_next m (\<lambda>ok. if ok then k else done_with False)"

definition pipe_reader :: "pipe_static \<Rightarrow> server_calls \<Rightarrow> sid tree_reader" where
  "pipe_reader st sv = win_process (ps_api st) (sv_tokens sv)"

definition pipe_validate_peer :: "pipe_static \<Rightarrow> server_calls \<Rightarrow> u32 \<Rightarrow> sid identity \<Rightarrow> bool server_program" where
  "pipe_validate_peer st sv pid expected =
     (if pid = 0 then done_with False
      else and_next (perform (\<lambda>t. sid_validate_ancestry (ps_api st) (pipe_reader st sv) t pid expected)) (\<lambda>r. done_with (is_ok r)))"

definition pipe_authority :: "pipe_static \<Rightarrow> server_calls \<Rightarrow> bool server_program" where
  "pipe_authority st sv =
     (case cfg_admission (ps_config st) of
        Some target \<Rightarrow> ask (sv_verify sv)
      | None \<Rightarrow> done_with
          (is_some_and (cfg_expected_command (ps_config st)) (is_verification_probe_command (ps_os st)) \<and>
           cfg_expected_tool_name (ps_config st) = Some ''Bash''))"

definition pipe_consume :: "pipe_static \<Rightarrow> server_calls \<Rightarrow> broker_request \<Rightarrow> sid tree_record \<Rightarrow> bool server_program" where
  "pipe_consume st sv request peer =
     (\<lambda>t. case consume (ps_crypto st) (request_hook_input request) (record_pid peer) (start_time (process_identity_of peer))
          (cfg_admission (ps_config st) = None) (sv_ledger sv t) of
        (granted, l) \<Rightarrow> ([(t, LedgerSet l)], Suc t, granted))"

definition pipe_verify_request :: "pipe_static \<Rightarrow> server_calls \<Rightarrow> u32 \<Rightarrow> broker_request \<Rightarrow> bool \<Rightarrow> bool server_program" where
  "pipe_verify_request st sv pid request peer_user =
     and_next (ask (sv_expected sv)) (\<lambda>expected.
     case expected of None \<Rightarrow> done_with False | Some expected \<Rightarrow>
     when_ok (ask (\<lambda>t. \<not> pc_shutdown (sv_pipe sv) t))
    (when_ok (done_with (peer_user \<and> valid_token (Some (request_session_secret request)) \<and>
         constant_time_equal (request_session_secret request) (ps_secret st)))
    (when_ok (pipe_validate_peer st sv pid expected)
    (when_ok (pipe_authority st sv)
    (when_ok (done_with (decide (ps_os st) (ps_tok st) (request_hook_input request) (decision_context_of (ps_config st)) = Allow))
    (when_ok (case cfg_admission (ps_config st) of Some target \<Rightarrow> ask (sv_verify sv) | None \<Rightarrow> done_with True)
    (when_ok (ask (\<lambda>t. \<not> pc_shutdown (sv_pipe sv) t))
    (when_ok (pipe_validate_peer st sv pid expected)
    (and_next (ask (\<lambda>t. pipe_reader st sv t pid)) (\<lambda>peer.
     case peer of Inl e \<Rightarrow> done_with False | Inr peer \<Rightarrow> pipe_consume st sv request peer))))))))))"

section \<open>A connection\<close>

definition audited :: "pipe_static \<Rightarrow> server_calls \<Rightarrow> audit_kind \<Rightarrow> (unit, unit) result server_program" where
  "audited st sv kind =
     (if cfg_audit (ps_config st) then act_ok (Audited kind) (\<lambda>t. sv_audit sv t kind) else done_with (Inr ()))"

definition close_pipe :: "nat \<Rightarrow> unit option server_program" where
  "close_pipe pipe = act (PipeAct (PipeClosed pipe)) (\<lambda>t. Some ())"

definition pipe_write_response :: "pipe_static \<Rightarrow> pipe_calls \<Rightarrow> watch \<Rightarrow> nat \<Rightarrow> nat \<Rightarrow> broker_decision \<Rightarrow> unit pipe_program" where
  "pipe_write_response st pc w rounds pipe decision =
     (case ps_response_to_vec st (response_for decision) of
        None \<Rightarrow> fails PipeUnserialized
      | Some bytes \<Rightarrow> pipe_write_frame pc w rounds pipe bytes MAX_BROKER_RESPONSE_BYTES)"

text \<open>The answer, and what is done when it has been written or has failed.\<close>

definition respond :: "pipe_static \<Rightarrow> server_calls \<Rightarrow> watch \<Rightarrow> nat \<Rightarrow> nat \<Rightarrow> broker_decision \<Rightarrow>
    (bool \<Rightarrow> unit option server_program) \<Rightarrow> unit option server_program" where
  "respond st sv w rounds pipe decision k =
     and_next (act (Responding decision) (\<lambda>t. ())) (\<lambda>_.
     and_next (relabel PipeAct (\<lambda>r. r) (pipe_write_response st (sv_pipe sv) w rounds pipe decision)) (\<lambda>r.
     case r of None \<Rightarrow> done_with None | Some r \<Rightarrow> k (is_ok r)))"

definition refuse :: "pipe_static \<Rightarrow> server_calls \<Rightarrow> watch \<Rightarrow> nat \<Rightarrow> nat \<Rightarrow> unit option server_program" where
  "refuse st sv w rounds pipe = respond st sv w rounds pipe NoDecision (\<lambda>_. close_pipe pipe)"

definition disconnect :: "nat \<Rightarrow> unit option server_program" where
  "disconnect pipe = and_next (act (PipeAct (PipeDisconnected pipe)) (\<lambda>t. ())) (\<lambda>_. close_pipe pipe)"

definition pipe_answer :: "pipe_static \<Rightarrow> server_calls \<Rightarrow> watch \<Rightarrow> nat \<Rightarrow> nat \<Rightarrow> bool \<Rightarrow> unit option server_program" where
  "pipe_answer st sv w rounds pipe allowed =
     (if \<not> allowed then respond st sv w rounds pipe NoDecision (\<lambda>_. disconnect pipe)
      else and_next (audited st sv AuditRequest) (\<lambda>r.
        if r \<noteq> Inr () then refuse st sv w rounds pipe
        else and_next (audited st sv AuditAllow) (\<lambda>r.
        if r \<noteq> Inr () then refuse st sv w rounds pipe
        else respond st sv w rounds pipe AllowDecision (\<lambda>written.
          and_next (if written then audited st sv AuditEmitted else done_with (Inr ())) (\<lambda>_. disconnect pipe)))))"

definition pipe_handle_request :: "pipe_static \<Rightarrow> server_calls \<Rightarrow> watch \<Rightarrow> nat \<Rightarrow> nat \<Rightarrow> u32 \<Rightarrow> string \<Rightarrow> unit option server_program"
where
  "pipe_handle_request st sv w rounds pipe pid frame =
     and_next (relabel PipeAct (\<lambda>r. r) (pipe_no_trailing_data (sv_pipe sv) pipe)) (\<lambda>r.
     if r \<noteq> Inr () then refuse st sv w rounds pipe else
     case parse_request (ps_tok st) frame of None \<Rightarrow> refuse st sv w rounds pipe | Some request \<Rightarrow>
     and_next (audited st sv AuditInvoked) (\<lambda>r.
     if r \<noteq> Inr () then refuse st sv w rounds pipe else
     and_next (ask (\<lambda>t. peer_user_matches_launcher (ps_api st) (sv_tokens sv t) pid (ps_launcher st))) (\<lambda>peer_user.
     and_next (pipe_verify_request st sv pid request peer_user) (pipe_answer st sv w rounds pipe))))"

definition pipe_handle_connection :: "pipe_static \<Rightarrow> server_calls \<Rightarrow> nat \<Rightarrow> nat \<Rightarrow> unit option server_program" where
  "pipe_handle_connection st sv rounds pipe =
     and_next (ask (\<lambda>t. sv_client_pid sv t pipe)) (\<lambda>client.
     if client = None \<or> client = Some 0 then close_pipe pipe else
     and_next (audited st sv AuditAttempt) (\<lambda>r.
     if r \<noteq> Inr () then close_pipe pipe else
     and_next (ask (\<lambda>t. pc_now (sv_pipe sv) t)) (\<lambda>now.
     let w = \<lparr>watch_deadline = now + CONNECTION_NANOS, watch_shutdown = True\<rparr> in
     and_next (relabel PipeAct (\<lambda>r. r) (pipe_read_frame (sv_pipe sv) w rounds pipe MAX_BROKER_MESSAGE_BYTES)) (\<lambda>r.
     case r of
       None \<Rightarrow> done_with None
     | Some (Inl e) \<Rightarrow> close_pipe pipe
     | Some (Inr frame) \<Rightarrow> pipe_handle_request st sv w rounds pipe (the client) frame))))"


section \<open>What a connection does to its pipe\<close>

text \<open>How often the pipe was closed, and how often an answer was begun.\<close>

fun count_step :: "server_action \<Rightarrow> nat \<times> nat \<Rightarrow> nat \<times> nat" where
  "count_step (PipeAct (PipeClosed p)) (closed, answers) = (Suc closed, answers)"
| "count_step (Responding d) (closed, answers) = (closed, Suc answers)"
| "count_step a s = s"

lemma count_idle: "a \<in> io_actions \<Longrightarrow> count_step (PipeAct a) s = s"
  by (cases a; cases s) auto

declare wp_relabel [wp_intros del]

lemma wp_io:
  assumes "acts_only io_actions m" "\<And>r. Q r s"
  shows "wp count_step (relabel PipeAct (\<lambda>r. r) m) Q s"
  by (rule wp_relabel, rule wp_idle [OF assms(1)]) (auto simp: count_idle assms(2))

lemma acts_respond: "acts_only io_actions (pipe_write_response st pc w rounds pipe decision)"
  unfolding pipe_write_response_def by (auto intro!: acts_intros acts_frames split: option.splits)

lemma wp_audited [wp_intros]: "(\<And>r. Q r s) \<Longrightarrow> wp count_step (audited st sv kind) Q s"
  unfolding audited_def by (cases s) (auto intro!: wp_intros)

lemma wp_close_pipe: "Q (Some ()) (Suc c, a) \<Longrightarrow> wp count_step (close_pipe pipe) Q (c, a)"
  unfolding close_pipe_def by (auto intro!: wp_intros)

definition settled :: "unit option \<Rightarrow> nat \<times> nat \<Rightarrow> bool" where
  "settled r s = (snd s \<le> 1 \<and> (r = None \<and> fst s = 0 \<or> r = Some () \<and> fst s = 1))"

lemma wp_disconnect: "wp count_step (disconnect pipe) settled (0, Suc 0)"
  unfolding disconnect_def by (auto intro!: wp_intros wp_close_pipe simp: settled_def)

lemma wp_respond:
  assumes "\<And>ok. wp count_step (k ok) settled (0, Suc 0)"
  shows "wp count_step (respond st sv w rounds pipe decision k) settled (0, 0)"
  unfolding respond_def
  by (auto intro!: wp_intros wp_io acts_respond assms simp: settled_def split: option.splits)

lemma wp_refuse: "wp count_step (refuse st sv w rounds pipe) settled (0, 0)"
  unfolding refuse_def by (rule wp_respond) (auto intro!: wp_close_pipe simp: settled_def)

lemma wp_answer: "wp count_step (pipe_answer st sv w rounds pipe allowed) settled (0, 0)"
  unfolding pipe_answer_def by (auto intro!: wp_intros wp_refuse wp_respond wp_disconnect)

lemma acts_verify: "acts_only (range LedgerSet) (pipe_verify_request st sv pid request peer_user)"
proof -
  have "acts_only (range LedgerSet) (pipe_consume st sv request peer)" for peer
    by (auto simp: acts_only_def pipe_consume_def split: prod.splits)
  then show ?thesis
    unfolding pipe_verify_request_def when_ok_def pipe_validate_peer_def pipe_authority_def
    by (auto intro!: acts_intros split: option.splits sum.splits)
qed

lemma wp_handle_request: "wp count_step (pipe_handle_request st sv w rounds pipe pid frame) settled (0, 0)"
  unfolding pipe_handle_request_def
  by (auto intro!: wp_intros wp_refuse wp_answer wp_io wp_idle [OF acts_verify]
      simp: pipe_no_trailing_data_def acts_intros split: option.splits)

text \<open>A connection that has ended has closed its pipe exactly once, and has begun at most one answer.\<close>

theorem connection_closes_pipe_once:
  assumes "pipe_handle_connection st sv rounds pipe t = (l, t', r)"
  shows "settled r (replay count_step l (0, 0))"
proof -
  have "wp count_step (pipe_handle_connection st sv rounds pipe) settled (0, 0)"
    unfolding pipe_handle_connection_def Let_def
    by (auto intro!: wp_intros wp_close_pipe wp_handle_request wp_io acts_frames simp: settled_def
        split: option.splits sum.splits)
  from wpD [OF this assms] show ?thesis .
qed


section \<open>What an allow has passed\<close>

lemma when_ok_True:
  "(when_ok m k t = (l, t', True)) = (\<exists>l1 t1 l2. m t = (l1, t1, True) \<and> k t1 = (l2, t', True) \<and> l = l1 @ l2)"
  by (auto simp: when_ok_def and_next_eq done_with_eq split: if_splits)

definition peer_seen :: "pipe_static \<Rightarrow> server_calls \<Rightarrow> u32 \<Rightarrow> sid identity \<Rightarrow> nat \<Rightarrow> nat \<Rightarrow> bool" where
  "peer_seen st sv pid expected t t' =
     (pid \<noteq> 0 \<and> (\<exists>rs. ancestry_seen (identity_matches (ps_api st)) (pipe_reader st sv) t pid expected rs \<and>
        t' = t + 2 * length rs))"

lemma validate_peer_seen:
  "pipe_validate_peer st sv pid expected t = (l, t', True) \<Longrightarrow> l = [] \<and> peer_seen st sv pid expected t t'"
  using validate_ancestry_by_Inr [of "identity_matches (ps_api st)" "pipe_reader st sv" t pid expected t']
  by (auto simp: pipe_validate_peer_def program_simps is_ok_iff sid_validate_ancestry_def peer_seen_def
      identity_matches_def split: if_splits)

text \<open>All that was seen and done, in the order of the checks, from a moment to another.\<close>

definition pipe_granted :: "pipe_static \<Rightarrow> server_calls \<Rightarrow> u32 \<Rightarrow> broker_request \<Rightarrow> nat \<Rightarrow> nat \<Rightarrow> bool" where
  "pipe_granted st sv pid request t t' =
     (\<exists>expected peer l t1 t2 t3 t4.
        sv_expected sv t = Some expected \<and> \<not> pc_shutdown (sv_pipe sv) (t + 1) \<and>
        request_session_secret request = ps_secret st \<and> valid_token (Some (ps_secret st)) \<and>
        peer_seen st sv pid expected (t + 2) t1 \<and>
        (case cfg_admission (ps_config st) of
           None \<Rightarrow> is_some_and (cfg_expected_command (ps_config st)) (is_verification_probe_command (ps_os st)) \<and>
             cfg_expected_tool_name (ps_config st) = Some ''Bash'' \<and> t2 = t1
         | Some target \<Rightarrow> sv_verify sv t1 \<and> sv_verify sv (t1 + 1) \<and> t2 = t1 + 2) \<and>
        decide (ps_os st) (ps_tok st) (request_hook_input request) (decision_context_of (ps_config st)) = Allow \<and>
        \<not> pc_shutdown (sv_pipe sv) t2 \<and> peer_seen st sv pid expected (t2 + 1) t3 \<and>
        pipe_reader st sv t3 pid = Inr peer \<and> t4 = t3 + 1 \<and>
        consume (ps_crypto st) (request_hook_input request) (record_pid peer) (start_time (process_identity_of peer))
          (cfg_admission (ps_config st) = None) (sv_ledger sv t4) = (True, l) \<and> t' = t4 + 1)"

lemma cases_True:
  "((case x of None \<Rightarrow> done_with False | Some y \<Rightarrow> f y) t = (l, t', True)) = (\<exists>y. x = Some y \<and> f y t = (l, t', True))"
  "((case z of Inl e \<Rightarrow> done_with False | Inr y \<Rightarrow> g y) t = (l, t', True)) = (\<exists>y. z = Inr y \<and> g y t = (l, t', True))"
  by (auto simp: done_with_eq split: option.splits sum.splits)

lemma pipe_consume_True:
  "(pipe_consume st sv request peer t = (l, t', True)) =
     (\<exists>m. consume (ps_crypto st) (request_hook_input request) (record_pid peer) (start_time (process_identity_of peer))
        (cfg_admission (ps_config st) = None) (sv_ledger sv t) = (True, m) \<and> l = [(t, LedgerSet m)] \<and> t' = Suc t)"
  by (auto simp: pipe_consume_def split: prod.splits)

lemma pipe_verify_True:
  assumes "pipe_verify_request st sv pid request peer_user t = (l, t', True)"
  shows "peer_user \<and> pipe_granted st sv pid request t t'"
proof (cases "cfg_admission (ps_config st)")
  case None
  with assms show ?thesis
    unfolding pipe_verify_request_def pipe_granted_def
    by (auto simp: when_ok_True program_simps pipe_authority_def cases_True pipe_consume_True constant_time_equal_iff
        dest!: validate_peer_seen)
next
  case (Some target)
  with assms show ?thesis
    unfolding pipe_verify_request_def pipe_granted_def
    by (auto simp: when_ok_True program_simps pipe_authority_def cases_True pipe_consume_True constant_time_equal_iff
        dest!: validate_peer_seen)
qed


abbreviation not_allowing :: "server_action set" where
  "not_allowing \<equiv> - {Responding AllowDecision}"

lemma acts_pipe [acts_intros]: "acts_only io_actions m \<Longrightarrow> acts_only not_allowing (relabel PipeAct res m)"
  by (rule acts_relabel, erule acts_only_mono) auto

lemma acts_not_allowing [acts_intros]:
  "acts_only not_allowing (audited st sv kind)" "acts_only not_allowing (close_pipe pipe)"
  "acts_only not_allowing (disconnect pipe)" "acts_only not_allowing (refuse st sv w rounds pipe)"
  "acts_only not_allowing (pipe_verify_request st sv pid request peer_user)"
  "acts_only io_actions (pipe_no_trailing_data pc pipe)"
  unfolding audited_def close_pipe_def disconnect_def refuse_def respond_def pipe_no_trailing_data_def
  by (auto intro!: acts_intros acts_respond acts_only_mono [OF acts_verify] split: option.splits)

lemma not_allowingD: "\<lbrakk>m t = (l, t', r); (u, Responding AllowDecision) \<in> set l; acts_only not_allowing m\<rbrakk> \<Longrightarrow> False"
  by (metis acts_onlyD ComplD singletonI)

text \<open>Where an allow comes from in a sequence: the first part does not answer.\<close>

lemma next_allowsE:
  assumes "and_next m k t = (l, t', r)" "(u, Responding AllowDecision) \<in> set l" "acts_only not_allowing m"
  obtains l1 t1 x l2 where "m t = (l1, t1, x)" "k x t1 = (l2, t', r)" "l = l1 @ l2" "(u, Responding AllowDecision) \<in> set l2"
  using assms(1) by (rule nextE) (metis Un_iff assms(2,3) not_allowingD set_append that)

lemma audited_Inr:
  "audited st sv kind t = (l, t', Inr ()) \<Longrightarrow> t \<le> t' \<and> (cfg_audit (ps_config st) \<longrightarrow> l = [(t, Audited kind)] \<and> t' = Suc t)"
  by (auto simp: audited_def act_ok_eq done_with_eq split: if_splits)

lemma progress_relabelled: "progresses (relabel PipeAct (\<lambda>r. r) m)" if "progresses m"
  by (rule progress_relabel [OF that])

lemma respond_allows:
  assumes "respond st sv w rounds pipe AllowDecision k t = (l, t', r)" "(u, Responding AllowDecision) \<in> set l"
    "\<And>ok. acts_only not_allowing (k ok)"
  shows "u = t"
proof -
  from assms(1) obtain l2 where l: "l = (t, Responding AllowDecision) # l2"
      "and_next (relabel PipeAct (\<lambda>r. r) (pipe_write_response st (sv_pipe sv) w rounds pipe AllowDecision)) (\<lambda>r.
        case r of None \<Rightarrow> done_with None | Some r \<Rightarrow> k (is_ok r)) (Suc t) = (l2, t', r)"
    unfolding respond_def by (auto simp: and_next_eq [of "act a f" for a f] act_eq)
  have "acts_only not_allowing (and_next (relabel PipeAct (\<lambda>r. r) (pipe_write_response st (sv_pipe sv) w rounds pipe
      AllowDecision)) (\<lambda>r. case r of None \<Rightarrow> done_with None | Some r \<Rightarrow> k (is_ok r)))"
    using assms(3) by (auto intro!: acts_intros acts_respond split: option.splits)
  from not_allowingD [OF l(2) _ this] show ?thesis using assms(2) l(1) by auto
qed

lemma acts_denial: "acts_only not_allowing (respond st sv w rounds pipe NoDecision (\<lambda>_. disconnect pipe))"
  unfolding respond_def by (auto intro!: acts_intros acts_respond split: option.splits)

lemma answer_allows:
  assumes "pipe_answer st sv w rounds pipe allowed t = (l, t', r)" "(u, Responding AllowDecision) \<in> set l"
  shows "allowed \<and> t \<le> u \<and> (cfg_audit (ps_config st) \<longrightarrow>
    (\<exists>a b. t \<le> a \<and> a < b \<and> b < u \<and> (a, Audited AuditRequest) \<in> set l \<and> (b, Audited AuditAllow) \<in> set l))"
proof -
  have refused: "refuse st sv w rounds pipe t1 = (l1, t', r) \<Longrightarrow> (u, Responding AllowDecision) \<notin> set l1" for t1 l1
    using not_allowingD [OF _ _ acts_not_allowing(4)] by metis
  have allowed
  proof (rule ccontr)
    assume "\<not> allowed"
    with assms(1) have "respond st sv w rounds pipe NoDecision (\<lambda>_. disconnect pipe) t = (l, t', r)"
      by (simp add: pipe_answer_def)
    from not_allowingD [OF this assms(2) acts_denial] show False .
  qed
  define answer where "answer = respond st sv w rounds pipe AllowDecision (\<lambda>written.
      and_next (if written then audited st sv AuditEmitted else done_with (Inr ())) (\<lambda>_. disconnect pipe))"
  define second where "second = and_next (audited st sv AuditAllow) (\<lambda>r. if r \<noteq> Inr () then refuse st sv w rounds pipe else answer)"
  have run: "and_next (audited st sv AuditRequest) (\<lambda>r. if r \<noteq> Inr () then refuse st sv w rounds pipe else second) t = (l, t', r)"
    using assms(1) \<open>allowed\<close> unfolding pipe_answer_def second_def answer_def by simp
  obtain l1 t1 x l2 where
    x: "audited st sv AuditRequest t = (l1, t1, x)" "l = l1 @ l2" "(u, Responding AllowDecision) \<in> set l2"
      "(if x \<noteq> Inr () then refuse st sv w rounds pipe else second) t1 = (l2, t', r)"
    by (rule next_allowsE [OF run assms(2) acts_not_allowing(1)]) (rule that)
  have first: "x = Inr ()" using refused x(3,4) by (cases "x = Inr ()") auto
  then have run2: "second t1 = (l2, t', r)" using x(4) by simp
  obtain l3 t3 y l4 where
    y: "audited st sv AuditAllow t1 = (l3, t3, y)" "l2 = l3 @ l4" "(u, Responding AllowDecision) \<in> set l4"
      "(if y \<noteq> Inr () then refuse st sv w rounds pipe else answer) t3 = (l4, t', r)"
    by (rule next_allowsE [OF run2 [unfolded second_def] x(3) acts_not_allowing(1)]) (rule that)
  have "y = Inr ()" using refused y(3,4) by (cases "y = Inr ()") auto
  then have "answer t3 = (l4, t', r)" using y(4) by simp
  then have "u = t3"
    unfolding answer_def by (rule respond_allows [OF _ y(3)]) (auto intro!: acts_intros)
  note logged = audited_Inr [OF x(1) [unfolded first]] audited_Inr [OF y(1) [unfolded \<open>y = Inr ()\<close>]]
  have "t \<le> u" using logged \<open>u = t3\<close> by simp
  moreover have "\<exists>a b. t \<le> a \<and> a < b \<and> b < u \<and> (a, Audited AuditRequest) \<in> set l \<and> (b, Audited AuditAllow) \<in> set l"
    if "cfg_audit (ps_config st)"
    using logged that \<open>u = t3\<close> x(2) y(2) by (intro exI [of _ t] exI [of _ "Suc t"]) simp
  ultimately show ?thesis using \<open>allowed\<close> by blast
qed


text \<open>What was seen of a request before its allow, from a moment on: the request, the user of the peer, the checks and,
  if there is an audit, the two records.\<close>

definition allowed_properly :: "pipe_static \<Rightarrow> server_calls \<Rightarrow> u32 \<Rightarrow> string \<Rightarrow> server_action action_log \<Rightarrow> nat \<Rightarrow> nat \<Rightarrow> bool" where
  "allowed_properly st sv pid frame l t u =
     (\<exists>request m v. parse_request (ps_tok st) frame = Some request \<and> t < m \<and>
        peer_user_matches_launcher (ps_api st) (sv_tokens sv m) pid (ps_launcher st) \<and>
        pipe_granted st sv pid request (m + 1) v \<and> v \<le> u \<and>
        (cfg_audit (ps_config st) \<longrightarrow>
           (\<exists>a b. v \<le> a \<and> a < b \<and> b < u \<and> (a, Audited AuditRequest) \<in> set l \<and> (b, Audited AuditAllow) \<in> set l)))"

lemma allowed_properly_mono:
  "\<lbrakk>allowed_properly st sv pid frame l t u; set l \<subseteq> set l'; s \<le> t\<rbrakk> \<Longrightarrow> allowed_properly st sv pid frame l' s u"
  unfolding allowed_properly_def by (meson le_less_trans subsetD)

lemma request_allows:
  assumes "pipe_handle_request st sv w rounds pipe pid frame t = (l, t', r)" "(u, Responding AllowDecision) \<in> set l"
  shows "allowed_properly st sv pid frame l t u"
proof -
  have refused: "refuse st sv w rounds pipe t1 = (l1, t', r) \<Longrightarrow> (u, Responding AllowDecision) \<notin> set l1" for t1 l1
    using not_allowingD [OF _ _ acts_not_allowing(4)] by metis
  define decided where "decided = (\<lambda>request peer_user.
      and_next (pipe_verify_request st sv pid request peer_user) (pipe_answer st sv w rounds pipe))"
  define matched where "matched = (\<lambda>request. and_next
      (ask (\<lambda>t. peer_user_matches_launcher (ps_api st) (sv_tokens sv t) pid (ps_launcher st))) (decided request))"
  define parsed where "parsed = (case parse_request (ps_tok st) frame of None \<Rightarrow> refuse st sv w rounds pipe
     | Some request \<Rightarrow> and_next (audited st sv AuditInvoked) (\<lambda>r.
         if r \<noteq> Inr () then refuse st sv w rounds pipe else matched request))"
  have run: "and_next (relabel PipeAct (\<lambda>r. r) (pipe_no_trailing_data (sv_pipe sv) pipe))
      (\<lambda>r. if r \<noteq> Inr () then refuse st sv w rounds pipe else parsed) t = (l, t', r)"
    using assms(1) unfolding pipe_handle_request_def parsed_def matched_def decided_def by simp
  obtain l1 t1 x l2 where x: "relabel PipeAct (\<lambda>r. r) (pipe_no_trailing_data (sv_pipe sv) pipe) t = (l1, t1, x)"
      "(if x \<noteq> Inr () then refuse st sv w rounds pipe else parsed) t1 = (l2, t', r)" "l = l1 @ l2"
      "(u, Responding AllowDecision) \<in> set l2"
    by (rule next_allowsE [OF run assms(2)]) (auto intro!: acts_intros that)
  have t1: "t1 = Suc t" using x(1) by (auto simp: pipe_no_trailing_data_def program_simps)
  have "x = Inr ()" using refused x(2,4) by (cases "x = Inr ()") auto
  then have p: "parsed t1 = (l2, t', r)" using x(2) by simp
  then obtain request where request: "parse_request (ps_tok st) frame = Some request"
    using refused x(4) unfolding parsed_def by (cases "parse_request (ps_tok st) frame") auto
  obtain l3 t3 y l4 where y: "audited st sv AuditInvoked t1 = (l3, t3, y)" "l2 = l3 @ l4"
      "(if y \<noteq> Inr () then refuse st sv w rounds pipe else matched request) t3 = (l4, t', r)"
      "(u, Responding AllowDecision) \<in> set l4"
    by (rule next_allowsE [OF p [unfolded parsed_def request option.case] x(4) acts_not_allowing(1)]) (rule that)
  have y': "y = Inr ()" using refused y(3,4) by (cases "y = Inr ()") auto
  note logged = audited_Inr [OF y(1) [unfolded y']]
  define user where "user = peer_user_matches_launcher (ps_api st) (sv_tokens sv t3) pid (ps_launcher st)"
  have d: "decided request user (Suc t3) = (l4, t', r)"
    using y(3) y' by (simp add: matched_def next_ask user_def)
  obtain l5 t5 z l6 where z: "pipe_verify_request st sv pid request user (Suc t3) = (l5, t5, z)"
      "pipe_answer st sv w rounds pipe z t5 = (l6, t', r)" "l4 = l5 @ l6" "(u, Responding AllowDecision) \<in> set l6"
    by (rule next_allowsE [OF d [unfolded decided_def] y(4) acts_not_allowing(5)]) (rule that)
  note answered = answer_allows [OF z(2,4)]
  with pipe_verify_True [of st sv pid request user "Suc t3" l5 t5] z(1) have granted: "user"
      "pipe_granted st sv pid request (Suc t3) t5" by auto
  have "t < t3" using logged t1 by simp
  then show ?thesis
    unfolding allowed_properly_def using request granted answered x(3) y(2) z(3)
    by (intro exI [of _ request] exI [of _ t3] exI [of _ t5]) (auto simp: user_def)
qed

text \<open>C18: an allow is begun only after a frame was read from a client with a number, its request passed every check while the
  broker was not shut down, the ledger took it, and it was recorded.\<close>

theorem pipe_allow_only_after_checks:
  assumes "pipe_handle_connection st sv rounds pipe t = (l, t', r)" "(u, Responding AllowDecision) \<in> set l"
  shows "\<exists>pid w a b frame fl. sv_client_pid sv t pipe = Some pid \<and> pid \<noteq> 0 \<and> t < a \<and>
    pipe_read_frame (sv_pipe sv) w rounds pipe MAX_BROKER_MESSAGE_BYTES a = (fl, b, Some (Inr frame)) \<and>
    allowed_properly st sv pid frame l b u"
proof -
  have closed: "close_pipe pipe t1 = (l1, t', r) \<Longrightarrow> (u, Responding AllowDecision) \<notin> set l1" for t1 l1
    using not_allowingD [OF _ _ acts_not_allowing(2)] by metis
  define client where "client = sv_client_pid sv t pipe"
  define framed where "framed = (\<lambda>w (r :: (pipe_error, string) result option). case r of None \<Rightarrow> done_with None | Some (Inl e) \<Rightarrow> close_pipe pipe
     | Some (Inr frame) \<Rightarrow> pipe_handle_request st sv w rounds pipe (the client) frame)"
  define timed where "timed = and_next (ask (\<lambda>t. pc_now (sv_pipe sv) t)) (\<lambda>now.
     and_next (relabel PipeAct (\<lambda>r. r) (pipe_read_frame (sv_pipe sv)
        \<lparr>watch_deadline = now + CONNECTION_NANOS, watch_shutdown = True\<rparr> rounds pipe MAX_BROKER_MESSAGE_BYTES))
     (framed \<lparr>watch_deadline = now + CONNECTION_NANOS, watch_shutdown = True\<rparr>))"
  have run: "(if client = None \<or> client = Some 0 then close_pipe pipe
      else and_next (audited st sv AuditAttempt) (\<lambda>r. if r \<noteq> Inr () then close_pipe pipe else timed)) (Suc t) = (l, t', r)"
    using assms(1) unfolding pipe_handle_connection_def next_ask timed_def framed_def client_def Let_def by simp
  have pid: "client \<noteq> None" "client \<noteq> Some 0" using run closed assms(2) by (auto split: if_splits)
  with run have run: "and_next (audited st sv AuditAttempt) (\<lambda>r. if r \<noteq> Inr () then close_pipe pipe else timed) (Suc t) = (l, t', r)"
    by simp
  obtain l1 t1 x l2 where x: "audited st sv AuditAttempt (Suc t) = (l1, t1, x)" "l = l1 @ l2"
      "(if x \<noteq> Inr () then close_pipe pipe else timed) t1 = (l2, t', r)" "(u, Responding AllowDecision) \<in> set l2"
    by (rule next_allowsE [OF run assms(2) acts_not_allowing(1)]) (rule that)
  have x': "x = Inr ()" using closed x(3,4) by (cases "x = Inr ()") auto
  note logged = audited_Inr [OF x(1) [unfolded x']]
  define w where "w = \<lparr>watch_deadline = pc_now (sv_pipe sv) t1 + CONNECTION_NANOS, watch_shutdown = True\<rparr>"
  have f: "and_next (relabel PipeAct (\<lambda>r. r) (pipe_read_frame (sv_pipe sv) w rounds pipe MAX_BROKER_MESSAGE_BYTES)) (framed w)
      (Suc t1) = (l2, t', r)"
    using x(3) x' by (simp add: timed_def next_ask w_def)
  obtain l3 b z l4 where z: "relabel PipeAct (\<lambda>r. r) (pipe_read_frame (sv_pipe sv) w rounds pipe MAX_BROKER_MESSAGE_BYTES) (Suc t1) =
        (l3, b, z)" "framed w z b = (l4, t', r)" "l2 = l3 @ l4" "(u, Responding AllowDecision) \<in> set l4"
    by (rule next_allowsE [OF f x(4)]) (auto intro!: acts_intros acts_frames that)
  obtain frame where frame: "z = Some (Inr frame)"
    using z(2,4) closed unfolding framed_def by (cases z; cases "the z") (auto simp: done_with_eq)
  with z(2) have "pipe_handle_request st sv w rounds pipe (the client) frame b = (l4, t', r)" by (simp add: framed_def)
  from request_allows [OF this z(4)] have "allowed_properly st sv (the client) frame l b u"
    by (rule allowed_properly_mono) (use x(2) z(3) in auto)
  moreover obtain fl where "pipe_read_frame (sv_pipe sv) w rounds pipe MAX_BROKER_MESSAGE_BYTES (Suc t1) = (fl, b, Some (Inr frame))"
    using z(1) frame by (auto simp: relabel_eq)
  moreover have "t < Suc t1" using logged by simp
  ultimately show ?thesis
    using pid by (intro exI [of _ "the client"] exI [of _ w] exI [of _ "Suc t1"] exI [of _ b] exI [of _ frame] exI [of _ fl])
      (auto simp: client_def)
qed


section \<open>A connection ends\<close>

lemma ends_relabel [ends_intros]: "ends m \<Longrightarrow> ends (relabel PipeAct (\<lambda>r. r) m)"
  unfolding ends_def relabel_eq by blast

lemma ends_after:
  assumes "ends m" "\<And>x. ends (k x)"
  shows "ends (and_next m (\<lambda>r. case r of None \<Rightarrow> done_with None | Some x \<Rightarrow> k x))"
  using assms unfolding ends_def and_next_eq by (metis (no_types, lifting) option.case_eq_if)

lemma ends_closing [ends_intros]: "ends (close_pipe pipe)" "ends (disconnect pipe)"
  unfolding disconnect_def close_pipe_def by (auto simp: ends_def program_simps)

lemma ends_respond:
  assumes "expires (sv_pipe sv) w T" "T < rounds" "\<And>ok. ends (k ok)"
  shows "ends (respond st sv w rounds pipe decision k)"
  unfolding respond_def
proof (rule ends_next, rule ends_after)
  show "ends (relabel PipeAct (\<lambda>r. r) (pipe_write_response st (sv_pipe sv) w rounds pipe decision))"
    unfolding pipe_write_response_def using pipe_frames_end [OF assms(1,2)] by (auto intro!: ends_intros split: option.splits)
qed (rule assms(3))

lemma ends_handle_request:
  assumes "expires (sv_pipe sv) w T" "T < rounds"
  shows "ends (pipe_handle_request st sv w rounds pipe pid frame)"
proof -
  have "ends (refuse st sv w rounds pipe)" "ends (pipe_answer st sv w rounds pipe allowed)" for allowed
    unfolding refuse_def pipe_answer_def by (auto intro!: ends_next ends_respond [OF assms] ends_intros)
  then show ?thesis unfolding pipe_handle_request_def by (auto intro!: ends_next split: option.splits)
qed

theorem pipe_connection_ends:
  assumes "\<forall>s \<le> t + 2. \<forall>u \<ge> T. pc_now (sv_pipe sv) s + CONNECTION_NANOS \<le> pc_now (sv_pipe sv) u" "T < rounds"
    "pipe_handle_connection st sv rounds pipe t = (l, t', r)"
  shows "r = Some ()"
proof -
  define w where "w = (\<lambda>s. \<lparr>watch_deadline = pc_now (sv_pipe sv) s + CONNECTION_NANOS, watch_shutdown = True\<rparr>)"
  define rest where "rest = (\<lambda>client w.
     and_next (relabel PipeAct (\<lambda>r. r) (pipe_read_frame (sv_pipe sv) w rounds pipe MAX_BROKER_MESSAGE_BYTES)) (\<lambda>r.
     case r of
       None \<Rightarrow> done_with None
     | Some x \<Rightarrow> (case x of Inl e \<Rightarrow> close_pipe pipe | Inr frame \<Rightarrow> pipe_handle_request st sv w rounds pipe client frame)))"
  have rest: "r = Some ()" if run: "rest client (w s) s' = (l', t', r)" "s \<le> t + 2" for client s s' l'
  proof -
    have e: "expires (sv_pipe sv) (w s) T" using assms(1) that by (simp add: expires_def w_def)
    have "ends (rest client (w s))"
      unfolding rest_def
    proof (rule ends_after)
      show "ends (relabel PipeAct (\<lambda>r. r) (pipe_read_frame (sv_pipe sv) (w s) rounds pipe MAX_BROKER_MESSAGE_BYTES))"
        using pipe_frames_end [OF e assms(2)] by (auto intro!: ends_intros)
    qed (auto intro!: ends_intros ends_handle_request [OF e assms(2)] split: sum.splits)
    from endsD [OF run(1) this] show ?thesis by (cases r) auto
  qed
  have close: "close_pipe pipe s = (l', t', r) \<Longrightarrow> r = Some ()" for s l'
    by (simp add: close_pipe_def act_eq)
  define client where "client = sv_client_pid sv t pipe"
  have run: "(if client = None \<or> client = Some 0 then close_pipe pipe
      else and_next (audited st sv AuditAttempt) (\<lambda>x. if x \<noteq> Inr () then close_pipe pipe
        else (\<lambda>s. rest (the client) (w s) (Suc s)))) (Suc t) = (l, t', r)"
    using assms(3) unfolding pipe_handle_connection_def next_ask_fun rest_def w_def client_def Let_def by simp
  show ?thesis
  proof (cases "client = None \<or> client = Some 0")
    case False
    with run have "and_next (audited st sv AuditAttempt) (\<lambda>x. if x \<noteq> Inr () then close_pipe pipe
        else (\<lambda>s. rest (the client) (w s) (Suc s))) (Suc t) = (l, t', r)" by simp
    then obtain l1 t1 x l2 where x: "audited st sv AuditAttempt (Suc t) = (l1, t1, x)"
        "(if x \<noteq> Inr () then close_pipe pipe else (\<lambda>s. rest (the client) (w s) (Suc s))) t1 = (l2, t', r)"
      by (rule nextE) (rule that)
    have "t1 \<le> t + 2" using x(1) by (auto simp: audited_def act_ok_eq done_with_eq split: if_splits)
    then show ?thesis using x(2) close rest by (auto split: if_splits)
  qed (use run close in auto)
qed

end
