(* ===== verification/Pipe_Server.thy ===== *)
theory Pipe_Server
  imports Pipe_Broker
begin

text \<open>
  The accept loop of the Windows broker and the client of a hook, in \<^verbatim>\<open>src/broker/windows.rs\<close>.  The log says to
  whom the handle of a pipe belongs: the loop, a worker, or nobody.
\<close>

section \<open>The accept loop\<close>

text \<open>The number of active connections is what the counter holds when it is read, and before one is added.\<close>

record listener_calls =
  ln_pipe :: pipe_calls
  ln_create :: "nat \<Rightarrow> (win_error, nat) result"
  ln_active :: "nat \<Rightarrow> nat"

datatype listen_action = ListenAct pipe_action | WorkerStarted nat

definition create_server_pipe :: "listener_calls \<Rightarrow> (listen_action, (win_error, nat) result) program" where
  "create_server_pipe ln = act_got (\<lambda>pipe. ListenAct (PipeMade pipe)) (ln_create ln)"

definition close_listener :: "nat \<Rightarrow> (listen_action, unit option) program" where
  "close_listener pipe = act (ListenAct (PipeClosed pipe)) (\<lambda>t. Some ())"

text \<open>A client that has connected is given to a worker, or turned away when there are too many.\<close>

definition hand_over :: "listener_calls \<Rightarrow> nat \<Rightarrow> (listen_action, unit) program" where
  "hand_over ln pipe =
     and_next (ask (ln_active ln)) (\<lambda>before.
     act (if MAX_ACTIVE_CONNECTIONS \<le> before then ListenAct (PipeClosed pipe) else WorkerStarted pipe) (\<lambda>t. ()))"

fun serve_pipes :: "listener_calls \<Rightarrow> nat \<Rightarrow> nat \<Rightarrow> nat \<Rightarrow> (listen_action, unit option) program" where
  "serve_pipes ln waits 0 pipe = done_with None"
| "serve_pipes ln waits (Suc rounds) pipe =
     and_next (ask (pc_shutdown (ln_pipe ln))) (\<lambda>stopped.
     if stopped then close_listener pipe else
     and_next (ask (ln_active ln)) (\<lambda>active.
     if MAX_ACTIVE_CONNECTIONS \<le> active then serve_pipes ln waits rounds pipe else
     and_next (relabel ListenAct (\<lambda>r. r) (wait_for_connection (ln_pipe ln) waits pipe)) (\<lambda>r.
     case r of
       None \<Rightarrow> done_with None
     | Some r \<Rightarrow>
         if r \<noteq> Inr True then close_listener pipe else
         and_next (hand_over ln pipe) (\<lambda>_.
         and_next (create_server_pipe ln) (\<lambda>created.
         case created of Inl e \<Rightarrow> close_listener pipe | Inr next_pipe \<Rightarrow> serve_pipes ln waits rounds next_pipe)))))"

text \<open>The pipes of the loop, and whether it has only closed and given away pipes of its own.\<close>

fun owner_step :: "listen_action \<Rightarrow> nat set \<times> bool \<Rightarrow> nat set \<times> bool" where
  "owner_step (ListenAct (PipeMade p)) (own, ok) = (insert p own, ok)"
| "owner_step (ListenAct (PipeClosed p)) (own, ok) = (own - {p}, ok \<and> p \<in> own)"
| "owner_step (WorkerStarted p) (own, ok) = (own - {p}, ok \<and> p \<in> own)"
| "owner_step a s = s"

declare wp_relabel [wp_intros del]

lemma wp_listen_io:
  assumes "acts_only io_actions m" "\<And>r. Q r s"
  shows "wp owner_step (relabel ListenAct (\<lambda>r. r) m) Q s"
proof (rule wp_relabel, rule wp_idle [OF assms(1)])
  show "owner_step (ListenAct a) s = s" if "a \<in> io_actions" for a s
    using that by (cases a; cases s) auto
qed (rule assms(2))

definition settled_pipes :: "unit option \<Rightarrow> nat set \<times> bool \<Rightarrow> bool" where
  "settled_pipes r s = (snd s \<and> (r = Some () \<longrightarrow> fst s = {}))"

lemma settled_None [simp]: "settled_pipes None s = snd s"
  by (simp add: settled_pipes_def)

lemma wp_close_listener: "wp owner_step (close_listener pipe) settled_pipes ({pipe}, True)"
  unfolding close_listener_def by (auto intro!: wp_intros simp: settled_pipes_def)

lemma wp_hand_over: "Q () ({}, True) \<Longrightarrow> wp owner_step (hand_over ln pipe) Q ({pipe}, True)"
  unfolding hand_over_def by (auto intro!: wp_intros)

text \<open>While a pipe can be made for the next client, the loop closes or gives away each pipe once, and has none left when
  it ends.\<close>

theorem serve_owns_its_pipes:
  assumes "\<forall>u. is_ok (ln_create ln u)" "serve_pipes ln waits rounds pipe t = (l, t', r)"
  shows "settled_pipes r (replay owner_step l ({pipe}, True))"
proof -
  have made: "ln_create ln u \<noteq> Inl e" for u e using assms(1) by (metis is_ok.simps(1))
  have "wp owner_step (serve_pipes ln waits rounds pipe) settled_pipes ({pipe}, True)"
  proof (induction rounds arbitrary: pipe)
    case 0
    then show ?case by (auto intro!: wp_intros)
  next
    case (Suc rounds)
    then show ?case
      by (auto intro!: wp_intros wp_close_listener wp_listen_io acts_wait_for_connection wp_hand_over
          simp: create_server_pipe_def made split: option.splits)
  qed
  from wpD [OF this assms(2)] show ?thesis .
qed


text \<open>C20: if no other pipe can be made, the loop ends, and closes the pipe that it has just given to a worker.\<close>

theorem failed_creation_closes_given_pipe:
  assumes "\<forall>u. \<not> pc_shutdown (ln_pipe ln) u" "\<forall>u. ln_active ln u < MAX_ACTIVE_CONNECTIONS"
    "wait_for_connection (ln_pipe ln) waits pipe (t + 2) = (l1, t1, Some (Inr True))" "\<forall>u. \<not> is_ok (ln_create ln u)"
  shows "\<exists>l t'. serve_pipes ln waits (Suc rounds) pipe t = (l, t', Some ()) \<and>
    (t1 + 1, WorkerStarted pipe) \<in> set l \<and> (t1 + 3, ListenAct (PipeClosed pipe)) \<in> set l"
proof -
  obtain e where e: "ln_create ln (Suc (Suc t1)) = Inl e" using assms(4) by (metis is_ok.simps(2) sum.exhaust)
  have "\<not> MAX_ACTIVE_CONNECTIONS \<le> ln_active ln u" for u using assms(2) by (simp add: not_le)
  then show ?thesis
    using assms(1,3) e
    by (auto simp: next_ask and_next_eq relabel_eq hand_over_def create_server_pipe_def close_listener_def act_eq ask_eq
        act_got_eq)
qed

section \<open>The client\<close>

record pipe_client =
  pl_pipe :: pipe_calls
  pl_env :: environment
  pl_open :: "nat \<Rightarrow> (win_error, nat) result"
  pl_wait :: "nat \<Rightarrow> nat \<Rightarrow> (win_error, unit) result"
  pl_to_vec :: "json \<Rightarrow> string option"

datatype client_action = ClientAct pipe_action | ClientStage string

type_synonym ('e, 'a) client_program = "(client_action, ('e, 'a) result option) program"

text \<open>A pipe that is busy is waited for until the deadline.\<close>

fun connect_client :: "pipe_client \<Rightarrow> nat \<Rightarrow> nat \<Rightarrow> (pipe_error, nat) client_program" where
  "connect_client pl deadline 0 = done_with None"
| "connect_client pl deadline (Suc rounds) =
     and_next (act_got (\<lambda>pipe. ClientAct (PipeMade pipe)) (pl_open pl)) (\<lambda>r.
     case r of
       Inr pipe \<Rightarrow> returns pipe
     | Inl e \<Rightarrow>
         if e \<noteq> PipeBusy then fails (PipeOs e) else
         and_next (ask (\<lambda>t. deadline - pc_now (pl_pipe pl) t)) (\<lambda>remaining.
         if remaining = 0 then fails PipeTimedOut else
         and_next (ask (\<lambda>t. pl_wait pl t (min (2 ^ 32 - 1) (remaining div 1000000)))) (\<lambda>waited.
         case waited of
           Inr _ \<Rightarrow> connect_client pl deadline rounds
         | Inl e \<Rightarrow> if e = PipeBusy then connect_client pl deadline rounds else fails (PipeOs e))))"

definition stage :: "string \<Rightarrow> (client_action, unit) program" where
  "stage name = act (ClientStage name) (\<lambda>t. ())"

definition awaits_or :: "'d \<Rightarrow> ('e, 'a) client_program \<Rightarrow> ('a \<Rightarrow> ('d, 'b) client_program) \<Rightarrow> ('d, 'b) client_program" where
  "awaits_or kind m k =
     and_next m (\<lambda>r. case r of None \<Rightarrow> done_with None | Some (Inl e) \<Rightarrow> fails kind | Some (Inr x) \<Rightarrow> k x)"

definition pipe_environment :: "environment \<Rightarrow> (request_failure_kind, string) result" where
  "pipe_environment env =
     and_then (ok_or ProtocolKind (env SESSION_SOCKET_ENV)) (\<lambda>pipe_name.
     and_then (ok_or ProtocolKind (env SESSION_TOKEN_ENV)) (\<lambda>secret.
     and_then (ensure (valid_token (Some secret) \<and> env PROTOCOL_ENV = Some PROTOCOL_VERSION) ProtocolKind) (\<lambda>_.
     Inr secret)))"

definition pipe_exchange :: "pipe_client \<Rightarrow> tokenizer \<Rightarrow> watch \<Rightarrow> nat \<Rightarrow> nat \<Rightarrow> string \<Rightarrow>
    (request_failure_kind, bool) client_program" where
  "pipe_exchange pl tok w rounds pipe bytes =
     awaits_or TransportKind (relabel ClientAct (\<lambda>r. r) (pipe_write_frame (pl_pipe pl) w rounds pipe bytes
       MAX_BROKER_MESSAGE_BYTES)) (\<lambda>_.
     and_next (stage ''broker_request_sent'') (\<lambda>_.
     awaits_or TransportKind (relabel ClientAct (\<lambda>r. r) (pipe_read_frame (pl_pipe pl) w rounds pipe
       MAX_BROKER_RESPONSE_BYTES)) (\<lambda>response.
     and_next (stage ''broker_response_received'') (\<lambda>_.
     and_next (relabel ClientAct (\<lambda>r. r) (pipe_no_trailing_data (pl_pipe pl) pipe)) (\<lambda>r.
     if r \<noteq> Inr () then fails ProtocolKind else
     case parse_response tok response of
       None \<Rightarrow> fails ProtocolKind
     | Some decision \<Rightarrow> and_next (stage ''broker_response_parsed'') (\<lambda>_. returns decision))))))"

definition close_client :: "nat \<Rightarrow> (client_action, unit) program" where
  "close_client pipe = act (ClientAct (PipeClosed pipe)) (\<lambda>t. ())"

definition pipe_client_request :: "pipe_client \<Rightarrow> tokenizer \<Rightarrow> nat \<Rightarrow> hook_input \<Rightarrow> (request_failure_kind, bool) client_program"
where
  "pipe_client_request pl tok rounds input =
     orfail (done_with (pipe_environment (pl_env pl))) (\<lambda>e. e) (\<lambda>secret.
     and_next (ask (\<lambda>t. pc_now (pl_pipe pl) t)) (\<lambda>now.
     let w = \<lparr>watch_deadline = now + CONNECTION_NANOS, watch_shutdown = False\<rparr> in
     awaits_or TransportKind (connect_client pl (now + CONNECTION_NANOS) rounds) (\<lambda>pipe.
     and_next (stage ''broker_connected'') (\<lambda>_.
     orfail (done_with (ok_or ProtocolKind (pl_to_vec pl (request_object secret input)))) (\<lambda>e. e) (\<lambda>bytes.
     and_next (pipe_exchange pl tok w rounds pipe bytes) (\<lambda>r.
     case r of None \<Rightarrow> done_with None | Some r \<Rightarrow> and_next (close_client pipe) (\<lambda>_. done_with (Some r))))))))"

text \<open>Whatever happens on the way, a client that ends has closed its pipe, if its request can be serialized.\<close>

fun client_step :: "client_action \<Rightarrow> nat set \<Rightarrow> nat set" where
  "client_step (ClientAct (PipeMade p)) s = insert p s"
| "client_step (ClientAct (PipeClosed p)) s = s - {p}"
| "client_step a s = s"

lemma wp_client_io:
  assumes "acts_only io_actions m" "\<And>r. Q r s"
  shows "wp client_step (relabel ClientAct (\<lambda>r. r) m) Q s"
proof (rule wp_relabel, rule wp_idle [OF assms(1)])
  show "client_step (ClientAct a) s = s" if "a \<in> io_actions" for a s
    using that by (cases a) auto
qed (rule assms(2))

lemma wp_client_stage [wp_intros]: "Q () s \<Longrightarrow> wp client_step (stage name) Q s"
  unfolding stage_def by (auto intro!: wp_intros)

lemma wp_awaits_or [wp_intros]:
  "wp step m (\<lambda>r s. (r = None \<longrightarrow> Q None s) \<and> (\<forall>e. r = Some (Inl e) \<longrightarrow> Q (Some (Inl kind)) s) \<and>
     (\<forall>x. r = Some (Inr x) \<longrightarrow> wp step (k x) Q s)) s \<Longrightarrow> wp step (awaits_or kind m k) Q s"
  unfolding awaits_or_def fails_def
  by (rule wp_next, erule wp_mono) (auto intro: wp_done split: option.splits sum.splits)

lemma wp_exchange: "(\<And>r. Q r s) \<Longrightarrow> wp client_step (pipe_exchange pl tok w rounds pipe bytes) Q s"
  unfolding pipe_exchange_def
  by (auto intro!: wp_intros wp_client_io acts_frames acts_not_allowing(6) split: option.splits)

lemma wp_connect_client:
  "wp client_step (connect_client pl deadline rounds)
     (\<lambda>r s. (\<forall>pipe. r = Some (Inr pipe) \<longrightarrow> s = {pipe}) \<and> ((\<forall>pipe. r \<noteq> Some (Inr pipe)) \<longrightarrow> s = {})) {}"
  by (induction rounds) (auto intro!: wp_intros split: sum.splits)

theorem client_closes_pipe:
  assumes "\<forall>v. pl_to_vec pl v \<noteq> None" "pipe_client_request pl tok rounds input t = (l, t', Some r)"
  shows "replay client_step l {} = {}"
proof -
  have some: "pl_to_vec pl v = None \<longleftrightarrow> False" for v using assms(1) by simp
  have "wp client_step (pipe_client_request pl tok rounds input) (\<lambda>r s. r \<noteq> None \<longrightarrow> s = {}) {}"
    unfolding pipe_client_request_def close_client_def Let_def
    by (auto intro!: wp_intros wp_exchange wp_mono [OF wp_connect_client] simp: result_simps some split: option.splits)
  from wpD [OF this assms(2)] show ?thesis by simp
qed

text \<open>What the client returns is what the broker answered to the request with the secret of the session.\<close>

lemma orfail_Inr:
  "(orfail m err k t = (l, t', Some (Inr y))) =
     (\<exists>l1 t1 x l2. m t = (l1, t1, Inr x) \<and> k x t1 = (l2, t', Some (Inr y)) \<and> l = l1 @ l2)"
proof
  assume "orfail m err k t = (l, t', Some (Inr y))"
  then show "\<exists>l1 t1 x l2. m t = (l1, t1, Inr x) \<and> k x t1 = (l2, t', Some (Inr y)) \<and> l = l1 @ l2"
    by (cases rule: orfailE) auto
qed (force simp: orfail_def and_next_eq)

lemma awaits_or_Inr:
  "(awaits_or kind m k t = (l, t', Some (Inr y))) =
     (\<exists>l1 t1 x l2. m t = (l1, t1, Some (Inr x)) \<and> k x t1 = (l2, t', Some (Inr y)) \<and> l = l1 @ l2)"
proof
  assume "awaits_or kind m k t = (l, t', Some (Inr y))"
  then obtain l1 t1 x l2 where x: "m t = (l1, t1, x)" "l = l1 @ l2"
      "(case x of None \<Rightarrow> done_with None | Some (Inl e) \<Rightarrow> fails kind | Some (Inr x) \<Rightarrow> k x) t1 = (l2, t', Some (Inr y))"
    unfolding awaits_or_def and_next_eq by blast
  then show "\<exists>l1 t1 x l2. m t = (l1, t1, Some (Inr x)) \<and> k x t1 = (l2, t', Some (Inr y)) \<and> l = l1 @ l2"
    by (cases x; cases "the x") (auto simp: done_with_eq fails_def)
qed (force simp: awaits_or_def and_next_eq)

theorem client_reports_the_answer:
  assumes "pipe_client_request pl tok rounds input t = (l, t', Some (Inr decision))"
  shows "\<exists>secret bytes pipe w a b c la lb response.
    pl_env pl SESSION_TOKEN_ENV = Some secret \<and> valid_token (Some secret) \<and>
    pl_to_vec pl (request_object secret input) = Some bytes \<and>
    pipe_write_frame (pl_pipe pl) w rounds pipe bytes MAX_BROKER_MESSAGE_BYTES a = (la, b, Some (Inr ())) \<and>
    pipe_read_frame (pl_pipe pl) w rounds pipe MAX_BROKER_RESPONSE_BYTES (Suc b) = (lb, c, Some (Inr response)) \<and>
    parse_response tok response = Some decision"
proof -
  from assms obtain secret now l1 t1 where secret: "pipe_environment (pl_env pl) = Inr secret" and
    run: "awaits_or TransportKind (connect_client pl (now + CONNECTION_NANOS) rounds) (\<lambda>pipe.
     and_next (stage ''broker_connected'') (\<lambda>_.
     orfail (done_with (ok_or ProtocolKind (pl_to_vec pl (request_object secret input)))) (\<lambda>e. e) (\<lambda>bytes.
     and_next (pipe_exchange pl tok \<lparr>watch_deadline = now + CONNECTION_NANOS, watch_shutdown = False\<rparr> rounds pipe bytes) (\<lambda>r.
     case r of None \<Rightarrow> done_with None | Some r \<Rightarrow> and_next (close_client pipe) (\<lambda>_. done_with (Some r)))))) t1 =
       (l1, t', Some (Inr decision))"
    unfolding pipe_client_request_def Let_def orfail_Inr next_ask_fun
    by (auto simp: done_with_eq eq_commute [of "Inr _" "pipe_environment _"])
  define w where "w = \<lparr>watch_deadline = now + CONNECTION_NANOS, watch_shutdown = False\<rparr>"
  from run obtain pipe bytes t2 l3 t3 where
    bytes: "pl_to_vec pl (request_object secret input) = Some bytes" and
    ex: "pipe_exchange pl tok w rounds pipe bytes t2 = (l3, t3, Some (Inr decision))"
    unfolding awaits_or_Inr and_next_eq orfail_Inr stage_def close_client_def w_def
    by (auto simp: program_simps result_simps eq_commute [of "Inr _" "ok_or _ _"] split: option.splits)
  then obtain b c la lb response where
    "pipe_write_frame (pl_pipe pl) w rounds pipe bytes MAX_BROKER_MESSAGE_BYTES t2 = (la, b, Some (Inr ()))"
    "pipe_read_frame (pl_pipe pl) w rounds pipe MAX_BROKER_RESPONSE_BYTES (Suc b) = (lb, c, Some (Inr response))"
    "parse_response tok response = Some decision"
    by (auto simp: pipe_exchange_def awaits_or_Inr and_next_eq stage_def act_eq relabel_eq returns_def done_with_eq fails_def
        split: option.splits if_splits)
  moreover have "pl_env pl SESSION_TOKEN_ENV = Some secret" "valid_token (Some secret)"
    using secret by (auto simp: pipe_environment_def result_simps)
  ultimately show ?thesis using bytes by blast
qed

end
