(* ===== verification/Pipe_Run.thy ===== *)
theory Pipe_Run
  imports Pipe_Server Broker_Runs
begin

text \<open>
  A connection of the Windows broker that is allowed: a peer that is the expected process sends the request of the
  verification, and every call succeeds.
\<close>

section \<open>The peer\<close>

definition run_sid :: sid where
  "run_sid = octets [1, 1, 0, 0, 0, 0, 0, 5, 18, 0, 0, 0]"

definition run_sids :: sid_api where
  "run_sids = \<lparr>sid_ok = (\<lambda>s. True), sid_len = length, sid_same = (=)\<rparr>"

text \<open>The buffer of the token starts at 4096; the identifier is behind the 16 bytes that point to it.\<close>

definition run_tokens :: token_calls where
  "run_tokens = \<lparr>
     tk_open = (\<lambda>pid. Some 1), tk_times = (\<lambda>h. Some (0, 3)), tk_token = (\<lambda>h. Some 2), tk_length = (\<lambda>h. 28),
     tk_address = 4096,
     tk_info = (\<lambda>h. Some (28, octets [16, 16, 0, 0, 0, 0, 0, 0, 0, 0, 0, 0, 0, 0, 0, 0] @ run_sid)),
     tk_snapshot = Some 3, tk_entries = (\<lambda>h. [(7, 1)])\<rparr>"

definition run_peer :: "sid tree_record" where
  "run_peer = \<lparr>process_identity_of = \<lparr>identity_pid = 7, start_time = 3, identity_user = run_sid\<rparr>, parent_pid = 1\<rparr>"

lemma run_token: "query_token_sid run_sids run_tokens h = Inr run_sid"
  by (simp add: query_token_sid_def run_tokens_def run_sids_def run_sid_def octets_def filled_def ensure_def ok_or_def
      addr_add_def addr_mul_def sum_within_def TOKEN_USER_SIZE_def read_at_def le_val_def sid_expected_length_def Let_def)

lemma run_valid: "sid_is_valid run_sids run_sid"
  by (simp add: sid_is_valid_def sid_byte_length_def sid_expected_length_def addr_add_def addr_mul_def run_sids_def run_sid_def
      octets_def Let_def)

lemma run_read_peer: "win_process run_sids (\<lambda>t. run_tokens) t 7 = Inr run_peer"
proof -
  have "filetime_to_u64 0 3 = 3" by (simp add: filetime_to_u64_def)
  then show ?thesis
    by (simp add: win_process_def value_of_def read_process_record_def open_process_def token_user_sid_def run_token
        parent_process_id_def close_token_def process_creation_time_def program_run if_ok_def ok_or_def run_peer_def)
      (simp add: run_tokens_def ok_or_def run_token [unfolded run_tokens_def])
qed

lemma run_user: "peer_user_matches_launcher run_sids run_tokens 7 run_sid"
  using run_valid
  by (simp add: peer_user_matches_launcher_def value_of_def process_user_sid_def open_process_def token_user_sid_def run_token
      close_token_def program_run if_ok_def sid_equal_def)
    (simp add: run_tokens_def ok_or_def run_token [unfolded run_tokens_def] sid_equal_def, simp add: sid_is_valid_def run_sids_def)


section \<open>The connection\<close>

definition run_pipe :: pipe_calls where
  "run_pipe = \<lparr>
     pc_event = (\<lambda>t. Inr 5), pc_read = (\<lambda>t pipe n. Inr (if n = 4 then to_be_bytes 2 else ''{q'')),
     pc_read_result = (\<lambda>t. Inr []), pc_write = (\<lambda>t pipe s. Inr (length s)), pc_write_result = (\<lambda>t. Inr 0),
     pc_wait = (\<lambda>t ev ms. WaitSignaled), pc_last_error = (\<lambda>t. OtherError 0), pc_now = (\<lambda>t. 0), pc_shutdown = (\<lambda>t. False),
     pc_peek = (\<lambda>t pipe. Inr 0), pc_connect = (\<lambda>t pipe. Inr ()), pc_connect_result = (\<lambda>t. Inr ())\<rparr>"

definition run_static :: pipe_static where
  "run_static = \<lparr>ps_os = OsLinux, ps_tok = example_broker_tok, ps_crypto = example_crypto,
     ps_response_to_vec = (\<lambda>r. Some (CHR ''{'' # response_decision r)), ps_config = example_config,
     ps_secret = replicate 64 (CHR ''a''), ps_api = run_sids, ps_launcher = run_sid\<rparr>"

definition run_server :: server_calls where
  "run_server = \<lparr>sv_pipe = run_pipe, sv_client_pid = (\<lambda>t pipe. Some 7), sv_audit = (\<lambda>t kind. Inr ()),
     sv_expected = (\<lambda>t. Some (process_identity_of run_peer)), sv_tokens = (\<lambda>t. run_tokens), sv_verify = (\<lambda>t. True),
     sv_ledger = (\<lambda>t. empty_ledger)\<rparr>"

lemma run_validated: "pipe_validate_peer run_static run_server 7 (process_identity_of run_peer) t = ([], t + 2, True)"
proof -
  have reader: "pipe_reader run_static run_server u 7 = Inr run_peer" for u
    using run_read_peer by (simp add: pipe_reader_def run_static_def run_server_def)
  then have "ancestry_seen (identity_matches run_sids) (pipe_reader run_static run_server) t 7 (process_identity_of run_peer)
      [run_peer]"
    using run_valid
    by (simp add: ancestry_seen_def run_peer_def identity_matches_def sid_equal_def) (simp add: sid_is_valid_def run_sids_def)
  from ancestry_seen_validates [OF this] show ?thesis
    by (simp add: pipe_validate_peer_def program_run sid_validate_ancestry_def) (simp add: run_static_def)
qed

lemma run_transfer:
  "transfer run_pipe w rounds ev broken (\<lambda>u. pc_read run_pipe u pipe n) ending t =
     ([], Suc t, Some (Inr (if n = 4 then to_be_bytes 2 else ''{q'')))"
  "transfer run_pipe w rounds ev broken (\<lambda>u. pc_write run_pipe u pipe bytes) ending' t =
     ([], Suc t, Some (Inr (length bytes)))"
  by (simp_all add: transfer_def submit_def and_next_eq returns_def done_with_def run_pipe_def)

lemma run_event: "with_event run_pipe body t =
    (case body 5 (Suc t) of (l, t', None) \<Rightarrow> ((t, EventMade 5) # l, t', None)
     | (l, t', Some r) \<Rightarrow> ((t, EventMade 5) # l @ [(t', EventClosed 5)], Suc t', Some r))"
  by (simp add: with_event_def orfail_def program_run run_pipe_def split: prod.splits option.splits)

lemma run_read_turn:
  assumes "got = (if Suc n = 4 then to_be_bytes 2 else ''{q'')" "length got = Suc n"
  shows "pipe_read_loop run_pipe w rounds pipe ev (Suc turns) (Suc n) [] t = ([], Suc t, Some (Inr got))"
proof -
  have "take (Suc n) got = got" "got \<noteq> []" using assms(2) by auto
  then show ?thesis
    using assms unfolding pipe_read_loop.simps(3) awaits_def and_next_eq run_transfer(1)
    by (simp add: Let_def returns_def done_with_def del: pipe_read_loop.simps(3))
qed

lemma run_read_exact:
  assumes "got = (if n = 4 then to_be_bytes 2 else ''{q'')" "length got = n" "0 < n"
  shows "pipe_read_exact run_pipe w rounds pipe n t = ([(t, EventMade 5), (t + 2, EventClosed 5)], t + 3, Some (Inr got))"
proof -
  obtain m where "n = Suc m" using assms(3) gr0_conv_Suc by blast
  with run_read_turn [of got m] assms show ?thesis by (simp add: pipe_read_exact_def run_event)
qed

lemma run_framed:
  "pipe_read_frame run_pipe w rounds pipe MAX_BROKER_MESSAGE_BYTES t =
     ([(t, EventMade 5), (t + 2, EventClosed 5), (t + 3, EventMade 5), (t + 5, EventClosed 5)], t + 6, Some (Inr ''{q''))"
proof -
  have "length (to_be_bytes 2) = 4" by (simp add: to_be_bytes_def)
  then show ?thesis
    using run_read_exact [of "to_be_bytes 2" 4] run_read_exact [of "''{q''" 2]
    by (simp add: pipe_read_frame_def awaits_def and_next_eq from_to_be_bytes MAX_BROKER_MESSAGE_BYTES_def Let_def)
qed

lemma run_granted:
  "\<exists>l. pipe_verify_request run_static run_server 7 example_broker_request True t = (l, t + 9, True)"
proof -
  have probe: "is_verification_probe_command OsLinux example_probe"
    using example_probe_command is_verification_probe_command_iff by blast
  have authority: "pipe_authority run_static run_server = done_with True"
    using probe by (simp add: pipe_authority_def run_static_def example_config_def)
  have static: "ps_secret run_static = replicate 64 (CHR ''a'')" "cfg_admission (ps_config run_static) = None"
    "decide (ps_os run_static) (ps_tok run_static) (request_hook_input example_broker_request)
      (decision_context_of (ps_config run_static)) = Allow"
    using example_allowed by (simp_all add: run_static_def example_context_of example_broker_request_def)
      (simp add: example_config_def)
  have calls: "sv_expected run_server u = Some (process_identity_of run_peer)" "\<not> pc_shutdown (sv_pipe run_server) u"
    "pipe_reader run_static run_server u 7 = Inr run_peer" for u
    using run_read_peer by (simp_all add: run_server_def run_pipe_def run_static_def pipe_reader_def)
  have consumed: "\<exists>m. consume (ps_crypto run_static) (request_hook_input example_broker_request) (record_pid run_peer)
      (start_time (process_identity_of run_peer)) True (sv_ledger run_server u) = (True, m)" for u
    by (simp add: consume_True run_static_def run_server_def example_broker_request_def example_hook_input_def example_crypto_def
        empty_ledger_def MAX_INVOCATIONS_def)
  have later: "t + 8 = Suc (Suc (Suc (Suc (Suc (Suc (Suc (Suc t)))))))" by simp
  from consumed obtain m where "consume (ps_crypto run_static) (request_hook_input example_broker_request) (record_pid run_peer)
      (start_time (process_identity_of run_peer)) True (sv_ledger run_server (t + 8)) = (True, m)" by blast
  then have "pipe_verify_request run_static run_server 7 example_broker_request True t = ([(t + 8, LedgerSet m)], t + 9, True)"
    unfolding pipe_verify_request_def
    using static(3)
    by (simp add: when_ok_True and_next_eq ask_eq done_with_eq calls static(1,2) cases_True pipe_consume_True authority
        run_validated constant_time_equal_iff example_broker_request_def example_token later)
  then show ?thesis by blast
qed


section \<open>The allow\<close>

definition begins_allow :: "'a server_program \<Rightarrow> nat \<Rightarrow> bool" where
  "begins_allow m t = (\<exists>u. (u, Responding AllowDecision) \<in> set (fst (m t)))"

lemma begins_next: "\<lbrakk>m t = (l, t1, x); begins_allow (k x) t1\<rbrakk> \<Longrightarrow> begins_allow (and_next m k) t"
  by (auto simp: begins_allow_def and_next_def split: prod.splits)

lemma begins_ask: "begins_allow (and_next (ask f) k) t = begins_allow (k (f t)) (Suc t)"
  by (simp add: begins_allow_def next_ask_fun)

lemma begins_respond: "begins_allow (respond st sv w rounds pipe AllowDecision k) t"
  by (auto simp: begins_allow_def respond_def and_next_def act_def split: prod.splits)

lemma run_audited: "audited run_static run_server kind t = ([(t, Audited kind)], Suc t, Inr ())"
  by (simp add: audited_def act_ok_def run_static_def run_server_def example_config_def)

lemma run_answer: "begins_allow (pipe_answer run_static run_server w rounds pipe True) t"
  unfolding pipe_answer_def by (auto intro!: begins_next [OF run_audited] begins_respond)

lemma run_request: "begins_allow (pipe_handle_request run_static run_server w rounds pipe 7 ''{q'') t"
proof -
  have trailing: "relabel PipeAct (\<lambda>r. r) (pipe_no_trailing_data (sv_pipe run_server) pipe) u = ([], Suc u, Inr ())" for u
    by (simp add: pipe_no_trailing_data_def relabel_eq program_simps run_server_def run_pipe_def)
  have parsed: "parse_request (ps_tok run_static) ''{q'' = Some example_broker_request"
    using example_parsed by (simp add: run_static_def)
  have user: "peer_user_matches_launcher (ps_api run_static) (sv_tokens run_server u) 7 (ps_launcher run_static)" for u
    using run_user by (simp add: run_static_def run_server_def)
  obtain l where verified: "pipe_verify_request run_static run_server 7 example_broker_request True (Suc (Suc (Suc t))) =
      (l, Suc (Suc (Suc t)) + 9, True)" using run_granted by blast
  have answered: "begins_allow (and_next (pipe_verify_request run_static run_server 7 example_broker_request True)
      (pipe_answer run_static run_server w rounds pipe)) (Suc (Suc (Suc t)))"
    by (rule begins_next, rule verified, rule run_answer)
  show ?thesis
    unfolding pipe_handle_request_def parsed
    by (rule begins_next, rule trailing, simp, rule begins_next, rule run_audited) (simp add: begins_ask user answered)
qed

lemma run_allows: "begins_allow (pipe_handle_connection run_static run_server rounds 9) 0"
proof -
  have framed: "relabel PipeAct (\<lambda>r. r) (pipe_read_frame (sv_pipe run_server) w rounds 9 MAX_BROKER_MESSAGE_BYTES) u =
      ([(u, PipeAct (EventMade 5)), (u + 2, PipeAct (EventClosed 5)), (u + 3, PipeAct (EventMade 5)),
        (u + 5, PipeAct (EventClosed 5))], u + 6, Some (Inr ''{q''))" for w u
    using run_framed [of w rounds 9 u] by (simp add: relabel_def run_server_def)
  have client: "sv_client_pid run_server u 9 = Some 7" for u by (simp add: run_server_def)
  show ?thesis
    unfolding pipe_handle_connection_def Let_def
    by (simp add: begins_ask client, rule begins_next, rule run_audited, simp add: begins_ask, rule begins_next, rule framed)
      (simp add: run_request)
qed

theorem pipe_allow_only_after_checks_witness:
  "\<exists>l t' r u a b fl w. pipe_handle_connection run_static run_server 1 9 0 = (l, t', r) \<and>
     (u, Responding AllowDecision) \<in> set l \<and>
     pipe_read_frame run_pipe w 1 9 MAX_BROKER_MESSAGE_BYTES a = (fl, b, Some (Inr ''{q'')) \<and>
     allowed_properly run_static run_server 7 ''{q'' l b u"
proof -
  obtain l t' r where run: "pipe_handle_connection run_static run_server 1 9 0 = (l, t', r)" by (metis prod_cases3)
  then obtain u where u: "(u, Responding AllowDecision) \<in> set l"
    using run_allows [of 1] by (auto simp: begins_allow_def)
  from pipe_allow_only_after_checks [OF run u] obtain pid w a b frame fl where
    "sv_client_pid run_server 0 9 = Some pid"
    and read: "pipe_read_frame (sv_pipe run_server) w 1 9 MAX_BROKER_MESSAGE_BYTES a = (fl, b, Some (Inr frame))"
    and ok: "allowed_properly run_static run_server pid frame l b u" by blast
  then have "pid = 7" by (simp add: run_server_def)
  moreover have "sv_pipe run_server = run_pipe" by (simp add: run_server_def)
  moreover from this read have "frame = ''{q''" using run_framed [of w 1 9 a] by simp
  ultimately show ?thesis using run u read ok by (intro exI conjI) simp_all
qed


section \<open>A pipe that is closed under its worker\<close>

definition run_listener :: listener_calls where
  "run_listener = \<lparr>ln_pipe = run_pipe, ln_create = (\<lambda>t. Inl PipeBusy), ln_active = (\<lambda>t. 15)\<rparr>"

theorem failed_creation_closes_given_pipe_witness:
  "\<exists>l t'. serve_pipes run_listener 1 1 9 0 = (l, t', Some ()) \<and>
    (6, WorkerStarted 9) \<in> set l \<and> (8, ListenAct (PipeClosed 9)) \<in> set l"
proof -
  have connected: "wait_for_connection (ln_pipe run_listener) 1 9 (0 + 2) =
      ([(2, EventMade 5), (4, EventClosed 5)], 5, Some (Inr True))"
    by (simp add: wait_for_connection_def run_listener_def run_event and_next_def submit_def returns_def done_with_def)
      (simp add: run_pipe_def returns_def done_with_def)
  from failed_creation_closes_given_pipe [OF _ _ connected, of 0]
  show ?thesis by (simp add: run_listener_def MAX_ACTIVE_CONNECTIONS_def) (simp add: run_pipe_def)
qed

end
