(* ===== verification/Spec2Isabelle.thy ===== *)
theory Spec2Isabelle
  imports Selection Verify Cli Hook Codex State_Processes Verification_Run Session_Files Roadmap_Render Configure Access_Lists Pipe_Run
begin

text \<open>
  This library models codex-autoapprover, a launcher that runs the official Codex command line
  and may answer its permission requests, and proves what the launcher promises: a request is allowed
  only for the exact certified program on the exact certified host, once, by the process that asked
  for it, while the session lives; what is recorded about a session is true; and an update is offered
  only when it applies.

  \<^bold>\<open>How the program works.\<close>  The launcher (\<^verbatim>\<open>src/launcher.rs\<close>) inspects the installed Codex
  (\<^verbatim>\<open>src/codex.rs\<close>), observes the host (\<^verbatim>\<open>src/environment.rs\<close>), binds every file
  of the Codex package by its digest (\<^verbatim>\<open>src/artifact.rs\<close>, \<^verbatim>\<open>src/identity.rs\<close>) and
  compares the tuple with the manifest that is built in (\<^verbatim>\<open>src/admission.rs\<close>,
  \<^verbatim>\<open>src/certification.rs\<close>).  If the tuple is certified it starts the broker
  (\<^verbatim>\<open>src/broker/\<close>) and the child with a session secret in its environment
  (\<^verbatim>\<open>src/arming.rs\<close>).  Codex starts the hook (\<^verbatim>\<open>src/hook.rs\<close>) for each
  permission request; the hook sends the request to the broker over a socket, the broker
  authenticates the peer (\<^verbatim>\<open>src/process/linux.rs\<close>), decides
  (\<^verbatim>\<open>src/decision.rs\<close>), consumes the request in its ledger and answers; the hook prints the
  allow response or nothing.  Both write a private log (\<^verbatim>\<open>src/audit.rs\<close>), which is read at the end
  of the session (\<^verbatim>\<open>src/update/outcome.rs\<close>) and merged into the state of the user
  (\<^verbatim>\<open>src/update/state.rs\<close>).  Release metadata is parsed, validated and selected from by
  \<^verbatim>\<open>src/update/manifest.rs\<close> and \<^verbatim>\<open>src/update/selection.rs\<close>.

  \<^bold>\<open>Common ground.\<close>  \<open>Prelude\<close> has the results (an error on the left, a value on the right), their
  sequencing and the shared lemmas; \<open>Codec\<close> the contract of a printer and a parser, a locale that
  is interpreted on the version and the digest texts; \<open>Rust_Text\<close> the string operations of Rust's
  library that the sources call, on strings of bytes; \<open>Json\<close> the visitors that refuse repeated
  keys; \<open>Paths\<close> and \<open>Host_Calls\<close> paths and the calls to the operating system.

  \<^bold>\<open>Release metadata.\<close>  \<open>Versions\<close>, \<open>Manifest_Data\<close>, \<open>Manifest\<close>, \<open>Verify\<close>: the types and every check of
  \<^verbatim>\<open>src/update/manifest.rs\<close>; parsing accepts exactly the valid manifests, and a validated
  manifest has distinct identities.  \<open>Runtime\<close>, \<open>Selection\<close>: the choice of a release is sound, complete
  and does not depend on the order of the catalog.

  \<^bold>\<open>One request.\<close>  \<open>Protocol\<close> is the wire format of the hook, \<open>Compatibility\<close> the table of schemas and the probe
  command, \<open>Certification\<close> the manifest of certified tuples, \<open>Codex\<close> the version text, the capability probe
  and the quoting of command lines, \<open>Decision\<close> the pure decision, which reports the first check that fails.
  \<open>Process_Tree\<close> reads the ancestry of a process twice; its reader is a locale, interpreted on the files of
  \<^verbatim>\<open>/proc\<close>.

  \<^bold>\<open>The broker.\<close>  \<open>Frames\<close> is the framing on a byte stream, where each read or write may move any number of
  bytes, stall or fail.  \<open>Ledger\<close> consumes requests; the locale \<open>one_shot\<close> says what a resource that is used
  once promises and is interpreted for the process and for the digest.  \<open>Broker\<close> has the authorization of a peer
  and the handler of a connection, a state machine with one step per effect; \<open>Broker_System\<close> the accept loop with
  its workers as a step relation in which the connections interleave in any order; \<open>Broker_Runs\<close> and
  \<open>Broker_Audit\<close> what every run satisfies: a request is allowed only after every check, no request and no
  process is granted twice, at most 16 connections are active, nothing is granted after the shutdown but what had passed the
  second look at the flag, and the log tells the truth.  The second look at the flag and the checks of the peer that follow the decision are
  two steps of a connection, between which others may act.  \<open>Hook\<close> composes the client with a broker: it prints an allow
  response only if the broker granted the request.

  \<open>Session_Files\<close> is the session that the broker serves: its private directories, the socket in one of them and the
  log in the other; they were seen to be private before they are used, and their removal is tried on every path, whatever
  fails before; a cleanup that reports success has removed them.

  \<^bold>\<open>What is recorded.\<close>  \<open>Audit_Log\<close> and \<open>Outcome\<close> write and read the log.  \<open>Update_State\<close> is the bounded
  state of the user and refines a map from identities to merged sessions; \<open>Private_Files\<close> and \<open>State_Store\<close> its
  storage: a save is a sequence of steps on a directory after any of which the process may die, and the file
  holds the old or the new state.  \<open>State_Processes\<close> runs any number of processes against one directory; no
  update is lost.

  \<^bold>\<open>Admission.\<close>  A check of the launcher is a sequence of calls (\<open>Host_Calls\<close>): calls are numbered, and a
  record gives the answer of each call as any function of its number, so the host may change between
  two calls.  \<open>Trusted_Files\<close>, \<open>Host_Environment\<close>, \<open>Artifact\<close> and \<open>Admission\<close> are
  \<^verbatim>\<open>src/identity.rs\<close>, \<^verbatim>\<open>src/environment.rs\<close>, \<^verbatim>\<open>src/artifact.rs\<close>
  and \<^verbatim>\<open>src/admission.rs\<close> on Linux; the theorems say what was observed, and when, if a check
  succeeds.  \<open>Admission_Run\<close> is a host on which an admission is given.

  \<^bold>\<open>The launcher.\<close>  \<open>Effects\<close> has programs that act: beside a value they leave a log of what they did, and an
  error is a value that the program looks at, so that cleaning up is part of the model.  It has the rules for the
  weakest condition before a program with respect to a state that the actions change, which may depend on what a call
  returned at the moment of its action: so a removal counts as done only where it succeeded.  \<open>Child_Tree\<close> stops a
  process tree; \<open>Launcher\<close> is \<^verbatim>\<open>src/launcher.rs\<close>: the inspection, the run with approvals and
  without, the wait for the child and the record of the session.  \<open>Launcher_Runs\<close> and \<open>Launcher_Safety\<close> show that
  approvals are armed only for the child whose process was verified after the admission, that each run
  that ends has stopped the broker and cleaned up the session on every path, that with the manifest that is
  built in every run is without approvals and runs the Codex that was found with the given arguments, and how the wait for a child ends.

  \<^bold>\<open>The local verification.\<close>  \<open>Verification_Probe\<close> is the witness on the loopback address
  (\<^verbatim>\<open>src/verification_probe.rs\<close>), which recognises the one request whatever the pieces are in which it
  comes; \<open>Verification_Setup\<close> and \<open>Local_Verification\<close> are \<^verbatim>\<open>verify_local_hook\<close> with the
  confirmation, the copied login, the temporary directories, the child and the evidence.
  \<open>Verification_Safety\<close> shows that it tries to end everything that it has started on every path, the process group of
  the child included, that a success leaves nothing behind, and what its success means;
  \<open>Verification_Run\<close> is a verification that succeeds.

  \<^bold>\<open>The roadmap.\<close>  \<open>Dependency_Order\<close>, \<open>Roadmap\<close> and \<open>Roadmap_Render\<close> are
  \<^verbatim>\<open>src/bin/validate_distribution_roadmap.rs\<close>: the depth first search accepts exactly the acyclic
  dependencies, an accepted roadmap is consistent and holds no private text, and the check accepts exactly
  the file that is its rendering.

  \<^bold>\<open>The configuration.\<close>  \<open>Configure\<close> is \<^verbatim>\<open>src/configure.rs\<close> outside Windows: what is rendered reads as
  the mode that was asked for and is rendered to itself; the file is changed only under the lock, from what was read twice,
  with a backup; and every update tries to remove its lock and its temporary files, but for the file that an error owns, and leaves
  nothing when it succeeds.

  \<^bold>\<open>Windows.\<close>  \<open>Raw_Memory\<close> has memory that the system fills in, where a read outside is a fault.
  \<open>Sid_Tokens\<close> is \<^verbatim>\<open>src/process/windows.rs\<close>: the identifier in a token is never read out of its buffer,
  every handle is closed, and the walk to the ancestors is the one of \<open>Process_Tree\<close> with another kind of user.
  \<open>Access_Lists\<close> is \<^verbatim>\<open>src/identity/windows_acl.rs\<close>: what passes the check grants no right to change the
  object to anyone who is not trusted, as the system evaluates the entries, and no read leaves the list.
  \<open>Pipe_Frames\<close>, \<open>Pipe_Broker\<close> and \<open>Pipe_Server\<close> are \<^verbatim>\<open>src/broker/windows.rs\<close>: an operation on a pipe
  is never left pending, a connection closes its pipe once and ends by its deadline, an allow is begun only after every check
  has passed in its order, and the accept loop owns the pipes that it closes as long as the next one can be made.  A pipe that
  cannot be made ends the loop, which then closes the pipe that a worker has.  \<open>Pipe_Run\<close> is a connection that is allowed.

  \<^bold>\<open>Bounds and fuel.\<close>  Limits are those of the code.  Loops that end by their structure are recursive functions;
  the loops that read and list end by the limits, the framing loops by the list of events that the stream
  delivers, the waiting loops (the capability probe, the lock of the state, the child, the confirmation, the witness) by their deadline or when they are
  stopped: they take
  the rounds as an argument and give no value when the rounds run out before the loop ends.

  \<^bold>\<open>Parameters.\<close>  SHA-256, the JSON tokenizer and serializer of \<^verbatim>\<open>serde_json\<close>, the random source,
  the clock and every call to the operating system are arguments.  Where a property needs
  that a digest does not collide, or that the tokenizer reads the text that is built in, it says so.

  \<^bold>\<open>Not modelled.\<close>  Of the Windows broker, creating the session, the security descriptor of the pipe and starting
  the threads, and the console handler are not modelled; the derived decoders and the command line parser belong to
  packages; \<^verbatim>\<open>src/main.rs\<close>, the module lists and the signal handlers are glue;
  \<^verbatim>\<open>src/bin/fake_codex.rs\<close> is a test double.  Durability across a power failure is not modelled:
  a completed write is on the disk.  In \<^verbatim>\<open>src/configure.rs\<close> the
  replacement by \<^verbatim>\<open>ReplaceFileW\<close> is not modelled: the subcommand itself refuses every other system than
  Windows, and its update is modelled as the other systems build it.  \<^verbatim>\<open>diagnose\<close> only prints.
\<close>

end
